(* ===== verification/Prelude.thy ===== *)
theory Prelude
  imports Main "HOL-Library.AList" "HOL-Library.Monad_Syntax" "HOL-Library.Code_Target_Numeral"
begin

text \<open>
  What every component of the model shares: the JavaScript values the code relies on
  (safe integers, text trimming, hexadecimal patterns, insertion-ordered \<open>Map\<close>s as
  association lists), the parameters that stand for code outside the repository, the
  \<open>named_theorems\<close> collections of the development and generic lemmas on lists, options
  and results.  Strings are lists of 8-bit characters, that is, the JavaScript strings whose
  code units are below 256.
\<close>

section \<open>Collections of facts\<close>

named_theorems js_simps \<open>evaluation rules for the JavaScript library functions\<close>
named_theorems parse_simps \<open>what a successful schema parse says of its result\<close>
named_theorems result_elims \<open>inversion of successful results\<close>

section \<open>Results\<close>

text \<open>A pure operation that may throw returns \<open>Inl\<close> of the error or \<open>Inr\<close> of its
  value.  An operation of a stateful class returns the result together with the state it
  leaves behind, also when it throws.\<close>

type_synonym ('e, 'a) result = "'e + 'a"
type_synonym ('s, 'e, 'a) outcome = "('e + 'a) \<times> 's"

definition bind_result :: "'e + 'a \<Rightarrow> ('a \<Rightarrow> 'e + 'b) \<Rightarrow> 'e + 'b" where
  "bind_result r f = (case r of Inl e \<Rightarrow> Inl e | Inr x \<Rightarrow> f x)"

definition ensure :: "bool \<Rightarrow> 'e \<Rightarrow> 'e + 'a \<Rightarrow> 'e + 'a" where
  "ensure ok e k = (if ok then k else Inl e)"

definition of_option :: "'e \<Rightarrow> 'a option \<Rightarrow> 'e + 'a" where
  "of_option e v = (case v of None \<Rightarrow> Inl e | Some x \<Rightarrow> Inr x)"

lemma bind_result_Inr [simp]: "bind_result (Inr x) f = f x"
  and bind_result_Inl [simp]: "bind_result (Inl e) f = Inl e"
  by (simp_all add: bind_result_def)

lemma bind_result_eq_Inr [simp]:
  "bind_result r f = Inr y \<longleftrightarrow> (\<exists>x. r = Inr x \<and> f x = Inr y)"
  by (cases r) auto

lemma ensure_eq_Inr [simp]: "ensure ok e k = Inr x \<longleftrightarrow> ok \<and> k = Inr x"
  by (simp add: ensure_def)

lemma ensure_True [simp]: "ensure True e k = k" and ensure_False [simp]: "ensure False e k = Inl e"
  by (simp_all add: ensure_def)

lemma of_option_eq_Inr [simp]: "of_option e v = Inr x \<longleftrightarrow> v = Some x"
  by (simp add: of_option_def split: option.splits)

lemma of_option_Some [simp]: "of_option e (Some x) = Inr x"
  and of_option_None [simp]: "of_option e None = Inl e"
  by (simp_all add: of_option_def)

lemma of_option_eq_Inl [simp]: "of_option e v = Inl e' \<longleftrightarrow> v = None \<and> e' = e"
  by (auto simp add: of_option_def split: option.splits)

lemma case_sum_Inl_eq_Inr [simp]:
  "(case r of Inl e \<Rightarrow> Inl (g e) | Inr h \<Rightarrow> f h) = Inr x \<longleftrightarrow> (\<exists>h. r = Inr h \<and> f h = Inr x)"
  by (cases r) auto

lemma projr_eqI: "\<not> isl r \<Longrightarrow> r = Inr (projr r)"
  by (cases r) auto

section \<open>Numbers\<close>

text \<open>A JavaScript number as the code inspects it: a mathematical integer, or anything
  else (a fraction, \<open>NaN\<close>, an infinity), for which \<open>Number.isInteger\<close> is false.\<close>

datatype js_number = Whole int | NonWhole

definition max_safe_integer :: int where
  "max_safe_integer = 9007199254740991"

definition safe_int :: "int \<Rightarrow> bool" where
  "safe_int n \<longleftrightarrow> - max_safe_integer \<le> n \<and> n \<le> max_safe_integer"

fun is_integer :: "js_number \<Rightarrow> bool" where
  "is_integer (Whole n) = True"
| "is_integer NonWhole = False"

fun is_safe_integer :: "js_number \<Rightarrow> bool" where
  "is_safe_integer (Whole n) = safe_int n"
| "is_safe_integer NonWhole = False"

text \<open>\<open>whole_between lo hi n\<close>: an integer in the closed range, the code's
  \<open>Number.isInteger(n) && n >= lo && n <= hi\<close>.\<close>

fun whole_between :: "int \<Rightarrow> int \<Rightarrow> js_number \<Rightarrow> bool" where
  "whole_between lo hi (Whole n) = (lo \<le> n \<and> n \<le> hi)"
| "whole_between lo hi NonWhole = False"

fun whole_value :: "js_number \<Rightarrow> int" where
  "whole_value (Whole n) = n"
| "whole_value NonWhole = 0"

lemma whole_betweenD: "whole_between lo hi n \<Longrightarrow> lo \<le> whole_value n \<and> whole_value n \<le> hi"
  by (cases n) auto

text \<open>Decimal text of an integer, as in a template literal.\<close>

fun show_nat :: "nat \<Rightarrow> string" where
  "show_nat n = (if n < 10 then [char_of (48 + n)] else show_nat (n div 10) @ [char_of (48 + n mod 10)])"

declare show_nat.simps [simp del]

definition show_int :: "int \<Rightarrow> string" where
  "show_int n = (if n < 0 then CHR ''-'' # show_nat (nat (- n)) else show_nat (nat n))"

section \<open>Text\<close>

definition js_space :: "char \<Rightarrow> bool" where
  "js_space c \<longleftrightarrow> (let n = (of_char c :: nat) in (9 \<le> n \<and> n \<le> 13) \<or> n = 32 \<or> n = 160)"

definition js_trim :: "string \<Rightarrow> string" where
  "js_trim s = rev (dropWhile js_space (rev (dropWhile js_space s)))"

lemma dropWhile_rev_dropWhile:
  "dropWhile P (rev (dropWhile P (rev (dropWhile P s)))) = rev (dropWhile P (rev (dropWhile P s)))"
proof (cases "dropWhile P s")
  case Nil
  show ?thesis by (simp only: Nil) simp
next
  case (Cons a as)
  then have "\<not> P a" by (metis dropWhile_eq_Cons_conv)
  with Cons show ?thesis
    by (simp add: dropWhile_append)
qed

lemma js_trim_idem [simp, js_simps]: "js_trim (js_trim s) = js_trim s"
  unfolding js_trim_def
  by (simp add: dropWhile_rev_dropWhile[of js_space s] dropWhile_idem)

lemma length_js_trim: "length (js_trim s) \<le> length s"
  unfolding js_trim_def
  by (metis length_dropWhile_le length_rev order_trans)

definition is_lower_hex :: "char \<Rightarrow> bool" where
  "is_lower_hex c \<longleftrightarrow> c \<in> set ''0123456789abcdef''"

definition is_digit :: "char \<Rightarrow> bool" where
  "is_digit c \<longleftrightarrow> (let n = (of_char c :: nat) in 48 \<le> n \<and> n \<le> 57)"

definition is_lower :: "char \<Rightarrow> bool" where
  "is_lower c \<longleftrightarrow> (let n = (of_char c :: nat) in 97 \<le> n \<and> n \<le> 122)"

text \<open>The regular expression \<open>/^[a-f0-9]{64}$/\<close>.\<close>

definition sha256_pattern :: "string \<Rightarrow> bool" where
  "sha256_pattern s \<longleftrightarrow> length s = 64 \<and> list_all is_lower_hex s"

text \<open>The regular expression \<open>/^\d{4}$/\<close>.\<close>

definition four_digits :: "string \<Rightarrow> bool" where
  "four_digits s \<longleftrightarrow> length s = 4 \<and> list_all is_digit s"

section \<open>Code outside the repository\<close>

text \<open>
  The parameters of the model: \<open>sha_hex\<close> is the SHA-256 digest of a text as lower-case
  hexadecimal (\<open>node:crypto\<close>), \<open>z_uuid\<close>, \<open>z_datetime\<close> and \<open>z_email\<close> are the
  formats of the validation library (\<open>zod\<close>), \<open>legacy_date\<close> is what \<open>Date.parse\<close>
  answers on a text outside the ECMAScript date-time format (implementation-defined),
  \<open>collate\<close> is \<open>String.prototype.localeCompare\<close> (locale data), \<open>clock\<close> gives the
  successive readings of the injected clock in milliseconds and \<open>random\<close> the successive
  identifiers drawn from the injected or platform generator.
\<close>

record env =
  sha_hex :: "string \<Rightarrow> string"
  z_uuid :: "string \<Rightarrow> bool"
  z_datetime :: "string \<Rightarrow> bool"
  z_email :: "string \<Rightarrow> bool"
  legacy_date :: "string \<Rightarrow> int option"
  collate :: "string \<Rightarrow> string \<Rightarrow> int"
  clock :: "nat \<Rightarrow> int"
  random :: "nat \<Rightarrow> string"

text \<open>An environment for the witnesses: a constant 64-digit digest, formats that accept
  every text, a clock that advances one second per reading, identifiers by number.\<close>

definition sample_env :: env where
  "sample_env = \<lparr>sha_hex = (\<lambda>_. replicate 64 (CHR ''a'')), z_uuid = (\<lambda>_. True),
     z_datetime = (\<lambda>_. True), z_email = (\<lambda>_. True), legacy_date = (\<lambda>_. None),
     collate = (\<lambda>s t. if s = t then 0 else 1),
     clock = (\<lambda>n. 1784073600000 + 1000 * int n), random = (\<lambda>n. ''id-'' @ show_nat n)\<rparr>"

section \<open>Insertion-ordered maps\<close>

text \<open>A JavaScript \<open>Map\<close> is an association list in insertion order: \<open>map_of\<close> reads it
  and \<open>AList.update\<close> is \<open>Map.set\<close> (an existing key keeps its place, a new one goes to the
  end).\<close>

type_synonym ('k, 'v) js_map = "('k \<times> 'v) list"

abbreviation map_set :: "'k \<Rightarrow> 'v \<Rightarrow> ('k, 'v) js_map \<Rightarrow> ('k, 'v) js_map" where
  "map_set \<equiv> AList.update"

lemma map_of_map_set [simp]: "map_of (map_set k v m) k' = (if k' = k then Some v else map_of m k')"
  by (simp add: update_conv')

lemma keys_map_set: "fst ` set (map_set k v m) = insert k (fst ` set m)"
  by (simp add: dom_update)

lemma distinct_map_set: "distinct (map fst m) \<Longrightarrow> distinct (map fst (map_set k v m))"
  by (rule distinct_update)

lemma map_set_new: "map_of m k = None \<Longrightarrow> map_set k v m = m @ [(k, v)]"
  by (induction m) auto

lemma length_map_set: "length (map_set k v m) = (if map_of m k = None then Suc (length m) else length m)"
  by (induction m) auto

section \<open>Lists\<close>

lemma find_SomeD: "List.find P xs = Some x \<Longrightarrow> x \<in> set xs \<and> P x"
  by (auto simp: find_Some_iff)

lemma find_eq_None: "List.find P xs = None \<longleftrightarrow> (\<forall>x \<in> set xs. \<not> P x)"
  by (auto simp: find_None_iff)

lemma find_append: "List.find P (xs @ ys) = (case List.find P xs of None \<Rightarrow> List.find P ys | Some x \<Rightarrow> Some x)"
  by (induction xs) auto

text \<open>\<open>find_index p xs\<close>: the position of the first match.\<close>

fun find_index :: "('a \<Rightarrow> bool) \<Rightarrow> 'a list \<Rightarrow> nat option" where
  "find_index p [] = None"
| "find_index p (x # xs) = (if p x then Some 0 else map_option Suc (find_index p xs))"

lemma find_index_SomeD:
  "find_index p xs = Some i \<Longrightarrow> i < length xs \<and> p (xs ! i) \<and> (\<forall>j < i. \<not> p (xs ! j))"
proof (induction xs arbitrary: i)
  case Nil
  then show ?case by simp
next
  case (Cons x xs)
  show ?case
  proof (cases "p x")
    case True
    with Cons.prems show ?thesis by auto
  next
    case False
    with Cons.prems obtain k where "find_index p xs = Some k" and "i = Suc k" by auto
    with Cons.IH[of k] False show ?thesis
      by (auto simp: nth_Cons split: nat.splits)
  qed
qed

lemma find_index_None: "find_index p xs = None \<longleftrightarrow> (\<forall>x \<in> set xs. \<not> p x)"
  by (induction xs) auto

text \<open>\<open>traverse f xs\<close>: a parser applied to every element, failing when one fails.\<close>

fun traverse :: "('a \<Rightarrow> 'b option) \<Rightarrow> 'a list \<Rightarrow> 'b list option" where
  "traverse f [] = Some []"
| "traverse f (x # xs) = (case f x of None \<Rightarrow> None
     | Some y \<Rightarrow> (case traverse f xs of None \<Rightarrow> None | Some ys \<Rightarrow> Some (y # ys)))"

lemma traverse_SomeD: "traverse f xs = Some ys \<Longrightarrow> list_all2 (\<lambda>x y. f x = Some y) xs ys"
  by (induction xs arbitrary: ys) (auto split: option.splits)

lemma traverse_id: "(\<And>x. x \<in> set xs \<Longrightarrow> f x = Some x) \<Longrightarrow> traverse f xs = Some xs"
  by (induction xs) auto

lemma traverse_length: "traverse f xs = Some ys \<Longrightarrow> length ys = length xs"
  by (induction xs arbitrary: ys) (auto split: option.splits)

lemma traverse_append:
  "traverse f (xs @ ys) = (case traverse f xs of None \<Rightarrow> None
     | Some us \<Rightarrow> (case traverse f ys of None \<Rightarrow> None | Some vs \<Rightarrow> Some (us @ vs)))"
  by (induction xs) (auto split: option.splits)

lemma traverse_map_same:
  assumes "traverse f xs = Some ys" and "\<And>x y. f x = Some y \<Longrightarrow> g y = g x"
  shows "map g ys = map g xs"
  using assms by (induction xs arbitrary: ys) (auto split: option.splits)

text \<open>\<open>map_result f xs\<close>: a mapping callback that may throw, elements in order.\<close>

fun map_result :: "('a \<Rightarrow> 'e + 'b) \<Rightarrow> 'a list \<Rightarrow> 'e + 'b list" where
  "map_result f [] = Inr []"
| "map_result f (x # xs) = bind_result (f x) (\<lambda>y. bind_result (map_result f xs) (\<lambda>ys. Inr (y # ys)))"

lemma map_result_Inr: "map_result f xs = Inr ys \<longleftrightarrow> list_all2 (\<lambda>x y. f x = Inr y) xs ys"
  by (induction xs arbitrary: ys) (auto simp: list_all2_Cons1)

lemma map_result_all:
  assumes "map_result f xs = Inr ys" and "\<And>x y. f x = Inr y \<Longrightarrow> P y \<and> g y = x"
  shows "list_all P ys \<and> map g ys = xs"
  using assms by (induction xs arbitrary: ys) auto

lemma map_result_succeeds:
  assumes "\<forall>x \<in> set xs. \<exists>y. f x = Inr y \<and> P y \<and> g y = x"
  shows "\<exists>ys. map_result f xs = Inr ys \<and> list_all P ys \<and> map g ys = xs"
  using assms by (induction xs) fastforce+

text \<open>\<open>unique xs\<close>: \<open>[...new Set(xs)]\<close>, first occurrences in order.\<close>

fun unique_from :: "'a list \<Rightarrow> 'a list \<Rightarrow> 'a list" where
  "unique_from seen [] = []"
| "unique_from seen (x # xs) =
     (if x \<in> set seen then unique_from seen xs else x # unique_from (x # seen) xs)"

definition js_unique :: "'a list \<Rightarrow> 'a list" where
  "js_unique xs = unique_from [] xs"

lemma set_unique_from: "set (unique_from seen xs) = set xs - set seen"
  by (induction seen xs rule: unique_from.induct) auto

lemma set_js_unique [simp]: "set (js_unique xs) = set xs"
  by (simp add: js_unique_def set_unique_from)

lemma distinct_unique_from: "distinct (unique_from seen xs)"
  by (induction seen xs rule: unique_from.induct) (auto simp: set_unique_from)

lemma distinct_js_unique [simp]: "distinct (js_unique xs)"
  by (simp add: js_unique_def distinct_unique_from)

lemma unique_from_distinct: "distinct xs \<Longrightarrow> set xs \<inter> set seen = {} \<Longrightarrow> unique_from seen xs = xs"
  by (induction seen xs rule: unique_from.induct) auto

lemma js_unique_distinct: "distinct xs \<Longrightarrow> js_unique xs = xs"
  by (simp add: js_unique_def unique_from_distinct)

lemma js_unique_idem [simp]: "js_unique (js_unique xs) = js_unique xs"
  by (simp add: js_unique_distinct)

lemma js_unique_Nil [simp]: "js_unique xs = [] \<longleftrightarrow> xs = []"
  by (metis set_empty set_js_unique)

text \<open>\<open>join sep xs\<close>: \<open>Array.prototype.join\<close>.\<close>

fun join :: "string \<Rightarrow> string list \<Rightarrow> string" where
  "join sep [] = ''''"
| "join sep [x] = x"
| "join sep (x # y # ys) = x @ sep @ join sep (y # ys)"

end
