(* ===== verification/Js_Date.thy ===== *)
theory Js_Date
  imports Prelude
begin

text \<open>
  The part of the JavaScript \<open>Date\<close> object the code uses: \<open>Date.parse\<close> on the
  ECMAScript date-time format with an offset and \<open>toISOString\<close>, on milliseconds since
  1970, with the proleptic Gregorian calendar of the language definition.  A text outside
  that format is left to the implementation (\<open>legacy_date\<close>).  The theory ends with the
  round trip: parsing what \<open>toISOString\<close> printed gives the time value back.
\<close>

section \<open>The calendar\<close>

definition day_from_year :: "int \<Rightarrow> int" where
  "day_from_year y = 365 * (y - 1970) + (y - 1969) div 4 - (y - 1901) div 100 + (y - 1601) div 400"

definition leap_year :: "int \<Rightarrow> bool" where
  "leap_year y \<longleftrightarrow> y mod 4 = 0 \<and> (y mod 100 \<noteq> 0 \<or> y mod 400 = 0)"

lemma day_from_year_Suc:
  "day_from_year (y + 1) = day_from_year y + (if leap_year y then 366 else 365)"
proof -
  have step: "(x + 1) div c = x div c + (if (x + 1) mod c = 0 then 1 else 0)" if "c = 4 \<or> c = 100 \<or> c = 400"
    for x c :: int
  proof -
    have "1 < c" using that by auto
    then have m: "x mod c < c" "0 \<le> x mod c" "(1::int) mod c = 1" "(1::int) div c = 0" by simp_all
    have "(x + 1) div c = x div c + (x mod c + 1) div c"
      using div_add1_eq[of x 1 c] m by simp
    moreover have "(x mod c + 1) div c = (if x mod c + 1 = c then 1 else 0)"
    proof (cases "x mod c + 1 = c")
      case False
      with m have "0 \<le> x mod c + 1" "x mod c + 1 < c" by linarith+
      with False show ?thesis using div_pos_pos_trivial[of "x mod c + 1" c] by simp
    qed (use \<open>1 < c\<close> in simp)
    moreover have "(x + 1) mod c = (if x mod c + 1 = c then 0 else x mod c + 1)"
    proof (cases "x mod c + 1 = c")
      case True
      then show ?thesis using m mod_add_eq[of x c 1] by simp
    next
      case False
      with m have "0 \<le> x mod c + 1" "x mod c + 1 < c" by linarith+
      with False show ?thesis
        using m mod_add_eq[of x c 1] mod_pos_pos_trivial[of "x mod c + 1" c] by simp
    qed
    ultimately show ?thesis using m by auto
  qed
  have mods: "(y - 1968) mod 4 = y mod 4" "(y - 1900) mod 100 = y mod 100" "(y - 1600) mod 400 = y mod 400"
    using mod_mult_self1[of "y - 1968" 492 4] mod_mult_self1[of "y - 1900" 19 100]
      mod_mult_self1[of "y - 1600" 4 400] by simp_all
  have e: "y - 1969 + 1 = y - 1968" "y - 1901 + 1 = y - 1900" "y - 1601 + 1 = y - 1600" by simp_all
  have s4: "(y - 1968) div 4 = (y - 1969) div 4 + (if y mod 4 = 0 then 1 else 0)"
    by (rule step[of 4 "y - 1969", unfolded e mods]) simp
  have s100: "(y - 1900) div 100 = (y - 1901) div 100 + (if y mod 100 = 0 then 1 else 0)"
    by (rule step[of 100 "y - 1901", unfolded e mods]) simp
  have s400: "(y - 1600) div 400 = (y - 1601) div 400 + (if y mod 400 = 0 then 1 else 0)"
    by (rule step[of 400 "y - 1601", unfolded e mods]) simp
  have "y mod 100 mod 4 = y mod 4" "y mod 400 mod 100 = y mod 100"
    by (rule mod_mod_cancel; simp)+
  then have imp: "y mod 100 = 0 \<Longrightarrow> y mod 4 = 0" "y mod 400 = 0 \<Longrightarrow> y mod 100 = 0" by auto
  have "day_from_year (y + 1) = 365 * (y - 1970) + 365 + (y - 1968) div 4 - (y - 1900) div 100 + (y - 1600) div 400"
  proof -
    have e: "y + 1 - 1969 = y - 1968" "y + 1 - 1901 = y - 1900" "y + 1 - 1601 = y - 1600"
      "365 * (y + 1 - 1970) = 365 * (y - 1970) + 365" by simp_all
    show ?thesis unfolding day_from_year_def e ..
  qed
  also have "\<dots> = day_from_year y + (if leap_year y then 366 else 365)"
  proof -
    define A B C where "A = (y - 1969) div 4" and "B = (y - 1901) div 100" and "C = (y - 1601) div 400"
    show ?thesis
      unfolding s4 s100 s400 day_from_year_def leap_year_def A_def[symmetric] B_def[symmetric] C_def[symmetric]
      using imp by (cases "y mod 400 = 0"; cases "y mod 100 = 0"; cases "y mod 4 = 0") simp_all
  qed
  finally show ?thesis .
qed

lemma day_from_year_less: "day_from_year y < day_from_year (y + 1)"
  by (simp add: day_from_year_Suc)

text \<open>The largest year that starts on or before day \<open>d\<close>, searched upwards from a lower
  bound.\<close>

function year_search :: "int \<Rightarrow> int \<Rightarrow> int" where
  "year_search y d = (if day_from_year (y + 1) \<le> d then year_search (y + 1) d else y)"
  by pat_completeness auto
termination
proof (relation "measure (\<lambda>(y, d). nat (d - day_from_year y))")
  fix y d :: int
  assume "day_from_year (y + 1) \<le> d"
  then show "((y + 1, d), (y, d)) \<in> measure (\<lambda>(y, d). nat (d - day_from_year y))"
    using day_from_year_less[of y] by simp
qed simp

declare year_search.simps [simp del]

definition year_from_day :: "int \<Rightarrow> int" where
  "year_from_day d = year_search (1970 + 400 * (d div 146097) + d mod 146097 div 366) d"

lemma year_search_bounds:
  "day_from_year y \<le> d \<Longrightarrow>
   day_from_year (year_search y d) \<le> d \<and> d < day_from_year (year_search y d + 1) \<and> y \<le> year_search y d"
proof (induction y d rule: year_search.induct)
  case (1 y d)
  show ?case
  proof (cases "day_from_year (y + 1) \<le> d")
    case True
    with "1.IH" have "day_from_year (year_search (y + 1) d) \<le> d
      \<and> d < day_from_year (year_search (y + 1) d + 1) \<and> y + 1 \<le> year_search (y + 1) d" by blast
    with True show ?thesis by (simp add: year_search.simps[of y d])
  next
    case False
    with "1.prems" show ?thesis by (simp add: year_search.simps[of y d])
  qed
qed

lemma year_start_le: "0 \<le> k \<Longrightarrow> day_from_year (1970 + 400 * c + k) \<le> 146097 * c + 366 * k"
proof -
  assume k: "0 \<le> k"
  have cyc: "(1 + (400 * c + k)) div 4 = 100 * c + (k + 1) div 4"
    "(69 + (400 * c + k)) div 100 = 4 * c + (k + 69) div 100"
    "(369 + (400 * c + k)) div 400 = c + (k + 369) div 400"
    using div_mult_self1[of 4 "k + 1" "100 * c"] div_mult_self1[of 100 "k + 69" "4 * c"]
      div_mult_self1[of 400 "k + 369" c] by (simp_all add: algebra_simps)
  define q where "q = (k + 369) div 400"
  have q: "400 * q \<le> k + 369" unfolding q_def by linarith
  have "q \<le> (k + 69) div 100"
  proof (cases "q \<le> 0")
    case True
    with k pos_imp_zdiv_nonneg_iff[of 100 "k + 69"] show ?thesis by linarith
  next
    case False
    with q have "q * 100 \<le> k + 69" by linarith
    then show ?thesis using zdiv_mono1[of "q * 100" "k + 69" 100] by simp
  qed
  moreover have "(k + 1) div 4 \<le> k" using k by linarith
  ultimately show ?thesis unfolding day_from_year_def
    by (simp add: cyc q_def[symmetric])
qed

lemma year_from_day_bounds:
  "day_from_year (year_from_day d) \<le> d" "d < day_from_year (year_from_day d + 1)"
proof -
  let ?c = "d div 146097" and ?k = "d mod 146097 div 366"
  have "0 \<le> ?k" by (simp add: pos_imp_zdiv_nonneg_iff)
  moreover have "146097 * ?c + 366 * ?k \<le> d"
    using mult_div_mod_eq[of 146097 d] mult_div_mod_eq[of 366 "d mod 146097"]
      pos_mod_sign[of 366 "d mod 146097"] by linarith
  ultimately have "day_from_year (1970 + 400 * ?c + ?k) \<le> d"
    using year_start_le[of ?k ?c] by linarith
  from year_search_bounds[OF this]
  show "day_from_year (year_from_day d) \<le> d" "d < day_from_year (year_from_day d + 1)"
    by (simp_all add: year_from_day_def)
qed

definition month_start :: "bool \<Rightarrow> int \<Rightarrow> int" where
  "month_start leap m =
     (let k = (if leap then 1 else 0) in
      if m \<le> 1 then 0 else if m = 2 then 31 else if m = 3 then 59 + k else if m = 4 then 90 + k
      else if m = 5 then 120 + k else if m = 6 then 151 + k else if m = 7 then 181 + k
      else if m = 8 then 212 + k else if m = 9 then 243 + k else if m = 10 then 273 + k
      else if m = 11 then 304 + k else if m = 12 then 334 + k else 365 + k)"

definition month_of_day :: "bool \<Rightarrow> int \<Rightarrow> int" where
  "month_of_day leap n =
     (let k = (if leap then 1 else 0) in
      if n < 31 then 1 else if n < 59 + k then 2 else if n < 90 + k then 3 else if n < 120 + k then 4
      else if n < 151 + k then 5 else if n < 181 + k then 6 else if n < 212 + k then 7
      else if n < 243 + k then 8 else if n < 273 + k then 9 else if n < 304 + k then 10
      else if n < 334 + k then 11 else 12)"

lemma month_of_day_bounds:
  assumes "0 \<le> n" and "n < (if leap then 366 else 365)"
  shows "1 \<le> month_of_day leap n" "month_of_day leap n \<le> 12"
    "month_start leap (month_of_day leap n) \<le> n"
    "n < month_start leap (month_of_day leap n + 1)"
  using assms unfolding month_of_day_def Let_def
  by (cases leap; simp add: month_start_def)+

lemma month_length:
  "1 \<le> m \<Longrightarrow> m \<le> 12 \<Longrightarrow> month_start leap (m + 1) - month_start leap m \<le> 31"
  by (cases leap) (simp_all add: month_start_def)

section \<open>Digits\<close>

definition digit_char :: "int \<Rightarrow> char" where
  "digit_char n = char_of (48 + nat (n mod 10))"

definition digit_value :: "char \<Rightarrow> int" where
  "digit_value c = int (of_char c) - 48"

lemma of_char_digit_char: "(of_char (digit_char n) :: nat) = 48 + nat (n mod 10)"
proof -
  have "n mod 10 < 10" "0 \<le> n mod 10" by simp_all
  then have "48 + nat (n mod 10) < 256" by linarith
  then show ?thesis by (simp add: digit_char_def)
qed

lemma digit_value_digit_char [simp]: "digit_value (digit_char n) = n mod 10"
  by (simp add: digit_value_def of_char_digit_char)

lemma is_digit_digit_char [simp]: "is_digit (digit_char n)"
proof -
  have "n mod 10 < 10" by simp
  then have "nat (n mod 10) \<le> 9" by linarith
  then show ?thesis by (simp add: is_digit_def Let_def of_char_digit_char)
qed

definition two_digits :: "int \<Rightarrow> string" where
  "two_digits n = [digit_char (n div 10), digit_char n]"

definition three_digits :: "int \<Rightarrow> string" where
  "three_digits n = digit_char (n div 10 div 10) # two_digits n"

definition year_digits :: "int \<Rightarrow> string" where
  "year_digits n = digit_char (n div 10 div 10 div 10) # three_digits n"

lemma length_digits [simp]:
  "length (two_digits n) = 2" "length (three_digits n) = 3" "length (year_digits n) = 4"
  by (simp_all add: two_digits_def three_digits_def year_digits_def)

lemma all_digits [simp]:
  "list_all is_digit (two_digits n)" "list_all is_digit (three_digits n)" "list_all is_digit (year_digits n)"
  by (simp_all add: two_digits_def three_digits_def year_digits_def)

text \<open>The decimal value of a digit sequence.\<close>

fun digits_value :: "int \<Rightarrow> string \<Rightarrow> int" where
  "digits_value acc [] = acc"
| "digits_value acc (c # cs) = digits_value (10 * acc + digit_value c) cs"

definition number_at :: "nat \<Rightarrow> nat \<Rightarrow> string \<Rightarrow> int option" where
  "number_at i n s = (let ds = take n (drop i s) in
     if length ds = n \<and> list_all is_digit ds then Some (digits_value 0 ds) else None)"

section \<open>Printing\<close>

definition ms_per_day :: int where "ms_per_day = 86400000"

definition year_text :: "int \<Rightarrow> string" where
  "year_text y = (if 0 \<le> y \<and> y \<le> 9999 then year_digits y
     else (if y < 0 then CHR ''-'' else CHR ''+'') # two_digits (\<bar>y\<bar> div 10000) @ year_digits (\<bar>y\<bar>))"

definition to_iso :: "int \<Rightarrow> string" where
  "to_iso t =
     (let d = t div ms_per_day; r = t mod ms_per_day; y = year_from_day d;
          n = d - day_from_year y; m = month_of_day (leap_year y) n;
          dom = n - month_start (leap_year y) m + 1
      in year_text y @ ''-'' @ two_digits m @ ''-'' @ two_digits dom @ ''T''
         @ two_digits (r div 3600000) @ '':'' @ two_digits (r div 60000 mod 60) @ '':''
         @ two_digits (r div 1000 mod 60) @ ''.'' @ three_digits (r mod 1000) @ ''Z'')"

section \<open>Parsing\<close>

text \<open>The instant of a text in the date-time format \<open>YYYY-MM-DDTHH:mm[:ss[.f+]](Z|+-HH:mm)\<close>;
  fractions of a second beyond the third digit are dropped.\<close>

definition iso_offset :: "string \<Rightarrow> int option" where
  "iso_offset z =
     (if z = ''Z'' then Some 0
      else if length z = 6 \<and> (z ! 0 = CHR ''+'' \<or> z ! 0 = CHR ''-'') \<and> z ! 3 = CHR '':'' then
        (case (number_at 1 2 z, number_at 4 2 z) of
           (Some h, Some m) \<Rightarrow> if h \<le> 23 \<and> m \<le> 59
              then Some ((if z ! 0 = CHR ''-'' then -1 else 1) * (60 * h + m) * 60000) else None
         | _ \<Rightarrow> None)
      else None)"

definition iso_fraction :: "string \<Rightarrow> int \<times> string" where
  "iso_fraction s =
     (case s of [] \<Rightarrow> (0, s)
      | c # r \<Rightarrow> if c = CHR ''.'' \<and> takeWhile is_digit r \<noteq> []
          then (digits_value 0 (take 3 (takeWhile is_digit r @ ''00'')), dropWhile is_digit r)
          else (0, s))"

definition iso_seconds :: "string \<Rightarrow> (int \<times> string) option" where
  "iso_seconds s =
     (case s of [] \<Rightarrow> Some (0, s)
      | c # r \<Rightarrow> if c = CHR '':'' then
          (case number_at 0 2 r of None \<Rightarrow> None
           | Some n \<Rightarrow> if n \<le> 59 then (case iso_fraction (drop 2 r) of (f, rest) \<Rightarrow> Some (1000 * n + f, rest))
                       else None)
        else Some (0, s))"

definition iso_instant :: "string \<Rightarrow> int option" where
  "iso_instant s =
     (case (number_at 0 4 s, number_at 5 2 s, number_at 8 2 s, number_at 11 2 s, number_at 14 2 s) of
        (Some y, Some m, Some d, Some h, Some i) \<Rightarrow>
          (if s ! 4 = CHR ''-'' \<and> s ! 7 = CHR ''-'' \<and> s ! 10 = CHR ''T'' \<and> s ! 13 = CHR '':''
              \<and> 1 \<le> m \<and> m \<le> 12 \<and> 1 \<le> d
              \<and> d \<le> month_start (leap_year y) (m + 1) - month_start (leap_year y) m
              \<and> h \<le> 23 \<and> i \<le> 59
           then (case iso_seconds (drop 16 s) of None \<Rightarrow> None
                 | Some (ms, z) \<Rightarrow> (case iso_offset z of None \<Rightarrow> None
                     | Some off \<Rightarrow> Some ((day_from_year y + month_start (leap_year y) m + d - 1) * ms_per_day
                         + h * 3600000 + i * 60000 + ms - off)))
           else None)
      | _ \<Rightarrow> None)"

definition date_parse :: "env \<Rightarrow> string \<Rightarrow> int option" where
  "date_parse E s = (case iso_instant s of Some t \<Rightarrow> Some t | None \<Rightarrow> legacy_date E s)"

text \<open>Comparison of two parsed dates, false when either is not a number, as in JavaScript.\<close>

definition date_le :: "int option \<Rightarrow> int option \<Rightarrow> bool" where
  "date_le a b = (case (a, b) of (Some x, Some y) \<Rightarrow> x \<le> y | _ \<Rightarrow> False)"

definition date_lt :: "int option \<Rightarrow> int option \<Rightarrow> bool" where
  "date_lt a b = (case (a, b) of (Some x, Some y) \<Rightarrow> x < y | _ \<Rightarrow> False)"

lemma date_le_Some [simp]: "date_le (Some x) (Some y) = (x \<le> y)"
  and date_lt_Some [simp]: "date_lt (Some x) (Some y) = (x < y)"
  by (simp_all add: date_le_def date_lt_def)

lemma date_leD: "date_le a b \<Longrightarrow> \<exists>x y. a = Some x \<and> b = Some y \<and> x \<le> y"
  and date_ltD: "date_lt a b \<Longrightarrow> \<exists>x y. a = Some x \<and> b = Some y \<and> x < y"
  by (auto simp: date_le_def date_lt_def split: option.splits)

section \<open>Round trip\<close>

lemma digits_value_two: "0 \<le> n \<Longrightarrow> n < 100 \<Longrightarrow> digits_value 0 (two_digits n) = n"
proof -
  assume "0 \<le> n" "n < 100"
  then have "n div 10 mod 10 = n div 10" by (intro mod_pos_pos_trivial) linarith+
  then show ?thesis by (simp add: two_digits_def)
qed

lemma digits_value_three: "0 \<le> n \<Longrightarrow> n < 1000 \<Longrightarrow> digits_value 0 (three_digits n) = n"
proof -
  assume "0 \<le> n" "n < 1000"
  then have "n div 10 div 10 mod 10 = n div 10 div 10" by (intro mod_pos_pos_trivial) linarith+
  then show ?thesis using mult_div_mod_eq[of 10 "n div 10"]
    by (simp add: three_digits_def two_digits_def del: mult_div_mod_eq)
qed

lemma digits_value_year: "0 \<le> n \<Longrightarrow> n \<le> 9999 \<Longrightarrow> digits_value 0 (year_digits n) = n"
proof -
  assume n: "0 \<le> n" "n \<le> 9999"
  define a b c where "a = n div 10" and "b = a div 10" and "c = b div 10"
  have "0 \<le> c" "c \<le> 9" using n unfolding a_def b_def c_def by linarith+
  then have "c mod 10 = c" by (intro mod_pos_pos_trivial) linarith+
  then have "digits_value 0 (year_digits n) = 10 * (10 * (10 * c + b mod 10) + a mod 10) + n mod 10"
    unfolding year_digits_def three_digits_def two_digits_def a_def[symmetric] b_def[symmetric] c_def[symmetric] by simp
  moreover have "10 * c + b mod 10 = b" "10 * b + a mod 10 = a" "10 * a + n mod 10 = n"
    unfolding a_def b_def c_def by (rule mult_div_mod_eq)+
  ultimately show ?thesis by simp
qed

lemma number_at_middle:
  "length p = i \<Longrightarrow> length ds = n \<Longrightarrow> list_all is_digit ds \<Longrightarrow> number_at i n (p @ ds @ q) = Some (digits_value 0 ds)"
  by (simp add: number_at_def)

lemma iso_layout:
  assumes "0 \<le> y" "y \<le> 9999" "1 \<le> m" "m \<le> 12" "1 \<le> d" "d \<le> 99" "0 \<le> h" "h \<le> 23" "0 \<le> i" "i \<le> 59"
    and s: "s = year_digits y @ ''-'' @ two_digits m @ ''-'' @ two_digits d @ ''T''
         @ two_digits h @ '':'' @ two_digits i @ rest"
  shows "number_at 0 4 s = Some y" "number_at 5 2 s = Some m" "number_at 8 2 s = Some d"
    "number_at 11 2 s = Some h" "number_at 14 2 s = Some i"
    "s ! 4 = CHR ''-''" "s ! 7 = CHR ''-''" "s ! 10 = CHR ''T''" "s ! 13 = CHR '':''" "drop 16 s = rest"
proof -
  let ?ym = "year_digits y @ ''-'' @ two_digits m" and ?hh = "''T'' @ two_digits h"
  let ?d = "?ym @ ''-'' @ two_digits d"
  show "number_at 0 4 s = Some y"
    using number_at_middle[of "[]" 0 "year_digits y" 4] digits_value_year[of y] assms by simp
  show "number_at 5 2 s = Some m"
    using number_at_middle[of "year_digits y @ ''-''" 5 "two_digits m" 2] digits_value_two[of m] assms by simp
  show "number_at 8 2 s = Some d"
    using number_at_middle[of "?ym @ ''-''" 8 "two_digits d" 2] digits_value_two[of d] assms by simp
  show "number_at 11 2 s = Some h"
    using number_at_middle[of "?d @ ''T''" 11 "two_digits h" 2] digits_value_two[of h] assms by simp
  show "number_at 14 2 s = Some i"
    using number_at_middle[of "?d @ ?hh @ '':''" 14 "two_digits i" 2] digits_value_two[of i] assms by simp
  show "s ! 4 = CHR ''-''" "s ! 7 = CHR ''-''" "s ! 10 = CHR ''T''" "s ! 13 = CHR '':''" "drop 16 s = rest"
    unfolding s by (simp_all add: year_digits_def three_digits_def two_digits_def)
qed

lemma iso_seconds_print:
  assumes "0 \<le> a" "a \<le> 59" "0 \<le> f" "f < 1000"
  shows "iso_seconds ('':'' @ two_digits a @ ''.'' @ three_digits f @ ''Z'') = Some (1000 * a + f, ''Z'')"
proof -
  have tw: "takeWhile is_digit (three_digits f @ ''Z'') = three_digits f"
    and dw: "dropWhile is_digit (three_digits f @ ''Z'') = ''Z''"
    using all_digits(2)[of f]
    by (auto simp: list_all_iff takeWhile_append dropWhile_append is_digit_def)
  have ne: "three_digits f \<noteq> []" by (metis length_digits(2) list.size(3) zero_neq_numeral)
  have frac: "iso_fraction (''.'' @ three_digits f @ ''Z'') = (f, ''Z'')"
    using digits_value_three[of f] assms ne by (simp add: iso_fraction_def tw dw)
  have "number_at 0 2 (two_digits a @ ''.'' @ three_digits f @ ''Z'') = Some a"
    using number_at_middle[of "[]" 0 "two_digits a" 2] digits_value_two[of a] assms by simp
  moreover have "drop 2 (two_digits a @ ''.'' @ three_digits f @ ''Z'') = ''.'' @ three_digits f @ ''Z''"
    by simp
  ultimately show ?thesis using frac assms by (simp add: iso_seconds_def)
qed

lemma day_from_year_0: "day_from_year 0 = -719528"
  and day_from_year_10000: "day_from_year 10000 = 2932897"
  by (simp_all add: day_from_year_def)

lemma day_from_year_mono: "x \<le> y \<Longrightarrow> day_from_year x \<le> day_from_year y"
proof (induction "nat (y - x)" arbitrary: y)
  case 0
  then have "x = y" by simp
  then show ?case by simp
next
  case (Suc k)
  then have "day_from_year x \<le> day_from_year (y - 1)" by simp
  also have "\<dots> < day_from_year y" using day_from_year_less[of "y - 1"] by simp
  finally show ?case by simp
qed

lemma day_from_year_less_iff: "day_from_year x < day_from_year y \<longleftrightarrow> x < y"
proof
  assume "x < y"
  then have "day_from_year (x + 1) \<le> day_from_year y" by (simp add: day_from_year_mono)
  then show "day_from_year x < day_from_year y" using day_from_year_less[of x] by simp
next
  assume "day_from_year x < day_from_year y"
  then show "x < y" using day_from_year_mono[of y x] by (meson not_le)
qed

text \<open>Time values in the years 0 to 9999, where \<open>toISOString\<close> prints four digits.\<close>

definition iso_range :: "int \<Rightarrow> bool" where
  "iso_range t \<longleftrightarrow> -719528 * ms_per_day \<le> t \<and> t < 2932897 * ms_per_day"

theorem iso_instant_to_iso: "iso_range t \<Longrightarrow> iso_instant (to_iso t) = Some t"
proof -
  assume range: "iso_range t"
  define d r where "d = t div ms_per_day" and "r = t mod ms_per_day"
  define y where "y = year_from_day d"
  define n where "n = d - day_from_year y"
  define m where "m = month_of_day (leap_year y) n"
  define dom where "dom = n - month_start (leap_year y) m + 1"
  have r: "0 \<le> r" "r < ms_per_day" by (simp_all add: r_def ms_per_day_def)
  have t: "t = d * ms_per_day + r" by (simp add: d_def r_def)
  have yd: "day_from_year y \<le> d" "d < day_from_year (y + 1)"
    using year_from_day_bounds[of d] by (simp_all add: y_def)
  have dlo: "day_from_year 0 \<le> d" and dhi: "d < day_from_year 10000"
    using range unfolding iso_range_def d_def ms_per_day_def day_from_year_0 day_from_year_10000
    by linarith+
  have "day_from_year 0 < day_from_year (y + 1)" "day_from_year y < day_from_year 10000"
    using yd dlo dhi by linarith+
  then have y: "0 \<le> y" "y \<le> 9999" by (simp_all add: day_from_year_less_iff)
  have n: "0 \<le> n" "n < (if leap_year y then 366 else 365)"
    using yd day_from_year_Suc[of y] by (simp_all add: n_def)
  note mb = month_of_day_bounds[OF n, folded m_def]
  have dom: "1 \<le> dom" "dom \<le> month_start (leap_year y) (m + 1) - month_start (leap_year y) m"
    using mb by (simp_all add: dom_def)
  have dom31: "dom \<le> 99" using dom month_length[of m "leap_year y"] mb by linarith
  define H I A F where "H = r div 3600000" and "I = r div 60000 mod 60"
    and "A = r div 1000 mod 60" and "F = r mod 1000"
  have h: "0 \<le> H" "H \<le> 23" using r unfolding ms_per_day_def H_def by linarith+
  have i: "0 \<le> I" "I \<le> 59" using pos_mod_bound[of 60 "r div 60000"] by (simp_all add: I_def)
  have a: "0 \<le> A" "A \<le> 59" using pos_mod_bound[of 60 "r div 1000"] by (simp_all add: A_def)
  have f: "0 \<le> F" "F < 1000" by (simp_all add: F_def)
  have q: "r div 60000 = r div 1000 div 60" "r div 3600000 = r div 1000 div 60 div 60"
    using zdiv_zmult2_eq[of 60 r 1000] zdiv_zmult2_eq[of 3600 r 1000] zdiv_zmult2_eq[of 60 "r div 1000" 60]
    by simp_all
  define secs mins where "secs = r div 1000" and "mins = secs div 60"
  have "60 * H + I = mins" "60 * mins + A = secs" "1000 * secs + F = r"
    unfolding H_def I_def A_def F_def q mins_def secs_def by (rule mult_div_mod_eq)+
  then have sum: "H * 3600000 + I * 60000 + (1000 * A + F) = r" by linarith
  have s: "to_iso t = year_digits y @ ''-'' @ two_digits m @ ''-'' @ two_digits dom @ ''T''
      @ two_digits H @ '':'' @ two_digits I @ ('':'' @ two_digits A @ ''.'' @ three_digits F @ ''Z'')"
    using y unfolding to_iso_def Let_def
    by (simp add: d_def[symmetric] r_def[symmetric] y_def[symmetric] n_def[symmetric] m_def[symmetric]
        dom_def[symmetric] year_text_def H_def I_def A_def F_def)
  note lay = iso_layout[OF y mb(1,2) dom(1) dom31 h i s]
  have day: "day_from_year y + month_start (leap_year y) m + dom - 1 = d"
    by (simp add: dom_def n_def)
  have sec: "iso_seconds (drop 16 (to_iso t)) = Some (1000 * A + F, ''Z'')"
    unfolding lay by (rule iso_seconds_print[OF a f])
  have off: "iso_offset ''Z'' = Some 0" by (simp add: iso_offset_def)
  have "iso_instant (to_iso t) = Some (d * ms_per_day + H * 3600000 + I * 60000 + (1000 * A + F) - 0)"
    unfolding iso_instant_def lay(1-9) sec off option.case prod.case day
    using mb(1,2) dom h(2) i(2) by simp
  then show ?thesis using sum t by simp
qed

lemma date_parse_to_iso [simp]: "iso_range t \<Longrightarrow> date_parse E (to_iso t) = Some t"
  by (simp add: date_parse_def iso_instant_to_iso)

end
