(* ===== verification/Canonical.thy ===== *)
theory Canonical
  imports Js_Date "HOL-Library.Char_ord" "HOL-Library.List_Lexorder" "HOL-Library.Multiset"
begin

text \<open>
  Canonical JSON and digests (\<open>packages/domain/src/canonical.ts\<close>): values are normalised
  (object keys sorted, no \<open>undefined\<close>, no non-finite number), printed with
  \<open>JSON.stringify\<close> and hashed.  \<open>json\<close> is the JavaScript value handed to the function; an
  object lists its own properties in enumeration order, and a finite number that need not be an integer
  (\<open>JReal\<close>) is given by the text it prints as.
\<close>

datatype json =
    JNull
  | JBool bool
  | JNum int
  | JStr string
  | JArr "json list"
  | JObj "(string \<times> json) list"
  | JReal string
  | JNonFinite
  | JUndefined

text \<open>Own string keys that are array indices are enumerated first, in numeric order; the
  other keys keep their insertion order.\<close>

fun decimal_value :: "nat \<Rightarrow> string \<Rightarrow> nat" where
  "decimal_value acc [] = acc"
| "decimal_value acc (c # cs) = decimal_value (10 * acc + (of_char c - 48)) cs"

definition array_index :: "string \<Rightarrow> nat option" where
  "array_index k =
     (if k \<noteq> [] \<and> list_all is_digit k \<and> (hd k \<noteq> CHR ''0'' \<or> length k = 1) \<and> length k \<le> 10
         \<and> decimal_value 0 k < 4294967295
      then Some (decimal_value 0 k) else None)"

definition enumeration_order :: "(string \<times> 'a) list \<Rightarrow> (string \<times> 'a) list" where
  "enumeration_order fs =
     sort_key (\<lambda>(k, _). the (array_index k)) (filter (\<lambda>(k, _). array_index k \<noteq> None) fs)
     @ filter (\<lambda>(k, _). array_index k = None) fs"

lemma traverse_cong [fundef_cong]:
  "xs = ys \<Longrightarrow> (\<And>x. x \<in> set ys \<Longrightarrow> f x = g x) \<Longrightarrow> traverse f xs = traverse g ys"
proof (induction xs arbitrary: ys)
  case (Cons a xs)
  then have "traverse f xs = traverse g xs" "f a = g a" by auto
  then show ?case using Cons.prems(1) by (auto split: option.splits)
qed simp

definition with_key :: "string \<Rightarrow> 'a option \<Rightarrow> (string \<times> 'a) option" where
  "with_key k v = map_option (Pair k) v"

function (sequential) normalize :: "json \<Rightarrow> json option" where
  "normalize (JArr xs) = map_option JArr (traverse normalize xs)"
| "normalize (JObj fs) =
     map_option (\<lambda>gs. JObj (enumeration_order gs))
       (traverse (\<lambda>(k, v). with_key k (normalize v)) (sort_key fst fs))"
| "normalize JNonFinite = None"
| "normalize JUndefined = None"
| "normalize v = Some v"
  by pat_completeness auto
termination
proof (relation "measure size")
  fix fs :: "(string \<times> json) list" and x k v
  assume "x \<in> set (sort_key fst fs)" and "(k, v) = x"
  then have "(k, v) \<in> set fs" by simp
  then have "size v < size_list (size_prod (\<lambda>_. 0) size) fs"
    by (induction fs) auto
  then show "(v, JObj fs) \<in> measure size" by simp
next
  fix xs :: "json list" and x
  assume "x \<in> set xs"
  then have "size x \<le> size_list size xs" by (rule size_list_estimation') simp
  then show "(x, JArr xs) \<in> measure size" by simp
qed simp

definition hex_digit :: "nat \<Rightarrow> char" where
  "hex_digit n = (if n < 10 then char_of (48 + n) else char_of (87 + n))"

definition escape_char :: "char \<Rightarrow> string" where
  "escape_char c = (let n = of_char c :: nat in
     if n = 34 then [CHR 0x5C, CHR 0x22] else if n = 92 then [CHR 0x5C, CHR 0x5C]
     else if n = 8 then [CHR 0x5C, CHR ''b''] else if n = 12 then [CHR 0x5C, CHR ''f'']
     else if n = 10 then [CHR 0x5C, CHR ''n''] else if n = 13 then [CHR 0x5C, CHR ''r'']
     else if n = 9 then [CHR 0x5C, CHR ''t'']
     else if n < 32 then [CHR 0x5C, CHR ''u'', CHR ''0'', CHR ''0'', hex_digit (n div 16), hex_digit (n mod 16)]
     else [c])"

definition quote_text :: "string \<Rightarrow> string" where
  "quote_text s = CHR 0x22 # concat (map escape_char s) @ [CHR 0x22]"

fun stringify :: "json \<Rightarrow> string" where
  "stringify JNull = ''null''"
| "stringify (JBool b) = (if b then ''true'' else ''false'')"
| "stringify (JNum n) = show_int n"
| "stringify (JStr s) = quote_text s"
| "stringify (JArr xs) = ''['' @ join '','' (map stringify xs) @ '']''"
| "stringify (JObj fs) = ''{'' @ join '','' (map (\<lambda>(k, v). quote_text k @ '':'' @ stringify v) fs) @ ''}''"
| "stringify (JReal t) = t"
| "stringify JNonFinite = ''null''"
| "stringify JUndefined = ''null''"

datatype type_error = CanonicalTypeError

definition canonicalJson :: "json \<Rightarrow> type_error + string" where
  "canonicalJson v = (case normalize v of None \<Rightarrow> Inl CanonicalTypeError | Some n \<Rightarrow> Inr (stringify n))"

definition sha256 :: "env \<Rightarrow> json \<Rightarrow> type_error + string" where
  "sha256 E v = (case canonicalJson v of Inl e \<Rightarrow> Inl e | Inr t \<Rightarrow> Inr (sha_hex E t))"

text \<open>Encoding of nullable fields.\<close>

definition json_opt :: "('a \<Rightarrow> json) \<Rightarrow> 'a option \<Rightarrow> json" where
  "json_opt f v = (case v of None \<Rightarrow> JNull | Some x \<Rightarrow> f x)"

end
