(* ===== verification/Contracts.thy ===== *)
theory Contracts
  imports Canonical
begin

text \<open>
  The validated data of \<open>packages/contracts/src\<close>: common formats, artifact references,
  findings with their authorship and verifier record, coverage, limitations, conclusions and
  the immutable module snapshot.  A schema is a parser \<open>X_parse\<close> from the unvalidated record
  to the validated one (text fields are trimmed by it), \<open>None\<close> where the schema rejects.  The
  encodings \<open>X_json\<close> give the value that is hashed.
\<close>

section \<open>Common formats\<close>

datatype module_type = Building | TimberPest

fun module_text :: "module_type \<Rightarrow> string" where
  "module_text Building = ''building''"
| "module_text TimberPest = ''timber_pest''"

definition CommissionedModules_ok :: "module_type list \<Rightarrow> bool" where
  "CommissionedModules_ok ms \<longleftrightarrow> ms = [Building] \<or> ms = [TimberPest] \<or> ms = [Building, TimberPest]"

text \<open>\<open>z.string().trim().min(lo).max(hi)\<close>: the text is trimmed, then its length is checked;
  \<open>text_parse\<close> is the common case of a non-empty text.\<close>

definition sized_text_parse :: "nat \<Rightarrow> nat \<Rightarrow> string \<Rightarrow> string option" where
  "sized_text_parse lo hi s = (let t = js_trim s in if lo \<le> length t \<and> length t \<le> hi then Some t else None)"

definition text_parse :: "nat \<Rightarrow> string \<Rightarrow> string option" where
  "text_parse hi s = sized_text_parse 1 hi s"

abbreviation NonEmptyText_parse :: "string \<Rightarrow> string option" where
  "NonEmptyText_parse \<equiv> text_parse 4000"

definition nullable :: "('a \<Rightarrow> 'b option) \<Rightarrow> 'a option \<Rightarrow> 'b option option" where
  "nullable p v = (case v of None \<Rightarrow> Some None | Some x \<Rightarrow> map_option Some (p x))"

definition nullable_ok :: "('a \<Rightarrow> bool) \<Rightarrow> 'a option \<Rightarrow> bool" where
  "nullable_ok p v = (case v of None \<Rightarrow> True | Some x \<Rightarrow> p x)"

definition nonneg_int :: "int \<Rightarrow> bool" where "nonneg_int n \<longleftrightarrow> safe_int n \<and> 0 \<le> n"
definition positive_int :: "int \<Rightarrow> bool" where "positive_int n \<longleftrightarrow> safe_int n \<and> 0 < n"

lemma sized_text_parse_stable: "sized_text_parse lo hi s = Some t \<Longrightarrow> sized_text_parse lo hi t = Some t"
  by (auto simp: sized_text_parse_def Let_def split: if_splits)

lemma text_parse_SomeD: "text_parse hi s = Some t \<Longrightarrow> t = js_trim s \<and> t \<noteq> [] \<and> length t \<le> hi"
  by (auto simp: text_parse_def sized_text_parse_def Let_def split: if_splits)

lemma text_parse_stable: "text_parse hi s = Some t \<Longrightarrow> text_parse hi t = Some t"
  unfolding text_parse_def by (rule sized_text_parse_stable)

lemma nullable_stable:
  "(\<And>x y. p x = Some y \<Longrightarrow> p y = Some y) \<Longrightarrow> nullable p v = Some w \<Longrightarrow> nullable p w = Some w"
  by (auto simp: nullable_def split: option.splits)

lemma nullable_None_iff [simp]: "nullable p v = Some None \<longleftrightarrow> v = None"
  by (auto simp: nullable_def split: option.splits)

lemma nullable_parsed_None: "nullable p v = Some w \<Longrightarrow> w = None \<longleftrightarrow> v = None"
  by (auto simp: nullable_def split: option.splits)

lemma traverse_stable:
  assumes "\<And>x y. f x = Some y \<Longrightarrow> f y = Some y"
  shows "traverse f xs = Some ys \<Longrightarrow> traverse f ys = Some ys"
  by (induction xs arbitrary: ys) (auto split: option.splits dest: assms)

record inspector_attribution =
  ia_inspectorId :: string
  ia_displayName :: string
  ia_credentialVersion :: string
  ia_confirmedAt :: string

definition InspectorAttribution_parse :: "env \<Rightarrow> inspector_attribution \<Rightarrow> inspector_attribution option" where
  "InspectorAttribution_parse E a =
     (if z_uuid E (ia_inspectorId a) \<and> z_datetime E (ia_confirmedAt a) then do {
        name \<leftarrow> text_parse 200 (ia_displayName a);
        cred \<leftarrow> text_parse 200 (ia_credentialVersion a);
        Some (a\<lparr>ia_displayName := name, ia_credentialVersion := cred\<rparr>) }
      else None)"

definition inspector_attribution_json :: "inspector_attribution \<Rightarrow> json" where
  "inspector_attribution_json a = JObj [(''inspectorId'', JStr (ia_inspectorId a)),
     (''displayName'', JStr (ia_displayName a)), (''credentialVersion'', JStr (ia_credentialVersion a)),
     (''confirmedAt'', JStr (ia_confirmedAt a))]"

section \<open>Artifact references\<close>

datatype transformation = Annotation | Crop | CompressionProxy | SafeProxy | CaptionRender

fun transformation_name :: "transformation \<Rightarrow> string" where
  "transformation_name Annotation = ''annotation''"
| "transformation_name Crop = ''crop''"
| "transformation_name CompressionProxy = ''compression_proxy''"
| "transformation_name SafeProxy = ''safe_proxy''"
| "transformation_name CaptionRender = ''caption_render''"

datatype artifact_reference =
    OriginalReference (ar_artifactId: string) (ar_contentHash: string)
  | DerivativeReference (ar_artifactId: string) (ar_contentHash: string)
      (ar_parentArtifactId: string) (ar_transformation: transformation)

fun ArtifactReference_ok :: "env \<Rightarrow> artifact_reference \<Rightarrow> bool" where
  "ArtifactReference_ok E (OriginalReference a h) = (z_uuid E a \<and> sha256_pattern h)"
| "ArtifactReference_ok E (DerivativeReference a h p t) = (z_uuid E a \<and> sha256_pattern h \<and> z_uuid E p)"

fun artifact_reference_json :: "artifact_reference \<Rightarrow> json" where
  "artifact_reference_json (OriginalReference a h) =
     JObj [(''kind'', JStr ''original''), (''artifactId'', JStr a), (''contentHash'', JStr h)]"
| "artifact_reference_json (DerivativeReference a h p t) =
     JObj [(''kind'', JStr ''derivative''), (''artifactId'', JStr a), (''contentHash'', JStr h),
       (''parentArtifactId'', JStr p), (''transformation'', JStr (transformation_name t))]"

section \<open>Findings\<close>

datatype building_classification = MajorDefect | MinorDefect | SafetyHazard | OtherBuildingCondition
datatype timber_pest_category = VisibleEvidence | TimberDamage | ConduciveCondition | NoVisibleEvidence

fun building_classification_name :: "building_classification \<Rightarrow> string" where
  "building_classification_name MajorDefect = ''major_defect''"
| "building_classification_name MinorDefect = ''minor_defect''"
| "building_classification_name SafetyHazard = ''safety_hazard''"
| "building_classification_name OtherBuildingCondition = ''other_building_condition''"

fun timber_pest_category_name :: "timber_pest_category \<Rightarrow> string" where
  "timber_pest_category_name VisibleEvidence = ''visible_evidence''"
| "timber_pest_category_name TimberDamage = ''timber_damage''"
| "timber_pest_category_name ConduciveCondition = ''conducive_condition''"
| "timber_pest_category_name NoVisibleEvidence = ''no_visible_evidence''"

text \<open>The taxonomy of a finding is that of its module: a classification for Building, a
  category for Timber Pest.\<close>

datatype finding_class = BuildingClass building_classification | PestClass timber_pest_category

fun class_module :: "finding_class \<Rightarrow> module_type" where
  "class_module (BuildingClass c) = Building"
| "class_module (PestClass c) = TimberPest"

record finding_content =
  fc_location :: string
  fc_observation :: string
  fc_apparentExtent :: string
  fc_qualifiedOpinion :: string
  fc_uncertainty :: "string list"
  fc_furtherInvestigation :: "string option"
  fc_class :: finding_class

definition FindingContent_parse :: "finding_content \<Rightarrow> finding_content option" where
  "FindingContent_parse c = (if length (fc_uncertainty c) \<le> 50 then do {
     l \<leftarrow> NonEmptyText_parse (fc_location c);
     ob \<leftarrow> NonEmptyText_parse (fc_observation c);
     ex \<leftarrow> NonEmptyText_parse (fc_apparentExtent c);
     q \<leftarrow> NonEmptyText_parse (fc_qualifiedOpinion c);
     u \<leftarrow> traverse NonEmptyText_parse (fc_uncertainty c);
     f \<leftarrow> nullable NonEmptyText_parse (fc_furtherInvestigation c);
     Some (c\<lparr>fc_location := l, fc_observation := ob, fc_apparentExtent := ex, fc_qualifiedOpinion := q,
       fc_uncertainty := u, fc_furtherInvestigation := f\<rparr>) } else None)"

definition finding_content_json :: "finding_content \<Rightarrow> json" where
  "finding_content_json c = JObj
     [(''module'', JStr (module_text (class_module (fc_class c)))), (''location'', JStr (fc_location c)),
      (''observation'', JStr (fc_observation c)), (''apparentExtent'', JStr (fc_apparentExtent c)),
      (''qualifiedOpinion'', JStr (fc_qualifiedOpinion c)),
      (''uncertainty'', JArr (map JStr (fc_uncertainty c))),
      (''furtherInvestigation'', json_opt JStr (fc_furtherInvestigation c)),
      (case fc_class c of
         BuildingClass k \<Rightarrow> (''classification'', JStr (building_classification_name k))
       | PestClass k \<Rightarrow> (''category'', JStr (timber_pest_category_name k)))]"

datatype authorship =
    HumanAuthored "artifact_reference list" "string list"
  | AiAuthored string string "string list" int "artifact_reference list" "string list"

fun Authorship_parse :: "env \<Rightarrow> authorship \<Rightarrow> authorship option" where
  "Authorship_parse E (HumanAuthored refs spans) =
     (if refs \<noteq> [] \<and> list_all (ArtifactReference_ok E) refs \<and> list_all (z_uuid E) spans
      then Some (HumanAuthored refs spans) else None)"
| "Authorship_parse E (AiAuthored model prompt skills packetRev refs spans) =
     (if refs \<noteq> [] \<and> list_all (ArtifactReference_ok E) refs \<and> list_all (z_uuid E) spans \<and> positive_int packetRev
      then do {
        m \<leftarrow> text_parse 200 model;
        p \<leftarrow> text_parse 200 prompt;
        s \<leftarrow> traverse (text_parse 200) skills;
        Some (AiAuthored m p s packetRev refs spans) }
      else None)"

fun is_ai :: "authorship \<Rightarrow> bool" where
  "is_ai (AiAuthored model prompt skills packetRev refs spans) = True"
| "is_ai (HumanAuthored refs spans) = False"

fun authorship_json :: "authorship \<Rightarrow> json" where
  "authorship_json (HumanAuthored refs spans) = JObj [(''origin'', JStr ''human''),
     (''sourceArtifactReferences'', JArr (map artifact_reference_json refs)),
     (''transcriptSpanReferences'', JArr (map JStr spans))]"
| "authorship_json (AiAuthored model prompt skills packetRev refs spans) = JObj [(''origin'', JStr ''ai''),
     (''model'', JStr model), (''promptVersion'', JStr prompt), (''skillVersions'', JArr (map JStr skills)),
     (''packetRevision'', JNum packetRev), (''sourceArtifactReferences'', JArr (map artifact_reference_json refs)),
     (''transcriptSpanReferences'', JArr (map JStr spans))]"

record verifier_pass =
  vp_draftVersionId :: string
  vp_contentHash :: string
  vp_verifierVersion :: string
  vp_verifiedAt :: string

definition VerifierPassed_parse :: "env \<Rightarrow> verifier_pass \<Rightarrow> verifier_pass option" where
  "VerifierPassed_parse E v =
     (if z_uuid E (vp_draftVersionId v) \<and> sha256_pattern (vp_contentHash v) \<and> z_datetime E (vp_verifiedAt v)
      then do { ver \<leftarrow> text_parse 200 (vp_verifierVersion v); Some (v\<lparr>vp_verifierVersion := ver\<rparr>) }
      else None)"

definition verifier_pass_json :: "verifier_pass \<Rightarrow> json" where
  "verifier_pass_json v = JObj [(''status'', JStr ''passed''), (''draftVersionId'', JStr (vp_draftVersionId v)),
     (''contentHash'', JStr (vp_contentHash v)), (''verifierVersion'', JStr (vp_verifierVersion v)),
     (''verifiedAt'', JStr (vp_verifiedAt v))]"

datatype verifier_result =
    VerifierPending
  | VerifierPassed verifier_pass
  | VerifierRejected string string "string list" string
  | VerifierStale string string string string
  | VerifierNotRequired

fun VerifierResult_parse :: "env \<Rightarrow> verifier_result \<Rightarrow> verifier_result option" where
  "VerifierResult_parse E VerifierPending = Some VerifierPending"
| "VerifierResult_parse E (VerifierPassed v) = map_option VerifierPassed (VerifierPassed_parse E v)"
| "VerifierResult_parse E (VerifierRejected d h reasons at) =
     (if z_uuid E d \<and> sha256_pattern h \<and> reasons \<noteq> [] \<and> z_datetime E at
      then map_option (\<lambda>rs. VerifierRejected d h rs at) (traverse NonEmptyText_parse reasons) else None)"
| "VerifierResult_parse E (VerifierStale d h s at) =
     (if z_uuid E d \<and> sha256_pattern h \<and> z_uuid E s \<and> z_datetime E at then Some (VerifierStale d h s at) else None)"
| "VerifierResult_parse E VerifierNotRequired = Some VerifierNotRequired"

fun verifier_result_json :: "verifier_result \<Rightarrow> json" where
  "verifier_result_json VerifierPending = JObj [(''status'', JStr ''pending'')]"
| "verifier_result_json (VerifierPassed v) = verifier_pass_json v"
| "verifier_result_json (VerifierRejected d h reasons at) = JObj [(''status'', JStr ''rejected''),
     (''draftVersionId'', JStr d), (''contentHash'', JStr h), (''reasons'', JArr (map JStr reasons)),
     (''verifiedAt'', JStr at)]"
| "verifier_result_json (VerifierStale d h s at) = JObj [(''status'', JStr ''stale''),
     (''draftVersionId'', JStr d), (''contentHash'', JStr h), (''supersededByVersionId'', JStr s),
     (''recordedAt'', JStr at)]"
| "verifier_result_json VerifierNotRequired =
     JObj [(''status'', JStr ''not_required''), (''reason'', JStr ''human_authored'')]"

record confirmed_finding =
  cf_findingId :: string
  cf_versionId :: string
  cf_organizationId :: string
  cf_jobId :: string
  cf_moduleId :: string
  cf_contentHash :: string
  cf_content :: finding_content
  cf_authorship :: authorship
  cf_inspectorAttribution :: inspector_attribution
  cf_verifier :: verifier_result

definition validateConfirmation :: "confirmed_finding \<Rightarrow> bool" where
  "validateConfirmation f =
     (if is_ai (cf_authorship f)
      then (case cf_verifier f of
              VerifierPassed v \<Rightarrow> vp_draftVersionId v = cf_versionId f \<and> vp_contentHash v = cf_contentHash f
            | _ \<Rightarrow> False)
      else cf_verifier f = VerifierNotRequired)"

definition ConfirmedFinding_parse :: "env \<Rightarrow> module_type \<Rightarrow> confirmed_finding \<Rightarrow> confirmed_finding option" where
  "ConfirmedFinding_parse E m f =
     (if z_uuid E (cf_findingId f) \<and> z_uuid E (cf_versionId f) \<and> z_uuid E (cf_organizationId f)
         \<and> z_uuid E (cf_jobId f) \<and> z_uuid E (cf_moduleId f) \<and> sha256_pattern (cf_contentHash f)
         \<and> class_module (fc_class (cf_content f)) = m
      then do {
        c \<leftarrow> FindingContent_parse (cf_content f);
        a \<leftarrow> Authorship_parse E (cf_authorship f);
        i \<leftarrow> InspectorAttribution_parse E (cf_inspectorAttribution f);
        v \<leftarrow> VerifierResult_parse E (cf_verifier f);
        let g = f\<lparr>cf_content := c, cf_authorship := a, cf_inspectorAttribution := i, cf_verifier := v\<rparr>;
        (if validateConfirmation g then Some g else None) }
      else None)"

definition confirmed_finding_json :: "confirmed_finding \<Rightarrow> json" where
  "confirmed_finding_json f = JObj [(''status'', JStr ''confirmed''), (''findingId'', JStr (cf_findingId f)),
     (''versionId'', JStr (cf_versionId f)), (''organizationId'', JStr (cf_organizationId f)),
     (''jobId'', JStr (cf_jobId f)), (''moduleId'', JStr (cf_moduleId f)),
     (''contentHash'', JStr (cf_contentHash f)), (''content'', finding_content_json (cf_content f)),
     (''authorship'', authorship_json (cf_authorship f)),
     (''inspectorAttribution'', inspector_attribution_json (cf_inspectorAttribution f)),
     (''verifier'', verifier_result_json (cf_verifier f))]"

section \<open>Coverage, limitations, conclusions\<close>

datatype coverage_state =
    CoverageInspected
  | CoverageAccessLimited string
  | CoverageInaccessible string
  | CoverageNotApplicable string
  | CoverageRevisit string

record coverage_entry =
  ce_coverageEntryId :: string
  ce_module :: module_type
  ce_moduleId :: string
  ce_areaId :: string
  ce_recordedAt :: string
  ce_recordedByInspectorId :: string
  ce_state :: coverage_state

fun CoverageState_parse :: "coverage_state \<Rightarrow> coverage_state option" where
  "CoverageState_parse CoverageInspected = Some CoverageInspected"
| "CoverageState_parse (CoverageAccessLimited l) = map_option CoverageAccessLimited (NonEmptyText_parse l)"
| "CoverageState_parse (CoverageInaccessible l) = map_option CoverageInaccessible (NonEmptyText_parse l)"
| "CoverageState_parse (CoverageNotApplicable r) = map_option CoverageNotApplicable (NonEmptyText_parse r)"
| "CoverageState_parse (CoverageRevisit l) = map_option CoverageRevisit (NonEmptyText_parse l)"

definition CoverageEntry_parse :: "env \<Rightarrow> coverage_entry \<Rightarrow> coverage_entry option" where
  "CoverageEntry_parse E c =
     (if z_uuid E (ce_coverageEntryId c) \<and> z_uuid E (ce_moduleId c) \<and> z_uuid E (ce_areaId c)
         \<and> z_datetime E (ce_recordedAt c) \<and> z_uuid E (ce_recordedByInspectorId c)
      then map_option (\<lambda>s. c\<lparr>ce_state := s\<rparr>) (CoverageState_parse (ce_state c)) else None)"

fun coverage_state_fields :: "coverage_state \<Rightarrow> (string \<times> json) list" where
  "coverage_state_fields CoverageInspected = [(''state'', JStr ''inspected'')]"
| "coverage_state_fields (CoverageAccessLimited l) = [(''state'', JStr ''access_limited''), (''limitation'', JStr l)]"
| "coverage_state_fields (CoverageInaccessible l) = [(''state'', JStr ''inaccessible''), (''limitation'', JStr l)]"
| "coverage_state_fields (CoverageNotApplicable r) = [(''state'', JStr ''not_applicable''), (''reason'', JStr r)]"
| "coverage_state_fields (CoverageRevisit l) = [(''state'', JStr ''revisit''), (''limitation'', JStr l)]"

definition coverage_entry_json :: "coverage_entry \<Rightarrow> json" where
  "coverage_entry_json c = JObj ([(''coverageEntryId'', JStr (ce_coverageEntryId c)),
     (''module'', JStr (module_text (ce_module c))), (''moduleId'', JStr (ce_moduleId c)),
     (''areaId'', JStr (ce_areaId c)), (''recordedAt'', JStr (ce_recordedAt c)),
     (''recordedByInspectorId'', JStr (ce_recordedByInspectorId c))] @ coverage_state_fields (ce_state c))"

record module_limitation =
  ml_limitationId :: string
  ml_module :: module_type
  ml_moduleId :: string
  ml_areaId :: string
  ml_material :: bool
  ml_description :: string
  ml_recordedAt :: string
  ml_recordedByInspectorId :: string

definition ModuleLimitation_parse :: "env \<Rightarrow> module_limitation \<Rightarrow> module_limitation option" where
  "ModuleLimitation_parse E l =
     (if z_uuid E (ml_limitationId l) \<and> z_uuid E (ml_moduleId l) \<and> z_uuid E (ml_areaId l)
         \<and> z_datetime E (ml_recordedAt l) \<and> z_uuid E (ml_recordedByInspectorId l)
      then map_option (\<lambda>d. l\<lparr>ml_description := d\<rparr>) (NonEmptyText_parse (ml_description l)) else None)"

definition module_limitation_json :: "module_limitation \<Rightarrow> json" where
  "module_limitation_json l = JObj [(''limitationId'', JStr (ml_limitationId l)),
     (''module'', JStr (module_text (ml_module l))), (''moduleId'', JStr (ml_moduleId l)),
     (''areaId'', JStr (ml_areaId l)), (''material'', JBool (ml_material l)),
     (''description'', JStr (ml_description l)), (''recordedAt'', JStr (ml_recordedAt l)),
     (''recordedByInspectorId'', JStr (ml_recordedByInspectorId l))]"

datatype conclusion =
    BuildingConclusion string int int
  | TimberPestConclusion string bool "timber_pest_category list"

fun conclusion_module :: "conclusion \<Rightarrow> module_type" where
  "conclusion_module (BuildingConclusion s a b) = Building"
| "conclusion_module (TimberPestConclusion s v cs) = TimberPest"

fun Conclusion_parse :: "conclusion \<Rightarrow> conclusion option" where
  "Conclusion_parse (BuildingConclusion s major minor) =
     (if nonneg_int major \<and> nonneg_int minor
      then map_option (\<lambda>t. BuildingConclusion t major minor) (NonEmptyText_parse s) else None)"
| "Conclusion_parse (TimberPestConclusion s v cs) =
     map_option (\<lambda>t. TimberPestConclusion t v cs) (NonEmptyText_parse s)"

fun conclusion_json :: "conclusion \<Rightarrow> json" where
  "conclusion_json (BuildingConclusion s major minor) = JObj [(''module'', JStr ''building''),
     (''summary'', JStr s), (''majorDefectCount'', JNum major), (''minorDefectCount'', JNum minor)]"
| "conclusion_json (TimberPestConclusion s v cs) = JObj [(''module'', JStr ''timber_pest''),
     (''summary'', JStr s), (''visibleEvidenceObserved'', JBool v),
     (''categoriesObserved'', JArr (map (\<lambda>c. JStr (timber_pest_category_name c)) cs))]"

section \<open>Module snapshots\<close>

record module_snapshot_input =
  ms_snapshotId :: string
  ms_organizationId :: string
  ms_jobId :: string
  ms_moduleId :: string
  ms_revision :: int
  ms_createdAt :: string
  ms_inspector :: inspector_attribution
  ms_requirementVersion :: string
  ms_templateVersion :: string
  ms_limitations :: "module_limitation list"
  ms_verifierResults :: "verifier_pass list"
  ms_evidenceHashes :: "string list"
  ms_mediaSelection :: "artifact_reference list"
  ms_module :: module_type
  ms_findings :: "confirmed_finding list"
  ms_coverage :: "coverage_entry list"
  ms_conclusion :: conclusion

record module_snapshot = module_snapshot_input +
  ms_canonicalHash :: string

text \<open>The relationships between a snapshot and its parts.\<close>

definition validateSnapshotRelationships :: "'a module_snapshot_input_scheme \<Rightarrow> bool" where
  "validateSnapshotRelationships v \<longleftrightarrow>
     list_all (\<lambda>f.
        cf_organizationId f = ms_organizationId v \<and> cf_jobId f = ms_jobId v
        \<and> cf_moduleId f = ms_moduleId v \<and> class_module (fc_class (cf_content f)) = ms_module v
        \<and> ia_inspectorId (cf_inspectorAttribution f) = ia_inspectorId (ms_inspector v)
        \<and> ia_credentialVersion (cf_inspectorAttribution f) = ia_credentialVersion (ms_inspector v)
        \<and> (is_ai (cf_authorship f) \<longrightarrow>
             list_ex (\<lambda>r. vp_draftVersionId r = cf_versionId f \<and> vp_contentHash r = cf_contentHash f)
               (ms_verifierResults v))) (ms_findings v)
     \<and> list_all (\<lambda>c. ce_module c = ms_module v \<and> ce_moduleId c = ms_moduleId v) (ms_coverage v)
     \<and> list_all (\<lambda>l. ml_module l = ms_module v \<and> ml_moduleId l = ms_moduleId v) (ms_limitations v)
     \<and> list_all (\<lambda>m. ar_contentHash m \<in> set (ms_evidenceHashes v)) (ms_mediaSelection v)
     \<and> distinct (map cf_findingId (ms_findings v))"

text \<open>The fields that both the hashed input and the hashed snapshot carry.\<close>

definition SnapshotFields_parse ::
  "env \<Rightarrow> 'a module_snapshot_input_scheme \<Rightarrow> 'a module_snapshot_input_scheme option" where
  "SnapshotFields_parse E s =
     (if z_uuid E (ms_snapshotId s) \<and> z_uuid E (ms_organizationId s) \<and> z_uuid E (ms_jobId s)
         \<and> z_uuid E (ms_moduleId s) \<and> positive_int (ms_revision s) \<and> z_datetime E (ms_createdAt s)
         \<and> list_all sha256_pattern (ms_evidenceHashes s)
         \<and> list_all (ArtifactReference_ok E) (ms_mediaSelection s)
         \<and> conclusion_module (ms_conclusion s) = ms_module s
      then do {
        i \<leftarrow> InspectorAttribution_parse E (ms_inspector s);
        r \<leftarrow> text_parse 200 (ms_requirementVersion s);
        t \<leftarrow> text_parse 200 (ms_templateVersion s);
        ls \<leftarrow> traverse (ModuleLimitation_parse E) (ms_limitations s);
        vs \<leftarrow> traverse (VerifierPassed_parse E) (ms_verifierResults s);
        fs \<leftarrow> traverse (ConfirmedFinding_parse E (ms_module s)) (ms_findings s);
        cs \<leftarrow> traverse (CoverageEntry_parse E) (ms_coverage s);
        c \<leftarrow> Conclusion_parse (ms_conclusion s);
        let p = s\<lparr>ms_inspector := i, ms_requirementVersion := r, ms_templateVersion := t,
          ms_limitations := ls, ms_verifierResults := vs, ms_findings := fs, ms_coverage := cs,
          ms_conclusion := c\<rparr>;
        (if validateSnapshotRelationships p then Some p else None) }
      else None)"

definition ModuleSnapshotInput_parse :: "env \<Rightarrow> module_snapshot_input \<Rightarrow> module_snapshot_input option" where
  "ModuleSnapshotInput_parse E s = SnapshotFields_parse E s"

definition ModuleSnapshot_parse :: "env \<Rightarrow> module_snapshot \<Rightarrow> module_snapshot option" where
  "ModuleSnapshot_parse E s =
     (if sha256_pattern (ms_canonicalHash s) then SnapshotFields_parse E s else None)"

definition snapshot_input_json :: "'a module_snapshot_input_scheme \<Rightarrow> json" where
  "snapshot_input_json s = JObj [(''snapshotId'', JStr (ms_snapshotId s)),
     (''organizationId'', JStr (ms_organizationId s)), (''jobId'', JStr (ms_jobId s)),
     (''moduleId'', JStr (ms_moduleId s)), (''revision'', JNum (ms_revision s)),
     (''createdAt'', JStr (ms_createdAt s)), (''inspector'', inspector_attribution_json (ms_inspector s)),
     (''requirementVersion'', JStr (ms_requirementVersion s)),
     (''templateVersion'', JStr (ms_templateVersion s)),
     (''limitations'', JArr (map module_limitation_json (ms_limitations s))),
     (''verifierResults'', JArr (map verifier_pass_json (ms_verifierResults s))),
     (''evidenceHashes'', JArr (map JStr (ms_evidenceHashes s))),
     (''mediaSelection'', JArr (map artifact_reference_json (ms_mediaSelection s))),
     (''module'', JStr (module_text (ms_module s))),
     (''findings'', JArr (map confirmed_finding_json (ms_findings s))),
     (''coverage'', JArr (map coverage_entry_json (ms_coverage s))),
     (''conclusion'', conclusion_json (ms_conclusion s))]"

section \<open>Parsing is stable\<close>

text \<open>A validated value is a fixed point of its schema: the transitions parse the states
  they produced again without changing them.\<close>

named_theorems stable_parses

lemmas stable_text [stable_parses] = text_parse_stable

lemma InspectorAttribution_stable [stable_parses]:
  assumes "InspectorAttribution_parse E a = Some b"
  shows "InspectorAttribution_parse E b = Some b"
proof -
  from assms obtain n c where p: "text_parse 200 (ia_displayName a) = Some n"
      "text_parse 200 (ia_credentialVersion a) = Some c"
    and b: "b = a\<lparr>ia_displayName := n, ia_credentialVersion := c\<rparr>"
    and ok: "z_uuid E (ia_inspectorId a)" "z_datetime E (ia_confirmedAt a)"
    by (auto simp: InspectorAttribution_parse_def bind_eq_Some_conv split: if_splits)
  show ?thesis by (simp add: InspectorAttribution_parse_def b ok p[THEN text_parse_stable])
qed

lemma FindingContent_stable [stable_parses]:
  assumes "FindingContent_parse a = Some b"
  shows "FindingContent_parse b = Some b" "fc_class b = fc_class a"
proof -
  from assms obtain l ob ex q u f where p: "length (fc_uncertainty a) \<le> 50"
      "NonEmptyText_parse (fc_location a) = Some l" "NonEmptyText_parse (fc_observation a) = Some ob"
      "NonEmptyText_parse (fc_apparentExtent a) = Some ex" "NonEmptyText_parse (fc_qualifiedOpinion a) = Some q"
      "traverse NonEmptyText_parse (fc_uncertainty a) = Some u"
      "nullable NonEmptyText_parse (fc_furtherInvestigation a) = Some f"
    and b: "b = a\<lparr>fc_location := l, fc_observation := ob, fc_apparentExtent := ex, fc_qualifiedOpinion := q,
       fc_uncertainty := u, fc_furtherInvestigation := f\<rparr>"
    by (auto simp: FindingContent_parse_def bind_eq_Some_conv split: if_splits)
  note st = p(2-5)[THEN text_parse_stable] traverse_stable[OF text_parse_stable p(6)]
    nullable_stable[OF text_parse_stable p(7)] traverse_length[OF p(6)]
  show "FindingContent_parse b = Some b" by (simp add: FindingContent_parse_def b st p(1))
  show "fc_class b = fc_class a" by (simp add: b)
qed

lemma Authorship_stable [stable_parses]:
  assumes "Authorship_parse E a = Some b"
  shows "Authorship_parse E b = Some b" "is_ai b = is_ai a"
proof -
  have "Authorship_parse E b = Some b \<and> is_ai b = is_ai a"
  proof (cases a)
    case (HumanAuthored refs spans)
    with assms show ?thesis by (auto split: if_splits)
  next
    case (AiAuthored model prompt skills r refs spans)
    with assms obtain m p k where "text_parse 200 model = Some m" "text_parse 200 prompt = Some p"
        and k: "traverse (text_parse 200) skills = Some k" and "b = AiAuthored m p k r refs spans"
        and "refs \<noteq> [] \<and> list_all (ArtifactReference_ok E) refs \<and> list_all (z_uuid E) spans \<and> positive_int r"
      by (auto simp: bind_eq_Some_conv split: if_splits)
    then show ?thesis using AiAuthored traverse_stable[OF text_parse_stable k]
        text_parse_stable[of 200 model m] text_parse_stable[of 200 prompt p] by simp
  qed
  then show "Authorship_parse E b = Some b" "is_ai b = is_ai a" by simp_all
qed

lemma VerifierPassed_stable [stable_parses]:
  assumes "VerifierPassed_parse E a = Some b"
  shows "VerifierPassed_parse E b = Some b"
proof -
  from assms obtain v where p: "text_parse 200 (vp_verifierVersion a) = Some v"
    and "b = a\<lparr>vp_verifierVersion := v\<rparr>"
    and "z_uuid E (vp_draftVersionId a) \<and> sha256_pattern (vp_contentHash a) \<and> z_datetime E (vp_verifiedAt a)"
    by (auto simp: VerifierPassed_parse_def bind_eq_Some_conv split: if_splits)
  then show ?thesis by (simp add: VerifierPassed_parse_def text_parse_stable[OF p])
qed

lemma VerifierResult_stable [stable_parses]:
  assumes "VerifierResult_parse E a = Some b"
  shows "VerifierResult_parse E b = Some b"
proof (cases a)
  case (VerifierRejected d h reasons at)
  with assms obtain rs where rs: "traverse NonEmptyText_parse reasons = Some rs" and "b = VerifierRejected d h rs at"
      and "z_uuid E d \<and> sha256_pattern h \<and> reasons \<noteq> [] \<and> z_datetime E at"
    by (auto split: if_splits)
  then show ?thesis using traverse_stable[OF text_parse_stable rs] traverse_length[OF rs] by auto
qed (use assms in \<open>auto split: if_splits dest: VerifierPassed_stable\<close>)

lemma ConfirmedFinding_stable [stable_parses]:
  assumes "ConfirmedFinding_parse E m a = Some b"
  shows "ConfirmedFinding_parse E m b = Some b"
proof -
  from assms obtain c w i v where p: "FindingContent_parse (cf_content a) = Some c"
      "Authorship_parse E (cf_authorship a) = Some w"
      "InspectorAttribution_parse E (cf_inspectorAttribution a) = Some i"
      "VerifierResult_parse E (cf_verifier a) = Some v"
    and b: "b = a\<lparr>cf_content := c, cf_authorship := w, cf_inspectorAttribution := i, cf_verifier := v\<rparr>"
    and ok: "validateConfirmation b" "z_uuid E (cf_findingId a) \<and> z_uuid E (cf_versionId a) \<and> z_uuid E (cf_organizationId a)
         \<and> z_uuid E (cf_jobId a) \<and> z_uuid E (cf_moduleId a) \<and> sha256_pattern (cf_contentHash a)
         \<and> class_module (fc_class (cf_content a)) = m"
    by (auto simp: ConfirmedFinding_parse_def Let_def bind_eq_Some_conv split: if_splits)
  show ?thesis
    using ok FindingContent_stable[OF p(1)] Authorship_stable[OF p(2)] InspectorAttribution_stable[OF p(3)]
      VerifierResult_stable[OF p(4)]
    by (simp add: ConfirmedFinding_parse_def b)
qed

lemma CoverageState_stable [stable_parses]:
  "CoverageState_parse a = Some b \<Longrightarrow> CoverageState_parse b = Some b"
  by (cases a) (auto intro: text_parse_stable)

lemma CoverageEntry_stable [stable_parses]:
  assumes "CoverageEntry_parse E a = Some b"
  shows "CoverageEntry_parse E b = Some b"
proof -
  from assms obtain k where "CoverageState_parse (ce_state a) = Some k" and "b = a\<lparr>ce_state := k\<rparr>"
    and "z_uuid E (ce_coverageEntryId a) \<and> z_uuid E (ce_moduleId a) \<and> z_uuid E (ce_areaId a)
         \<and> z_datetime E (ce_recordedAt a) \<and> z_uuid E (ce_recordedByInspectorId a)"
    by (auto simp: CoverageEntry_parse_def split: if_splits)
  then show ?thesis using CoverageState_stable[of "ce_state a" k] by (simp add: CoverageEntry_parse_def)
qed

lemma ModuleLimitation_stable [stable_parses]:
  assumes "ModuleLimitation_parse E a = Some b"
  shows "ModuleLimitation_parse E b = Some b"
proof -
  from assms obtain d where "NonEmptyText_parse (ml_description a) = Some d" and "b = a\<lparr>ml_description := d\<rparr>"
    and "z_uuid E (ml_limitationId a) \<and> z_uuid E (ml_moduleId a) \<and> z_uuid E (ml_areaId a)
         \<and> z_datetime E (ml_recordedAt a) \<and> z_uuid E (ml_recordedByInspectorId a)"
    by (auto simp: ModuleLimitation_parse_def split: if_splits)
  then show ?thesis using text_parse_stable by (simp add: ModuleLimitation_parse_def)
qed

lemma Conclusion_stable [stable_parses]:
  assumes "Conclusion_parse a = Some b"
  shows "Conclusion_parse b = Some b" "conclusion_module b = conclusion_module a"
  using assms by (cases a; auto split: if_splits dest: text_parse_stable)+

lemma SnapshotFields_parse_SomeE:
  assumes "SnapshotFields_parse E s = Some t"
  obtains i r tv ls vs fs cs c where
    "t = s\<lparr>ms_inspector := i, ms_requirementVersion := r, ms_templateVersion := tv,
          ms_limitations := ls, ms_verifierResults := vs, ms_findings := fs, ms_coverage := cs,
          ms_conclusion := c\<rparr>"
    "InspectorAttribution_parse E (ms_inspector s) = Some i"
    "text_parse 200 (ms_requirementVersion s) = Some r" "text_parse 200 (ms_templateVersion s) = Some tv"
    "traverse (ModuleLimitation_parse E) (ms_limitations s) = Some ls"
    "traverse (VerifierPassed_parse E) (ms_verifierResults s) = Some vs"
    "traverse (ConfirmedFinding_parse E (ms_module s)) (ms_findings s) = Some fs"
    "traverse (CoverageEntry_parse E) (ms_coverage s) = Some cs" "Conclusion_parse (ms_conclusion s) = Some c"
    "z_uuid E (ms_snapshotId s) \<and> z_uuid E (ms_organizationId s) \<and> z_uuid E (ms_jobId s)
         \<and> z_uuid E (ms_moduleId s) \<and> positive_int (ms_revision s) \<and> z_datetime E (ms_createdAt s)
         \<and> list_all sha256_pattern (ms_evidenceHashes s)
         \<and> list_all (ArtifactReference_ok E) (ms_mediaSelection s)
         \<and> conclusion_module (ms_conclusion s) = ms_module s"
    "validateSnapshotRelationships t"
  using assms unfolding SnapshotFields_parse_def Let_def
  by (simp add: bind_eq_Some_conv split: if_splits)

lemma SnapshotFields_parse_fields:
  assumes "SnapshotFields_parse E s = Some t"
  shows "ms_snapshotId t = ms_snapshotId s" "ms_organizationId t = ms_organizationId s"
    "ms_jobId t = ms_jobId s" "ms_moduleId t = ms_moduleId s" "ms_revision t = ms_revision s"
    "ms_module t = ms_module s" "ms_evidenceHashes t = ms_evidenceHashes s"
    "ms_mediaSelection t = ms_mediaSelection s" "module_snapshot_input.more t = module_snapshot_input.more s"
    "ms_createdAt t = ms_createdAt s" "positive_int (ms_revision t)" "validateSnapshotRelationships t"
  using assms by (auto elim!: SnapshotFields_parse_SomeE)

lemma SnapshotFields_stable [stable_parses]:
  assumes "SnapshotFields_parse E s = Some t"
  shows "SnapshotFields_parse E t = Some t"
  using assms
proof (rule SnapshotFields_parse_SomeE)
  fix i r tv ls vs fs cs c
  assume t: "t = s\<lparr>ms_inspector := i, ms_requirementVersion := r, ms_templateVersion := tv,
          ms_limitations := ls, ms_verifierResults := vs, ms_findings := fs, ms_coverage := cs,
          ms_conclusion := c\<rparr>"
    and p: "InspectorAttribution_parse E (ms_inspector s) = Some i"
    "text_parse 200 (ms_requirementVersion s) = Some r" "text_parse 200 (ms_templateVersion s) = Some tv"
    "traverse (ModuleLimitation_parse E) (ms_limitations s) = Some ls"
    "traverse (VerifierPassed_parse E) (ms_verifierResults s) = Some vs"
    "traverse (ConfirmedFinding_parse E (ms_module s)) (ms_findings s) = Some fs"
    "traverse (CoverageEntry_parse E) (ms_coverage s) = Some cs" "Conclusion_parse (ms_conclusion s) = Some c"
    and ok: "z_uuid E (ms_snapshotId s) \<and> z_uuid E (ms_organizationId s) \<and> z_uuid E (ms_jobId s)
         \<and> z_uuid E (ms_moduleId s) \<and> positive_int (ms_revision s) \<and> z_datetime E (ms_createdAt s)
         \<and> list_all sha256_pattern (ms_evidenceHashes s)
         \<and> list_all (ArtifactReference_ok E) (ms_mediaSelection s)
         \<and> conclusion_module (ms_conclusion s) = ms_module s"
    and rel: "validateSnapshotRelationships t"
  note st = InspectorAttribution_stable[OF p(1)] p(2,3)[THEN text_parse_stable]
    traverse_stable[OF ModuleLimitation_stable p(4)] traverse_stable[OF VerifierPassed_stable p(5)]
    traverse_stable[OF ConfirmedFinding_stable p(6)] traverse_stable[OF CoverageEntry_stable p(7)]
    Conclusion_stable[OF p(8)]
  show ?thesis using ok rel st unfolding t by (simp add: SnapshotFields_parse_def)
qed

lemma ModuleSnapshot_parse_fields:
  assumes "ModuleSnapshot_parse E s = Some t"
  shows "ms_snapshotId t = ms_snapshotId s" "ms_organizationId t = ms_organizationId s"
    "ms_jobId t = ms_jobId s" "ms_moduleId t = ms_moduleId s" "ms_revision t = ms_revision s"
    "ms_module t = ms_module s" "ms_evidenceHashes t = ms_evidenceHashes s"
    "ms_canonicalHash t = ms_canonicalHash s"
proof -
  from assms have p: "SnapshotFields_parse E s = Some t"
    by (simp add: ModuleSnapshot_parse_def split: if_splits)
  from SnapshotFields_parse_fields[OF p]
  show "ms_snapshotId t = ms_snapshotId s" "ms_organizationId t = ms_organizationId s"
    "ms_jobId t = ms_jobId s" "ms_moduleId t = ms_moduleId s" "ms_revision t = ms_revision s"
    "ms_module t = ms_module s" "ms_evidenceHashes t = ms_evidenceHashes s" by simp_all
  from p show "ms_canonicalHash t = ms_canonicalHash s"
    by (rule SnapshotFields_parse_SomeE) simp
qed

lemma ModuleSnapshot_stable [stable_parses]:
  assumes "ModuleSnapshot_parse E s = Some t"
  shows "ModuleSnapshot_parse E t = Some t"
proof -
  from assms have "SnapshotFields_parse E s = Some t" and "sha256_pattern (ms_canonicalHash s)"
    by (simp_all add: ModuleSnapshot_parse_def split: if_splits)
  then show ?thesis
    using ModuleSnapshot_parse_fields(8)[OF assms] SnapshotFields_stable[of E s t]
    by (simp add: ModuleSnapshot_parse_def)
qed

text \<open>The hashed input is the snapshot without its hash.\<close>

lemma validate_truncate [simp]:
  "validateSnapshotRelationships (module_snapshot_input.truncate s) = validateSnapshotRelationships s"
  by (simp add: validateSnapshotRelationships_def module_snapshot_input.defs)

lemma snapshot_input_json_truncate [simp]:
  "snapshot_input_json (module_snapshot_input.truncate s) = snapshot_input_json s"
  by (simp add: snapshot_input_json_def module_snapshot_input.defs)

lemma SnapshotFields_parse_truncate:
  assumes "SnapshotFields_parse E s = Some t"
  shows "SnapshotFields_parse E (module_snapshot_input.truncate s) = Some (module_snapshot_input.truncate t)"
  using assms
proof (rule SnapshotFields_parse_SomeE)
  fix i r tv ls vs fs cs c
  assume t: "t = s\<lparr>ms_inspector := i, ms_requirementVersion := r, ms_templateVersion := tv,
          ms_limitations := ls, ms_verifierResults := vs, ms_findings := fs, ms_coverage := cs,
          ms_conclusion := c\<rparr>"
    and p: "InspectorAttribution_parse E (ms_inspector s) = Some i"
    "text_parse 200 (ms_requirementVersion s) = Some r" "text_parse 200 (ms_templateVersion s) = Some tv"
    "traverse (ModuleLimitation_parse E) (ms_limitations s) = Some ls"
    "traverse (VerifierPassed_parse E) (ms_verifierResults s) = Some vs"
    "traverse (ConfirmedFinding_parse E (ms_module s)) (ms_findings s) = Some fs"
    "traverse (CoverageEntry_parse E) (ms_coverage s) = Some cs" "Conclusion_parse (ms_conclusion s) = Some c"
    and ok: "z_uuid E (ms_snapshotId s) \<and> z_uuid E (ms_organizationId s) \<and> z_uuid E (ms_jobId s)
         \<and> z_uuid E (ms_moduleId s) \<and> positive_int (ms_revision s) \<and> z_datetime E (ms_createdAt s)
         \<and> list_all sha256_pattern (ms_evidenceHashes s)
         \<and> list_all (ArtifactReference_ok E) (ms_mediaSelection s)
         \<and> conclusion_module (ms_conclusion s) = ms_module s"
    and rel: "validateSnapshotRelationships t"
  have tr: "module_snapshot_input.truncate t = (module_snapshot_input.truncate s)\<lparr>ms_inspector := i, ms_requirementVersion := r, ms_templateVersion := tv,
          ms_limitations := ls, ms_verifierResults := vs, ms_findings := fs, ms_coverage := cs,
          ms_conclusion := c\<rparr>"
    by (simp add: t module_snapshot_input.defs)
  have sel: "ms_inspector (module_snapshot_input.truncate s) = ms_inspector s"
    "ms_requirementVersion (module_snapshot_input.truncate s) = ms_requirementVersion s"
    "ms_templateVersion (module_snapshot_input.truncate s) = ms_templateVersion s"
    "ms_limitations (module_snapshot_input.truncate s) = ms_limitations s"
    "ms_verifierResults (module_snapshot_input.truncate s) = ms_verifierResults s"
    "ms_findings (module_snapshot_input.truncate s) = ms_findings s"
    "ms_coverage (module_snapshot_input.truncate s) = ms_coverage s"
    "ms_conclusion (module_snapshot_input.truncate s) = ms_conclusion s"
    "ms_module (module_snapshot_input.truncate s) = ms_module s"
    "ms_snapshotId (module_snapshot_input.truncate s) = ms_snapshotId s"
    "ms_organizationId (module_snapshot_input.truncate s) = ms_organizationId s"
    "ms_jobId (module_snapshot_input.truncate s) = ms_jobId s"
    "ms_moduleId (module_snapshot_input.truncate s) = ms_moduleId s"
    "ms_revision (module_snapshot_input.truncate s) = ms_revision s"
    "ms_createdAt (module_snapshot_input.truncate s) = ms_createdAt s"
    "ms_evidenceHashes (module_snapshot_input.truncate s) = ms_evidenceHashes s"
    "ms_mediaSelection (module_snapshot_input.truncate s) = ms_mediaSelection s"
    by (simp_all add: module_snapshot_input.defs)
  have "validateSnapshotRelationships (module_snapshot_input.truncate t)" using rel by simp
  then show ?thesis using ok p unfolding SnapshotFields_parse_def sel tr by simp
qed

lemma ModuleSnapshot_parse_input:
  assumes "ModuleSnapshot_parse E s = Some t"
  shows "ModuleSnapshotInput_parse E (module_snapshot_input.truncate t) = Some (module_snapshot_input.truncate t)"
proof -
  from ModuleSnapshot_stable[OF assms] have "SnapshotFields_parse E t = Some t"
    by (simp add: ModuleSnapshot_parse_def split: if_splits)
  then show ?thesis by (simp add: ModuleSnapshotInput_parse_def SnapshotFields_parse_truncate)
qed

end
