(* ===== verification/Versioned.thy ===== *)
theory Versioned
  imports Prelude
begin

text \<open>
  Optimistic concurrency: the interface of every aggregate whose commands name the revision they
  were issued against.  A provider promises that a command succeeds only on exactly that revision
  and advances it by one, and that a stale command is refused.  The consequences, that of several
  commands issued against one revision at most one is applied and that the revision counts the
  applied commands, are proved once here; every aggregate interprets the locale on its own operations.
\<close>

locale versioned =
  fixes rev_of :: "'s \<Rightarrow> int"
    and expects :: "'c \<Rightarrow> int"
    and run :: "'s \<Rightarrow> 'c \<Rightarrow> 'e + 's"
    and stale :: 'e
  assumes run_revision: "run s c = Inr s' \<Longrightarrow> rev_of s' = rev_of s + 1"
    and run_stale: "rev_of s \<noteq> expects c \<Longrightarrow> run s c = Inl stale"
begin

lemma run_expected: "run s c = Inr s' \<Longrightarrow> rev_of s = expects c"
  using run_stale by fastforce

lemma no_lost_update: "run s c = Inr s' \<Longrightarrow> expects d = expects c \<Longrightarrow> run s' d = Inl stale"
  using run_revision run_expected by (intro run_stale) fastforce

text \<open>Commands delivered one after the other, a refused one leaving the aggregate as it is.\<close>

primrec deliver :: "'s \<Rightarrow> 'c list \<Rightarrow> 's \<times> nat" where
  "deliver s [] = (s, 0)"
| "deliver s (c # cs) = (case run s c of Inl e \<Rightarrow> deliver s cs
     | Inr s' \<Rightarrow> (case deliver s' cs of (t, n) \<Rightarrow> (t, Suc n)))"

lemma deliver_counts: "deliver s cs = (t, n) \<Longrightarrow> rev_of t = rev_of s + int n"
proof (induction cs arbitrary: s t n)
  case (Cons c cs)
  then show ?case
    by (cases "run s c") (auto split: prod.splits dest: run_revision)
qed simp

lemma deliver_stale: "\<forall>c \<in> set cs. expects c \<noteq> rev_of s \<Longrightarrow> deliver s cs = (s, 0)"
  by (induction cs) (auto simp: run_stale)

lemma one_command_wins:
  assumes "\<forall>c \<in> set cs. expects c = r" and "deliver s cs = (t, n)"
  shows "n \<le> 1"
  using assms
proof (induction cs arbitrary: s t n)
  case (Cons c cs)
  show ?case
  proof (cases "run s c")
    case (Inl e)
    then show ?thesis using Cons by auto
  next
    case (Inr s')
    then have "rev_of s' = r + 1" using Cons.prems run_revision run_expected by fastforce
    then have "deliver s' cs = (s', 0)" using Cons.prems by (intro deliver_stale) auto
    then show ?thesis using Cons.prems Inr by simp
  qed
qed simp

end

end
