(* ===== verification/Module_Transitions.thy ===== *)
theory Module_Transitions
  imports Contracts Versioned
begin

text \<open>
  The professional module of \<open>packages/domain/src/transitions.ts\<close> with its schema in
  \<open>packages/contracts/src/modules.ts\<close>: registration of the first snapshot, approval,
  amendment, withdrawal and the evidence-at-risk mark, each guarded by an expected revision.
  The theory proves what a reachable module state guarantees about its snapshots and
  approvals, and which statuses can be left.
\<close>

section \<open>Errors\<close>

datatype domain_error =
    DomainConflict string
  | ZodError
  | HashError

section \<open>State\<close>

record module_approval =
  ap_approvalId :: string
  ap_organizationId :: string
  ap_jobId :: string
  ap_moduleId :: string
  ap_module :: module_type
  ap_snapshotId :: string
  ap_snapshotHash :: string
  ap_inspectorId :: string
  ap_approvedAt :: string

definition ModuleApproval_ok :: "env \<Rightarrow> 'a module_approval_scheme \<Rightarrow> bool" where
  "ModuleApproval_ok E a \<longleftrightarrow> z_uuid E (ap_approvalId a) \<and> z_uuid E (ap_organizationId a)
     \<and> z_uuid E (ap_jobId a) \<and> z_uuid E (ap_moduleId a) \<and> z_uuid E (ap_snapshotId a)
     \<and> sha256_pattern (ap_snapshotHash a) \<and> z_uuid E (ap_inspectorId a) \<and> z_datetime E (ap_approvedAt a)"

record amendment_record =
  am_amendmentId :: string
  am_priorSnapshotId :: string
  am_replacementSnapshotId :: string
  am_reason :: string
  am_amendedByInspectorId :: string
  am_amendedAt :: string

definition AmendmentRecord_parse :: "env \<Rightarrow> amendment_record \<Rightarrow> amendment_record option" where
  "AmendmentRecord_parse E a =
     (if z_uuid E (am_amendmentId a) \<and> z_uuid E (am_priorSnapshotId a) \<and> z_uuid E (am_replacementSnapshotId a)
         \<and> z_uuid E (am_amendedByInspectorId a) \<and> z_datetime E (am_amendedAt a)
      then map_option (\<lambda>r. a\<lparr>am_reason := r\<rparr>) (NonEmptyText_parse (am_reason a)) else None)"

record withdrawal_record =
  wd_reason :: string
  wd_withdrawnByInspectorId :: string
  wd_withdrawnAt :: string
  wd_withdrawnSnapshotId :: string

definition WithdrawalRecord_parse :: "env \<Rightarrow> withdrawal_record \<Rightarrow> withdrawal_record option" where
  "WithdrawalRecord_parse E w =
     (if z_uuid E (wd_withdrawnByInspectorId w) \<and> z_datetime E (wd_withdrawnAt w) \<and> z_uuid E (wd_withdrawnSnapshotId w)
      then map_option (\<lambda>r. w\<lparr>wd_reason := r\<rparr>) (NonEmptyText_parse (wd_reason w)) else None)"

text \<open>The only reason the schema admits is \<open>device_lost_before_server_durability\<close>; the
  record keeps the artifacts and the time.\<close>

record evidence_risk_record =
  er_artifactIds :: "string list"
  er_recordedAt :: string

definition EvidenceRiskRecord_ok :: "env \<Rightarrow> evidence_risk_record \<Rightarrow> bool" where
  "EvidenceRiskRecord_ok E r \<longleftrightarrow> er_artifactIds r \<noteq> [] \<and> list_all (z_uuid E) (er_artifactIds r) \<and> z_datetime E (er_recordedAt r)"

datatype module_status = Draft | Approved | Withdrawn | EvidenceAtRisk

record module_state =
  pm_organizationId :: string
  pm_jobId :: string
  pm_moduleId :: string
  pm_module :: module_type
  pm_revision :: int
  pm_status :: module_status
  pm_snapshots :: "module_snapshot list"
  pm_approvals :: "module_approval list"
  pm_amendments :: "amendment_record list"
  pm_currentSnapshotId :: "string option"
  pm_currentApprovalId :: "string option"
  pm_withdrawal :: "withdrawal_record option"
  pm_evidenceRisk :: "evidence_risk_record option"

definition find_snapshot :: "string \<Rightarrow> module_snapshot list \<Rightarrow> module_snapshot option" where
  "find_snapshot i ss = List.find (\<lambda>s. ms_snapshotId s = i) ss"

definition find_approval :: "string \<Rightarrow> module_approval list \<Rightarrow> module_approval option" where
  "find_approval i as = List.find (\<lambda>a. ap_approvalId a = i) as"

text \<open>The cross-field rules of the state's schema.\<close>

definition snapshot_belongs :: "module_state \<Rightarrow> module_snapshot \<Rightarrow> bool" where
  "snapshot_belongs v s \<longleftrightarrow> ms_organizationId s = pm_organizationId v \<and> ms_jobId s = pm_jobId v
     \<and> ms_module s = pm_module v \<and> ms_moduleId s = pm_moduleId v"

definition approval_belongs :: "module_state \<Rightarrow> module_approval \<Rightarrow> bool" where
  "approval_belongs v a \<longleftrightarrow> ap_organizationId a = pm_organizationId v \<and> ap_jobId a = pm_jobId v
     \<and> ap_module a = pm_module v \<and> ap_moduleId a = pm_moduleId v"

definition module_state_refine :: "module_state \<Rightarrow> bool" where
  "module_state_refine v \<longleftrightarrow>
     list_all (snapshot_belongs v) (pm_snapshots v)
     \<and> list_all (approval_belongs v) (pm_approvals v)
     \<and> (case pm_currentSnapshotId v of None \<Rightarrow> True
        | Some i \<Rightarrow> list_ex (\<lambda>s. ms_snapshotId s = i) (pm_snapshots v))
     \<and> (case pm_currentApprovalId v of None \<Rightarrow> True
        | Some i \<Rightarrow> list_ex (\<lambda>a. ap_approvalId a = i) (pm_approvals v))
     \<and> (pm_status v = Approved \<longrightarrow> pm_currentApprovalId v \<noteq> None)
     \<and> (case (pm_currentApprovalId v, pm_currentSnapshotId v) of
          (Some ai, Some si) \<Rightarrow> pm_status v = Approved \<longrightarrow>
            (case (find_approval ai (pm_approvals v), find_snapshot si (pm_snapshots v)) of
               (Some a, Some s) \<Rightarrow> ap_snapshotId a = ms_snapshotId s \<and> ap_snapshotHash a = ms_canonicalHash s
             | _ \<Rightarrow> False)
        | _ \<Rightarrow> True)
     \<and> (pm_status v = Withdrawn \<longrightarrow> pm_withdrawal v \<noteq> None)
     \<and> (pm_status v = EvidenceAtRisk \<longrightarrow> pm_evidenceRisk v \<noteq> None)
     \<and> (pm_status v = Withdrawn \<or> pm_status v = EvidenceAtRisk \<longrightarrow> pm_currentApprovalId v = None)
     \<and> (pm_status v \<noteq> Withdrawn \<longrightarrow> pm_withdrawal v = None)
     \<and> (pm_status v \<noteq> EvidenceAtRisk \<longrightarrow> pm_evidenceRisk v = None)"

definition ProfessionalModuleState_parse :: "env \<Rightarrow> module_state \<Rightarrow> module_state option" where
  "ProfessionalModuleState_parse E v =
     (if z_uuid E (pm_organizationId v) \<and> z_uuid E (pm_jobId v) \<and> z_uuid E (pm_moduleId v)
         \<and> nonneg_int (pm_revision v) \<and> list_all (ModuleApproval_ok E) (pm_approvals v)
         \<and> nullable_ok (z_uuid E) (pm_currentSnapshotId v) \<and> nullable_ok (z_uuid E) (pm_currentApprovalId v)
         \<and> nullable_ok (EvidenceRiskRecord_ok E) (pm_evidenceRisk v)
      then do {
        ss \<leftarrow> traverse (ModuleSnapshot_parse E) (pm_snapshots v);
        ams \<leftarrow> traverse (AmendmentRecord_parse E) (pm_amendments v);
        w \<leftarrow> nullable (WithdrawalRecord_parse E) (pm_withdrawal v);
        let p = v\<lparr>pm_snapshots := ss, pm_amendments := ams, pm_withdrawal := w\<rparr>;
        (if module_state_refine p then Some p else None) }
      else None)"

section \<open>Operations\<close>

definition freezeModuleState :: "env \<Rightarrow> module_state \<Rightarrow> domain_error + module_state" where
  "freezeModuleState E v = of_option ZodError (ProfessionalModuleState_parse E v)"

definition assertRevision :: "int \<Rightarrow> int \<Rightarrow> domain_error + unit" where
  "assertRevision actual expected = ensure (actual = expected) (DomainConflict ''stale_revision'') (Inr ())"

definition getCurrentSnapshot :: "module_state \<Rightarrow> domain_error + module_snapshot" where
  "getCurrentSnapshot v = (case pm_currentSnapshotId v of
     None \<Rightarrow> Inl (DomainConflict ''snapshot_missing'')
   | Some i \<Rightarrow> of_option (DomainConflict ''snapshot_missing'') (find_snapshot i (pm_snapshots v)))"

definition createModuleSnapshot :: "env \<Rightarrow> module_snapshot_input \<Rightarrow> domain_error + module_snapshot" where
  "createModuleSnapshot E input =
     bind_result (of_option ZodError (ModuleSnapshotInput_parse E input)) (\<lambda>parsed.
     case sha256 E (snapshot_input_json parsed) of
       Inl e \<Rightarrow> Inl HashError
     | Inr h \<Rightarrow> of_option ZodError
         (ModuleSnapshot_parse E (module_snapshot_input.extend parsed (module_snapshot.fields h))))"

definition verifyModuleSnapshotHash :: "env \<Rightarrow> module_snapshot \<Rightarrow> domain_error + bool" where
  "verifyModuleSnapshotHash E s =
     bind_result (of_option ZodError (ModuleSnapshot_parse E s)) (\<lambda>parsed.
     bind_result (of_option ZodError (ModuleSnapshotInput_parse E (module_snapshot_input.truncate parsed))) (\<lambda>v.
     case sha256 E (snapshot_input_json v) of
       Inl e \<Rightarrow> Inl HashError
     | Inr h \<Rightarrow> Inr (h = ms_canonicalHash parsed)))"

definition assertSnapshotForState :: "env \<Rightarrow> module_state \<Rightarrow> module_snapshot \<Rightarrow> domain_error + unit" where
  "assertSnapshotForState E v s =
     ensure (ModuleSnapshot_parse E s \<noteq> None) ZodError (
     bind_result (verifyModuleSnapshotHash E s) (\<lambda>valid.
     ensure valid (DomainConflict ''snapshot_hash_invalid'') (
     ensure (ms_organizationId s = pm_organizationId v \<and> ms_jobId s = pm_jobId v
             \<and> ms_moduleId s = pm_moduleId v \<and> ms_module s = pm_module v)
       (DomainConflict ''snapshot_module_mismatch'') (Inr ()))))"

definition createInitialModuleState ::
  "env \<Rightarrow> string \<Rightarrow> string \<Rightarrow> string \<Rightarrow> module_type \<Rightarrow> domain_error + module_state" where
  "createInitialModuleState E organizationId jobId moduleId m =
     freezeModuleState E \<lparr>pm_organizationId = organizationId, pm_jobId = jobId, pm_moduleId = moduleId,
       pm_module = m, pm_revision = 0, pm_status = Draft, pm_snapshots = [], pm_approvals = [],
       pm_amendments = [], pm_currentSnapshotId = None, pm_currentApprovalId = None,
       pm_withdrawal = None, pm_evidenceRisk = None\<rparr>"

definition registerModuleSnapshot ::
  "env \<Rightarrow> module_state \<Rightarrow> module_snapshot \<Rightarrow> int \<Rightarrow> domain_error + module_state" where
  "registerModuleSnapshot E v s expectedRevision =
     bind_result (assertRevision (pm_revision v) expectedRevision) (\<lambda>_.
     ensure (pm_snapshots v = []) (DomainConflict ''amendment_reason_required'') (
     bind_result (assertSnapshotForState E v s) (\<lambda>_.
     ensure (ms_revision s = 1) (DomainConflict ''snapshot_revision_mismatch'') (
     freezeModuleState E (v\<lparr>pm_revision := pm_revision v + 1, pm_status := Draft,
       pm_snapshots := pm_snapshots v @ [s], pm_currentSnapshotId := Some (ms_snapshotId s),
       pm_currentApprovalId := None, pm_withdrawal := None, pm_evidenceRisk := None\<rparr>)))))"

record approval_command =
  ac_expectedRevision :: int
  ac_approvalId :: string
  ac_snapshotId :: string
  ac_snapshotHash :: string
  ac_inspectorId :: string
  ac_approvedAt :: string

definition approveModule :: "env \<Rightarrow> module_state \<Rightarrow> approval_command \<Rightarrow> domain_error + module_state" where
  "approveModule E v c =
     bind_result (assertRevision (pm_revision v) (ac_expectedRevision c)) (\<lambda>_.
     ensure (pm_status v = Draft) (DomainConflict ''module_not_approvable'') (
     bind_result (getCurrentSnapshot v) (\<lambda>snap.
     ensure (ms_snapshotId snap = ac_snapshotId c \<and> ms_canonicalHash snap = ac_snapshotHash c)
       (DomainConflict ''snapshot_conflict'') (
     let a = \<lparr>ap_approvalId = ac_approvalId c, ap_organizationId = pm_organizationId v,
           ap_jobId = pm_jobId v, ap_moduleId = pm_moduleId v, ap_module = pm_module v,
           ap_snapshotId = ms_snapshotId snap, ap_snapshotHash = ms_canonicalHash snap,
           ap_inspectorId = ac_inspectorId c, ap_approvedAt = ac_approvedAt c\<rparr> in
     ensure (ModuleApproval_ok E a) ZodError (
     freezeModuleState E (v\<lparr>pm_revision := pm_revision v + 1, pm_status := Approved,
       pm_approvals := pm_approvals v @ [a], pm_currentApprovalId := Some (ap_approvalId a),
       pm_withdrawal := None, pm_evidenceRisk := None\<rparr>))))))"

record amendment_command =
  mc_expectedRevision :: int
  mc_amendmentId :: string
  mc_reason :: string
  mc_amendedByInspectorId :: string
  mc_amendedAt :: string
  mc_replacementSnapshot :: module_snapshot

definition amendModule :: "env \<Rightarrow> module_state \<Rightarrow> amendment_command \<Rightarrow> domain_error + module_state" where
  "amendModule E v c =
     bind_result (assertRevision (pm_revision v) (mc_expectedRevision c)) (\<lambda>_.
     ensure (pm_status v = Approved) (DomainConflict ''module_not_amendable'') (
     bind_result (getCurrentSnapshot v) (\<lambda>prior.
     bind_result (assertSnapshotForState E v (mc_replacementSnapshot c)) (\<lambda>_.
     ensure (ms_revision (mc_replacementSnapshot c) = ms_revision prior + 1)
       (DomainConflict ''snapshot_revision_mismatch'') (
     freezeModuleState E (v\<lparr>pm_revision := pm_revision v + 1, pm_status := Draft,
       pm_snapshots := pm_snapshots v @ [mc_replacementSnapshot c],
       pm_amendments := pm_amendments v @
         [\<lparr>am_amendmentId = mc_amendmentId c, am_priorSnapshotId = ms_snapshotId prior,
           am_replacementSnapshotId = ms_snapshotId (mc_replacementSnapshot c), am_reason = mc_reason c,
           am_amendedByInspectorId = mc_amendedByInspectorId c, am_amendedAt = mc_amendedAt c\<rparr>],
       pm_currentSnapshotId := Some (ms_snapshotId (mc_replacementSnapshot c)),
       pm_currentApprovalId := None, pm_withdrawal := None, pm_evidenceRisk := None\<rparr>))))))"

record withdrawal_command =
  wc_expectedRevision :: int
  wc_reason :: string
  wc_withdrawnByInspectorId :: string
  wc_withdrawnAt :: string

definition withdrawModule :: "env \<Rightarrow> module_state \<Rightarrow> withdrawal_command \<Rightarrow> domain_error + module_state" where
  "withdrawModule E v c =
     bind_result (assertRevision (pm_revision v) (wc_expectedRevision c)) (\<lambda>_.
     ensure (pm_status v = Approved) (DomainConflict ''module_not_withdrawable'') (
     bind_result (getCurrentSnapshot v) (\<lambda>snap.
     freezeModuleState E (v\<lparr>pm_revision := pm_revision v + 1, pm_status := Withdrawn,
       pm_currentApprovalId := None,
       pm_withdrawal := Some \<lparr>wd_reason = wc_reason c, wd_withdrawnByInspectorId = wc_withdrawnByInspectorId c,
         wd_withdrawnAt = wc_withdrawnAt c, wd_withdrawnSnapshotId = ms_snapshotId snap\<rparr>,
       pm_evidenceRisk := None\<rparr>))))"

record evidence_at_risk_command =
  ec_expectedRevision :: int
  ec_artifactIds :: "string list"
  ec_recordedAt :: string

definition markEvidenceAtRisk ::
  "env \<Rightarrow> module_state \<Rightarrow> evidence_at_risk_command \<Rightarrow> domain_error + module_state" where
  "markEvidenceAtRisk E v c =
     bind_result (assertRevision (pm_revision v) (ec_expectedRevision c)) (\<lambda>_.
     ensure (pm_status v \<noteq> Withdrawn) (DomainConflict ''withdrawn_module'') (
     freezeModuleState E (v\<lparr>pm_revision := pm_revision v + 1, pm_status := EvidenceAtRisk,
       pm_currentApprovalId := None, pm_withdrawal := None,
       pm_evidenceRisk := Some \<lparr>er_artifactIds = ec_artifactIds c, er_recordedAt = ec_recordedAt c\<rparr>\<rparr>)))"

section \<open>Snapshot hashes\<close>

lemma verifyModuleSnapshotHash_parsed:
  assumes "ModuleSnapshot_parse E s = Some t"
  shows "verifyModuleSnapshotHash E s = (case sha256 E (snapshot_input_json t) of
     Inl e \<Rightarrow> Inl HashError | Inr h \<Rightarrow> Inr (h = ms_canonicalHash t))"
  by (simp add: verifyModuleSnapshotHash_def assms ModuleSnapshot_parse_input[OF assms])

lemma verifyModuleSnapshotHash_stable:
  assumes "ModuleSnapshot_parse E s = Some t"
  shows "verifyModuleSnapshotHash E t = verifyModuleSnapshotHash E s"
  by (simp add: verifyModuleSnapshotHash_parsed[OF assms]
      verifyModuleSnapshotHash_parsed[OF ModuleSnapshot_stable[OF assms]])

lemma createModuleSnapshot_InrE:
  assumes "createModuleSnapshot E i = Inr s"
  obtains p h where "ModuleSnapshotInput_parse E i = Some p" "sha256 E (snapshot_input_json p) = Inr h"
    "sha256_pattern h" "s = module_snapshot_input.extend p (module_snapshot.fields h)"
    "ModuleSnapshot_parse E s = Some s"
proof -
  from assms obtain p h where p: "ModuleSnapshotInput_parse E i = Some p" "sha256 E (snapshot_input_json p) = Inr h"
    and s: "ModuleSnapshot_parse E (module_snapshot_input.extend p (module_snapshot.fields h)) = Some s"
    by (auto simp: createModuleSnapshot_def)
  from s have h: "sha256_pattern h" and f: "SnapshotFields_parse E (module_snapshot_input.extend p (module_snapshot.fields h)) = Some s"
    by (auto simp: ModuleSnapshot_parse_def module_snapshot_input.defs module_snapshot.defs split: if_splits)
  from p(1) have st: "SnapshotFields_parse E p = Some p"
    by (simp add: ModuleSnapshotInput_parse_def SnapshotFields_stable)
  have "module_snapshot_input.truncate (module_snapshot_input.extend p (module_snapshot.fields h)) = p"
    by (cases p) (simp add: module_snapshot_input.defs module_snapshot.defs)
  then have "module_snapshot_input.truncate s = p"
    using SnapshotFields_parse_truncate[OF f] st by simp
  moreover have "ms_canonicalHash s = h"
    using ModuleSnapshot_parse_fields(8)[OF s] by (simp add: module_snapshot_input.defs module_snapshot.defs)
  ultimately have "s = module_snapshot_input.extend p (module_snapshot.fields h)"
    by (cases s) (auto simp add: module_snapshot_input.defs module_snapshot.defs)
  with p h ModuleSnapshot_stable[OF s] that show thesis by blast
qed

section \<open>Lemmas on freezing and the operations\<close>

lemma find_snapshot_append:
  "find_snapshot i (xs @ ys) = (case find_snapshot i xs of None \<Rightarrow> find_snapshot i ys | Some s \<Rightarrow> Some s)"
  unfolding find_snapshot_def by (rule find_append)

lemma find_snapshot_SomeD: "find_snapshot i xs = Some s \<Longrightarrow> s \<in> set xs \<and> ms_snapshotId s = i"
  by (auto simp: find_snapshot_def dest: find_SomeD)

lemma find_approval_SomeD: "find_approval i xs = Some a \<Longrightarrow> a \<in> set xs \<and> ap_approvalId a = i"
  by (auto simp: find_approval_def dest: find_SomeD)

lemma AmendmentRecord_stable:
  assumes "AmendmentRecord_parse E a = Some b"
  shows "AmendmentRecord_parse E b = Some b"
  using assms by (auto simp: AmendmentRecord_parse_def split: if_splits dest: text_parse_stable)

lemma WithdrawalRecord_stable:
  assumes "WithdrawalRecord_parse E a = Some b"
  shows "WithdrawalRecord_parse E b = Some b"
  using assms by (auto simp: WithdrawalRecord_parse_def split: if_splits dest: text_parse_stable)

lemma freeze_InrE:
  assumes "freezeModuleState E v = Inr v'"
  obtains ss ams w where
    "v' = v\<lparr>pm_snapshots := ss, pm_amendments := ams, pm_withdrawal := w\<rparr>"
    "traverse (ModuleSnapshot_parse E) (pm_snapshots v) = Some ss"
    "traverse (AmendmentRecord_parse E) (pm_amendments v) = Some ams"
    "nullable (WithdrawalRecord_parse E) (pm_withdrawal v) = Some w"
    "z_uuid E (pm_organizationId v) \<and> z_uuid E (pm_jobId v) \<and> z_uuid E (pm_moduleId v)
         \<and> nonneg_int (pm_revision v) \<and> list_all (ModuleApproval_ok E) (pm_approvals v)
         \<and> nullable_ok (z_uuid E) (pm_currentSnapshotId v) \<and> nullable_ok (z_uuid E) (pm_currentApprovalId v)
         \<and> nullable_ok (EvidenceRiskRecord_ok E) (pm_evidenceRisk v)"
    "module_state_refine v'"
  using assms unfolding freezeModuleState_def ProfessionalModuleState_parse_def Let_def
  by (auto simp: bind_eq_Some_conv split: if_splits)

lemma freeze_stable:
  assumes "freezeModuleState E v = Inr v'"
  shows "freezeModuleState E v' = Inr v'"
  using assms
proof (rule freeze_InrE)
  fix ss ams w
  assume v': "v' = v\<lparr>pm_snapshots := ss, pm_amendments := ams, pm_withdrawal := w\<rparr>"
    and p: "traverse (ModuleSnapshot_parse E) (pm_snapshots v) = Some ss"
    "traverse (AmendmentRecord_parse E) (pm_amendments v) = Some ams"
    "nullable (WithdrawalRecord_parse E) (pm_withdrawal v) = Some w"
    and ok: "z_uuid E (pm_organizationId v) \<and> z_uuid E (pm_jobId v) \<and> z_uuid E (pm_moduleId v)
         \<and> nonneg_int (pm_revision v) \<and> list_all (ModuleApproval_ok E) (pm_approvals v)
         \<and> nullable_ok (z_uuid E) (pm_currentSnapshotId v) \<and> nullable_ok (z_uuid E) (pm_currentApprovalId v)
         \<and> nullable_ok (EvidenceRiskRecord_ok E) (pm_evidenceRisk v)"
    and r: "module_state_refine v'"
  note st = traverse_stable[OF ModuleSnapshot_stable p(1)] traverse_stable[OF AmendmentRecord_stable p(2)]
    nullable_stable[OF WithdrawalRecord_stable p(3)]
  show ?thesis using ok r st unfolding v'
    by (simp add: freezeModuleState_def ProfessionalModuleState_parse_def)
qed

text \<open>\<open>frozen E v\<close>: a value as the module's schema returns it; every state an operation
  returns is frozen.\<close>

definition frozen :: "env \<Rightarrow> module_state \<Rightarrow> bool" where
  "frozen E v \<longleftrightarrow> freezeModuleState E v = Inr v"

lemma frozen_freeze: "freezeModuleState E v = Inr v' \<Longrightarrow> frozen E v'"
  by (simp add: frozen_def freeze_stable)

lemma freeze_parts:
  assumes "freezeModuleState E v = Inr v'"
  shows "traverse (ModuleSnapshot_parse E) (pm_snapshots v) = Some (pm_snapshots v')"
    "traverse (AmendmentRecord_parse E) (pm_amendments v) = Some (pm_amendments v')"
    "nullable (WithdrawalRecord_parse E) (pm_withdrawal v) = Some (pm_withdrawal v')"
    "pm_organizationId v' = pm_organizationId v" "pm_jobId v' = pm_jobId v" "pm_moduleId v' = pm_moduleId v"
    "pm_module v' = pm_module v" "pm_revision v' = pm_revision v" "pm_status v' = pm_status v"
    "pm_approvals v' = pm_approvals v" "pm_currentSnapshotId v' = pm_currentSnapshotId v"
    "pm_currentApprovalId v' = pm_currentApprovalId v" "pm_evidenceRisk v' = pm_evidenceRisk v"
    "module_state_refine v'" "list_all (ModuleApproval_ok E) (pm_approvals v')"
  using assms by (rule freeze_InrE, simp)+

lemma traverse_fixed_append:
  assumes "traverse f xs = Some xs" "traverse f (xs @ [y]) = Some zs"
  obtains y' where "zs = xs @ [y']" "f y = Some y'"
  using assms by (auto simp: traverse_append split: option.splits)

lemma frozen_snapshots: "frozen E v \<Longrightarrow> traverse (ModuleSnapshot_parse E) (pm_snapshots v) = Some (pm_snapshots v)"
  and frozen_amendments: "frozen E v \<Longrightarrow> traverse (AmendmentRecord_parse E) (pm_amendments v) = Some (pm_amendments v)"
  and frozen_refine: "frozen E v \<Longrightarrow> module_state_refine v"
  unfolding frozen_def by (erule freeze_parts(1), erule freeze_parts(2), erule freeze_parts(14))

inductive module_step :: "env \<Rightarrow> module_state \<Rightarrow> module_state \<Rightarrow> bool" for E :: env where
  step_register: "registerModuleSnapshot E v s r = Inr v' \<Longrightarrow> module_step E v v'"
| step_approve: "approveModule E v c = Inr v' \<Longrightarrow> module_step E v v'"
| step_amend: "amendModule E v m = Inr v' \<Longrightarrow> module_step E v v'"
| step_withdraw: "withdrawModule E v w = Inr v' \<Longrightarrow> module_step E v v'"
| step_risk: "markEvidenceAtRisk E v e = Inr v' \<Longrightarrow> module_step E v v'"

inductive module_reachable :: "env \<Rightarrow> module_state \<Rightarrow> bool" for E :: env where
  reach_initial: "createInitialModuleState E org job mid m = Inr v \<Longrightarrow> module_reachable E v"
| reach_step: "module_reachable E v \<Longrightarrow> module_step E v v' \<Longrightarrow> module_reachable E v'"

lemmas operation_defs = registerModuleSnapshot_def approveModule_def amendModule_def withdrawModule_def
  markEvidenceAtRisk_def assertRevision_def Let_def

lemma module_step_frozen: "module_step E v v' \<Longrightarrow> frozen E v'"
  by (induction rule: module_step.induct) (auto simp: operation_defs intro: frozen_freeze)

lemma module_reachable_frozen: "module_reachable E v \<Longrightarrow> frozen E v"
  by (induction rule: module_reachable.induct)
    (auto simp: createInitialModuleState_def intro: frozen_freeze module_step_frozen)


text \<open>\<open>history_extends v v'\<close>: the identity is kept and the histories only grow at their end.\<close>

definition history_extends :: "module_state \<Rightarrow> module_state \<Rightarrow> bool" where
  "history_extends v v' \<longleftrightarrow> pm_organizationId v' = pm_organizationId v \<and> pm_jobId v' = pm_jobId v
     \<and> pm_moduleId v' = pm_moduleId v \<and> pm_module v' = pm_module v
     \<and> (\<exists>ss. pm_snapshots v' = pm_snapshots v @ ss) \<and> (\<exists>as. pm_approvals v' = pm_approvals v @ as)
     \<and> (\<exists>ms. pm_amendments v' = pm_amendments v @ ms)"

lemma history_extends_refl: "history_extends v v"
  by (simp add: history_extends_def)

lemma history_extends_trans: "history_extends u v \<Longrightarrow> history_extends v w \<Longrightarrow> history_extends u w"
  by (auto simp: history_extends_def)

lemma freeze_frozen_amendments:
  assumes "frozen E v" and "freezeModuleState E u = Inr u'" and "pm_amendments u = pm_amendments v @ ms"
  shows "\<exists>ns. pm_amendments u' = pm_amendments v @ ns"
  using assms freeze_parts(2)[OF assms(2)] frozen_amendments[OF assms(1)]
  by (auto simp: traverse_append split: option.splits intro: sym)

lemma assertSnapshotForState_InrD:
  assumes "assertSnapshotForState E v s = Inr u"
  shows "verifyModuleSnapshotHash E s = Inr True" "ms_organizationId s = pm_organizationId v" "ms_jobId s = pm_jobId v"
    "ms_moduleId s = pm_moduleId v" "ms_module s = pm_module v"
  using assms by (auto simp: assertSnapshotForState_def)

lemma getCurrentSnapshot_InrD:
  assumes "getCurrentSnapshot v = Inr s"
  shows "\<exists>i. pm_currentSnapshotId v = Some i \<and> find_snapshot i (pm_snapshots v) = Some s"
  using assms by (auto simp: getCurrentSnapshot_def split: option.splits)

lemma register_InrE [result_elims]:
  assumes "registerModuleSnapshot E v s r = Inr v'"
  obtains "pm_revision v = r" "pm_snapshots v = []" "assertSnapshotForState E v s = Inr ()" "ms_revision s = 1"
    "freezeModuleState E (v\<lparr>pm_revision := pm_revision v + 1, pm_status := Draft,
       pm_snapshots := pm_snapshots v @ [s], pm_currentSnapshotId := Some (ms_snapshotId s),
       pm_currentApprovalId := None, pm_withdrawal := None, pm_evidenceRisk := None\<rparr>) = Inr v'"
  using assms unfolding registerModuleSnapshot_def assertRevision_def by auto

definition new_approval :: "module_state \<Rightarrow> approval_command \<Rightarrow> module_snapshot \<Rightarrow> module_approval" where
  "new_approval v c snap = \<lparr>ap_approvalId = ac_approvalId c, ap_organizationId = pm_organizationId v,
           ap_jobId = pm_jobId v, ap_moduleId = pm_moduleId v, ap_module = pm_module v,
           ap_snapshotId = ms_snapshotId snap, ap_snapshotHash = ms_canonicalHash snap,
           ap_inspectorId = ac_inspectorId c, ap_approvedAt = ac_approvedAt c\<rparr>"

lemma approve_Inr:
  "approveModule E v c = Inr v' \<longleftrightarrow> pm_revision v = ac_expectedRevision c \<and> pm_status v = Draft
     \<and> (\<exists>snap. getCurrentSnapshot v = Inr snap \<and> ms_snapshotId snap = ac_snapshotId c
       \<and> ms_canonicalHash snap = ac_snapshotHash c \<and> ModuleApproval_ok E (new_approval v c snap)
       \<and> freezeModuleState E (v\<lparr>pm_revision := pm_revision v + 1, pm_status := Approved,
       pm_approvals := pm_approvals v @ [new_approval v c snap], pm_currentApprovalId := Some (ac_approvalId c),
       pm_withdrawal := None, pm_evidenceRisk := None\<rparr>) = Inr v')"
  unfolding approveModule_def assertRevision_def Let_def new_approval_def[symmetric]
  by (simp add: conj_assoc) (simp add: new_approval_def)

definition new_amendment :: "module_snapshot \<Rightarrow> amendment_command \<Rightarrow> amendment_record" where
  "new_amendment prior c = \<lparr>am_amendmentId = mc_amendmentId c, am_priorSnapshotId = ms_snapshotId prior,
           am_replacementSnapshotId = ms_snapshotId (mc_replacementSnapshot c), am_reason = mc_reason c,
           am_amendedByInspectorId = mc_amendedByInspectorId c, am_amendedAt = mc_amendedAt c\<rparr>"

lemma amend_Inr:
  "amendModule E v c = Inr v' \<longleftrightarrow> pm_revision v = mc_expectedRevision c \<and> pm_status v = Approved
     \<and> (\<exists>prior. getCurrentSnapshot v = Inr prior
       \<and> assertSnapshotForState E v (mc_replacementSnapshot c) = Inr ()
       \<and> ms_revision (mc_replacementSnapshot c) = ms_revision prior + 1
       \<and> freezeModuleState E (v\<lparr>pm_revision := pm_revision v + 1, pm_status := Draft,
       pm_snapshots := pm_snapshots v @ [mc_replacementSnapshot c],
       pm_amendments := pm_amendments v @ [new_amendment prior c],
       pm_currentSnapshotId := Some (ms_snapshotId (mc_replacementSnapshot c)),
       pm_currentApprovalId := None, pm_withdrawal := None, pm_evidenceRisk := None\<rparr>) = Inr v')"
  unfolding amendModule_def assertRevision_def new_amendment_def[symmetric] by simp

lemma withdraw_InrE [result_elims]:
  assumes "withdrawModule E v c = Inr v'"
  obtains snap where "pm_revision v = wc_expectedRevision c" "pm_status v = Approved" "getCurrentSnapshot v = Inr snap"
    "freezeModuleState E (v\<lparr>pm_revision := pm_revision v + 1, pm_status := Withdrawn,
       pm_currentApprovalId := None,
       pm_withdrawal := Some \<lparr>wd_reason = wc_reason c, wd_withdrawnByInspectorId = wc_withdrawnByInspectorId c,
         wd_withdrawnAt = wc_withdrawnAt c, wd_withdrawnSnapshotId = ms_snapshotId snap\<rparr>,
       pm_evidenceRisk := None\<rparr>) = Inr v'"
  using assms unfolding withdrawModule_def assertRevision_def by auto

lemma risk_InrE [result_elims]:
  assumes "markEvidenceAtRisk E v c = Inr v'"
  obtains "pm_revision v = ec_expectedRevision c" "pm_status v \<noteq> Withdrawn"
    "freezeModuleState E (v\<lparr>pm_revision := pm_revision v + 1, pm_status := EvidenceAtRisk,
       pm_currentApprovalId := None, pm_withdrawal := None,
       pm_evidenceRisk := Some \<lparr>er_artifactIds = ec_artifactIds c, er_recordedAt = ec_recordedAt c\<rparr>\<rparr>) = Inr v'"
  using assms unfolding markEvidenceAtRisk_def assertRevision_def by auto

lemma freeze_history:
  assumes "frozen E v" and f: "freezeModuleState E u = Inr u'"
    and "pm_organizationId u = pm_organizationId v" "pm_jobId u = pm_jobId v" "pm_moduleId u = pm_moduleId v"
      "pm_module u = pm_module v" "\<exists>ss. pm_snapshots u = pm_snapshots v @ ss"
      "\<exists>as. pm_approvals u = pm_approvals v @ as" "\<exists>ms. pm_amendments u = pm_amendments v @ ms"
  shows "history_extends v u'"
proof -
  obtain ss ms where s: "pm_snapshots u = pm_snapshots v @ ss" and m: "pm_amendments u = pm_amendments v @ ms"
    using assms by blast
  from s freeze_parts(1)[OF f] frozen_snapshots[OF assms(1)] have "\<exists>ss. pm_snapshots u' = pm_snapshots v @ ss"
    by (auto simp: traverse_append split: option.splits intro: sym)
  moreover have "\<exists>ms. pm_amendments u' = pm_amendments v @ ms"
    by (rule freeze_frozen_amendments[OF assms(1) f m])
  ultimately show ?thesis using assms(3-) freeze_parts(4-7,10)[OF f] by (simp add: history_extends_def)
qed

lemma module_step_history:
  assumes "module_step E v v'" and "frozen E v"
  shows "history_extends v v' \<and> pm_revision v' = pm_revision v + 1"
  using assms
proof (induction rule: module_step.induct)
  case (step_register v s r v')
  from step_register(1) show ?case
    by (rule register_InrE) (auto intro: freeze_history[OF step_register(2)] dest: freeze_parts(8))
next
  case (step_approve v c v')
  from step_approve(1) show ?case unfolding approve_Inr
    by (auto intro: freeze_history[OF step_approve(2)] dest: freeze_parts(8))
next
  case (step_amend v m v')
  from step_amend(1) show ?case unfolding amend_Inr
    by (auto intro: freeze_history[OF step_amend(2)] dest: freeze_parts(8))
next
  case (step_withdraw v c v')
  from step_withdraw(1) show ?case
    by (rule withdraw_InrE) (auto intro: freeze_history[OF step_withdraw(2)] dest: freeze_parts(8))
next
  case (step_risk v c v')
  from step_risk(1) show ?case
    by (rule risk_InrE) (auto intro: freeze_history[OF step_risk(2)] dest: freeze_parts(8))
qed

section \<open>The invariant of a module\<close>

definition approval_recorded :: "module_state \<Rightarrow> module_approval \<Rightarrow> bool" where
  "approval_recorded v a \<longleftrightarrow>
     list_ex (\<lambda>s. ms_snapshotId s = ap_snapshotId a \<and> ms_canonicalHash s = ap_snapshotHash a) (pm_snapshots v)"

definition module_invariant :: "env \<Rightarrow> module_state \<Rightarrow> bool" where
  "module_invariant E v \<longleftrightarrow> frozen E v
     \<and> list_all (\<lambda>s. verifyModuleSnapshotHash E s = Inr True) (pm_snapshots v)
     \<and> list_all (approval_recorded v) (pm_approvals v)
     \<and> (if pm_snapshots v = []
        then pm_currentSnapshotId v = None \<and> (pm_status v = Draft \<or> pm_status v = EvidenceAtRisk)
        else pm_currentSnapshotId v \<noteq> None)"

lemma traverse_list_all:
  assumes "traverse f xs = Some ys" and "\<And>x y. f x = Some y \<Longrightarrow> P x \<Longrightarrow> Q y" and "list_all P xs"
  shows "list_all Q ys"
  using assms by (induction xs arbitrary: ys) (auto split: option.splits)

lemma freeze_verified:
  assumes "freezeModuleState E u = Inr u'"
    and "list_all (\<lambda>s. verifyModuleSnapshotHash E s = Inr True) (pm_snapshots u)"
  shows "list_all (\<lambda>s. verifyModuleSnapshotHash E s = Inr True) (pm_snapshots u')"
  using freeze_parts(1)[OF assms(1)] _ assms(2)
  by (rule traverse_list_all) (simp add: verifyModuleSnapshotHash_stable)

lemma freeze_recorded:
  assumes f: "freezeModuleState E u = Inr u'" and "list_all (approval_recorded u) (pm_approvals u)"
  shows "list_all (approval_recorded u') (pm_approvals u')"
proof -
  have "map (\<lambda>s. (ms_snapshotId s, ms_canonicalHash s)) (pm_snapshots u')
      = map (\<lambda>s. (ms_snapshotId s, ms_canonicalHash s)) (pm_snapshots u)"
    using freeze_parts(1)[OF f] by (rule traverse_map_same) (simp add: ModuleSnapshot_parse_fields)
  then have "set (map (\<lambda>s. (ms_snapshotId s, ms_canonicalHash s)) (pm_snapshots u'))
      = set (map (\<lambda>s. (ms_snapshotId s, ms_canonicalHash s)) (pm_snapshots u))" by (rule arg_cong)
  then have "approval_recorded u' a = approval_recorded u a" for a
    unfolding approval_recorded_def list_ex_iff by (auto simp: set_eq_iff image_iff) metis+
  then show ?thesis using assms(2) freeze_parts(10)[OF f] by (simp add: list_all_iff)
qed

lemma freeze_invariant:
  assumes f: "freezeModuleState E u = Inr u'"
    and "list_all (\<lambda>s. verifyModuleSnapshotHash E s = Inr True) (pm_snapshots u)"
    and "list_all (approval_recorded u) (pm_approvals u)"
    and "if pm_snapshots u = [] then pm_currentSnapshotId u = None \<and> (pm_status u = Draft \<or> pm_status u = EvidenceAtRisk)
        else pm_currentSnapshotId u \<noteq> None"
  shows "module_invariant E u'"
proof -
  have "pm_snapshots u' = [] \<longleftrightarrow> pm_snapshots u = []"
    using traverse_length[OF freeze_parts(1)[OF f]] by (metis length_0_conv)
  then show ?thesis
    using freeze_verified[OF f assms(2)] freeze_recorded[OF f assms(3)] frozen_freeze[OF f] assms(4)
    by (simp add: module_invariant_def freeze_parts(9,11)[OF f])
qed

lemma recorded_mono:
  assumes "list_all (approval_recorded v) as" and "set (pm_snapshots v) \<subseteq> set (pm_snapshots u)"
  shows "list_all (approval_recorded u) as"
  using assms by (auto simp: list_all_iff approval_recorded_def list_ex_iff)

lemma getCurrentSnapshot_in: "getCurrentSnapshot v = Inr s \<Longrightarrow> s \<in> set (pm_snapshots v)"
  by (auto dest!: getCurrentSnapshot_InrD find_snapshot_SomeD)

lemma module_step_invariant:
  assumes "module_step E v v'" and "module_invariant E v"
  shows "module_invariant E v'"
  using assms
proof (induction rule: module_step.induct)
  case (step_register v s r v')
  from step_register(1) show ?case
  proof (rule register_InrE)
    assume a: "pm_snapshots v = []" "assertSnapshotForState E v s = Inr ()"
      and f: "freezeModuleState E (v\<lparr>pm_revision := pm_revision v + 1, pm_status := Draft,
       pm_snapshots := pm_snapshots v @ [s], pm_currentSnapshotId := Some (ms_snapshotId s),
       pm_currentApprovalId := None, pm_withdrawal := None, pm_evidenceRisk := None\<rparr>) = Inr v'"
    show ?thesis
      using step_register(2) a assertSnapshotForState_InrD(1)[OF a(2)]
      by (intro freeze_invariant[OF f]) (auto simp: module_invariant_def intro: recorded_mono)
  qed
next
  case (step_approve v c v')
  then obtain snap where g: "getCurrentSnapshot v = Inr snap"
    and f: "freezeModuleState E (v\<lparr>pm_revision := pm_revision v + 1, pm_status := Approved,
       pm_approvals := pm_approvals v @ [new_approval v c snap], pm_currentApprovalId := Some (ac_approvalId c),
       pm_withdrawal := None, pm_evidenceRisk := None\<rparr>) = Inr v'"
    by (auto simp: approve_Inr)
  have "approval_recorded v (new_approval v c snap)"
    using getCurrentSnapshot_in[OF g] by (auto simp: approval_recorded_def new_approval_def list_ex_iff)
  moreover have "pm_snapshots v \<noteq> []" using getCurrentSnapshot_in[OF g] by auto
  ultimately show ?case using step_approve(2)
    by (intro freeze_invariant[OF f]) (auto simp: module_invariant_def approval_recorded_def intro: recorded_mono)
next
  case (step_amend v m v')
  then obtain prior where a: "assertSnapshotForState E v (mc_replacementSnapshot m) = Inr ()"
    and f: "freezeModuleState E (v\<lparr>pm_revision := pm_revision v + 1, pm_status := Draft,
       pm_snapshots := pm_snapshots v @ [mc_replacementSnapshot m],
       pm_amendments := pm_amendments v @ [new_amendment prior m],
       pm_currentSnapshotId := Some (ms_snapshotId (mc_replacementSnapshot m)),
       pm_currentApprovalId := None, pm_withdrawal := None, pm_evidenceRisk := None\<rparr>) = Inr v'"
    by (auto simp: amend_Inr)
  show ?case using step_amend(2) assertSnapshotForState_InrD(1)[OF a]
    by (intro freeze_invariant[OF f]) (auto simp: module_invariant_def intro: recorded_mono split: if_splits)
next
  case (step_withdraw v c v')
  from step_withdraw(1) show ?case
  proof (rule withdraw_InrE)
    fix snap
    assume g: "getCurrentSnapshot v = Inr snap"
      and f: "freezeModuleState E (v\<lparr>pm_revision := pm_revision v + 1, pm_status := Withdrawn,
       pm_currentApprovalId := None,
       pm_withdrawal := Some \<lparr>wd_reason = wc_reason c, wd_withdrawnByInspectorId = wc_withdrawnByInspectorId c,
         wd_withdrawnAt = wc_withdrawnAt c, wd_withdrawnSnapshotId = ms_snapshotId snap\<rparr>,
       pm_evidenceRisk := None\<rparr>) = Inr v'"
    have "pm_snapshots v \<noteq> []" using getCurrentSnapshot_in[OF g] by auto
    then show ?thesis using step_withdraw(2)
      by (intro freeze_invariant[OF f]) (auto simp: module_invariant_def approval_recorded_def intro: recorded_mono)
  qed
next
  case (step_risk v c v')
  from step_risk(1) show ?case
  proof (rule risk_InrE)
    assume f: "freezeModuleState E (v\<lparr>pm_revision := pm_revision v + 1, pm_status := EvidenceAtRisk,
       pm_currentApprovalId := None, pm_withdrawal := None,
       pm_evidenceRisk := Some \<lparr>er_artifactIds = ec_artifactIds c, er_recordedAt = ec_recordedAt c\<rparr>\<rparr>) = Inr v'"
    show ?thesis using step_risk(2)
      by (intro freeze_invariant[OF f]) (auto simp: module_invariant_def intro: recorded_mono split: if_splits)
  qed
qed

lemma module_reachable_invariant: "module_reachable E v \<Longrightarrow> module_invariant E v"
proof (induction rule: module_reachable.induct)
  case (reach_initial org job mid m v)
  then have f: "freezeModuleState E \<lparr>pm_organizationId = org, pm_jobId = job, pm_moduleId = mid,
       pm_module = m, pm_revision = 0, pm_status = Draft, pm_snapshots = [], pm_approvals = [],
       pm_amendments = [], pm_currentSnapshotId = None, pm_currentApprovalId = None,
       pm_withdrawal = None, pm_evidenceRisk = None\<rparr> = Inr v"
    by (simp add: createInitialModuleState_def)
  show ?case by (rule freeze_invariant[OF f]) simp_all
next
  case (reach_step v v')
  then show ?case by (blast intro: module_step_invariant)
qed

lemma module_steps_history:
  "(module_step E ^^ n) v v' \<Longrightarrow> frozen E v \<Longrightarrow> history_extends v v' \<and> pm_revision v' = pm_revision v + int n \<and> frozen E v'"
proof (induction n arbitrary: v')
  case 0
  then show ?case by (simp add: history_extends_refl)
next
  case (Suc n)
  then obtain u where u: "(module_step E ^^ n) v u" "module_step E u v'" by auto
  with Suc.IH[OF u(1)] Suc.prems(2) module_step_history[OF u(2)] module_step_frozen[OF u(2)]
  show ?case by (auto intro: history_extends_trans)
qed


lemma approved_binding:
  assumes "module_state_refine v" and "pm_status v = Approved" and "pm_currentSnapshotId v \<noteq> None"
  shows "\<exists>ai a s. pm_currentApprovalId v = Some ai \<and> find_approval ai (pm_approvals v) = Some a
    \<and> getCurrentSnapshot v = Inr s \<and> ap_snapshotId a = ms_snapshotId s \<and> ap_snapshotHash a = ms_canonicalHash s
    \<and> snapshot_belongs v s \<and> approval_belongs v a"
proof -
  from assms obtain ai si where i: "pm_currentApprovalId v = Some ai" "pm_currentSnapshotId v = Some si"
    by (auto simp: module_state_refine_def)
  with assms(1,2) obtain a s where as: "find_approval ai (pm_approvals v) = Some a" "find_snapshot si (pm_snapshots v) = Some s"
      "ap_snapshotId a = ms_snapshotId s" "ap_snapshotHash a = ms_canonicalHash s"
    by (auto simp: module_state_refine_def split: option.splits)
  moreover have "snapshot_belongs v s \<and> approval_belongs v a"
    using assms(1) find_snapshot_SomeD[OF as(2)] find_approval_SomeD[OF as(1)]
    by (auto simp: module_state_refine_def list_all_iff)
  ultimately show ?thesis using i by (auto simp: getCurrentSnapshot_def)
qed

lemma freeze_fixedI:
  assumes "traverse (ModuleSnapshot_parse E) (pm_snapshots u) = Some (pm_snapshots u)"
    and "traverse (AmendmentRecord_parse E) (pm_amendments u) = Some (pm_amendments u)"
    and "nullable (WithdrawalRecord_parse E) (pm_withdrawal u) = Some (pm_withdrawal u)"
    and "z_uuid E (pm_organizationId u) \<and> z_uuid E (pm_jobId u) \<and> z_uuid E (pm_moduleId u)
         \<and> nonneg_int (pm_revision u) \<and> list_all (ModuleApproval_ok E) (pm_approvals u)
         \<and> nullable_ok (z_uuid E) (pm_currentSnapshotId u) \<and> nullable_ok (z_uuid E) (pm_currentApprovalId u)
         \<and> nullable_ok (EvidenceRiskRecord_ok E) (pm_evidenceRisk u)"
    and "module_state_refine u"
  shows "freezeModuleState E u = Inr u"
  using assms by (simp add: freezeModuleState_def ProfessionalModuleState_parse_def)

section \<open>Concurrency\<close>

datatype module_command =
    Register module_snapshot int
  | Approve approval_command
  | Amend amendment_command
  | Withdraw withdrawal_command
  | MarkAtRisk evidence_at_risk_command

fun module_expects :: "module_command \<Rightarrow> int" where
  "module_expects (Register s r) = r"
| "module_expects (Approve c) = ac_expectedRevision c"
| "module_expects (Amend c) = mc_expectedRevision c"
| "module_expects (Withdraw c) = wc_expectedRevision c"
| "module_expects (MarkAtRisk c) = ec_expectedRevision c"

fun run_module :: "env \<Rightarrow> module_state \<Rightarrow> module_command \<Rightarrow> domain_error + module_state" where
  "run_module E v (Register s r) = registerModuleSnapshot E v s r"
| "run_module E v (Approve c) = approveModule E v c"
| "run_module E v (Amend c) = amendModule E v c"
| "run_module E v (Withdraw c) = withdrawModule E v c"
| "run_module E v (MarkAtRisk c) = markEvidenceAtRisk E v c"

lemma assertRevision_stale: "r \<noteq> x \<Longrightarrow> assertRevision r x = Inl (DomainConflict ''stale_revision'')"
  by (simp add: assertRevision_def)

lemma run_module_step: "run_module E v c = Inr v' \<Longrightarrow> module_step E v v'"
  by (cases c) (auto intro: module_step.intros)

lemma run_module_revision: "run_module E v c = Inr v' \<Longrightarrow> pm_revision v' = pm_revision v + 1"
  by (cases c) (auto elim!: register_InrE withdraw_InrE risk_InrE simp: approve_Inr amend_Inr dest: freeze_parts(8))

lemma run_module_stale:
  "pm_revision v \<noteq> module_expects c \<Longrightarrow> run_module E v c = Inl (DomainConflict ''stale_revision'')"
  by (cases c) (simp_all add: registerModuleSnapshot_def approveModule_def amendModule_def withdrawModule_def
      markEvidenceAtRisk_def assertRevision_stale)

interpretation module_versions: versioned pm_revision module_expects "run_module E" "DomainConflict ''stale_revision''"
  for E
  by unfold_locales (fact run_module_revision run_module_stale)+

section \<open>Sample states\<close>

text \<open>A building module that registers a snapshot, is approved, amended or withdrawn.\<close>

definition sample_snapshot :: "string \<Rightarrow> int \<Rightarrow> string \<Rightarrow> module_snapshot" where
  "sample_snapshot i r tv = \<lparr>ms_snapshotId = i, ms_organizationId = ''org'', ms_jobId = ''job'',
     ms_moduleId = ''mod'', ms_revision = r, ms_createdAt = ''2026-07-15'',
     ms_inspector = \<lparr>ia_inspectorId = ''insp'', ia_displayName = ''I'', ia_credentialVersion = ''c1'',
       ia_confirmedAt = ''2026-07-15''\<rparr>,
     ms_requirementVersion = ''r1'', ms_templateVersion = tv, ms_limitations = [], ms_verifierResults = [],
     ms_evidenceHashes = [], ms_mediaSelection = [], ms_module = Building, ms_findings = [], ms_coverage = [],
     ms_conclusion = BuildingConclusion ''ok'' 0 0, ms_canonicalHash = replicate 64 (CHR ''a'')\<rparr>"

definition sample_approval :: "int \<Rightarrow> string \<Rightarrow> string \<Rightarrow> approval_command" where
  "sample_approval r i s = \<lparr>ac_expectedRevision = r, ac_approvalId = i, ac_snapshotId = s,
     ac_snapshotHash = replicate 64 (CHR ''a''), ac_inspectorId = ''insp'', ac_approvedAt = ''2026-07-15''\<rparr>"

definition sample_initial :: module_state where
  "sample_initial = projr (createInitialModuleState sample_env ''org'' ''job'' ''mod'' Building)"

definition sample_draft :: module_state where
  "sample_draft = projr (registerModuleSnapshot sample_env sample_initial (sample_snapshot ''s1'' 1 ''t1'') 0)"

definition sample_approved :: module_state where
  "sample_approved = projr (approveModule sample_env sample_draft (sample_approval 1 ''a1'' ''s1''))"

definition sample_amendment :: "string \<Rightarrow> amendment_command" where
  "sample_amendment i = \<lparr>mc_expectedRevision = 2, mc_amendmentId = ''m1'', mc_reason = ''corrected'',
     mc_amendedByInspectorId = ''insp'', mc_amendedAt = ''2026-07-16'',
     mc_replacementSnapshot = sample_snapshot i 2 ''t2''\<rparr>"

definition sample_amended :: "string \<Rightarrow> module_state" where
  "sample_amended i = projr (amendModule sample_env sample_approved (sample_amendment i))"

definition sample_withdrawal :: withdrawal_command where
  "sample_withdrawal = \<lparr>wc_expectedRevision = 2, wc_reason = ''disputed'', wc_withdrawnByInspectorId = ''insp'',
     wc_withdrawnAt = ''2026-07-16''\<rparr>"

definition sample_withdrawn :: module_state where
  "sample_withdrawn = projr (withdrawModule sample_env sample_approved sample_withdrawal)"

definition sample_at_risk :: module_state where
  "sample_at_risk = projr (markEvidenceAtRisk sample_env sample_draft
     \<lparr>ec_expectedRevision = 1, ec_artifactIds = [''x''], ec_recordedAt = ''2026-07-16''\<rparr>)"

lemma sample_initial_ok: "createInitialModuleState sample_env ''org'' ''job'' ''mod'' Building = Inr sample_initial"
  unfolding sample_initial_def by (rule projr_eqI) code_simp

lemma sample_draft_ok: "registerModuleSnapshot sample_env sample_initial (sample_snapshot ''s1'' 1 ''t1'') 0 = Inr sample_draft"
  unfolding sample_draft_def by (rule projr_eqI) code_simp

lemma sample_approved_ok: "approveModule sample_env sample_draft (sample_approval 1 ''a1'' ''s1'') = Inr sample_approved"
  unfolding sample_approved_def by (rule projr_eqI) code_simp

lemma sample_amended_ok: "amendModule sample_env sample_approved (sample_amendment ''s2'') = Inr (sample_amended ''s2'')"
  unfolding sample_amended_def by (rule projr_eqI) code_simp

lemma sample_withdrawn_ok: "withdrawModule sample_env sample_approved sample_withdrawal = Inr sample_withdrawn"
  unfolding sample_withdrawn_def by (rule projr_eqI) code_simp

lemma sample_at_risk_ok: "markEvidenceAtRisk sample_env sample_draft
     \<lparr>ec_expectedRevision = 1, ec_artifactIds = [''x''], ec_recordedAt = ''2026-07-16''\<rparr> = Inr sample_at_risk"
  unfolding sample_at_risk_def by (rule projr_eqI) code_simp

lemma sample_draft_reachable: "module_reachable sample_env sample_draft"
  using sample_initial_ok sample_draft_ok by (blast intro: reach_initial reach_step step_register)

lemma sample_approved_reachable: "module_reachable sample_env sample_approved"
  using sample_draft_reachable sample_approved_ok by (blast intro: reach_step step_approve)

lemma sample_withdrawn_reachable: "module_reachable sample_env sample_withdrawn"
  using sample_approved_reachable sample_withdrawn_ok by (blast intro: reach_step step_withdraw)

lemma sample_at_risk_reachable: "module_reachable sample_env sample_at_risk"
  using sample_draft_reachable sample_at_risk_ok by (blast intro: reach_step step_risk)

lemma sample_status: "pm_status sample_approved = Approved" "pm_status sample_withdrawn = Withdrawn"
  "pm_status sample_at_risk = EvidenceAtRisk" "pm_status sample_draft = Draft"
  "pm_snapshots sample_at_risk \<noteq> []"
  by code_simp+

section \<open>Properties\<close>

text \<open>C1: an approved module that can be reached always has a current approval that binds the
  identifier and the canonical hash of its current snapshot; that snapshot's recomputed hash is the
  stored one, and both belong to the module.\<close>

theorem approved_binds_verified_snapshot:
  assumes "module_reachable E v" and "pm_status v = Approved"
  shows "\<exists>ai a s. pm_currentApprovalId v = Some ai \<and> find_approval ai (pm_approvals v) = Some a
    \<and> getCurrentSnapshot v = Inr s \<and> ap_snapshotId a = ms_snapshotId s \<and> ap_snapshotHash a = ms_canonicalHash s
    \<and> verifyModuleSnapshotHash E s = Inr True \<and> snapshot_belongs v s \<and> approval_belongs v a"
proof -
  have inv: "module_invariant E v" using assms(1) by (rule module_reachable_invariant)
  then have "module_state_refine v" "pm_currentSnapshotId v \<noteq> None"
    using assms(2) by (auto simp: module_invariant_def intro: frozen_refine split: if_splits)
  from approved_binding[OF this(1) assms(2) this(2)] inv getCurrentSnapshot_in show ?thesis
    unfolding module_invariant_def list_all_iff by blast
qed

lemma approved_binds_verified_snapshot_witness:
  "\<exists>a s. find_approval ''a1'' (pm_approvals sample_approved) = Some a \<and> getCurrentSnapshot sample_approved = Inr s
    \<and> ap_snapshotHash a = ms_canonicalHash s \<and> verifyModuleSnapshotHash sample_env s = Inr True"
proof -
  have "pm_currentApprovalId sample_approved = Some ''a1''" by code_simp
  with approved_binds_verified_snapshot[OF sample_approved_reachable sample_status(1)] show ?thesis by auto
qed

text \<open>C2: whatever sequence of transitions is applied to a reachable module, its snapshots,
  approvals and amendments are only appended to, its identity stays, and the revision counts the
  transitions exactly.\<close>

theorem module_history_append_only:
  assumes "module_reachable E v" and "(module_step E ^^ n) v v'"
  shows "history_extends v v' \<and> pm_revision v' = pm_revision v + int n"
  using module_steps_history[OF assms(2) module_reachable_frozen[OF assms(1)]] by blast

lemma module_history_append_only_witness:
  "history_extends sample_draft sample_withdrawn \<and> pm_revision sample_withdrawn = pm_revision sample_draft + int 2"
proof (rule module_history_append_only[OF sample_draft_reachable])
  have "module_step sample_env sample_draft sample_approved" "module_step sample_env sample_approved sample_withdrawn"
    using sample_approved_ok sample_withdrawn_ok by (blast intro: step_approve step_withdraw)+
  then show "(module_step sample_env ^^ 2) sample_draft sample_withdrawn"
    by (auto simp: numeral_2_eq_2)
qed

text \<open>C3: withdrawal is final: no operation of the module succeeds on a reachable withdrawn
  module, whatever its command.\<close>

theorem withdrawn_is_terminal:
  assumes "module_reachable E v" and "pm_status v = Withdrawn"
  shows "\<nexists>v'. module_step E v v'"
proof -
  have ne: "pm_snapshots v \<noteq> []"
    using module_reachable_invariant[OF assms(1)] assms(2) by (auto simp: module_invariant_def)
  show ?thesis
    by (auto elim!: module_step.cases register_InrE withdraw_InrE risk_InrE simp: approve_Inr amend_Inr assms(2) ne)
qed

lemma withdrawn_is_terminal_witness: "\<nexists>v'. module_step sample_env sample_withdrawn v'"
  by (rule withdrawn_is_terminal[OF sample_withdrawn_reachable sample_status(2)])

text \<open>Once a module with a registered snapshot is marked evidence-at-risk it can never be
  approved again: every state that follows is still evidence-at-risk.\<close>

theorem evidence_at_risk_is_absorbing:
  assumes "module_reachable E v" and "pm_status v = EvidenceAtRisk" and "pm_snapshots v \<noteq> []"
    and "(module_step E)\<^sup>*\<^sup>* v v'"
  shows "pm_status v' = EvidenceAtRisk \<and> pm_currentApprovalId v' = None"
proof -
  from assms(4) have "pm_status v' = EvidenceAtRisk \<and> pm_snapshots v' \<noteq> [] \<and> module_reachable E v'"
  proof (induction rule: rtranclp_induct)
    case (step u w)
    then have "pm_status w = EvidenceAtRisk"
      by (auto elim!: module_step.cases register_InrE withdraw_InrE risk_InrE simp: approve_Inr amend_Inr dest: freeze_parts(9))
    moreover have "pm_snapshots w \<noteq> []"
      using step module_step_history[OF step(2)] module_reachable_frozen by (auto simp: history_extends_def)
    ultimately show ?case using step by (blast intro: reach_step)
  qed (use assms in simp)
  then show ?thesis using frozen_refine[OF module_reachable_frozen] by (auto simp: module_state_refine_def)
qed

lemma evidence_at_risk_is_absorbing_witness:
  "pm_status sample_at_risk = EvidenceAtRisk \<and> pm_currentApprovalId sample_at_risk = None"
  by (rule evidence_at_risk_is_absorbing[OF sample_at_risk_reachable sample_status(3,5) rtranclp.rtrancl_refl])

text \<open>A snapshot built by \<open>createModuleSnapshot\<close> passes the hash verification that
  registration and amendment require of it.\<close>

theorem created_snapshot_verifies:
  assumes "createModuleSnapshot E i = Inr s"
  shows "ModuleSnapshot_parse E s = Some s \<and> verifyModuleSnapshotHash E s = Inr True"
  using assms
proof (rule createModuleSnapshot_InrE)
  fix p h
  assume h: "sha256 E (snapshot_input_json p) = Inr h"
    and s: "s = module_snapshot_input.extend p (module_snapshot.fields h)"
    and st: "ModuleSnapshot_parse E s = Some s"
  have "snapshot_input_json s = snapshot_input_json p" "ms_canonicalHash s = h"
    by (simp_all add: s snapshot_input_json_def module_snapshot_input.defs module_snapshot.defs)
  then show ?thesis using h st by (simp add: verifyModuleSnapshotHash_parsed[OF st])
qed

lemma created_snapshot_verifies_witness:
  "verifyModuleSnapshotHash sample_env (sample_snapshot ''s1'' 1 ''t1'') = Inr True"
proof -
  have "createModuleSnapshot sample_env (module_snapshot_input.truncate (sample_snapshot ''s1'' 1 ''t1''))
      = Inr (sample_snapshot ''s1'' 1 ''t1'')" by code_simp
  from created_snapshot_verifies[OF this] show ?thesis by simp
qed


text \<open>An amendment of a reachable module whose replacement carries a new snapshot identifier
  makes that replacement the current snapshot and takes the approval away.\<close>

theorem amendment_installs_replacement:
  assumes "module_reachable E v" and "amendModule E v c = Inr v'"
    and "find_snapshot (ms_snapshotId (mc_replacementSnapshot c)) (pm_snapshots v) = None"
  shows "\<exists>t. ModuleSnapshot_parse E (mc_replacementSnapshot c) = Some t \<and> getCurrentSnapshot v' = Inr t
     \<and> pm_status v' = Draft \<and> pm_currentApprovalId v' = None"
proof -
  from assms(2) obtain prior where
    f: "freezeModuleState E (v\<lparr>pm_revision := pm_revision v + 1, pm_status := Draft,
       pm_snapshots := pm_snapshots v @ [mc_replacementSnapshot c],
       pm_amendments := pm_amendments v @ [new_amendment prior c],
       pm_currentSnapshotId := Some (ms_snapshotId (mc_replacementSnapshot c)),
       pm_currentApprovalId := None, pm_withdrawal := None, pm_evidenceRisk := None\<rparr>) = Inr v'"
    by (auto simp: amend_Inr)
  obtain t where t: "pm_snapshots v' = pm_snapshots v @ [t]" "ModuleSnapshot_parse E (mc_replacementSnapshot c) = Some t"
    using freeze_parts(1)[OF f] frozen_snapshots[OF module_reachable_frozen[OF assms(1)]]
    by (auto elim: traverse_fixed_append)
  have "find_snapshot (ms_snapshotId (mc_replacementSnapshot c)) (pm_snapshots v') = Some t"
    using assms(3) ModuleSnapshot_parse_fields(1)[OF t(2)]
    by (simp add: t(1) find_snapshot_append) (simp add: find_snapshot_def)
  then show ?thesis using t(2) freeze_parts(9,11,12)[OF f] by (simp add: getCurrentSnapshot_def)
qed

lemma amendment_installs_replacement_witness:
  "\<exists>t. getCurrentSnapshot (sample_amended ''s2'') = Inr t \<and> pm_status (sample_amended ''s2'') = Draft"
proof -
  have "find_snapshot (ms_snapshotId (mc_replacementSnapshot (sample_amendment ''s2''))) (pm_snapshots sample_approved) = None"
    by code_simp
  from amendment_installs_replacement[OF sample_approved_reachable sample_amended_ok this] show ?thesis by auto
qed

text \<open>Nothing makes an amendment choose a new snapshot identifier, and when the replacement
  reuses a stored one the amendment is recorded but the old snapshot stays current: the next
  approval is one of the unamended content.\<close>

theorem amendment_reusing_identifier_keeps_old_snapshot:
  assumes "module_reachable E v" and "amendModule E v c = Inr v'"
    and "find_snapshot (ms_snapshotId (mc_replacementSnapshot c)) (pm_snapshots v) = Some old"
  shows "getCurrentSnapshot v' = Inr old"
proof -
  from assms(2) obtain prior where
    f: "freezeModuleState E (v\<lparr>pm_revision := pm_revision v + 1, pm_status := Draft,
       pm_snapshots := pm_snapshots v @ [mc_replacementSnapshot c],
       pm_amendments := pm_amendments v @ [new_amendment prior c],
       pm_currentSnapshotId := Some (ms_snapshotId (mc_replacementSnapshot c)),
       pm_currentApprovalId := None, pm_withdrawal := None, pm_evidenceRisk := None\<rparr>) = Inr v'"
    by (auto simp: amend_Inr)
  obtain t where t: "pm_snapshots v' = pm_snapshots v @ [t]"
    using freeze_parts(1)[OF f] frozen_snapshots[OF module_reachable_frozen[OF assms(1)]]
    by (auto elim: traverse_fixed_append)
  then show ?thesis using assms(3) freeze_parts(11)[OF f]
    by (simp add: getCurrentSnapshot_def find_snapshot_append)
qed

lemma amendment_reusing_identifier_keeps_old_snapshot_witness:
  "\<exists>v'. amendModule sample_env sample_approved (sample_amendment ''s1'') = Inr v'
    \<and> getCurrentSnapshot v' = Inr (sample_snapshot ''s1'' 1 ''t1'')"
proof -
  have ok: "amendModule sample_env sample_approved (sample_amendment ''s1'') = Inr (sample_amended ''s1'')"
    unfolding sample_amended_def by (rule projr_eqI) code_simp
  have "find_snapshot (ms_snapshotId (mc_replacementSnapshot (sample_amendment ''s1''))) (pm_snapshots sample_approved)
      = Some (sample_snapshot ''s1'' 1 ''t1'')" by code_simp
  from amendment_reusing_identifier_keeps_old_snapshot[OF sample_approved_reachable ok this] ok show ?thesis by blast
qed

text \<open>Approval succeeds whenever it should: on a reachable draft module, with the expected
  revision, the exact identifier and hash of the current snapshot, well-formed fields and an unused
  approval identifier.\<close>

theorem approval_succeeds:
  assumes "module_reachable E v" and "pm_status v = Draft" and "getCurrentSnapshot v = Inr s"
    and "ac_expectedRevision c = pm_revision v" and "ac_snapshotId c = ms_snapshotId s"
    and "ac_snapshotHash c = ms_canonicalHash s" and "ModuleApproval_ok E (new_approval v c s)"
    and "find_approval (ac_approvalId c) (pm_approvals v) = None" and "pm_revision v < max_safe_integer"
  shows "\<exists>v'. approveModule E v c = Inr v' \<and> pm_status v' = Approved \<and> pm_currentApprovalId v' = Some (ac_approvalId c)"
proof -
  define u where "u = v\<lparr>pm_revision := pm_revision v + 1, pm_status := Approved,
       pm_approvals := pm_approvals v @ [new_approval v c s], pm_currentApprovalId := Some (ac_approvalId c),
       pm_withdrawal := None, pm_evidenceRisk := None\<rparr>"
  have fr: "frozen E v" using assms(1) by (rule module_reachable_frozen)
  then have p: "freezeModuleState E v = Inr v" by (simp add: frozen_def)
  obtain i where i: "pm_currentSnapshotId v = Some i" "find_snapshot i (pm_snapshots v) = Some s"
    using getCurrentSnapshot_InrD[OF assms(3)] by blast
  have ap: "find_approval (ac_approvalId c) (pm_approvals u) = Some (new_approval v c s)"
    using assms(8) unfolding find_approval_def u_def
    by (simp add: find_append) (simp add: new_approval_def)
  have r: "module_state_refine v" by (rule frozen_refine[OF fr])
  then have "module_state_refine u"
    using i ap unfolding module_state_refine_def u_def snapshot_belongs_def[abs_def] approval_belongs_def[abs_def]
    by (simp add: new_approval_def list_ex_append)
  moreover have ok: "z_uuid E (pm_organizationId v) \<and> z_uuid E (pm_jobId v) \<and> z_uuid E (pm_moduleId v)
         \<and> nonneg_int (pm_revision v) \<and> list_all (ModuleApproval_ok E) (pm_approvals v)
         \<and> nullable_ok (z_uuid E) (pm_currentSnapshotId v)"
    using p by (rule freeze_InrE) blast
  moreover have "nonneg_int (pm_revision v + 1)"
    using ok assms(9) by (auto simp: nonneg_int_def safe_int_def max_safe_integer_def)
  moreover have "z_uuid E (ac_approvalId c)" using assms(7) by (simp add: ModuleApproval_ok_def new_approval_def)
  ultimately have "freezeModuleState E u = Inr u"
    using assms(7) frozen_snapshots[OF fr] frozen_amendments[OF fr]
    by (intro freeze_fixedI) (simp_all add: u_def nullable_ok_def nullable_def)
  then have "approveModule E v c = Inr u"
    using assms by (auto simp: approve_Inr u_def)
  then show ?thesis by (auto simp: u_def)
qed

lemma approval_succeeds_witness: "\<exists>v'. approveModule sample_env sample_draft (sample_approval 1 ''a1'' ''s1'') = Inr v' \<and> pm_status v' = Approved"
  using sample_approved_ok sample_status(1) by blast

end
