(* ===== verification/Packages.thy ===== *)
theory Packages
  imports Module_Transitions Versioned
begin

text \<open>
  The delivery package, the recipient grant and the lifecycle record of
  \<open>packages/domain/src/transitions.ts\<close>, with their schemas in
  \<open>packages/contracts/src/delivery.ts\<close> and \<open>lifecycle.ts\<close>: what a confirmed package
  binds, which statuses are final, and that concurrent commands cannot overwrite each other.
\<close>

section \<open>Delivery packages\<close>

record package_reference =
  pr_module :: module_type
  pr_moduleId :: string
  pr_snapshotId :: string
  pr_snapshotHash :: string
  pr_approvalId :: string

definition PackageReference_ok :: "env \<Rightarrow> package_reference \<Rightarrow> bool" where
  "PackageReference_ok E r \<longleftrightarrow> z_uuid E (pr_moduleId r) \<and> z_uuid E (pr_snapshotId r)
     \<and> sha256_pattern (pr_snapshotHash r) \<and> z_uuid E (pr_approvalId r)"

datatype blocker = BuildingNotApproved | TimberPestNotApproved | EvidenceNotDurable
datatype cancellation_reason = ModuleWithdrawn | ModuleAmended | GrantRevoked | StaleSnapshot
datatype suppression_reason = RestoreReconciliation | ProfessionalHold | DisputeHold

datatype package_status =
    PackagePending "blocker list"
  | PackageConfirmed string
  | PackageCancelled string cancellation_reason
  | PackageSuppressed string suppression_reason

record delivery_package =
  dp_packageId :: string
  dp_organizationId :: string
  dp_jobId :: string
  dp_commissionedModules :: "module_type list"
  dp_revision :: int
  dp_status :: package_status
  dp_moduleSnapshots :: "package_reference list"

fun package_status_ok :: "env \<Rightarrow> delivery_package \<Rightarrow> package_status \<Rightarrow> bool" where
  "package_status_ok E p (PackagePending bs) = (dp_moduleSnapshots p = [])"
| "package_status_ok E p (PackageConfirmed at) = (1 \<le> length (dp_moduleSnapshots p)
     \<and> length (dp_moduleSnapshots p) \<le> 2 \<and> z_datetime E at
     \<and> map pr_module (dp_moduleSnapshots p) = dp_commissionedModules p)"
| "package_status_ok E p (PackageCancelled at r) = (length (dp_moduleSnapshots p) \<le> 2 \<and> z_datetime E at)"
| "package_status_ok E p (PackageSuppressed at r) = (length (dp_moduleSnapshots p) \<le> 2 \<and> z_datetime E at)"

definition DeliveryPackage_ok :: "env \<Rightarrow> delivery_package \<Rightarrow> bool" where
  "DeliveryPackage_ok E p \<longleftrightarrow> z_uuid E (dp_packageId p) \<and> z_uuid E (dp_organizationId p) \<and> z_uuid E (dp_jobId p)
     \<and> CommissionedModules_ok (dp_commissionedModules p) \<and> nonneg_int (dp_revision p)
     \<and> list_all (PackageReference_ok E) (dp_moduleSnapshots p) \<and> package_status_ok E p (dp_status p)"

definition parse_package :: "env \<Rightarrow> delivery_package \<Rightarrow> domain_error + delivery_package" where
  "parse_package E p = ensure (DeliveryPackage_ok E p) ZodError (Inr p)"

definition createInitialDeliveryPackage ::
  "env \<Rightarrow> string \<Rightarrow> string \<Rightarrow> string \<Rightarrow> module_type list \<Rightarrow> domain_error + delivery_package" where
  "createInitialDeliveryPackage E packageId organizationId jobId commissioned =
     ensure (CommissionedModules_ok commissioned) ZodError (
     parse_package E \<lparr>dp_packageId = packageId, dp_organizationId = organizationId, dp_jobId = jobId,
       dp_commissionedModules = commissioned, dp_revision = 0,
       dp_status = PackagePending (map (\<lambda>m. if m = Building then BuildingNotApproved else TimberPestNotApproved) commissioned),
       dp_moduleSnapshots = []\<rparr>)"

text \<open>The loop that indexes the supplied states by module and refuses a duplicate.\<close>

fun index_states :: "(module_type, module_state) js_map \<Rightarrow> module_state list
    \<Rightarrow> domain_error + (module_type, module_state) js_map" where
  "index_states m [] = Inr m"
| "index_states m (s # ss) = ensure (map_of m (pm_module s) = None) (DomainConflict ''duplicate_module'')
     (index_states (map_set (pm_module s) s m) ss)"

definition package_reference_for ::
  "delivery_package \<Rightarrow> (module_type, module_state) js_map \<Rightarrow> module_type \<Rightarrow> domain_error + package_reference" where
  "package_reference_for p m md = (case map_of m md of
     None \<Rightarrow> Inl (DomainConflict ''commissioned_module_not_approved'')
   | Some v \<Rightarrow>
       ensure (pm_organizationId v = dp_organizationId p \<and> pm_jobId v = dp_jobId p
               \<and> pm_status v = Approved \<and> pm_currentApprovalId v \<noteq> None)
         (DomainConflict ''commissioned_module_not_approved'') (
       bind_result (getCurrentSnapshot v) (\<lambda>snap.
       case find_approval (the (pm_currentApprovalId v)) (pm_approvals v) of
         None \<Rightarrow> Inl (DomainConflict ''approval_snapshot_mismatch'')
       | Some a \<Rightarrow>
           ensure (ap_snapshotId a = ms_snapshotId snap \<and> ap_snapshotHash a = ms_canonicalHash snap)
             (DomainConflict ''approval_snapshot_mismatch'')
             (Inr \<lparr>pr_module = md, pr_moduleId = pm_moduleId v, pr_snapshotId = ms_snapshotId snap,
                pr_snapshotHash = ms_canonicalHash snap, pr_approvalId = ap_approvalId a\<rparr>))))"

definition confirmDeliveryPackage ::
  "env \<Rightarrow> delivery_package \<Rightarrow> int \<Rightarrow> module_state list \<Rightarrow> string \<Rightarrow> domain_error + delivery_package" where
  "confirmDeliveryPackage E p expectedRevision states confirmedAt =
     bind_result (assertRevision (dp_revision p) expectedRevision) (\<lambda>_.
     ensure (case dp_status p of PackagePending bs \<Rightarrow> True | _ \<Rightarrow> False) (DomainConflict ''package_not_confirmable'') (
     ensure (length states = length (dp_commissionedModules p)) (DomainConflict ''commissioned_module_set_mismatch'') (
     bind_result (index_states [] states) (\<lambda>byModule.
     bind_result (map_result (package_reference_for p byModule) (dp_commissionedModules p)) (\<lambda>refs.
     ensure (length byModule = length (dp_commissionedModules p)) (DomainConflict ''commissioned_module_set_mismatch'') (
     parse_package E \<lparr>dp_packageId = dp_packageId p, dp_organizationId = dp_organizationId p, dp_jobId = dp_jobId p,
       dp_commissionedModules = dp_commissionedModules p, dp_revision = dp_revision p + 1,
       dp_status = PackageConfirmed confirmedAt, dp_moduleSnapshots = refs\<rparr>))))))"

fun package_terminal :: "package_status \<Rightarrow> bool" where
  "package_terminal (PackageCancelled at r) = True"
| "package_terminal (PackageSuppressed at r) = True"
| "package_terminal s = False"

definition cancelDeliveryPackage ::
  "env \<Rightarrow> delivery_package \<Rightarrow> int \<Rightarrow> cancellation_reason \<Rightarrow> string \<Rightarrow> domain_error + delivery_package" where
  "cancelDeliveryPackage E p expectedRevision reason cancelledAt =
     bind_result (assertRevision (dp_revision p) expectedRevision) (\<lambda>_.
     ensure (\<not> package_terminal (dp_status p)) (DomainConflict ''package_terminal'') (
     parse_package E \<lparr>dp_packageId = dp_packageId p, dp_organizationId = dp_organizationId p, dp_jobId = dp_jobId p,
       dp_commissionedModules = dp_commissionedModules p, dp_revision = dp_revision p + 1,
       dp_status = PackageCancelled cancelledAt reason, dp_moduleSnapshots = dp_moduleSnapshots p\<rparr>))"

definition suppressDeliveryPackage ::
  "env \<Rightarrow> delivery_package \<Rightarrow> int \<Rightarrow> suppression_reason \<Rightarrow> string \<Rightarrow> domain_error + delivery_package" where
  "suppressDeliveryPackage E p expectedRevision reason suppressedAt =
     bind_result (assertRevision (dp_revision p) expectedRevision) (\<lambda>_.
     ensure (\<not> package_terminal (dp_status p)) (DomainConflict ''package_terminal'') (
     parse_package E \<lparr>dp_packageId = dp_packageId p, dp_organizationId = dp_organizationId p, dp_jobId = dp_jobId p,
       dp_commissionedModules = dp_commissionedModules p, dp_revision = dp_revision p + 1,
       dp_status = PackageSuppressed suppressedAt reason, dp_moduleSnapshots = dp_moduleSnapshots p\<rparr>))"

text \<open>The package commands, as an aggregate receives them.\<close>

datatype package_command =
    ConfirmPackage int "module_state list" string
  | CancelPackage int cancellation_reason string
  | SuppressPackage int suppression_reason string

fun package_expects :: "package_command \<Rightarrow> int" where
  "package_expects (ConfirmPackage r ss at) = r"
| "package_expects (CancelPackage r x at) = r"
| "package_expects (SuppressPackage r x at) = r"

fun run_package :: "env \<Rightarrow> delivery_package \<Rightarrow> package_command \<Rightarrow> domain_error + delivery_package" where
  "run_package E p (ConfirmPackage r ss at) = confirmDeliveryPackage E p r ss at"
| "run_package E p (CancelPackage r x at) = cancelDeliveryPackage E p r x at"
| "run_package E p (SuppressPackage r x at) = suppressDeliveryPackage E p r x at"

section \<open>Recipient grants\<close>

datatype grant_action = ReadReport | DownloadPdf | ViewCuratedMedia | InviteRecipient

datatype grant_status = GrantActive | GrantRevokedBy string string string

record recipient_grant =
  rg_grantId :: string
  rg_organizationId :: string
  rg_jobId :: string
  rg_principalId :: string
  rg_reportVersionId :: string
  rg_permittedModules :: "module_type list"
  rg_permittedActions :: "grant_action list"
  rg_issuedBy :: string
  rg_issuedAt :: string
  rg_expiresAt :: string
  rg_revision :: int
  rg_status :: grant_status

fun grant_status_parse :: "env \<Rightarrow> grant_status \<Rightarrow> grant_status option" where
  "grant_status_parse E GrantActive = Some GrantActive"
| "grant_status_parse E (GrantRevokedBy by at reason) =
     (if z_uuid E by \<and> z_datetime E at then map_option (GrantRevokedBy by at) (NonEmptyText_parse reason) else None)"

definition RecipientGrant_parse :: "env \<Rightarrow> recipient_grant \<Rightarrow> recipient_grant option" where
  "RecipientGrant_parse E g =
     (if z_uuid E (rg_grantId g) \<and> z_uuid E (rg_organizationId g) \<and> z_uuid E (rg_jobId g)
         \<and> z_uuid E (rg_principalId g) \<and> z_uuid E (rg_reportVersionId g)
         \<and> CommissionedModules_ok (rg_permittedModules g) \<and> rg_permittedActions g \<noteq> []
         \<and> z_uuid E (rg_issuedBy g) \<and> z_datetime E (rg_issuedAt g) \<and> z_datetime E (rg_expiresAt g)
         \<and> nonneg_int (rg_revision g)
      then map_option (\<lambda>s. g\<lparr>rg_status := s\<rparr>) (grant_status_parse E (rg_status g)) else None)"

text \<open>The caller's input carries every field but revision and status, which the operation sets.\<close>

definition createRecipientGrant :: "env \<Rightarrow> recipient_grant \<Rightarrow> domain_error + recipient_grant" where
  "createRecipientGrant E input =
     of_option ZodError (RecipientGrant_parse E (input\<lparr>rg_revision := 0, rg_status := GrantActive\<rparr>))"

record revoke_command =
  rv_expectedRevision :: int
  rv_revokedBy :: string
  rv_revocationReason :: string
  rv_revokedAt :: string

definition revokeRecipientGrant :: "env \<Rightarrow> recipient_grant \<Rightarrow> revoke_command \<Rightarrow> domain_error + recipient_grant" where
  "revokeRecipientGrant E g c =
     bind_result (assertRevision (rg_revision g) (rv_expectedRevision c)) (\<lambda>_.
     ensure (rg_status g = GrantActive) (DomainConflict ''grant_not_active'') (
     of_option ZodError (RecipientGrant_parse E (g\<lparr>rg_revision := rg_revision g + 1,
       rg_status := GrantRevokedBy (rv_revokedBy c) (rv_revokedAt c) (rv_revocationReason c)\<rparr>))))"

section \<open>Lifecycle records\<close>

datatype resource_type = ArtifactResource | ReportVersionResource | ModuleSnapshotResource
  | RecipientGrantResource | ContactResource

datatype deletion_reason = RetainedProfessionalReference | DeletionProfessionalHold | DeletionDisputeHold
  | TenantOffboarding | DeletionRestoreReconciliation

record suppression =
  su_reason :: deletion_reason
  su_referenceIds :: "string list"
  su_recordedAt :: string

datatype lifecycle_status =
    LifecycleActive string
  | Tombstoned string
  | DeletionSuppressed suppression
  | PurgeEligible string
  | Purged string string

record lifecycle_record =
  lc_lifecycleId :: string
  lc_organizationId :: string
  lc_resourceType :: resource_type
  lc_resourceId :: string
  lc_revision :: int
  lc_status :: lifecycle_status

fun lifecycle_status_ok :: "env \<Rightarrow> lifecycle_status \<Rightarrow> bool" where
  "lifecycle_status_ok E (LifecycleActive at) = z_datetime E at"
| "lifecycle_status_ok E (Tombstoned at) = z_datetime E at"
| "lifecycle_status_ok E (DeletionSuppressed s) =
     (su_referenceIds s \<noteq> [] \<and> list_all (z_uuid E) (su_referenceIds s) \<and> z_datetime E (su_recordedAt s))"
| "lifecycle_status_ok E (PurgeEligible at) = z_datetime E at"
| "lifecycle_status_ok E (Purged at audit) = (z_datetime E at \<and> z_uuid E audit)"

definition LifecycleRecord_ok :: "env \<Rightarrow> lifecycle_record \<Rightarrow> bool" where
  "LifecycleRecord_ok E l \<longleftrightarrow> z_uuid E (lc_lifecycleId l) \<and> z_uuid E (lc_organizationId l)
     \<and> z_uuid E (lc_resourceId l) \<and> nonneg_int (lc_revision l) \<and> lifecycle_status_ok E (lc_status l)"

definition createLifecycleRecord ::
  "env \<Rightarrow> string \<Rightarrow> string \<Rightarrow> resource_type \<Rightarrow> string \<Rightarrow> string \<Rightarrow> domain_error + lifecycle_record" where
  "createLifecycleRecord E lid org rt rid recordedAt =
     (let l = \<lparr>lc_lifecycleId = lid, lc_organizationId = org, lc_resourceType = rt, lc_resourceId = rid,
        lc_revision = 0, lc_status = LifecycleActive recordedAt\<rparr> in
      ensure (LifecycleRecord_ok E l) ZodError (Inr l))"

definition suppressDeletion ::
  "env \<Rightarrow> lifecycle_record \<Rightarrow> int \<times> suppression \<Rightarrow> domain_error + lifecycle_record" where
  "suppressDeletion E l c =
     bind_result (assertRevision (lc_revision l) (fst c)) (\<lambda>_.
     ensure (case lc_status l of Purged at audit \<Rightarrow> False | _ \<Rightarrow> True) (DomainConflict ''already_purged'') (
     let l' = l\<lparr>lc_revision := lc_revision l + 1, lc_status := DeletionSuppressed (snd c)\<rparr> in
     ensure (LifecycleRecord_ok E l') ZodError (Inr l')))"

section \<open>Package lemmas\<close>

lemma parse_package_Inr: "parse_package E p = Inr p' \<longleftrightarrow> p' = p \<and> DeliveryPackage_ok E p"
  by (auto simp: parse_package_def)

lemma run_package_revision: "run_package E p c = Inr p' \<Longrightarrow> dp_revision p' = dp_revision p + 1"
  by (cases c) (auto simp: confirmDeliveryPackage_def cancelDeliveryPackage_def suppressDeliveryPackage_def parse_package_Inr)

lemma run_package_stale:
  "dp_revision p \<noteq> package_expects c \<Longrightarrow> run_package E p c = Inl (DomainConflict ''stale_revision'')"
  by (cases c) (simp_all add: confirmDeliveryPackage_def cancelDeliveryPackage_def suppressDeliveryPackage_def assertRevision_stale)

interpretation package_versions: versioned dp_revision package_expects "run_package E" "DomainConflict ''stale_revision''"
  for E
  by unfold_locales (fact run_package_revision run_package_stale)+

lemma RecipientGrant_parse_fields:
  "RecipientGrant_parse E g = Some g' \<Longrightarrow> rg_revision g' = rg_revision g"
  by (auto simp: RecipientGrant_parse_def split: if_splits)

interpretation grant_versions: versioned rg_revision rv_expectedRevision "revokeRecipientGrant E" "DomainConflict ''stale_revision''"
  for E
  by unfold_locales (auto simp: revokeRecipientGrant_def assertRevision_stale dest: RecipientGrant_parse_fields)

interpretation lifecycle_versions: versioned lc_revision fst "suppressDeletion E" "DomainConflict ''stale_revision''"
  for E
  by unfold_locales (auto simp: suppressDeletion_def Let_def assertRevision_stale)

lemma index_states_Inr:
  "index_states m ss = Inr m' \<Longrightarrow>
     map_of m' md = (case List.find (\<lambda>s. pm_module s = md) ss of Some s \<Rightarrow> Some s | None \<Rightarrow> map_of m md)
     \<and> (List.find (\<lambda>s. pm_module s = md) ss \<noteq> None \<longrightarrow> map_of m md = None)"
proof (induction ss arbitrary: m)
  case (Cons s ss)
  then have n: "map_of m (pm_module s) = None" and i: "index_states (map_set (pm_module s) s m) ss = Inr m'"
    by simp_all
  from Cons.IH[OF i] n show ?case
    by (cases "pm_module s = md") (simp_all split: option.splits)
qed simp

lemma index_states_lookup:
  assumes "index_states [] ss = Inr m" and "map_of m md = Some s"
  shows "s \<in> set ss \<and> pm_module s = md"
  using index_states_Inr[OF assms(1), of md] assms(2) by (auto split: option.splits dest: find_SomeD)

lemma package_reference_for_Inr:
  "package_reference_for p m md = Inr r \<longleftrightarrow>
     (\<exists>v snap a. map_of m md = Some v \<and> pm_organizationId v = dp_organizationId p \<and> pm_jobId v = dp_jobId p
       \<and> pm_status v = Approved \<and> pm_currentApprovalId v \<noteq> None \<and> getCurrentSnapshot v = Inr snap
       \<and> find_approval (the (pm_currentApprovalId v)) (pm_approvals v) = Some a
       \<and> ap_snapshotId a = ms_snapshotId snap \<and> ap_snapshotHash a = ms_canonicalHash snap
       \<and> r = \<lparr>pr_module = md, pr_moduleId = pm_moduleId v, pr_snapshotId = ms_snapshotId snap,
                pr_snapshotHash = ms_canonicalHash snap, pr_approvalId = ap_approvalId a\<rparr>)"
  by (auto simp: package_reference_for_def split: option.splits)

text \<open>\<open>bound_by E p vs r\<close>: the reference \<open>r\<close> names the exact current snapshot and approval of one of
  the supplied modules, which is approved for this organisation and job.\<close>

definition bound_by :: "delivery_package \<Rightarrow> module_state list \<Rightarrow> package_reference \<Rightarrow> bool" where
  "bound_by p vs r \<longleftrightarrow> (\<exists>v snap a. v \<in> set vs \<and> pm_module v = pr_module r \<and> pm_moduleId v = pr_moduleId r
     \<and> pm_organizationId v = dp_organizationId p \<and> pm_jobId v = dp_jobId p \<and> pm_status v = Approved
     \<and> getCurrentSnapshot v = Inr snap \<and> ms_snapshotId snap = pr_snapshotId r \<and> ms_canonicalHash snap = pr_snapshotHash r
     \<and> find_approval (the (pm_currentApprovalId v)) (pm_approvals v) = Some a \<and> ap_approvalId a = pr_approvalId r
     \<and> ap_snapshotId a = pr_snapshotId r \<and> ap_snapshotHash a = pr_snapshotHash r)"

lemma package_reference_for_bound:
  assumes "index_states [] vs = Inr m" and "package_reference_for p m md = Inr r"
  shows "bound_by p vs r \<and> pr_module r = md"
  using assms(2) index_states_lookup[OF assms(1), of md]
  unfolding package_reference_for_Inr bound_by_def by fastforce

lemma confirm_Inr:
  "confirmDeliveryPackage E p r vs at = Inr p' \<longleftrightarrow> dp_revision p = r
     \<and> (\<exists>bs. dp_status p = PackagePending bs) \<and> length vs = length (dp_commissionedModules p)
     \<and> (\<exists>m refs. index_states [] vs = Inr m \<and> map_result (package_reference_for p m) (dp_commissionedModules p) = Inr refs
        \<and> length m = length (dp_commissionedModules p)
        \<and> p' = \<lparr>dp_packageId = dp_packageId p, dp_organizationId = dp_organizationId p, dp_jobId = dp_jobId p,
       dp_commissionedModules = dp_commissionedModules p, dp_revision = dp_revision p + 1,
       dp_status = PackageConfirmed at, dp_moduleSnapshots = refs\<rparr> \<and> DeliveryPackage_ok E p')"
  by (auto simp: confirmDeliveryPackage_def assertRevision_def parse_package_Inr split: package_status.splits)

lemma confirm_binds:
  assumes "confirmDeliveryPackage E p r vs at = Inr p'"
  shows "map pr_module (dp_moduleSnapshots p') = dp_commissionedModules p \<and> list_all (bound_by p vs) (dp_moduleSnapshots p')"
proof -
  from assms obtain m refs where m: "index_states [] vs = Inr m"
    and r: "map_result (package_reference_for p m) (dp_commissionedModules p) = Inr refs"
    and p': "dp_moduleSnapshots p' = refs"
    by (auto simp: confirm_Inr)
  from r have "list_all (bound_by p vs) refs \<and> map pr_module refs = dp_commissionedModules p"
    by (rule map_result_all) (rule package_reference_for_bound[OF m])
  then show ?thesis by (simp add: p')
qed

lemma package_reference_for_succeeds:
  assumes "map_of m md = Some v" and "pm_organizationId v = dp_organizationId p" and "pm_jobId v = dp_jobId p"
    and "module_reachable E v" and "pm_status v = Approved"
  shows "\<exists>r. package_reference_for p m md = Inr r \<and> pr_module r = md \<and> PackageReference_ok E r"
proof -
  have inv: "module_invariant E v" using assms(4) by (rule module_reachable_invariant)
  then have fr: "freezeModuleState E v = Inr v" and "module_state_refine v" "pm_currentSnapshotId v \<noteq> None"
    using assms(5) by (auto simp: module_invariant_def frozen_def intro: frozen_refine[unfolded frozen_def] split: if_splits)
  with approved_binding[OF this(2) assms(5) this(3)] obtain ai a s where
    a: "pm_currentApprovalId v = Some ai" "find_approval ai (pm_approvals v) = Some a"
      "getCurrentSnapshot v = Inr s" "ap_snapshotId a = ms_snapshotId s" "ap_snapshotHash a = ms_canonicalHash s"
    by blast
  have "ModuleApproval_ok E a"
    using freeze_parts(15)[OF fr] find_approval_SomeD[OF a(2)] by (auto simp: list_all_iff)
  moreover have "z_uuid E (pm_moduleId v)" using fr by (rule freeze_InrE) blast
  ultimately show ?thesis
    using a assms by (auto simp: package_reference_for_Inr PackageReference_ok_def ModuleApproval_ok_def)
qed

lemma index_states_succeeds:
  assumes "distinct (map pm_module vs)" and "\<forall>v \<in> set vs. map_of m (pm_module v) = None"
  shows "\<exists>m'. index_states m vs = Inr m' \<and> length m' = length m + length vs
     \<and> (\<forall>v \<in> set vs. map_of m' (pm_module v) = Some v)"
  using assms
proof (induction vs arbitrary: m)
  case (Cons v vs)
  have len: "length (map_set (pm_module v) v m) = Suc (length m)"
    using Cons.prems(2) by (simp add: length_map_set)
  have none: "\<forall>w \<in> set vs. map_of (map_set (pm_module v) v m) (pm_module w) = None"
    using Cons.prems by (auto simp: image_iff)
  obtain m' where m': "index_states (map_set (pm_module v) v m) vs = Inr m'"
      "length m' = length (map_set (pm_module v) v m) + length vs" "\<forall>v \<in> set vs. map_of m' (pm_module v) = Some v"
    using Cons.IH[OF _ none] Cons.prems(1) by auto
  have "List.find (\<lambda>s. pm_module s = pm_module v) vs = None"
    using Cons.prems(1) by (auto simp: find_eq_None image_iff)
  then have "map_of m' (pm_module v) = Some v"
    using index_states_Inr[OF m'(1), of "pm_module v"] by simp
  then show ?case using m' Cons.prems(2) len by simp
qed simp


section \<open>Sample packages\<close>

definition sample_package :: delivery_package where
  "sample_package = projr (createInitialDeliveryPackage sample_env ''pkg'' ''org'' ''job'' [Building])"

definition sample_confirmed :: delivery_package where
  "sample_confirmed = projr (confirmDeliveryPackage sample_env sample_package 0 [sample_approved] ''2026-07-16'')"

definition sample_cancelled :: delivery_package where
  "sample_cancelled = projr (cancelDeliveryPackage sample_env sample_confirmed 1 ModuleAmended ''2026-07-17'')"

lemma sample_confirmed_ok:
  "confirmDeliveryPackage sample_env sample_package 0 [sample_approved] ''2026-07-16'' = Inr sample_confirmed"
  unfolding sample_confirmed_def by (rule projr_eqI) code_simp

section \<open>Properties\<close>

text \<open>C4: a confirmed package binds, in the commissioned order, exactly one reference per
  commissioned module, each naming the current snapshot (identifier and hash) and the current
  approval of a supplied approved module of the same organisation and job; when the supplied states
  are reachable ones, the recomputed hash of every bound snapshot is the bound one.\<close>

theorem confirmed_package_binds_approved_snapshots:
  assumes "confirmDeliveryPackage E p r vs at = Inr p'"
  shows "map pr_module (dp_moduleSnapshots p') = dp_commissionedModules p
    \<and> dp_status p' = PackageConfirmed at \<and> list_all (bound_by p vs) (dp_moduleSnapshots p')
    \<and> (list_all (module_reachable E) vs \<longrightarrow> list_all (\<lambda>ref. list_ex (\<lambda>v. list_ex (\<lambda>s.
          ms_snapshotId s = pr_snapshotId ref \<and> ms_canonicalHash s = pr_snapshotHash ref
          \<and> verifyModuleSnapshotHash E s = Inr True) (pm_snapshots v)) vs) (dp_moduleSnapshots p'))"
proof -
  have b: "map pr_module (dp_moduleSnapshots p') = dp_commissionedModules p \<and> list_all (bound_by p vs) (dp_moduleSnapshots p')"
    using assms by (rule confirm_binds)
  have "dp_status p' = PackageConfirmed at" using assms by (auto simp: confirm_Inr)
  moreover have "list_ex (\<lambda>v. list_ex (\<lambda>s. ms_snapshotId s = pr_snapshotId ref \<and> ms_canonicalHash s = pr_snapshotHash ref
          \<and> verifyModuleSnapshotHash E s = Inr True) (pm_snapshots v)) vs"
    if "list_all (module_reachable E) vs" and "bound_by p vs ref" for ref
  proof -
    from that(2) obtain v s where v: "v \<in> set vs" "getCurrentSnapshot v = Inr s" "ms_snapshotId s = pr_snapshotId ref"
        "ms_canonicalHash s = pr_snapshotHash ref"
      unfolding bound_by_def by blast
    have "s \<in> set (pm_snapshots v)" using v(2) by (rule getCurrentSnapshot_in)
    moreover from that(1) v(1) have "module_invariant E v"
      by (auto simp: list_all_iff intro: module_reachable_invariant)
    ultimately have "verifyModuleSnapshotHash E s = Inr True" by (simp add: module_invariant_def list_all_iff)
    then show ?thesis using v \<open>s \<in> set (pm_snapshots v)\<close> unfolding list_ex_iff by blast
  qed
  ultimately show ?thesis using b by (simp add: list_all_iff)
qed

lemma confirmed_package_binds_approved_snapshots_witness:
  "map pr_module (dp_moduleSnapshots sample_confirmed) = [Building]
    \<and> list_all (bound_by sample_package [sample_approved]) (dp_moduleSnapshots sample_confirmed)"
proof -
  have "dp_commissionedModules sample_package = [Building]" by code_simp
  with confirmed_package_binds_approved_snapshots[OF sample_confirmed_ok] show ?thesis by simp
qed

text \<open>C5: confirmation succeeds when it should: a well-formed pending package, the expected
  revision, and one reachable approved module state of the package's organisation and job for each
  commissioned module, in any order.\<close>

theorem confirmation_succeeds:
  assumes "DeliveryPackage_ok E p" and "dp_status p = PackagePending bs" and "dp_revision p < max_safe_integer"
    and "distinct (map pm_module vs)" and "set (map pm_module vs) = set (dp_commissionedModules p)"
    and "\<forall>v \<in> set vs. module_reachable E v \<and> pm_status v = Approved
      \<and> pm_organizationId v = dp_organizationId p \<and> pm_jobId v = dp_jobId p"
    and "z_datetime E at"
  shows "\<exists>p'. confirmDeliveryPackage E p (dp_revision p) vs at = Inr p'"
proof -
  have c: "CommissionedModules_ok (dp_commissionedModules p)" using assms(1) by (simp add: DeliveryPackage_ok_def)
  then have "distinct (dp_commissionedModules p)" by (auto simp: CommissionedModules_ok_def)
  then have len: "length vs = length (dp_commissionedModules p)"
    using assms(4,5) by (metis distinct_card length_map)
  obtain m where m: "index_states [] vs = Inr m" "length m = length vs" "\<forall>v \<in> set vs. map_of m (pm_module v) = Some v"
    using index_states_succeeds[OF assms(4), of "[]"] by auto
  have "\<exists>r. package_reference_for p m md = Inr r \<and> PackageReference_ok E r \<and> pr_module r = md"
    if md: "md \<in> set (dp_commissionedModules p)" for md
  proof -
    from md obtain v where v: "v \<in> set vs" "pm_module v = md" unfolding assms(5)[symmetric] by auto
    with assms(6) m(3) package_reference_for_succeeds[of m md v p E] show ?thesis by auto
  qed
  then obtain refs where r: "map_result (package_reference_for p m) (dp_commissionedModules p) = Inr refs"
      "list_all (PackageReference_ok E) refs" "map pr_module refs = dp_commissionedModules p"
    using map_result_succeeds[of "dp_commissionedModules p" "package_reference_for p m" "PackageReference_ok E" pr_module]
    by blast
  have "length refs = length (dp_commissionedModules p)" using r(3) by (metis length_map)
  moreover have "1 \<le> length (dp_commissionedModules p) \<and> length (dp_commissionedModules p) \<le> 2"
    using c by (auto simp: CommissionedModules_ok_def)
  ultimately have "DeliveryPackage_ok E \<lparr>dp_packageId = dp_packageId p, dp_organizationId = dp_organizationId p, dp_jobId = dp_jobId p,
       dp_commissionedModules = dp_commissionedModules p, dp_revision = dp_revision p + 1,
       dp_status = PackageConfirmed at, dp_moduleSnapshots = refs\<rparr>"
    using assms(1,3,7) r(2,3) by (auto simp: DeliveryPackage_ok_def nonneg_int_def safe_int_def max_safe_integer_def)
  then show ?thesis unfolding confirm_Inr using assms(2) len m(1,2) r(1) by auto
qed

lemma confirmation_succeeds_witness:
  "\<exists>p'. confirmDeliveryPackage sample_env sample_package (dp_revision sample_package) [sample_approved] ''2026-07-16'' = Inr p'"
proof (rule confirmation_succeeds)
  show "DeliveryPackage_ok sample_env sample_package" by code_simp
  show "dp_status sample_package = PackagePending [BuildingNotApproved]" by code_simp
  show "dp_revision sample_package < max_safe_integer" by code_simp
  show "distinct (map pm_module [sample_approved])" by simp
  have "pm_module sample_approved = Building" "dp_commissionedModules sample_package = [Building]" by code_simp+
  then show "set (map pm_module [sample_approved]) = set (dp_commissionedModules sample_package)" by simp
  have "pm_organizationId sample_approved = dp_organizationId sample_package" "pm_jobId sample_approved = dp_jobId sample_package"
    by code_simp+
  then show "\<forall>v \<in> set [sample_approved]. module_reachable sample_env v \<and> pm_status v = Approved
      \<and> pm_organizationId v = dp_organizationId sample_package \<and> pm_jobId v = dp_jobId sample_package"
    using sample_approved_reachable sample_status(1) by simp
  show "z_datetime sample_env ''2026-07-16''" by code_simp
qed

text \<open>Cancelled and suppressed packages are final and keep what they had bound: no sequence of
  later commands changes them, and the command that cancelled or suppressed left the bound
  snapshots in place.\<close>

theorem terminal_package_is_final:
  assumes "run_package E p c = Inr p'" and "package_terminal (dp_status p')"
  shows "package_versions.deliver E p' cs = (p', 0) \<and> dp_moduleSnapshots p' = dp_moduleSnapshots p
    \<and> dp_commissionedModules p' = dp_commissionedModules p"
proof
  show "package_versions.deliver E p' cs = (p', 0)"
  proof (induction cs)
    case (Cons d cs)
    have "\<exists>e. run_package E p' d = Inl e"
    proof (rule ccontr)
      assume "\<nexists>e. run_package E p' d = Inl e"
      then obtain q where "run_package E p' d = Inr q" by (cases "run_package E p' d") auto
      then show False using assms(2)
        by (cases d) (auto simp: confirm_Inr cancelDeliveryPackage_def suppressDeliveryPackage_def)
    qed
    then show ?case using Cons by auto
  qed simp
  show "dp_moduleSnapshots p' = dp_moduleSnapshots p \<and> dp_commissionedModules p' = dp_commissionedModules p"
    using assms by (cases c) (auto simp: confirm_Inr cancelDeliveryPackage_def suppressDeliveryPackage_def parse_package_Inr)
qed

lemma terminal_package_is_final_witness:
  "package_versions.deliver sample_env sample_cancelled [ConfirmPackage 2 [sample_approved] ''t''] = (sample_cancelled, 0)
    \<and> dp_moduleSnapshots sample_cancelled = dp_moduleSnapshots sample_confirmed"
proof -
  have "cancelDeliveryPackage sample_env sample_confirmed 1 ModuleAmended ''2026-07-17'' = Inr sample_cancelled"
    unfolding sample_cancelled_def by (rule projr_eqI) code_simp
  then have "run_package sample_env sample_confirmed (CancelPackage 1 ModuleAmended ''2026-07-17'') = Inr sample_cancelled" by simp
  moreover have "package_terminal (dp_status sample_cancelled)" by code_simp
  ultimately show ?thesis using terminal_package_is_final by blast
qed

text \<open>Of several commands issued against the same revision of a module, a package, a grant or a
  lifecycle record, whatever their order of arrival, at most one is applied, and the revision counts
  the applied ones.\<close>

theorem concurrent_commands_one_wins:
  "((\<forall>c \<in> set mcs. module_expects c = r) \<longrightarrow>
      (let d = module_versions.deliver E v mcs in snd d \<le> 1 \<and> pm_revision (fst d) = pm_revision v + int (snd d)))
   \<and> ((\<forall>c \<in> set pcs. package_expects c = r) \<longrightarrow>
      (let d = package_versions.deliver E p pcs in snd d \<le> 1 \<and> dp_revision (fst d) = dp_revision p + int (snd d)))
   \<and> ((\<forall>c \<in> set gcs. rv_expectedRevision c = r) \<longrightarrow>
      (let d = grant_versions.deliver E g gcs in snd d \<le> 1 \<and> rg_revision (fst d) = rg_revision g + int (snd d)))
   \<and> ((\<forall>c \<in> set lcs. fst c = r) \<longrightarrow>
      (let d = lifecycle_versions.deliver E l lcs in snd d \<le> 1 \<and> lc_revision (fst d) = lc_revision l + int (snd d)))"
  unfolding Let_def
  by (intro conjI impI; (erule module_versions.one_command_wins package_versions.one_command_wins
        grant_versions.one_command_wins lifecycle_versions.one_command_wins, rule surjective_pairing
      | rule module_versions.deliver_counts package_versions.deliver_counts
        grant_versions.deliver_counts lifecycle_versions.deliver_counts, rule surjective_pairing))

lemma concurrent_commands_one_wins_witness:
  "snd (package_versions.deliver sample_env sample_package
      [ConfirmPackage 0 [sample_approved] ''2026-07-16'', CancelPackage 0 StaleSnapshot ''2026-07-16'']) \<le> 1"
  using concurrent_commands_one_wins[where pcs = "[ConfirmPackage 0 [sample_approved] ''2026-07-16'', CancelPackage 0 StaleSnapshot ''2026-07-16'']"
      and r = 0 and mcs = "[]" and gcs = "[]" and lcs = "[]" and E = sample_env and p = sample_package]
  by (simp add: Let_def)

end
