(* ===== verification/Js_Sort.thy ===== *)
theory Js_Sort
  imports Prelude "HOL-Library.Multiset"
begin

text \<open>
  \<open>Array.prototype.sort\<close> with a comparison callback: a stable insertion sort over the callback's sign.
  A sort keeps the elements whatever the callback answers; the order of the result is what a callback that
  is a total preorder asks for.
\<close>

fun insert_by :: "('a \<Rightarrow> 'a \<Rightarrow> int) \<Rightarrow> 'a \<Rightarrow> 'a list \<Rightarrow> 'a list" where
  "insert_by f x [] = [x]"
| "insert_by f x (y # ys) = (if f x y \<le> 0 then x # y # ys else y # insert_by f x ys)"

definition sort_by :: "('a \<Rightarrow> 'a \<Rightarrow> int) \<Rightarrow> 'a list \<Rightarrow> 'a list" where
  "sort_by f xs = foldr (insert_by f) xs []"

text \<open>\<open>a || b\<close> on comparison results: the first that is not zero.\<close>

definition or_else :: "int \<Rightarrow> int \<Rightarrow> int" where
  "or_else a b = (if a \<noteq> 0 then a else b)"

section \<open>Elements\<close>

lemma mset_insert_by: "mset (insert_by f x ys) = add_mset x (mset ys)"
  by (induction f x ys rule: insert_by.induct) auto

lemma mset_sort_by [simp]: "mset (sort_by f xs) = mset xs"
  unfolding sort_by_def by (induction xs) (auto simp: mset_insert_by)

lemma set_sort_by [simp]: "set (sort_by f xs) = set xs"
  by (rule mset_eq_setD) simp

lemma length_sort_by [simp]: "length (sort_by f xs) = length xs"
  by (rule mset_eq_length) simp

lemma distinct_map_sort_by [simp]: "distinct (map g (sort_by f xs)) = distinct (map g xs)"
  by (rule mset_eq_imp_distinct_iff) simp

lemma sort_by_Nil [simp]: "sort_by f [] = []"
  by (simp add: sort_by_def)

section \<open>Order\<close>

definition preorder_by :: "('a \<Rightarrow> 'a \<Rightarrow> int) \<Rightarrow> bool" where
  "preorder_by f \<longleftrightarrow> (\<forall>a b. f a b \<le> 0 \<or> f b a \<le> 0) \<and> (\<forall>a b c. f a b \<le> 0 \<longrightarrow> f b c \<le> 0 \<longrightarrow> f a c \<le> 0)"

lemma sorted_insert_by:
  assumes "preorder_by f" and "sorted_wrt (\<lambda>a b. f a b \<le> 0) ys"
  shows "sorted_wrt (\<lambda>a b. f a b \<le> 0) (insert_by f x ys)"
  using assms(2)
proof (induction ys)
  case (Cons y ys)
  have set: "set (insert_by f x ys) = insert x (set ys)"
    using mset_insert_by[of f x ys] by (metis set_mset_add_mset_insert set_mset_mset)
  show ?case
  proof (cases "f x y \<le> 0")
    case True
    with Cons.prems assms(1) show ?thesis unfolding preorder_by_def by fastforce
  next
    case False
    with assms(1) have "f y x \<le> 0" unfolding preorder_by_def by blast
    with False Cons set show ?thesis by auto
  qed
qed simp

lemma sorted_sort_by: "preorder_by f \<Longrightarrow> sorted_wrt (\<lambda>a b. f a b \<le> 0) (sort_by f xs)"
  unfolding sort_by_def by (induction xs) (auto intro: sorted_insert_by)

end
