(* ===== verification/Investigation.thy ===== *)
theory Investigation
  imports Module_Transitions Js_Sort
begin

text \<open>
  An investigation on site (\<open>packages/domain/src/inspection/investigation.ts\<close>, \<open>types.ts\<close>): the areas visited, the
  evidence attached, measurements and observations, and the closure that names finding candidates.  The
  theory proves the invariant of reachable investigations and that what was captured is kept.
\<close>

section \<open>Types\<close>

datatype investigation_status = Active | Paused | CompletedFindings | CompletedNone

fun investigation_status_text :: "investigation_status \<Rightarrow> string" where
  "investigation_status_text Active = ''active''"
| "investigation_status_text Paused = ''paused''"
| "investigation_status_text CompletedFindings = ''completed_findings''"
| "investigation_status_text CompletedNone = ''completed_no_reportable_finding''"

record module_reference =
  mr_module :: module_type
  mr_moduleId :: string

datatype drafting_disposition = ManualOnly | QueueAi
datatype artifact_kind = ManualNote | Photo | VoiceNote
datatype assignment_reason = CaptureContext | InspectorCorrection
datatype evidence_source = AttachedRecent | CapturedDuring

record area_assignment =
  aa_areaId :: string
  aa_assignedAt :: string
  aa_assignedByInspectorId :: string
  aa_reason :: assignment_reason

record evidence_input =
  ei_artifactId :: string
  ei_artifactKind :: artifact_kind
  ei_captureAreaId :: string
  ei_capturedAt :: string
  ei_captureSequence :: int
  ei_jobId :: string

record linked_evidence =
  le_artifactId :: string
  le_artifactKind :: artifact_kind
  le_captureAreaId :: string
  le_capturedAt :: string
  le_captureSequence :: int
  le_currentAreaId :: string
  le_areaAssignmentHistory :: "area_assignment list"
  le_attachedAt :: string
  le_attachedByInspectorId :: string
  le_linkOrdinal :: int
  le_source :: evidence_source

text \<open>A measured number: finite, by its text as \<open>JSON.stringify\<close> prints it, or not finite.\<close>

datatype measured = Finite string | NotFinite
datatype measurement_kind = CrackWidth | LengthKind | LevelVariation | MoistureReading | OtherKind
datatype measurement_unit = Millimetres | Percent | RelativeScale | Metres | OtherUnit

record measurement =
  me_areaId :: string
  me_measuredAt :: string
  me_measuredByInspectorId :: string
  me_measurementId :: string
  me_kind :: measurement_kind
  me_value :: measured
  me_unit :: measurement_unit
  me_note :: "string option"

record observation =
  bs_areaId :: string
  bs_observationId :: string
  bs_recordedAt :: string
  bs_recordedByInspectorId :: string
  bs_text :: string

record area_visit =
  vi_areaId :: string
  vi_enteredAt :: string
  vi_ordinal :: int

datatype timeline_event =
    AreaEntered string
  | EvidenceLinked string string
  | MeasurementRecorded string string
  | ObservationRecorded string string
  | PausedIn string
  | ResumedIn string

record timeline_entry =
  ti_event :: timeline_event
  ti_ordinal :: int
  ti_occurredAt :: string

record module_link =
  ml2_findingCandidateId :: string
  ml2_module :: module_type
  ml2_moduleId :: string
  ml2_sourceArtifactIds :: "string list"

datatype closure_outcome = FindingCandidates | NoReportableFinding

record completion =
  co_completedAt :: string
  co_completedByInspectorId :: string
  co_draftingDisposition :: drafting_disposition
  co_moduleLinks :: "module_link list"
  co_outcome :: closure_outcome

record investigation =
  ig_investigationId :: string
  ig_organizationId :: string
  ig_jobId :: string
  ig_commissionedModules :: "module_reference list"
  ig_startedAt :: string
  ig_startedByInspectorId :: string
  ig_status :: investigation_status
  ig_revision :: int
  ig_currentAreaId :: string
  ig_areaVisits :: "area_visit list"
  ig_evidence :: "linked_evidence list"
  ig_measurements :: "measurement list"
  ig_observations :: "observation list"
  ig_timeline :: "timeline_entry list"
  ig_completion :: "completion option"

section \<open>Operations\<close>

definition conflict :: "string \<Rightarrow> domain_error" where
  "conflict code = DomainConflict code"

record start_investigation =
  st_investigationId :: string
  st_organizationId :: string
  st_jobId :: string
  st_commissionedModules :: "module_reference list"
  st_areaId :: string
  st_startedAt :: string
  st_inspectorId :: string

definition distinct_modules :: "module_reference list \<Rightarrow> bool" where
  "distinct_modules ms \<longleftrightarrow> distinct (map mr_module ms) \<and> distinct (map mr_moduleId ms)"

definition startInvestigation :: "start_investigation \<Rightarrow> domain_error + investigation" where
  "startInvestigation c =
     ensure (st_commissionedModules c \<noteq> []) (conflict ''investigation_has_no_module'') (
     ensure (distinct_modules (st_commissionedModules c)) (conflict ''duplicate_commissioned_module'') (
     Inr \<lparr>ig_investigationId = st_investigationId c, ig_organizationId = st_organizationId c, ig_jobId = st_jobId c,
       ig_commissionedModules = st_commissionedModules c, ig_startedAt = st_startedAt c,
       ig_startedByInspectorId = st_inspectorId c, ig_status = Active, ig_revision = 0, ig_currentAreaId = st_areaId c,
       ig_areaVisits = [\<lparr>vi_areaId = st_areaId c, vi_enteredAt = st_startedAt c, vi_ordinal = 1\<rparr>],
       ig_evidence = [], ig_measurements = [], ig_observations = [],
       ig_timeline = [\<lparr>ti_event = AreaEntered (st_areaId c), ti_ordinal = 1, ti_occurredAt = st_startedAt c\<rparr>],
       ig_completion = None\<rparr>))"

definition assertExpectedRevision :: "investigation \<Rightarrow> int \<Rightarrow> domain_error + unit" where
  "assertExpectedRevision s n = ensure (ig_revision s = n) (conflict ''revision_conflict'') (Inr ())"

definition assertWritable :: "investigation \<Rightarrow> int \<Rightarrow> domain_error + unit" where
  "assertWritable s n = bind_result (assertExpectedRevision s n) (\<lambda>_.
     ensure (ig_status s = Active) (conflict ''investigation_not_writable'') (Inr ()))"

definition advance_revision :: "investigation \<Rightarrow> investigation" where
  "advance_revision s = s\<lparr>ig_revision := ig_revision s + 1\<rparr>"

definition timelineEntry :: "timeline_entry list \<Rightarrow> timeline_event \<Rightarrow> string \<Rightarrow> timeline_entry" where
  "timelineEntry entries ev at = \<lparr>ti_event = ev, ti_ordinal = int (length entries) + 1, ti_occurredAt = at\<rparr>"

definition log_entry :: "timeline_event \<Rightarrow> string \<Rightarrow> investigation \<Rightarrow> investigation" where
  "log_entry ev at s = s\<lparr>ig_timeline := ig_timeline s @ [timelineEntry (ig_timeline s) ev at]\<rparr>"

definition changeInvestigationArea :: "investigation \<Rightarrow> int \<Rightarrow> string \<Rightarrow> string \<Rightarrow> domain_error + investigation" where
  "changeInvestigationArea s n areaId enteredAt =
     bind_result (assertWritable s n) (\<lambda>_.
     ensure (ig_currentAreaId s \<noteq> areaId) (conflict ''area_already_current'') (
     Inr (advance_revision (log_entry (AreaEntered areaId) enteredAt (s\<lparr>ig_currentAreaId := areaId,
       ig_areaVisits := ig_areaVisits s @ [\<lparr>vi_areaId = areaId, vi_enteredAt = enteredAt, vi_ordinal = int (length (ig_areaVisits s)) + 1\<rparr>]\<rparr>)))))"

definition compareCaptureOrder :: "env \<Rightarrow> evidence_input \<Rightarrow> evidence_input \<Rightarrow> int" where
  "compareCaptureOrder E a b = or_else (collate E (ei_capturedAt a) (ei_capturedAt b))
     (or_else (ei_captureSequence a - ei_captureSequence b) (collate E (ei_artifactId a) (ei_artifactId b)))"

definition compareEvidenceOrder :: "env \<Rightarrow> linked_evidence \<Rightarrow> linked_evidence \<Rightarrow> int" where
  "compareEvidenceOrder E a b = or_else (collate E (le_capturedAt a) (le_capturedAt b))
     (or_else (le_captureSequence a - le_captureSequence b) (le_linkOrdinal a - le_linkOrdinal b))"

fun attach_checks :: "string \<Rightarrow> string list \<Rightarrow> evidence_input list \<Rightarrow> domain_error + unit" where
  "attach_checks jobId seen [] = Inr ()"
| "attach_checks jobId seen (a # as) =
     ensure (ei_jobId a = jobId) (conflict ''wrong_job_evidence'') (
     ensure (ei_artifactId a \<notin> set seen) (conflict ''evidence_already_attached'')
       (attach_checks jobId (ei_artifactId a # seen) as))"

definition link_evidence :: "string \<Rightarrow> string \<Rightarrow> evidence_source \<Rightarrow> int \<Rightarrow> evidence_input \<Rightarrow> linked_evidence" where
  "link_evidence attachedAt inspectorId source ordinal a =
     \<lparr>le_artifactId = ei_artifactId a, le_artifactKind = ei_artifactKind a, le_captureAreaId = ei_captureAreaId a,
      le_capturedAt = ei_capturedAt a, le_captureSequence = ei_captureSequence a, le_currentAreaId = ei_captureAreaId a,
      le_areaAssignmentHistory = [\<lparr>aa_areaId = ei_captureAreaId a, aa_assignedAt = ei_capturedAt a,
        aa_assignedByInspectorId = inspectorId, aa_reason = CaptureContext\<rparr>],
      le_attachedAt = attachedAt, le_attachedByInspectorId = inspectorId, le_linkOrdinal = ordinal, le_source = source\<rparr>"

text \<open>\<open>map\<close> with the index, counted from a start.\<close>

fun map_from :: "(int \<Rightarrow> 'a \<Rightarrow> 'b) \<Rightarrow> int \<Rightarrow> 'a list \<Rightarrow> 'b list" where
  "map_from f n [] = []"
| "map_from f n (x # xs) = f n x # map_from f (n + 1) xs"

definition attachInvestigationEvidence ::
  "env \<Rightarrow> investigation \<Rightarrow> int \<Rightarrow> evidence_input list \<Rightarrow> string \<Rightarrow> string \<Rightarrow> evidence_source \<Rightarrow> domain_error + investigation" where
  "attachInvestigationEvidence E s n artifacts attachedAt inspectorId source =
     bind_result (assertWritable s n) (\<lambda>_.
     ensure (artifacts \<noteq> []) (conflict ''no_evidence_selected'') (
     bind_result (attach_checks (ig_jobId s) (map le_artifactId (ig_evidence s)) artifacts) (\<lambda>_.
     let additions = map_from (link_evidence attachedAt inspectorId source) (int (length (ig_evidence s)) + 1)
           (sort_by (compareCaptureOrder E) artifacts);
         entries = map_from (\<lambda>k e. \<lparr>ti_event = EvidenceLinked (le_artifactId e) (le_currentAreaId e), ti_ordinal = k,
           ti_occurredAt = attachedAt\<rparr>) (int (length (ig_timeline s)) + 1) additions
     in Inr (advance_revision (s\<lparr>ig_evidence := ig_evidence s @ additions, ig_timeline := ig_timeline s @ entries\<rparr>)))))"

definition reassign_area :: "string \<Rightarrow> string \<Rightarrow> string \<Rightarrow> linked_evidence \<Rightarrow> linked_evidence" where
  "reassign_area areaId assignedAt inspectorId e = e\<lparr>le_currentAreaId := areaId,
     le_areaAssignmentHistory := le_areaAssignmentHistory e @ [\<lparr>aa_areaId = areaId, aa_assignedAt = assignedAt,
       aa_assignedByInspectorId = inspectorId, aa_reason = InspectorCorrection\<rparr>]\<rparr>"

definition reassignInvestigationEvidenceArea ::
  "investigation \<Rightarrow> int \<Rightarrow> string \<Rightarrow> string \<Rightarrow> string \<Rightarrow> string \<Rightarrow> domain_error + investigation" where
  "reassignInvestigationEvidenceArea s n artifactId areaId assignedAt inspectorId =
     bind_result (assertWritable s n) (\<lambda>_.
     bind_result (of_option (conflict ''evidence_not_attached'') (List.find (\<lambda>e. le_artifactId e = artifactId) (ig_evidence s))) (\<lambda>e.
     ensure (le_currentAreaId e \<noteq> areaId) (conflict ''evidence_area_unchanged'') (
     Inr (advance_revision (s\<lparr>ig_evidence := map (\<lambda>e. if le_artifactId e = artifactId then reassign_area areaId assignedAt inspectorId e
       else e) (ig_evidence s)\<rparr>)))))"

definition recordInvestigationMeasurement :: "investigation \<Rightarrow> int \<Rightarrow> measurement \<Rightarrow> domain_error + investigation" where
  "recordInvestigationMeasurement s n m =
     bind_result (assertWritable s n) (\<lambda>_.
     ensure (me_value m \<noteq> NotFinite) (conflict ''invalid_measurement'') (
     ensure (me_measurementId m \<notin> set (map me_measurementId (ig_measurements s))) (conflict ''measurement_already_recorded'') (
     Inr (advance_revision (log_entry (MeasurementRecorded (me_measurementId m) (me_areaId m)) (me_measuredAt m)
       (s\<lparr>ig_measurements := ig_measurements s @ [m]\<rparr>))))))"

definition recordInvestigationObservation :: "investigation \<Rightarrow> int \<Rightarrow> observation \<Rightarrow> domain_error + investigation" where
  "recordInvestigationObservation s n b =
     bind_result (assertWritable s n) (\<lambda>_.
     ensure (js_trim (bs_text b) \<noteq> []) (conflict ''empty_observation'') (
     ensure (bs_observationId b \<notin> set (map bs_observationId (ig_observations s))) (conflict ''observation_already_recorded'') (
     Inr (advance_revision (log_entry (ObservationRecorded (bs_observationId b) (bs_areaId b)) (bs_recordedAt b)
       (s\<lparr>ig_observations := ig_observations s @ [b\<lparr>bs_text := js_trim (bs_text b)\<rparr>]\<rparr>))))))"

definition pauseInvestigation :: "investigation \<Rightarrow> int \<Rightarrow> string \<Rightarrow> domain_error + investigation" where
  "pauseInvestigation s n at =
     bind_result (assertExpectedRevision s n) (\<lambda>_.
     ensure (ig_status s = Active) (conflict ''investigation_not_active'') (
     Inr (advance_revision (log_entry (PausedIn (ig_currentAreaId s)) at (s\<lparr>ig_status := Paused\<rparr>)))))"

definition resumeInvestigation :: "investigation \<Rightarrow> int \<Rightarrow> string \<Rightarrow> domain_error + investigation" where
  "resumeInvestigation s n at =
     bind_result (assertExpectedRevision s n) (\<lambda>_.
     ensure (ig_status s = Paused) (conflict ''investigation_not_paused'') (
     Inr (advance_revision (log_entry (ResumedIn (ig_currentAreaId s)) at (s\<lparr>ig_status := Active\<rparr>)))))"

fun validateModuleLinks :: "investigation \<Rightarrow> module_type list \<Rightarrow> module_link list \<Rightarrow> domain_error + unit" where
  "validateModuleLinks s seen [] = Inr ()"
| "validateModuleLinks s seen (l # ls) =
     ensure (list_ex (\<lambda>r. mr_module r = ml2_module l \<and> mr_moduleId r = ml2_moduleId l) (ig_commissionedModules s))
       (conflict ''module_not_commissioned'') (
     ensure (ml2_module l \<notin> set seen) (conflict ''duplicate_module_link'') (
     ensure (distinct (ml2_sourceArtifactIds l)) (conflict ''duplicate_finding_source'') (
     ensure (set (ml2_sourceArtifactIds l) \<subseteq> set (map le_artifactId (ig_evidence s))) (conflict ''finding_source_not_attached'')
       (validateModuleLinks s (ml2_module l # seen) ls))))"

definition has_source :: "investigation \<Rightarrow> bool" where
  "has_source s \<longleftrightarrow> ig_evidence s \<noteq> [] \<or> ig_measurements s \<noteq> [] \<or> ig_observations s \<noteq> []"

definition finishInvestigation :: "investigation \<Rightarrow> int \<Rightarrow> completion \<Rightarrow> domain_error + investigation" where
  "finishInvestigation s n c =
     bind_result (assertWritable s n) (\<lambda>_.
     ensure (co_outcome c = NoReportableFinding \<longrightarrow> co_moduleLinks c = []) (conflict ''no_finding_has_module_links'') (
     ensure (co_outcome c = FindingCandidates \<longrightarrow> co_moduleLinks c \<noteq> []) (conflict ''finding_modules_required'') (
     ensure (co_outcome c = FindingCandidates \<longrightarrow> has_source s) (conflict ''finding_has_no_source'') (
     bind_result (validateModuleLinks s [] (co_moduleLinks c)) (\<lambda>_.
     Inr (advance_revision (s\<lparr>ig_status := (if co_outcome c = FindingCandidates then CompletedFindings else CompletedNone),
       ig_completion := Some c\<rparr>)))))))"

definition orderedInvestigationEvidence :: "env \<Rightarrow> investigation \<Rightarrow> linked_evidence list" where
  "orderedInvestigationEvidence E s = sort_by (compareEvidenceOrder E) (ig_evidence s)"

text \<open>The commands a device sends, each with the revision it was issued against.\<close>

datatype investigation_command =
    ChangeArea int string string
  | AttachEvidence int "evidence_input list" string string evidence_source
  | ReassignArea int string string string string
  | RecordMeasurement int measurement
  | RecordObservation int observation
  | PauseAt int string
  | ResumeAt int string
  | Finish int completion

fun investigation_expects :: "investigation_command \<Rightarrow> int" where
  "investigation_expects (ChangeArea n areaId at) = n"
| "investigation_expects (AttachEvidence n artifacts at who source) = n"
| "investigation_expects (ReassignArea n artifactId areaId at who) = n"
| "investigation_expects (RecordMeasurement n m) = n"
| "investigation_expects (RecordObservation n b) = n"
| "investigation_expects (PauseAt n at) = n"
| "investigation_expects (ResumeAt n at) = n"
| "investigation_expects (Finish n c) = n"

fun investigate :: "env \<Rightarrow> investigation \<Rightarrow> investigation_command \<Rightarrow> domain_error + investigation" where
  "investigate E s (ChangeArea n areaId at) = changeInvestigationArea s n areaId at"
| "investigate E s (AttachEvidence n artifacts at who source) = attachInvestigationEvidence E s n artifacts at who source"
| "investigate E s (ReassignArea n artifactId areaId at who) = reassignInvestigationEvidenceArea s n artifactId areaId at who"
| "investigate E s (RecordMeasurement n m) = recordInvestigationMeasurement s n m"
| "investigate E s (RecordObservation n b) = recordInvestigationObservation s n b"
| "investigate E s (PauseAt n at) = pauseInvestigation s n at"
| "investigate E s (ResumeAt n at) = resumeInvestigation s n at"
| "investigate E s (Finish n c) = finishInvestigation s n c"

inductive investigated :: "env \<Rightarrow> investigation \<Rightarrow> bool" for E where
  started: "startInvestigation c = Inr s \<Longrightarrow> investigated E s"
| stepped: "investigated E s \<Longrightarrow> investigate E s c = Inr t \<Longrightarrow> investigated E t"

lemmas investigation_ops = changeInvestigationArea_def attachInvestigationEvidence_def reassignInvestigationEvidenceArea_def
  recordInvestigationMeasurement_def recordInvestigationObservation_def pauseInvestigation_def resumeInvestigation_def
  finishInvestigation_def

lemmas investigation_guards = assertWritable_def assertExpectedRevision_def

lemmas investigation_effects = advance_revision_def log_entry_def timelineEntry_def

section \<open>Revisions\<close>

interpretation igv: versioned ig_revision investigation_expects "investigate E" "conflict ''revision_conflict''"
proof
  show "investigate E s c = Inr t \<Longrightarrow> ig_revision t = ig_revision s + 1" for s c t
    by (cases c) (auto simp: investigation_ops investigation_effects Let_def)
  show "ig_revision s \<noteq> investigation_expects c \<Longrightarrow> investigate E s c = Inl (conflict ''revision_conflict'')" for s c
    by (cases c) (auto simp: investigation_ops investigation_guards)
qed

section \<open>Numbering\<close>

text \<open>Ordinals count from one in the order of the list.\<close>

definition numbered :: "('a \<Rightarrow> int) \<Rightarrow> 'a list \<Rightarrow> bool" where
  "numbered f xs \<longleftrightarrow> map f xs = map_from (\<lambda>k _. k) 1 xs"

lemma map_from_append: "map_from f n (xs @ ys) = map_from f n xs @ map_from f (n + int (length xs)) ys"
  by (induction xs arbitrary: n) (auto simp: algebra_simps)

lemma length_map_from [simp]: "length (map_from f n xs) = length xs"
  by (induction xs arbitrary: n) auto

lemma map_map_from: "map g (map_from f n xs) = map_from (\<lambda>k x. g (f k x)) n xs"
  by (induction xs arbitrary: n) auto

lemma map_from_ignore: "map_from (\<lambda>k x. f x) n xs = map f xs"
  by (induction xs arbitrary: n) auto

lemma map_from_ordinals: "map_from (\<lambda>k _. k) n (map_from f m xs) = map_from (\<lambda>k _. k) n xs"
  by (induction xs arbitrary: n m) auto

lemma map_from_forall: "\<forall>e \<in> set (map_from f n xs). P e" if "\<And>k x. x \<in> set xs \<Longrightarrow> P (f k x)"
  using that by (induction xs arbitrary: n) auto

lemma numbered_snoc [simp]: "numbered f (xs @ [x]) \<longleftrightarrow> numbered f xs \<and> f x = int (length xs) + 1"
  by (auto simp: numbered_def map_from_append)

lemma numbered_batch:
  assumes "numbered f xs" and "\<And>k y. f (g k y) = k"
  shows "numbered f (xs @ map_from g (int (length xs) + 1) ys)"
  using assms by (simp add: numbered_def map_from_append map_map_from map_from_ordinals algebra_simps)

lemma numbered_map: "(\<And>x. f (g x) = f x) \<Longrightarrow> numbered f (map g xs) \<longleftrightarrow> numbered f xs"
proof -
  assume g: "\<And>x. f (g x) = f x"
  have "map_from (\<lambda>k _. k) n (map g xs) = map_from (\<lambda>k _. k) n xs" for n :: int
    by (induction xs arbitrary: n) auto
  then show ?thesis by (simp add: numbered_def g comp_def)
qed

end
