(* ===== verification/Investigation_Properties.thy ===== *)
theory Investigation_Properties
  imports Investigation "HOL-Library.Sublist"
begin

text \<open>
  What holds of every investigation the commands can produce: its timeline is numbered, mentions exactly what was
  recorded and replays, together with the closure, to the current status and area; identifiers are unique; the assignment history of each
  artifact starts at its capture and ends at its current area; a closure names commissioned modules and attached
  sources; and everything recorded is kept.
\<close>

section \<open>What the timeline says\<close>

definition timeline_visits :: "timeline_entry list \<Rightarrow> (string \<times> string) list" where
  "timeline_visits es = concat (map (\<lambda>e. case ti_event e of AreaEntered a \<Rightarrow> [(a, ti_occurredAt e)] | _ \<Rightarrow> []) es)"

definition timeline_evidence :: "timeline_entry list \<Rightarrow> (string \<times> string \<times> string) list" where
  "timeline_evidence es = concat (map (\<lambda>e. case ti_event e of EvidenceLinked i a \<Rightarrow> [(i, a, ti_occurredAt e)] | _ \<Rightarrow> []) es)"

definition timeline_measurements :: "timeline_entry list \<Rightarrow> (string \<times> string \<times> string) list" where
  "timeline_measurements es = concat (map (\<lambda>e. case ti_event e of MeasurementRecorded i a \<Rightarrow> [(i, a, ti_occurredAt e)] | _ \<Rightarrow> []) es)"

definition timeline_observations :: "timeline_entry list \<Rightarrow> (string \<times> string \<times> string) list" where
  "timeline_observations es = concat (map (\<lambda>e. case ti_event e of ObservationRecorded i a \<Rightarrow> [(i, a, ti_occurredAt e)] | _ \<Rightarrow> []) es)"

text \<open>Reading the timeline alone: whether the investigation is paused and its area, if every entry is one that
  could happen then.\<close>

fun timeline_step :: "timeline_event \<Rightarrow> (bool \<times> string) option \<Rightarrow> (bool \<times> string) option" where
  "timeline_step (AreaEntered a) v = (case v of None \<Rightarrow> Some (False, a) | Some (p, b) \<Rightarrow> if p \<or> a = b then None else Some (False, a))"
| "timeline_step (PausedIn a) v = (if v = Some (False, a) then Some (True, a) else None)"
| "timeline_step (ResumedIn a) v = (if v = Some (True, a) then Some (False, a) else None)"
| "timeline_step _ v = (case v of None \<Rightarrow> None | Some (p, b) \<Rightarrow> if p then None else v)"

definition replay_timeline :: "timeline_entry list \<Rightarrow> (bool \<times> string) option" where
  "replay_timeline es = fold (\<lambda>e. timeline_step (ti_event e)) es None"

text \<open>The status that the timeline and the closure tell: finishing adds no entry, so an unfinished investigation is
  active or paused as its timeline ends, and a finished one has the status of its outcome.\<close>

fun told_status :: "(bool \<times> string) option \<Rightarrow> completion option \<Rightarrow> investigation_status option" where
  "told_status None c = None"
| "told_status (Some (paused, area)) None = Some (if paused then Paused else Active)"
| "told_status (Some (paused, area)) (Some c) = (if paused then None
     else Some (case co_outcome c of FindingCandidates \<Rightarrow> CompletedFindings | NoReportableFinding \<Rightarrow> CompletedNone))"

lemmas timeline_reads = timeline_visits_def timeline_evidence_def timeline_measurements_def timeline_observations_def
  replay_timeline_def

section \<open>Invariant\<close>

definition assignments_ok :: "linked_evidence \<Rightarrow> bool" where
  "assignments_ok e \<longleftrightarrow> le_areaAssignmentHistory e \<noteq> []
     \<and> aa_areaId (hd (le_areaAssignmentHistory e)) = le_captureAreaId e
     \<and> aa_assignedAt (hd (le_areaAssignmentHistory e)) = le_capturedAt e
     \<and> aa_reason (hd (le_areaAssignmentHistory e)) = CaptureContext
     \<and> aa_areaId (last (le_areaAssignmentHistory e)) = le_currentAreaId e
     \<and> (\<forall>a \<in> set (tl (le_areaAssignmentHistory e)). aa_reason a = InspectorCorrection)
     \<and> successively (\<noteq>) (map aa_areaId (le_areaAssignmentHistory e))"

definition links_ok :: "investigation \<Rightarrow> module_link list \<Rightarrow> bool" where
  "links_ok s ls \<longleftrightarrow> distinct (map ml2_module ls)
     \<and> (\<forall>l \<in> set ls. (\<exists>r \<in> set (ig_commissionedModules s). mr_module r = ml2_module l \<and> mr_moduleId r = ml2_moduleId l)
          \<and> distinct (ml2_sourceArtifactIds l)
          \<and> set (ml2_sourceArtifactIds l) \<subseteq> set (map le_artifactId (ig_evidence s)))"

definition timeline_ok :: "investigation \<Rightarrow> bool" where
  "timeline_ok s \<longleftrightarrow> numbered ti_ordinal (ig_timeline s)
     \<and> timeline_visits (ig_timeline s) = map (\<lambda>v. (vi_areaId v, vi_enteredAt v)) (ig_areaVisits s)
     \<and> timeline_evidence (ig_timeline s) = map (\<lambda>e. (le_artifactId e, le_captureAreaId e, le_attachedAt e)) (ig_evidence s)
     \<and> timeline_measurements (ig_timeline s) = map (\<lambda>m. (me_measurementId m, me_areaId m, me_measuredAt m)) (ig_measurements s)
     \<and> timeline_observations (ig_timeline s) = map (\<lambda>b. (bs_observationId b, bs_areaId b, bs_recordedAt b)) (ig_observations s)
     \<and> replay_timeline (ig_timeline s) = Some (ig_status s = Paused, ig_currentAreaId s)"

definition visits_ok :: "investigation \<Rightarrow> bool" where
  "visits_ok s \<longleftrightarrow> ig_areaVisits s \<noteq> [] \<and> numbered vi_ordinal (ig_areaVisits s)
     \<and> vi_areaId (last (ig_areaVisits s)) = ig_currentAreaId s \<and> successively (\<noteq>) (map vi_areaId (ig_areaVisits s))"

definition records_ok :: "investigation \<Rightarrow> bool" where
  "records_ok s \<longleftrightarrow> numbered le_linkOrdinal (ig_evidence s)
     \<and> distinct (map le_artifactId (ig_evidence s)) \<and> (\<forall>e \<in> set (ig_evidence s). assignments_ok e)
     \<and> distinct (map me_measurementId (ig_measurements s)) \<and> (\<forall>m \<in> set (ig_measurements s). me_value m \<noteq> NotFinite)
     \<and> distinct (map bs_observationId (ig_observations s)) \<and> (\<forall>b \<in> set (ig_observations s). bs_text b \<noteq> [] \<and> js_trim (bs_text b) = bs_text b)"

definition closure_ok :: "investigation \<Rightarrow> bool" where
  "closure_ok s \<longleftrightarrow> (case ig_completion s of
       None \<Rightarrow> ig_status s = Active \<or> ig_status s = Paused
     | Some c \<Rightarrow> links_ok s (co_moduleLinks c)
         \<and> (case co_outcome c of FindingCandidates \<Rightarrow> ig_status s = CompletedFindings \<and> co_moduleLinks c \<noteq> [] \<and> has_source s
            | NoReportableFinding \<Rightarrow> ig_status s = CompletedNone \<and> co_moduleLinks c = []))"

definition investigation_wf :: "investigation \<Rightarrow> bool" where
  "investigation_wf s \<longleftrightarrow> ig_commissionedModules s \<noteq> [] \<and> distinct_modules (ig_commissionedModules s)
     \<and> timeline_ok s \<and> visits_ok s \<and> records_ok s \<and> closure_ok s"

lemma started_wf: "startInvestigation c = Inr s \<Longrightarrow> investigation_wf s"
  by (auto simp: startInvestigation_def investigation_wf_def timeline_ok_def visits_ok_def records_ok_def closure_ok_def
      timeline_reads numbered_def)

subsection \<open>Validating links and attachments\<close>

lemma validateModuleLinks_links:
  "validateModuleLinks s seen ls = Inr u \<Longrightarrow> links_ok s ls \<and> set (map ml2_module ls) \<inter> set seen = {}"
  by (induction s seen ls rule: validateModuleLinks.induct) (auto simp: links_ok_def list_ex_iff)

lemma links_validate:
  "links_ok s ls \<Longrightarrow> set (map ml2_module ls) \<inter> set seen = {} \<Longrightarrow> validateModuleLinks s seen ls = Inr ()"
  by (induction s seen ls rule: validateModuleLinks.induct) (auto simp: links_ok_def list_ex_iff ensure_def)

lemma attach_checks_Inr:
  "attach_checks jobId seen as = Inr u \<longleftrightarrow> distinct (map ei_artifactId as) \<and> set (map ei_artifactId as) \<inter> set seen = {}
     \<and> (\<forall>a \<in> set as. ei_jobId a = jobId)"
  by (induction jobId seen as rule: attach_checks.induct) auto

lemma link_evidence_fields [simp]:
  "le_artifactId (link_evidence at who src k a) = ei_artifactId a"
  "le_captureAreaId (link_evidence at who src k a) = ei_captureAreaId a"
  "le_currentAreaId (link_evidence at who src k a) = ei_captureAreaId a"
  "le_capturedAt (link_evidence at who src k a) = ei_capturedAt a"
  "le_attachedAt (link_evidence at who src k a) = at"
  "le_linkOrdinal (link_evidence at who src k a) = k"
  by (simp_all add: link_evidence_def)

lemma link_evidence_assignments: "assignments_ok (link_evidence at who src k a)"
  by (simp add: link_evidence_def assignments_ok_def)

lemma reassign_area_fields [simp]:
  "le_artifactId (reassign_area area at who e) = le_artifactId e"
  "le_captureAreaId (reassign_area area at who e) = le_captureAreaId e"
  "le_capturedAt (reassign_area area at who e) = le_capturedAt e"
  "le_captureSequence (reassign_area area at who e) = le_captureSequence e"
  "le_attachedAt (reassign_area area at who e) = le_attachedAt e"
  "le_linkOrdinal (reassign_area area at who e) = le_linkOrdinal e"
  "le_currentAreaId (reassign_area area at who e) = area"
  by (simp_all add: reassign_area_def)

lemma reassign_area_assignments:
  "assignments_ok e \<Longrightarrow> le_currentAreaId e \<noteq> area \<Longrightarrow> assignments_ok (reassign_area area at who e)"
  by (auto simp: assignments_ok_def reassign_area_def successively_append_iff last_map)

subsection \<open>Every command keeps the invariant\<close>

text \<open>Appending one entry reads off that entry.\<close>

lemma timeline_reads_snoc [simp]:
  "timeline_visits (es @ [e]) = timeline_visits es @ (case ti_event e of AreaEntered a \<Rightarrow> [(a, ti_occurredAt e)] | _ \<Rightarrow> [])"
  "timeline_evidence (es @ [e]) = timeline_evidence es @ (case ti_event e of EvidenceLinked i a \<Rightarrow> [(i, a, ti_occurredAt e)] | _ \<Rightarrow> [])"
  "timeline_measurements (es @ [e]) = timeline_measurements es @ (case ti_event e of MeasurementRecorded i a \<Rightarrow> [(i, a, ti_occurredAt e)] | _ \<Rightarrow> [])"
  "timeline_observations (es @ [e]) = timeline_observations es @ (case ti_event e of ObservationRecorded i a \<Rightarrow> [(i, a, ti_occurredAt e)] | _ \<Rightarrow> [])"
  "replay_timeline (es @ [e]) = timeline_step (ti_event e) (replay_timeline es)"
  by (simp_all add: timeline_reads)

lemma writable_unfinished: "assertWritable s n = Inr u \<Longrightarrow> closure_ok s \<Longrightarrow> ig_status s = Active \<and> ig_completion s = None"
  by (auto simp: investigation_guards closure_ok_def split: option.splits closure_outcome.splits)

lemma change_area_wf:
  assumes "changeInvestigationArea s n area at = Inr t" and "investigation_wf s"
  shows "investigation_wf t"
proof -
  have w: "ig_status s = Active" "ig_completion s = None" and c: "ig_currentAreaId s \<noteq> area"
    using assms by (auto simp: changeInvestigationArea_def investigation_wf_def dest: writable_unfinished)
  have t: "t = advance_revision (log_entry (AreaEntered area) at (s\<lparr>ig_currentAreaId := area,
       ig_areaVisits := ig_areaVisits s @ [\<lparr>vi_areaId = area, vi_enteredAt = at, vi_ordinal = int (length (ig_areaVisits s)) + 1\<rparr>]\<rparr>))"
    using assms by (simp add: changeInvestigationArea_def)
  show ?thesis using assms(2) w c
    by (auto simp: t investigation_wf_def timeline_ok_def visits_ok_def records_ok_def closure_ok_def investigation_effects
        successively_append_iff last_map)
qed

lemma measurement_wf:
  assumes "recordInvestigationMeasurement s n m = Inr t" and "investigation_wf s"
  shows "investigation_wf t"
proof -
  have w: "ig_status s = Active" "ig_completion s = None"
    using assms by (auto simp: recordInvestigationMeasurement_def investigation_wf_def dest: writable_unfinished)
  show ?thesis using assms w
    by (auto simp: recordInvestigationMeasurement_def investigation_wf_def timeline_ok_def visits_ok_def records_ok_def
        closure_ok_def investigation_effects)
qed

lemma observation_wf:
  assumes "recordInvestigationObservation s n b = Inr t" and "investigation_wf s"
  shows "investigation_wf t"
proof -
  have w: "ig_status s = Active" "ig_completion s = None"
    using assms by (auto simp: recordInvestigationObservation_def investigation_wf_def dest: writable_unfinished)
  show ?thesis using assms w
    by (auto simp: recordInvestigationObservation_def investigation_wf_def timeline_ok_def visits_ok_def records_ok_def
        closure_ok_def investigation_effects)
qed

text \<open>Pausing and resuming change the status and add one entry.\<close>

lemma logged_status_wf:
  assumes "investigation_wf s" and "closure_ok (s\<lparr>ig_status := v\<rparr>)"
    and "timeline_step ev (Some (ig_status s = Paused, ig_currentAreaId s)) = Some (v = Paused, ig_currentAreaId s)"
    and "ev = PausedIn (ig_currentAreaId s) \<or> ev = ResumedIn (ig_currentAreaId s)"
  shows "investigation_wf (advance_revision (log_entry ev at (s\<lparr>ig_status := v\<rparr>)))"
proof -
  let ?t = "advance_revision (log_entry ev at (s\<lparr>ig_status := v\<rparr>))"
  have "timeline_ok ?t" using assms(1,3,4) by (auto simp: investigation_wf_def timeline_ok_def investigation_effects)
  moreover have "visits_ok ?t" "records_ok ?t"
    using assms(1) by (simp_all add: investigation_wf_def visits_ok_def records_ok_def investigation_effects)
  moreover have "closure_ok ?t" using assms(2)
    by (simp add: closure_ok_def links_ok_def has_source_def investigation_effects split: option.splits closure_outcome.splits)
  ultimately show ?thesis using assms(1) by (simp add: investigation_wf_def investigation_effects)
qed

lemma unfinished_closure:
  assumes "closure_ok s" and "ig_status s = Active \<or> ig_status s = Paused" and "v = Active \<or> v = Paused"
  shows "closure_ok (s\<lparr>ig_status := v\<rparr>)"
proof -
  have "ig_completion s = None" using assms(1,2) by (auto simp: closure_ok_def split: option.splits closure_outcome.splits)
  with assms(3) show ?thesis by (simp add: closure_ok_def)
qed

lemma pause_wf:
  assumes "pauseInvestigation s n at = Inr t" and "investigation_wf s"
  shows "investigation_wf t"
proof -
  have a: "ig_status s = Active" and t: "t = advance_revision (log_entry (PausedIn (ig_currentAreaId s)) at (s\<lparr>ig_status := Paused\<rparr>))"
    using assms(1) by (simp_all add: pauseInvestigation_def)
  show ?thesis unfolding t using assms(2) a
    by (intro logged_status_wf unfinished_closure) (simp_all add: investigation_wf_def)
qed

lemma resume_wf:
  assumes "resumeInvestigation s n at = Inr t" and "investigation_wf s"
  shows "investigation_wf t"
proof -
  have a: "ig_status s = Paused" and t: "t = advance_revision (log_entry (ResumedIn (ig_currentAreaId s)) at (s\<lparr>ig_status := Active\<rparr>))"
    using assms(1) by (simp_all add: resumeInvestigation_def)
  show ?thesis unfolding t using assms(2) a
    by (intro logged_status_wf unfinished_closure) (simp_all add: investigation_wf_def)
qed

lemma reassign_wf:
  assumes "reassignInvestigationEvidenceArea s n i area at who = Inr t" and "investigation_wf s"
  shows "investigation_wf t"
proof -
  let ?f = "\<lambda>e. if le_artifactId e = i then reassign_area area at who e else e"
  obtain e where e: "List.find (\<lambda>e. le_artifactId e = i) (ig_evidence s) = Some e" "le_currentAreaId e \<noteq> area"
    and w: "ig_status s = Active" "ig_completion s = None"
    and t: "t = advance_revision (s\<lparr>ig_evidence := map ?f (ig_evidence s)\<rparr>)"
    using assms by (auto simp: reassignInvestigationEvidenceArea_def investigation_wf_def dest: writable_unfinished)
  have d: "distinct (map le_artifactId (ig_evidence s))" using assms(2) by (simp add: investigation_wf_def records_ok_def)
  have "e' = e" if "e' \<in> set (ig_evidence s)" and "le_artifactId e' = i" for e'
    using find_SomeD[OF e(1)] that d by (auto simp: distinct_map dest: inj_onD)
  then have a: "\<forall>e \<in> set (map ?f (ig_evidence s)). assignments_ok e"
    using assms(2) e(2) by (auto simp: investigation_wf_def records_ok_def intro: reassign_area_assignments)
  have "map le_artifactId (map ?f (ig_evidence s)) = map le_artifactId (ig_evidence s)"
    and "map (\<lambda>e. (le_artifactId e, le_captureAreaId e, le_attachedAt e)) (map ?f (ig_evidence s))
         = map (\<lambda>e. (le_artifactId e, le_captureAreaId e, le_attachedAt e)) (ig_evidence s)"
    and "numbered le_linkOrdinal (map ?f (ig_evidence s)) = numbered le_linkOrdinal (ig_evidence s)"
    by (auto intro!: numbered_map)
  with a show ?thesis using assms(2) w
    by (simp add: t investigation_wf_def timeline_ok_def visits_ok_def records_ok_def closure_ok_def advance_revision_def
        del: map_map)
qed

lemma finish_wf:
  assumes "finishInvestigation s n c = Inr t" and "investigation_wf s"
  shows "investigation_wf t"
proof -
  have w: "ig_status s = Active" using assms by (auto simp: finishInvestigation_def investigation_wf_def dest: writable_unfinished)
  have links: "links_ok s (co_moduleLinks c)" using assms(1) validateModuleLinks_links by (auto simp: finishInvestigation_def)
  have t: "t = advance_revision (s\<lparr>ig_status := (if co_outcome c = FindingCandidates then CompletedFindings else CompletedNone),
       ig_completion := Some c\<rparr>)"
    and o: "co_outcome c = NoReportableFinding \<longrightarrow> co_moduleLinks c = []" "co_outcome c = FindingCandidates \<longrightarrow> co_moduleLinks c \<noteq> [] \<and> has_source s"
    using assms(1) by (auto simp: finishInvestigation_def)
  have "timeline_ok t" using assms(2) w by (simp add: t investigation_wf_def timeline_ok_def advance_revision_def)
  moreover have "visits_ok t" "records_ok t"
    using assms(2) by (simp_all add: t investigation_wf_def visits_ok_def records_ok_def advance_revision_def)
  moreover have "closure_ok t" using links o
    by (cases "co_outcome c") (simp_all add: t closure_ok_def links_ok_def has_source_def advance_revision_def)
  ultimately show ?thesis using assms(2) by (simp add: t investigation_wf_def advance_revision_def)
qed

text \<open>A batch of attachments appends one entry per artifact.\<close>

lemma timeline_batch:
  fixes es :: "timeline_entry list" and n :: int and at :: string and xs :: "linked_evidence list"
  defines "new \<equiv> map_from (\<lambda>k e. \<lparr>ti_event = EvidenceLinked (le_artifactId e) (le_currentAreaId e), ti_ordinal = k,
           ti_occurredAt = at\<rparr>) n xs"
  shows "timeline_visits (es @ new) = timeline_visits es"
    and "timeline_measurements (es @ new) = timeline_measurements es"
    and "timeline_observations (es @ new) = timeline_observations es"
    and "timeline_evidence (es @ new) = timeline_evidence es @ map (\<lambda>e. (le_artifactId e, le_currentAreaId e, at)) xs"
    and "replay_timeline es = Some (False, area) \<Longrightarrow> replay_timeline (es @ new) = Some (False, area)"
proof -
  have "concat (map (\<lambda>e. case ti_event e of AreaEntered a \<Rightarrow> [(a, ti_occurredAt e)] | _ \<Rightarrow> []) new) = []"
    and "concat (map (\<lambda>e. case ti_event e of MeasurementRecorded i a \<Rightarrow> [(i, a, ti_occurredAt e)] | _ \<Rightarrow> []) new) = []"
    and "concat (map (\<lambda>e. case ti_event e of ObservationRecorded i a \<Rightarrow> [(i, a, ti_occurredAt e)] | _ \<Rightarrow> []) new) = []"
    and "concat (map (\<lambda>e. case ti_event e of EvidenceLinked i a \<Rightarrow> [(i, a, ti_occurredAt e)] | _ \<Rightarrow> []) new)
       = map (\<lambda>e. (le_artifactId e, le_currentAreaId e, at)) xs"
    and "fold (\<lambda>e. timeline_step (ti_event e)) new (Some (False, area)) = Some (False, area)"
    unfolding new_def by (induction xs arbitrary: n) auto
  then show "timeline_visits (es @ new) = timeline_visits es"
    and "timeline_measurements (es @ new) = timeline_measurements es"
    and "timeline_observations (es @ new) = timeline_observations es"
    and "timeline_evidence (es @ new) = timeline_evidence es @ map (\<lambda>e. (le_artifactId e, le_currentAreaId e, at)) xs"
    and "replay_timeline es = Some (False, area) \<Longrightarrow> replay_timeline (es @ new) = Some (False, area)"
    unfolding timeline_reads by simp_all
qed

lemma attach_wf:
  assumes "attachInvestigationEvidence E s n as at who src = Inr t" and "investigation_wf s"
  shows "investigation_wf t"
proof -
  define new where "new = map_from (link_evidence at who src) (int (length (ig_evidence s)) + 1) (sort_by (compareCaptureOrder E) as)"
  have w: "ig_status s = Active" "ig_completion s = None"
    and c: "distinct (map ei_artifactId as)" "set (map ei_artifactId as) \<inter> set (map le_artifactId (ig_evidence s)) = {}"
    using assms by (auto simp: attachInvestigationEvidence_def investigation_wf_def attach_checks_Inr dest: writable_unfinished)
  have ids: "map le_artifactId new = map ei_artifactId (sort_by (compareCaptureOrder E) as)"
    and reads: "map (\<lambda>e. (le_artifactId e, le_currentAreaId e, at)) new = map (\<lambda>e. (le_artifactId e, le_captureAreaId e, le_attachedAt e)) new"
    unfolding new_def by (auto simp: map_map_from map_from_ignore)
  have dist: "distinct (map le_artifactId (ig_evidence s @ new))"
    using c assms(2) by (auto simp: ids investigation_wf_def records_ok_def)
  have num: "numbered le_linkOrdinal (ig_evidence s @ new)"
    using assms(2) unfolding new_def by (intro numbered_batch) (auto simp: investigation_wf_def records_ok_def)
  have asg: "\<forall>e \<in> set new. assignments_ok e"
    unfolding new_def by (intro map_from_forall link_evidence_assignments)
  let ?es = "map_from (\<lambda>k e. \<lparr>ti_event = EvidenceLinked (le_artifactId e) (le_currentAreaId e), ti_ordinal = k,
           ti_occurredAt = at\<rparr>) (int (length (ig_timeline s)) + 1) new"
  have t: "t = advance_revision (s\<lparr>ig_evidence := ig_evidence s @ new, ig_timeline := ig_timeline s @ ?es\<rparr>)"
    using assms(1) by (auto simp: attachInvestigationEvidence_def Let_def new_def)
  have "numbered ti_ordinal (ig_timeline s @ ?es)"
    using assms(2) by (intro numbered_batch) (auto simp: investigation_wf_def timeline_ok_def)
  then show ?thesis using assms(2) w dist num asg reads
    by (auto simp: t investigation_wf_def timeline_ok_def visits_ok_def records_ok_def closure_ok_def advance_revision_def timeline_batch)
qed

lemma investigate_wf: "investigate E s c = Inr t \<Longrightarrow> investigation_wf s \<Longrightarrow> investigation_wf t"
  by (cases c) (auto intro: change_area_wf attach_wf reassign_wf measurement_wf observation_wf pause_wf resume_wf finish_wf)

lemma investigated_wf: "investigated E s \<Longrightarrow> investigation_wf s"
  by (induction rule: investigated.induct) (auto intro: started_wf investigate_wf)

section \<open>Nothing recorded is lost\<close>

definition evidence_kept :: "linked_evidence \<Rightarrow> linked_evidence \<Rightarrow> bool" where
  "evidence_kept e f \<longleftrightarrow> le_artifactId f = le_artifactId e \<and> le_artifactKind f = le_artifactKind e
     \<and> le_captureAreaId f = le_captureAreaId e \<and> le_capturedAt f = le_capturedAt e \<and> le_captureSequence f = le_captureSequence e
     \<and> le_attachedAt f = le_attachedAt e \<and> le_attachedByInspectorId f = le_attachedByInspectorId e
     \<and> le_linkOrdinal f = le_linkOrdinal e \<and> le_source f = le_source e
     \<and> prefix (le_areaAssignmentHistory e) (le_areaAssignmentHistory f)"

definition all_evidence_kept :: "linked_evidence list \<Rightarrow> linked_evidence list \<Rightarrow> bool" where
  "all_evidence_kept es fs \<longleftrightarrow> length es \<le> length fs \<and> (\<forall>i < length es. evidence_kept (es ! i) (fs ! i))"

definition investigation_kept :: "investigation \<Rightarrow> investigation \<Rightarrow> bool" where
  "investigation_kept s t \<longleftrightarrow> ig_investigationId t = ig_investigationId s \<and> ig_organizationId t = ig_organizationId s
     \<and> ig_jobId t = ig_jobId s \<and> ig_commissionedModules t = ig_commissionedModules s \<and> ig_startedAt t = ig_startedAt s
     \<and> ig_startedByInspectorId t = ig_startedByInspectorId s \<and> prefix (ig_timeline s) (ig_timeline t)
     \<and> prefix (ig_areaVisits s) (ig_areaVisits t) \<and> prefix (ig_measurements s) (ig_measurements t)
     \<and> prefix (ig_observations s) (ig_observations t) \<and> all_evidence_kept (ig_evidence s) (ig_evidence t)
     \<and> ig_revision s \<le> ig_revision t"

lemma evidence_kept_refl [simp]: "evidence_kept e e"
  by (simp add: evidence_kept_def)

lemma evidence_kept_trans: "evidence_kept e f \<Longrightarrow> evidence_kept f g \<Longrightarrow> evidence_kept e g"
  by (auto simp: evidence_kept_def intro: prefix_order.trans)

lemma evidence_kept_reassign: "evidence_kept e (reassign_area area at who e)"
  by (simp add: evidence_kept_def reassign_area_def)

lemma investigation_kept_refl: "investigation_kept s s"
  by (simp add: investigation_kept_def all_evidence_kept_def)

lemma investigation_kept_trans: "investigation_kept s t \<Longrightarrow> investigation_kept t u \<Longrightarrow> investigation_kept s u"
  unfolding investigation_kept_def all_evidence_kept_def
  by (auto intro: prefix_order.trans evidence_kept_trans)

lemma all_evidence_kept_append [simp]: "all_evidence_kept es (es @ fs)"
  by (simp add: all_evidence_kept_def nth_append)

lemma investigate_kept: "investigate E s c = Inr t \<Longrightarrow> investigation_kept s t"
  by (cases c) (auto simp: investigation_ops investigation_effects Let_def investigation_kept_def all_evidence_kept_def
      nth_append evidence_kept_reassign)

text \<open>The investigations some sequence of commands leads to.\<close>

definition investigation_step :: "env \<Rightarrow> investigation \<Rightarrow> investigation \<Rightarrow> bool" where
  "investigation_step E s t \<longleftrightarrow> (\<exists>c. investigate E s c = Inr t)"

lemma steps_kept: "(investigation_step E)\<^sup>*\<^sup>* s t \<Longrightarrow> investigation_kept s t"
  by (induction rule: rtranclp_induct)
    (auto simp: investigation_step_def investigation_kept_refl intro: investigation_kept_trans investigate_kept)

lemma finished_refuses:
  "ig_completion s = Some c \<Longrightarrow> closure_ok s \<Longrightarrow> investigate E s k \<noteq> Inr t"
  by (cases k; cases "co_outcome c") (auto simp: investigation_ops investigation_guards closure_ok_def)

definition attachable :: "investigation \<Rightarrow> int \<Rightarrow> evidence_input list \<Rightarrow> bool" where
  "attachable s n as \<longleftrightarrow> ig_revision s = n \<and> ig_status s = Active \<and> as \<noteq> [] \<and> (\<forall>a \<in> set as. ei_jobId a = ig_jobId s)
     \<and> distinct (map ei_artifactId as) \<and> set (map ei_artifactId as) \<inter> set (map le_artifactId (ig_evidence s)) = {}"

section \<open>An investigation for the witnesses\<close>

definition sample_start :: start_investigation where
  "sample_start = \<lparr>st_investigationId = ''i1'', st_organizationId = ''o1'', st_jobId = ''j1'',
     st_commissionedModules = [\<lparr>mr_module = Building, mr_moduleId = ''b1''\<rparr>, \<lparr>mr_module = TimberPest, mr_moduleId = ''t1''\<rparr>],
     st_areaId = ''roof'', st_startedAt = ''09:00'', st_inspectorId = ''p1''\<rparr>"

definition sample_photo :: "string \<Rightarrow> string \<Rightarrow> int \<Rightarrow> evidence_input" where
  "sample_photo i area n = \<lparr>ei_artifactId = i, ei_artifactKind = Photo, ei_captureAreaId = area, ei_capturedAt = ''09:01'',
     ei_captureSequence = n, ei_jobId = ''j1''\<rparr>"

definition sample_closure :: completion where
  "sample_closure = \<lparr>co_completedAt = ''09:30'', co_completedByInspectorId = ''p1'', co_draftingDisposition = QueueAi,
     co_moduleLinks = [\<lparr>ml2_findingCandidateId = ''f1'', ml2_module = Building, ml2_moduleId = ''b1'', ml2_sourceArtifactIds = [''a1'']\<rparr>],
     co_outcome = FindingCandidates\<rparr>"

definition sample_commands :: "investigation_command list" where
  "sample_commands = [AttachEvidence 0 [sample_photo ''a2'' ''roof'' 2, sample_photo ''a1'' ''roof'' 1] ''09:02'' ''p1'' CapturedDuring,
     ReassignArea 1 ''a1'' ''attic'' ''09:03'' ''p1'', PauseAt 2 ''09:04'', ResumeAt 3 ''09:05'', ChangeArea 4 ''attic'' ''09:06'',
     Finish 5 sample_closure]"

primrec investigate_all :: "env \<Rightarrow> investigation \<Rightarrow> investigation_command list \<Rightarrow> domain_error + investigation" where
  "investigate_all E s [] = Inr s"
| "investigate_all E s (c # cs) = bind_result (investigate E s c) (\<lambda>t. investigate_all E t cs)"

lemma investigate_all_reaches:
  "investigate_all E s cs = Inr t \<Longrightarrow> investigated E s \<Longrightarrow> investigated E t \<and> (investigation_step E)\<^sup>*\<^sup>* s t"
proof (induction cs arbitrary: s)
  case (Cons c cs)
  then obtain u where u: "investigate E s c = Inr u" "investigate_all E u cs = Inr t" by auto
  with Cons show ?case
    by (meson investigation_step_def converse_rtranclp_into_rtranclp stepped)
qed simp

definition sample_started :: investigation where
  "sample_started = projr (startInvestigation sample_start)"

definition sample_attached :: investigation where
  "sample_attached = projr (investigate_all sample_env sample_started (take 1 sample_commands))"

definition sample_finished :: investigation where
  "sample_finished = projr (investigate_all sample_env sample_attached (drop 1 sample_commands))"

lemma sample_started_ok: "startInvestigation sample_start = Inr sample_started"
  unfolding sample_started_def by (rule projr_eqI) (simp add: startInvestigation_def sample_start_def distinct_modules_def)

lemma sample_attached_ok: "investigate_all sample_env sample_started (take 1 sample_commands) = Inr sample_attached"
  unfolding sample_attached_def by (rule projr_eqI) code_simp

lemma sample_finished_ok: "investigate_all sample_env sample_attached (drop 1 sample_commands) = Inr sample_finished"
  unfolding sample_finished_def by (rule projr_eqI) code_simp

lemma sample_started_reached: "investigated sample_env sample_started"
  using sample_started_ok by (rule started)

lemma sample_attached_reached: "investigated sample_env sample_attached"
  using investigate_all_reaches[OF sample_attached_ok sample_started_reached] by blast

lemma sample_finished_reached: "investigated sample_env sample_finished" "(investigation_step sample_env)\<^sup>*\<^sup>* sample_attached sample_finished"
  using investigate_all_reaches[OF sample_finished_ok sample_attached_reached] by blast+

lemma sample_finished_completion: "ig_completion sample_finished = Some sample_closure"
  by code_simp

section \<open>Properties\<close>

text \<open>C24: the timeline of a reachable investigation is numbered from one without gaps, mentions every area visit, attached
  artifact, measurement and observation exactly once and in the order they were recorded.  Replaying it alone, with no
  entry made while paused, gives the current area and whether the investigation is paused, and together with the closure
  the exact status: active or paused while there is no closure, and completed with the outcome that the closure names
  when there is one, before which the timeline never ends paused.\<close>

theorem timeline_tells_the_investigation:
  assumes "investigated E s"
  shows "numbered ti_ordinal (ig_timeline s)
    \<and> timeline_visits (ig_timeline s) = map (\<lambda>v. (vi_areaId v, vi_enteredAt v)) (ig_areaVisits s)
    \<and> timeline_evidence (ig_timeline s) = map (\<lambda>e. (le_artifactId e, le_captureAreaId e, le_attachedAt e)) (ig_evidence s)
    \<and> timeline_measurements (ig_timeline s) = map (\<lambda>m. (me_measurementId m, me_areaId m, me_measuredAt m)) (ig_measurements s)
    \<and> timeline_observations (ig_timeline s) = map (\<lambda>b. (bs_observationId b, bs_areaId b, bs_recordedAt b)) (ig_observations s)
    \<and> replay_timeline (ig_timeline s) = Some (ig_status s = Paused, ig_currentAreaId s)
    \<and> told_status (replay_timeline (ig_timeline s)) (ig_completion s) = Some (ig_status s)"
  using investigated_wf[OF assms]
  by (auto simp: investigation_wf_def timeline_ok_def closure_ok_def split: option.splits closure_outcome.splits)

theorem timeline_tells_the_investigation_witness:
  "ig_status sample_finished = CompletedFindings \<and> replay_timeline (ig_timeline sample_finished) = Some (False, ig_currentAreaId sample_finished)"
proof -
  obtain v where v: "replay_timeline (ig_timeline sample_finished) = Some (ig_status sample_finished = Paused, ig_currentAreaId sample_finished)"
    "told_status v (Some sample_closure) = Some (ig_status sample_finished)" "v \<noteq> None"
    using timeline_tells_the_investigation[OF sample_finished_reached(1)] sample_finished_completion by force
  then have "ig_status sample_finished = CompletedFindings" by (auto simp: sample_closure_def split: if_splits)
  with v show ?thesis by simp
qed

text \<open>C25: whatever commands follow, an investigation keeps its identity, its timeline, visits, measurements and
  observations as prefixes, and every attached artifact with its capture data and the assignments made so far.\<close>

theorem investigation_keeps_its_records:
  assumes "investigated E s" and "(investigation_step E)\<^sup>*\<^sup>* s t"
  shows "investigation_kept s t \<and> (\<forall>e \<in> set (ig_evidence t). assignments_ok e) \<and> distinct (map le_artifactId (ig_evidence t))"
proof -
  from assms(2,1) have "investigated E t"
    by (induction rule: rtranclp_induct) (auto simp: investigation_step_def intro: stepped)
  then show ?thesis using investigated_wf[of E t] steps_kept[OF assms(2)]
    by (simp add: investigation_wf_def records_ok_def)
qed

theorem investigation_keeps_its_records_witness: "investigation_kept sample_attached sample_finished"
  using investigation_keeps_its_records[OF sample_attached_reached sample_finished_reached(2)] by blast

text \<open>C26: a closed investigation accepts no further command, and its closure names each commissioned module at most
  once, with distinct source artifacts that are all attached to the investigation.\<close>

theorem closed_investigation_is_final:
  assumes "investigated E s" and "ig_completion s = Some c"
  shows "(\<forall>k t. investigate E s k \<noteq> Inr t) \<and> links_ok s (co_moduleLinks c)
    \<and> (co_outcome c = FindingCandidates \<longleftrightarrow> ig_status s = CompletedFindings) \<and> (co_moduleLinks c = [] \<longleftrightarrow> ig_status s = CompletedNone)"
proof -
  have ok: "closure_ok s" using investigated_wf[OF assms(1)] by (simp add: investigation_wf_def)
  then show ?thesis using finished_refuses[OF assms(2) ok] assms(2)
    by (cases "co_outcome c") (auto simp: closure_ok_def)
qed

theorem closed_investigation_is_final_witness:
  "investigate sample_env sample_finished (ResumeAt 6 ''10:00'') \<noteq> Inr sample_attached \<and> links_ok sample_finished (co_moduleLinks sample_closure)"
  using closed_investigation_is_final[OF sample_finished_reached(1) sample_finished_completion] by blast

text \<open>A batch of artifacts is attached as a whole or not at all: it succeeds exactly on the current revision of an active
  investigation, for artifacts of its job that are not attached and not repeated, and then links each of them once, in
  capture order where the comparison of the texts is a total preorder.\<close>

theorem attachment_is_all_or_nothing:
  "case attachInvestigationEvidence E s n as at who src of
     Inl e \<Rightarrow> \<not> attachable s n as
   | Inr t \<Rightarrow> attachable s n as \<and> (\<exists>new ord. ig_evidence t = ig_evidence s @ new \<and> mset ord = mset as
       \<and> map le_artifactId new = map ei_artifactId ord
       \<and> (preorder_by (compareCaptureOrder E) \<longrightarrow> sorted_wrt (\<lambda>a b. compareCaptureOrder E a b \<le> 0) ord))"
proof (cases "attachInvestigationEvidence E s n as at who src")
  case (Inl e)
  have "(\<exists>t. attachInvestigationEvidence E s n as at who src = Inr t) \<longleftrightarrow> attachable s n as"
    by (auto simp: attachInvestigationEvidence_def investigation_guards attach_checks_Inr Let_def attachable_def)
  with Inl show ?thesis by simp
next
  case (Inr t)
  let ?ord = "sort_by (compareCaptureOrder E) as"
  have "attachable s n as"
    using Inr by (auto simp: attachInvestigationEvidence_def investigation_guards attach_checks_Inr Let_def attachable_def)
  moreover have "ig_evidence t = ig_evidence s @ map_from (link_evidence at who src) (int (length (ig_evidence s)) + 1) ?ord"
    using Inr by (auto simp: attachInvestigationEvidence_def Let_def advance_revision_def)
  ultimately show ?thesis using Inr
    by (auto simp: map_map_from map_from_ignore sorted_sort_by intro!: exI[of _ ?ord])
qed

theorem attachment_is_all_or_nothing_witness:
  "\<exists>ord. mset ord = mset [sample_photo ''a2'' ''roof'' 2, sample_photo ''a1'' ''roof'' 1]
     \<and> sorted_wrt (\<lambda>a b. compareCaptureOrder (sample_env\<lparr>collate := \<lambda>_ _. 0\<rparr>) a b \<le> 0) ord"
proof -
  have "preorder_by (compareCaptureOrder (sample_env\<lparr>collate := \<lambda>_ _. 0\<rparr>))"
    by (auto simp: preorder_by_def compareCaptureOrder_def or_else_def)
  moreover have "attachable sample_started 0 [sample_photo ''a2'' ''roof'' 2, sample_photo ''a1'' ''roof'' 1]" by code_simp
  ultimately show ?thesis
    using attachment_is_all_or_nothing[of sample_started 0
        "[sample_photo ''a2'' ''roof'' 2, sample_photo ''a1'' ''roof'' 1]" "sample_env\<lparr>collate := \<lambda>_ _. 0\<rparr>" "''09:02''" "''p1''" CapturedDuring]
    by (auto split: sum.splits)
qed

text \<open>An investigation that is not closed can always be closed on its current revision: at once when active, and
  after resuming when paused.\<close>

theorem investigation_can_be_closed:
  assumes "investigated E s" and "ig_completion s = None"
  shows "\<exists>cs t. length cs \<le> 2 \<and> investigate_all E s cs = Inr t \<and> ig_status t = CompletedNone \<and> investigation_kept s t"
proof -
  define c where "c = \<lparr>co_completedAt = [], co_completedByInspectorId = [], co_draftingDisposition = ManualOnly,
     co_moduleLinks = [], co_outcome = NoReportableFinding\<rparr>"
  have close: "\<exists>t. investigate E u (Finish (ig_revision u) c) = Inr t \<and> ig_status t = CompletedNone" if "ig_status u = Active" for u
    using that by (simp add: finishInvestigation_def investigation_guards c_def advance_revision_def)
  have "ig_status s = Active \<or> ig_status s = Paused"
    using investigated_wf[OF assms(1)] assms(2) by (simp add: investigation_wf_def closure_ok_def)
  then show ?thesis
  proof
    assume "ig_status s = Active"
    then obtain t where "investigate E s (Finish (ig_revision s) c) = Inr t" "ig_status t = CompletedNone" using close by blast
    then show ?thesis using investigate_kept by (intro exI[of _ "[Finish (ig_revision s) c]"]) fastforce
  next
    assume "ig_status s = Paused"
    then obtain u where u: "investigate E s (ResumeAt (ig_revision s) []) = Inr u" "ig_status u = Active"
      by (simp add: resumeInvestigation_def investigation_guards investigation_effects)
    then obtain t where "investigate E u (Finish (ig_revision u) c) = Inr t" "ig_status t = CompletedNone" using close by blast
    moreover from this have "investigation_kept s t" using u investigate_kept investigation_kept_trans by blast
    ultimately show ?thesis using u
      by (intro exI[of _ "[ResumeAt (ig_revision s) [], Finish (ig_revision u) c]"]) simp
  qed
qed

theorem investigation_can_be_closed_witness:
  "\<exists>cs t. length cs \<le> 2 \<and> investigate_all sample_env sample_attached cs = Inr t \<and> ig_status t = CompletedNone
     \<and> investigation_kept sample_attached t"
  by (rule investigation_can_be_closed[OF sample_attached_reached]) code_simp

end
