(* ===== verification/Coverage_Ledger.thy ===== *)
theory Coverage_Ledger
  imports Investigation_Properties
begin

text \<open>
  Coverage of the inspected areas (\<open>packages/domain/src/inspection/coverage.ts\<close>, \<open>types.ts\<close>): per area and professional
  module the inspector records how far the area could be inspected; limited access opens a limitation, a revisit opens a
  revisit item, and a later entry supersedes both.  The theory proves that the limitations and revisit items in force are
  exactly what the latest entries say, and what it means that no completion issue is left.
\<close>

section \<open>Types\<close>

datatype area_coverage_state = AccessLimited | Inaccessible | Inspected | NotApplicable | Revisit

record inspection_area =
  ia_areaId :: string
  ia_label :: string
  ia_applicableModules :: "module_type list"

record area_coverage =
  cv_areaId :: string
  cv_coverageEntryId :: string
  cv_module :: module_type
  cv_moduleId :: string
  cv_state :: area_coverage_state
  cv_detail :: "string option"
  cv_recordedAt :: string
  cv_recordedByInspectorId :: string
  cv_revision :: int

datatype limitation_status = LimitationActive | LimitationSuperseded

record coverage_limitation =
  cl_areaId :: string
  cl_limitationId :: string
  cl_module :: module_type
  cl_moduleId :: string
  cl_description :: string
  cl_material :: bool
  cl_recordedAt :: string
  cl_status :: limitation_status
  cl_supersededAt :: "string option"

datatype revisit_status = RevisitOpen | RevisitResolved

record revisit_item =
  ri_areaId :: string
  ri_module :: module_type
  ri_moduleId :: string
  ri_reason :: string
  ri_revisitItemId :: string
  ri_openedAt :: string
  ri_status :: revisit_status
  ri_resolvedAt :: "string option"

record coverage_ledger =
  cg_organizationId :: string
  cg_jobId :: string
  cg_commissionedModules :: "module_reference list"
  cg_areas :: "inspection_area list"
  cg_revision :: int
  cg_entries :: "area_coverage list"
  cg_limitations :: "coverage_limitation list"
  cg_revisitItems :: "revisit_item list"

datatype issue_reason = CoverageNotRecorded | RevisitStillOpen

record completion_issue =
  ci_areaId :: string
  ci_module :: module_type
  ci_moduleId :: string
  ci_reason :: issue_reason

section \<open>Creation\<close>

definition commissioned_type :: "module_reference list \<Rightarrow> module_type \<Rightarrow> bool" where
  "commissioned_type ms m \<longleftrightarrow> list_ex (\<lambda>r. mr_module r = m) ms"

fun area_checks :: "module_reference list \<Rightarrow> string list \<Rightarrow> inspection_area list \<Rightarrow> domain_error + unit" where
  "area_checks ms seen [] = Inr ()"
| "area_checks ms seen (a # as) =
     ensure (ia_areaId a \<notin> set seen) (conflict ''duplicate_area'') (
     ensure (list_all (commissioned_type ms) (ia_applicableModules a)) (conflict ''area_module_not_commissioned'')
       (area_checks ms (ia_areaId a # seen) as))"

definition createCoverageLedger :: "string \<Rightarrow> string \<Rightarrow> module_reference list \<Rightarrow> inspection_area list \<Rightarrow> domain_error + coverage_ledger" where
  "createCoverageLedger organizationId jobId ms areas =
     ensure (ms \<noteq> []) (conflict ''coverage_has_no_module'') (
     ensure (distinct_modules ms) (conflict ''duplicate_commissioned_module'') (
     bind_result (area_checks ms [] areas) (\<lambda>_.
     Inr \<lparr>cg_organizationId = organizationId, cg_jobId = jobId, cg_commissionedModules = ms, cg_areas = areas, cg_revision = 0,
       cg_entries = [], cg_limitations = [], cg_revisitItems = []\<rparr>)))"

section \<open>Recording\<close>

record coverage_command =
  cc_expectedRevision :: int
  cc_coverageEntryId :: string
  cc_areaId :: string
  cc_module :: module_type
  cc_state :: area_coverage_state
  cc_detail :: "string option"
  cc_material :: "bool option"
  cc_recordedAt :: string
  cc_inspectorId :: string
  cc_limitationId :: "string option"
  cc_revisitItemId :: "string option"

definition assertLedgerRevision :: "int \<Rightarrow> int \<Rightarrow> domain_error + unit" where
  "assertLedgerRevision actual expected = ensure (actual = expected) (conflict ''revision_conflict'') (Inr ())"

definition limited :: "area_coverage_state \<Rightarrow> bool" where
  "limited v \<longleftrightarrow> v = AccessLimited \<or> v = Inaccessible"

definition command_detail :: "coverage_command \<Rightarrow> string" where
  "command_detail c = (case cc_detail c of None \<Rightarrow> [] | Some d \<Rightarrow> js_trim d)"

definition detail_required :: "area_coverage_state \<Rightarrow> bool" where
  "detail_required v \<longleftrightarrow> limited v \<or> v = Revisit \<or> v = NotApplicable"

definition next_entry :: "coverage_ledger \<Rightarrow> string \<Rightarrow> coverage_command \<Rightarrow> area_coverage" where
  "next_entry l moduleId c =
     \<lparr>cv_areaId = cc_areaId c, cv_coverageEntryId = cc_coverageEntryId c, cv_module = cc_module c, cv_moduleId = moduleId,
      cv_state = cc_state c, cv_detail = (if command_detail c \<noteq> [] then Some (command_detail c) else None),
      cv_recordedAt = cc_recordedAt c, cv_recordedByInspectorId = cc_inspectorId c,
      cv_revision = int (length (filter (\<lambda>e. cv_areaId e = cc_areaId c \<and> cv_moduleId e = moduleId) (cg_entries l))) + 1\<rparr>"

definition active_for :: "string \<Rightarrow> string \<Rightarrow> coverage_limitation \<Rightarrow> bool" where
  "active_for areaId moduleId x \<longleftrightarrow> cl_areaId x = areaId \<and> cl_moduleId x = moduleId \<and> cl_status x = LimitationActive"

definition supersede :: "string \<Rightarrow> string \<Rightarrow> string \<Rightarrow> coverage_limitation \<Rightarrow> coverage_limitation" where
  "supersede areaId moduleId at x = (if active_for areaId moduleId x
     then x\<lparr>cl_status := LimitationSuperseded, cl_supersededAt := Some at\<rparr> else x)"

definition new_limitations :: "string \<Rightarrow> coverage_command \<Rightarrow> coverage_limitation list" where
  "new_limitations moduleId c = (if limited (cc_state c)
     then [\<lparr>cl_areaId = cc_areaId c, cl_limitationId = the (cc_limitationId c), cl_module = cc_module c, cl_moduleId = moduleId,
       cl_description = command_detail c, cl_material = (case cc_material c of None \<Rightarrow> True | Some b \<Rightarrow> b),
       cl_recordedAt = cc_recordedAt c, cl_status = LimitationActive, cl_supersededAt = None\<rparr>]
     else [])"

definition open_for :: "string \<Rightarrow> string \<Rightarrow> revisit_item \<Rightarrow> bool" where
  "open_for areaId moduleId x \<longleftrightarrow> ri_areaId x = areaId \<and> ri_moduleId x = moduleId \<and> ri_status x = RevisitOpen"

definition resolve_revisit :: "string \<Rightarrow> string \<Rightarrow> string \<Rightarrow> revisit_item \<Rightarrow> revisit_item" where
  "resolve_revisit areaId moduleId at x = (if open_for areaId moduleId x
     then x\<lparr>ri_status := RevisitResolved, ri_resolvedAt := Some at\<rparr> else x)"

definition new_revisits :: "string \<Rightarrow> coverage_command \<Rightarrow> revisit_item list" where
  "new_revisits moduleId c = (if cc_state c = Revisit
     then [\<lparr>ri_areaId = cc_areaId c, ri_module = cc_module c, ri_moduleId = moduleId, ri_reason = command_detail c,
       ri_revisitItemId = the (cc_revisitItemId c), ri_openedAt = cc_recordedAt c, ri_status = RevisitOpen, ri_resolvedAt = None\<rparr>]
     else [])"

definition recordAreaCoverage :: "coverage_ledger \<Rightarrow> coverage_command \<Rightarrow> domain_error + coverage_ledger" where
  "recordAreaCoverage l c =
     bind_result (assertLedgerRevision (cg_revision l) (cc_expectedRevision c)) (\<lambda>_.
     bind_result (of_option (conflict ''coverage_area_unknown'') (List.find (\<lambda>a. ia_areaId a = cc_areaId c) (cg_areas l))) (\<lambda>area.
     bind_result (of_option (conflict ''coverage_module_not_commissioned'') (List.find (\<lambda>r. mr_module r = cc_module c) (cg_commissionedModules l))) (\<lambda>r.
     ensure (cc_module c \<in> set (ia_applicableModules area) \<or> cc_state c = NotApplicable) (conflict ''coverage_module_not_applicable'') (
     ensure (detail_required (cc_state c) \<longrightarrow> command_detail c \<noteq> []) (conflict ''coverage_detail_required'') (
     ensure (limited (cc_state c) \<longrightarrow> cc_limitationId c \<noteq> None) (conflict ''limitation_required'') (
     ensure (cc_state c = Revisit \<longrightarrow> cc_revisitItemId c \<noteq> None) (conflict ''revisit_item_required'') (
     Inr (l\<lparr>cg_revision := cg_revision l + 1, cg_entries := cg_entries l @ [next_entry l (mr_moduleId r) c],
       cg_limitations := map (supersede (cc_areaId c) (mr_moduleId r) (cc_recordedAt c)) (cg_limitations l) @ new_limitations (mr_moduleId r) c,
       cg_revisitItems := map (resolve_revisit (cc_areaId c) (mr_moduleId r) (cc_recordedAt c)) (cg_revisitItems l) @ new_revisits (mr_moduleId r) c\<rparr>))))))))"

section \<open>Reading\<close>

definition coverageKey :: "string \<Rightarrow> string \<Rightarrow> string" where
  "coverageKey moduleId areaId = stringify (JArr [JStr moduleId, JStr areaId])"

text \<open>A \<open>Map\<close> filled by \<open>set\<close> keeps the latest value of each key.\<close>

definition map_by :: "('a \<Rightarrow> 'k) \<Rightarrow> 'a list \<Rightarrow> ('k, 'a) js_map" where
  "map_by key xs = fold (\<lambda>x m. map_set (key x) x m) xs []"

definition entry_key :: "area_coverage \<Rightarrow> string" where
  "entry_key e = coverageKey (cv_moduleId e) (cv_areaId e)"

definition compareCoverage :: "env \<Rightarrow> area_coverage \<Rightarrow> area_coverage \<Rightarrow> int" where
  "compareCoverage E a b = or_else (collate E (cv_areaId a) (cv_areaId b)) (collate E (module_text (cv_module a)) (module_text (cv_module b)))"

definition currentCoverageEntries :: "env \<Rightarrow> coverage_ledger \<Rightarrow> area_coverage list" where
  "currentCoverageEntries E l = sort_by (compareCoverage E) (map snd (map_by entry_key (cg_entries l)))"

definition missing_coverage :: "coverage_ledger \<Rightarrow> (string, area_coverage) js_map \<Rightarrow> inspection_area \<Rightarrow> module_type \<Rightarrow> completion_issue list" where
  "missing_coverage l current a m = (case List.find (\<lambda>r. mr_module r = m) (cg_commissionedModules l) of
     None \<Rightarrow> []
   | Some r \<Rightarrow> if map_of current (coverageKey (mr_moduleId r) (ia_areaId a)) = None
       then [\<lparr>ci_areaId = ia_areaId a, ci_module = m, ci_moduleId = mr_moduleId r, ci_reason = CoverageNotRecorded\<rparr>] else [])"

definition open_revisits :: "coverage_ledger \<Rightarrow> completion_issue list" where
  "open_revisits l = map (\<lambda>x. \<lparr>ci_areaId = ri_areaId x, ci_module = ri_module x, ci_moduleId = ri_moduleId x, ci_reason = RevisitStillOpen\<rparr>)
     (filter (\<lambda>x. ri_status x = RevisitOpen) (cg_revisitItems l))"

definition coverageCompletionIssues :: "env \<Rightarrow> coverage_ledger \<Rightarrow> completion_issue list" where
  "coverageCompletionIssues E l =
     (let current = map_by entry_key (currentCoverageEntries E l)
      in concat (map (\<lambda>a. concat (map (missing_coverage l current a) (ia_applicableModules a))) (cg_areas l)) @ open_revisits l)"

section \<open>Keys\<close>

text \<open>Printed text can be read back, so the two parts of a key are recovered from it.\<close>

lemma escape_char_shape:
  "escape_char c = [c] \<and> c \<noteq> CHR 0x22 \<and> c \<noteq> CHR 0x5C
   \<or> (\<exists>d. escape_char c = [CHR 0x5C, d] \<and> d \<noteq> CHR ''u'')
   \<or> (\<exists>h k. escape_char c = [CHR 0x5C, CHR ''u'', CHR ''0'', CHR ''0'', h, k])"
proof -
  have "c = char_of (of_char c :: nat)" by simp
  then show ?thesis unfolding escape_char_def Let_def by (auto simp: char_of_eq_iff)
qed

definition hex_value :: "char \<Rightarrow> nat" where
  "hex_value c = (let n = of_char c in if n < 58 then n - 48 else n - 87)"

definition unescape_char :: "string \<Rightarrow> char" where
  "unescape_char s = (case s of
     [c] \<Rightarrow> c
   | [_, d] \<Rightarrow> (if d = CHR ''b'' then char_of (8::nat) else if d = CHR ''f'' then char_of (12::nat) else if d = CHR ''n'' then char_of (10::nat)
        else if d = CHR ''r'' then char_of (13::nat) else if d = CHR ''t'' then char_of (9::nat) else d)
   | [_, _, _, _, h, k] \<Rightarrow> char_of (16 * hex_value h + hex_value k)
   | _ \<Rightarrow> CHR 0x00)"

lemma hex_value_digit: "n < 16 \<Longrightarrow> hex_value (hex_digit n) = n"
  by (simp add: hex_value_def hex_digit_def Let_def)

lemma unescape_escape: "unescape_char (escape_char c) = c"
proof -
  have c: "c = char_of (of_char c :: nat)" by simp
  have "n < 32 \<Longrightarrow> char_of (16 * hex_value (hex_digit (n div 16)) + hex_value (hex_digit (n mod 16))) = (char_of n :: char)" for n :: nat
    by (simp add: hex_value_digit)
  moreover have "c = CHR 0x5C" if "of_char c = (92::nat)"
    using that of_char_eq_iff[of c "CHR 0x5C", where ?'a = nat] by simp
  moreover have "c = CHR 0x22" if "of_char c = (34::nat)"
    using that of_char_eq_iff[of c "CHR 0x22", where ?'a = nat] by simp
  ultimately show ?thesis unfolding escape_char_def Let_def by (auto simp: unescape_char_def char_of_eq_iff)
qed

lemma escape_cancel:
  assumes "escape_char c @ r = escape_char d @ r'"
  shows "c = d \<and> r = r'"
proof -
  have "escape_char c = escape_char d \<and> r = r'"
    using assms escape_char_shape[of c] escape_char_shape[of d] by auto
  then show ?thesis by (metis unescape_escape)
qed

lemma escape_not_quote: "escape_char c @ r \<noteq> CHR 0x22 # r'"
  using escape_char_shape[of c] by auto

lemma quote_cancel:
  assumes "quote_text s @ r = quote_text t @ r'"
  shows "s = t \<and> r = r'"
proof -
  have "concat (map escape_char s) @ CHR 0x22 # r = concat (map escape_char t) @ CHR 0x22 # r'"
    using assms by (simp add: quote_text_def)
  then show ?thesis
  proof (induction s arbitrary: t)
    case Nil
    then show ?case using escape_not_quote by (cases t) (auto, metis append.assoc)
  next
    case (Cons c s)
    show ?case
    proof (cases t)
      case Nil
      then show ?thesis using Cons.prems escape_not_quote[of c "concat (map escape_char s) @ CHR 0x22 # r" r'] by simp
    next
      case (Cons d u)
      then have "escape_char c @ (concat (map escape_char s) @ CHR 0x22 # r) = escape_char d @ (concat (map escape_char u) @ CHR 0x22 # r')"
        using Cons.prems by simp
      from escape_cancel[OF this] Cons.IH Cons show ?thesis by blast
    qed
  qed
qed

lemma coverageKey_inject [simp]: "coverageKey m a = coverageKey n b \<longleftrightarrow> m = n \<and> a = b"
  unfolding coverageKey_def using quote_cancel[of a "'']''" b "'']''"] by (auto dest!: quote_cancel)

section \<open>The latest entry\<close>

definition latest_entry :: "coverage_ledger \<Rightarrow> string \<Rightarrow> string \<Rightarrow> area_coverage option" where
  "latest_entry l moduleId areaId = List.find (\<lambda>e. cv_moduleId e = moduleId \<and> cv_areaId e = areaId) (rev (cg_entries l))"

lemma map_by_snoc: "map_by key (xs @ [x]) = map_set (key x) x (map_by key xs)"
  by (simp add: map_by_def)

lemma map_of_map_by: "map_of (map_by key xs) k = List.find (\<lambda>x. key x = k) (rev xs)"
proof (induction xs rule: rev_induct)
  case Nil
  then show ?case by (simp add: map_by_def)
qed (auto simp: map_by_snoc)

lemma map_by_keys: "distinct (map fst (map_by key xs))"
  by (induction xs rule: rev_induct) (simp_all add: map_by_def distinct_map_set)

lemma map_by_entries: "(k, x) \<in> set (map_by key xs) \<longleftrightarrow> List.find (\<lambda>x. key x = k) (rev xs) = Some x"
  by (metis map_by_keys map_of_eq_Some_iff map_of_map_by)

lemma map_by_key_of: "(k, x) \<in> set (map_by key xs) \<Longrightarrow> k = key x \<and> x \<in> set xs"
  by (auto simp: map_by_entries dest: find_SomeD)

lemma map_by_distinct: "distinct (map key (map snd (map_by key xs)))"
proof -
  have "map key (map snd (map_by key xs)) = map fst (map_by key xs)"
    by (auto dest: map_by_key_of)
  then show ?thesis using map_by_keys[of key xs] by metis
qed

lemma current_entries_set: "e \<in> set (currentCoverageEntries E l) \<longleftrightarrow> latest_entry l (cv_moduleId e) (cv_areaId e) = Some e"
proof -
  have "(entry_key e, e) \<in> set (map_by entry_key (cg_entries l))" if "(k, e) \<in> set (map_by entry_key (cg_entries l))" for k
    using that map_by_key_of[OF that] by simp
  then have "e \<in> set (currentCoverageEntries E l) \<longleftrightarrow> (entry_key e, e) \<in> set (map_by entry_key (cg_entries l))"
    by (auto simp: currentCoverageEntries_def intro: rev_image_eqI)
  then show ?thesis by (simp add: map_by_entries latest_entry_def entry_key_def)
qed

lemma current_entries_distinct: "distinct (map entry_key (currentCoverageEntries E l))"
  using map_by_distinct[of entry_key "cg_entries l"] by (simp add: currentCoverageEntries_def del: map_map)

lemma current_lookup:
  "map_of (map_by entry_key (currentCoverageEntries E l)) (coverageKey m a) = None \<longleftrightarrow> latest_entry l m a = None"
proof -
  have "map_of (map_by entry_key (currentCoverageEntries E l)) (coverageKey m a) = None
     \<longleftrightarrow> \<not> (\<exists>e \<in> set (currentCoverageEntries E l). entry_key e = coverageKey m a)"
    by (auto simp: map_of_map_by find_eq_None)
  also have "\<dots> \<longleftrightarrow> latest_entry l m a = None"
  proof (cases "latest_entry l m a")
    case (Some e)
    then have "cv_moduleId e = m \<and> cv_areaId e = a" by (auto simp: latest_entry_def dest: find_SomeD)
    with Some have "e \<in> set (currentCoverageEntries E l)" "entry_key e = coverageKey m a" by (simp_all add: current_entries_set entry_key_def)
    with Some show ?thesis by auto
  qed (auto simp: current_entries_set entry_key_def)
  finally show ?thesis .
qed

section \<open>Invariant\<close>

definition entry_known :: "coverage_ledger \<Rightarrow> area_coverage \<Rightarrow> bool" where
  "entry_known l e \<longleftrightarrow> (\<exists>r \<in> set (cg_commissionedModules l). mr_module r = cv_module e \<and> mr_moduleId r = cv_moduleId e)
     \<and> (\<exists>a \<in> set (cg_areas l). ia_areaId a = cv_areaId e \<and> (cv_module e \<in> set (ia_applicableModules a) \<or> cv_state e = NotApplicable))
     \<and> (detail_required (cv_state e) \<longrightarrow> cv_detail e \<noteq> None \<and> cv_detail e \<noteq> Some [])"

text \<open>The limitations and revisit items in force for a module and an area, as the latest entry has them.\<close>

definition limitations_due :: "area_coverage option \<Rightarrow> (module_type \<times> string \<times> string) list" where
  "limitations_due v = (case v of None \<Rightarrow> [] | Some e \<Rightarrow> if limited (cv_state e) then [(cv_module e, the (cv_detail e), cv_recordedAt e)] else [])"

definition revisits_due :: "area_coverage option \<Rightarrow> (module_type \<times> string \<times> string) list" where
  "revisits_due v = (case v of None \<Rightarrow> [] | Some e \<Rightarrow> if cv_state e = Revisit then [(cv_module e, the (cv_detail e), cv_recordedAt e)] else [])"

definition limitations_in_force :: "coverage_ledger \<Rightarrow> string \<Rightarrow> string \<Rightarrow> (module_type \<times> string \<times> string) list" where
  "limitations_in_force l m a = map (\<lambda>x. (cl_module x, cl_description x, cl_recordedAt x)) (filter (active_for a m) (cg_limitations l))"

definition revisits_in_force :: "coverage_ledger \<Rightarrow> string \<Rightarrow> string \<Rightarrow> (module_type \<times> string \<times> string) list" where
  "revisits_in_force l m a = map (\<lambda>x. (ri_module x, ri_reason x, ri_openedAt x)) (filter (open_for a m) (cg_revisitItems l))"

definition entries_numbered :: "area_coverage list \<Rightarrow> bool" where
  "entries_numbered es \<longleftrightarrow> (\<forall>i < length es. cv_revision (es ! i)
     = int (length (filter (\<lambda>e. cv_areaId e = cv_areaId (es ! i) \<and> cv_moduleId e = cv_moduleId (es ! i)) (take i es))) + 1)"

definition ledger_wf :: "coverage_ledger \<Rightarrow> bool" where
  "ledger_wf l \<longleftrightarrow> cg_commissionedModules l \<noteq> [] \<and> distinct_modules (cg_commissionedModules l) \<and> distinct (map ia_areaId (cg_areas l))
     \<and> (\<forall>a \<in> set (cg_areas l). list_all (commissioned_type (cg_commissionedModules l)) (ia_applicableModules a))
     \<and> cg_revision l = int (length (cg_entries l)) \<and> (\<forall>e \<in> set (cg_entries l). entry_known l e) \<and> entries_numbered (cg_entries l)
     \<and> (\<forall>m a. limitations_in_force l m a = limitations_due (latest_entry l m a))
     \<and> (\<forall>m a. revisits_in_force l m a = revisits_due (latest_entry l m a))"

inductive ledger_reachable :: "coverage_ledger \<Rightarrow> bool" where
  created: "createCoverageLedger org job ms areas = Inr l \<Longrightarrow> ledger_reachable l"
| recorded: "ledger_reachable l \<Longrightarrow> recordAreaCoverage l c = Inr l' \<Longrightarrow> ledger_reachable l'"

lemma area_checks_Inr:
  "area_checks ms seen as = Inr u \<longleftrightarrow> distinct (map ia_areaId as) \<and> set (map ia_areaId as) \<inter> set seen = {}
     \<and> (\<forall>a \<in> set as. list_all (commissioned_type ms) (ia_applicableModules a))"
  by (induction ms seen as rule: area_checks.induct) auto

lemma created_wf: "createCoverageLedger org job ms areas = Inr l \<Longrightarrow> ledger_wf l"
  by (auto simp: createCoverageLedger_def ledger_wf_def area_checks_Inr entries_numbered_def limitations_in_force_def
      revisits_in_force_def latest_entry_def limitations_due_def revisits_due_def)

lemma filter_supersede:
  "filter (active_for a m) (map (supersede a0 m0 at) xs) = (if a = a0 \<and> m = m0 then [] else filter (active_for a m) xs)"
proof -
  have "active_for a m (supersede a0 m0 at x) \<longleftrightarrow> active_for a m x \<and> \<not> (a = a0 \<and> m = m0)" for x
    unfolding supersede_def by (cases x) (simp add: active_for_def, metis limitation_status.distinct(1))
  moreover have "active_for a m x \<Longrightarrow> \<not> (a = a0 \<and> m = m0) \<Longrightarrow> supersede a0 m0 at x = x" for x
    unfolding supersede_def by (cases x) (simp add: active_for_def)
  ultimately show ?thesis by (induction xs) auto
qed

lemma filter_resolve:
  "filter (open_for a m) (map (resolve_revisit a0 m0 at) xs) = (if a = a0 \<and> m = m0 then [] else filter (open_for a m) xs)"
proof -
  have "open_for a m (resolve_revisit a0 m0 at x) \<longleftrightarrow> open_for a m x \<and> \<not> (a = a0 \<and> m = m0)" for x
    unfolding resolve_revisit_def by (cases x) (simp add: open_for_def, metis revisit_status.distinct(1))
  moreover have "open_for a m x \<Longrightarrow> \<not> (a = a0 \<and> m = m0) \<Longrightarrow> resolve_revisit a0 m0 at x = x" for x
    unfolding resolve_revisit_def by (cases x) (simp add: open_for_def)
  ultimately show ?thesis by (induction xs) auto
qed

lemma next_entry_fields [simp]:
  "cv_areaId (next_entry l m c) = cc_areaId c" "cv_moduleId (next_entry l m c) = m" "cv_module (next_entry l m c) = cc_module c"
  "cv_state (next_entry l m c) = cc_state c" "cv_recordedAt (next_entry l m c) = cc_recordedAt c"
  "cv_detail (next_entry l m c) = (if command_detail c \<noteq> [] then Some (command_detail c) else None)"
  by (simp_all add: next_entry_def)

text \<open>What a successful command does, in one record.\<close>

definition recorded_ledger :: "coverage_ledger \<Rightarrow> string \<Rightarrow> coverage_command \<Rightarrow> coverage_ledger" where
  "recorded_ledger l m c = l\<lparr>cg_revision := cg_revision l + 1, cg_entries := cg_entries l @ [next_entry l m c],
     cg_limitations := map (supersede (cc_areaId c) m (cc_recordedAt c)) (cg_limitations l) @ new_limitations m c,
     cg_revisitItems := map (resolve_revisit (cc_areaId c) m (cc_recordedAt c)) (cg_revisitItems l) @ new_revisits m c\<rparr>"

lemma recordAreaCoverage_Inr:
  assumes "recordAreaCoverage l c = Inr l'"
  obtains r area where "List.find (\<lambda>a. ia_areaId a = cc_areaId c) (cg_areas l) = Some area"
    and "List.find (\<lambda>r. mr_module r = cc_module c) (cg_commissionedModules l) = Some r"
    and "cc_module c \<in> set (ia_applicableModules area) \<or> cc_state c = NotApplicable"
    and "detail_required (cc_state c) \<Longrightarrow> command_detail c \<noteq> []" and "cg_revision l = cc_expectedRevision c"
    and "l' = recorded_ledger l (mr_moduleId r) c"
  using assms by (auto simp: recordAreaCoverage_def assertLedgerRevision_def recorded_ledger_def)

lemma recorded_latest:
  "latest_entry (recorded_ledger l m0 c) m a = (if m = m0 \<and> a = cc_areaId c then Some (next_entry l m0 c) else latest_entry l m a)"
  by (auto simp: latest_entry_def recorded_ledger_def)

lemma filter_new_limitations: "filter (active_for a m) (new_limitations m0 c) = (if m = m0 \<and> a = cc_areaId c then new_limitations m0 c else [])"
  by (auto simp: new_limitations_def active_for_def)

lemma filter_new_revisits: "filter (open_for a m) (new_revisits m0 c) = (if m = m0 \<and> a = cc_areaId c then new_revisits m0 c else [])"
  by (auto simp: new_revisits_def open_for_def)

lemma recorded_limitations:
  assumes "limitations_in_force l m a = limitations_due (latest_entry l m a)" and "limited (cc_state c) \<Longrightarrow> command_detail c \<noteq> []"
  shows "limitations_in_force (recorded_ledger l m0 c) m a = limitations_due (latest_entry (recorded_ledger l m0 c) m a)"
proof -
  have "limitations_in_force (recorded_ledger l m0 c) m a = (if m = m0 \<and> a = cc_areaId c
      then map (\<lambda>x. (cl_module x, cl_description x, cl_recordedAt x)) (new_limitations m0 c) else limitations_in_force l m a)"
    by (simp add: limitations_in_force_def recorded_ledger_def filter_supersede filter_new_limitations)
  moreover have "map (\<lambda>x. (cl_module x, cl_description x, cl_recordedAt x)) (new_limitations m0 c) = limitations_due (Some (next_entry l m0 c))"
    using assms(2) by (simp add: new_limitations_def limitations_due_def)
  ultimately show ?thesis using assms(1) unfolding recorded_latest by simp
qed

lemma recorded_revisits:
  assumes "revisits_in_force l m a = revisits_due (latest_entry l m a)" and "cc_state c = Revisit \<Longrightarrow> command_detail c \<noteq> []"
  shows "revisits_in_force (recorded_ledger l m0 c) m a = revisits_due (latest_entry (recorded_ledger l m0 c) m a)"
proof -
  have "revisits_in_force (recorded_ledger l m0 c) m a = (if m = m0 \<and> a = cc_areaId c
      then map (\<lambda>x. (ri_module x, ri_reason x, ri_openedAt x)) (new_revisits m0 c) else revisits_in_force l m a)"
    by (simp add: revisits_in_force_def recorded_ledger_def filter_resolve filter_new_revisits)
  moreover have "map (\<lambda>x. (ri_module x, ri_reason x, ri_openedAt x)) (new_revisits m0 c) = revisits_due (Some (next_entry l m0 c))"
    using assms(2) by (simp add: new_revisits_def revisits_due_def)
  ultimately show ?thesis using assms(1) unfolding recorded_latest by simp
qed

lemma entries_numbered_snoc: "entries_numbered (cg_entries l) \<Longrightarrow> entries_numbered (cg_entries l @ [next_entry l m c])"
  unfolding entries_numbered_def by (auto simp: nth_append less_Suc_eq next_entry_def)

lemma recorded_wf:
  assumes "recordAreaCoverage l c = Inr l'" and "ledger_wf l"
  shows "ledger_wf l'"
  using assms(1)
proof (rule recordAreaCoverage_Inr)
  fix r area
  assume a: "List.find (\<lambda>a. ia_areaId a = cc_areaId c) (cg_areas l) = Some area"
    and r: "List.find (\<lambda>r. mr_module r = cc_module c) (cg_commissionedModules l) = Some r"
    and app: "cc_module c \<in> set (ia_applicableModules area) \<or> cc_state c = NotApplicable"
    and d: "detail_required (cc_state c) \<Longrightarrow> command_detail c \<noteq> []" and l': "l' = recorded_ledger l (mr_moduleId r) c"
  have new: "entry_known l (next_entry l (mr_moduleId r) c)"
    using find_SomeD[OF a] find_SomeD[OF r] app d unfolding entry_known_def by (auto 4 4)
  have same: "entry_known l' = entry_known l" by (simp add: fun_eq_iff entry_known_def l' recorded_ledger_def)
  have "limitations_in_force l' m a = limitations_due (latest_entry l' m a)" for m a
    unfolding l' using assms(2) d by (intro recorded_limitations) (auto simp: ledger_wf_def detail_required_def)
  moreover have "revisits_in_force l' m a = revisits_due (latest_entry l' m a)" for m a
    unfolding l' using assms(2) d by (intro recorded_revisits) (auto simp: ledger_wf_def detail_required_def)
  moreover have "cg_entries l' = cg_entries l @ [next_entry l (mr_moduleId r) c]" "cg_revision l' = cg_revision l + 1"
    "cg_areas l' = cg_areas l" "cg_commissionedModules l' = cg_commissionedModules l"
    by (simp_all add: l' recorded_ledger_def)
  ultimately show ?thesis using assms(2) new entries_numbered_snoc[of l] unfolding ledger_wf_def same by simp
qed

lemma ledger_reachable_wf: "ledger_reachable l \<Longrightarrow> ledger_wf l"
  by (induction rule: ledger_reachable.induct) (auto intro: created_wf recorded_wf)

interpretation cgv: versioned cg_revision cc_expectedRevision recordAreaCoverage "conflict ''revision_conflict''"
  by unfold_locales (auto simp: assertLedgerRevision_def recordAreaCoverage_def)

section \<open>History\<close>

definition coverage_step :: "coverage_ledger \<Rightarrow> coverage_ledger \<Rightarrow> bool" where
  "coverage_step l l' \<longleftrightarrow> (\<exists>c. recordAreaCoverage l c = Inr l')"

definition limitation_kept :: "coverage_limitation \<Rightarrow> coverage_limitation \<Rightarrow> bool" where
  "limitation_kept x y \<longleftrightarrow> y = x \<or> cl_status x = LimitationActive \<and> (\<exists>at. y = x\<lparr>cl_status := LimitationSuperseded, cl_supersededAt := Some at\<rparr>)"

definition revisit_kept :: "revisit_item \<Rightarrow> revisit_item \<Rightarrow> bool" where
  "revisit_kept x y \<longleftrightarrow> y = x \<or> ri_status x = RevisitOpen \<and> (\<exists>at. y = x\<lparr>ri_status := RevisitResolved, ri_resolvedAt := Some at\<rparr>)"

definition pointwise_kept :: "('a \<Rightarrow> 'a \<Rightarrow> bool) \<Rightarrow> 'a list \<Rightarrow> 'a list \<Rightarrow> bool" where
  "pointwise_kept R xs ys \<longleftrightarrow> length xs \<le> length ys \<and> (\<forall>i < length xs. R (xs ! i) (ys ! i))"

definition ledger_kept :: "coverage_ledger \<Rightarrow> coverage_ledger \<Rightarrow> bool" where
  "ledger_kept l l' \<longleftrightarrow> cg_commissionedModules l' = cg_commissionedModules l \<and> cg_areas l' = cg_areas l \<and> cg_jobId l' = cg_jobId l
     \<and> cg_organizationId l' = cg_organizationId l \<and> prefix (cg_entries l) (cg_entries l')
     \<and> pointwise_kept limitation_kept (cg_limitations l) (cg_limitations l')
     \<and> pointwise_kept revisit_kept (cg_revisitItems l) (cg_revisitItems l')"

lemma pointwise_kept_trans:
  assumes "\<And>x y z. R x y \<Longrightarrow> R y z \<Longrightarrow> R x z" and "pointwise_kept R xs ys" and "pointwise_kept R ys zs"
  shows "pointwise_kept R xs zs"
  using assms(2-) unfolding pointwise_kept_def by (auto intro: assms(1))

lemma limitation_kept_trans: "limitation_kept x y \<Longrightarrow> limitation_kept y z \<Longrightarrow> limitation_kept x z"
  by (auto simp: limitation_kept_def)

lemma revisit_kept_trans: "revisit_kept x y \<Longrightarrow> revisit_kept y z \<Longrightarrow> revisit_kept x z"
  by (auto simp: revisit_kept_def)

lemma ledger_kept_refl: "ledger_kept l l"
  by (simp add: ledger_kept_def pointwise_kept_def limitation_kept_def revisit_kept_def)

lemma ledger_kept_trans: "ledger_kept k l \<Longrightarrow> ledger_kept l n \<Longrightarrow> ledger_kept k n"
  unfolding ledger_kept_def
  by (auto intro: prefix_order.trans pointwise_kept_trans[OF limitation_kept_trans] pointwise_kept_trans[OF revisit_kept_trans])

lemma recorded_kept: "recordAreaCoverage l c = Inr l' \<Longrightarrow> ledger_kept l l'"
  by (erule recordAreaCoverage_Inr) (auto simp: recorded_ledger_def ledger_kept_def pointwise_kept_def nth_append
      limitation_kept_def supersede_def active_for_def revisit_kept_def resolve_revisit_def open_for_def)

lemma coverage_steps_kept: "coverage_step\<^sup>*\<^sup>* l l' \<Longrightarrow> ledger_kept l l'"
  by (induction rule: rtranclp_induct) (auto simp: coverage_step_def ledger_kept_refl intro: ledger_kept_trans recorded_kept)

section \<open>Completion\<close>

text \<open>An area needs coverage for a module it applies to; the coverage is settled when its latest entry is not a revisit.\<close>

definition settled :: "coverage_ledger \<Rightarrow> string \<Rightarrow> string \<Rightarrow> bool" where
  "settled l m a \<longleftrightarrow> (\<exists>e. latest_entry l m a = Some e \<and> cv_state e \<noteq> Revisit)"

lemma find_commissioned:
  assumes "distinct_modules ms" and "r \<in> set ms"
  shows "List.find (\<lambda>q. mr_module q = mr_module r) ms = Some r"
proof -
  obtain q where q: "List.find (\<lambda>q. mr_module q = mr_module r) ms = Some q"
    using assms(2) by (cases "List.find (\<lambda>q. mr_module q = mr_module r) ms") (auto simp: find_eq_None)
  then have "q = r" using find_SomeD[OF q] assms by (auto simp: distinct_modules_def distinct_map dest: inj_onD)
  with q show ?thesis by simp
qed

lemma missing_coverage_Nil:
  assumes "distinct_modules (cg_commissionedModules l)" and "r \<in> set (cg_commissionedModules l)"
  shows "missing_coverage l (map_by entry_key (currentCoverageEntries E l)) a (mr_module r) = []
    \<longleftrightarrow> latest_entry l (mr_moduleId r) (ia_areaId a) \<noteq> None"
  by (simp add: missing_coverage_def find_commissioned[OF assms] current_lookup)

lemma open_revisits_Nil:
  assumes "ledger_wf l"
  shows "open_revisits l = [] \<longleftrightarrow> (\<forall>m a e. latest_entry l m a = Some e \<longrightarrow> cv_state e \<noteq> Revisit)"
proof
  assume none: "open_revisits l = []"
  show "\<forall>m a e. latest_entry l m a = Some e \<longrightarrow> cv_state e \<noteq> Revisit"
  proof (intro allI impI notI)
    fix m a e assume e: "latest_entry l m a = Some e" "cv_state e = Revisit"
    then have "revisits_in_force l m a \<noteq> []" using assms by (simp add: ledger_wf_def revisits_due_def)
    then obtain x where "x \<in> set (cg_revisitItems l)" "open_for a m x" by (auto simp: revisits_in_force_def filter_empty_conv)
    with none show False by (auto simp: open_revisits_def open_for_def filter_empty_conv)
  qed
next
  assume all: "\<forall>m a e. latest_entry l m a = Some e \<longrightarrow> cv_state e \<noteq> Revisit"
  have "ri_status x \<noteq> RevisitOpen" if x: "x \<in> set (cg_revisitItems l)" for x
  proof
    assume "ri_status x = RevisitOpen"
    with x have "revisits_in_force l (ri_moduleId x) (ri_areaId x) \<noteq> []"
      by (auto simp: revisits_in_force_def filter_empty_conv open_for_def)
    then have "revisits_due (latest_entry l (ri_moduleId x) (ri_areaId x)) \<noteq> []" using assms by (simp add: ledger_wf_def)
    with all show False by (auto simp: revisits_due_def split: option.splits if_splits)
  qed
  then show "open_revisits l = []" by (simp add: open_revisits_def filter_empty_conv)
qed

lemma completion_issues_Nil:
  assumes "ledger_wf l"
  shows "coverageCompletionIssues E l = [] \<longleftrightarrow> (\<forall>a \<in> set (cg_areas l). \<forall>r \<in> set (cg_commissionedModules l).
     mr_module r \<in> set (ia_applicableModules a) \<longrightarrow> settled l (mr_moduleId r) (ia_areaId a))"
    (is "_ \<longleftrightarrow> ?settled")
proof -
  let ?cur = "map_by entry_key (currentCoverageEntries E l)"
  have dm: "distinct_modules (cg_commissionedModules l)" using assms by (simp add: ledger_wf_def)
  have com: "\<exists>r \<in> set (cg_commissionedModules l). mr_module r = m" if "a \<in> set (cg_areas l)" "m \<in> set (ia_applicableModules a)" for a m
    using that assms by (auto simp: ledger_wf_def list_all_iff commissioned_type_def list_ex_iff)
  have "coverageCompletionIssues E l = [] \<longleftrightarrow>
      (\<forall>a \<in> set (cg_areas l). \<forall>m \<in> set (ia_applicableModules a). missing_coverage l ?cur a m = []) \<and> open_revisits l = []"
    by (auto simp: coverageCompletionIssues_def Let_def)
  also have "\<dots> \<longleftrightarrow> (\<forall>a \<in> set (cg_areas l). \<forall>r \<in> set (cg_commissionedModules l). mr_module r \<in> set (ia_applicableModules a) \<longrightarrow>
      latest_entry l (mr_moduleId r) (ia_areaId a) \<noteq> None) \<and> open_revisits l = []"
    using missing_coverage_Nil[OF dm] com by metis
  also have "\<dots> \<longleftrightarrow> ?settled"
  proof
    assume "?settled"
    moreover have "cv_state e \<noteq> Revisit" if e: "latest_entry l m a = Some e" for m a e
    proof
      assume rev: "cv_state e = Revisit"
      have k: "cv_moduleId e = m" "cv_areaId e = a" "e \<in> set (cg_entries l)"
        using e by (auto simp: latest_entry_def dest: find_SomeD)
      with assms have "entry_known l e" by (simp add: ledger_wf_def)
      with \<open>?settled\<close> k rev have "settled l m a" by (fastforce simp: entry_known_def)
      with e rev show False by (simp add: settled_def)
    qed
    ultimately show "(\<forall>a \<in> set (cg_areas l). \<forall>r \<in> set (cg_commissionedModules l). mr_module r \<in> set (ia_applicableModules a) \<longrightarrow>
      latest_entry l (mr_moduleId r) (ia_areaId a) \<noteq> None) \<and> open_revisits l = []"
      by (auto simp: open_revisits_Nil[OF assms] settled_def) fastforce
  qed (fastforce simp: open_revisits_Nil[OF assms] settled_def)
  finally show ?thesis .
qed

section \<open>A ledger for the witnesses\<close>

definition sample_areas :: "inspection_area list" where
  "sample_areas = [\<lparr>ia_areaId = ''roof'', ia_label = ''Roof'', ia_applicableModules = [Building]\<rparr>]"

definition sample_coverage :: "int \<Rightarrow> area_coverage_state \<Rightarrow> coverage_command" where
  "sample_coverage n v = \<lparr>cc_expectedRevision = n, cc_coverageEntryId = ''c'' @ show_int n, cc_areaId = ''roof'', cc_module = Building,
     cc_state = v, cc_detail = Some ''no safe access'', cc_material = None, cc_recordedAt = ''09:10'', cc_inspectorId = ''p1'',
     cc_limitationId = Some ''l1'', cc_revisitItemId = Some ''v1''\<rparr>"

definition sample_ledger :: coverage_ledger where
  "sample_ledger = projr (createCoverageLedger ''o1'' ''j1'' (st_commissionedModules sample_start) sample_areas)"

definition sample_limited :: coverage_ledger where
  "sample_limited = projr (recordAreaCoverage sample_ledger (sample_coverage 0 Inaccessible))"

definition sample_inspected :: coverage_ledger where
  "sample_inspected = projr (recordAreaCoverage sample_limited (sample_coverage 1 Inspected))"

lemma sample_ledger_ok:
  "createCoverageLedger ''o1'' ''j1'' (st_commissionedModules sample_start) sample_areas = Inr sample_ledger"
  "recordAreaCoverage sample_ledger (sample_coverage 0 Inaccessible) = Inr sample_limited"
  "recordAreaCoverage sample_limited (sample_coverage 1 Inspected) = Inr sample_inspected"
  unfolding sample_ledger_def sample_limited_def sample_inspected_def by (rule projr_eqI, code_simp)+

lemma sample_ledger_reachable: "ledger_reachable sample_limited" "ledger_reachable sample_inspected"
  using sample_ledger_ok by (blast intro: created recorded)+

section \<open>Properties\<close>

text \<open>C27: in a reachable ledger the limitations and the revisit items in force for a module and an area are exactly
  what the latest coverage entry for them says: one limitation, with its text and time, when access was limited, one open
  revisit when a revisit is due, and none otherwise.\<close>

theorem coverage_in_force_is_latest:
  assumes "ledger_reachable l"
  shows "limitations_in_force l m a = limitations_due (latest_entry l m a) \<and> revisits_in_force l m a = revisits_due (latest_entry l m a)"
  using ledger_reachable_wf[OF assms] by (simp add: ledger_wf_def)

theorem coverage_in_force_is_latest_witness:
  "limitations_in_force sample_limited ''b1'' ''roof'' = [(Building, ''no safe access'', ''09:10'')] \<and> limitations_in_force sample_inspected ''b1'' ''roof'' = []"
proof -
  have "limitations_due (latest_entry sample_limited ''b1'' ''roof'') = [(Building, ''no safe access'', ''09:10'')]"
    and "limitations_due (latest_entry sample_inspected ''b1'' ''roof'') = []" by code_simp+
  then show ?thesis using coverage_in_force_is_latest[OF sample_ledger_reachable(1), of "''b1''" "''roof''"]
      coverage_in_force_is_latest[OF sample_ledger_reachable(2), of "''b1''" "''roof''"] by simp
qed

text \<open>C28: a reachable ledger has no completion issue exactly when every area has, for every commissioned module that
  applies to it, a latest coverage entry that is not a revisit.\<close>

theorem coverage_complete_iff_settled:
  assumes "ledger_reachable l"
  shows "coverageCompletionIssues E l = [] \<longleftrightarrow> (\<forall>a \<in> set (cg_areas l). \<forall>r \<in> set (cg_commissionedModules l).
     mr_module r \<in> set (ia_applicableModules a) \<longrightarrow> settled l (mr_moduleId r) (ia_areaId a))"
  using assms by (intro completion_issues_Nil ledger_reachable_wf)

theorem coverage_complete_iff_settled_witness: "settled sample_inspected ''b1'' ''roof''"
proof -
  have "coverageCompletionIssues sample_env sample_inspected = []"
    and "\<exists>a \<in> set (cg_areas sample_inspected). \<exists>r \<in> set (cg_commissionedModules sample_inspected).
      mr_module r \<in> set (ia_applicableModules a) \<and> mr_moduleId r = ''b1'' \<and> ia_areaId a = ''roof''" by code_simp+
  then show ?thesis using coverage_complete_iff_settled[OF sample_ledger_reachable(2), of sample_env] by fastforce
qed

text \<open>Whatever coverage is recorded later, the entries stay a prefix, numbered per area and module, and every limitation
  and revisit item stays in place with its text, at most closed once and for all.\<close>

theorem coverage_history_kept:
  assumes "ledger_reachable l" and "coverage_step\<^sup>*\<^sup>* l l'"
  shows "ledger_kept l l' \<and> entries_numbered (cg_entries l') \<and> cg_revision l' = int (length (cg_entries l'))"
proof -
  from assms(2,1) have "ledger_reachable l'"
    by (induction rule: rtranclp_induct) (auto simp: coverage_step_def intro: recorded)
  then show ?thesis using ledger_reachable_wf[of l'] coverage_steps_kept[OF assms(2)] by (simp add: ledger_wf_def)
qed

theorem coverage_history_kept_witness: "ledger_kept sample_limited sample_inspected"
proof -
  have "coverage_step\<^sup>*\<^sup>* sample_limited sample_inspected"
    using sample_ledger_ok(3) by (intro r_into_rtranclp) (auto simp: coverage_step_def)
  then show ?thesis using coverage_history_kept[OF sample_ledger_reachable(1)] by blast
qed

text \<open>The current coverage lists, for every area and module with an entry, exactly the latest one, each pair once, in
  the order of area and module where the comparison of texts is a total preorder.\<close>

theorem current_coverage_is_latest:
  "(\<forall>e. e \<in> set (currentCoverageEntries E l) \<longleftrightarrow> latest_entry l (cv_moduleId e) (cv_areaId e) = Some e)
   \<and> distinct (map (\<lambda>e. (cv_moduleId e, cv_areaId e)) (currentCoverageEntries E l))
   \<and> (preorder_by (compareCoverage E) \<longrightarrow> sorted_wrt (\<lambda>a b. compareCoverage E a b \<le> 0) (currentCoverageEntries E l))"
proof -
  have "distinct (map (\<lambda>(m, a). coverageKey m a) (map (\<lambda>e. (cv_moduleId e, cv_areaId e)) (currentCoverageEntries E l)))"
    using current_entries_distinct[of E l] by (simp add: comp_def entry_key_def[abs_def])
  then have "distinct (map (\<lambda>e. (cv_moduleId e, cv_areaId e)) (currentCoverageEntries E l))"
    by (simp only: distinct_map)
  then show ?thesis using current_entries_set by (auto simp: currentCoverageEntries_def sorted_sort_by)
qed

theorem current_coverage_is_latest_witness:
  "sorted_wrt (\<lambda>a b. compareCoverage (sample_env\<lparr>collate := \<lambda>_ _. 0\<rparr>) a b \<le> 0) (currentCoverageEntries (sample_env\<lparr>collate := \<lambda>_ _. 0\<rparr>) sample_inspected)"
proof -
  have "preorder_by (compareCoverage (sample_env\<lparr>collate := \<lambda>_ _. 0\<rparr>))"
    by (simp add: preorder_by_def compareCoverage_def or_else_def)
  then show ?thesis using current_coverage_is_latest by blast
qed

end
