(* ===== verification/Packet.thy ===== *)
theory Packet
  imports Coverage_Ledger
begin

text \<open>
  The packet frozen from a completed investigation for drafting (\<open>packages/domain/src/inspection/packet.ts\<close>, \<open>types.ts\<close>):
  the selected evidence, the measurements and observations, the coverage and limitations in force, the transcript spans,
  contradictions and feedback that were checked against them, and the hash of it all.
\<close>

section \<open>Types\<close>

record transcript_span =
  ts_correctedText :: string
  ts_byProvider :: bool
  ts_endMilliseconds :: int
  ts_spanId :: string
  ts_startMilliseconds :: int
  ts_voiceArtifactId :: string

record contradiction =
  cn_contradictionId :: string
  cn_description :: string
  cn_resolution :: "string option"
  cn_sourceArtifactIds :: "string list"
  cn_resolved :: bool

record inspector_feedback =
  fb_feedbackId :: string
  fb_modules :: "module_type list"
  fb_text :: string

record module_schema = module_reference +
  sc_schemaVersion :: string

record version_pins =
  pn_model :: string
  pn_promptVersion :: string
  pn_skillVersions :: "string list"

record packet =
  pk_packetId :: string
  pk_packetRevision :: int
  pk_organizationId :: string
  pk_jobId :: string
  pk_investigationId :: string
  pk_investigationRevision :: int
  pk_modules :: "module_reference list"
  pk_moduleSchemas :: "module_schema list"
  pk_versionPins :: version_pins
  pk_areaHistory :: "area_visit list"
  pk_evidence :: "linked_evidence list"
  pk_measurements :: "measurement list"
  pk_observations :: "observation list"
  pk_transcriptSpans :: "transcript_span list"
  pk_contradictions :: "contradiction list"
  pk_priorInspectorFeedback :: "inspector_feedback list"
  pk_coverage :: "area_coverage list"
  pk_limitations :: "coverage_limitation list"
  pk_unknowns :: "string list"
  pk_createdAt :: string

record hashed_packet = packet +
  pk_canonicalHash :: string

record packet_input =
  pi_packetId :: string
  pi_packetRevision :: js_number
  pi_investigation :: investigation
  pi_coverageLedger :: coverage_ledger
  pi_selectedArtifactIds :: "string list"
  pi_transcriptSpans :: "transcript_span list option"
  pi_contradictions :: "contradiction list option"
  pi_priorInspectorFeedback :: "inspector_feedback list option"
  pi_moduleSchemas :: "module_schema list"
  pi_versionPins :: version_pins
  pi_unknowns :: "string list"
  pi_createdAt :: string

section \<open>Encoding\<close>

definition module_reference_fields :: "'a module_reference_scheme \<Rightarrow> (string \<times> json) list" where
  "module_reference_fields r = [(''module'', JStr (module_text (mr_module r))), (''moduleId'', JStr (mr_moduleId r))]"

definition module_schema_json :: "module_schema \<Rightarrow> json" where
  "module_schema_json r = JObj (module_reference_fields r @ [(''schemaVersion'', JStr (sc_schemaVersion r))])"

definition version_pins_json :: "version_pins \<Rightarrow> json" where
  "version_pins_json p = JObj [(''model'', JStr (pn_model p)), (''promptVersion'', JStr (pn_promptVersion p)),
     (''skillVersions'', JArr (map JStr (pn_skillVersions p)))]"

definition area_visit_json :: "area_visit \<Rightarrow> json" where
  "area_visit_json v = JObj [(''areaId'', JStr (vi_areaId v)), (''enteredAt'', JStr (vi_enteredAt v)), (''ordinal'', JNum (vi_ordinal v))]"

fun artifact_kind_text :: "artifact_kind \<Rightarrow> string" where
  "artifact_kind_text ManualNote = ''manual_note''"
| "artifact_kind_text Photo = ''photo''"
| "artifact_kind_text VoiceNote = ''voice_note''"

definition assignment_json :: "area_assignment \<Rightarrow> json" where
  "assignment_json a = JObj [(''areaId'', JStr (aa_areaId a)), (''assignedAt'', JStr (aa_assignedAt a)),
     (''assignedByInspectorId'', JStr (aa_assignedByInspectorId a)),
     (''reason'', JStr (if aa_reason a = CaptureContext then ''capture_context'' else ''inspector_correction''))]"

definition linked_evidence_json :: "linked_evidence \<Rightarrow> json" where
  "linked_evidence_json e = JObj [(''artifactId'', JStr (le_artifactId e)), (''artifactKind'', JStr (artifact_kind_text (le_artifactKind e))),
     (''captureAreaId'', JStr (le_captureAreaId e)), (''capturedAt'', JStr (le_capturedAt e)), (''captureSequence'', JNum (le_captureSequence e)),
     (''currentAreaId'', JStr (le_currentAreaId e)), (''areaAssignmentHistory'', JArr (map assignment_json (le_areaAssignmentHistory e))),
     (''attachedAt'', JStr (le_attachedAt e)), (''attachedByInspectorId'', JStr (le_attachedByInspectorId e)),
     (''linkOrdinal'', JNum (le_linkOrdinal e)),
     (''source'', JStr (if le_source e = AttachedRecent then ''attached_recent'' else ''captured_during_investigation''))]"

fun measured_json :: "measured \<Rightarrow> json" where
  "measured_json (Finite t) = JReal t"
| "measured_json NotFinite = JNonFinite"

fun measurement_kind_text :: "measurement_kind \<Rightarrow> string" where
  "measurement_kind_text CrackWidth = ''crack_width''"
| "measurement_kind_text LengthKind = ''length''"
| "measurement_kind_text LevelVariation = ''level_variation''"
| "measurement_kind_text MoistureReading = ''moisture_reading''"
| "measurement_kind_text OtherKind = ''other''"

fun measurement_unit_text :: "measurement_unit \<Rightarrow> string" where
  "measurement_unit_text Millimetres = ''millimetres''"
| "measurement_unit_text Percent = ''percent''"
| "measurement_unit_text RelativeScale = ''relative_scale''"
| "measurement_unit_text Metres = ''metres''"
| "measurement_unit_text OtherUnit = ''other''"

definition measurement_json :: "measurement \<Rightarrow> json" where
  "measurement_json m = JObj [(''areaId'', JStr (me_areaId m)), (''measuredAt'', JStr (me_measuredAt m)),
     (''measuredByInspectorId'', JStr (me_measuredByInspectorId m)), (''measurementId'', JStr (me_measurementId m)),
     (''kind'', JStr (measurement_kind_text (me_kind m))), (''value'', measured_json (me_value m)),
     (''unit'', JStr (measurement_unit_text (me_unit m))), (''note'', json_opt JStr (me_note m))]"

definition observation_json :: "observation \<Rightarrow> json" where
  "observation_json b = JObj [(''areaId'', JStr (bs_areaId b)), (''observationId'', JStr (bs_observationId b)),
     (''recordedAt'', JStr (bs_recordedAt b)), (''recordedByInspectorId'', JStr (bs_recordedByInspectorId b)), (''text'', JStr (bs_text b))]"

definition transcript_span_json :: "transcript_span \<Rightarrow> json" where
  "transcript_span_json t = JObj [(''correctedText'', JStr (ts_correctedText t)),
     (''correctionOrigin'', JStr (if ts_byProvider t then ''transcription_provider'' else ''inspector'')),
     (''endMilliseconds'', JNum (ts_endMilliseconds t)), (''spanId'', JStr (ts_spanId t)),
     (''startMilliseconds'', JNum (ts_startMilliseconds t)), (''voiceArtifactId'', JStr (ts_voiceArtifactId t))]"

definition contradiction_json :: "contradiction \<Rightarrow> json" where
  "contradiction_json x = JObj [(''contradictionId'', JStr (cn_contradictionId x)), (''description'', JStr (cn_description x)),
     (''resolution'', json_opt JStr (cn_resolution x)), (''sourceArtifactIds'', JArr (map JStr (cn_sourceArtifactIds x))),
     (''status'', JStr (if cn_resolved x then ''resolved'' else ''unresolved''))]"

definition feedback_json :: "inspector_feedback \<Rightarrow> json" where
  "feedback_json f = JObj [(''feedbackId'', JStr (fb_feedbackId f)), (''modules'', JArr (map (\<lambda>m. JStr (module_text m)) (fb_modules f))),
     (''text'', JStr (fb_text f))]"

fun area_coverage_state_text :: "area_coverage_state \<Rightarrow> string" where
  "area_coverage_state_text AccessLimited = ''access_limited''"
| "area_coverage_state_text Inaccessible = ''inaccessible''"
| "area_coverage_state_text Inspected = ''inspected''"
| "area_coverage_state_text NotApplicable = ''not_applicable''"
| "area_coverage_state_text Revisit = ''revisit''"

definition area_coverage_json :: "area_coverage \<Rightarrow> json" where
  "area_coverage_json e = JObj [(''areaId'', JStr (cv_areaId e)), (''coverageEntryId'', JStr (cv_coverageEntryId e)),
     (''module'', JStr (module_text (cv_module e))), (''moduleId'', JStr (cv_moduleId e)),
     (''state'', JStr (area_coverage_state_text (cv_state e))), (''detail'', json_opt JStr (cv_detail e)),
     (''recordedAt'', JStr (cv_recordedAt e)), (''recordedByInspectorId'', JStr (cv_recordedByInspectorId e)),
     (''revision'', JNum (cv_revision e))]"

definition coverage_limitation_json :: "coverage_limitation \<Rightarrow> json" where
  "coverage_limitation_json x = JObj [(''areaId'', JStr (cl_areaId x)), (''limitationId'', JStr (cl_limitationId x)),
     (''module'', JStr (module_text (cl_module x))), (''moduleId'', JStr (cl_moduleId x)), (''description'', JStr (cl_description x)),
     (''material'', JBool (cl_material x)), (''recordedAt'', JStr (cl_recordedAt x)),
     (''status'', JStr (if cl_status x = LimitationActive then ''active'' else ''superseded'')),
     (''supersededAt'', json_opt JStr (cl_supersededAt x))]"

definition packet_json :: "'a packet_scheme \<Rightarrow> json" where
  "packet_json p = JObj [(''schemaVersion'', JNum 1), (''packetId'', JStr (pk_packetId p)), (''packetRevision'', JNum (pk_packetRevision p)),
     (''organizationId'', JStr (pk_organizationId p)), (''jobId'', JStr (pk_jobId p)), (''investigationId'', JStr (pk_investigationId p)),
     (''investigationRevision'', JNum (pk_investigationRevision p)),
     (''modules'', JArr (map (\<lambda>r. JObj (module_reference_fields r)) (pk_modules p))),
     (''moduleSchemas'', JArr (map module_schema_json (pk_moduleSchemas p))), (''versionPins'', version_pins_json (pk_versionPins p)),
     (''areaHistory'', JArr (map area_visit_json (pk_areaHistory p))), (''evidence'', JArr (map linked_evidence_json (pk_evidence p))),
     (''measurements'', JArr (map measurement_json (pk_measurements p))), (''observations'', JArr (map observation_json (pk_observations p))),
     (''transcriptSpans'', JArr (map transcript_span_json (pk_transcriptSpans p))),
     (''contradictions'', JArr (map contradiction_json (pk_contradictions p))),
     (''priorInspectorFeedback'', JArr (map feedback_json (pk_priorInspectorFeedback p))),
     (''coverage'', JArr (map area_coverage_json (pk_coverage p))), (''limitations'', JArr (map coverage_limitation_json (pk_limitations p))),
     (''unknowns'', JArr (map JStr (pk_unknowns p))), (''createdAt'', JStr (pk_createdAt p))]"

section \<open>Context checks\<close>

definition assertNonBlank :: "string \<Rightarrow> domain_error + unit" where
  "assertNonBlank v = ensure (js_trim v \<noteq> []) (conflict ''blank_packet_context'') (Inr ())"

fun skill_checks :: "string list \<Rightarrow> domain_error + unit" where
  "skill_checks [] = Inr ()"
| "skill_checks (v # vs) = bind_result (assertNonBlank v) (\<lambda>_. skill_checks vs)"

definition module_key :: "'a module_reference_scheme \<Rightarrow> string" where
  "module_key r = module_text (mr_module r) @ '':'' @ mr_moduleId r"

text \<open>The keys seen, in reverse.\<close>

fun schema_checks :: "string list \<Rightarrow> string list \<Rightarrow> module_schema list \<Rightarrow> domain_error + string list" where
  "schema_checks keys seen [] = Inr seen"
| "schema_checks keys seen (c # cs) = bind_result (assertNonBlank (sc_schemaVersion c)) (\<lambda>_.
     ensure (module_key c \<in> set keys \<and> module_key c \<notin> set seen) (conflict ''packet_module_schema_mismatch'')
       (schema_checks keys (module_key c # seen) cs))"

fun span_checks :: "string list \<Rightarrow> string list \<Rightarrow> transcript_span list \<Rightarrow> domain_error + unit" where
  "span_checks selected seen [] = Inr ()"
| "span_checks selected seen (t # ts) =
     ensure (ts_spanId t \<notin> set seen \<and> ts_voiceArtifactId t \<in> set selected \<and> 0 \<le> ts_startMilliseconds t
         \<and> ts_startMilliseconds t < ts_endMilliseconds t) (conflict ''invalid_packet_transcript_span'') (
     bind_result (assertNonBlank (ts_correctedText t)) (\<lambda>_. span_checks selected (ts_spanId t # seen) ts))"

definition resolution_consistent :: "contradiction \<Rightarrow> bool" where
  "resolution_consistent x \<longleftrightarrow> (if cn_resolved x then (case cn_resolution x of None \<Rightarrow> False | Some r \<Rightarrow> js_trim r \<noteq> [])
     else cn_resolution x = None)"

fun contradiction_checks :: "string list \<Rightarrow> string list \<Rightarrow> contradiction list \<Rightarrow> domain_error + unit" where
  "contradiction_checks selected seen [] = Inr ()"
| "contradiction_checks selected seen (x # xs) =
     ensure (cn_contradictionId x \<notin> set seen \<and> cn_sourceArtifactIds x \<noteq> [] \<and> list_all (\<lambda>a. a \<in> set selected) (cn_sourceArtifactIds x)
         \<and> resolution_consistent x) (conflict ''invalid_packet_contradiction'') (
     bind_result (assertNonBlank (cn_description x)) (\<lambda>_. contradiction_checks selected (cn_contradictionId x # seen) xs))"

fun feedback_checks :: "module_type list \<Rightarrow> string list \<Rightarrow> inspector_feedback list \<Rightarrow> domain_error + unit" where
  "feedback_checks types seen [] = Inr ()"
| "feedback_checks types seen (f # fs) =
     ensure (fb_feedbackId f \<notin> set seen \<and> fb_modules f \<noteq> [] \<and> list_all (\<lambda>m. m \<in> set types) (fb_modules f))
       (conflict ''invalid_packet_feedback'') (
     bind_result (assertNonBlank (fb_text f)) (\<lambda>_. feedback_checks types (fb_feedbackId f # seen) fs))"

definition validatePacketContext ::
  "string list \<Rightarrow> module_reference list \<Rightarrow> module_schema list \<Rightarrow> transcript_span list \<Rightarrow> contradiction list
    \<Rightarrow> inspector_feedback list \<Rightarrow> version_pins \<Rightarrow> domain_error + unit" where
  "validatePacketContext selected modules schemas spans contradictions feedback pins =
     bind_result (assertNonBlank (pn_model pins)) (\<lambda>_.
     bind_result (assertNonBlank (pn_promptVersion pins)) (\<lambda>_.
     bind_result (skill_checks (pn_skillVersions pins)) (\<lambda>_.
     let moduleKeys = js_unique (map module_key modules) in
     bind_result (schema_checks moduleKeys [] schemas) (\<lambda>schemaKeys.
     ensure (length schemaKeys = length moduleKeys) (conflict ''packet_module_schema_missing'') (
     bind_result (span_checks selected [] spans) (\<lambda>_.
     bind_result (contradiction_checks selected [] contradictions) (\<lambda>_.
     feedback_checks (js_unique (map mr_module modules)) [] feedback)))))))"

section \<open>Freezing\<close>

definition completed :: "investigation \<Rightarrow> bool" where
  "completed s \<longleftrightarrow> take 10 (investigation_status_text (ig_status s)) = ''completed_''"

definition packet_modules :: "investigation \<Rightarrow> module_reference list" where
  "packet_modules s = (case ig_completion s of
     Some c \<Rightarrow> if co_outcome c = FindingCandidates
       then map (\<lambda>l. \<lparr>mr_module = ml2_module l, mr_moduleId = ml2_moduleId l\<rparr>) (co_moduleLinks c) else ig_commissionedModules s
   | None \<Rightarrow> ig_commissionedModules s)"

definition or_none :: "'a list option \<Rightarrow> 'a list" where
  "or_none v = (case v of None \<Rightarrow> [] | Some xs \<Rightarrow> xs)"

definition packet_content :: "env \<Rightarrow> packet_input \<Rightarrow> linked_evidence list \<Rightarrow> packet" where
  "packet_content E i evidence = (let s = pi_investigation i; l = pi_coverageLedger i in
     \<lparr>pk_packetId = pi_packetId i, pk_packetRevision = whole_value (pi_packetRevision i), pk_organizationId = ig_organizationId s,
      pk_jobId = ig_jobId s, pk_investigationId = ig_investigationId s, pk_investigationRevision = ig_revision s,
      pk_modules = packet_modules s, pk_moduleSchemas = pi_moduleSchemas i, pk_versionPins = pi_versionPins i,
      pk_areaHistory = ig_areaVisits s, pk_evidence = evidence, pk_measurements = ig_measurements s, pk_observations = ig_observations s,
      pk_transcriptSpans = or_none (pi_transcriptSpans i), pk_contradictions = or_none (pi_contradictions i),
      pk_priorInspectorFeedback = or_none (pi_priorInspectorFeedback i), pk_coverage = currentCoverageEntries E l,
      pk_limitations = filter (\<lambda>x. cl_status x = LimitationActive) (cg_limitations l),
      pk_unknowns = filter (\<lambda>u. u \<noteq> []) (map js_trim (pi_unknowns i)), pk_createdAt = pi_createdAt i\<rparr>)"

definition createInvestigationPacket :: "env \<Rightarrow> packet_input \<Rightarrow> domain_error + hashed_packet" where
  "createInvestigationPacket E i = (let s = pi_investigation i; l = pi_coverageLedger i; selected = js_unique (pi_selectedArtifactIds i) in
     ensure (completed s) (conflict ''investigation_not_complete'') (
     ensure (ig_organizationId s = cg_organizationId l \<and> ig_jobId s = cg_jobId l) (conflict ''coverage_investigation_mismatch'') (
     ensure (is_integer (pi_packetRevision i) \<and> 1 \<le> whole_value (pi_packetRevision i)) (conflict ''invalid_packet_revision'') (
     ensure (length selected = length (pi_selectedArtifactIds i)) (conflict ''duplicate_packet_evidence'') (
     let evidence = filter (\<lambda>e. le_artifactId e \<in> set selected) (orderedInvestigationEvidence E s) in
     ensure (length evidence = length selected) (conflict ''packet_evidence_not_attached'') (
     bind_result (validatePacketContext selected (packet_modules s) (pi_moduleSchemas i) (or_none (pi_transcriptSpans i))
       (or_none (pi_contradictions i)) (or_none (pi_priorInspectorFeedback i)) (pi_versionPins i)) (\<lambda>_.
     (case sha256 E (packet_json (packet_content E i evidence)) of
        Inl e \<Rightarrow> Inl HashError
      | Inr h \<Rightarrow> Inr (packet.extend (packet_content E i evidence) (hashed_packet.fields h))))))))))"

section \<open>A packet can be hashed\<close>

text \<open>A value without \<open>undefined\<close> and non-finite numbers has a canonical form.\<close>

fun json_defined :: "json \<Rightarrow> bool" where
  "json_defined (JArr vs) \<longleftrightarrow> list_all json_defined vs"
| "json_defined (JObj fs) \<longleftrightarrow> list_all (\<lambda>(k, v). json_defined v) fs"
| "json_defined JNonFinite \<longleftrightarrow> False"
| "json_defined JUndefined \<longleftrightarrow> False"
| "json_defined _ \<longleftrightarrow> True"

lemma traverse_defined: "(\<And>x. x \<in> set xs \<Longrightarrow> f x \<noteq> None) \<Longrightarrow> traverse f xs \<noteq> None"
  by (induction xs) (auto split: option.splits)

lemma normalize_defined: "json_defined v \<Longrightarrow> normalize v \<noteq> None"
proof (induction v rule: normalize.induct)
  case (1 vs)
  then have "traverse normalize vs \<noteq> None" by (intro traverse_defined) (auto simp: list_all_iff)
  then show ?case by auto
next
  case (2 fs)
  have "traverse (\<lambda>(k, v). with_key k (normalize v)) (sort_key fst fs) \<noteq> None"
  proof (rule traverse_defined)
    fix x assume fs: "x \<in> set (sort_key fst fs)"
    then have "x \<in> set fs" by simp
    moreover obtain k v where x: "x = (k, v)" by (metis surj_pair)
    ultimately have "json_defined v" using "2.prems" by (auto simp: list_all_iff)
    then have "normalize v \<noteq> None" by (rule "2.IH"[OF fs x[symmetric]])
    then show "(case x of (k, v) \<Rightarrow> with_key k (normalize v)) \<noteq> None" by (simp add: x with_key_def)
  qed
  then show ?case by auto
qed simp_all

lemma json_defined_opt [simp]: "json_defined (json_opt JStr v)"
  by (cases v) (simp_all add: json_opt_def)

lemma packet_json_defined:
  assumes "\<forall>m \<in> set (pk_measurements p). me_value m \<noteq> NotFinite"
  shows "json_defined (packet_json p)"
proof -
  have "json_defined (measurement_json m)" if "me_value m \<noteq> NotFinite" for m
    using that by (cases "me_value m") (simp_all add: measurement_json_def)
  with assms have "list_all json_defined (map measurement_json (pk_measurements p))" by (simp add: list_all_iff)
  moreover have "list_all json_defined (map linked_evidence_json es)" for es
    by (simp add: list_all_iff linked_evidence_json_def assignment_json_def)
  moreover have "list_all json_defined (map module_schema_json cs)" for cs
    by (simp add: list_all_iff module_schema_json_def module_reference_fields_def)
  moreover have "list_all json_defined (map area_visit_json vs)" "list_all json_defined (map observation_json bs)"
    "list_all json_defined (map transcript_span_json ts)" "list_all json_defined (map contradiction_json xs)"
    "list_all json_defined (map feedback_json fs)" "list_all json_defined (map area_coverage_json cs)"
    "list_all json_defined (map coverage_limitation_json ls)" "list_all json_defined (map (\<lambda>r. JObj (module_reference_fields r)) rs)"
    "list_all json_defined (map JStr us)"
    for vs bs ts xs fs cs ls us and rs :: "module_reference list"
    by (simp_all add: list_all_iff area_visit_json_def observation_json_def transcript_span_json_def contradiction_json_def
        feedback_json_def area_coverage_json_def coverage_limitation_json_def module_reference_fields_def)
  ultimately show ?thesis
    by (simp add: packet_json_def version_pins_json_def del: list.pred_map)
qed

lemma packet_hash: "\<forall>m \<in> set (pk_measurements p). me_value m \<noteq> NotFinite \<Longrightarrow> \<exists>h. sha256 E (packet_json p) = Inr h"
  using normalize_defined[OF packet_json_defined[of p]] by (auto simp: sha256_def canonicalJson_def split: option.splits)

section \<open>What the checks establish\<close>

definition spans_ok :: "string list \<Rightarrow> transcript_span list \<Rightarrow> bool" where
  "spans_ok selected ts \<longleftrightarrow> distinct (map ts_spanId ts) \<and> (\<forall>t \<in> set ts. ts_voiceArtifactId t \<in> set selected
     \<and> 0 \<le> ts_startMilliseconds t \<and> ts_startMilliseconds t < ts_endMilliseconds t \<and> js_trim (ts_correctedText t) \<noteq> [])"

definition contradictions_ok :: "string list \<Rightarrow> contradiction list \<Rightarrow> bool" where
  "contradictions_ok selected xs \<longleftrightarrow> distinct (map cn_contradictionId xs) \<and> (\<forall>x \<in> set xs. cn_sourceArtifactIds x \<noteq> []
     \<and> set (cn_sourceArtifactIds x) \<subseteq> set selected \<and> resolution_consistent x \<and> js_trim (cn_description x) \<noteq> [])"

definition feedback_ok :: "module_type set \<Rightarrow> inspector_feedback list \<Rightarrow> bool" where
  "feedback_ok types fs \<longleftrightarrow> distinct (map fb_feedbackId fs) \<and> (\<forall>f \<in> set fs. fb_modules f \<noteq> [] \<and> set (fb_modules f) \<subseteq> types
     \<and> js_trim (fb_text f) \<noteq> [])"

definition pins_ok :: "version_pins \<Rightarrow> bool" where
  "pins_ok p \<longleftrightarrow> js_trim (pn_model p) \<noteq> [] \<and> js_trim (pn_promptVersion p) \<noteq> [] \<and> (\<forall>v \<in> set (pn_skillVersions p). js_trim v \<noteq> [])"

text \<open>The schemas map one to one to the modules.\<close>

definition schemas_ok :: "module_reference list \<Rightarrow> module_schema list \<Rightarrow> bool" where
  "schemas_ok modules cs \<longleftrightarrow> distinct (map module_key cs) \<and> set (map module_key cs) = set (map module_key modules)
     \<and> (\<forall>c \<in> set cs. js_trim (sc_schemaVersion c) \<noteq> [])"

lemma assertNonBlank_Inr [simp]: "assertNonBlank v = Inr u \<longleftrightarrow> js_trim v \<noteq> []"
  by (simp add: assertNonBlank_def)

lemma module_key_inject: "module_key r = module_key q \<longleftrightarrow> mr_module r = mr_module q \<and> mr_moduleId r = mr_moduleId q"
  by (cases "mr_module r"; cases "mr_module q") (auto simp: module_key_def)

lemma skill_checks_Inr: "skill_checks vs = Inr u \<longleftrightarrow> (\<forall>v \<in> set vs. js_trim v \<noteq> [])"
  by (induction vs) auto

lemma span_checks_Inr: "span_checks selected seen ts = Inr u \<longleftrightarrow> spans_ok selected ts \<and> set (map ts_spanId ts) \<inter> set seen = {}"
  by (induction selected seen ts rule: span_checks.induct) (auto simp: spans_ok_def)

lemma contradiction_checks_Inr:
  "contradiction_checks selected seen xs = Inr u \<longleftrightarrow> contradictions_ok selected xs \<and> set (map cn_contradictionId xs) \<inter> set seen = {}"
  by (induction selected seen xs rule: contradiction_checks.induct) (auto simp: contradictions_ok_def list_all_iff)

lemma feedback_checks_Inr:
  "feedback_checks types seen fs = Inr u \<longleftrightarrow> feedback_ok (set types) fs \<and> set (map fb_feedbackId fs) \<inter> set seen = {}"
  by (induction types seen fs rule: feedback_checks.induct) (auto simp: feedback_ok_def list_all_iff)

lemma schema_checks_Inr:
  "schema_checks keys seen cs = Inr ks \<longleftrightarrow> ks = rev (map module_key cs) @ seen \<and> distinct (map module_key cs)
     \<and> set (map module_key cs) \<inter> set seen = {} \<and> set (map module_key cs) \<subseteq> set keys
     \<and> (\<forall>c \<in> set cs. js_trim (sc_schemaVersion c) \<noteq> [])"
  by (induction keys seen cs arbitrary: ks rule: schema_checks.induct) auto

lemma same_size_subset:
  "distinct xs \<Longrightarrow> set xs \<subseteq> set ys \<Longrightarrow> length xs = length (js_unique ys) \<longleftrightarrow> set xs = set ys"
  by (metis card_subset_eq distinct_card distinct_js_unique finite_set set_js_unique)

lemma validatePacketContext_Inr:
  "validatePacketContext selected ms cs ts xs fs p = Inr u \<longleftrightarrow> pins_ok p \<and> schemas_ok ms cs \<and> spans_ok selected ts
     \<and> contradictions_ok selected xs \<and> feedback_ok (mr_module ` set ms) fs"
proof -
  have "(distinct (map module_key cs) \<and> set (map module_key cs) \<subseteq> set (map module_key ms) \<and> length cs = length (js_unique (map module_key ms)))
     \<longleftrightarrow> distinct (map module_key cs) \<and> set (map module_key cs) = set (map module_key ms)"
    using same_size_subset[of "map module_key cs" "map module_key ms"] by auto
  then show ?thesis
    unfolding validatePacketContext_def Let_def pins_ok_def schemas_ok_def
    by (auto simp: skill_checks_Inr schema_checks_Inr span_checks_Inr contradiction_checks_Inr feedback_checks_Inr)
qed

section \<open>The selected evidence\<close>

definition selected_evidence :: "env \<Rightarrow> packet_input \<Rightarrow> linked_evidence list" where
  "selected_evidence E i = filter (\<lambda>e. le_artifactId e \<in> set (pi_selectedArtifactIds i)) (orderedInvestigationEvidence E (pi_investigation i))"

lemma completed_iff: "closure_ok s \<Longrightarrow> completed s \<longleftrightarrow> ig_completion s \<noteq> None"
  by (auto simp: closure_ok_def completed_def split: option.splits closure_outcome.splits)

lemma js_unique_length: "length (js_unique xs) = length xs \<longleftrightarrow> distinct xs"
  by (metis card_distinct distinct_card distinct_js_unique js_unique_distinct set_js_unique)

lemma selected_evidence_length:
  assumes "distinct (map le_artifactId (ig_evidence (pi_investigation i)))" and "distinct (pi_selectedArtifactIds i)"
  shows "length (selected_evidence E i) = length (pi_selectedArtifactIds i)
    \<longleftrightarrow> set (map le_artifactId (selected_evidence E i)) = set (pi_selectedArtifactIds i)"
proof -
  have d: "distinct (map le_artifactId (selected_evidence E i))"
    using assms(1) unfolding selected_evidence_def orderedInvestigationEvidence_def by (intro distinct_map_filter) simp
  have "set (map le_artifactId (selected_evidence E i)) \<subseteq> set (pi_selectedArtifactIds i)"
    by (auto simp: selected_evidence_def)
  then show ?thesis
    by (metis d assms(2) List.finite_set card_subset_eq distinct_card length_map)
qed

lemma selected_evidence_all:
  "set (map le_artifactId (selected_evidence E i)) = set (pi_selectedArtifactIds i)
    \<longleftrightarrow> set (pi_selectedArtifactIds i) \<subseteq> set (map le_artifactId (ig_evidence (pi_investigation i)))"
  by (auto simp: selected_evidence_def orderedInvestigationEvidence_def)

text \<open>The conditions under which a packet is made.\<close>

definition packet_allowed :: "packet_input \<Rightarrow> bool" where
  "packet_allowed i \<longleftrightarrow> completed (pi_investigation i)
     \<and> ig_organizationId (pi_investigation i) = cg_organizationId (pi_coverageLedger i) \<and> ig_jobId (pi_investigation i) = cg_jobId (pi_coverageLedger i)
     \<and> is_integer (pi_packetRevision i) \<and> 1 \<le> whole_value (pi_packetRevision i) \<and> distinct (pi_selectedArtifactIds i)
     \<and> set (pi_selectedArtifactIds i) \<subseteq> set (map le_artifactId (ig_evidence (pi_investigation i)))
     \<and> pins_ok (pi_versionPins i) \<and> schemas_ok (packet_modules (pi_investigation i)) (pi_moduleSchemas i)
     \<and> spans_ok (pi_selectedArtifactIds i) (or_none (pi_transcriptSpans i)) \<and> contradictions_ok (pi_selectedArtifactIds i) (or_none (pi_contradictions i))
     \<and> feedback_ok (mr_module ` set (packet_modules (pi_investigation i))) (or_none (pi_priorInspectorFeedback i))"

text \<open>What the caller states of its transcripts: a span of attached evidence is a span of a voice note.\<close>

definition spans_name_voice :: "packet_input \<Rightarrow> bool" where
  "spans_name_voice i \<longleftrightarrow> (\<forall>t \<in> set (or_none (pi_transcriptSpans i)). \<forall>e \<in> set (ig_evidence (pi_investigation i)).
     le_artifactId e = ts_voiceArtifactId t \<longrightarrow> le_artifactKind e = VoiceNote)"

lemma createInvestigationPacket_Inr:
  assumes "records_ok (pi_investigation i)"
  shows "createInvestigationPacket E i = Inr p \<longleftrightarrow> packet_allowed i \<and> (\<exists>h. sha256 E (packet_json (packet_content E i (selected_evidence E i))) = Inr h
     \<and> p = packet.extend (packet_content E i (selected_evidence E i)) (hashed_packet.fields h))"
proof (cases "distinct (pi_selectedArtifactIds i)")
  case True
  have d: "distinct (map le_artifactId (ig_evidence (pi_investigation i)))" using assms by (simp add: records_ok_def)
  have l: "length (selected_evidence E i) = length (pi_selectedArtifactIds i)
    \<longleftrightarrow> set (pi_selectedArtifactIds i) \<subseteq> set (map le_artifactId (ig_evidence (pi_investigation i)))"
    using selected_evidence_length[OF d True] selected_evidence_all by blast
  show ?thesis using True l
    unfolding createInvestigationPacket_def Let_def packet_allowed_def js_unique_distinct[OF True] selected_evidence_def[symmetric]
    by (auto simp: validatePacketContext_Inr split: sum.splits)
next
  case False
  then show ?thesis by (auto simp: createInvestigationPacket_def Let_def packet_allowed_def js_unique_length)
qed

lemma active_limitations_filter:
  "filter (\<lambda>x. cl_areaId x = a \<and> cl_moduleId x = m) (filter (\<lambda>x. cl_status x = LimitationActive) xs) = filter (active_for a m) xs"
  by (induction xs) (auto simp: active_for_def)

lemma packet_json_extend: "packet_json (packet.extend c (hashed_packet.fields h)) = packet_json c"
  by (simp add: packet_json_def packet.defs)

lemma packet_content_hash:
  "records_ok (pi_investigation i) \<Longrightarrow> \<exists>h. sha256 E (packet_json (packet_content E i es)) = Inr h"
  by (rule packet_hash) (simp add: packet_content_def Let_def records_ok_def)

section \<open>Packets for the witnesses\<close>

definition sample_span :: transcript_span where
  "sample_span = \<lparr>ts_correctedText = ''cracked tile'', ts_byProvider = False, ts_endMilliseconds = 900, ts_spanId = ''s1'',
     ts_startMilliseconds = 100, ts_voiceArtifactId = ''a1''\<rparr>"

text \<open>An investigation whose artifact \<open>a1\<close> is a voice note; in \<open>sample_finished\<close> it is a photo.\<close>

definition sample_voice_commands :: "investigation_command list" where
  "sample_voice_commands = [AttachEvidence 0 [sample_photo ''a2'' ''roof'' 2,
       (sample_photo ''a1'' ''roof'' 1)\<lparr>ei_artifactKind := VoiceNote\<rparr>] ''09:02'' ''p1'' CapturedDuring,
     Finish 1 sample_closure]"

definition sample_voiced :: investigation where
  "sample_voiced = projr (investigate_all sample_env sample_started sample_voice_commands)"

lemma sample_voiced_reached: "investigated sample_env sample_voiced"
proof -
  have "investigate_all sample_env sample_started sample_voice_commands = Inr sample_voiced"
    unfolding sample_voiced_def by (rule projr_eqI) code_simp
  from investigate_all_reaches[OF this sample_started_reached] show ?thesis by blast
qed

definition sample_packet_input :: "investigation \<Rightarrow> packet_input" where
  "sample_packet_input s = \<lparr>pi_packetId = ''k1'', pi_packetRevision = Whole 1, pi_investigation = s,
     pi_coverageLedger = sample_limited, pi_selectedArtifactIds = [''a1''], pi_transcriptSpans = Some [sample_span],
     pi_contradictions = None, pi_priorInspectorFeedback = None,
     pi_moduleSchemas = [\<lparr>mr_module = Building, mr_moduleId = ''b1'', sc_schemaVersion = ''1''\<rparr>],
     pi_versionPins = \<lparr>pn_model = ''m'', pn_promptVersion = ''p'', pn_skillVersions = []\<rparr>, pi_unknowns = ['' ''], pi_createdAt = ''10:00''\<rparr>"

lemma sample_packet_allowedI:
  assumes "completed s" and "ig_organizationId s = cg_organizationId sample_limited" and "ig_jobId s = cg_jobId sample_limited"
    and "map le_artifactId (ig_evidence s) = [''a1'', ''a2'']"
    and "schemas_ok (packet_modules s) [\<lparr>mr_module = Building, mr_moduleId = ''b1'', sc_schemaVersion = ''1''\<rparr>]"
  shows "packet_allowed (sample_packet_input s)"
  using assms by (simp add: packet_allowed_def sample_packet_input_def sample_span_def pins_ok_def spans_ok_def
      contradictions_ok_def feedback_ok_def or_none_def js_trim_def js_space_def)

lemma sample_packet_allowed: "packet_allowed (sample_packet_input sample_voiced)" "packet_allowed (sample_packet_input sample_finished)"
  by (rule sample_packet_allowedI; code_simp)+

lemma sample_spans_name_voice: "spans_name_voice (sample_packet_input sample_voiced)"
proof -
  have "\<forall>e \<in> set (ig_evidence sample_voiced). le_artifactId e = ''a1'' \<longrightarrow> le_artifactKind e = VoiceNote" by code_simp
  then show ?thesis by (simp add: spans_name_voice_def sample_packet_input_def or_none_def sample_span_def)
qed

section \<open>Properties\<close>

text \<open>C29: for a reachable investigation, and transcript spans that name no attached photo or manual note, a packet is
  made exactly when the stated conditions hold, which never fails on hashing; and the packet holds the selected evidence
  and nothing else, each artifact once, its schemas map one to one to the modules of the closure, its spans are distinct,
  bounded and name voice notes among the selected evidence, its contradictions refer to selected evidence, its limitations are those the
  latest coverage entries call for, and its hash is the hash of its content.\<close>

theorem packet_freezes_selected_evidence:
  assumes "investigated E (pi_investigation i)" and "ledger_reachable (pi_coverageLedger i)" and "spans_name_voice i"
  shows "case createInvestigationPacket E i of
      Inl e \<Rightarrow> \<not> packet_allowed i
    | Inr p \<Rightarrow> packet_allowed i \<and> set (map le_artifactId (pk_evidence p)) = set (pi_selectedArtifactIds i)
        \<and> distinct (map le_artifactId (pk_evidence p)) \<and> set (pk_evidence p) \<subseteq> set (ig_evidence (pi_investigation i))
        \<and> pk_investigationRevision p = ig_revision (pi_investigation i) \<and> schemas_ok (packet_modules (pi_investigation i)) (pk_moduleSchemas p)
        \<and> spans_ok (map le_artifactId (pk_evidence p)) (pk_transcriptSpans p) \<and> contradictions_ok (map le_artifactId (pk_evidence p)) (pk_contradictions p)
        \<and> (\<forall>t \<in> set (pk_transcriptSpans p). \<exists>e \<in> set (pk_evidence p). le_artifactId e = ts_voiceArtifactId t \<and> le_artifactKind e = VoiceNote)
        \<and> (\<forall>m a. map (\<lambda>x. (cl_module x, cl_description x, cl_recordedAt x)) (filter (\<lambda>x. cl_areaId x = a \<and> cl_moduleId x = m) (pk_limitations p))
             = limitations_due (latest_entry (pi_coverageLedger i) m a))
        \<and> sha256 E (packet_json p) = Inr (pk_canonicalHash p)"
proof -
  have ok: "records_ok (pi_investigation i)" using investigated_wf[OF assms(1)] by (simp add: investigation_wf_def)
  show ?thesis
  proof (cases "createInvestigationPacket E i")
    case (Inl e)
    then show ?thesis using packet_content_hash[OF ok] createInvestigationPacket_Inr[OF ok, of E] by force
  next
    case (Inr p)
    obtain h where a: "packet_allowed i" and h: "sha256 E (packet_json (packet_content E i (selected_evidence E i))) = Inr h"
      and p: "p = packet.extend (packet_content E i (selected_evidence E i)) (hashed_packet.fields h)"
      using Inr createInvestigationPacket_Inr[OF ok] by blast
    let ?e = "selected_evidence E i"
    have ids: "set (map le_artifactId ?e) = set (pi_selectedArtifactIds i)"
      using a unfolding selected_evidence_all by (simp add: packet_allowed_def)
    have sub: "set ?e \<subseteq> set (ig_evidence (pi_investigation i))"
      by (auto simp: selected_evidence_def orderedInvestigationEvidence_def)
    have "\<exists>e \<in> set ?e. le_artifactId e = ts_voiceArtifactId t \<and> le_artifactKind e = VoiceNote"
      if t: "t \<in> set (or_none (pi_transcriptSpans i))" for t
    proof -
      have "ts_voiceArtifactId t \<in> set (map le_artifactId ?e)"
        using a t unfolding ids by (simp add: packet_allowed_def spans_ok_def)
      then show ?thesis using assms(3) t sub by (fastforce simp: spans_name_voice_def)
    qed
    moreover have "distinct (map le_artifactId ?e)"
      using ok unfolding selected_evidence_def orderedInvestigationEvidence_def records_ok_def
      by (intro distinct_map_filter) simp
    moreover have "map (\<lambda>x. (cl_module x, cl_description x, cl_recordedAt x)) (filter (\<lambda>x. cl_areaId x = r \<and> cl_moduleId x = m) (pk_limitations p))
             = limitations_due (latest_entry (pi_coverageLedger i) m r)" for m r
      using ledger_reachable_wf[OF assms(2)]
      by (simp add: p packet.defs packet_content_def Let_def active_limitations_filter limitations_in_force_def[symmetric] ledger_wf_def
          del: filter_filter)
    moreover have "spans_ok (map le_artifactId ?e) ts = spans_ok (pi_selectedArtifactIds i) ts"
      "contradictions_ok (map le_artifactId ?e) xs = contradictions_ok (pi_selectedArtifactIds i) xs" for ts xs
      using ids by (simp_all add: spans_ok_def contradictions_ok_def)
    moreover have "sha256 E (packet_json p) = Inr (pk_canonicalHash p)"
      using h by (simp add: p packet_json_extend) (simp add: packet.defs hashed_packet.defs)
    ultimately show ?thesis using Inr a ids sub
      by (simp add: packet_allowed_def) (simp add: p packet.defs packet_content_def Let_def)
  qed
qed

theorem packet_freezes_selected_evidence_witness:
  "\<exists>p. createInvestigationPacket sample_env (sample_packet_input sample_voiced) = Inr p \<and> set (map le_artifactId (pk_evidence p)) = {''a1''}
     \<and> (\<forall>t \<in> set (pk_transcriptSpans p). \<exists>e \<in> set (pk_evidence p). le_artifactId e = ts_voiceArtifactId t \<and> le_artifactKind e = VoiceNote)
     \<and> sha256 sample_env (packet_json p) = Inr (pk_canonicalHash p)"
proof -
  have "investigated sample_env (pi_investigation (sample_packet_input sample_voiced))"
    "ledger_reachable (pi_coverageLedger (sample_packet_input sample_voiced))"
    "set (pi_selectedArtifactIds (sample_packet_input sample_voiced)) = {''a1''}"
    using sample_voiced_reached sample_ledger_reachable(1) by (simp_all add: sample_packet_input_def)
  from packet_freezes_selected_evidence[OF this(1,2) sample_spans_name_voice] this(3) show ?thesis
    using sample_packet_allowed(1) by (cases "createInvestigationPacket sample_env (sample_packet_input sample_voiced)") auto
qed

text \<open>The check itself asks only that the artifact is selected: without that condition a span may name a photo.\<close>

lemma span_may_name_a_photo:
  "\<exists>p. createInvestigationPacket sample_env (sample_packet_input sample_finished) = Inr p \<and> pk_transcriptSpans p = [sample_span]
     \<and> (\<forall>e \<in> set (pk_evidence p). le_artifactKind e = Photo)"
proof -
  let ?i = "sample_packet_input sample_finished"
  have ok: "records_ok (pi_investigation ?i)"
    using investigated_wf[OF sample_finished_reached(1)] by (simp add: sample_packet_input_def investigation_wf_def)
  have "\<forall>e \<in> set (ig_evidence sample_finished). le_artifactKind e = Photo" by code_simp
  then have photo: "\<forall>e \<in> set (selected_evidence sample_env ?i). le_artifactKind e = Photo"
    by (simp add: selected_evidence_def orderedInvestigationEvidence_def sample_packet_input_def)
  obtain h where h: "sha256 sample_env (packet_json (packet_content sample_env ?i (selected_evidence sample_env ?i))) = Inr h"
    using packet_content_hash[OF ok] by blast
  let ?p = "packet.extend (packet_content sample_env ?i (selected_evidence sample_env ?i)) (hashed_packet.fields h)"
  have "createInvestigationPacket sample_env ?i = Inr ?p"
    using createInvestigationPacket_Inr[OF ok, of sample_env] h sample_packet_allowed(2) by blast
  moreover have "pk_transcriptSpans ?p = [sample_span]" "pk_evidence ?p = selected_evidence sample_env ?i"
    by (simp_all add: packet.defs packet_content_def Let_def) (simp add: sample_packet_input_def or_none_def)
  ultimately show ?thesis using photo by metis
qed

end
