(* ===== verification/Media.thy ===== *)
theory Media
  imports Prelude "HOL-Library.Word"
begin

text \<open>
  The bytes of captured media (\<open>packages/storage/src/content-pipeline.ts\<close>): recognising a format by its first bytes, refusing
  active content, reading the dimensions of an image, and the canonical image the deterministic decoder re-encodes.
  A byte is an \<open>8 word\<close>; numbers read from several bytes are built with the shifts of the code.  The theory proves that
  no read is out of range without an error and that the canonical image reads back as what was encoded.
\<close>

unbundle bit_operations_syntax

type_synonym bytes = "8 word list"

definition byte_char :: "8 word \<Rightarrow> char" where
  "byte_char b = char_of (unat b)"

definition latin1 :: "bytes \<Rightarrow> string" where
  "latin1 bs = map byte_char bs"

definition char_byte :: "char \<Rightarrow> 8 word" where
  "char_byte c = of_nat (of_char c)"

definition ascii_bytes :: "string \<Rightarrow> bytes" where
  "ascii_bytes s = map char_byte s"

text \<open>\<open>slice(a, b)\<close> of a text, for \<open>0 \<le> a \<le> b\<close>.\<close>

definition js_slice :: "nat \<Rightarrow> nat \<Rightarrow> 'a list \<Rightarrow> 'a list" where
  "js_slice a b xs = take (b - a) (drop a xs)"

section \<open>Formats\<close>

datatype media_type = ImageJpeg | ImageHeic | AudioM4a | AudioWav

fun media_text :: "media_type \<Rightarrow> string" where
  "media_text ImageJpeg = ''image/jpeg''"
| "media_text ImageHeic = ''image/heic''"
| "media_text AudioM4a = ''audio/m4a''"
| "media_text AudioWav = ''audio/wav''"

definition detectMediaType :: "bytes \<Rightarrow> media_type option" where
  "detectMediaType bs =
     (if 3 \<le> length bs \<and> bs ! 0 = 0xFF \<and> bs ! 1 = 0xD8 \<and> bs ! 2 = 0xFF then Some ImageJpeg
      else let ascii = latin1 bs in
        if 12 \<le> length bs \<and> js_slice 0 4 ascii = ''RIFF'' \<and> js_slice 8 12 ascii = ''WAVE'' then Some AudioWav
        else if 12 \<le> length bs \<and> js_slice 4 8 ascii = ''ftyp'' then
          (let brand = js_slice 8 12 ascii in
           if brand \<in> set [''heic'', ''heix'', ''mif1'', ''msf1''] then Some ImageHeic
           else if brand \<in> set [''M4A '', ''mp42'', ''isom''] then Some AudioM4a else None)
        else None)"

text \<open>Lower case of the Latin-1 letters.\<close>

definition js_lower :: "char \<Rightarrow> char" where
  "js_lower c = (let n = of_char c :: nat in
     if 65 \<le> n \<and> n \<le> 90 \<or> 192 \<le> n \<and> n \<le> 222 \<and> n \<noteq> 215 then char_of (n + 32) else c)"

text \<open>\<open>indexOf\<close> and \<open>includes\<close>: the first position where a list occurs in another.\<close>

fun index_of :: "'a list \<Rightarrow> 'a list \<Rightarrow> nat option" where
  "index_of p [] = (if p = [] then Some 0 else None)"
| "index_of p (x # xs) = (if take (length p) (x # xs) = p then Some 0 else map_option Suc (index_of p xs))"

definition js_includes :: "'a list \<Rightarrow> 'a list \<Rightarrow> bool" where
  "js_includes p xs \<longleftrightarrow> index_of p xs \<noteq> None"

definition active_signatures :: "string list" where
  "active_signatures = [''<script'', ''<!doctype html'', ''<html'', ''<?xml'', ''%pdf-'', [CHR ''p'', CHR ''k'', CHR 0x03, CHR 0x04],
     ''javascript:'', ''<svg'']"

definition containsActiveOrPolyglotSignature :: "bytes \<Rightarrow> bool" where
  "containsActiveOrPolyglotSignature bs = (let sample = map js_lower (latin1 bs) in
     list_ex (\<lambda>signature. js_includes signature sample) active_signatures)"

section \<open>Numbers in the bytes\<close>

datatype media_error = OutOfRangeRead | MalformedMarkerStream | MalformedSegment | DimensionsNotDecoded | IspeBoxMissing
  | WavHeaderIncomplete | WavPayloadMalformed | MvhdBoxMissing | M4aVersionUnsupported | M4aDurationInvalid | ArrayTooLong

definition readU16 :: "bytes \<Rightarrow> nat \<Rightarrow> media_error + int" where
  "readU16 bs i = (if i + 1 < length bs
     then Inr (sint (push_bit 8 (ucast (bs ! i)) OR ucast (bs ! (i + 1)) :: 32 word)) else Inl OutOfRangeRead)"

definition readU32 :: "bytes \<Rightarrow> nat \<Rightarrow> media_error + int" where
  "readU32 bs i = (if i + 3 < length bs
     then Inr (uint (push_bit 24 (ucast (bs ! i)) OR push_bit 16 (ucast (bs ! (i + 1))) OR push_bit 8 (ucast (bs ! (i + 2)))
       OR ucast (bs ! (i + 3)) :: 32 word)) else Inl OutOfRangeRead)"

lemma or_push_bit:
  fixes a b :: "'a :: len word"
  assumes "uint a * 2 ^ n + uint b < 2 ^ LENGTH('a)" and "uint b < 2 ^ n"
  shows "uint (push_bit n a OR b) = uint a * 2 ^ n + uint b"
proof -
  have b: "take_bit n (uint b) = uint b" using assms(2) by (simp add: take_bit_int_eq_self)
  have "uint (push_bit n a OR b) = take_bit LENGTH('a) (push_bit n (uint a)) OR uint b"
    by (simp add: unsigned_or_eq unsigned_push_bit_eq)
  also have "\<dots> = push_bit n (uint a) OR uint b"
  proof -
    have "uint a * 2 ^ n < 2 ^ LENGTH('a)" using assms(1) uint_ge_0[of b] by linarith
    then have "take_bit LENGTH('a) (uint a * 2 ^ n) = uint a * 2 ^ n" by (intro take_bit_int_eq_self) simp_all
    then show ?thesis by (simp add: push_bit_eq_mult)
  qed
  also have "\<dots> = concat_bit n (uint b) (uint a)"
    using b by (simp add: concat_bit_def or.commute)
  also have "\<dots> = uint a * 2 ^ n + uint b"
    using b by (simp add: concat_bit_eq push_bit_eq_mult)
  finally show ?thesis .
qed

lemma uint_byte: "uint (ucast (b :: 8 word) :: 32 word) = uint b" "uint (b :: 8 word) < 256"
  using uint_lt2p[of b] by (simp_all add: uint_up_ucast is_up)

lemma small_signed: "0 \<le> v \<Longrightarrow> v < 65536 \<Longrightarrow> signed_take_bit 31 v = (v :: int)"
  by (simp add: signed_take_bit_int_eq_self_iff)

lemma readU16_value: "i + 1 < length bs \<Longrightarrow> readU16 bs i = Inr (uint (bs ! i) * 256 + uint (bs ! (i + 1)))"
proof -
  assume i: "i + 1 < length bs"
  have lt: "uint (bs ! i) * 256 + uint (bs ! (i + 1)) < 65536"
    using uint_byte(2)[of "bs ! i"] uint_byte(2)[of "bs ! (i + 1)"] by linarith
  have "uint (push_bit 8 (ucast (bs ! i)) OR ucast (bs ! (i + 1)) :: 32 word) = uint (bs ! i) * 256 + uint (bs ! (i + 1))"
    using or_push_bit[of "ucast (bs ! i) :: 32 word" 8 "ucast (bs ! (i + 1))"] lt uint_byte(2)[of "bs ! (i + 1)"]
    unfolding uint_byte(1) by simp
  moreover have "signed_take_bit 31 (uint (bs ! i) * 256 + uint (bs ! (i + 1))) = uint (bs ! i) * 256 + uint (bs ! (i + 1))"
    using lt uint_ge_0[of "bs ! i"] uint_ge_0[of "bs ! (i + 1)"] by (intro small_signed) linarith+
  ultimately show ?thesis using i by (simp add: readU16_def sint_uint)
qed

section \<open>Image dimensions\<close>

text \<open>The loop over the JPEG segments: each step moves at least two bytes forward.\<close>

function jpeg_segments :: "bytes \<Rightarrow> nat \<Rightarrow> media_error + int \<times> int" where
  "jpeg_segments bs i =
     (if i + 8 < length bs then
        if bs ! i \<noteq> 0xFF then Inl MalformedMarkerStream
        else if bs ! (i + 1) = 0xD9 \<or> bs ! (i + 1) = 0xDA then Inl DimensionsNotDecoded
        else (case readU16 bs (i + 2) of
            Inl e \<Rightarrow> Inl e
          | Inr n \<Rightarrow>
              if n < 2 \<or> int i + 2 + n > int (length bs) then Inl MalformedSegment
              else if bs ! (i + 1) \<in> set [0xC0, 0xC1, 0xC2] then
                bind_result (readU16 bs (i + 5)) (\<lambda>height. bind_result (readU16 bs (i + 7)) (\<lambda>width. Inr (width, height)))
              else jpeg_segments bs (i + 2 + nat n))
      else Inl DimensionsNotDecoded)"
  by pat_completeness auto
termination
  by (relation "measure (\<lambda>(bs, i). length bs - i)") auto

declare jpeg_segments.simps [simp del]

definition jpegDimensions :: "bytes \<Rightarrow> media_error + int \<times> int" where
  "jpegDimensions bs = jpeg_segments bs 2"

definition heicDimensions :: "bytes \<Rightarrow> media_error + int \<times> int" where
  "heicDimensions bs = (case index_of (ascii_bytes ''ispe'') bs of
     None \<Rightarrow> Inl IspeBoxMissing
   | Some i \<Rightarrow> if i + 16 > length bs then Inl IspeBoxMissing
       else bind_result (readU32 bs (i + 8)) (\<lambda>width. bind_result (readU32 bs (i + 12)) (\<lambda>height. Inr (width, height))))"

text \<open>The unsigned shift and mask of a number into a byte.\<close>

definition byte_of :: "int \<Rightarrow> nat \<Rightarrow> 8 word" where
  "byte_of n k = ucast (drop_bit k (word_of_int n :: 32 word) AND 0xFF)"

definition canonicalJpeg :: "int \<Rightarrow> int \<Rightarrow> bytes" where
  "canonicalJpeg width height = [0xFF, 0xD8, 0xFF, 0xC0, 0x00, 0x0B, 0x08, byte_of height 8, byte_of height 0,
     byte_of width 8, byte_of width 0, 0x01, 0x01, 0xFF, 0xD9]"

lemma uint_byte_of:
  assumes "0 \<le> n" and "n < 2 ^ 32"
  shows "uint (byte_of n k) = n div 2 ^ k mod 256"
proof -
  let ?w = "word_of_int n :: 32 word"
  have t: "take_bit 32 n = n" using assms by (intro take_bit_int_eq_self) simp_all
  have "uint (drop_bit k ?w) = drop_bit k n" by (simp add: unsigned_drop_bit_eq uint_word_of_int_eq t)
  then have "uint (drop_bit k ?w AND 0xFF) = drop_bit k n AND 255" by (simp add: unsigned_and_eq)
  also have "\<dots> = take_bit 8 (drop_bit k n)" by (simp add: take_bit_eq_mask mask_numeral)
  finally have "uint (drop_bit k ?w AND 0xFF) = n div 2 ^ k mod 256" by (simp add: drop_bit_eq_div take_bit_eq_mod)
  then show ?thesis by (simp add: byte_of_def unsigned_ucast_eq take_bit_eq_mod)
qed

lemma bytes_value:
  fixes n :: int
  assumes "0 \<le> n" and "n < 65536"
  shows "uint (byte_of n 8) * 256 + uint (byte_of n 0) = n"
proof -
  have "n div 256 mod 256 = n div 256" using assms by (intro mod_pos_pos_trivial) auto
  then show ?thesis using assms div_mult_mod_eq[of n 256] by (simp add: uint_byte_of)
qed

lemma jpeg_canonical:
  assumes "0 \<le> width" "width < 65536" "0 \<le> height" "height < 65536"
  shows "jpegDimensions (canonicalJpeg width height) = Inr (width, height)"
proof -
  let ?b = "canonicalJpeg width height"
  have "length ?b = 15" by (simp add: canonicalJpeg_def)
  moreover have "readU16 ?b 4 = Inr 11" "readU16 ?b 7 = Inr height" "readU16 ?b 9 = Inr width"
    using readU16_value[of 4 ?b] readU16_value[of 7 ?b] readU16_value[of 9 ?b] bytes_value assms
    by (simp_all add: canonicalJpeg_def)
  moreover have "?b ! 2 = 0xFF" "?b ! 3 = 0xC0" by (simp_all add: canonicalJpeg_def)
  ultimately show ?thesis unfolding jpegDimensions_def by (subst jpeg_segments.simps) simp
qed

section \<open>Durations\<close>

text \<open>
  A quotient of two positive integers as a double, for quotients below \<open>2\<^sup>5\<^sup>3\<close>: the exponent that leaves 53
  significant bits, and the nearest significand, ties to even.  \<open>(m, k)\<close> stands for \<open>m / 2\<^sup>k\<close>.
\<close>

function double_exponent :: "nat \<Rightarrow> nat \<Rightarrow> nat" where
  "double_exponent p q = (if 0 < p \<and> p < 2 ^ 52 * q then Suc (double_exponent (2 * p) q) else 0)"
  by pat_completeness auto
termination
  by (relation "measure (\<lambda>(p, q). 2 ^ 52 * q - p)") auto

declare double_exponent.simps [simp del]

definition nearest_even :: "nat \<Rightarrow> nat \<Rightarrow> nat" where
  "nearest_even p q = (let d = p div q; r = p mod q in
     if 2 * r < q then d else if q < 2 * r then Suc d else if even d then d else Suc d)"

definition double_quotient :: "nat \<Rightarrow> nat \<Rightarrow> nat \<times> nat" where
  "double_quotient p q = (let k = double_exponent p q in (nearest_even (p * 2 ^ k) q, k))"

text \<open>\<open>Math.round((a / b) * 1000)\<close>: two roundings to a double, then the nearest integer, ties upwards.\<close>

definition rounded_ms :: "nat \<Rightarrow> nat \<Rightarrow> nat" where
  "rounded_ms a b = (let (m, k) = double_quotient a b; (n, j) = double_quotient (m * 1000) (2 ^ k)
     in (2 * n + 2 ^ j) div (2 * 2 ^ j))"

definition readU32LE :: "bytes \<Rightarrow> nat \<Rightarrow> media_error + int" where
  "readU32LE bs i = (if i + 3 < length bs
     then Inr (uint (push_bit 24 (ucast (bs ! (i + 3))) OR push_bit 16 (ucast (bs ! (i + 2))) OR push_bit 8 (ucast (bs ! (i + 1)))
       OR ucast (bs ! i) :: 32 word)) else Inl OutOfRangeRead)"

definition wavDuration :: "bytes \<Rightarrow> media_error + int" where
  "wavDuration bs =
     ensure (44 \<le> length bs) WavHeaderIncomplete (
     bind_result (readU32LE bs 28) (\<lambda>byteRate.
     bind_result (readU32LE bs 40) (\<lambda>dataLength.
     ensure (1 \<le> byteRate \<and> 1 \<le> dataLength \<and> 44 + dataLength \<le> int (length bs)) WavPayloadMalformed (
     Inr (max 1 (int (rounded_ms (nat dataLength) (nat byteRate))))))))"

definition m4aDuration :: "bytes \<Rightarrow> media_error + int" where
  "m4aDuration bs = (case index_of (ascii_bytes ''mvhd'') bs of
     None \<Rightarrow> Inl MvhdBoxMissing
   | Some i \<Rightarrow> if i + 24 > length bs then Inl MvhdBoxMissing
       else ensure (bs ! (i + 4) = 0) M4aVersionUnsupported (
         bind_result (readU32 bs (i + 16)) (\<lambda>timescale.
         bind_result (readU32 bs (i + 20)) (\<lambda>duration.
         ensure (1 \<le> timescale \<and> 1 \<le> duration) M4aDurationInvalid (
         Inr (int (rounded_ms (nat duration) (nat timescale))))))))"

definition le32 :: "int \<Rightarrow> bytes" where
  "le32 n = [byte_of n 0, byte_of n 8, byte_of n 16, byte_of n 24]"

definition le16 :: "int \<Rightarrow> bytes" where
  "le16 n = [byte_of n 0, byte_of n 8]"

text \<open>The longest array the engine allocates is \<open>room\<close>.\<close>

definition canonicalWav :: "int \<Rightarrow> int \<Rightarrow> media_error + bytes" where
  "canonicalWav room durationMs = (let dataLength = max 1 durationMs in
     ensure (44 + dataLength \<le> room) ArrayTooLong (
     Inr (ascii_bytes ''RIFF'' @ le32 (36 + dataLength) @ ascii_bytes ''WAVEfmt '' @ le32 16 @ le16 1 @ le16 1 @ le32 1000 @ le32 1000
       @ le16 1 @ le16 8 @ ascii_bytes ''data'' @ le32 dataLength @ replicate (nat dataLength) 0)))"

section \<open>The deterministic decoder\<close>

record decoded_media =
  dc_observedMediaType :: media_type
  dc_width :: "int option"
  dc_height :: "int option"
  dc_durationMs :: "int option"
  dc_proxyMediaType :: media_type
  dc_proxyBytes :: bytes

definition decoded_image :: "media_type \<Rightarrow> int \<times> int \<Rightarrow> decoded_media" where
  "decoded_image t d = \<lparr>dc_observedMediaType = t, dc_width = Some (fst d), dc_height = Some (snd d), dc_durationMs = None,
     dc_proxyMediaType = ImageJpeg, dc_proxyBytes = canonicalJpeg (fst d) (snd d)\<rparr>"

definition decoded_audio :: "media_type \<Rightarrow> int \<Rightarrow> bytes \<Rightarrow> decoded_media" where
  "decoded_audio t ms bs = \<lparr>dc_observedMediaType = t, dc_width = None, dc_height = None, dc_durationMs = Some ms,
     dc_proxyMediaType = AudioWav, dc_proxyBytes = bs\<rparr>"

fun probeAndReencode :: "int \<Rightarrow> bytes \<Rightarrow> media_type \<Rightarrow> media_error + decoded_media" where
  "probeAndReencode room bs ImageJpeg = bind_result (jpegDimensions bs) (\<lambda>d. Inr (decoded_image ImageJpeg d))"
| "probeAndReencode room bs ImageHeic = bind_result (heicDimensions bs) (\<lambda>d. Inr (decoded_image ImageHeic d))"
| "probeAndReencode room bs AudioWav = bind_result (wavDuration bs) (\<lambda>ms. bind_result (canonicalWav room ms) (\<lambda>w. Inr (decoded_audio AudioWav ms w)))"
| "probeAndReencode room bs AudioM4a = bind_result (m4aDuration bs) (\<lambda>ms. bind_result (canonicalWav room ms) (\<lambda>w. Inr (decoded_audio AudioM4a ms w)))"

section \<open>Content policy\<close>

record content_policy =
  cp_maxImageBytes :: int
  cp_maxAudioBytes :: int
  cp_maxImageWidth :: int
  cp_maxImageHeight :: int
  cp_maxImagePixels :: int
  cp_maxAudioDurationMs :: int

definition launchContentPolicy :: content_policy where
  "launchContentPolicy = \<lparr>cp_maxImageBytes = 50 * 1024 * 1024, cp_maxAudioBytes = 250 * 1024 * 1024, cp_maxImageWidth = 20000,
     cp_maxImageHeight = 20000, cp_maxImagePixels = 100000000, cp_maxAudioDurationMs = 2 * 60 * 60 * 1000\<rparr>"

definition is_image :: "media_type \<Rightarrow> bool" where
  "is_image t \<longleftrightarrow> take 6 (media_text t) = ''image/''"

definition exceedsBytePolicy :: "media_type \<Rightarrow> int \<Rightarrow> content_policy \<Rightarrow> bool" where
  "exceedsBytePolicy t byteLength p \<longleftrightarrow> (if is_image t then byteLength > cp_maxImageBytes p else byteLength > cp_maxAudioBytes p)"

definition duration_failure :: "decoded_media \<Rightarrow> content_policy \<Rightarrow> string option" where
  "duration_failure d p = (case dc_durationMs d of
     None \<Rightarrow> None
   | Some ms \<Rightarrow> if ms \<le> 0 \<or> ms > cp_maxAudioDurationMs p then Some ''duration_limit_exceeded'' else None)"

definition dimensionsOrDurationFailure :: "decoded_media \<Rightarrow> content_policy \<Rightarrow> string option" where
  "dimensionsOrDurationFailure d p = (case (dc_width d, dc_height d) of
     (None, None) \<Rightarrow> duration_failure d p
   | (Some w, Some h) \<Rightarrow>
       if w < 1 \<or> h < 1 \<or> w > cp_maxImageWidth p \<or> h > cp_maxImageHeight p \<or> w * h > cp_maxImagePixels p
       then Some ''dimension_limit_exceeded'' else duration_failure d p
   | _ \<Rightarrow> Some ''missing_dimensions'')"

section \<open>Milliseconds are exact\<close>

lemma double_exponent_scales: "0 < p \<Longrightarrow> 0 < q \<Longrightarrow> 2 ^ 52 * q \<le> p * 2 ^ double_exponent p q"
proof (induction p q rule: double_exponent.induct)
  case (1 p q)
  show ?case
  proof (cases "p < 2 ^ 52 * q")
    case True
    with 1 have "2 ^ 52 * q \<le> 2 * p * 2 ^ double_exponent (2 * p) q" by simp
    moreover have "double_exponent p q = Suc (double_exponent (2 * p) q)"
      using True "1.prems" by (subst double_exponent.simps) simp
    ultimately show ?thesis by (simp add: mult.assoc)
  next
    case False
    then have "double_exponent p q = 0" by (subst double_exponent.simps) simp
    with False show ?thesis by simp
  qed
qed

lemma nearest_even_close:
  assumes "0 < q"
  shows "2 * p \<le> 2 * (nearest_even p q * q) + q \<and> 2 * (nearest_even p q * q) \<le> 2 * p + q"
proof -
  define D r where "D = p div q * q" and "r = p mod q"
  have p: "p = D + r" and r: "r < q" using assms by (simp_all add: D_def r_def)
  have "nearest_even p q * q = D \<and> 2 * r \<le> q \<or> nearest_even p q * q = D + q \<and> q \<le> 2 * r"
    by (auto simp: nearest_even_def Let_def D_def r_def)
  then show ?thesis unfolding p using r by (elim disjE conjE) simp_all
qed

lemma scaled_product:
  fixes m n d :: nat and K J :: nat
  assumes 1: "2 * (d * K) \<le> 2 * (m * 1000) + 1000" "2 * (m * 1000) \<le> 2 * (d * K) + 1000"
    and 2: "2 * (m * 1000 * J) \<le> 2 * (n * K) + K" "2 * (n * K) \<le> 2 * (m * 1000 * J) + K"
    and K: "4000 < K" and J: "4 < J"
  shows "2 * n < (2 * d + 1) * J" "2 * d * J < 2 * n + J"
proof -
  have a: "2 * (d * K * J) \<le> 2 * (m * 1000 * J) + 1000 * J" "2 * (m * 1000 * J) \<le> 2 * (d * K * J) + 1000 * J"
    using mult_le_mono1[OF 1(1), of J] mult_le_mono1[OF 1(2), of J] by (simp_all add: algebra_simps)
  have b: "K + 1000 * J < J * K"
  proof -
    have "4 * K \<le> J * K" and "4000 * J \<le> J * K" using J K by (simp_all add: mult.commute[of J])
    then show ?thesis using K by linarith
  qed
  have "2 * (n * K) < (2 * d + 1) * J * K" using a(2) 2(2) b by (simp add: algebra_simps)
  then have "2 * n * K < (2 * d + 1) * J * K" by (simp add: mult.assoc)
  then show "2 * n < (2 * d + 1) * J" by (metis mult_less_cancel2)
  have "2 * d * J * K < 2 * (n * K) + J * K" using a(1) 2(1) b by (simp add: algebra_simps)
  then have "2 * d * J * K < (2 * n + J) * K" by (simp add: algebra_simps)
  then show "2 * d * J < 2 * n + J" by (metis mult_less_cancel2)
qed

lemma rounded_ms_exact:
  assumes "0 < d" and "d < 2 ^ 32"
  shows "rounded_ms d 1000 = d"
proof -
  define k where "k = double_exponent d 1000"
  define m where "m = nearest_even (d * 2 ^ k) 1000"
  define j where "j = double_exponent (m * 1000) (2 ^ k)"
  define n where "n = nearest_even (m * 1000 * 2 ^ j) (2 ^ k)"
  have 1: "2 * (d * 2 ^ k) \<le> 2 * (m * 1000) + 1000 \<and> 2 * (m * 1000) \<le> 2 * (d * 2 ^ k) + 1000"
    using nearest_even_close[of 1000 "d * 2 ^ k"] by (simp add: m_def)
  have dk: "2 ^ 52 * 1000 \<le> d * 2 ^ k" using double_exponent_scales[of d 1000] assms(1) by (simp add: k_def)
  have m0: "0 < m" using dk 1 by (intro gr0I) auto
  have 2: "2 * (m * 1000 * 2 ^ j) \<le> 2 * (n * 2 ^ k) + 2 ^ k \<and> 2 * (n * 2 ^ k) \<le> 2 * (m * 1000 * 2 ^ j) + 2 ^ k"
    using nearest_even_close[of "2 ^ k" "m * 1000 * 2 ^ j"] by (simp add: n_def)
  have mj: "2 ^ 52 * 2 ^ k \<le> m * 1000 * 2 ^ j" using double_exponent_scales[of "m * 1000" "2 ^ k"] m0 by (simp add: j_def)
  have K: "4000 < (2::nat) ^ k"
  proof (rule ccontr)
    assume "\<not> ?thesis"
    then have "d * 2 ^ k \<le> 2 ^ 32 * 4000" using assms(2) by (intro mult_le_mono) auto
    with dk show False by simp
  qed
  have J: "4 < (2::nat) ^ j"
  proof (rule ccontr)
    assume "\<not> ?thesis"
    then have "m * 1000 * 2 ^ j \<le> m * 1000 * 4" by (intro mult_le_mono) auto
    moreover have "2 ^ 52 * (2::nat) ^ k = 4503599627370496 * 2 ^ k" by simp
    moreover have "d * 2 ^ k \<le> 4294967296 * 2 ^ k" using assms(2) by (intro mult_le_mono) auto
    ultimately show False using mj 1 K by linarith
  qed
  have close: "2 * n < (2 * d + 1) * 2 ^ j" "2 * d * 2 ^ j < 2 * n + 2 ^ j"
    using scaled_product[of d "2 ^ k" m "2 ^ j" n] 1 2 K J by blast+
  have "(2 * n + 2 ^ j) div (2 * 2 ^ j) = d"
    using close by (intro div_nat_eqI) (simp_all add: algebra_simps)
  then show ?thesis
    by (simp add: rounded_ms_def double_quotient_def Let_def flip: k_def m_def j_def n_def)
qed

section \<open>Reading back what was written\<close>

lemma readU32LE_value:
  assumes "i + 3 < length bs"
  shows "readU32LE bs i = Inr (uint (bs ! (i + 3)) * 2 ^ 24 + (uint (bs ! (i + 2)) * 2 ^ 16 + (uint (bs ! (i + 1)) * 2 ^ 8 + uint (bs ! i))))"
proof -
  define a b c d where "a = bs ! (i + 3)" and "b = bs ! (i + 2)" and "c = bs ! (i + 1)" and "d = bs ! i"
  note lt = uint_byte(2)[of a] uint_byte(2)[of b] uint_byte(2)[of c] uint_byte(2)[of d]
  have 1: "uint (push_bit 8 (ucast c) OR ucast d :: 32 word) = uint c * 2 ^ 8 + uint d"
    using or_push_bit[of "ucast c :: 32 word" 8 "ucast d"] lt unfolding uint_byte(1) by simp
  have 2: "uint (push_bit 16 (ucast b) OR (push_bit 8 (ucast c) OR ucast d) :: 32 word) = uint b * 2 ^ 16 + (uint c * 2 ^ 8 + uint d)"
    using or_push_bit[of "ucast b :: 32 word" 16 "push_bit 8 (ucast c) OR ucast d"] lt unfolding uint_byte(1) 1 by simp
  have 3: "uint (push_bit 24 (ucast a) OR (push_bit 16 (ucast b) OR (push_bit 8 (ucast c) OR ucast d)) :: 32 word)
      = uint a * 2 ^ 24 + (uint b * 2 ^ 16 + (uint c * 2 ^ 8 + uint d))"
    using or_push_bit[of "ucast a :: 32 word" 24 "push_bit 16 (ucast b) OR (push_bit 8 (ucast c) OR ucast d)"] lt
    unfolding uint_byte(1) 2 by simp
  show ?thesis using assms 3 by (simp add: readU32LE_def or.assoc a_def b_def c_def d_def)
qed

lemma four_bytes:
  fixes n :: int
  assumes "0 \<le> n" and "n < 2 ^ 32"
  shows "uint (byte_of n 24) * 2 ^ 24 + (uint (byte_of n 16) * 2 ^ 16 + (uint (byte_of n 8) * 2 ^ 8 + uint (byte_of n 0))) = n"
proof -
  define a b c where "a = n div 256" and "b = a div 256" and "c = b div 256"
  have d: "n div 2 ^ 8 = a" "n div 2 ^ 16 = b" "n div 2 ^ 24 = c"
    using zdiv_zmult2_eq[of 256 n 65536] zdiv_zmult2_eq[of 256 n 256] by (simp_all add: a_def b_def c_def)
  have "0 \<le> c" "c < 256" using assms d(3) by (auto simp flip: d(3))
  then have "c mod 256 = c" by (rule mod_pos_pos_trivial)
  then have u: "uint (byte_of n 24) = c" "uint (byte_of n 16) = b mod 256" "uint (byte_of n 8) = a mod 256" "uint (byte_of n 0) = n mod 256"
    using uint_byte_of[OF assms, of 24] uint_byte_of[OF assms, of 16] uint_byte_of[OF assms, of 8] uint_byte_of[OF assms, of 0]
    unfolding d by simp_all
  have "n = a * 256 + n mod 256" "a = b * 256 + a mod 256" "b = c * 256 + b mod 256"
    unfolding a_def b_def c_def by (rule div_mult_mod_eq[symmetric])+
  then have "c * 16777216 + (b mod 256 * 65536 + (a mod 256 * 256 + n mod 256)) = n" by linarith
  then show ?thesis unfolding u by simp
qed

lemma readU32LE_le32:
  assumes "0 \<le> n" and "n < 2 ^ 32"
  shows "readU32LE (xs @ le32 n @ ys) (length xs) = Inr n"
  using readU32LE_value[of "length xs" "xs @ le32 n @ ys"] four_bytes[OF assms] by (simp add: le32_def nth_append)

lemma byte_char_byte [simp]: "byte_char (char_byte c) = c"
  by (simp add: byte_char_def char_byte_def unat_of_nat)

lemma latin1_ascii [simp]: "latin1 (ascii_bytes s) = s"
  by (simp add: latin1_def ascii_bytes_def comp_def)

lemma latin1_append [simp]: "latin1 (a @ b) = latin1 a @ latin1 b"
  by (simp add: latin1_def)

lemma length_ascii [simp]: "length (ascii_bytes s) = length s" "length (le32 n) = 4" "length (le16 n) = 2" "length (latin1 bs) = length bs"
  by (simp_all add: ascii_bytes_def le32_def le16_def latin1_def)

definition wav_head :: "int \<Rightarrow> bytes" where
  "wav_head n = ascii_bytes ''RIFF'' @ le32 (36 + n) @ ascii_bytes ''WAVEfmt '' @ le32 16 @ le16 1 @ le16 1 @ le32 1000"

definition wav_tail :: "int \<Rightarrow> bytes" where
  "wav_tail n = le16 1 @ le16 8 @ ascii_bytes ''data'' @ le32 n @ replicate (nat n) 0"

lemma canonicalWav_Inr:
  "canonicalWav room ms = Inr w \<longleftrightarrow> 44 + max 1 ms \<le> room \<and> w = wav_head (max 1 ms) @ le32 1000 @ wav_tail (max 1 ms)"
  by (auto simp: canonicalWav_def Let_def wav_head_def wav_tail_def)

lemma wav_canonical:
  assumes "canonicalWav room ms = Inr w" and "1 \<le> ms" and "ms < 2 ^ 32"
  shows "wavDuration w = Inr ms" and "detectMediaType w = Some AudioWav" and "int (length w) = 44 + ms"
proof -
  have m: "max 1 ms = ms" using assms(2) by simp
  have w: "w = wav_head ms @ le32 1000 @ wav_tail ms" using assms(1) by (simp add: canonicalWav_Inr m)
  have len: "length (wav_head ms) = 28" by (simp add: wav_head_def)
  show l: "int (length w) = 44 + ms" using assms(2) by (simp add: w len wav_tail_def)
  have "readU32LE w 28 = Inr 1000"
    unfolding w len[symmetric] by (rule readU32LE_le32) simp_all
  moreover have "readU32LE w 40 = Inr ms"
  proof -
    define pre where "pre = wav_head ms @ le32 1000 @ le16 1 @ le16 8 @ ascii_bytes ''data''"
    have "w = pre @ le32 ms @ replicate (nat ms) 0" and "length pre = 40" by (simp_all add: w wav_tail_def pre_def len)
    then show ?thesis using readU32LE_le32[of ms pre "replicate (nat ms) 0"] assms(2,3) by simp
  qed
  moreover have "44 \<le> length w" using l assms(2) by linarith
  moreover have "int (rounded_ms (nat ms) 1000) = ms"
    using rounded_ms_exact[of "nat ms"] assms(2,3) by simp
  ultimately show "wavDuration w = Inr ms" using assms(2) l by (simp add: wavDuration_def)
  have a: "latin1 w = ''RIFF'' @ latin1 (le32 (36 + ms)) @ ''WAVE'' @ drop 12 (latin1 w)"
    by (simp add: w wav_head_def)
  have s: "js_slice 0 4 (latin1 w) = ''RIFF''" "js_slice 8 12 (latin1 w) = ''WAVE''"
    by (subst a, simp add: js_slice_def)+
  have "w ! 0 = char_byte CHR ''R''" by (simp add: w wav_head_def ascii_bytes_def)
  then have "w ! 0 \<noteq> 0xFF" by (simp add: char_byte_def)
  then show "detectMediaType w = Some AudioWav" using s \<open>44 \<le> length w\<close> by (simp add: detectMediaType_def Let_def)
qed

lemma jpeg_detected: "detectMediaType (canonicalJpeg w h) = Some ImageJpeg" "length (canonicalJpeg w h) = 15"
  by (simp_all add: canonicalJpeg_def detectMediaType_def)

lemma policy_dimensions:
  assumes "dimensionsOrDurationFailure (decoded_image t d) launchContentPolicy = None"
  shows "1 \<le> fst d" "fst d < 65536" "1 \<le> snd d" "snd d < 65536"
  using assms by (auto simp: dimensionsOrDurationFailure_def decoded_image_def launchContentPolicy_def split: if_splits)

lemma policy_duration:
  assumes "dimensionsOrDurationFailure (decoded_audio t ms w) launchContentPolicy = None"
  shows "1 \<le> ms" "ms < 2 ^ 32"
  using assms by (auto simp: dimensionsOrDurationFailure_def duration_failure_def decoded_audio_def launchContentPolicy_def split: if_splits)

text \<open>C35: what the deterministic decoder re-encodes within the launch policy is recognised as the format it claims, and
  decoding it again gives the same dimensions or duration and the same bytes.\<close>

theorem reencoded_media_reads_back:
  assumes "probeAndReencode room bs t = Inr d" and "dimensionsOrDurationFailure d launchContentPolicy = None"
  shows "probeAndReencode room (dc_proxyBytes d) (dc_proxyMediaType d) = Inr (d\<lparr>dc_observedMediaType := dc_proxyMediaType d\<rparr>)
    \<and> detectMediaType (dc_proxyBytes d) = Some (dc_proxyMediaType d) \<and> 8 \<le> length (dc_proxyBytes d)"
proof -
  have image: ?thesis if d: "d = decoded_image t' x" for t' x
  proof -
    note dims = policy_dimensions[OF assms(2)[unfolded d]]
    have "jpegDimensions (canonicalJpeg (fst x) (snd x)) = Inr x" using jpeg_canonical[of "fst x" "snd x"] dims by simp
    then show ?thesis by (simp add: d decoded_image_def jpeg_detected)
  qed
  have audio: ?thesis if d: "d = decoded_audio t' ms w" and w: "canonicalWav room ms = Inr w" for t' ms w
  proof -
    note ms = policy_duration[OF assms(2)[unfolded d]]
    note c = wav_canonical[OF w ms]
    show ?thesis using c(1,2,3) ms w by (simp add: d decoded_audio_def)
  qed
  show ?thesis using assms(1) image audio by (cases t) auto
qed

theorem reencoded_media_reads_back_witness:
  "probeAndReencode 100 (canonicalJpeg 640 480) ImageJpeg = Inr (decoded_image ImageJpeg (640, 480))"
proof -
  have 1: "probeAndReencode 100 (canonicalJpeg 640 480) ImageJpeg = Inr (decoded_image ImageJpeg (640, 480))" by (simp add: jpeg_canonical)
  have "dimensionsOrDurationFailure (decoded_image ImageJpeg (640, 480)) launchContentPolicy = None"
    by (simp add: dimensionsOrDurationFailure_def duration_failure_def decoded_image_def launchContentPolicy_def)
  from reencoded_media_reads_back[OF 1 this] show ?thesis by (simp add: decoded_image_def)
qed

lemma readU16_in_range: "readU16 bs i = Inl e \<Longrightarrow> length bs \<le> i + 1"
  by (simp add: readU16_def split: if_splits)

lemma readU32_in_range: "readU32 bs i = Inl e \<Longrightarrow> length bs \<le> i + 3" "readU32LE bs i = Inl e \<Longrightarrow> length bs \<le> i + 3"
  by (simp_all add: readU32_def readU32LE_def split: if_splits)

lemma bind_result_eq_Inl: "bind_result r f = Inl e \<longleftrightarrow> r = Inl e \<or> (\<exists>x. r = Inr x \<and> f x = Inl e)"
  by (cases r) auto

lemma jpeg_in_range: "jpeg_segments bs i \<noteq> Inl OutOfRangeRead"
proof (induction bs i rule: jpeg_segments.induct)
  case (1 bs i)
  show ?case
  proof (cases "i + 8 < length bs")
    case True
    have r: "readU16 bs (i + 2) \<noteq> Inl e" "readU16 bs (i + 5) \<noteq> Inl e" "readU16 bs (i + 7) \<noteq> Inl e" for e
      using True readU16_in_range[of bs "i + 2" e] readU16_in_range[of bs "i + 5" e] readU16_in_range[of bs "i + 7" e] by auto
    then obtain n where n: "readU16 bs (i + 2) = Inr n" by (cases "readU16 bs (i + 2)") auto
    have "bind_result (readU16 bs (i + 5)) (\<lambda>height. bind_result (readU16 bs (i + 7)) (\<lambda>width. Inr (width, height))) \<noteq> Inl OutOfRangeRead"
      using r by (auto simp: bind_result_eq_Inl)
    then show ?thesis using True n 1 by (subst jpeg_segments.simps) auto
  qed (subst jpeg_segments.simps, simp)
qed

text \<open>C36: on any bytes the deterministic decoder ends and never reads past them: the length checks before each read are
  enough, so the error of an out-of-range read cannot occur.\<close>

theorem decoder_reads_in_range: "probeAndReencode room bs t \<noteq> Inl OutOfRangeRead"
proof (cases t)
  case ImageJpeg
  then show ?thesis using jpeg_in_range[of bs 2] by (auto simp: bind_result_eq_Inl jpegDimensions_def)
next
  case ImageHeic
  then show ?thesis
    by (auto simp: bind_result_eq_Inl heicDimensions_def split: option.splits if_splits dest!: readU32_in_range)
next
  case AudioWav
  then show ?thesis
    by (auto simp: bind_result_eq_Inl wavDuration_def canonicalWav_def ensure_def Let_def split: if_splits dest!: readU32_in_range)
next
  case AudioM4a
  then show ?thesis
    by (auto simp: bind_result_eq_Inl m4aDuration_def canonicalWav_def ensure_def Let_def split: option.splits if_splits dest!: readU32_in_range)
qed

text \<open>The proxy of an audio file is allocated, one byte per millisecond its header claims, before the duration limit is
  checked: a file of a few dozen bytes makes the decoder allocate far more than the policy allows.\<close>

lemma audio_proxy_as_long_as_claimed:
  assumes "probeAndReencode room bs AudioM4a = Inr d"
  shows "\<exists>ms. m4aDuration bs = Inr ms \<and> int (length (dc_proxyBytes d)) = 44 + max 1 ms"
  using assms by (auto simp: canonicalWav_Inr decoded_audio_def wav_head_def wav_tail_def)

lemma bare_header_claims_a_day:
  "m4aDuration (ascii_bytes ''mvhd'' @ replicate 12 0 @ [0, 0, 0x03, 0xE8] @ [0x05, 0x26, 0x5C, 0]) = Inr (24 * 60 * 60 * 1000)"
proof -
  let ?b = "ascii_bytes ''mvhd'' @ replicate 12 0 @ [0, 0, 0x03, 0xE8] @ [0x05, 0x26, 0x5C, 0]"
  have "index_of (ascii_bytes ''mvhd'') ?b = Some 0" "length ?b = 24" "?b ! 4 = 0" "readU32 ?b 16 = Inr 1000" "readU32 ?b 20 = Inr 86400000"
    by code_simp+
  then show ?thesis using rounded_ms_exact[of 86400000] by (simp add: m4aDuration_def)
qed

end
