(* ===== verification/Sync_Store.thy ===== *)
theory Sync_Store
  imports Media Js_Date
begin

text \<open>
  Evidence storage and synchronisation (\<open>packages/storage/src\<close>: \<open>types.ts\<close>, \<open>hash.ts\<close>, \<open>object-store.ts\<close>,
  \<open>repository.ts\<close>, \<open>sync-service.ts\<close>, \<open>content-pipeline.ts\<close>): upload intents, the immutable object store, the commit of
  verified durability, and the quarantine pipeline that confers trust on a safe proxy.  An asynchronous method is cut at
  its awaits: a waiting call is a program counter, and each step runs one call up to its next await, so that every
  interleaving of calls, and the loss of any of them at an await, is a sequence of steps.  A call of the store reads at an
  await of its own; that read is part of the step that uses its answer, which is the same because objects never change and
  an answer of absence only leads to the next call or an error (the object of an evidence row is never absent).  The sandboxed decoder, the task
  queue and the lease are outside: what they answer is part of the step.
\<close>

section \<open>Environment\<close>

text \<open>\<open>sha_bytes\<close> is the digest of bytes, as 64 hexadecimal digits.\<close>

record sync_env = env +
  sha_bytes :: "bytes \<Rightarrow> string"
  decoder_version :: string
  sync_policy :: content_policy
  intent_ttl :: int

datatype sync_error = SyncError string

section \<open>Types\<close>

definition acceptedUploadMediaTypes :: "string list" where
  "acceptedUploadMediaTypes = [''image/jpeg'', ''image/heic'', ''audio/m4a'', ''audio/wav'']"

record sync_principal =
  sp_organizationId :: string
  sp_actorId :: string
  sp_assignedJobIds :: "string list"

record upload_descriptor =
  ud_artifactId :: string
  ud_captureId :: string
  ud_organizationId :: string
  ud_jobId :: string
  ud_captureSequence :: js_number
  ud_capturedAt :: string
  ud_mediaType :: string
  ud_byteLength :: js_number
  ud_sha256 :: string
  ud_deviceId :: "string option"
  ud_captureArea :: "string option"

record persisted_intent =
  it_intentId :: string
  it_tokenDigest :: string
  it_storageKey :: string
  it_expiresAt :: string
  it_descriptor :: upload_descriptor
  it_uploaded :: bool
  it_quarantined :: bool

record upload_intent =
  ui_intentId :: string
  ui_uploadToken :: string
  ui_storageKey :: string
  ui_expiresAt :: string
  ui_descriptor :: upload_descriptor

record object_metadata =
  om_key :: string
  om_version :: string
  om_byteLength :: int
  om_mediaType :: string
  om_createdAt :: string

record stored_object =
  so_metadata :: object_metadata
  so_bytes :: bytes

record durable_artifact =
  da_descriptor :: upload_descriptor
  da_storageKey :: string
  da_objectVersion :: string
  da_observedAt :: string

record safe_proxy =
  px_artifactId :: string
  px_organizationId :: string
  px_jobId :: string
  px_parentArtifactId :: string
  px_parentSha256 :: string
  px_storageKey :: string
  px_objectVersion :: string
  px_mediaType :: string
  px_byteLength :: int
  px_sha256 :: string
  px_transformationVersion :: string
  px_createdAt :: string

record content_assessment =
  as_assessmentId :: string
  as_artifactId :: string
  as_organizationId :: string
  as_accepted :: bool
  as_reasonCode :: "string option"
  as_observedMediaType :: "string option"
  as_width :: "int option"
  as_height :: "int option"
  as_durationMs :: "int option"
  as_decoderVersion :: string
  as_createdAt :: string
  as_safeProxyArtifactId :: "string option"

text \<open>Metadata of an event: texts and numbers.\<close>

datatype safe_value = SafeText string | SafeNumber js_number

datatype sync_event_type = DurabilityVerified | ContentAccepted | ContentRejected | DuplicateAttempt | HashDivergence

record sync_event =
  se_eventId :: string
  se_organizationId :: string
  se_aggregateId :: string
  se_eventType :: sync_event_type
  se_safeMetadata :: "(string \<times> safe_value) list"
  se_recordedAt :: string

record sync_outbox =
  xo_outboxId :: string
  xo_organizationId :: string
  xo_aggregateId :: string
  xo_idempotencyKey :: string
  xo_requestFingerprint :: string
  xo_taskId :: "string option"
  xo_createdAt :: string

record sync_repository =
  sr_artifacts :: "(string, durable_artifact) js_map"
  sr_captureIndex :: "(string, durable_artifact) js_map"
  sr_storageIndex :: "(string, durable_artifact) js_map"
  sr_receipts :: "string list"
  sr_assessments :: "(string, content_assessment) js_map"
  sr_proxies :: "(string, safe_proxy) js_map"
  sr_events :: "sync_event list"
  sr_outbox :: "sync_outbox list"
  sr_duplicateKeys :: "string list"
  sr_unknownProviderKeys :: "string list"
  sr_deletionSuppressions :: "string list"

text \<open>A call that waits at an await, with what it holds.\<close>

datatype sync_pc =
    UploadHead string bytes string
  | UploadPut string bytes string
  | UploadRace string
  | UploadObserveHead string
  | UploadObserveRead string "object_metadata option"
  | UploadAfterPut string string
  | FinalizeHead string
  | FinalizeRead string "object_metadata option"
  | FinalizeReread string object_metadata
  | ProcessRead durable_artifact
  | ProcessDecode durable_artifact bytes string
  | ProcessPut durable_artifact decoded_media string
  | ProcessHead durable_artifact decoded_media string object_metadata
  | ProcessObserve durable_artifact decoded_media string object_metadata "object_metadata option"

record sync_world =
  sw_objects :: "(string, stored_object) js_map"
  sw_repo :: sync_repository
  sw_intents :: "(string, persisted_intent) js_map"
  sw_calls :: "sync_pc list"
  sw_ticks :: nat
  sw_draws :: nat

definition empty_sync_repository :: sync_repository where
  "empty_sync_repository = \<lparr>sr_artifacts = [], sr_captureIndex = [], sr_storageIndex = [], sr_receipts = [], sr_assessments = [],
     sr_proxies = [], sr_events = [], sr_outbox = [], sr_duplicateKeys = [], sr_unknownProviderKeys = [], sr_deletionSuppressions = []\<rparr>"

definition empty_sync_world :: sync_world where
  "empty_sync_world = \<lparr>sw_objects = [], sw_repo = empty_sync_repository, sw_intents = [], sw_calls = [], sw_ticks = 0, sw_draws = 0\<rparr>"

text \<open>\<open>randomUUID()\<close>, \<open>randomBytes\<close> and the clock: the next draw and the next reading.\<close>

definition fresh :: "sync_env \<Rightarrow> sync_world \<Rightarrow> string" where "fresh E w = random E (sw_draws w)"
definition drawn :: "sync_world \<Rightarrow> sync_world" where "drawn w = w\<lparr>sw_draws := Suc (sw_draws w)\<rparr>"
definition stamp :: "sync_env \<Rightarrow> sync_world \<Rightarrow> string" where "stamp E w = to_iso (clock E (sw_ticks w))"
definition ticked :: "sync_world \<Rightarrow> sync_world" where "ticked w = w\<lparr>sw_ticks := Suc (sw_ticks w)\<rparr>"
definition on_repo :: "(sync_repository \<Rightarrow> sync_repository) \<Rightarrow> sync_world \<Rightarrow> sync_world" where
  "on_repo f w = w\<lparr>sw_repo := f (sw_repo w)\<rparr>"

section \<open>Object store\<close>

definition putImmutable :: "sync_env \<Rightarrow> string \<Rightarrow> bytes \<Rightarrow> string \<Rightarrow> sync_world \<Rightarrow> (sync_error + object_metadata) \<times> sync_world" where
  "putImmutable E key bs mediaType w =
     (if map_of (sw_objects w) key \<noteq> None then (Inl (SyncError ''Immutable object key already exists''), w)
      else let m = \<lparr>om_key = key, om_version = fresh E w, om_byteLength = int (length bs), om_mediaType = mediaType,
             om_createdAt = stamp E (drawn w)\<rparr>
        in (Inr m, (ticked (drawn w))\<lparr>sw_objects := map_set key \<lparr>so_metadata = m, so_bytes = bs\<rparr> (sw_objects w)\<rparr>))"

definition head_object :: "sync_world \<Rightarrow> string \<Rightarrow> object_metadata option" where
  "head_object w key = map_option so_metadata (map_of (sw_objects w) key)"

definition read_object :: "sync_world \<Rightarrow> string \<Rightarrow> bytes option" where
  "read_object w key = map_option so_bytes (map_of (sw_objects w) key)"

section \<open>Repository\<close>

definition appendEvent :: "sync_env \<Rightarrow> string \<Rightarrow> string \<Rightarrow> sync_event_type \<Rightarrow> (string \<times> safe_value) list \<Rightarrow> sync_world \<Rightarrow> sync_world" where
  "appendEvent E organizationId aggregateId eventType metadata w =
     ticked (drawn (on_repo (\<lambda>r. r\<lparr>sr_events := sr_events r @ [\<lparr>se_eventId = fresh E w, se_organizationId = organizationId,
       se_aggregateId = aggregateId, se_eventType = eventType, se_safeMetadata = metadata, se_recordedAt = stamp E (drawn w)\<rparr>]\<rparr>) w))"

definition captureKey :: "upload_descriptor \<Rightarrow> string" where
  "captureKey d = ud_organizationId d @ '':'' @ ud_captureId d"

datatype commit_state = Recorded | CommitDuplicate | CommitDivergence

text \<open>What the task sink answers: none is bound, the identity of the task, or an error.\<close>

datatype task_answer = NoSink | Enqueued string | SinkThrows

definition commit_existing :: "sync_env \<Rightarrow> durable_artifact \<Rightarrow> string \<Rightarrow> int \<Rightarrow> sync_world \<Rightarrow> (commit_state \<times> durable_artifact) \<times> sync_world" where
  "commit_existing E a observedSha256 observedByteLength w = (let d = da_descriptor a in
     if ud_sha256 d \<noteq> observedSha256 \<or> ud_byteLength d \<noteq> Whole observedByteLength
     then ((CommitDivergence, a), appendEvent E (ud_organizationId d) (ud_artifactId d) HashDivergence [(''captureId'', SafeText (ud_captureId d))] w)
     else ((CommitDuplicate, a), appendEvent E (ud_organizationId d) (ud_artifactId d) DuplicateAttempt [(''captureId'', SafeText (ud_captureId d))]
       (on_repo (\<lambda>r. r\<lparr>sr_duplicateKeys := List.insert (da_storageKey a) (sr_duplicateKeys r)\<rparr>) w)))"

definition content_key :: "string \<Rightarrow> string" where
  "content_key artifactId = ''content:'' @ artifactId"

definition append_outbox :: "sync_env \<Rightarrow> durable_artifact \<Rightarrow> task_answer \<Rightarrow> sync_world \<Rightarrow> sync_world" where
  "append_outbox E a ans w = (let d = da_descriptor a in
     ticked (drawn (on_repo (\<lambda>r. r\<lparr>sr_outbox := sr_outbox r @ [\<lparr>xo_outboxId = fresh E w, xo_organizationId = ud_organizationId d,
       xo_aggregateId = ud_artifactId d, xo_idempotencyKey = content_key (ud_artifactId d), xo_requestFingerprint = ud_sha256 d,
       xo_taskId = (case ans of Enqueued t \<Rightarrow> Some t | _ \<Rightarrow> None), xo_createdAt = stamp E (drawn w)\<rparr>]\<rparr>) w)))"

definition commit_new :: "sync_env \<Rightarrow> durable_artifact \<Rightarrow> task_answer \<Rightarrow> sync_world \<Rightarrow> sync_world" where
  "commit_new E a ans w = (let d = da_descriptor a in
     append_outbox E a ans
       (appendEvent E (ud_organizationId d) (ud_artifactId d) DurabilityVerified
         [(''byteLength'', SafeNumber (ud_byteLength d)), (''objectVersion'', SafeText (da_objectVersion a)), (''sha256'', SafeText (ud_sha256 d))]
         (on_repo (\<lambda>r. r\<lparr>sr_artifacts := map_set (ud_artifactId d) a (sr_artifacts r), sr_captureIndex := map_set (captureKey d) a (sr_captureIndex r),
            sr_storageIndex := map_set (da_storageKey a) a (sr_storageIndex r), sr_receipts := List.insert (ud_artifactId d) (sr_receipts r)\<rparr>) w)))"

definition commitVerifiedDurability ::
  "sync_env \<Rightarrow> task_answer \<Rightarrow> upload_descriptor \<Rightarrow> string \<Rightarrow> string \<Rightarrow> string \<Rightarrow> int \<Rightarrow> sync_world
    \<Rightarrow> (sync_error + commit_state \<times> durable_artifact) \<times> sync_world" where
  "commitVerifiedDurability E ans d storageKey objectVersion observedSha256 observedByteLength w =
     (case map_of (sr_captureIndex (sw_repo w)) (captureKey d) of
        Some a \<Rightarrow> (case commit_existing E a observedSha256 observedByteLength w of (r, w') \<Rightarrow> (Inr r, w'))
      | None \<Rightarrow>
          if map_of (sr_artifacts (sw_repo w)) (ud_artifactId d) \<noteq> None
          then (Inl (SyncError ''Artifact identity already belongs to another capture''), w)
          else let a = \<lparr>da_descriptor = d, da_storageKey = storageKey, da_objectVersion = objectVersion, da_observedAt = stamp E w\<rparr> in
            if ans = SinkThrows then (Inl (SyncError ''task sink''), ticked w)
            else (Inr (Recorded, a), commit_new E a ans (ticked w)))"

definition provenance_ok :: "safe_proxy \<Rightarrow> durable_artifact \<Rightarrow> bool" where
  "provenance_ok p a \<longleftrightarrow> px_parentArtifactId p = ud_artifactId (da_descriptor a) \<and> px_parentSha256 p = ud_sha256 (da_descriptor a)
     \<and> px_organizationId p = ud_organizationId (da_descriptor a)"

definition assessment_metadata :: "content_assessment \<Rightarrow> (string \<times> safe_value) list" where
  "assessment_metadata s = (if as_accepted s then [(''decoderVersion'', SafeText (as_decoderVersion s))]
     else [(''decoderVersion'', SafeText (as_decoderVersion s)),
       (''reasonCode'', SafeText (case as_reasonCode s of None \<Rightarrow> ''unspecified'' | Some c \<Rightarrow> c))])"

definition store_assessment :: "content_assessment \<Rightarrow> safe_proxy option \<Rightarrow> sync_repository \<Rightarrow> sync_repository" where
  "store_assessment s proxy r = r\<lparr>sr_assessments := map_set (as_artifactId s) s (sr_assessments r),
     sr_proxies := (case proxy of None \<Rightarrow> sr_proxies r | Some p \<Rightarrow> map_set (px_artifactId p) p (sr_proxies r))\<rparr>"

definition recordAssessment :: "sync_env \<Rightarrow> content_assessment \<Rightarrow> safe_proxy option \<Rightarrow> sync_world \<Rightarrow> (sync_error + unit) \<times> sync_world" where
  "recordAssessment E s proxy w =
     (if map_of (sr_assessments (sw_repo w)) (as_artifactId s) \<noteq> None
      then (Inl (SyncError ''Content assessment is append-only and already exists''), w)
      else (case map_of (sr_artifacts (sw_repo w)) (as_artifactId s) of
          None \<Rightarrow> (Inl (SyncError ''Assessment must reference a tenant-owned durable original''), w)
        | Some a \<Rightarrow>
            if ud_organizationId (da_descriptor a) \<noteq> as_organizationId s
            then (Inl (SyncError ''Assessment must reference a tenant-owned durable original''), w)
            else if as_accepted s \<and> proxy = None then (Inl (SyncError ''Accepted content requires a safe proxy''), w)
            else if \<not> as_accepted s \<and> proxy \<noteq> None then (Inl (SyncError ''Rejected content cannot have a safe proxy''), w)
            else if (case proxy of None \<Rightarrow> False | Some p \<Rightarrow> \<not> provenance_ok p a)
            then (Inl (SyncError ''Safe proxy provenance does not match the original''), w)
            else (Inr (), appendEvent E (as_organizationId s) (as_artifactId s) (if as_accepted s then ContentAccepted else ContentRejected)
              (assessment_metadata s) (on_repo (store_assessment s proxy) w))))"

definition trustedProxyFor :: "sync_repository \<Rightarrow> string \<Rightarrow> safe_proxy option" where
  "trustedProxyFor r i = (case map_of (sr_assessments r) i of
     None \<Rightarrow> None
   | Some s \<Rightarrow> if as_accepted s then List.find (\<lambda>p. px_parentArtifactId p = i) (map snd (sr_proxies r)) else None)"

section \<open>Upload intents\<close>

definition segment_char :: "char \<Rightarrow> bool" where
  "segment_char c \<longleftrightarrow> is_digit c \<or> is_lower c \<or> (let n = of_char c :: nat in 65 \<le> n \<and> n \<le> 90)"

text \<open>The pattern \<open>/^[A-Za-z0-9][A-Za-z0-9._-]{0,127}$/\<close>.\<close>

definition safe_segment :: "string \<Rightarrow> bool" where
  "safe_segment s \<longleftrightarrow> s \<noteq> [] \<and> length s \<le> 128 \<and> segment_char (hd s)
     \<and> list_all (\<lambda>c. segment_char c \<or> c \<in> set ''._-'') (tl s)"

definition safePathSegment :: "string \<Rightarrow> sync_error + string" where
  "safePathSegment s = ensure (safe_segment s) (SyncError ''not a safe storage path segment'') (Inr s)"

definition validateDescriptor :: "sync_env \<Rightarrow> upload_descriptor \<Rightarrow> sync_error + unit" where
  "validateDescriptor E d =
     bind_result (safePathSegment (ud_organizationId d)) (\<lambda>_.
     bind_result (safePathSegment (ud_jobId d)) (\<lambda>_.
     bind_result (safePathSegment (ud_artifactId d)) (\<lambda>_.
     bind_result (safePathSegment (ud_captureId d)) (\<lambda>_.
     ensure (ud_mediaType d \<in> set acceptedUploadMediaTypes) (SyncError ''Upload descriptor media type is not supported'') (
     ensure (sha256_pattern (ud_sha256 d)) (SyncError ''Upload descriptor sha256 is invalid'') (
     ensure (is_safe_integer (ud_byteLength d) \<and> 1 \<le> whole_value (ud_byteLength d) \<and> whole_value (ud_byteLength d) \<le> 250 * 1024 * 1024)
       (SyncError ''Upload descriptor byte length is outside policy'') (
     ensure (is_safe_integer (ud_captureSequence d) \<and> 1 \<le> whole_value (ud_captureSequence d)) (SyncError ''Upload capture sequence is invalid'') (
     ensure (date_parse (env.truncate E) (ud_capturedAt d) \<noteq> None) (SyncError ''Upload capturedAt timestamp is invalid'') (Inr ())))))))))"

definition assertTenantJobAccess :: "sync_principal \<Rightarrow> string \<Rightarrow> string \<Rightarrow> sync_error + unit" where
  "assertTenantJobAccess p organizationId jobId =
     ensure (sp_organizationId p = organizationId \<and> jobId \<in> set (sp_assignedJobIds p)) (SyncError ''Tenant or assigned-job scope denied'') (Inr ())"

definition extensionFor :: "string \<Rightarrow> string" where
  "extensionFor t = (if t = ''image/jpeg'' then ''jpg'' else if t = ''image/heic'' then ''heic'' else if t = ''audio/m4a'' then ''m4a'' else ''wav'')"

definition storage_key :: "upload_descriptor \<Rightarrow> string" where
  "storage_key d = join ''/'' [''quarantine'', ud_organizationId d, ud_jobId d, ud_captureId d, ud_artifactId d @ ''.'' @ extensionFor (ud_mediaType d)]"

definition issueUploadIntent :: "sync_env \<Rightarrow> sync_principal \<Rightarrow> upload_descriptor \<Rightarrow> sync_world \<Rightarrow> (sync_error + upload_intent) \<times> sync_world" where
  "issueUploadIntent E p d w =
     (case bind_result (validateDescriptor E d) (\<lambda>_. assertTenantJobAccess p (ud_organizationId d) (ud_jobId d)) of
        Inl e \<Rightarrow> (Inl e, w)
      | Inr _ \<Rightarrow>
          let intentId = fresh E w; token = fresh E (drawn w);
              expiresAt = to_iso (clock E (sw_ticks w) + intent_ttl E);
              i = \<lparr>it_intentId = intentId, it_tokenDigest = sha_hex E token, it_storageKey = storage_key d, it_expiresAt = expiresAt,
                it_descriptor = d, it_uploaded = False, it_quarantined = False\<rparr>
          in (Inr \<lparr>ui_intentId = intentId, ui_uploadToken = token, ui_storageKey = storage_key d, ui_expiresAt = expiresAt, ui_descriptor = d\<rparr>,
              (ticked (drawn (drawn w)))\<lparr>sw_intents := map_set intentId i (sw_intents w)\<rparr>))"

definition authoriseIntent :: "sync_env \<Rightarrow> string \<Rightarrow> string \<Rightarrow> bool \<Rightarrow> sync_world \<Rightarrow> (sync_error + persisted_intent) \<times> sync_world" where
  "authoriseIntent E intentId token allowExpired w =
     (case map_of (sw_intents w) intentId of
        None \<Rightarrow> (Inl (SyncError ''Upload intent was not found''), w)
      | Some i \<Rightarrow>
          if sha_hex E token \<noteq> it_tokenDigest i then (Inl (SyncError ''Upload intent token is invalid''), w)
          else if allowExpired then (Inr i, w)
          else if (case date_parse (env.truncate E) (it_expiresAt i) of None \<Rightarrow> False | Some t \<Rightarrow> t \<le> clock E (sw_ticks w))
          then (Inl (SyncError ''Upload intent has expired''), ticked w) else (Inr i, ticked w))"

definition update_intent :: "string \<Rightarrow> (persisted_intent \<Rightarrow> persisted_intent) \<Rightarrow> sync_world \<Rightarrow> sync_world" where
  "update_intent k f w = w\<lparr>sw_intents := (case map_of (sw_intents w) k of None \<Rightarrow> sw_intents w | Some i \<Rightarrow> map_set k (f i) (sw_intents w))\<rparr>"

definition mark_uploaded :: "string \<Rightarrow> sync_world \<Rightarrow> sync_world" where
  "mark_uploaded k = update_intent k (\<lambda>i. i\<lparr>it_uploaded := True\<rparr>)"

definition mark_quarantined :: "string \<Rightarrow> sync_world \<Rightarrow> sync_world" where
  "mark_quarantined k = update_intent k (\<lambda>i. i\<lparr>it_quarantined := True\<rparr>)"

section \<open>Calls\<close>

datatype sync_result =
    Waiting sync_pc
  | Uploaded string
  | Finalized commit_state durable_artifact
  | Assessed content_assessment

text \<open>The verification of an object against the intent: what was read of it agrees with what was announced.\<close>

definition exact_object :: "sync_env \<Rightarrow> persisted_intent \<Rightarrow> object_metadata \<Rightarrow> bytes \<Rightarrow> bool" where
  "exact_object E i m bs \<longleftrightarrow> om_key m = it_storageKey i \<and> om_mediaType m = ud_mediaType (it_descriptor i) \<and> om_byteLength m = int (length bs)
     \<and> ud_byteLength (it_descriptor i) = Whole (int (length bs)) \<and> ud_sha256 (it_descriptor i) = sha_bytes E bs"

definition start_upload :: "sync_env \<Rightarrow> string \<Rightarrow> string \<Rightarrow> bytes \<Rightarrow> string \<Rightarrow> sync_world \<Rightarrow> (sync_error + sync_result) \<times> sync_world" where
  "start_upload E intentId token bs claimed w =
     (case authoriseIntent E intentId token False w of
        (Inl e, w') \<Rightarrow> (Inl e, w')
      | (Inr i, w') \<Rightarrow>
          if claimed \<noteq> ud_mediaType (it_descriptor i) then (Inl (SyncError ''Upload media type does not match the intent''), w')
          else if ud_byteLength (it_descriptor i) \<noteq> Whole (int (length bs)) then (Inl (SyncError ''Upload byte length does not match the intent''), w')
          else if sha_bytes E bs \<noteq> ud_sha256 (it_descriptor i) then (Inl (SyncError ''Upload checksum does not match the intent''), w')
          else (Inr (Waiting (UploadHead intentId bs claimed)), w'))"

definition start_finalize :: "sync_env \<Rightarrow> sync_principal \<Rightarrow> string \<Rightarrow> string \<Rightarrow> sync_world \<Rightarrow> (sync_error + sync_result) \<times> sync_world" where
  "start_finalize E p intentId token w =
     (case authoriseIntent E intentId token True w of
        (Inl e, w') \<Rightarrow> (Inl e, w')
      | (Inr i, w') \<Rightarrow> (case assertTenantJobAccess p (ud_organizationId (it_descriptor i)) (ud_jobId (it_descriptor i)) of
            Inl e \<Rightarrow> (Inl e, w')
          | Inr _ \<Rightarrow> (Inr (Waiting (FinalizeHead intentId)), w')))"

definition start_process :: "string \<Rightarrow> sync_world \<Rightarrow> (sync_error + sync_result) \<times> sync_world" where
  "start_process artifactId w = (case map_of (sr_artifacts (sw_repo w)) artifactId of
       None \<Rightarrow> (Inl (SyncError ''Durable artifact was not found''), w)
     | Some a \<Rightarrow> (case map_of (sr_assessments (sw_repo w)) artifactId of
         Some s \<Rightarrow> (Inr (Assessed s), w)
       | None \<Rightarrow> (Inr (Waiting (ProcessRead a)), w)))"

definition assessmentFor ::
  "sync_env \<Rightarrow> durable_artifact \<Rightarrow> bool \<Rightarrow> decoded_media option \<Rightarrow> string option \<Rightarrow> string option \<Rightarrow> string option \<Rightarrow> sync_world
    \<Rightarrow> content_assessment \<times> sync_world" where
  "assessmentFor E a accepted decoded reasonCode proxyId observedMediaType w =
     (\<lparr>as_assessmentId = fresh E w, as_artifactId = ud_artifactId (da_descriptor a), as_organizationId = ud_organizationId (da_descriptor a),
       as_accepted = accepted, as_reasonCode = reasonCode, as_observedMediaType = observedMediaType,
       as_width = Option.bind decoded dc_width, as_height = Option.bind decoded dc_height, as_durationMs = Option.bind decoded dc_durationMs,
       as_decoderVersion = decoder_version E, as_createdAt = stamp E (drawn w), as_safeProxyArtifactId = proxyId\<rparr>, ticked (drawn w))"

text \<open>The answers from outside one step may need: the task sink's, what the decoder returned (\<open>None\<close> when it threw),
  whether the lease assertion passes, and whether the crash hook after a put throws.\<close>

record sync_answer =
  an_task :: task_answer
  an_decoded :: "decoded_media option"
  an_lease :: bool
  an_crash :: bool

definition reject :: "sync_env \<Rightarrow> sync_answer \<Rightarrow> durable_artifact \<Rightarrow> string \<Rightarrow> string option \<Rightarrow> decoded_media option \<Rightarrow> sync_world
    \<Rightarrow> (sync_error + sync_result) \<times> sync_world" where
  "reject E ans a reasonCode observedMediaType decoded w =
     (let sw = assessmentFor E a False decoded (Some reasonCode) None
         (case observedMediaType of None \<Rightarrow> map_option (\<lambda>d. media_text (dc_observedMediaType d)) decoded | Some t \<Rightarrow> Some t) w in
      if \<not> an_lease ans then (Inl (SyncError ''lease''), snd sw)
      else (case recordAssessment E (fst sw) None (snd sw) of
          (Inl e, w') \<Rightarrow> (Inl e, w')
        | (Inr _, w') \<Rightarrow> (Inr (Assessed (fst sw)), w')))"

definition safe_key :: "durable_artifact \<Rightarrow> decoded_media \<Rightarrow> string \<Rightarrow> string" where
  "safe_key a d proxyId = ''safe/'' @ ud_organizationId (da_descriptor a) @ ''/'' @ ud_jobId (da_descriptor a) @ ''/'' @ proxyId @ ''.''
     @ (if dc_proxyMediaType d = ImageJpeg then ''jpg'' else ''wav'')"

text \<open>The second segment of \<open>process\<close>: the checks on the original's bytes.\<close>

definition process_read :: "sync_env \<Rightarrow> sync_answer \<Rightarrow> durable_artifact \<Rightarrow> sync_world \<Rightarrow> (sync_error + sync_result) \<times> sync_world" where
  "process_read E ans a w = (case read_object w (da_storageKey a) of
       None \<Rightarrow> reject E ans a ''missing_original_object'' None None w
     | Some bs \<Rightarrow> (case detectMediaType bs of
         None \<Rightarrow> reject E ans a ''mime_magic_mismatch'' None None w
       | Some t \<Rightarrow>
           if media_text t \<noteq> ud_mediaType (da_descriptor a) then reject E ans a ''mime_magic_mismatch'' (Some (media_text t)) None w
           else if containsActiveOrPolyglotSignature bs then reject E ans a ''active_or_polyglot_format'' (Some (media_text t)) None w
           else if exceedsBytePolicy t (whole_value (ud_byteLength (da_descriptor a))) (sync_policy E)
           then reject E ans a ''byte_limit_exceeded'' (Some (media_text t)) None w
           else (Inr (Waiting (ProcessDecode a bs (media_text t))), w)))"

definition process_decode :: "sync_env \<Rightarrow> sync_answer \<Rightarrow> durable_artifact \<Rightarrow> string \<Rightarrow> sync_world \<Rightarrow> (sync_error + sync_result) \<times> sync_world" where
  "process_decode E ans a magic w = (case an_decoded ans of
       None \<Rightarrow> reject E ans a ''sandbox_decoder_failed'' (Some magic) None w
     | Some d \<Rightarrow> let t = media_text (dc_observedMediaType d) in
         if t \<noteq> ud_mediaType (da_descriptor a) then reject E ans a ''decoder_media_mismatch'' (Some t) None w
         else (case dimensionsOrDurationFailure d (sync_policy E) of
             Some reason \<Rightarrow> reject E ans a reason (Some t) (Some d) w
           | None \<Rightarrow>
               if length (dc_proxyBytes d) < 8 \<or> containsActiveOrPolyglotSignature (dc_proxyBytes d)
                 \<or> detectMediaType (dc_proxyBytes d) \<noteq> Some (dc_proxyMediaType d)
               then reject E ans a ''unsafe_proxy_output'' (Some t) (Some d) w
               else if \<not> an_lease ans then (Inl (SyncError ''lease''), drawn w)
               else (Inr (Waiting (ProcessPut a d (fresh E w))), drawn w)))"

definition exact_proxy :: "sync_env \<Rightarrow> decoded_media \<Rightarrow> object_metadata \<Rightarrow> object_metadata \<Rightarrow> bytes \<Rightarrow> bool" where
  "exact_proxy E d m om bs \<longleftrightarrow> om_version om = om_version m \<and> om_mediaType om = media_text (dc_proxyMediaType d) \<and> om_byteLength om = int (length bs)
     \<and> length bs = length (dc_proxyBytes d) \<and> sha_bytes E bs = sha_bytes E (dc_proxyBytes d)"

definition proxy_of :: "sync_env \<Rightarrow> durable_artifact \<Rightarrow> decoded_media \<Rightarrow> string \<Rightarrow> object_metadata \<Rightarrow> sync_world \<Rightarrow> safe_proxy" where
  "proxy_of E a d proxyId m w = \<lparr>px_artifactId = proxyId, px_organizationId = ud_organizationId (da_descriptor a), px_jobId = ud_jobId (da_descriptor a),
     px_parentArtifactId = ud_artifactId (da_descriptor a), px_parentSha256 = ud_sha256 (da_descriptor a), px_storageKey = safe_key a d proxyId,
     px_objectVersion = om_version m, px_mediaType = media_text (dc_proxyMediaType d), px_byteLength = int (length (dc_proxyBytes d)),
     px_sha256 = sha_bytes E (dc_proxyBytes d), px_transformationVersion = decoder_version E, px_createdAt = stamp E w\<rparr>"

definition process_observe ::
  "sync_env \<Rightarrow> sync_answer \<Rightarrow> durable_artifact \<Rightarrow> decoded_media \<Rightarrow> string \<Rightarrow> object_metadata \<Rightarrow> object_metadata option \<Rightarrow> sync_world
    \<Rightarrow> (sync_error + sync_result) \<times> sync_world" where
  "process_observe E ans a d proxyId m observed w =
     (case (observed, read_object w (safe_key a d proxyId)) of
        (Some om, Some bs) \<Rightarrow>
          if \<not> exact_proxy E d m om bs then (Inl (SyncError ''Safe proxy durability verification failed''), w)
          else let p = proxy_of E a d proxyId m w;
                   sw = assessmentFor E a True (Some d) None (Some proxyId) (Some (media_text (dc_observedMediaType d))) (ticked w) in
            if \<not> an_lease ans then (Inl (SyncError ''lease''), snd sw)
            else (case recordAssessment E (fst sw) (Some p) (snd sw) of
                (Inl e, w') \<Rightarrow> (Inl e, w')
              | (Inr _, w') \<Rightarrow> (Inr (Assessed (fst sw)), w'))
      | _ \<Rightarrow> (Inl (SyncError ''Safe proxy durability verification failed''), w))"

text \<open>Running a waiting call up to its next await.\<close>

fun run_pc :: "sync_env \<Rightarrow> sync_answer \<Rightarrow> sync_pc \<Rightarrow> sync_world \<Rightarrow> (sync_error + sync_result) \<times> sync_world" where
  "run_pc E ans (UploadHead k bs claimed) w = (case map_of (sw_intents w) k of
       None \<Rightarrow> (Inl (SyncError ''Upload intent was not found''), w)
     | Some i \<Rightarrow> (case head_object w (it_storageKey i) of
         Some _ \<Rightarrow> (Inr (Waiting (UploadObserveHead k)), w)
       | None \<Rightarrow> (Inr (Waiting (UploadPut k bs claimed)), w)))"
| "run_pc E ans (UploadPut k bs claimed) w = (case map_of (sw_intents w) k of
       None \<Rightarrow> (Inl (SyncError ''Upload intent was not found''), w)
     | Some i \<Rightarrow> (case putImmutable E (it_storageKey i) bs claimed w of
         (Inl e, w') \<Rightarrow> (Inr (Waiting (UploadRace k)), w')
       | (Inr m, w') \<Rightarrow> (Inr (Waiting (UploadAfterPut k (om_version m))), w')))"
| "run_pc E ans (UploadAfterPut k version) w =
     (if an_crash ans then (Inl (SyncError ''afterObjectPut''), w) else (Inr (Uploaded version), mark_uploaded k w))"
| "run_pc E ans (UploadRace k) w = (case map_of (sw_intents w) k of
       None \<Rightarrow> (Inl (SyncError ''Upload intent was not found''), w)
     | Some i \<Rightarrow> (case head_object w (it_storageKey i) of
         None \<Rightarrow> (Inl (SyncError ''Immutable object key already exists''), w)
       | Some _ \<Rightarrow> (Inr (Waiting (UploadObserveHead k)), w)))"
| "run_pc E ans (UploadObserveHead k) w = (case map_of (sw_intents w) k of
       None \<Rightarrow> (Inl (SyncError ''Upload intent was not found''), w)
     | Some i \<Rightarrow> (Inr (Waiting (UploadObserveRead k (head_object w (it_storageKey i)))), w))"
| "run_pc E ans (UploadObserveRead k observed) w = (case map_of (sw_intents w) k of
       None \<Rightarrow> (Inl (SyncError ''Upload intent was not found''), w)
     | Some i \<Rightarrow> (case (observed, read_object w (it_storageKey i)) of
         (Some m, Some bs) \<Rightarrow> if exact_object E i m bs then (Inr (Uploaded (om_version m)), mark_uploaded k w)
           else (Inl (SyncError ''Independent object verification failed''), mark_quarantined k w)
       | _ \<Rightarrow> (Inl (SyncError ''Object upload has not completed or is not readable''), w)))"
| "run_pc E ans (FinalizeHead k) w = (case map_of (sw_intents w) k of
       None \<Rightarrow> (Inl (SyncError ''Upload intent was not found''), w)
     | Some i \<Rightarrow> (Inr (Waiting (FinalizeRead k (head_object w (it_storageKey i)))), w))"
| "run_pc E ans (FinalizeRead k observed) w = (case map_of (sw_intents w) k of
       None \<Rightarrow> (Inl (SyncError ''Upload intent was not found''), w)
     | Some i \<Rightarrow> (case (observed, read_object w (it_storageKey i)) of
         (Some m, Some bs) \<Rightarrow> if exact_object E i m bs then (Inr (Waiting (FinalizeReread k m)), mark_uploaded k w)
           else (Inl (SyncError ''Independent object verification failed''), mark_quarantined k w)
       | _ \<Rightarrow> (Inl (SyncError ''Object upload has not completed or is not readable''), w)))"
| "run_pc E ans (FinalizeReread k m) w = (case map_of (sw_intents w) k of
       None \<Rightarrow> (Inl (SyncError ''Upload intent was not found''), w)
     | Some i \<Rightarrow> (case read_object w (it_storageKey i) of
         None \<Rightarrow> (Inl (SyncError ''Uploaded object is not independently readable''), w)
       | Some bs \<Rightarrow> (case commitVerifiedDurability E (an_task ans) (it_descriptor i) (it_storageKey i) (om_version m) (sha_bytes E bs)
             (int (length bs)) w of
           (Inl e, w') \<Rightarrow> (Inl e, w')
         | (Inr (state, a), w') \<Rightarrow> (Inr (Finalized state a), w'))))"
| "run_pc E ans (ProcessRead a) w = process_read E ans a w"
| "run_pc E ans (ProcessDecode a bs magic) w = process_decode E ans a magic w"
| "run_pc E ans (ProcessPut a d proxyId) w = (case putImmutable E (safe_key a d proxyId) (dc_proxyBytes d) (media_text (dc_proxyMediaType d)) w of
       (Inl e, w') \<Rightarrow> (Inl e, w')
     | (Inr m, w') \<Rightarrow> (Inr (Waiting (ProcessHead a d proxyId m)), w'))"
| "run_pc E ans (ProcessHead a d proxyId m) w = (Inr (Waiting (ProcessObserve a d proxyId m (head_object w (safe_key a d proxyId)))), w)"
| "run_pc E ans (ProcessObserve a d proxyId m observed) w = process_observe E ans a d proxyId m observed w"

section \<open>The system\<close>

datatype sync_action =
    Issue sync_principal upload_descriptor
  | StartUpload string string bytes string
  | StartFinalize sync_principal string string
  | StartProcess string
  | Resume nat sync_answer
  | LoseCall nat
  | RecordUnknownProvider string
  | SuppressDeletion string

datatype sync_answered = IssuedIntent upload_intent | Stepped sync_result | Noted

definition drop_call :: "nat \<Rightarrow> 'a list \<Rightarrow> 'a list" where
  "drop_call k xs = take k xs @ drop (Suc k) xs"

definition after_start :: "(sync_error + sync_result) \<times> sync_world \<Rightarrow> (sync_error + sync_answered) \<times> sync_world" where
  "after_start r = (case fst r of
       Inl e \<Rightarrow> (Inl e, snd r)
     | Inr v \<Rightarrow> (Inr (Stepped v), (case v of Waiting pc \<Rightarrow> (snd r)\<lparr>sw_calls := sw_calls (snd r) @ [pc]\<rparr> | _ \<Rightarrow> snd r)))"

definition after_segment :: "nat \<Rightarrow> (sync_error + sync_result) \<times> sync_world \<Rightarrow> (sync_error + sync_answered) \<times> sync_world" where
  "after_segment k r = (case fst r of
       Inl e \<Rightarrow> (Inl e, (snd r)\<lparr>sw_calls := drop_call k (sw_calls (snd r))\<rparr>)
     | Inr v \<Rightarrow> (Inr (Stepped v), (case v of Waiting pc \<Rightarrow> (snd r)\<lparr>sw_calls := (sw_calls (snd r))[k := pc]\<rparr>
         | _ \<Rightarrow> (snd r)\<lparr>sw_calls := drop_call k (sw_calls (snd r))\<rparr>)))"

fun perform :: "sync_env \<Rightarrow> sync_action \<Rightarrow> sync_world \<Rightarrow> (sync_error + sync_answered) \<times> sync_world" where
  "perform E (Issue p d) w = (case issueUploadIntent E p d w of (r, w') \<Rightarrow> (map_sum id IssuedIntent r, w'))"
| "perform E (StartUpload k token bs claimed) w = after_start (start_upload E k token bs claimed w)"
| "perform E (StartFinalize p k token) w = after_start (start_finalize E p k token w)"
| "perform E (StartProcess artifactId) w = after_start (start_process artifactId w)"
| "perform E (Resume k ans) w = (if k < length (sw_calls w) then after_segment k (run_pc E ans (sw_calls w ! k) w) else (Inr Noted, w))"
| "perform E (LoseCall k) w = (Inr Noted, w\<lparr>sw_calls := drop_call k (sw_calls w)\<rparr>)"
| "perform E (RecordUnknownProvider key) w =
     (Inr Noted, on_repo (\<lambda>r. r\<lparr>sr_unknownProviderKeys := List.insert key (sr_unknownProviderKeys r)\<rparr>) w)"
| "perform E (SuppressDeletion key) w =
     (Inr Noted, on_repo (\<lambda>r. r\<lparr>sr_deletionSuppressions := List.insert key (sr_deletionSuppressions r)\<rparr>) w)"

inductive sync_reachable :: "sync_env \<Rightarrow> sync_world \<Rightarrow> bool" for E where
  sync_init: "sync_reachable E empty_sync_world"
| sync_step: "sync_reachable E w \<Longrightarrow> perform E c w = (r, w') \<Longrightarrow> sync_reachable E w'"

end
