(* ===== verification/Sync_Invariants.thy ===== *)
theory Sync_Invariants
  imports Sync_Store
begin

text \<open>
  What holds in every state the storage system can reach, whatever calls are interleaved or lost: each artifact row is
  backed by the object it was verified against, under unique capture and storage keys, with one receipt, one event and one
  outbox record; each accepted assessment names a stored proxy of that artifact; and nothing stored is ever changed.
\<close>

section \<open>Keys\<close>

lemma split_at_char:
  assumes "c \<notin> set a" and "c \<notin> set b" and "a @ c # r = b @ c # s"
  shows "a = b \<and> r = s"
  using assms
proof (induction a arbitrary: b)
  case Nil
  then show ?case by (cases b) auto
next
  case (Cons x a)
  then show ?case by (cases b) auto
qed

lemma segment_char_facts: "\<not> segment_char CHR ''/''" "\<not> segment_char CHR '':''"
  by (simp_all add: segment_char_def is_digit_def is_lower_def Let_def)

lemma safe_segment_chars: "safe_segment s \<Longrightarrow> CHR ''/'' \<notin> set s \<and> CHR '':'' \<notin> set s"
  by (cases s) (auto simp: safe_segment_def list_all_iff segment_char_facts)

definition descriptor_safe :: "upload_descriptor \<Rightarrow> bool" where
  "descriptor_safe d \<longleftrightarrow> safe_segment (ud_organizationId d) \<and> safe_segment (ud_jobId d) \<and> safe_segment (ud_artifactId d)
     \<and> safe_segment (ud_captureId d) \<and> ud_mediaType d \<in> set acceptedUploadMediaTypes \<and> sha256_pattern (ud_sha256 d)"

lemma validateDescriptor_safe: "validateDescriptor E d = Inr u \<Longrightarrow> descriptor_safe d"
  by (auto simp: validateDescriptor_def safePathSegment_def descriptor_safe_def)

lemma captureKey_inject:
  assumes "descriptor_safe d" and "descriptor_safe e" and "captureKey d = captureKey e"
  shows "ud_organizationId d = ud_organizationId e \<and> ud_captureId d = ud_captureId e"
  using assms safe_segment_chars split_at_char[of "CHR '':''" "ud_organizationId d" "ud_organizationId e" "ud_captureId d" "ud_captureId e"]
  by (simp add: captureKey_def descriptor_safe_def)

lemma storage_key_inject:
  assumes "descriptor_safe d" and "descriptor_safe e" and "storage_key d = storage_key e"
  shows "captureKey d = captureKey e \<and> ud_jobId d = ud_jobId e"
proof -
  have no: "CHR ''/'' \<notin> set (ud_organizationId x)" "CHR ''/'' \<notin> set (ud_jobId x)" "CHR ''/'' \<notin> set (ud_captureId x)" if "descriptor_safe x" for x
    using that safe_segment_chars by (auto simp: descriptor_safe_def)
  from assms(3) have "ud_organizationId d @ CHR ''/'' # ud_jobId d @ CHR ''/'' # ud_captureId d @ CHR ''/'' # ud_artifactId d @ ''.'' @ extensionFor (ud_mediaType d)
    = ud_organizationId e @ CHR ''/'' # ud_jobId e @ CHR ''/'' # ud_captureId e @ CHR ''/'' # ud_artifactId e @ ''.'' @ extensionFor (ud_mediaType e)"
    by (simp add: storage_key_def)
  from split_at_char[OF no(1)[OF assms(1)] no(1)[OF assms(2)] this]
  have org: "ud_organizationId d = ud_organizationId e"
    and "ud_jobId d @ CHR ''/'' # ud_captureId d @ CHR ''/'' # ud_artifactId d @ ''.'' @ extensionFor (ud_mediaType d)
      = ud_jobId e @ CHR ''/'' # ud_captureId e @ CHR ''/'' # ud_artifactId e @ ''.'' @ extensionFor (ud_mediaType e)" by auto
  from split_at_char[OF no(2)[OF assms(1)] no(2)[OF assms(2)] this(2)]
  have job: "ud_jobId d = ud_jobId e"
    and "ud_captureId d @ CHR ''/'' # ud_artifactId d @ ''.'' @ extensionFor (ud_mediaType d)
      = ud_captureId e @ CHR ''/'' # ud_artifactId e @ ''.'' @ extensionFor (ud_mediaType e)" by auto
  from split_at_char[OF no(3)[OF assms(1)] no(3)[OF assms(2)] this(2)] org job
  show ?thesis by (simp add: captureKey_def)
qed

section \<open>The invariant\<close>

definition object_at :: "sync_world \<Rightarrow> string \<Rightarrow> stored_object \<Rightarrow> bool" where
  "object_at w k x \<longleftrightarrow> map_of (sw_objects w) k = Some x"

definition row :: "sync_world \<Rightarrow> durable_artifact \<Rightarrow> bool" where
  "row w a \<longleftrightarrow> map_of (sr_artifacts (sw_repo w)) (ud_artifactId (da_descriptor a)) = Some a"

text \<open>The object a row was verified against.\<close>

definition row_backed :: "sync_env \<Rightarrow> sync_world \<Rightarrow> durable_artifact \<Rightarrow> bool" where
  "row_backed E w a \<longleftrightarrow> da_storageKey a = storage_key (da_descriptor a)
     \<and> (\<exists>x. object_at w (da_storageKey a) x \<and> sha_bytes E (so_bytes x) = ud_sha256 (da_descriptor a)
          \<and> Whole (int (length (so_bytes x))) = ud_byteLength (da_descriptor a) \<and> om_version (so_metadata x) = da_objectVersion a
          \<and> om_mediaType (so_metadata x) = ud_mediaType (da_descriptor a))"

definition proxy_backed :: "sync_env \<Rightarrow> sync_world \<Rightarrow> safe_proxy \<Rightarrow> bool" where
  "proxy_backed E w p \<longleftrightarrow> (\<exists>x t. object_at w (px_storageKey p) x \<and> sha_bytes E (so_bytes x) = px_sha256 p
     \<and> int (length (so_bytes x)) = px_byteLength p \<and> om_version (so_metadata x) = px_objectVersion p \<and> om_mediaType (so_metadata x) = px_mediaType p
     \<and> px_mediaType p = media_text t \<and> detectMediaType (so_bytes x) = Some t \<and> \<not> containsActiveOrPolyglotSignature (so_bytes x))"

definition objects_ok :: "sync_world \<Rightarrow> bool" where
  "objects_ok w \<longleftrightarrow> (\<forall>k x. object_at w k x \<longrightarrow> om_key (so_metadata x) = k \<and> om_byteLength (so_metadata x) = int (length (so_bytes x)))"

definition intents_ok :: "sync_world \<Rightarrow> bool" where
  "intents_ok w \<longleftrightarrow> (\<forall>k i. map_of (sw_intents w) k = Some i \<longrightarrow> it_storageKey i = storage_key (it_descriptor i) \<and> descriptor_safe (it_descriptor i))"

definition rows_ok :: "sync_env \<Rightarrow> sync_world \<Rightarrow> bool" where
  "rows_ok E w \<longleftrightarrow> (\<forall>i a. map_of (sr_artifacts (sw_repo w)) i = Some a \<longrightarrow> i = ud_artifactId (da_descriptor a) \<and> descriptor_safe (da_descriptor a)
     \<and> row_backed E w a \<and> i \<in> set (sr_receipts (sw_repo w)) \<and> map_of (sr_captureIndex (sw_repo w)) (captureKey (da_descriptor a)) = Some a
     \<and> map_of (sr_storageIndex (sw_repo w)) (da_storageKey a) = Some a)"

definition indexes_ok :: "sync_world \<Rightarrow> bool" where
  "indexes_ok w \<longleftrightarrow> (\<forall>k a. map_of (sr_captureIndex (sw_repo w)) k = Some a \<longrightarrow> row w a \<and> k = captureKey (da_descriptor a))
     \<and> (\<forall>k a. map_of (sr_storageIndex (sw_repo w)) k = Some a \<longrightarrow> row w a \<and> k = da_storageKey a)"

definition proxies_ok :: "sync_env \<Rightarrow> sync_world \<Rightarrow> bool" where
  "proxies_ok E w \<longleftrightarrow> (\<forall>k p. map_of (sr_proxies (sw_repo w)) k = Some p \<longrightarrow> k = px_artifactId p \<and> proxy_backed E w p
     \<and> (\<exists>a. map_of (sr_artifacts (sw_repo w)) (px_parentArtifactId p) = Some a \<and> provenance_ok p a))"

definition assessments_ok :: "sync_world \<Rightarrow> bool" where
  "assessments_ok w \<longleftrightarrow> (\<forall>k s. map_of (sr_assessments (sw_repo w)) k = Some s \<longrightarrow> k = as_artifactId s
     \<and> (\<exists>a. map_of (sr_artifacts (sw_repo w)) k = Some a \<and> ud_organizationId (da_descriptor a) = as_organizationId s)
     \<and> (as_accepted s \<longrightarrow> (\<exists>i p. as_safeProxyArtifactId s = Some i \<and> map_of (sr_proxies (sw_repo w)) i = Some p \<and> px_parentArtifactId p = k)))"

definition verified_events :: "sync_event list \<Rightarrow> string list" where
  "verified_events es = map se_aggregateId (filter (\<lambda>e. se_eventType e = DurabilityVerified) es)"

text \<open>One task and one event per row, in the order of the rows.\<close>

definition ledger_ok :: "sync_world \<Rightarrow> bool" where
  "ledger_ok w \<longleftrightarrow> map xo_aggregateId (sr_outbox (sw_repo w)) = map fst (sr_artifacts (sw_repo w))
     \<and> verified_events (sr_events (sw_repo w)) = map fst (sr_artifacts (sw_repo w)) \<and> distinct (map fst (sr_artifacts (sw_repo w)))
     \<and> distinct (map fst (sr_proxies (sw_repo w)))"

definition data_wf :: "sync_env \<Rightarrow> sync_world \<Rightarrow> bool" where
  "data_wf E w \<longleftrightarrow> objects_ok w \<and> intents_ok w \<and> rows_ok E w \<and> indexes_ok w \<and> proxies_ok E w \<and> assessments_ok w \<and> ledger_ok w"

lemmas wf_parts = data_wf_def objects_ok_def intents_ok_def rows_ok_def indexes_ok_def proxies_ok_def assessments_ok_def ledger_ok_def

text \<open>What a waiting call relies on.\<close>

definition decoded_safe :: "decoded_media \<Rightarrow> bool" where
  "decoded_safe d \<longleftrightarrow> detectMediaType (dc_proxyBytes d) = Some (dc_proxyMediaType d) \<and> \<not> containsActiveOrPolyglotSignature (dc_proxyBytes d)"

definition observed_at :: "sync_world \<Rightarrow> string \<Rightarrow> object_metadata option \<Rightarrow> bool" where
  "observed_at w k v \<longleftrightarrow> (\<forall>m. v = Some m \<longrightarrow> (\<exists>x. object_at w k x \<and> so_metadata x = m))"

definition put_at :: "sync_world \<Rightarrow> durable_artifact \<Rightarrow> decoded_media \<Rightarrow> string \<Rightarrow> object_metadata \<Rightarrow> bool" where
  "put_at w a d i m \<longleftrightarrow> (\<exists>x. object_at w (safe_key a d i) x \<and> so_metadata x = m \<and> so_bytes x = dc_proxyBytes d
     \<and> om_mediaType m = media_text (dc_proxyMediaType d))"

fun pc_ok :: "sync_env \<Rightarrow> sync_world \<Rightarrow> sync_pc \<Rightarrow> bool" where
  "pc_ok E w (UploadObserveRead k v) = (\<exists>i. map_of (sw_intents w) k = Some i \<and> observed_at w (it_storageKey i) v)"
| "pc_ok E w (FinalizeRead k v) = (\<exists>i. map_of (sw_intents w) k = Some i \<and> observed_at w (it_storageKey i) v)"
| "pc_ok E w (FinalizeReread k m) = (\<exists>i x. map_of (sw_intents w) k = Some i \<and> object_at w (it_storageKey i) x \<and> so_metadata x = m
     \<and> exact_object E i m (so_bytes x))"
| "pc_ok E w (ProcessRead a) = row w a"
| "pc_ok E w (ProcessDecode a bs t) = row w a"
| "pc_ok E w (ProcessPut a d i) = (row w a \<and> decoded_safe d)"
| "pc_ok E w (ProcessHead a d i m) = (row w a \<and> decoded_safe d \<and> put_at w a d i m)"
| "pc_ok E w (ProcessObserve a d i m v) = (row w a \<and> decoded_safe d \<and> put_at w a d i m \<and> observed_at w (safe_key a d i) v)"
| "pc_ok E w _ = True"

text \<open>The proxy identifiers drawn by waiting calls.\<close>

fun pc_ids :: "sync_pc \<Rightarrow> string list" where
  "pc_ids (ProcessPut a d i) = [i]"
| "pc_ids (ProcessHead a d i m) = [i]"
| "pc_ids (ProcessObserve a d i m v) = [i]"
| "pc_ids _ = []"

definition ids_ok :: "sync_env \<Rightarrow> sync_world \<Rightarrow> sync_pc list \<Rightarrow> bool" where
  "ids_ok E w pcs \<longleftrightarrow> distinct (concat (map pc_ids pcs) @ map fst (sr_proxies (sw_repo w)))
     \<and> set (concat (map pc_ids pcs)) \<union> fst ` set (sr_proxies (sw_repo w)) \<union> fst ` set (sw_intents w) \<subseteq> random E ` {..<sw_draws w}"

definition sync_wf :: "sync_env \<Rightarrow> sync_world \<Rightarrow> bool" where
  "sync_wf E w \<longleftrightarrow> data_wf E w \<and> (\<forall>pc \<in> set (sw_calls w). pc_ok E w pc) \<and> ids_ok E w (sw_calls w)"

section \<open>Growth\<close>

text \<open>Nothing stored is changed or lost.\<close>

definition same_intent :: "persisted_intent \<Rightarrow> persisted_intent \<Rightarrow> bool" where
  "same_intent i j \<longleftrightarrow> it_intentId j = it_intentId i \<and> it_tokenDigest j = it_tokenDigest i \<and> it_storageKey j = it_storageKey i
     \<and> it_expiresAt j = it_expiresAt i \<and> it_descriptor j = it_descriptor i"

definition map_grows :: "('k, 'v) js_map \<Rightarrow> ('k, 'v) js_map \<Rightarrow> bool" where
  "map_grows m n \<longleftrightarrow> (\<forall>k v. map_of m k = Some v \<longrightarrow> map_of n k = Some v)"

definition intents_kept :: "sync_world \<Rightarrow> sync_world \<Rightarrow> bool" where
  "intents_kept w w' \<longleftrightarrow> (\<forall>k i. map_of (sw_intents w) k = Some i \<longrightarrow> (\<exists>j. map_of (sw_intents w') k = Some j \<and> same_intent i j))"

definition later :: "sync_world \<Rightarrow> sync_world \<Rightarrow> bool" where
  "later w w' \<longleftrightarrow> map_grows (sw_objects w) (sw_objects w') \<and> map_grows (sr_artifacts (sw_repo w)) (sr_artifacts (sw_repo w'))
     \<and> map_grows (sr_captureIndex (sw_repo w)) (sr_captureIndex (sw_repo w'))
     \<and> map_grows (sr_storageIndex (sw_repo w)) (sr_storageIndex (sw_repo w'))
     \<and> map_grows (sr_assessments (sw_repo w)) (sr_assessments (sw_repo w')) \<and> map_grows (sr_proxies (sw_repo w)) (sr_proxies (sw_repo w'))
     \<and> set (sr_receipts (sw_repo w)) \<subseteq> set (sr_receipts (sw_repo w')) \<and> intents_kept w w' \<and> sw_draws w \<le> sw_draws w'"

lemma map_grows_refl [simp]: "map_grows m m"
  by (simp add: map_grows_def)

lemma map_grows_trans: "map_grows l m \<Longrightarrow> map_grows m n \<Longrightarrow> map_grows l n"
  by (simp add: map_grows_def)

lemma map_grows_set: "map_of m k = None \<Longrightarrow> map_grows m (map_set k v m)"
  by (auto simp: map_grows_def)

lemma same_intent_refl [simp]: "same_intent i i"
  by (simp add: same_intent_def)

lemma intents_kept_refl [simp]: "intents_kept w w"
  unfolding intents_kept_def using same_intent_refl by blast

lemma same_intent_trans: "same_intent i j \<Longrightarrow> same_intent j k \<Longrightarrow> same_intent i k"
  by (simp add: same_intent_def)

lemma intents_kept_trans: "intents_kept u v \<Longrightarrow> intents_kept v w \<Longrightarrow> intents_kept u w"
  unfolding intents_kept_def using same_intent_trans by blast

lemma later_refl: "later w w"
  by (simp add: later_def)

lemma later_trans:
  assumes "later u v" and "later v w"
  shows "later u w"
  unfolding later_def
proof (intro conjI)
  have "intents_kept u v" "intents_kept v w" using assms by (simp_all add: later_def)
  then show "intents_kept u w" by (rule intents_kept_trans)
qed (use assms in \<open>auto simp: later_def intro: map_grows_trans\<close>)

lemma object_at_later: "object_at w k x \<Longrightarrow> later w w' \<Longrightarrow> object_at w' k x"
  by (simp add: object_at_def later_def map_grows_def)

lemma row_later: "row w a \<Longrightarrow> later w w' \<Longrightarrow> row w' a"
  by (simp add: row_def later_def map_grows_def)

lemma row_backed_later: "row_backed E w a \<Longrightarrow> later w w' \<Longrightarrow> row_backed E w' a"
  unfolding row_backed_def using object_at_later by blast

lemma proxy_backed_later: "proxy_backed E w p \<Longrightarrow> later w w' \<Longrightarrow> proxy_backed E w' p"
  unfolding proxy_backed_def using object_at_later by blast

lemma observed_at_later: "observed_at w k v \<Longrightarrow> later w w' \<Longrightarrow> observed_at w' k v"
  unfolding observed_at_def using object_at_later by blast

lemma put_at_later: "put_at w a d i m \<Longrightarrow> later w w' \<Longrightarrow> put_at w' a d i m"
  unfolding put_at_def using object_at_later by blast

lemma intent_later:
  assumes "map_of (sw_intents w) k = Some i" and "later w w'"
  shows "\<exists>j. map_of (sw_intents w') k = Some j \<and> it_storageKey j = it_storageKey i \<and> it_descriptor j = it_descriptor i"
proof -
  obtain j where "map_of (sw_intents w') k = Some j" and "same_intent i j"
    using assms unfolding later_def intents_kept_def by blast
  then show ?thesis by (auto simp: same_intent_def)
qed

lemma pc_ok_later: "pc_ok E w pc \<Longrightarrow> later w w' \<Longrightarrow> pc_ok E w' pc"
proof (induction E w pc rule: pc_ok.induct)
  case (1 E w k v)
  then obtain i where i: "map_of (sw_intents w) k = Some i" and v: "observed_at w (it_storageKey i) v" by auto
  from intent_later[OF i 1(2)] observed_at_later[OF v 1(2)] show ?case by auto
next
  case (2 E w k v)
  then obtain i where i: "map_of (sw_intents w) k = Some i" and v: "observed_at w (it_storageKey i) v" by auto
  from intent_later[OF i 2(2)] observed_at_later[OF v 2(2)] show ?case by auto
next
  case (3 E w k m)
  then obtain i x where i: "map_of (sw_intents w) k = Some i" and x: "object_at w (it_storageKey i) x" "so_metadata x = m" "exact_object E i m (so_bytes x)"
    by auto
  from intent_later[OF i 3(2)] obtain j where j: "map_of (sw_intents w') k = Some j" "it_storageKey j = it_storageKey i" "it_descriptor j = it_descriptor i" by blast
  have "exact_object E j m (so_bytes x)" using x(3) j by (simp add: exact_object_def)
  then show ?case using j x object_at_later[OF x(1) 3(2)] by auto
qed (auto intro: row_later put_at_later observed_at_later)

section \<open>Effects of the operations\<close>

text \<open>What the invariant speaks about, apart from the waiting calls.\<close>

definition core_of where
  "core_of w = ((sw_objects w, sw_intents w), (sr_artifacts (sw_repo w), sr_captureIndex (sw_repo w), sr_storageIndex (sw_repo w), sr_receipts (sw_repo w)),
     (sr_assessments (sw_repo w), sr_proxies (sw_repo w), map xo_aggregateId (sr_outbox (sw_repo w)), verified_events (sr_events (sw_repo w))))"

definition quiet :: "sync_world \<Rightarrow> sync_world \<Rightarrow> bool" where
  "quiet w w' \<longleftrightarrow> core_of w' = core_of w \<and> sw_draws w \<le> sw_draws w' \<and> sw_calls w' = sw_calls w"

definition good :: "sync_env \<Rightarrow> sync_world \<Rightarrow> sync_world \<Rightarrow> bool" where
  "good E w w' \<longleftrightarrow> data_wf E w' \<and> later w w' \<and> sw_calls w' = sw_calls w"

lemma data_wf_core:
  assumes "core_of w' = core_of w" and "data_wf E w"
  shows "data_wf E w'"
proof -
  have o: "object_at w' = object_at w" "row w' = row w" "row_backed E w' = row_backed E w" "proxy_backed E w' = proxy_backed E w"
    using assms(1) by (simp_all add: fun_eq_iff object_at_def row_def row_backed_def proxy_backed_def core_of_def)
  have "objects_ok w'" "intents_ok w'" using assms o by (simp_all add: data_wf_def objects_ok_def intents_ok_def core_of_def)
  moreover have "rows_ok E w'" "indexes_ok w'" using assms o by (simp_all add: data_wf_def rows_ok_def indexes_ok_def core_of_def)
  moreover have "proxies_ok E w'" "assessments_ok w'" using assms o by (simp_all add: data_wf_def proxies_ok_def assessments_ok_def core_of_def)
  moreover have "ledger_ok w'" using assms by (simp add: data_wf_def ledger_ok_def core_of_def)
  ultimately show ?thesis by (simp add: data_wf_def)
qed

lemma quiet_later: "quiet w w' \<Longrightarrow> later w w'"
  by (simp add: quiet_def core_of_def later_def intents_kept_def)

lemma quiet_good: "quiet w w' \<Longrightarrow> data_wf E w \<Longrightarrow> good E w w'"
  using data_wf_core[of w' w E] quiet_later[of w w'] by (simp add: good_def quiet_def)

lemma quiet_refl [simp]: "quiet w w"
  by (simp add: quiet_def)

lemma quiet_trans: "quiet u v \<Longrightarrow> quiet v w \<Longrightarrow> quiet u w"
  by (simp add: quiet_def)

lemma quiet_ticked [simp]: "quiet w (ticked w)" and quiet_drawn [simp]: "quiet w (drawn w)"
  by (simp_all add: quiet_def ticked_def drawn_def core_of_def)

lemma quiet_event: "t \<noteq> DurabilityVerified \<Longrightarrow> quiet w (appendEvent E org agg t md w)"
  by (simp add: appendEvent_def ticked_def drawn_def on_repo_def quiet_def core_of_def verified_events_def)

lemma quiet_duplicate: "quiet w (on_repo (\<lambda>r. r\<lparr>sr_duplicateKeys := v r\<rparr>) w)" "quiet w (on_repo (\<lambda>r. r\<lparr>sr_unknownProviderKeys := v r\<rparr>) w)"
  "quiet w (on_repo (\<lambda>r. r\<lparr>sr_deletionSuppressions := v r\<rparr>) w)"
  by (simp_all add: on_repo_def quiet_def core_of_def)

lemma good_step_trans: "good E u v \<Longrightarrow> good E v w \<Longrightarrow> good E u w"
  using later_trans by (simp add: good_def) blast

lemma wf_assessments: "data_wf E w \<Longrightarrow> assessments_ok w" "data_wf E w \<Longrightarrow> ledger_ok w"
  by (simp_all add: data_wf_def)

text \<open>A put stores a new object and nothing else.\<close>

lemma put_good:
  assumes "putImmutable E k bs t w = (Inr m, w')" and "data_wf E w"
  shows "good E w w'" and "object_at w' k \<lparr>so_metadata = m, so_bytes = bs\<rparr>" and "om_mediaType m = t"
    and "sw_repo w' = sw_repo w" and "sw_intents w' = sw_intents w"
proof -
  have n: "map_of (sw_objects w) k = None" and m: "m = \<lparr>om_key = k, om_version = fresh E w, om_byteLength = int (length bs),
      om_mediaType = t, om_createdAt = stamp E (drawn w)\<rparr>"
    and w': "w' = (ticked (drawn w))\<lparr>sw_objects := map_set k \<lparr>so_metadata = m, so_bytes = bs\<rparr> (sw_objects w)\<rparr>"
    using assms(1) by (auto simp: putImmutable_def Let_def split: if_splits)
  show same: "sw_repo w' = sw_repo w" "sw_intents w' = sw_intents w" by (simp_all add: w' ticked_def drawn_def)
  have later: "later w w'"
    using n by (simp add: later_def intents_kept_def w' ticked_def drawn_def map_grows_set)
  show "object_at w' k \<lparr>so_metadata = m, so_bytes = bs\<rparr>" by (simp add: object_at_def w')
  show "om_mediaType m = t" by (simp add: m)
  have "objects_ok w'" using assms(2) by (auto simp: data_wf_def objects_ok_def object_at_def w' m)
  moreover have "intents_ok w'" using assms(2) same by (simp add: data_wf_def intents_ok_def)
  moreover have "rows_ok E w'" using assms(2) same row_backed_later[OF _ later] by (simp add: data_wf_def rows_ok_def)
  moreover have "indexes_ok w'" using assms(2) same by (simp add: data_wf_def indexes_ok_def row_def)
  moreover have "proxies_ok E w'" using assms(2) same proxy_backed_later[OF _ later] by (simp add: data_wf_def proxies_ok_def)
  moreover have "assessments_ok w'" "ledger_ok w'" using wf_assessments[OF assms(2)] same by (simp_all add: assessments_ok_def ledger_ok_def)
  moreover have "sw_calls w' = sw_calls w" by (simp add: w' ticked_def drawn_def)
  ultimately show "good E w w'" using later by (simp add: good_def data_wf_def)
qed

lemma put_refused: "putImmutable E k bs t w = (Inl e, w') \<Longrightarrow> w' = w"
  by (auto simp: putImmutable_def Let_def split: if_splits)

text \<open>Updating flags of an intent.\<close>

lemma update_intent_good:
  assumes "data_wf E w" and "\<And>i. same_intent i (f i)"
  shows "good E w (update_intent k f w)" and "sw_repo (update_intent k f w) = sw_repo w" and "sw_objects (update_intent k f w) = sw_objects w"
    and "fst ` set (sw_intents (update_intent k f w)) = fst ` set (sw_intents w)" and "sw_draws (update_intent k f w) = sw_draws w"
proof -
  let ?w = "update_intent k f w"
  show same: "sw_repo ?w = sw_repo w" "sw_objects ?w = sw_objects w" "sw_draws ?w = sw_draws w" by (simp_all add: update_intent_def)
  show "fst ` set (sw_intents ?w) = fst ` set (sw_intents w)"
    by (auto simp: update_intent_def keys_map_set split: option.splits) (metis fst_conv image_eqI map_of_SomeD)
  have look: "map_of (sw_intents ?w) k' = map_option (\<lambda>i. if k' = k then f i else i) (map_of (sw_intents w) k')" for k'
    by (cases "map_of (sw_intents w) k'"; cases "map_of (sw_intents w) k") (auto simp: update_intent_def)
  have kept: "intents_kept w ?w" using assms(2) by (auto simp: intents_kept_def look)
  then have later: "later w ?w" by (simp add: later_def same)
  have "intents_ok ?w" using assms unfolding data_wf_def intents_ok_def look same_intent_def by fastforce
  moreover have o: "object_at ?w = object_at w" by (simp add: fun_eq_iff object_at_def same)
  then have "objects_ok ?w = objects_ok w" "rows_ok E ?w = rows_ok E w" "indexes_ok ?w = indexes_ok w" "proxies_ok E ?w = proxies_ok E w"
    "assessments_ok ?w = assessments_ok w" "ledger_ok ?w = ledger_ok w"
    by (simp_all add: objects_ok_def rows_ok_def indexes_ok_def proxies_ok_def assessments_ok_def ledger_ok_def row_def row_backed_def proxy_backed_def same)
  ultimately have "data_wf E ?w" using assms(1) by (simp add: data_wf_def)
  then show "good E w ?w" using later by (simp add: good_def update_intent_def)
qed

lemma mark_good:
  assumes "data_wf E w"
  shows "good E w (mark_uploaded k w)" "good E w (mark_quarantined k w)"
    and "sw_repo (mark_uploaded k w) = sw_repo w" "sw_repo (mark_quarantined k w) = sw_repo w"
    and "fst ` set (sw_intents (mark_uploaded k w)) = fst ` set (sw_intents w)" "fst ` set (sw_intents (mark_quarantined k w)) = fst ` set (sw_intents w)"
    and "sw_draws (mark_uploaded k w) = sw_draws w" "sw_draws (mark_quarantined k w) = sw_draws w"
  unfolding mark_uploaded_def mark_quarantined_def using update_intent_good[OF assms] by (simp_all add: same_intent_def)

text \<open>A new row.\<close>

definition verified_against :: "sync_env \<Rightarrow> sync_world \<Rightarrow> upload_descriptor \<Rightarrow> string \<Rightarrow> string \<Rightarrow> bool" where
  "verified_against E w d k version \<longleftrightarrow> k = storage_key d \<and> descriptor_safe d
     \<and> (\<exists>x. object_at w k x \<and> sha_bytes E (so_bytes x) = ud_sha256 d \<and> Whole (int (length (so_bytes x))) = ud_byteLength d
          \<and> om_version (so_metadata x) = version \<and> om_mediaType (so_metadata x) = ud_mediaType d)"

lemma commit_new_parts:
  "sw_objects (commit_new E a ans w) = sw_objects w" "sw_intents (commit_new E a ans w) = sw_intents w" "sw_calls (commit_new E a ans w) = sw_calls w"
  "sw_draws w \<le> sw_draws (commit_new E a ans w)"
  "sr_artifacts (sw_repo (commit_new E a ans w)) = map_set (ud_artifactId (da_descriptor a)) a (sr_artifacts (sw_repo w))"
  "sr_captureIndex (sw_repo (commit_new E a ans w)) = map_set (captureKey (da_descriptor a)) a (sr_captureIndex (sw_repo w))"
  "sr_storageIndex (sw_repo (commit_new E a ans w)) = map_set (da_storageKey a) a (sr_storageIndex (sw_repo w))"
  "sr_receipts (sw_repo (commit_new E a ans w)) = List.insert (ud_artifactId (da_descriptor a)) (sr_receipts (sw_repo w))"
  "sr_assessments (sw_repo (commit_new E a ans w)) = sr_assessments (sw_repo w)"
  "sr_proxies (sw_repo (commit_new E a ans w)) = sr_proxies (sw_repo w)"
  "map xo_aggregateId (sr_outbox (sw_repo (commit_new E a ans w))) = map xo_aggregateId (sr_outbox (sw_repo w)) @ [ud_artifactId (da_descriptor a)]"
  "verified_events (sr_events (sw_repo (commit_new E a ans w))) = verified_events (sr_events (sw_repo w)) @ [ud_artifactId (da_descriptor a)]"
  by (simp_all add: commit_new_def append_outbox_def appendEvent_def on_repo_def ticked_def drawn_def Let_def verified_events_def)

lemma commit_new_good:
  assumes wf: "data_wf E w" and v: "verified_against E w (da_descriptor a) (da_storageKey a) (da_objectVersion a)"
    and cap: "map_of (sr_captureIndex (sw_repo w)) (captureKey (da_descriptor a)) = None"
    and art: "map_of (sr_artifacts (sw_repo w)) (ud_artifactId (da_descriptor a)) = None"
  shows "good E w (commit_new E a ans w)" and "row (commit_new E a ans w) a"
proof -
  let ?w = "commit_new E a ans w" and ?d = "da_descriptor a"
  note p = commit_new_parts[where E = E and a = a and ans = ans and w = w]
  have safe: "descriptor_safe ?d" and key: "da_storageKey a = storage_key ?d" using v by (simp_all add: verified_against_def)
  have sto: "map_of (sr_storageIndex (sw_repo w)) (da_storageKey a) = None"
  proof (rule ccontr)
    assume "\<not> ?thesis"
    then obtain b where b: "map_of (sr_storageIndex (sw_repo w)) (da_storageKey a) = Some b" by auto
    then have r: "row w b" "da_storageKey a = da_storageKey b" using wf by (auto simp: data_wf_def indexes_ok_def)
    then have rb: "descriptor_safe (da_descriptor b)" "da_storageKey b = storage_key (da_descriptor b)"
      "map_of (sr_captureIndex (sw_repo w)) (captureKey (da_descriptor b)) = Some b"
      using wf by (auto simp: data_wf_def rows_ok_def row_def row_backed_def)
    then have "captureKey ?d = captureKey (da_descriptor b)"
      using storage_key_inject[OF safe rb(1)] key r(2) by simp
    with rb(3) cap show False by simp
  qed
  have later: "later w ?w"
    unfolding later_def p intents_kept_def
    using cap art sto commit_new_parts(4) by (auto simp: map_grows_set)
  show row: "row ?w a" by (simp add: row_def p)
  have backed: "row_backed E ?w a"
    using v unfolding verified_against_def row_backed_def object_at_def p by metis
  have "object_at ?w = object_at w" by (simp add: fun_eq_iff object_at_def p)
  then have "objects_ok ?w" using wf by (simp add: data_wf_def objects_ok_def)
  moreover have "intents_ok ?w" using wf by (simp add: data_wf_def intents_ok_def p)
  moreover have "rows_ok E ?w"
    unfolding rows_ok_def
  proof (intro allI impI)
    fix i b assume b: "map_of (sr_artifacts (sw_repo ?w)) i = Some b"
    show "i = ud_artifactId (da_descriptor b) \<and> descriptor_safe (da_descriptor b) \<and> row_backed E ?w b \<and> i \<in> set (sr_receipts (sw_repo ?w))
      \<and> map_of (sr_captureIndex (sw_repo ?w)) (captureKey (da_descriptor b)) = Some b \<and> map_of (sr_storageIndex (sw_repo ?w)) (da_storageKey b) = Some b"
    proof (cases "i = ud_artifactId ?d")
      case True
      with b have "b = a" by (simp add: p)
      then show ?thesis using True safe backed by (simp add: p)
    next
      case False
      with b have o: "map_of (sr_artifacts (sw_repo w)) i = Some b" by (simp add: p)
      then have r: "i = ud_artifactId (da_descriptor b)" "descriptor_safe (da_descriptor b)" "row_backed E w b" "i \<in> set (sr_receipts (sw_repo w))"
        "map_of (sr_captureIndex (sw_repo w)) (captureKey (da_descriptor b)) = Some b" "map_of (sr_storageIndex (sw_repo w)) (da_storageKey b) = Some b"
        using wf by (auto simp: data_wf_def rows_ok_def)
      then show ?thesis using row_backed_later[OF r(3) later] cap sto by (auto simp: p)
    qed
  qed
  moreover have "indexes_ok ?w"
  proof -
    have "row ?w b" if "row w b" for b using row_later[OF that later] .
    then show ?thesis using wf row unfolding data_wf_def indexes_ok_def p by (auto split: if_splits)
  qed
  moreover have "proxies_ok E ?w"
    unfolding proxies_ok_def p(10)
  proof (intro allI impI)
    fix k q assume "map_of (sr_proxies (sw_repo w)) k = Some q"
    then have q: "k = px_artifactId q" "proxy_backed E w q" "\<exists>b. map_of (sr_artifacts (sw_repo w)) (px_parentArtifactId q) = Some b \<and> provenance_ok q b"
      using wf by (auto simp: data_wf_def proxies_ok_def)
    then show "k = px_artifactId q \<and> proxy_backed E ?w q \<and> (\<exists>b. map_of (sr_artifacts (sw_repo ?w)) (px_parentArtifactId q) = Some b \<and> provenance_ok q b)"
      using proxy_backed_later[OF q(2) later] art by (auto simp: p)
  qed
  moreover have "assessments_ok ?w"
    using wf_assessments(1)[OF wf] art unfolding assessments_ok_def p by fastforce
  moreover have "ledger_ok ?w"
    using wf_assessments(2)[OF wf] art by (simp add: ledger_ok_def p map_set_new) (auto simp: map_of_eq_None_iff)
  ultimately have "data_wf E ?w" by (simp add: data_wf_def)
  then show "good E w ?w" using later by (simp add: good_def p)
qed

lemma commit_existing_quiet: "commit_existing E a h n w = (r, w') \<Longrightarrow> quiet w w' \<and> snd r = a \<and> fst r \<noteq> Recorded"
  by (auto simp: commit_existing_def Let_def split: if_splits intro: quiet_event quiet_trans[OF quiet_duplicate(1) quiet_event])

lemma verified_against_ticked: "verified_against E (ticked w) d k v = verified_against E w d k v"
  by (simp add: verified_against_def object_at_def ticked_def)

lemma commit_good:
  assumes c: "commitVerifiedDurability E ans d k version h n w = (r, w')" and wf: "data_wf E w"
    and v: "verified_against E w d k version"
  shows "good E w w'" and "sr_proxies (sw_repo w') = sr_proxies (sw_repo w)" and "sw_intents w' = sw_intents w"
    and "r = Inr (st, a) \<Longrightarrow> row w' a \<and> captureKey (da_descriptor a) = captureKey d \<and> (st = Recorded \<longrightarrow> da_descriptor a = d \<and> \<not> row w a)"
proof -
  let ?cap = "map_of (sr_captureIndex (sw_repo w)) (captureKey d)"
  have "good E w w' \<and> sr_proxies (sw_repo w') = sr_proxies (sw_repo w) \<and> sw_intents w' = sw_intents w
     \<and> (\<forall>st a. r = Inr (st, a) \<longrightarrow> row w' a \<and> captureKey (da_descriptor a) = captureKey d \<and> (st = Recorded \<longrightarrow> da_descriptor a = d \<and> \<not> row w a))"
  proof (cases ?cap)
    case (Some b)
    obtain x w'' where e: "commit_existing E b h n w = (x, w'')" by fastforce
    have b: "row w b" "captureKey (da_descriptor b) = captureKey d" using wf Some by (auto simp: data_wf_def indexes_ok_def)
    have q: "quiet w w''" "snd x = b" "fst x \<noteq> Recorded" using commit_existing_quiet[OF e] by auto
    have "r = Inr x" "w' = w''" using c Some e by (auto simp: commitVerifiedDurability_def)
    then show ?thesis using quiet_good[OF q(1) wf] q b row_later[OF b(1) quiet_later[OF q(1)]]
      by (auto simp: quiet_def core_of_def)
  next
    case None
    show ?thesis
    proof (cases "map_of (sr_artifacts (sw_repo w)) (ud_artifactId d)")
      case (Some b)
      then show ?thesis using c None quiet_good[OF quiet_refl wf] by (auto simp: commitVerifiedDurability_def)
    next
      case art: None
      let ?a = "\<lparr>da_descriptor = d, da_storageKey = k, da_objectVersion = version, da_observedAt = stamp E w\<rparr>"
      have t: "good E w (ticked w)" using quiet_good[OF quiet_ticked wf] .
      show ?thesis
      proof (cases "ans = SinkThrows")
        case True
        then show ?thesis using c None art t by (auto simp: commitVerifiedDurability_def Let_def ticked_def)
      next
        case False
        then have r: "r = Inr (Recorded, ?a)" "w' = commit_new E ?a ans (ticked w)"
          using c None art by (auto simp: commitVerifiedDurability_def Let_def)
        have wf': "data_wf E (ticked w)" using t by (simp add: good_def)
        have n: "good E (ticked w) (commit_new E ?a ans (ticked w))" "row (commit_new E ?a ans (ticked w)) ?a"
          using commit_new_good[OF wf', of ?a ans] v None art by (simp_all add: verified_against_ticked) (simp_all add: ticked_def)
        show ?thesis using r n good_step_trans[OF t n(1)] art by (auto simp: commit_new_parts row_def) (simp_all add: ticked_def)
      qed
    qed
  qed
  then show "good E w w'" and "sr_proxies (sw_repo w') = sr_proxies (sw_repo w)" and "sw_intents w' = sw_intents w"
    and "r = Inr (st, a) \<Longrightarrow> row w' a \<and> captureKey (da_descriptor a) = captureKey d \<and> (st = Recorded \<longrightarrow> da_descriptor a = d \<and> \<not> row w a)"
    by blast+
qed

text \<open>A new assessment.\<close>

lemma store_assessment_good:
  assumes wf: "data_wf E w" and a: "map_of (sr_artifacts (sw_repo w)) (as_artifactId s) = Some a" "ud_organizationId (da_descriptor a) = as_organizationId s"
    and n: "map_of (sr_assessments (sw_repo w)) (as_artifactId s) = None" and acc: "as_accepted s \<longleftrightarrow> proxy \<noteq> None"
    and p: "\<And>p. proxy = Some p \<Longrightarrow> provenance_ok p a \<and> proxy_backed E w p \<and> map_of (sr_proxies (sw_repo w)) (px_artifactId p) = None
      \<and> as_safeProxyArtifactId s = Some (px_artifactId p)"
  shows "good E w (on_repo (store_assessment s proxy) w)"
proof -
  let ?w = "on_repo (store_assessment s proxy) w"
  have same: "sw_objects ?w = sw_objects w" "sw_intents ?w = sw_intents w" "sw_calls ?w = sw_calls w" "sw_draws ?w = sw_draws w"
    "sr_artifacts (sw_repo ?w) = sr_artifacts (sw_repo w)" "sr_captureIndex (sw_repo ?w) = sr_captureIndex (sw_repo w)"
    "sr_storageIndex (sw_repo ?w) = sr_storageIndex (sw_repo w)" "sr_receipts (sw_repo ?w) = sr_receipts (sw_repo w)"
    "sr_outbox (sw_repo ?w) = sr_outbox (sw_repo w)" "sr_events (sw_repo ?w) = sr_events (sw_repo w)"
    "sr_assessments (sw_repo ?w) = map_set (as_artifactId s) s (sr_assessments (sw_repo w))"
    "sr_proxies (sw_repo ?w) = (case proxy of None \<Rightarrow> sr_proxies (sw_repo w) | Some p \<Rightarrow> map_set (px_artifactId p) p (sr_proxies (sw_repo w)))"
    by (simp_all add: on_repo_def store_assessment_def)
  have grow: "map_grows (sr_proxies (sw_repo w)) (sr_proxies (sw_repo ?w))"
    unfolding same using p by (cases proxy) (simp_all add: map_grows_set)
  have later: "later w ?w"
    unfolding later_def intents_kept_def using n grow by (simp add: same(1-11) map_grows_set)
  have o: "object_at ?w = object_at w" "row ?w = row w" by (simp_all add: fun_eq_iff object_at_def row_def same(1-10))
  have idx: "as_artifactId s = ud_artifactId (da_descriptor a)" using wf a(1) by (simp add: data_wf_def rows_ok_def)
  have "objects_ok ?w" "intents_ok ?w" using wf by (simp_all add: data_wf_def objects_ok_def intents_ok_def o same(1-10))
  moreover have "row_backed E ?w = row_backed E w" by (simp add: fun_eq_iff row_backed_def o)
  then have "rows_ok E ?w" "indexes_ok ?w"
    using wf by (simp_all add: data_wf_def rows_ok_def indexes_ok_def o same(1-10))
  moreover have "proxies_ok E ?w"
    unfolding proxies_ok_def same(5)
  proof (intro allI impI)
    fix k q assume q: "map_of (sr_proxies (sw_repo ?w)) k = Some q"
    show "k = px_artifactId q \<and> proxy_backed E ?w q \<and> (\<exists>a. map_of (sr_artifacts (sw_repo w)) (px_parentArtifactId q) = Some a \<and> provenance_ok q a)"
    proof (cases "map_of (sr_proxies (sw_repo w)) k = Some q")
      case True
      then show ?thesis using wf proxy_backed_later[OF _ later] by (auto simp: data_wf_def proxies_ok_def)
    next
      case False
      with q obtain p' where p': "proxy = Some p'" "k = px_artifactId p'" "q = p'" by (auto simp: same split: option.splits if_splits)
      then show ?thesis using p[OF p'(1)] proxy_backed_later[OF _ later] a(1) idx by (auto simp: provenance_ok_def)
    qed
  qed
  moreover have "assessments_ok ?w"
    unfolding assessments_ok_def same(5)
  proof (intro allI impI)
    fix k t assume t: "map_of (sr_assessments (sw_repo ?w)) k = Some t"
    show "k = as_artifactId t \<and> (\<exists>a. map_of (sr_artifacts (sw_repo w)) k = Some a \<and> ud_organizationId (da_descriptor a) = as_organizationId t)
      \<and> (as_accepted t \<longrightarrow> (\<exists>i p. as_safeProxyArtifactId t = Some i \<and> map_of (sr_proxies (sw_repo ?w)) i = Some p \<and> px_parentArtifactId p = k))"
    proof (cases "k = as_artifactId s")
      case True
      then have "t = s" using t by (simp add: same)
      moreover have "\<exists>i p. as_safeProxyArtifactId s = Some i \<and> map_of (sr_proxies (sw_repo ?w)) i = Some p \<and> px_parentArtifactId p = k" if yes: "as_accepted s"
      proof -
        obtain p' where p': "proxy = Some p'" using yes acc by auto
        have "map_of (sr_proxies (sw_repo ?w)) (px_artifactId p') = Some p'" unfolding same(12) using p' by simp
        then show ?thesis using p[OF p'] True idx by (simp add: provenance_ok_def)
      qed
      ultimately show ?thesis using True a by simp
    next
      case False
      then have "map_of (sr_assessments (sw_repo w)) k = Some t" using t by (simp add: same)
      then show ?thesis using wf_assessments(1)[OF wf] grow unfolding assessments_ok_def map_grows_def by blast
    qed
  qed
  moreover have "ledger_ok ?w"
    using wf_assessments(2)[OF wf] unfolding ledger_ok_def same by (cases proxy) (simp_all add: distinct_map_set)
  ultimately show ?thesis using later by (simp add: good_def data_wf_def same)
qed

definition proxy_ids :: "sync_world \<Rightarrow> string list" where
  "proxy_ids w = map fst (sr_proxies (sw_repo w))"

lemma record_good:
  assumes r: "recordAssessment E s proxy w = (r, w')" and wf: "data_wf E w"
    and p: "\<And>p. proxy = Some p \<Longrightarrow> proxy_backed E w p \<and> px_artifactId p \<notin> set (proxy_ids w) \<and> as_safeProxyArtifactId s = Some (px_artifactId p)"
  shows "good E w w'" and "sw_intents w' = sw_intents w"
    and "proxy_ids w' = proxy_ids w @ (if isl r then [] else (case proxy of None \<Rightarrow> [] | Some p \<Rightarrow> [px_artifactId p]))"
proof -
  have "good E w w' \<and> sw_intents w' = sw_intents w
    \<and> proxy_ids w' = proxy_ids w @ (if isl r then [] else (case proxy of None \<Rightarrow> [] | Some p \<Rightarrow> [px_artifactId p]))"
  proof (cases r)
    case (Inl e)
    then have "w' = w" using r by (auto simp: recordAssessment_def split: option.splits if_splits)
    then show ?thesis using Inl quiet_good[OF quiet_refl wf] by simp
  next
    case (Inr u)
    let ?v = "on_repo (store_assessment s proxy) w"
    from r Inr obtain a where a: "map_of (sr_artifacts (sw_repo w)) (as_artifactId s) = Some a" "ud_organizationId (da_descriptor a) = as_organizationId s"
      and n: "map_of (sr_assessments (sw_repo w)) (as_artifactId s) = None" and acc: "as_accepted s \<longleftrightarrow> proxy \<noteq> None"
      and prov: "case proxy of None \<Rightarrow> True | Some p \<Rightarrow> provenance_ok p a"
      and w': "w' = appendEvent E (as_organizationId s) (as_artifactId s) (if as_accepted s then ContentAccepted else ContentRejected) (assessment_metadata s) ?v"
      by (auto simp: recordAssessment_def split: option.splits if_splits)
    have f: "map_of (sr_proxies (sw_repo w)) (px_artifactId p') = None" if "proxy = Some p'" for p'
      using p[OF that] by (simp add: proxy_ids_def map_of_eq_None_iff)
    have g: "good E w ?v"
      using store_assessment_good[OF wf a n acc] p prov f by fastforce
    have q: "quiet ?v w'" unfolding w' by (rule quiet_event) simp
    have "data_wf E ?v" using g by (simp add: good_def)
    with q have "good E ?v w'" by (rule quiet_good)
    moreover have "proxy_ids ?v = proxy_ids w @ (case proxy of None \<Rightarrow> [] | Some p \<Rightarrow> [px_artifactId p])"
      using f by (cases proxy) (simp_all add: proxy_ids_def on_repo_def store_assessment_def map_set_new)
    moreover have "proxy_ids w' = proxy_ids ?v" "sw_intents w' = sw_intents ?v" "sw_intents ?v = sw_intents w"
      using q by (simp_all add: quiet_def core_of_def proxy_ids_def on_repo_def)
    ultimately show ?thesis using Inr good_step_trans[OF g] by simp
  qed
  then show "good E w w'" and "sw_intents w' = sw_intents w"
    and "proxy_ids w' = proxy_ids w @ (if isl r then [] else (case proxy of None \<Rightarrow> [] | Some p \<Rightarrow> [px_artifactId p]))" by blast+
qed

section \<open>Every segment keeps the invariant\<close>

text \<open>The identifiers a segment holds, draws or stores.\<close>

definition result_pcs :: "sync_error + sync_result \<Rightarrow> sync_pc list" where
  "result_pcs r = (case r of Inr (Waiting pc) \<Rightarrow> [pc] | _ \<Rightarrow> [])"

definition ids_flow :: "sync_env \<Rightarrow> string list \<Rightarrow> string list \<Rightarrow> sync_world \<Rightarrow> sync_world \<Rightarrow> bool" where
  "ids_flow E old new w w' \<longleftrightarrow> (proxy_ids w' = proxy_ids w \<and> (new = [] \<or> new = old) \<or> proxy_ids w' = proxy_ids w @ old \<and> new = []
       \<or> proxy_ids w' = proxy_ids w \<and> old = [] \<and> new = [random E (sw_draws w)] \<and> sw_draws w < sw_draws w')
     \<and> fst ` set (sw_intents w') = fst ` set (sw_intents w)"

definition segment_ok :: "sync_env \<Rightarrow> string list \<Rightarrow> sync_world \<Rightarrow> sync_error + sync_result \<Rightarrow> sync_world \<Rightarrow> bool" where
  "segment_ok E old w r w' \<longleftrightarrow> good E w w' \<and> (\<forall>pc \<in> set (result_pcs r). pc_ok E w' pc) \<and> ids_flow E old (concat (map pc_ids (result_pcs r))) w w'"

lemma result_pcs_simps [simp]: "result_pcs (Inl e) = []" "result_pcs (Inr (Waiting pc)) = [pc]" "result_pcs (Inr (Uploaded v)) = []"
  "result_pcs (Inr (Finalized st a)) = []" "result_pcs (Inr (Assessed s)) = []"
  by (simp_all add: result_pcs_def)

lemma segment_quiet:
  assumes "quiet w w'" and "data_wf E w" and "\<forall>pc \<in> set (result_pcs r). pc_ok E w' pc \<and> pc_ids pc \<in> {[], old}"
  shows "segment_ok E old w r w'"
proof -
  have "proxy_ids w' = proxy_ids w" "sw_intents w' = sw_intents w" using assms(1) by (simp_all add: quiet_def core_of_def proxy_ids_def)
  moreover have "concat (map pc_ids (result_pcs r)) = [] \<or> concat (map pc_ids (result_pcs r)) = old"
    using assms(3) by (auto simp: result_pcs_def split: sum.splits sync_result.splits)
  ultimately show ?thesis using quiet_good[OF assms(1,2)] assms(3) by (auto simp: segment_ok_def ids_flow_def)
qed

lemma segment_same: "data_wf E w \<Longrightarrow> \<forall>pc \<in> set (result_pcs r). pc_ok E w pc \<and> pc_ids pc \<in> {[], old} \<Longrightarrow> segment_ok E old w r w"
  using segment_quiet[OF quiet_refl] .

lemma assessmentFor_quiet: "quiet w (snd (assessmentFor E a acc d rc pid t w))"
  using quiet_trans[OF quiet_drawn quiet_ticked] by (simp add: assessmentFor_def)

lemma reject_segment:
  assumes "reject E ans a rc t d w = (r, w')" and "data_wf E w"
  shows "segment_ok E old w r w'"
proof -
  define sw where "sw = assessmentFor E a False d (Some rc) None
         (case t of None \<Rightarrow> map_option (\<lambda>d. media_text (dc_observedMediaType d)) d | Some t \<Rightarrow> Some t) w"
  have q: "quiet w (snd sw)" unfolding sw_def by (rule assessmentFor_quiet)
  show ?thesis
  proof (cases "an_lease ans")
    case False
    then have "r = Inl (SyncError ''lease'')" "w' = snd sw" using assms(1) by (auto simp: reject_def Let_def sw_def)
    then show ?thesis using q assms(2) by (auto intro: segment_quiet)
  next
    case True
    obtain u v where rec: "recordAssessment E (fst sw) None (snd sw) = (u, v)" by fastforce
    then have rw: "w' = v" "result_pcs r = []"
      using assms(1) True by (auto simp: reject_def Let_def sw_def split: sum.splits)
    have g: "good E w (snd sw)" using quiet_good[OF q assms(2)] .
    then have wf: "data_wf E (snd sw)" by (simp add: good_def)
    note k = record_good[OF rec wf]
    have "good E w v" using good_step_trans[OF g k(1)] by simp
    moreover have "proxy_ids v = proxy_ids w" "sw_intents v = sw_intents w"
      using k(2,3) q by (auto simp: quiet_def core_of_def proxy_ids_def)
    ultimately show ?thesis using rw by (simp add: segment_ok_def ids_flow_def)
  qed
qed

lemma process_read_segment:
  assumes "process_read E ans a w = (r, w')" and "data_wf E w" and "row w a"
  shows "segment_ok E [] w r w'"
proof -
  have "segment_ok E [] w (Inr (Waiting (ProcessDecode a bs t))) w" for bs t
    using assms(3) by (intro segment_same[OF assms(2)]) simp
  then show ?thesis using assms(1) unfolding process_read_def
    by (auto split: option.splits if_splits intro: reject_segment[OF _ assms(2)])
qed

lemma process_decode_segment:
  assumes "process_decode E ans a t w = (r, w')" and "data_wf E w" and "row w a"
  shows "segment_ok E [] w r w'"
proof (cases "\<exists>d. r = Inr (Waiting (ProcessPut a d (fresh E w))) \<and> w' = drawn w \<and> decoded_safe d")
  case True
  then obtain d where r: "r = Inr (Waiting (ProcessPut a d (fresh E w)))" "w' = drawn w" "decoded_safe d" by blast
  have "proxy_ids (drawn w) = proxy_ids w" "sw_intents (drawn w) = sw_intents w" "sw_draws w < sw_draws (drawn w)"
    by (simp_all add: drawn_def proxy_ids_def)
  then show ?thesis using quiet_good[OF quiet_drawn assms(2)] row_later[OF assms(3) quiet_later[OF quiet_drawn]] r
    by (simp add: segment_ok_def ids_flow_def fresh_def)
next
  case False
  show ?thesis
  proof (cases "an_decoded ans")
    case None
    then show ?thesis using assms(1) reject_segment[OF _ assms(2)] by (auto simp: process_decode_def)
  next
    case (Some d)
    let ?safe = "\<not> (length (dc_proxyBytes d) < 8 \<or> containsActiveOrPolyglotSignature (dc_proxyBytes d)
                 \<or> detectMediaType (dc_proxyBytes d) \<noteq> Some (dc_proxyMediaType d))"
    have lease: "segment_ok E [] w (Inl e) (drawn w)" for e using quiet_drawn assms(2) by (auto intro: segment_quiet)
    have "\<not> (?safe \<and> an_lease ans \<and> r = Inr (Waiting (ProcessPut a d (fresh E w))) \<and> w' = drawn w)"
      using False by (auto simp: decoded_safe_def)
    then show ?thesis using assms(1) Some lease
      by (auto simp: process_decode_def Let_def split: option.splits if_splits intro: reject_segment[OF _ assms(2)])
  qed
qed

lemma process_observe_segment:
  assumes "process_observe E ans a d i m v w = (r, w')" and wf: "data_wf E w" and row: "row w a" and safe: "decoded_safe d"
    and put: "put_at w a d i m" and fresh: "i \<notin> set (proxy_ids w)"
  shows "segment_ok E [i] w r w'"
proof (cases "\<exists>om bs. v = Some om \<and> read_object w (safe_key a d i) = Some bs \<and> exact_proxy E d m om bs")
  case False
  then have "r = Inl (SyncError ''Safe proxy durability verification failed'')" "w' = w"
    using assms(1) by (auto simp: process_observe_def split: option.splits if_splits)
  then show ?thesis using wf by (auto intro: segment_same)
next
  case True
  then obtain om bs where t: "v = Some om" "read_object w (safe_key a d i) = Some bs" "exact_proxy E d m om bs" by blast
  define p where "p = proxy_of E a d i m w"
  define sw where "sw = assessmentFor E a True (Some d) None (Some i) (Some (media_text (dc_observedMediaType d))) (ticked w)"
  have q: "quiet w (snd sw)" unfolding sw_def using quiet_trans[OF quiet_ticked assessmentFor_quiet] .
  have g: "good E w (snd sw)" using quiet_good[OF q wf] .
  then have wf': "data_wf E (snd sw)" and later: "later w (snd sw)" by (simp_all add: good_def)
  have "proxy_backed E w p"
  proof -
    obtain x where x: "object_at w (safe_key a d i) x" "so_metadata x = m" "so_bytes x = dc_proxyBytes d" "om_mediaType m = media_text (dc_proxyMediaType d)"
      using put by (auto simp: put_at_def)
    then show ?thesis using safe by (auto simp: proxy_backed_def p_def proxy_of_def decoded_safe_def)
  qed
  then have backed: "proxy_backed E (snd sw) p" using later by (rule proxy_backed_later)
  have pid: "proxy_ids (snd sw) = proxy_ids w" "sw_intents (snd sw) = sw_intents w" using q by (simp_all add: quiet_def core_of_def proxy_ids_def)
  show ?thesis
  proof (cases "an_lease ans")
    case False
    then have "r = Inl (SyncError ''lease'')" "w' = snd sw" using assms(1) t by (auto simp: process_observe_def Let_def sw_def)
    then show ?thesis using q wf by (auto intro: segment_quiet)
  next
    case lease: True
    obtain u v where rec: "recordAssessment E (fst sw) (Some p) (snd sw) = (u, v)" by fastforce
    then have rw: "w' = v" "result_pcs r = []"
      using assms(1) lease t by (auto simp: process_observe_def Let_def sw_def p_def split: sum.splits)
    have "px_artifactId p = i" "as_safeProxyArtifactId (fst sw) = Some i" by (simp_all add: p_def proxy_of_def sw_def assessmentFor_def)
    then have k: "good E (snd sw) v" "sw_intents v = sw_intents (snd sw)" "proxy_ids v = proxy_ids (snd sw) @ (if isl u then [] else [i])"
      using record_good[OF rec wf'] backed fresh pid by auto
    have "good E w v" using good_step_trans[OF g k(1)] .
    then show ?thesis using rw k(2,3) pid by (auto simp: segment_ok_def ids_flow_def)
  qed
qed

lemma observed_head: "observed_at w k (head_object w k)"
  by (auto simp: observed_at_def head_object_def object_at_def)

lemma exact_object_same: "same_intent i j \<Longrightarrow> exact_object E i m bs \<Longrightarrow> exact_object E j m bs"
  by (simp add: exact_object_def same_intent_def)

lemma mark_segment:
  assumes "data_wf E w" and "\<forall>pc \<in> set (result_pcs r). pc_ok E (mark_uploaded k w) pc \<and> pc_ids pc \<in> {[], old}"
  shows "segment_ok E old w r (mark_uploaded k w)"
proof -
  have "concat (map pc_ids (result_pcs r)) = [] \<or> concat (map pc_ids (result_pcs r)) = old"
    using assms(2) by (auto simp: result_pcs_def split: sum.splits sync_result.splits)
  then show ?thesis using mark_good[OF assms(1), of k] assms(2) by (auto simp: segment_ok_def ids_flow_def proxy_ids_def)
qed

lemma quarantine_segment: "data_wf E w \<Longrightarrow> segment_ok E old w (Inl e) (mark_quarantined k w)"
  using mark_good[of E w k] by (simp add: segment_ok_def ids_flow_def proxy_ids_def)

lemma put_segment:
  assumes "putImmutable E k bs t w = (Inr m, w')" and "data_wf E w" and "pc_ok E w' pc" and "pc_ids pc \<in> {[], old}"
  shows "segment_ok E old w (Inr (Waiting pc)) w'"
  using put_good[OF assms(1,2)] assms(3,4) by (auto simp: segment_ok_def ids_flow_def proxy_ids_def)

lemma finalize_reread_segment:
  assumes "run_pc E ans (FinalizeReread k m) w = (r, w')" and wf: "data_wf E w" and pc: "pc_ok E w (FinalizeReread k m)"
  shows "segment_ok E old w r w'"
    and "r = Inr (Finalized st a) \<Longrightarrow> \<exists>i. map_of (sw_intents w) k = Some i \<and> row w' a \<and> captureKey (da_descriptor a) = captureKey (it_descriptor i)
      \<and> (st = Recorded \<longrightarrow> da_descriptor a = it_descriptor i \<and> \<not> row w a)"
proof -
  obtain i x where i: "map_of (sw_intents w) k = Some i" and x: "object_at w (it_storageKey i) x" "so_metadata x = m" "exact_object E i m (so_bytes x)"
    using pc by auto
  have "it_storageKey i = storage_key (it_descriptor i)" "descriptor_safe (it_descriptor i)"
    using wf i by (auto simp: data_wf_def intents_ok_def)
  then have v: "verified_against E w (it_descriptor i) (it_storageKey i) (om_version m)"
    using x by (auto simp: verified_against_def exact_object_def)
  have read: "read_object w (it_storageKey i) = Some (so_bytes x)" using x(1) by (simp add: read_object_def object_at_def)
  obtain u w1 where c: "commitVerifiedDurability E (an_task ans) (it_descriptor i) (it_storageKey i) (om_version m) (sha_bytes E (so_bytes x))
      (int (length (so_bytes x))) w = (u, w1)" by fastforce
  have r: "w' = w1" "result_pcs r = []" "r = Inr (Finalized st a) \<Longrightarrow> u = Inr (st, a)" for st a
    using assms(1) i read c by (auto split: sum.splits)
  note g = commit_good[OF c wf v]
  show "segment_ok E old w r w'" using g(1-3) r by (simp add: segment_ok_def ids_flow_def proxy_ids_def)
  show "\<exists>i. map_of (sw_intents w) k = Some i \<and> row w' a \<and> captureKey (da_descriptor a) = captureKey (it_descriptor i)
      \<and> (st = Recorded \<longrightarrow> da_descriptor a = it_descriptor i \<and> \<not> row w a)" if "r = Inr (Finalized st a)"
    using g(4)[OF r(3)[OF that]] r(1) i by blast
qed

lemma run_pc_segment:
  assumes run: "run_pc E ans pc w = (r, w')" and wf: "data_wf E w" and ok: "pc_ok E w pc" and fresh: "set (pc_ids pc) \<inter> set (proxy_ids w) = {}"
  shows "segment_ok E (pc_ids pc) w r w'"
proof (cases pc)
  case (UploadHead k bs t)
  then show ?thesis using run wf by (auto split: option.splits intro: segment_same)
next
  case (UploadPut k bs t)
  show ?thesis
  proof (cases "map_of (sw_intents w) k")
    case (Some i)
    obtain u w1 where p: "putImmutable E (it_storageKey i) bs t w = (u, w1)" by fastforce
    show ?thesis
    proof (cases u)
      case (Inl e)
      then show ?thesis using run UploadPut Some p put_refused[of E "it_storageKey i" bs t w e w1] wf by (auto intro: segment_same)
    next
      case (Inr m)
      then have "r = Inr (Waiting (UploadAfterPut k (om_version m)))" "w' = w1" using run UploadPut Some p by auto
      then show ?thesis using put_segment[OF p[unfolded Inr] wf] by auto
    qed
  qed (use run UploadPut wf in \<open>auto intro: segment_same\<close>)
next
  case (UploadRace k)
  then show ?thesis using run wf by (auto split: option.splits intro: segment_same)
next
  case (UploadObserveHead k)
  then show ?thesis using run wf observed_head by (auto split: option.splits intro!: segment_same)
next
  case (UploadObserveRead k v)
  then show ?thesis using run wf
    by (auto split: option.splits if_splits intro: segment_same mark_segment quarantine_segment)
next
  case (UploadAfterPut k v)
  then show ?thesis using run wf by (auto split: if_splits intro: segment_same mark_segment)
next
  case (FinalizeHead k)
  then show ?thesis using run wf observed_head by (auto split: option.splits intro!: segment_same)
next
  case (FinalizeRead k v)
  show ?thesis
  proof (cases "\<exists>i m bs. map_of (sw_intents w) k = Some i \<and> v = Some m \<and> read_object w (it_storageKey i) = Some bs \<and> exact_object E i m bs")
    case True
    then obtain i m bs where t: "map_of (sw_intents w) k = Some i" "v = Some m" "read_object w (it_storageKey i) = Some bs" "exact_object E i m bs" by blast
    obtain x where x: "object_at w (it_storageKey i) x" "so_metadata x = m" using ok FinalizeRead t by (auto simp: observed_at_def)
    have r: "r = Inr (Waiting (FinalizeReread k m))" "w' = mark_uploaded k w" using run FinalizeRead t by auto
    have pc: "pc_ok E w (FinalizeReread k m)" using t x by (auto simp: read_object_def object_at_def)
    have "later w (mark_uploaded k w)" using mark_good(1)[OF wf] by (simp add: good_def)
    from pc_ok_later[OF pc this] have "pc_ok E (mark_uploaded k w) (FinalizeReread k m)" .
    then show ?thesis unfolding r using wf by (intro mark_segment) (simp_all del: pc_ok.simps)
  next
    case False
    then show ?thesis using run FinalizeRead wf
      by (auto split: option.splits if_splits intro: segment_same quarantine_segment)
  qed
next
  case (FinalizeReread k m)
  then show ?thesis using finalize_reread_segment(1) run wf ok by blast
next
  case (ProcessRead a)
  then show ?thesis using process_read_segment run wf ok by auto
next
  case (ProcessDecode a bs t)
  then show ?thesis using process_decode_segment run wf ok by auto
next
  case (ProcessPut a d i)
  obtain u w1 where p: "putImmutable E (safe_key a d i) (dc_proxyBytes d) (media_text (dc_proxyMediaType d)) w = (u, w1)" by fastforce
  show ?thesis
  proof (cases u)
    case (Inl e)
    then show ?thesis using run ProcessPut p put_refused[of E "safe_key a d i" "dc_proxyBytes d" "media_text (dc_proxyMediaType d)" w e w1] wf
      by (auto intro: segment_same)
  next
    case (Inr m)
    then have r: "r = Inr (Waiting (ProcessHead a d i m))" "w' = w1" using run ProcessPut p by auto
    note g = put_good[OF p[unfolded Inr] wf]
    have "put_at w1 a d i m" using g(2,3) by (auto simp: put_at_def)
    then have "pc_ok E w1 (ProcessHead a d i m)" using ok ProcessPut g(1) by (auto simp: good_def intro: row_later)
    then show ?thesis using put_segment[OF p[unfolded Inr] wf] r ProcessPut by auto
  qed
next
  case (ProcessHead a d i m)
  then show ?thesis using run wf ok observed_head by (auto intro!: segment_same)
next
  case (ProcessObserve a d i m v)
  then show ?thesis using process_observe_segment[of E ans a d i m v w r w'] run wf ok fresh by auto
qed

end
