(* ===== verification/Sync_Machine.thy ===== *)
theory Sync_Machine
  imports Sync_Invariants
begin

section \<open>Every step keeps the invariant\<close>

lemma ids_flow_distinct:
  assumes flow: "ids_flow E old new w w'" and inj: "inj (random E)"
    and d: "distinct (A @ old @ B @ proxy_ids w)" and sub: "set (A @ old @ B) \<union> set (proxy_ids w) \<union> fst ` set (sw_intents w) \<subseteq> random E ` {..<sw_draws w}"
    and le: "sw_draws w \<le> sw_draws w'"
  shows "distinct (A @ new @ B @ proxy_ids w') \<and> set (A @ new @ B) \<union> set (proxy_ids w') \<union> fst ` set (sw_intents w') \<subseteq> random E ` {..<sw_draws w'}"
proof -
  have i: "fst ` set (sw_intents w') = fst ` set (sw_intents w)" using flow by (simp add: ids_flow_def)
  have mono: "random E ` {..<sw_draws w} \<subseteq> random E ` {..<sw_draws w'}" using le by (intro image_mono) auto
  have new: "random E (sw_draws w) \<notin> random E ` {..<sw_draws w}" using inj by (auto dest: injD)
  have inside: "set (A @ old @ B) \<union> set (proxy_ids w) \<union> fst ` set (sw_intents w') \<subseteq> random E ` {..<sw_draws w'}"
    using sub mono unfolding i by (rule subset_trans)
  consider "proxy_ids w' = proxy_ids w" "new = []" | "proxy_ids w' = proxy_ids w" "new = old" | "proxy_ids w' = proxy_ids w @ old" "new = []"
    | "proxy_ids w' = proxy_ids w" "old = []" "new = [random E (sw_draws w)]" "sw_draws w < sw_draws w'"
    using flow by (auto simp: ids_flow_def)
  then show ?thesis
  proof cases
    case 4
    have "random E (sw_draws w) \<in> random E ` {..<sw_draws w'}" using 4(4) by auto
    then have "set (A @ new @ B) \<union> set (proxy_ids w') \<union> fst ` set (sw_intents w') \<subseteq> random E ` {..<sw_draws w'}"
      using inside unfolding 4(1-3) by simp
    moreover have "random E (sw_draws w) \<notin> set A \<union> set B \<union> set (proxy_ids w)" using sub new by auto
    then have "distinct (A @ new @ B @ proxy_ids w')" using d unfolding 4(1-3) by auto
    ultimately show ?thesis by blast
  qed (use d inside in auto)
qed

lemma ids_ok_split: "ids_ok E w pcs \<longleftrightarrow> distinct (concat (map pc_ids pcs) @ proxy_ids w)
    \<and> set (concat (map pc_ids pcs)) \<union> set (proxy_ids w) \<union> fst ` set (sw_intents w) \<subseteq> random E ` {..<sw_draws w}"
  by (simp add: ids_ok_def proxy_ids_def)

text \<open>A call at position \<open>k\<close> gives way to what its segment leaves waiting.\<close>

lemma calls_after_segment:
  assumes wf: "sync_wf E w" and k: "k < length (sw_calls w)" and seg: "segment_ok E (pc_ids (sw_calls w ! k)) w r w'"
    and inj: "inj (random E)" and pcs: "pcs = take k (sw_calls w) @ result_pcs r @ drop (Suc k) (sw_calls w)"
  shows "sync_wf E (w'\<lparr>sw_calls := pcs\<rparr>)"
proof -
  let ?v = "w'\<lparr>sw_calls := pcs\<rparr>"
  have g: "data_wf E w'" "later w w'" using seg by (simp_all add: segment_ok_def good_def)
  have core: "core_of ?v = core_of w'" "proxy_ids ?v = proxy_ids w'" by (simp_all add: core_of_def proxy_ids_def)
  have later: "later w' ?v" using core by (simp add: later_def intents_kept_def)
  have "pc_ok E w' pc" if "pc \<in> set pcs" for pc
  proof -
    have "pc \<in> set (sw_calls w) \<or> pc \<in> set (result_pcs r)" using that pcs by (auto dest: in_set_takeD in_set_dropD)
    then show ?thesis using wf seg pc_ok_later[OF _ g(2)] by (auto simp: sync_wf_def segment_ok_def)
  qed
  then have ok: "\<forall>pc \<in> set pcs. pc_ok E ?v pc" using pc_ok_later[OF _ later] by blast
  let ?A = "concat (map pc_ids (take k (sw_calls w)))" and ?B = "concat (map pc_ids (drop (Suc k) (sw_calls w)))"
  have split: "concat (map pc_ids (sw_calls w)) = ?A @ pc_ids (sw_calls w ! k) @ ?B"
    by (subst id_take_nth_drop[OF k]) simp
  have ids: "ids_ok E w (sw_calls w)" using wf by (simp add: sync_wf_def)
  have "sw_draws w \<le> sw_draws w'" using g(2) by (simp add: later_def)
  then have "distinct (?A @ concat (map pc_ids (result_pcs r)) @ ?B @ proxy_ids w')
      \<and> set (?A @ concat (map pc_ids (result_pcs r)) @ ?B) \<union> set (proxy_ids w') \<union> fst ` set (sw_intents w') \<subseteq> random E ` {..<sw_draws w'}"
    using seg ids unfolding ids_ok_split split segment_ok_def by (intro ids_flow_distinct[OF _ inj]) auto
  then have "ids_ok E ?v pcs" unfolding ids_ok_split core(2) by (simp add: pcs)
  then show ?thesis using ok data_wf_core[OF core(1) g(1)] by (simp add: sync_wf_def)
qed

lemma update_nth: "k < length xs \<Longrightarrow> xs[k := y] = take k xs @ [y] @ drop (Suc k) xs"
  by (simp add: upd_conv_take_nth_drop)

lemma sync_resume_wf:
  assumes wf: "sync_wf E w" and k: "k < length (sw_calls w)" and inj: "inj (random E)"
    and run: "run_pc E ans (sw_calls w ! k) w = (r, w')"
  shows "sync_wf E (snd (after_segment k (r, w'))) \<and> later w (snd (after_segment k (r, w')))"
proof -
  let ?pc = "sw_calls w ! k"
  have ok: "data_wf E w" "pc_ok E w ?pc" using wf k by (auto simp: sync_wf_def)
  have "set (pc_ids ?pc) \<subseteq> set (concat (map pc_ids (sw_calls w)))" using k by (force simp: in_set_conv_nth)
  moreover have "distinct (concat (map pc_ids (sw_calls w)) @ proxy_ids w)" using wf by (simp add: sync_wf_def ids_ok_split)
  ultimately have "set (pc_ids ?pc) \<inter> set (proxy_ids w) = {}" by fastforce
  from run_pc_segment[OF run ok this] have seg: "segment_ok E (pc_ids ?pc) w r w'" .
  then have c: "sw_calls w' = sw_calls w" and l: "later w w'" by (simp_all add: segment_ok_def good_def)
  have "snd (after_segment k (r, w')) = w'\<lparr>sw_calls := take k (sw_calls w) @ result_pcs r @ drop (Suc k) (sw_calls w)\<rparr>"
    using k c by (auto simp: after_segment_def result_pcs_def drop_call_def update_nth split: sum.split sync_result.split)
  moreover have "later w' (w'\<lparr>sw_calls := v\<rparr>)" for v by (simp add: later_def intents_kept_def)
  ultimately show ?thesis using calls_after_segment[OF wf k seg inj refl] later_trans[OF l] by simp
qed

lemma sync_start_wf:
  assumes wf: "sync_wf E w" and q: "quiet w w'" and pc: "\<forall>pc \<in> set (result_pcs r). pc_ok E w' pc \<and> pc_ids pc = []"
  shows "sync_wf E (snd (after_start (r, w'))) \<and> later w (snd (after_start (r, w')))"
proof -
  have c: "sw_calls w' = sw_calls w" and l: "later w w'" and p: "proxy_ids w' = proxy_ids w" "sw_intents w' = sw_intents w" "sw_draws w \<le> sw_draws w'"
    using q quiet_later[OF q] by (simp_all add: quiet_def core_of_def proxy_ids_def)
  let ?v = "w'\<lparr>sw_calls := sw_calls w @ result_pcs r\<rparr>"
  have v: "snd (after_start (r, w')) = ?v"
    using c by (auto simp: after_start_def result_pcs_def split: sum.split sync_result.split)
  have "core_of ?v = core_of w" "proxy_ids ?v = proxy_ids w" using q by (simp_all add: quiet_def core_of_def proxy_ids_def)
  then have "data_wf E ?v" using wf data_wf_core by (auto simp: sync_wf_def)
  moreover have lv: "later w ?v"
    using l by (rule later_trans) (simp add: later_def intents_kept_def)
  moreover have "pc_ok E ?v pc" if "pc \<in> set (sw_calls w @ result_pcs r)" for pc
  proof -
    have "later w' ?v" by (simp add: later_def intents_kept_def)
    then show ?thesis using that wf pc pc_ok_later[OF _ lv] pc_ok_later[of E w' pc ?v] by (auto simp: sync_wf_def)
  qed
  moreover have "ids_ok E ?v (sw_calls w @ result_pcs r)"
  proof -
    have none: "concat (map pc_ids (sw_calls w @ result_pcs r)) = concat (map pc_ids (sw_calls w))" using pc by simp
    have "random E ` {..<sw_draws w} \<subseteq> random E ` {..<sw_draws w'}" using p(3) by (intro image_mono) auto
    moreover have "proxy_ids ?v = proxy_ids w" "sw_intents ?v = sw_intents w" "sw_draws ?v = sw_draws w'" using p by (simp_all add: proxy_ids_def)
    moreover have "ids_ok E w (sw_calls w)" using wf by (simp add: sync_wf_def)
    ultimately show ?thesis unfolding ids_ok_split none by (metis subset_trans)
  qed
  ultimately show ?thesis unfolding v by (simp add: sync_wf_def)
qed

lemma authorise_quiet: "authoriseIntent E k t b w = (r, w') \<Longrightarrow> quiet w w' \<and> (\<forall>i. r = Inr i \<longrightarrow> map_of (sw_intents w) k = Some i)"
  by (auto simp: authoriseIntent_def split: option.splits if_splits)

lemma start_upload_quiet: "start_upload E k t bs c w = (r, w') \<Longrightarrow> quiet w w' \<and> (\<forall>pc \<in> set (result_pcs r). pc = UploadHead k bs c)"
  using authorise_quiet[of E k t False w] by (auto simp: start_upload_def split: prod.splits sum.splits if_splits)

lemma start_finalize_quiet: "start_finalize E p k t w = (r, w') \<Longrightarrow> quiet w w' \<and> (\<forall>pc \<in> set (result_pcs r). pc = FinalizeHead k)"
  using authorise_quiet[of E k t True w] by (auto simp: start_finalize_def split: prod.splits sum.splits)

lemma start_process_quiet: "start_process i w = (r, w') \<Longrightarrow> data_wf E w \<Longrightarrow> w' = w \<and> (\<forall>pc \<in> set (result_pcs r). \<exists>a. pc = ProcessRead a \<and> row w a)"
  by (auto simp: start_process_def data_wf_def rows_ok_def row_def split: option.splits)

lemma issue_wf:
  assumes wf: "sync_wf E w" and inj: "inj (random E)" and run: "issueUploadIntent E p d w = (r, w')"
  shows "sync_wf E w' \<and> later w w'"
proof (cases r)
  case (Inl e)
  then have "w' = w" using run by (auto simp: issueUploadIntent_def Let_def split: sum.splits)
  then show ?thesis using wf later_refl by simp
next
  case (Inr u)
  define i where "i = \<lparr>it_intentId = fresh E w, it_tokenDigest = sha_hex E (fresh E (drawn w)), it_storageKey = storage_key d,
    it_expiresAt = to_iso (clock E (sw_ticks w) + intent_ttl E), it_descriptor = d, it_uploaded = False, it_quarantined = False\<rparr>"
  have i: "it_descriptor i = d" "it_storageKey i = storage_key d" by (simp_all add: i_def)
  have w': "w' = (ticked (drawn (drawn w)))\<lparr>sw_intents := map_set (fresh E w) i (sw_intents w)\<rparr>" and "validateDescriptor E d = Inr ()"
    using run Inr by (auto simp: issueUploadIntent_def Let_def bind_result_def i_def split: sum.splits)
  then have safe: "descriptor_safe d" using validateDescriptor_safe by blast
  have same: "sw_objects w' = sw_objects w" "sw_repo w' = sw_repo w" "sw_calls w' = sw_calls w" "proxy_ids w' = proxy_ids w"
    "sw_intents w' = map_set (fresh E w) i (sw_intents w)" "sw_draws w' = Suc (Suc (sw_draws w))"
    by (simp_all add: w' ticked_def drawn_def proxy_ids_def)
  have ids: "ids_ok E w (sw_calls w)" using wf by (simp add: sync_wf_def)
  then have "fst ` set (sw_intents w) \<subseteq> random E ` {..<sw_draws w}" by (simp add: ids_ok_split)
  then have "fresh E w \<notin> fst ` set (sw_intents w)" using inj by (auto simp: fresh_def dest: injD)
  then have new: "map_of (sw_intents w) (fresh E w) = None" by (simp add: map_of_eq_None_iff)
  then have later: "later w w'" by (auto simp: later_def intents_kept_def same)
  have wfd: "data_wf E w" using wf by (simp add: sync_wf_def)
  have o: "object_at w' = object_at w" by (simp add: fun_eq_iff object_at_def same)
  then have "objects_ok w' = objects_ok w" "rows_ok E w' = rows_ok E w" "indexes_ok w' = indexes_ok w" "proxies_ok E w' = proxies_ok E w"
    "assessments_ok w' = assessments_ok w" "ledger_ok w' = ledger_ok w"
    by (simp_all add: objects_ok_def rows_ok_def indexes_ok_def proxies_ok_def assessments_ok_def ledger_ok_def row_def row_backed_def proxy_backed_def same)
  moreover have "intents_ok w'" using wfd i safe by (auto simp: data_wf_def intents_ok_def same)
  ultimately have "data_wf E w'" using wfd by (simp add: data_wf_def)
  moreover have "\<forall>pc \<in> set (sw_calls w'). pc_ok E w' pc" using wf pc_ok_later[OF _ later] by (simp add: sync_wf_def same)
  moreover have "ids_ok E w' (sw_calls w')"
  proof -
    have mono: "random E ` {..<sw_draws w} \<subseteq> random E ` {..<sw_draws w'}" and here: "fresh E w \<in> random E ` {..<sw_draws w'}"
      by (auto simp: same fresh_def)
    have keys: "fst ` set (sw_intents w') = insert (fresh E w) (fst ` set (sw_intents w))"
      using new by (simp add: same map_set_new)
    have "set (concat (map pc_ids (sw_calls w))) \<union> set (proxy_ids w) \<union> fst ` set (sw_intents w) \<subseteq> random E ` {..<sw_draws w'}"
      using ids mono unfolding ids_ok_split by (metis subset_trans)
    then show ?thesis using ids here unfolding ids_ok_split same(3,4) keys by simp
  qed
  ultimately show ?thesis using later by (simp add: sync_wf_def)
qed

lemma lose_call_wf:
  assumes wf: "sync_wf E w" and inj: "inj (random E)"
  shows "sync_wf E (w\<lparr>sw_calls := drop_call k (sw_calls w)\<rparr>) \<and> later w (w\<lparr>sw_calls := drop_call k (sw_calls w)\<rparr>)"
proof (cases "k < length (sw_calls w)")
  case True
  have "segment_ok E (pc_ids (sw_calls w ! k)) w (Inl (SyncError ''lost'')) w"
    using wf by (intro segment_same) (simp_all add: sync_wf_def)
  from calls_after_segment[OF wf True this inj refl] show ?thesis by (simp add: drop_call_def later_def intents_kept_def)
next
  case False
  then have "w\<lparr>sw_calls := drop_call k (sw_calls w)\<rparr> = w" by (simp add: drop_call_def)
  then show ?thesis using wf later_refl by simp
qed

lemma quiet_wf: "sync_wf E w \<Longrightarrow> quiet w w' \<Longrightarrow> sync_wf E w' \<and> later w w'"
  using sync_start_wf[of E w w' "Inl (SyncError ''none'')"] by (simp add: after_start_def)

text \<open>Every action.\<close>

lemma perform_wf:
  assumes wf: "sync_wf E w" and inj: "inj (random E)" and run: "perform E c w = (r, w')"
  shows "sync_wf E w' \<and> later w w'"
proof (cases c)
  case (Issue p d)
  then show ?thesis using run issue_wf[OF wf inj] by (auto split: prod.splits)
next
  case (StartUpload k t bs m)
  obtain x v where s: "start_upload E k t bs m w = (x, v)" by fastforce
  have "w' = snd (after_start (x, v))" using run StartUpload s by (metis perform.simps(2) snd_conv)
  then show ?thesis using sync_start_wf[OF wf, of v x] start_upload_quiet[OF s] by fastforce
next
  case (StartFinalize p k t)
  obtain x v where s: "start_finalize E p k t w = (x, v)" by fastforce
  have "w' = snd (after_start (x, v))" using run StartFinalize s by (metis perform.simps(3) snd_conv)
  then show ?thesis using sync_start_wf[OF wf, of v x] start_finalize_quiet[OF s] by fastforce
next
  case (StartProcess i)
  obtain x v where s: "start_process i w = (x, v)" by fastforce
  have "data_wf E w" using wf by (simp add: sync_wf_def)
  note q = start_process_quiet[OF s this]
  have "w' = snd (after_start (x, v))" using run StartProcess s by (metis perform.simps(4) snd_conv)
  have "v = w" "\<forall>pc \<in> set (result_pcs x). pc_ok E w pc \<and> pc_ids pc = []" using q by fastforce+
  then show ?thesis using sync_start_wf[OF wf quiet_refl, of x] \<open>w' = snd (after_start (x, v))\<close> by simp
next
  case (Resume k ans)
  show ?thesis
  proof (cases "k < length (sw_calls w)")
    case True
    obtain x v where s: "run_pc E ans (sw_calls w ! k) w = (x, v)" by fastforce
    have "w' = snd (after_segment k (x, v))" using run Resume True s by (metis perform.simps(5) snd_conv)
    then show ?thesis using sync_resume_wf[OF wf True inj s] by simp
  next
    case False
    then show ?thesis using run Resume wf later_refl by auto
  qed
next
  case (LoseCall k)
  then show ?thesis using run lose_call_wf[OF wf inj] by auto
next
  case (RecordUnknownProvider key)
  then show ?thesis using run quiet_wf[OF wf quiet_duplicate(2)] by auto
next
  case (SuppressDeletion key)
  then show ?thesis using run quiet_wf[OF wf quiet_duplicate(3)] by auto
qed

lemma empty_sync_world_wf: "sync_wf E empty_sync_world"
  by (simp add: sync_wf_def wf_parts ids_ok_def empty_sync_world_def empty_sync_repository_def object_at_def verified_events_def)

text \<open>The invariant of every reachable state, and growth along any sequence of actions.\<close>

lemma sync_reachable_wf:
  assumes "sync_reachable E w" and "inj (random E)"
  shows "sync_wf E w"
  using assms
proof (induction rule: sync_reachable.induct)
  case sync_init
  then show ?case by (simp add: empty_sync_world_wf)
next
  case (sync_step w c r w')
  then show ?case using perform_wf by blast
qed

fun performs :: "sync_env \<Rightarrow> sync_action list \<Rightarrow> sync_world \<Rightarrow> sync_world" where
  "performs E [] w = w"
| "performs E (c # cs) w = performs E cs (snd (perform E c w))"

lemma performs_reachable: "sync_reachable E w \<Longrightarrow> sync_reachable E (performs E cs w)"
  by (induction cs arbitrary: w) (auto intro: sync_step prod.collapse[symmetric])

lemma performs_later: "sync_wf E w \<Longrightarrow> inj (random E) \<Longrightarrow> sync_wf E (performs E cs w) \<and> later w (performs E cs w)"
proof (induction cs arbitrary: w)
  case Nil
  then show ?case by (simp add: later_refl)
next
  case (Cons c cs)
  have "sync_wf E (snd (perform E c w)) \<and> later w (snd (perform E c w))"
    by (rule perform_wf[OF Cons.prems prod.collapse[symmetric]])
  then show ?case using Cons.IH Cons.prems(2) later_trans[of w "snd (perform E c w)"] by simp
qed

end
