(* ===== verification/Reconciliation.thy ===== *)
theory Reconciliation
  imports Sync_Machine Js_Sort
begin

text \<open>
  Reconciliation of the object store with the evidence rows (\<open>packages/storage/src/reconciliation.ts\<close>, \<open>list\<close> of
  \<open>object-store.ts\<close>).  Every call of the store is two awaits, at the first of which the store is read and after the
  second of which the caller goes on; other calls may run at each.  \<open>V n\<close> is the state after \<open>n\<close> awaits.
\<close>

section \<open>Code\<close>

datatype reconciliation_state =
    Consistent | ObjectOnly | RowOnly | MissingObject | DivergentChecksum | DuplicateAttempted | UnknownProvider
  | ContentQuarantine | DeletionSuppression

fun reconciliation_text :: "reconciliation_state \<Rightarrow> string" where
  "reconciliation_text Consistent = ''consistent''"
| "reconciliation_text ObjectOnly = ''object_only''"
| "reconciliation_text RowOnly = ''row_only''"
| "reconciliation_text MissingObject = ''missing_object''"
| "reconciliation_text DivergentChecksum = ''divergent_checksum''"
| "reconciliation_text DuplicateAttempted = ''duplicate_attempt''"
| "reconciliation_text UnknownProvider = ''unknown_provider''"
| "reconciliation_text ContentQuarantine = ''content_quarantine''"
| "reconciliation_text DeletionSuppression = ''deletion_suppression''"

record reconciliation_finding =
  rf_state :: reconciliation_state
  rf_organizationId :: string
  rf_key :: string
  rf_artifactId :: "string option"
  rf_detail :: string

definition starts_with :: "string \<Rightarrow> string \<Rightarrow> bool" where
  "starts_with p s \<longleftrightarrow> take (length p) s = p"

definition list_objects :: "sync_env \<Rightarrow> sync_world \<Rightarrow> string \<Rightarrow> object_metadata list" where
  "list_objects E w p = sort_by (\<lambda>a b. collate E (om_key a) (om_key b))
     (filter (\<lambda>m. starts_with p (om_key m)) (map (\<lambda>x. so_metadata (snd x)) (sw_objects w)))"

definition artifactByStorageKey :: "sync_repository \<Rightarrow> string \<Rightarrow> durable_artifact option" where
  "artifactByStorageKey r k = map_of (sr_storageIndex r) k"

definition hasDurabilityReceipt :: "sync_repository \<Rightarrow> string \<Rightarrow> bool" where
  "hasDurabilityReceipt r i \<longleftrightarrow> i \<in> set (sr_receipts r)"

definition proxyByStorageKey :: "sync_repository \<Rightarrow> string \<Rightarrow> safe_proxy option" where
  "proxyByStorageKey r k = List.find (\<lambda>p. px_storageKey p = k) (map snd (sr_proxies r))"

text \<open>An object without a row.\<close>

definition unowned :: "sync_repository \<Rightarrow> string \<Rightarrow> string \<Rightarrow> string \<Rightarrow> reconciliation_finding" where
  "unowned r org k detail = \<lparr>rf_state = if k \<in> set (sr_deletionSuppressions r) then DeletionSuppression else ObjectOnly,
     rf_organizationId = org, rf_key = k, rf_artifactId = None, rf_detail = detail\<rparr>"

definition proxy_matches :: "safe_proxy \<Rightarrow> durable_artifact \<Rightarrow> bool" where
  "proxy_matches p a \<longleftrightarrow> px_organizationId p = ud_organizationId (da_descriptor a) \<and> px_parentArtifactId p = ud_artifactId (da_descriptor a)
     \<and> px_parentSha256 p = ud_sha256 (da_descriptor a)"

definition accepted_proxy :: "sync_repository \<Rightarrow> string \<Rightarrow> safe_proxy option option" where
  "accepted_proxy r i = (case map_of (sr_assessments r) i of
     None \<Rightarrow> None
   | Some s \<Rightarrow> if as_accepted s then Some (Option.bind (as_safeProxyArtifactId s) (map_of (sr_proxies r))) else None)"

definition proxy_diverges :: "sync_env \<Rightarrow> safe_proxy \<Rightarrow> object_metadata \<Rightarrow> bytes \<Rightarrow> bool" where
  "proxy_diverges E p m bs \<longleftrightarrow> om_version m \<noteq> px_objectVersion p \<or> om_byteLength m \<noteq> int (length bs) \<or> px_byteLength p \<noteq> int (length bs)
     \<or> om_mediaType m \<noteq> px_mediaType p \<or> sha_bytes E bs \<noteq> px_sha256 p"

text \<open>One listed object: its finding, and the awaits passed.\<close>

definition reconcile_object ::
  "sync_env \<Rightarrow> (nat \<Rightarrow> sync_world) \<Rightarrow> string \<Rightarrow> object_metadata \<Rightarrow> nat \<Rightarrow> reconciliation_finding \<times> nat" where
  "reconcile_object E V org m n = (let k = om_key m; r = sw_repo (V n) in
     case artifactByStorageKey r k of
       None \<Rightarrow> (unowned r org k ''Object exists without a committed artifact row.'', n)
     | Some a \<Rightarrow> let i = ud_artifactId (da_descriptor a);
           found = (\<lambda>st key art d. \<lparr>rf_state = st, rf_organizationId = org, rf_key = key, rf_artifactId = Some art, rf_detail = d\<rparr>) in
         if \<not> hasDurabilityReceipt r i then (found RowOnly k i ''Artifact row exists without its atomic durability receipt.'', n)
         else if (case read_object (V (n + 1)) k of None \<Rightarrow> True | Some bs \<Rightarrow> sha_bytes E bs \<noteq> ud_sha256 (da_descriptor a))
         then (found DivergentChecksum k i ''Current object bytes diverge from the immutable receipt.'', n + 2)
         else (case accepted_proxy (sw_repo (V (n + 2))) i of
             None \<Rightarrow> (found ContentQuarantine k i ''Original is durable but has no accepted safe proxy.'', n + 2)
           | Some q \<Rightarrow> (case q of
               None \<Rightarrow> (found ContentQuarantine (da_storageKey a) i ''Accepted assessment has no matching safe-proxy provenance.'', n + 2)
             | Some p \<Rightarrow>
                 if \<not> proxy_matches p a
                 then (found ContentQuarantine (da_storageKey a) i ''Accepted assessment has no matching safe-proxy provenance.'', n + 2)
                 else (case (head_object (V (n + 3)) (px_storageKey p), read_object (V (n + 5)) (px_storageKey p)) of
                     (Some pm, Some bs) \<Rightarrow>
                       if proxy_diverges E p pm bs
                       then (found DivergentChecksum (px_storageKey p) (px_artifactId p) ''Trusted proxy object diverges from its immutable provenance.'', n + 6)
                       else (found Consistent k i ''Object, receipt, assessment and safe proxy agree.'', n + 6)
                   | _ \<Rightarrow> (found MissingObject (px_storageKey p) (px_artifactId p)
                       ''Trusted proxy row exists but its immutable object is missing.'', n + 6)))))"

fun reconcile_objects ::
  "sync_env \<Rightarrow> (nat \<Rightarrow> sync_world) \<Rightarrow> string \<Rightarrow> object_metadata list \<Rightarrow> nat \<Rightarrow> reconciliation_finding list \<times> nat" where
  "reconcile_objects E V org [] n = ([], n)"
| "reconcile_objects E V org (m # ms) n = (case reconcile_object E V org m n of
     (f, n') \<Rightarrow> case reconcile_objects E V org ms n' of (fs, k) \<Rightarrow> (f # fs, k))"

definition missing_rows :: "sync_world \<Rightarrow> string \<Rightarrow> string list \<Rightarrow> reconciliation_finding list" where
  "missing_rows w org keys = map (\<lambda>a. \<lparr>rf_state = MissingObject, rf_organizationId = org, rf_key = da_storageKey a,
       rf_artifactId = Some (ud_artifactId (da_descriptor a)), rf_detail = ''Durability row exists but the object cannot be listed.''\<rparr>)
     (filter (\<lambda>a. ud_organizationId (da_descriptor a) = org \<and> da_storageKey a \<notin> set keys) (map snd (sr_artifacts (sw_repo w))))"

definition noted_keys :: "sync_world \<Rightarrow> string \<Rightarrow> string \<Rightarrow> reconciliation_finding list" where
  "noted_keys w org p =
     map (\<lambda>k. \<lparr>rf_state = DuplicateAttempted, rf_organizationId = org, rf_key = k, rf_artifactId = None,
         rf_detail = ''A repeated capture finalisation resolved to the existing identity.''\<rparr>)
       (filter (starts_with p) (sr_duplicateKeys (sw_repo w)))
     @ map (\<lambda>k. \<lparr>rf_state = UnknownProvider, rf_organizationId = org, rf_key = k, rf_artifactId = None,
         rf_detail = ''Provider outcome requires observation before retry.''\<rparr>) (sr_unknownProviderKeys (sw_repo w))"

definition stray_proxies :: "sync_repository \<Rightarrow> string \<Rightarrow> object_metadata list \<Rightarrow> reconciliation_finding list" where
  "stray_proxies r org ms = map (\<lambda>m. unowned r org (om_key m) ''Safe-namespace object has no fenced proxy provenance and remains untrusted.'')
     (filter (\<lambda>m. proxyByStorageKey r (om_key m) = None) ms)"

definition finding_text :: "reconciliation_finding \<Rightarrow> string" where
  "finding_text f = rf_key f @ '':'' @ reconciliation_text (rf_state f)"

definition reconcileEvidence :: "sync_env \<Rightarrow> (nat \<Rightarrow> sync_world) \<Rightarrow> string \<Rightarrow> reconciliation_finding list" where
  "reconcileEvidence E V org =
     (let p = ''quarantine/'' @ org @ ''/''; objects = list_objects E (V 1) p in
      case reconcile_objects E V org objects 2 of (fs, n) \<Rightarrow>
        sort_by (\<lambda>a b. collate E (finding_text a) (finding_text b))
          (fs @ missing_rows (V n) org (map om_key objects) @ noted_keys (V n) org p
            @ stray_proxies (sw_repo (V (n + 2))) org (list_objects E (V (n + 1)) (''safe/'' @ org @ ''/''))))"

section \<open>What it can report\<close>

text \<open>A run of the system as a reconciliation sees it.\<close>

definition run_of :: "sync_env \<Rightarrow> (nat \<Rightarrow> sync_world) \<Rightarrow> bool" where
  "run_of E V \<longleftrightarrow> (\<forall>n. data_wf E (V n)) \<and> (\<forall>m n. m \<le> n \<longrightarrow> later (V m) (V n))"

lemma run_ofD: "run_of E V \<Longrightarrow> data_wf E (V n)" "run_of E V \<Longrightarrow> m \<le> n \<Longrightarrow> later (V m) (V n)"
  by (simp_all add: run_of_def)

lemma owned_object:
  assumes "data_wf E w" and "artifactByStorageKey (sw_repo w) k = Some a"
  shows "row w a" and "k = da_storageKey a" and "hasDurabilityReceipt (sw_repo w) (ud_artifactId (da_descriptor a))"
    and "\<exists>x. object_at w k x \<and> sha_bytes E (so_bytes x) = ud_sha256 (da_descriptor a)"
proof -
  have "indexes_ok w" using assms(1) by (simp add: data_wf_def)
  then show r: "row w a" and k: "k = da_storageKey a" using assms(2) unfolding artifactByStorageKey_def indexes_ok_def by blast+
  have ok: "rows_ok E w" using assms(1) by (simp add: data_wf_def)
  have "row_backed E w a" "ud_artifactId (da_descriptor a) \<in> set (sr_receipts (sw_repo w))"
    using r ok unfolding row_def rows_ok_def by blast+
  then show "hasDurabilityReceipt (sw_repo w) (ud_artifactId (da_descriptor a))"
    and "\<exists>x. object_at w k x \<and> sha_bytes E (so_bytes x) = ud_sha256 (da_descriptor a)"
    using k unfolding hasDurabilityReceipt_def row_backed_def by blast+
qed

lemma accepted_parts:
  assumes "data_wf E w" and "row w a" and "accepted_proxy (sw_repo w) (ud_artifactId (da_descriptor a)) = Some q"
  shows "\<exists>p. q = Some p \<and> proxy_matches p a \<and> proxy_backed E w p \<and> trustedProxyFor (sw_repo w) (ud_artifactId (da_descriptor a)) \<noteq> None"
proof -
  let ?i = "ud_artifactId (da_descriptor a)"
  obtain s where s: "map_of (sr_assessments (sw_repo w)) ?i = Some s" "as_accepted s" "q = Option.bind (as_safeProxyArtifactId s) (map_of (sr_proxies (sw_repo w)))"
    using assms(3) by (auto simp: accepted_proxy_def split: option.splits if_splits)
  then obtain j p where p: "as_safeProxyArtifactId s = Some j" "map_of (sr_proxies (sw_repo w)) j = Some p" "px_parentArtifactId p = ?i"
    using wf_assessments(1)[OF assms(1)] unfolding assessments_ok_def by blast
  have b: "proxy_backed E w p" "\<exists>b. map_of (sr_artifacts (sw_repo w)) (px_parentArtifactId p) = Some b \<and> provenance_ok p b"
    using assms(1) p(2) by (auto simp: data_wf_def proxies_ok_def)
  then have m: "proxy_matches p a" using assms(2) p(3) by (auto simp: row_def proxy_matches_def provenance_ok_def)
  have "p \<in> set (map snd (sr_proxies (sw_repo w)))" using map_of_SomeD[OF p(2)] by force
  then have "List.find (\<lambda>p. px_parentArtifactId p = ?i) (map snd (sr_proxies (sw_repo w))) \<noteq> None"
    using p(3) by (auto simp: find_None_iff)
  then have "trustedProxyFor (sw_repo w) ?i \<noteq> None" using s(1,2) by (simp add: trustedProxyFor_def)
  moreover have "q = Some p" using s(3) p by simp
  ultimately show ?thesis using m b(1) by blast
qed

definition object_finding :: "(nat \<Rightarrow> sync_world) \<Rightarrow> reconciliation_finding \<Rightarrow> bool" where
  "object_finding V f \<longleftrightarrow> rf_state f \<in> {Consistent, ContentQuarantine, ObjectOnly, DeletionSuppression}
     \<and> (rf_state f = Consistent \<longrightarrow> (\<exists>n i. rf_artifactId f = Some i \<and> trustedProxyFor (sw_repo (V n)) i \<noteq> None))"

lemma unowned_finding: "object_finding V (unowned r org k d)"
  by (simp add: object_finding_def unowned_def)

lemma reconcile_object_finding:
  assumes run: "run_of E V"
  shows "object_finding V (fst (reconcile_object E V org m n))"
proof (cases "artifactByStorageKey (sw_repo (V n)) (om_key m)")
  case None
  then show ?thesis by (simp add: reconcile_object_def Let_def unowned_finding)
next
  case (Some a)
  note o = owned_object[OF run_ofD(1)[OF run] Some]
  obtain x where x: "object_at (V n) (om_key m) x" "sha_bytes E (so_bytes x) = ud_sha256 (da_descriptor a)" using o(4) by blast
  have "object_at (V (n + 1)) (om_key m) x" using object_at_later[OF x(1)] run_ofD(2)[OF run] by simp
  then have read: "read_object (V (n + 1)) (om_key m) = Some (so_bytes x)" by (simp add: read_object_def object_at_def)
  show ?thesis
  proof (cases "accepted_proxy (sw_repo (V (n + 2))) (ud_artifactId (da_descriptor a))")
    case None
    then show ?thesis using Some o(3) read x(2) by (simp add: reconcile_object_def Let_def object_finding_def)
  next
    case acc: (Some q)
    have "row (V (n + 2)) a" using row_later[OF o(1)] run_ofD(2)[OF run] by simp
    from accepted_parts[OF run_ofD(1)[OF run] this acc] obtain p where p: "q = Some p" "proxy_matches p a" "proxy_backed E (V (n + 2)) p"
      "trustedProxyFor (sw_repo (V (n + 2))) (ud_artifactId (da_descriptor a)) \<noteq> None" by blast
    obtain y where y: "object_at (V (n + 2)) (px_storageKey p) y" "sha_bytes E (so_bytes y) = px_sha256 p" "int (length (so_bytes y)) = px_byteLength p"
      "om_version (so_metadata y) = px_objectVersion p" "om_mediaType (so_metadata y) = px_mediaType p"
      using p(3) unfolding proxy_backed_def by blast
    have "object_at (V (n + 3)) (px_storageKey p) y" "object_at (V (n + 5)) (px_storageKey p) y"
      using object_at_later[OF y(1)] run_ofD(2)[OF run] by simp_all
    then have "head_object (V (n + 3)) (px_storageKey p) = Some (so_metadata y)" "read_object (V (n + 5)) (px_storageKey p) = Some (so_bytes y)"
      by (simp_all add: head_object_def read_object_def object_at_def)
    moreover have "om_byteLength (so_metadata y) = int (length (so_bytes y))"
      using run_ofD(1)[OF run] y(1) by (simp add: data_wf_def objects_ok_def)
    then have "\<not> proxy_diverges E p (so_metadata y) (so_bytes y)" using y by (simp add: proxy_diverges_def)
    ultimately show ?thesis using Some acc o(3) read x(2) p
      by (auto simp: reconcile_object_def Let_def object_finding_def)
  qed
qed

lemma reconcile_objects_finding: "run_of E V \<Longrightarrow> f \<in> set (fst (reconcile_objects E V org ms n)) \<Longrightarrow> object_finding V f"
proof (induction ms arbitrary: n)
  case (Cons m ms)
  obtain g k where g: "reconcile_object E V org m n = (g, k)" by fastforce
  obtain fs l where fs: "reconcile_objects E V org ms k = (fs, l)" by fastforce
  have "object_finding V g" using reconcile_object_finding[OF Cons.prems(1), of org m n] g by simp
  then show ?case using Cons.IH[OF Cons.prems(1), of k] Cons.prems(2) g fs by auto
qed simp

text \<open>The key of a row lies in its organisation's quarantine, and the listing shows every object there.\<close>

lemma row_key_prefix:
  assumes "data_wf E w" and "row w a"
  shows "starts_with (''quarantine/'' @ ud_organizationId (da_descriptor a) @ ''/'') (da_storageKey a)"
proof -
  have "rows_ok E w" using assms(1) by (simp add: data_wf_def)
  then have "da_storageKey a = storage_key (da_descriptor a)" using assms(2) unfolding rows_ok_def row_def row_backed_def by blast
  then show ?thesis by (simp add: storage_key_def starts_with_def)
qed

lemma listed_keys:
  assumes "data_wf E w" and "object_at w k x" and "starts_with p k"
  shows "k \<in> set (map om_key (list_objects E w p))"
proof -
  have "om_key (so_metadata x) = k" using assms(1,2) by (simp add: data_wf_def objects_ok_def)
  moreover have "(k, x) \<in> set (sw_objects w)" using assms(2) by (auto simp: object_at_def dest: map_of_SomeD)
  ultimately show ?thesis using assms(3) by (force simp: list_objects_def)
qed

lemma missing_rows_finding:
  assumes wf: "data_wf E w" and wf0: "data_wf E w0" and f: "f \<in> set (missing_rows w org (map om_key (list_objects E w0 (''quarantine/'' @ org @ ''/''))))"
  shows "rf_state f = MissingObject \<and> head_object w0 (rf_key f) = None"
proof -
  obtain i a where a: "(i, a) \<in> set (sr_artifacts (sw_repo w))" "ud_organizationId (da_descriptor a) = org" "rf_state f = MissingObject" "rf_key f = da_storageKey a"
    and out: "da_storageKey a \<notin> set (map om_key (list_objects E w0 (''quarantine/'' @ org @ ''/'')))"
    using f by (auto simp: missing_rows_def)
  have "distinct (map fst (sr_artifacts (sw_repo w)))" using wf_assessments(2)[OF wf] by (simp add: ledger_ok_def)
  then have m: "map_of (sr_artifacts (sw_repo w)) i = Some a" using a(1) by simp
  then have "row w a" using wf by (auto simp: data_wf_def rows_ok_def row_def)
  from row_key_prefix[OF wf this] have "starts_with (''quarantine/'' @ org @ ''/'') (da_storageKey a)" using a(2) by simp
  then have "\<not> object_at w0 (da_storageKey a) x" for x using listed_keys[OF wf0] out by blast
  then have "head_object w0 (da_storageKey a) = None"
    by (cases "map_of (sw_objects w0) (da_storageKey a)") (auto simp: head_object_def object_at_def)
  then show ?thesis using a by simp
qed

lemma reconciliation_parts:
  assumes run: "run_of E V" and f: "f \<in> set (reconcileEvidence E V org)"
  shows "object_finding V f \<or> rf_state f \<in> {DuplicateAttempted, UnknownProvider} \<or> rf_state f = MissingObject \<and> head_object (V 1) (rf_key f) = None"
proof -
  let ?p = "''quarantine/'' @ org @ ''/''"
  obtain fs n where r: "reconcile_objects E V org (list_objects E (V 1) ?p) 2 = (fs, n)" by fastforce
  have "f \<in> set fs \<or> f \<in> set (missing_rows (V n) org (map om_key (list_objects E (V 1) ?p))) \<or> f \<in> set (noted_keys (V n) org ?p)
     \<or> f \<in> set (stray_proxies (sw_repo (V (n + 2))) org (list_objects E (V (n + 1)) (''safe/'' @ org @ ''/'')))"
    using f r unfolding reconcileEvidence_def by (simp add: Let_def)
  then consider "f \<in> set fs" | "f \<in> set (missing_rows (V n) org (map om_key (list_objects E (V 1) ?p)))" | "f \<in> set (noted_keys (V n) org ?p)"
    | "f \<in> set (stray_proxies (sw_repo (V (n + 2))) org (list_objects E (V (n + 1)) (''safe/'' @ org @ ''/'')))" by blast
  then show ?thesis
  proof cases
    case 1
    then show ?thesis using reconcile_objects_finding[OF run, of f org _ 2] r by (metis fst_conv)
  next
    case 2
    then show ?thesis using missing_rows_finding[OF run_ofD(1)[OF run] run_ofD(1)[OF run]] by blast
  next
    case 3
    then show ?thesis by (auto simp: noted_keys_def)
  next
    case 4
    then show ?thesis using unowned_finding by (auto simp: stray_proxies_def)
  qed
qed

end
