(* ===== verification/Sync_Properties.thy ===== *)
theory Sync_Properties
  imports Reconciliation
begin

text \<open>
  The properties of evidence storage: durable rows are backed by what was verified, nothing stored changes, finalising answers
  the capture it was asked for, trust comes only from inspected proxies, and reconciliation raises no false alarm.  The
  concrete run uploads, finalises and inspects one photo, then uploads the same capture for another job.
\<close>

section \<open>A concrete run\<close>

definition sample_sync_env :: sync_env where
  "sample_sync_env = \<lparr>sha_hex = (\<lambda>_. ''d''), z_uuid = (\<lambda>_. True), z_datetime = (\<lambda>_. True), z_email = (\<lambda>_. True), legacy_date = (\<lambda>_. None),
     collate = (\<lambda>_ _. 0), clock = (\<lambda>_. 1784073600000), random = (\<lambda>n. CHR ''i'' # replicate n (CHR ''x'')),
     sha_bytes = (\<lambda>_. replicate 64 (CHR ''a'')), decoder_version = ''v1'', sync_policy = launchContentPolicy, intent_ttl = 900000\<rparr>"

definition sample_descriptor :: "string \<Rightarrow> string \<Rightarrow> upload_descriptor" where
  "sample_descriptor artifact job = \<lparr>ud_artifactId = artifact, ud_captureId = ''c1'', ud_organizationId = ''org'', ud_jobId = job,
     ud_captureSequence = Whole 1, ud_capturedAt = ''2026-07-15T00:00:00.000Z'', ud_mediaType = ''image/jpeg'', ud_byteLength = Whole 15,
     ud_sha256 = replicate 64 (CHR ''a''), ud_deviceId = None, ud_captureArea = None\<rparr>"

definition sample_actor :: "string \<Rightarrow> sync_principal" where
  "sample_actor job = \<lparr>sp_organizationId = ''org'', sp_actorId = ''actor'', sp_assignedJobIds = [job]\<rparr>"

definition sample_answer :: sync_answer where
  "sample_answer = \<lparr>an_task = NoSink, an_decoded = Some (decoded_image ImageJpeg (640, 480)), an_lease = True, an_crash = False\<rparr>"

definition sample_go :: "nat \<Rightarrow> sync_action list" where
  "sample_go n = replicate n (Resume 0 sample_answer)"

text \<open>Issue, upload and finalise one capture, up to the last step.\<close>

definition sample_capture :: "string \<Rightarrow> string \<Rightarrow> string \<Rightarrow> sync_action list" where
  "sample_capture artifact job k = [Issue (sample_actor job) (sample_descriptor artifact job), StartUpload k '''' (canonicalJpeg 640 480) ''image/jpeg'']
     @ sample_go 3 @ [StartFinalize (sample_actor job) k ''''] @ sample_go 2"

definition sample_verified :: sync_world where
  "sample_verified = performs sample_sync_env (sample_capture ''a1'' ''job1'' ''i'') empty_sync_world"

definition sample_recorded :: sync_world where
  "sample_recorded = performs sample_sync_env (sample_go 1) sample_verified"

definition sample_trusted :: sync_world where
  "sample_trusted = performs sample_sync_env (sample_go 1 @ [StartProcess ''a1''] @ sample_go 5) sample_verified"

definition sample_crossed :: sync_world where
  "sample_crossed = performs sample_sync_env (sample_go 1 @ sample_capture ''a2'' ''job2'' ''ixxxxx'') sample_verified"

lemma sample_sync_reachable: "sync_reachable sample_sync_env sample_verified" "sync_reachable sample_sync_env sample_trusted"
  "sync_reachable sample_sync_env sample_crossed"
  by (simp_all add: sample_verified_def sample_trusted_def sample_crossed_def performs_reachable sync_init)

lemma sample_sync_ids: "inj (random sample_sync_env)"
proof (rule injI)
  fix m n assume "random sample_sync_env m = random sample_sync_env n"
  then have "length (random sample_sync_env m) = length (random sample_sync_env n)" by simp
  then show "m = n" by (simp add: sample_sync_env_def)
qed

section \<open>Durable rows\<close>

lemma one_in_distinct: "distinct xs \<Longrightarrow> x \<in> set xs \<Longrightarrow> count_list xs x = 1"
  by (induction xs) (auto simp: count_list_0_iff)

text \<open>C30: an evidence row of a reachable state names the object stored under its key, whose bytes have the digest, the length,
  the version and the media type the row records; it has its receipt, its capture and storage index entries, exactly one
  durability event and exactly one outbox record.\<close>

theorem durable_rows_are_backed:
  assumes "inj (random E)" and "sync_reachable E w" and "map_of (sr_artifacts (sw_repo w)) i = Some a"
  shows "i = ud_artifactId (da_descriptor a)
    \<and> (\<exists>x. map_of (sw_objects w) (da_storageKey a) = Some x \<and> sha_bytes E (so_bytes x) = ud_sha256 (da_descriptor a)
         \<and> Whole (int (length (so_bytes x))) = ud_byteLength (da_descriptor a) \<and> om_version (so_metadata x) = da_objectVersion a
         \<and> om_mediaType (so_metadata x) = ud_mediaType (da_descriptor a))
    \<and> hasDurabilityReceipt (sw_repo w) i \<and> map_of (sr_captureIndex (sw_repo w)) (captureKey (da_descriptor a)) = Some a
    \<and> artifactByStorageKey (sw_repo w) (da_storageKey a) = Some a
    \<and> count_list (verified_events (sr_events (sw_repo w))) i = 1 \<and> count_list (map xo_aggregateId (sr_outbox (sw_repo w))) i = 1"
proof -
  have wf: "data_wf E w" using sync_reachable_wf[OF assms(2,1)] by (simp add: sync_wf_def)
  then have "rows_ok E w" by (simp add: data_wf_def)
  then have r: "i = ud_artifactId (da_descriptor a)" "row_backed E w a" "i \<in> set (sr_receipts (sw_repo w))"
    "map_of (sr_captureIndex (sw_repo w)) (captureKey (da_descriptor a)) = Some a" "map_of (sr_storageIndex (sw_repo w)) (da_storageKey a) = Some a"
    using assms(3) unfolding rows_ok_def by blast+
  have "i \<in> set (map fst (sr_artifacts (sw_repo w)))" using map_of_SomeD[OF assms(3)] by force
  moreover have l: "map xo_aggregateId (sr_outbox (sw_repo w)) = map fst (sr_artifacts (sw_repo w))"
    "verified_events (sr_events (sw_repo w)) = map fst (sr_artifacts (sw_repo w))" "distinct (map fst (sr_artifacts (sw_repo w)))"
    using wf_assessments(2)[OF wf] by (simp_all add: ledger_ok_def)
  ultimately have "count_list (map fst (sr_artifacts (sw_repo w))) i = 1" by (intro one_in_distinct)
  moreover have "\<exists>x. map_of (sw_objects w) (da_storageKey a) = Some x \<and> sha_bytes E (so_bytes x) = ud_sha256 (da_descriptor a)
      \<and> Whole (int (length (so_bytes x))) = ud_byteLength (da_descriptor a) \<and> om_version (so_metadata x) = da_objectVersion a
      \<and> om_mediaType (so_metadata x) = ud_mediaType (da_descriptor a)" using r(2) unfolding row_backed_def object_at_def by blast
  ultimately show ?thesis using r l by (simp add: hasDurabilityReceipt_def artifactByStorageKey_def)
qed

theorem durable_rows_are_backed_witness:
  "\<exists>a. map_of (sr_artifacts (sw_repo sample_trusted)) ''a1'' = Some a \<and> hasDurabilityReceipt (sw_repo sample_trusted) ''a1''"
proof -
  have "map_of (sr_artifacts (sw_repo sample_trusted)) ''a1'' \<noteq> None" by code_simp
  then obtain a where a: "map_of (sr_artifacts (sw_repo sample_trusted)) ''a1'' = Some a" by blast
  show ?thesis using durable_rows_are_backed[OF sample_sync_ids sample_sync_reachable(2) a] a by blast
qed

lemma map_grows_le: "map_grows m n \<Longrightarrow> map_of m \<subseteq>\<^sub>m map_of n"
  by (auto simp: map_grows_def map_le_def dom_def)

text \<open>C31: whatever actions follow, in any interleaving and with any calls lost, no stored object, evidence row, capture,
  assessment or proxy changes or goes away.\<close>

theorem stored_evidence_never_changes:
  assumes "inj (random E)" and "sync_reachable E w"
  shows "map_of (sw_objects w) \<subseteq>\<^sub>m map_of (sw_objects (performs E cs w))
    \<and> map_of (sr_artifacts (sw_repo w)) \<subseteq>\<^sub>m map_of (sr_artifacts (sw_repo (performs E cs w)))
    \<and> map_of (sr_captureIndex (sw_repo w)) \<subseteq>\<^sub>m map_of (sr_captureIndex (sw_repo (performs E cs w)))
    \<and> map_of (sr_assessments (sw_repo w)) \<subseteq>\<^sub>m map_of (sr_assessments (sw_repo (performs E cs w)))
    \<and> map_of (sr_proxies (sw_repo w)) \<subseteq>\<^sub>m map_of (sr_proxies (sw_repo (performs E cs w)))"
proof -
  have "later w (performs E cs w)" using performs_later[OF sync_reachable_wf[OF assms(2,1)] assms(1)] by blast
  then show ?thesis by (simp add: later_def map_grows_le)
qed

theorem stored_evidence_never_changes_witness:
  "map_of (sw_objects sample_verified) \<subseteq>\<^sub>m map_of (sw_objects (performs sample_sync_env [LoseCall 0] sample_verified))"
  using stored_evidence_never_changes[OF sample_sync_ids sample_sync_reachable(1)] by blast

text \<open>C32: what finalising an upload answers is an evidence row of the same organisation and capture as the intent; a row it
  reports as newly recorded is exactly the intent's descriptor, and there was no such row before.\<close>

theorem finalize_answers_own_capture:
  assumes "inj (random E)" and "sync_reachable E w" and "k < length (sw_calls w)" and "sw_calls w ! k = FinalizeReread intentId m"
    and "perform E (Resume k ans) w = (Inr (Stepped (Finalized st a)), w')"
  shows "\<exists>i. map_of (sw_intents w) intentId = Some i \<and> map_of (sr_artifacts (sw_repo w')) (ud_artifactId (da_descriptor a)) = Some a
    \<and> ud_organizationId (da_descriptor a) = ud_organizationId (it_descriptor i) \<and> ud_captureId (da_descriptor a) = ud_captureId (it_descriptor i)
    \<and> (st = Recorded \<longrightarrow> da_descriptor a = it_descriptor i \<and> map_of (sr_artifacts (sw_repo w)) (ud_artifactId (da_descriptor a)) \<noteq> Some a)"
proof -
  have s: "sync_wf E w" using sync_reachable_wf[OF assms(2,1)] .
  then have wf: "data_wf E w" by (simp add: sync_wf_def)
  have "FinalizeReread intentId m \<in> set (sw_calls w)" using assms(3,4) nth_mem by metis
  then have ok: "pc_ok E w (FinalizeReread intentId m)" using s unfolding sync_wf_def by blast
  obtain r v where run: "run_pc E ans (FinalizeReread intentId m) w = (r, v)" by fastforce
  have a: "after_segment k (r, v) = (Inr (Stepped (Finalized st a)), w')" using assms(3-5) run by simp
  then have r: "r = Inr (Finalized st a)" by (auto simp: after_segment_def split: sum.splits)
  then have v: "sw_repo v = sw_repo w'" using a by (auto simp: after_segment_def)
  from finalize_reread_segment(2)[OF run wf ok r] obtain i where i: "map_of (sw_intents w) intentId = Some i" "row v a"
    "captureKey (da_descriptor a) = captureKey (it_descriptor i)" "st = Recorded \<longrightarrow> da_descriptor a = it_descriptor i \<and> \<not> row w a" by blast
  have "good E w v" using finalize_reread_segment(1)[OF run wf ok] by (simp add: segment_ok_def)
  then have "rows_ok E v" "intents_ok w" using wf by (simp_all add: good_def data_wf_def)
  then have "descriptor_safe (da_descriptor a)" "descriptor_safe (it_descriptor i)"
    using i(1,2) unfolding rows_ok_def intents_ok_def row_def by blast+
  note same = captureKey_inject[OF this i(3)]
  show ?thesis
  proof (intro exI conjI)
    show "map_of (sr_artifacts (sw_repo w')) (ud_artifactId (da_descriptor a)) = Some a" using i(2) v by (simp add: row_def)
    show "st = Recorded \<longrightarrow> da_descriptor a = it_descriptor i \<and> map_of (sr_artifacts (sw_repo w)) (ud_artifactId (da_descriptor a)) \<noteq> Some a"
      using i(4) unfolding row_def by blast
  qed (use i(1) same in simp_all)
qed

theorem finalize_answers_own_capture_witness:
  "\<exists>a w' i. perform sample_sync_env (Resume 0 sample_answer) sample_verified = (Inr (Stepped (Finalized Recorded a)), w')
    \<and> map_of (sw_intents sample_verified) ''i'' = Some i \<and> da_descriptor a = it_descriptor i"
proof -
  have shape: "case perform sample_sync_env (Resume 0 sample_answer) sample_verified of (Inr (Stepped (Finalized Recorded a)), w') \<Rightarrow> True | _ \<Rightarrow> False"
    and pc: "case sw_calls sample_verified ! 0 of FinalizeReread k m \<Rightarrow> k = ''i'' | _ \<Rightarrow> False" and n: "0 < length (sw_calls sample_verified)"
    by code_simp+
  obtain a w' where p: "perform sample_sync_env (Resume 0 sample_answer) sample_verified = (Inr (Stepped (Finalized Recorded a)), w')"
    using shape by (auto split: prod.splits sum.splits sync_answered.splits sync_result.splits commit_state.splits)
  obtain m where m: "sw_calls sample_verified ! 0 = FinalizeReread ''i'' m" using pc by (auto split: sync_pc.splits)
  from finalize_answers_own_capture[OF sample_sync_ids sample_sync_reachable(1) n m p] p show ?thesis by blast
qed

section \<open>Trust\<close>

text \<open>C33: a proxy that the repository trusts for an original belongs to that original, by identity, digest and organisation,
  and is a stored object with the recorded digest and length, recognised as the format it is stored under and free of
  active content.\<close>

theorem trusted_proxies_are_safe:
  assumes "inj (random E)" and "sync_reachable E w" and "trustedProxyFor (sw_repo w) i = Some p"
  shows "\<exists>a x t. map_of (sr_artifacts (sw_repo w)) i = Some a \<and> provenance_ok p a \<and> map_of (sw_objects w) (px_storageKey p) = Some x
    \<and> sha_bytes E (so_bytes x) = px_sha256 p \<and> int (length (so_bytes x)) = px_byteLength p
    \<and> detectMediaType (so_bytes x) = Some t \<and> px_mediaType p = media_text t \<and> \<not> containsActiveOrPolyglotSignature (so_bytes x)"
proof -
  have "sync_wf E w" using sync_reachable_wf[OF assms(2,1)] .
  then have wf: "data_wf E w" by (simp add: sync_wf_def)
  have "List.find (\<lambda>p. px_parentArtifactId p = i) (map snd (sr_proxies (sw_repo w))) = Some p"
    using assms(3) by (auto simp: trustedProxyFor_def split: option.splits if_splits)
  then have "p \<in> snd ` set (sr_proxies (sw_repo w))" "px_parentArtifactId p = i" by (auto simp: find_Some_iff)
  then obtain k where k: "(k, p) \<in> set (sr_proxies (sw_repo w))" and parent: "px_parentArtifactId p = i" by auto
  have "distinct (map fst (sr_proxies (sw_repo w)))" using wf_assessments(2)[OF wf] by (simp add: ledger_ok_def)
  then have m: "map_of (sr_proxies (sw_repo w)) k = Some p" using k by simp
  have "proxies_ok E w" using wf by (simp add: data_wf_def)
  then have "proxy_backed E w p" and a: "\<exists>a. map_of (sr_artifacts (sw_repo w)) i = Some a \<and> provenance_ok p a"
    using m parent unfolding proxies_ok_def by blast+
  then obtain x t where x: "object_at w (px_storageKey p) x" "sha_bytes E (so_bytes x) = px_sha256 p" "int (length (so_bytes x)) = px_byteLength p"
    "px_mediaType p = media_text t" "detectMediaType (so_bytes x) = Some t" "\<not> containsActiveOrPolyglotSignature (so_bytes x)"
    unfolding proxy_backed_def by blast
  with a show ?thesis unfolding object_at_def by blast
qed

theorem trusted_proxies_are_safe_witness:
  "\<exists>p a. trustedProxyFor (sw_repo sample_trusted) ''a1'' = Some p \<and> map_of (sr_artifacts (sw_repo sample_trusted)) ''a1'' = Some a \<and> provenance_ok p a"
proof -
  have "trustedProxyFor (sw_repo sample_trusted) ''a1'' \<noteq> None" by code_simp
  then obtain p where p: "trustedProxyFor (sw_repo sample_trusted) ''a1'' = Some p" by blast
  from trusted_proxies_are_safe[OF sample_sync_ids sample_sync_reachable(2) this] p show ?thesis by blast
qed

section \<open>Reconciliation\<close>

lemma reachable_run:
  assumes "inj (random E)" and "sync_reachable E (V 0)" and "\<And>n. \<exists>cs. V (Suc n) = performs E cs (V n)"
  shows "run_of E V"
proof -
  have step: "sync_wf E (V n)" for n
  proof (induction n)
    case (Suc n)
    then show ?case using assms(3)[of n] performs_later[OF _ assms(1)] by metis
  qed (rule sync_reachable_wf[OF assms(2,1)])
  have "later (V n) (V (Suc n))" for n using assms(3)[of n] performs_later[OF step assms(1)] by metis
  then have "m \<le> n \<Longrightarrow> later (V m) (V n)" for m n
    by (induction n) (auto simp: le_Suc_eq later_refl intro: later_trans)
  then show ?thesis using step by (simp add: run_of_def sync_wf_def)
qed

text \<open>C34: a reconciliation that runs while other calls go on never reports a row without its receipt or a diverging digest;
  it reports a missing object only for a key that held none when it listed the objects; and what it reports as
  consistent has a trusted proxy.\<close>

theorem reconciliation_raises_no_false_alarm:
  assumes "inj (random E)" and "sync_reachable E (V 0)" and "\<And>n. \<exists>cs. V (Suc n) = performs E cs (V n)"
    and "f \<in> set (reconcileEvidence E V org)"
  shows "rf_state f \<noteq> RowOnly \<and> rf_state f \<noteq> DivergentChecksum
    \<and> (rf_state f = MissingObject \<longrightarrow> head_object (V 1) (rf_key f) = None)
    \<and> (rf_state f = Consistent \<longrightarrow> (\<exists>n i. rf_artifactId f = Some i \<and> trustedProxyFor (sw_repo (V n)) i \<noteq> None))"
proof -
  have "run_of E V" using assms(1-3) by (rule reachable_run)
  from reconciliation_parts[OF this assms(4)] show ?thesis unfolding object_finding_def by auto
qed

theorem reconciliation_raises_no_false_alarm_witness:
  "\<exists>f. f \<in> set (reconcileEvidence sample_sync_env (\<lambda>_. sample_trusted) ''org'') \<and> rf_state f = Consistent"
proof -
  have one: "map rf_state (reconcileEvidence sample_sync_env (\<lambda>_. sample_trusted) ''org'') = [Consistent]" by code_simp
  then have "Consistent \<in> set (map rf_state (reconcileEvidence sample_sync_env (\<lambda>_. sample_trusted) ''org''))" by simp
  then obtain f where f: "f \<in> set (reconcileEvidence sample_sync_env (\<lambda>_. sample_trusted) ''org'')" "rf_state f = Consistent" by auto
  have "\<exists>cs. sample_trusted = performs sample_sync_env cs sample_trusted" by (rule exI[of _ "[]"]) simp
  from reconciliation_raises_no_false_alarm[OF sample_sync_ids sample_sync_reachable(2) this f(1)] f show ?thesis by blast
qed

section \<open>Two gaps\<close>

lemma performs_append: "performs E (xs @ ys) w = performs E ys (performs E xs w)"
  by (induction xs arbitrary: w) simp_all

text \<open>The capture index spans the organisation: finalising an upload of one job with a capture identifier of another job
  answers the other job's evidence row, to a principal who is not assigned to it.\<close>

lemma duplicate_capture_crosses_jobs:
  "sp_assignedJobIds (sample_actor ''job2'') = [''job2''] \<and>
   (case fst (perform sample_sync_env (Resume 0 sample_answer) sample_crossed) of
      Inr (Stepped (Finalized st a)) \<Rightarrow> st = CommitDuplicate \<and> ud_jobId (da_descriptor a) = ''job1'' \<and> ud_artifactId (da_descriptor a) = ''a1''
    | _ \<Rightarrow> False)"
  by code_simp

text \<open>An upload finalised after a reconciliation listed the objects is reported as missing its object.\<close>

lemma reconciliation_misses_a_late_commit:
  "map rf_state (reconcileEvidence sample_sync_env (\<lambda>n. if n < 2 then empty_sync_world else sample_recorded) ''org'') = [MissingObject]
   \<and> (\<exists>cs. sample_recorded = performs sample_sync_env cs empty_sync_world)"
proof
  show "map rf_state (reconcileEvidence sample_sync_env (\<lambda>n. if n < 2 then empty_sync_world else sample_recorded) ''org'') = [MissingObject]"
    by code_simp
  show "\<exists>cs. sample_recorded = performs sample_sync_env cs empty_sync_world"
    unfolding sample_recorded_def sample_verified_def performs_append[symmetric] by blast
qed

end
