(* ===== verification/Ledger.thy ===== *)
theory Ledger
  imports Prelude
begin

text \<open>
  Idempotency keys: the interface of every operation that remembers, under a key, the fingerprint
  of the request it served and the identity it answered with.  For admissible requests the provider promises that an
  answered request is recorded, that a request whose key is recorded is answered only for the same
  fingerprint and with the recorded identity, and that no step of the component loses a record.
  The consequence, that one key stands for one request and one identity for ever, is proved once.
\<close>

locale idempotent_operation =
  fixes run :: "'s \<Rightarrow> 'c \<Rightarrow> ('e + 'r) \<times> 's"
    and key_of :: "'c \<Rightarrow> 'k"
    and print_of :: "'c \<Rightarrow> 'f"
    and ident :: "'r \<Rightarrow> 'i"
    and recorded :: "'s \<Rightarrow> 'k \<Rightarrow> ('f \<times> 'i) option"
    and step :: "'s \<Rightarrow> 's \<Rightarrow> bool"
    and admissible :: "'c \<Rightarrow> bool"
  assumes run_records: "admissible c \<Longrightarrow> run s c = (Inr r, s') \<Longrightarrow> recorded s' (key_of c) = Some (print_of c, ident r)"
    and run_replays: "admissible c \<Longrightarrow> recorded s (key_of c) = Some (f, i) \<Longrightarrow> run s c = (Inr r, s') \<Longrightarrow> f = print_of c \<and> ident r = i"
    and step_keeps: "step s s' \<Longrightarrow> recorded s k = Some x \<Longrightarrow> recorded s' k = Some x"
begin

lemma steps_keep: "step\<^sup>*\<^sup>* s s' \<Longrightarrow> recorded s k = Some x \<Longrightarrow> recorded s' k = Some x"
  by (induction rule: rtranclp_induct) (auto intro: step_keeps)

lemma one_identity_per_key:
  assumes "run s c = (Inr r, s')" and "step\<^sup>*\<^sup>* s' t" and "run t d = (Inr r', t')" and "key_of d = key_of c"
    and "admissible c" and "admissible d"
  shows "print_of d = print_of c \<and> ident r' = ident r"
proof -
  have "recorded t (key_of d) = Some (print_of c, ident r)"
    using steps_keep[OF assms(2) run_records[OF assms(5,1)]] assms(4) by simp
  from run_replays[OF assms(6) this assms(3)] show ?thesis by simp
qed

lemma other_print_refused:
  assumes "run s c = (Inr r, s')" and "step\<^sup>*\<^sup>* s' t" and "key_of d = key_of c" and "print_of d \<noteq> print_of c"
    and "admissible c" and "admissible d"
  shows "\<exists>e. fst (run t d) = Inl e"
  using one_identity_per_key[OF assms(1,2) _ assms(3,5,6)] assms(4)
  by (cases "run t d"; cases "fst (run t d)") fastforce+

end

end
