(* ===== verification/Task_Queue.thy ===== *)
theory Task_Queue
  imports Canonical Ledger
begin

text \<open>
  The durable task queue of \<open>packages/task-queue/src/in-memory-queue.ts\<close>: enqueueing with
  idempotency keys, leases with fencing generations, heartbeats, checkpoints, completion, failure
  with back-off, unknown provider outcomes and their reconciliation, supersession, cancellation,
  lease expiry and blocked dependencies.  Every method is one operation from the queue to its
  result (the text of the error it throws, or its value) and the queue it leaves; the clock and the
  identifier generator are read exactly as often as the code reads them.
\<close>

section \<open>State\<close>

datatype task_state = Queued | Running | RetryWait | Succeeded | Unknown | DeadLetter | Superseded | Cancelled

record checkpoint =
  cp_checkpointId :: string
  cp_name :: string
  cp_artifactRefs :: "string list"
  cp_metadataHashes :: "string list"
  cp_recordedAt :: string

record task =
  tk_taskId :: string
  tk_organizationId :: string
  tk_taskType :: string
  tk_aggregateType :: string
  tk_aggregateId :: string
  tk_idempotencyKey :: string
  tk_requestFingerprint :: string
  tk_payloadArtifactId :: "string option"
  tk_dependencyTaskIds :: "string list"
  tk_packetId :: "string option"
  tk_packetRevision :: "int option"
  tk_state :: task_state
  tk_attemptCount :: int
  tk_maxAttempts :: int
  tk_availableAt :: string
  tk_leaseGeneration :: int
  tk_leaseToken :: "string option"
  tk_leasedBy :: "string option"
  tk_leasedUntil :: "string option"
  tk_heartbeatAt :: "string option"
  tk_resultArtifactId :: "string option"
  tk_lastErrorCode :: "string option"
  tk_supersededByRevision :: "int option"
  tk_unknownReconciliationHash :: "string option"
  tk_checkpoints :: "checkpoint list"
  tk_createdAt :: string
  tk_updatedAt :: string

record task_event =
  ev_eventId :: string
  ev_taskId :: string
  ev_organizationId :: string
  ev_eventType :: string
  ev_safeMetadata :: "(string \<times> json) list"
  ev_recordedAt :: string

record task_queue =
  q_tasks :: "(string, task) js_map"
  q_index :: "(string, string) js_map"
  q_events :: "task_event list"
  q_clock :: nat
  q_random :: nat

definition empty_queue :: task_queue where
  "empty_queue = \<lparr>q_tasks = [], q_index = [], q_events = [], q_clock = 0, q_random = 0\<rparr>"

record enqueue_task =
  en_taskId :: "string option"
  en_organizationId :: string
  en_taskType :: string
  en_aggregateType :: string
  en_aggregateId :: string
  en_idempotencyKey :: string
  en_requestFingerprint :: string
  en_payloadArtifactId :: "string option"
  en_dependencyTaskIds :: "string list option"
  en_packetId :: "string option"
  en_packetRevision :: "js_number option"
  en_maxAttempts :: "js_number option"
  en_availableAt :: "string option"

record task_lease =
  tl_task :: task
  tl_generation :: int
  tl_leaseToken :: string
  tl_leasedUntil :: string

record lease_command =
  lm_taskId :: string
  lm_generation :: int
  lm_leaseToken :: string

section \<open>Helpers\<close>

definition or_else :: "'a option \<Rightarrow> 'a \<Rightarrow> 'a" where
  "or_else v d = (case v of None \<Rightarrow> d | Some x \<Rightarrow> x)"

text \<open>The pattern \<open>/^[a-z][a-z0-9_.-]{0,79}$/\<close>.\<close>

definition safe_code_pattern :: "string \<Rightarrow> bool" where
  "safe_code_pattern s \<longleftrightarrow> s \<noteq> [] \<and> is_lower (hd s) \<and> length s \<le> 80
     \<and> list_all (\<lambda>c. is_lower c \<or> is_digit c \<or> c = CHR ''_'' \<or> c = CHR ''.'' \<or> c = CHR ''-'') (tl s)"

definition safeCode :: "string \<Rightarrow> string + string" where
  "safeCode s = (if safe_code_pattern s then Inr s else Inl ''Task error/reason code is not safe metadata'')"

definition boundedBackoff :: "int \<Rightarrow> int" where
  "boundedBackoff attempt = min 60000 (1000 * 2 ^ nat (min (attempt - 1) 6))"

definition clearLease :: "task \<Rightarrow> task" where
  "clearLease t = t\<lparr>tk_leaseToken := None, tk_leasedBy := None, tk_leasedUntil := None, tk_heartbeatAt := None\<rparr>"

text \<open>The first error the validation raises, if any.\<close>

definition validateEnqueue :: "env \<Rightarrow> enqueue_task \<Rightarrow> string option" where
  "validateEnqueue E i =
     (case List.find (\<lambda>(label, v). js_trim v = [] \<or> 240 < length v)
        [(''organizationId'', en_organizationId i), (''taskType'', en_taskType i),
         (''aggregateType'', en_aggregateType i), (''aggregateId'', en_aggregateId i),
         (''idempotencyKey'', en_idempotencyKey i)] of
        Some (label, v) \<Rightarrow> Some (label @ '' is invalid'')
      | None \<Rightarrow>
        if \<not> sha256_pattern (en_requestFingerprint i) then Some ''Task request fingerprint is invalid''
        else if (case en_maxAttempts i of None \<Rightarrow> False
                 | Some n \<Rightarrow> \<not> (is_safe_integer n \<and> whole_between 1 100 n))
        then Some ''Task max attempts is outside policy''
        else if (en_packetId i = None) \<noteq> (en_packetRevision i = None)
                \<or> (case en_packetRevision i of None \<Rightarrow> False
                   | Some n \<Rightarrow> \<not> (is_safe_integer n \<and> 1 \<le> whole_value n))
        then Some ''Packet task must bind an ID and positive revision together''
        else if (case en_availableAt i of None \<Rightarrow> False | Some s \<Rightarrow> date_parse E s = None)
        then Some ''Task availableAt timestamp is invalid''
        else let dependencies = or_else (en_dependencyTaskIds i) [] in
          if \<not> distinct dependencies
             \<or> (case en_taskId i of None \<Rightarrow> False | Some t \<Rightarrow> t \<in> set dependencies)
          then Some ''Task dependencies must be unique and cannot reference self'' else None)"

text \<open>\<open>this.#now()\<close> is \<open>reading\<close> followed by \<open>tick\<close>.\<close>

definition reading :: "env \<Rightarrow> task_queue \<Rightarrow> int" where
  "reading E q = clock E (q_clock q)"

definition tick :: "task_queue \<Rightarrow> task_queue" where
  "tick q = q\<lparr>q_clock := Suc (q_clock q)\<rparr>"

definition emit :: "env \<Rightarrow> task \<Rightarrow> string \<Rightarrow> (string \<times> json) list \<Rightarrow> task_queue \<Rightarrow> task_queue" where
  "emit E t ty meta q = q\<lparr>q_events := q_events q @
       [\<lparr>ev_eventId = random E (q_random q), ev_taskId = tk_taskId t, ev_organizationId = tk_organizationId t,
         ev_eventType = ty, ev_safeMetadata = meta, ev_recordedAt = to_iso (reading E q)\<rparr>],
     q_clock := Suc (q_clock q), q_random := Suc (q_random q)\<rparr>"

text \<open>A mutation of a task object that is in the map.\<close>

definition put :: "task \<Rightarrow> task_queue \<Rightarrow> task_queue" where
  "put t q = q\<lparr>q_tasks := map_set (tk_taskId t) t (q_tasks q)\<rparr>"

definition find_task :: "task_queue \<Rightarrow> string \<Rightarrow> task option" where
  "find_task q i = map_of (q_tasks q) i"

definition requireTask :: "task_queue \<Rightarrow> string \<Rightarrow> string + task" where
  "requireTask q i = of_option ''Task was not found'' (find_task q i)"

definition dependenciesSucceeded :: "task_queue \<Rightarrow> task \<Rightarrow> bool" where
  "dependenciesSucceeded q t \<longleftrightarrow>
     list_all (\<lambda>i. case find_task q i of None \<Rightarrow> False | Some d \<Rightarrow> tk_state d = Succeeded) (tk_dependencyTaskIds t)"

text \<open>The lease check reads the clock only when everything before it in the condition holds.\<close>

definition validLease :: "env \<Rightarrow> task_queue \<Rightarrow> lease_command \<Rightarrow> task option \<times> task_queue" where
  "validLease E q c = (case find_task q (lm_taskId c) of
     None \<Rightarrow> (None, q)
   | Some t \<Rightarrow>
       if tk_state t = Running \<and> tk_leaseGeneration t = lm_generation c
          \<and> tk_leaseToken t = Some (lm_leaseToken c) \<and> tk_leasedUntil t \<noteq> None
       then (if date_lt (date_parse E (the (tk_leasedUntil t))) (Some (reading E q)) then None else Some t, tick q)
       else (None, q))"

section \<open>Operations\<close>

type_synonym 'r queue_outcome = "(string + 'r) \<times> task_queue"

definition idempotency_index_key :: "string \<Rightarrow> string \<Rightarrow> string" where
  "idempotency_index_key organizationId key = organizationId @ '':'' @ key"

definition enqueue :: "env \<Rightarrow> task_queue \<Rightarrow> enqueue_task \<Rightarrow> (task \<times> bool) queue_outcome" where
  "enqueue E q i = (case validateEnqueue E i of
     Some msg \<Rightarrow> (Inl msg, q)
   | None \<Rightarrow>
     let key = idempotency_index_key (en_organizationId i) (en_idempotencyKey i) in
     (case map_of (q_index q) key of
       Some priorId \<Rightarrow> (case requireTask q priorId of
           Inl e \<Rightarrow> (Inl e, q)
         | Inr prior \<Rightarrow>
             if tk_requestFingerprint prior \<noteq> en_requestFingerprint i
             then (Inl ''Task idempotency key cannot be reused with a different fingerprint'', q)
             else (Inr (prior, True), emit E prior ''task.replayed'' [] q))
     | None \<Rightarrow>
       let now = to_iso (reading E q);
           q1 = (case en_taskId i of Some t \<Rightarrow> tick q | None \<Rightarrow> (tick q)\<lparr>q_random := Suc (q_random q)\<rparr>);
           t = \<lparr>tk_taskId = or_else (en_taskId i) (random E (q_random q)),
             tk_organizationId = en_organizationId i, tk_taskType = en_taskType i,
             tk_aggregateType = en_aggregateType i, tk_aggregateId = en_aggregateId i,
             tk_idempotencyKey = en_idempotencyKey i, tk_requestFingerprint = en_requestFingerprint i,
             tk_payloadArtifactId = en_payloadArtifactId i,
             tk_dependencyTaskIds = or_else (en_dependencyTaskIds i) [],
             tk_packetId = en_packetId i, tk_packetRevision = map_option whole_value (en_packetRevision i),
             tk_state = Queued, tk_attemptCount = 0,
             tk_maxAttempts = or_else (map_option whole_value (en_maxAttempts i)) 5,
             tk_availableAt = or_else (en_availableAt i) now, tk_leaseGeneration = 0,
             tk_leaseToken = None, tk_leasedBy = None, tk_leasedUntil = None, tk_heartbeatAt = None,
             tk_resultArtifactId = None, tk_lastErrorCode = None, tk_supersededByRevision = None,
             tk_unknownReconciliationHash = None, tk_checkpoints = [], tk_createdAt = now, tk_updatedAt = now\<rparr> in
       if find_task q1 (tk_taskId t) \<noteq> None then (Inl ''Task identity already exists'', q1)
       else (Inr (t, False), emit E t ''task.enqueued'' [(''taskType'', JStr (tk_taskType t))]
              ((put t q1)\<lparr>q_index := map_set key (tk_taskId t) (q_index q1)\<rparr>))))"

text \<open>A loop \<open>for (const task of this.#tasks.values()) if (cond) { act; ids.push(task.taskId) }\<close>:
  the tasks in order, each read when the loop reaches it.\<close>

fun for_tasks :: "(task_queue \<Rightarrow> task \<Rightarrow> bool) \<Rightarrow> (task_queue \<Rightarrow> task \<Rightarrow> task_queue) \<Rightarrow> string list
    \<Rightarrow> task_queue \<Rightarrow> string list \<times> task_queue" where
  "for_tasks cond act [] q = ([], q)"
| "for_tasks cond act (i # is) q = (case find_task q i of
     None \<Rightarrow> for_tasks cond act is q
   | Some t \<Rightarrow> if cond q t
       then (let (ids, q') = for_tasks cond act is (act q t) in (tk_taskId t # ids, q'))
       else for_tasks cond act is q)"

definition lease_expired :: "env \<Rightarrow> int \<Rightarrow> task \<Rightarrow> bool" where
  "lease_expired E nowMs t \<longleftrightarrow> tk_state t = Running
     \<and> (case tk_leasedUntil t of None \<Rightarrow> False | Some u \<Rightarrow> date_lt (date_parse E u) (Some nowMs))"

definition expire_lease :: "env \<Rightarrow> task_queue \<Rightarrow> task \<Rightarrow> task_queue" where
  "expire_lease E q t = (let
     now = to_iso (reading E q);
     t1 = t\<lparr>tk_state := (if tk_attemptCount t < tk_maxAttempts t then RetryWait else DeadLetter),
            tk_lastErrorCode := Some ''lease_expired'', tk_availableAt := now\<rparr>;
     t' = (clearLease t1)\<lparr>tk_updatedAt := now\<rparr> in
     emit E t' (if tk_state t' = RetryWait then ''task.retry_scheduled'' else ''task.dead_lettered'')
       [(''errorCode'', JStr ''lease_expired'')] (put t' (tick q)))"

definition recoverExpiredLeases :: "env \<Rightarrow> task_queue \<Rightarrow> string list \<times> task_queue" where
  "recoverExpiredLeases E q =
     for_tasks (\<lambda>_. lease_expired E (reading E q)) (expire_lease E) (map fst (q_tasks q)) (tick q)"

definition dependency_blocked :: "task_queue \<Rightarrow> task \<Rightarrow> bool" where
  "dependency_blocked q t \<longleftrightarrow> (tk_state t = Queued \<or> tk_state t = RetryWait)
     \<and> list_ex (\<lambda>d. case find_task q d of None \<Rightarrow> False
         | Some u \<Rightarrow> tk_state u \<in> {DeadLetter, Cancelled, Superseded}) (tk_dependencyTaskIds t)"

definition cancel_blocked :: "env \<Rightarrow> task_queue \<Rightarrow> task \<Rightarrow> task_queue" where
  "cancel_blocked E q t = (let
     t' = t\<lparr>tk_state := Cancelled, tk_lastErrorCode := Some ''dependency_terminal'',
            tk_updatedAt := to_iso (reading E q)\<rparr> in
     emit E t' ''task.cancelled'' [(''reasonCode'', JStr ''dependency_terminal'')] (put t' (tick q)))"

definition reconcileBlockedDependencies :: "env \<Rightarrow> task_queue \<Rightarrow> string list \<times> task_queue" where
  "reconcileBlockedDependencies E q = for_tasks dependency_blocked (cancel_blocked E) (map fst (q_tasks q)) q"

text \<open>The first task of the stably sorted candidates.\<close>

definition lease_order_key :: "task \<Rightarrow> string" where
  "lease_order_key t = tk_availableAt t @ '':'' @ tk_createdAt t @ '':'' @ tk_taskId t"

fun first_by :: "('a \<Rightarrow> 'a \<Rightarrow> int) \<Rightarrow> 'a list \<Rightarrow> 'a option" where
  "first_by cmp [] = None"
| "first_by cmp (x # xs) = (case first_by cmp xs of None \<Rightarrow> Some x
     | Some y \<Rightarrow> if cmp x y \<le> 0 then Some x else Some y)"

definition leasable :: "env \<Rightarrow> task_queue \<Rightarrow> int \<Rightarrow> task \<Rightarrow> bool" where
  "leasable E q nowMs t \<longleftrightarrow> (tk_state t = Queued \<or> tk_state t = RetryWait)
     \<and> date_le (date_parse E (tk_availableAt t)) (Some nowMs)
     \<and> tk_attemptCount t < tk_maxAttempts t \<and> dependenciesSucceeded q t"

definition lease_candidate :: "env \<Rightarrow> task_queue \<Rightarrow> int \<Rightarrow> task option" where
  "lease_candidate E q nowMs = first_by (\<lambda>a b. collate E (lease_order_key a) (lease_order_key b))
     (filter (leasable E q nowMs) (map snd (q_tasks q)))"

definition lease_policy :: "js_number \<Rightarrow> bool" where
  "lease_policy n \<longleftrightarrow> is_integer n \<and> whole_between 1000 900000 n"

definition lease :: "env \<Rightarrow> task_queue \<Rightarrow> string \<Rightarrow> js_number \<Rightarrow> task_lease option queue_outcome" where
  "lease E q workerId leaseDurationMs =
     (if js_trim workerId = [] \<or> \<not> lease_policy leaseDurationMs
      then (Inl ''Worker lease must be named and between 1 and 900 seconds'', q)
      else
        let q2 = snd (reconcileBlockedDependencies E (snd (recoverExpiredLeases E q)));
            nowMs = reading E q2; q3 = tick q2 in
        case lease_candidate E q3 nowMs of
          None \<Rightarrow> (Inr None, q3)
        | Some t \<Rightarrow>
            let token = random E (q_random q3);
                until = to_iso (nowMs + whole_value leaseDurationMs);
                now = to_iso (reading E q3);
                t' = t\<lparr>tk_state := Running, tk_attemptCount := tk_attemptCount t + 1,
                  tk_leaseGeneration := tk_leaseGeneration t + 1, tk_leaseToken := Some token,
                  tk_leasedBy := Some workerId, tk_leasedUntil := Some until,
                  tk_heartbeatAt := Some now, tk_updatedAt := now\<rparr>;
                q4 = put t' (tick (q3\<lparr>q_random := Suc (q_random q3)\<rparr>)) in
            (Inr (Some \<lparr>tl_task = t', tl_generation = tk_leaseGeneration t', tl_leaseToken = token, tl_leasedUntil = until\<rparr>),
             emit E t' ''task.leased'' [(''attempt'', JNum (tk_attemptCount t')),
               (''generation'', JNum (tk_leaseGeneration t')), (''workerId'', JStr workerId)] q4))"

definition heartbeat :: "env \<Rightarrow> task_queue \<Rightarrow> lease_command \<Rightarrow> js_number \<Rightarrow> bool queue_outcome" where
  "heartbeat E q c leaseDurationMs = (let v = validLease E q c; q1 = snd v in (case fst v of
     None \<Rightarrow> (Inr False, q1)
   | Some t \<Rightarrow>
       if \<not> lease_policy leaseDurationMs then (Inl ''Heartbeat lease extension is outside policy'', q1)
       else let now = reading E q1;
                t' = t\<lparr>tk_heartbeatAt := Some (to_iso now),
                  tk_leasedUntil := Some (to_iso (now + whole_value leaseDurationMs)), tk_updatedAt := to_iso now\<rparr> in
            (Inr True, emit E t' ''task.heartbeat'' [(''generation'', JNum (tk_leaseGeneration t'))] (put t' (tick q1)))))"

definition checkpoint :: "env \<Rightarrow> task_queue \<Rightarrow> lease_command \<Rightarrow> string \<Rightarrow> string list \<Rightarrow> string list \<Rightarrow> bool queue_outcome" where
  "checkpoint E q c name artifactRefs metadataHashes = (let v = validLease E q c; q1 = snd v in (case fst v of
     None \<Rightarrow> (Inr False, q1)
   | Some t \<Rightarrow>
       if \<not> safe_code_pattern name then (Inl ''Checkpoint name is invalid'', q1)
       else if \<not> list_all sha256_pattern metadataHashes then (Inl ''Checkpoint metadata must be hashes'', q1)
       else let now = to_iso (reading E q1);
                rec = \<lparr>cp_checkpointId = random E (q_random q1), cp_name = name, cp_artifactRefs = artifactRefs,
                  cp_metadataHashes = metadataHashes, cp_recordedAt = now\<rparr>;
                t' = t\<lparr>tk_checkpoints := tk_checkpoints t @ [rec], tk_updatedAt := now\<rparr> in
            (Inr True, emit E t' ''task.checkpoint'' [(''checkpoint'', JStr name),
                (''artifactRefCount'', JNum (int (length artifactRefs)))]
               (put t' (tick (q1\<lparr>q_random := Suc (q_random q1)\<rparr>))))))"

datatype tool_phase = ToolRequested | ToolStarted | ToolResult

fun tool_event_type :: "tool_phase \<Rightarrow> string" where
  "tool_event_type ToolRequested = ''tool.requested''"
| "tool_event_type ToolStarted = ''tool.started''"
| "tool_event_type ToolResult = ''tool.result''"

definition recordToolEvent ::
  "env \<Rightarrow> task_queue \<Rightarrow> lease_command \<Rightarrow> tool_phase \<Rightarrow> string \<Rightarrow> string option \<Rightarrow> bool queue_outcome" where
  "recordToolEvent E q c phase toolName resultCode = (let v = validLease E q c; q1 = snd v in (case fst v of
     None \<Rightarrow> (Inr False, q1)
   | Some t \<Rightarrow> (case safeCode toolName of
       Inl e \<Rightarrow> (Inl e, q1)
     | Inr name \<Rightarrow> (case resultCode of
         None \<Rightarrow> (Inr True, emit E t (tool_event_type phase)
           [(''toolName'', JStr name), (''generation'', JNum (lm_generation c))] q1)
       | Some r \<Rightarrow> (case safeCode r of
           Inl e \<Rightarrow> (Inl e, q1)
         | Inr code \<Rightarrow> (Inr True, emit E t (tool_event_type phase)
             [(''toolName'', JStr name), (''resultCode'', JStr code), (''generation'', JNum (lm_generation c))] q1))))))"

definition assertLease :: "env \<Rightarrow> task_queue \<Rightarrow> lease_command \<Rightarrow> unit queue_outcome" where
  "assertLease E q c = (let v = validLease E q c; q1 = snd v in (case fst v of
     None \<Rightarrow> (Inl ''Worker lease is no longer valid for a side-effect commit'', q1)
   | Some t \<Rightarrow> (Inr (), q1)))"

definition complete :: "env \<Rightarrow> task_queue \<Rightarrow> lease_command \<Rightarrow> string option \<Rightarrow> bool queue_outcome" where
  "complete E q c resultArtifactId = (let v = validLease E q c; q1 = snd v in (case fst v of
     None \<Rightarrow> (Inr False, q1)
   | Some t \<Rightarrow>
       let t1 = t\<lparr>tk_state := Succeeded,
             tk_resultArtifactId := (case resultArtifactId of None \<Rightarrow> tk_resultArtifactId t | Some r \<Rightarrow> Some r)\<rparr>;
           t' = (clearLease t1)\<lparr>tk_updatedAt := to_iso (reading E q1)\<rparr> in
       (Inr True, emit E t' ''task.completed'' [(''generation'', JNum (lm_generation c)),
          (''resultRecorded'', JBool (resultArtifactId \<noteq> None))] (put t' (tick q1)))))"

definition fail ::
  "env \<Rightarrow> task_queue \<Rightarrow> lease_command \<Rightarrow> string \<Rightarrow> bool \<Rightarrow> js_number option \<Rightarrow> bool queue_outcome" where
  "fail E q c errorCode retryable retryDelayMs =
     (if (case retryDelayMs of None \<Rightarrow> False | Some n \<Rightarrow> \<not> (is_safe_integer n \<and> whole_between 0 86400000 n))
      then (Inl ''Task retry delay is outside policy'', q)
      else let v = validLease E q c; q1 = snd v in case fst v of
        None \<Rightarrow> (Inr False, q1)
      | Some t \<Rightarrow> (case safeCode errorCode of
          Inl e \<Rightarrow> (Inl e, q1)
        | Inr code \<Rightarrow>
          let again = (retryable \<and> tk_attemptCount t < tk_maxAttempts t);
              delay = or_else (map_option whole_value retryDelayMs) (boundedBackoff (tk_attemptCount t));
              t1 = t\<lparr>tk_lastErrorCode := Some code, tk_state := (if again then RetryWait else DeadLetter),
                    tk_availableAt := to_iso (reading E q1 + delay)\<rparr>;
              q2 = tick q1;
              t' = (clearLease t1)\<lparr>tk_updatedAt := to_iso (reading E q2)\<rparr> in
          (Inr True, emit E t' (if again then ''task.retry_scheduled'' else ''task.dead_lettered'')
             [(''attempt'', JNum (tk_attemptCount t')), (''errorCode'', JStr code)] (put t' (tick q2)))))"

definition mark_unknown :: "env \<Rightarrow> task \<Rightarrow> string \<Rightarrow> task_queue \<Rightarrow> task_queue" where
  "mark_unknown E t h q =
     (let t' = (clearLease (t\<lparr>tk_state := Unknown, tk_unknownReconciliationHash := Some h\<rparr>))
            \<lparr>tk_updatedAt := to_iso (reading E q)\<rparr> in
      emit E t' ''task.unknown'' [(''reconciliationKeyHash'', JStr h)] (put t' (tick q)))"

definition markUnknown :: "env \<Rightarrow> task_queue \<Rightarrow> lease_command \<Rightarrow> string \<Rightarrow> bool queue_outcome" where
  "markUnknown E q c h =
     (if \<not> sha256_pattern h then (Inl ''Unknown provider reconciliation key must be hashed'', q)
      else let v = validLease E q c; q1 = snd v in case fst v of
        None \<Rightarrow> (Inr False, q1)
      | Some t \<Rightarrow> (Inr True, mark_unknown E t h q1))"

definition terminal_state :: "task_state \<Rightarrow> bool" where
  "terminal_state s \<longleftrightarrow> s \<in> {Succeeded, DeadLetter, Cancelled, Superseded}"

definition recordUnknownObservation :: "env \<Rightarrow> task_queue \<Rightarrow> string \<Rightarrow> string \<Rightarrow> string \<Rightarrow> bool queue_outcome" where
  "recordUnknownObservation E q taskId requestFingerprint h =
     (if \<not> sha256_pattern h then (Inl ''Unknown provider reconciliation key must be hashed'', q)
      else case requireTask q taskId of
        Inl e \<Rightarrow> (Inl e, q)
      | Inr t \<Rightarrow>
          if tk_requestFingerprint t \<noteq> requestFingerprint
          then (Inl ''Unknown provider observation fingerprint diverged'', q)
          else if tk_state t = Unknown
          then (if tk_unknownReconciliationHash t \<noteq> Some h
                then (Inl ''Unknown provider reconciliation observation diverged'', q) else (Inr True, q))
          else if terminal_state (tk_state t) then (Inr False, q)
          else (Inr True, mark_unknown E t h q))"

datatype observed_outcome = ObservedSucceeded | ObservedRetry | ObservedFailed

definition reconcileUnknown :: "env \<Rightarrow> task_queue \<Rightarrow> string \<Rightarrow> string \<Rightarrow> observed_outcome \<Rightarrow> bool queue_outcome" where
  "reconcileUnknown E q taskId h observed = (case requireTask q taskId of
     Inl e \<Rightarrow> (Inl e, q)
   | Inr t \<Rightarrow>
       if tk_state t \<noteq> Unknown \<or> tk_unknownReconciliationHash t \<noteq> Some h then (Inr False, q)
       else let now = to_iso (reading E q);
                s = (if observed = ObservedSucceeded then Succeeded
                     else if observed = ObservedRetry \<and> tk_attemptCount t < tk_maxAttempts t then RetryWait
                     else DeadLetter);
                t' = t\<lparr>tk_state := s, tk_availableAt := now, tk_updatedAt := now\<rparr> in
            (Inr True, emit E t' (if s = Succeeded then ''task.completed''
                 else if s = RetryWait then ''task.retry_scheduled'' else ''task.dead_lettered'')
               [(''reconciled'', JBool True)] (put t' (tick q))))"

definition supersedable :: "string \<Rightarrow> string \<Rightarrow> int \<Rightarrow> task \<Rightarrow> bool" where
  "supersedable org packet newer t \<longleftrightarrow> tk_organizationId t = org \<and> tk_packetId t = Some packet
     \<and> (case tk_packetRevision t of None \<Rightarrow> False | Some r \<Rightarrow> r < newer)
     \<and> tk_state t \<notin> {DeadLetter, Cancelled, Superseded}"

definition supersede_task :: "env \<Rightarrow> int \<Rightarrow> task_queue \<Rightarrow> task \<Rightarrow> task_queue" where
  "supersede_task E newer q t = (let
     t' = (clearLease (t\<lparr>tk_state := Superseded, tk_supersededByRevision := Some newer\<rparr>))
            \<lparr>tk_updatedAt := to_iso (reading E q)\<rparr> in
     emit E t' ''task.superseded'' [(''newerRevision'', JNum newer)] (put t' (tick q)))"

definition supersedePacket :: "env \<Rightarrow> task_queue \<Rightarrow> string \<Rightarrow> string \<Rightarrow> js_number \<Rightarrow> string list queue_outcome" where
  "supersedePacket E q org packet newerRevision =
     (if \<not> (is_safe_integer newerRevision \<and> 1 \<le> whole_value newerRevision)
      then (Inl ''New packet revision is invalid'', q)
      else let (ids, q') = for_tasks (\<lambda>_. supersedable org packet (whole_value newerRevision))
             (supersede_task E (whole_value newerRevision)) (map fst (q_tasks q)) q in (Inr ids, q'))"

text \<open>The state and the lease are changed before the reason code is validated.\<close>

definition cancel :: "env \<Rightarrow> task_queue \<Rightarrow> string \<Rightarrow> string \<Rightarrow> bool queue_outcome" where
  "cancel E q taskId reasonCode = (case requireTask q taskId of
     Inl e \<Rightarrow> (Inl e, q)
   | Inr t \<Rightarrow>
       if terminal_state (tk_state t) then (Inr False, q)
       else let t1 = clearLease (t\<lparr>tk_state := Cancelled\<rparr>) in
         (case safeCode reasonCode of
           Inl e \<Rightarrow> (Inl e, put t1 q)
         | Inr code \<Rightarrow>
             let t' = t1\<lparr>tk_lastErrorCode := Some code, tk_updatedAt := to_iso (reading E q)\<rparr> in
             (Inr True, emit E t' ''task.cancelled'' [(''reasonCode'', JStr code)] (put t' (tick q)))))"

section \<open>The invariant and the order of task histories\<close>

definition task_ok :: "task \<Rightarrow> bool" where
  "task_ok t \<longleftrightarrow> 0 \<le> tk_attemptCount t \<and> tk_attemptCount t \<le> tk_maxAttempts t
     \<and> 1 \<le> tk_maxAttempts t \<and> tk_maxAttempts t \<le> 100 \<and> tk_leaseGeneration t = tk_attemptCount t
     \<and> (tk_state t = Running \<longrightarrow> 1 \<le> tk_attemptCount t \<and> tk_leaseToken t \<noteq> None \<and> tk_leasedUntil t \<noteq> None)
     \<and> (tk_state t \<noteq> Running \<longrightarrow> tk_leaseToken t = None \<and> tk_leasedUntil t = None)
     \<and> (tk_state t = Queued \<or> tk_state t = RetryWait \<longrightarrow> tk_attemptCount t < tk_maxAttempts t)
     \<and> (tk_state t = Unknown \<longrightarrow> tk_unknownReconciliationHash t \<noteq> None)"

definition queue_wf :: "task_queue \<Rightarrow> bool" where
  "queue_wf q \<longleftrightarrow> distinct (map fst (q_tasks q))
     \<and> (\<forall>i t. find_task q i = Some t \<longrightarrow> tk_taskId t = i \<and> task_ok t)
     \<and> (\<forall>k i. map_of (q_index q) k = Some i \<longrightarrow> (\<exists>t. find_task q i = Some t
          \<and> k = idempotency_index_key (tk_organizationId t) (tk_idempotencyKey t)))"

text \<open>States from which no operation takes a task.\<close>

definition dead :: "task \<Rightarrow> bool" where
  "dead t \<longleftrightarrow> tk_state t \<in> {DeadLetter, Cancelled, Superseded}"

definition same_request :: "task \<Rightarrow> task \<Rightarrow> bool" where
  "same_request t t' \<longleftrightarrow> tk_taskId t' = tk_taskId t \<and> tk_organizationId t' = tk_organizationId t
     \<and> tk_taskType t' = tk_taskType t \<and> tk_aggregateType t' = tk_aggregateType t
     \<and> tk_aggregateId t' = tk_aggregateId t \<and> tk_idempotencyKey t' = tk_idempotencyKey t
     \<and> tk_requestFingerprint t' = tk_requestFingerprint t \<and> tk_payloadArtifactId t' = tk_payloadArtifactId t
     \<and> tk_dependencyTaskIds t' = tk_dependencyTaskIds t \<and> tk_packetId t' = tk_packetId t
     \<and> tk_packetRevision t' = tk_packetRevision t \<and> tk_maxAttempts t' = tk_maxAttempts t
     \<and> tk_createdAt t' = tk_createdAt t"

text \<open>\<open>task_le t t'\<close>: \<open>t'\<close> can be a later state of \<open>t\<close>.  The lease generation never falls, a dead
  task stays as it is, a succeeded one can only be superseded, a lease that has ended never comes
  back under the same generation, and checkpoints are only added.\<close>

definition task_le :: "task \<Rightarrow> task \<Rightarrow> bool" where
  "task_le t t' \<longleftrightarrow> same_request t t' \<and> tk_leaseGeneration t \<le> tk_leaseGeneration t'
     \<and> (dead t \<longrightarrow> t' = t)
     \<and> (tk_state t = Succeeded \<longrightarrow> tk_state t' = Succeeded \<or> tk_state t' = Superseded)
     \<and> (tk_leaseGeneration t' = tk_leaseGeneration t \<and> tk_state t' = Running
          \<longrightarrow> tk_state t = Running \<and> tk_leaseToken t' = tk_leaseToken t)
     \<and> (\<exists>cs. tk_checkpoints t' = tk_checkpoints t @ cs)"

definition queue_le :: "task_queue \<Rightarrow> task_queue \<Rightarrow> bool" where
  "queue_le q q' \<longleftrightarrow>
     (\<forall>i t. find_task q i = Some t \<longrightarrow> (\<exists>t'. find_task q' i = Some t' \<and> task_le t t'))
     \<and> (\<forall>k i. map_of (q_index q) k = Some i \<longrightarrow> map_of (q_index q') k = Some i)
     \<and> (\<exists>es. q_events q' = q_events q @ es)"

lemma task_le_refl [simp]: "task_le t t"
  by (simp add: task_le_def same_request_def)

lemma task_leD:
  assumes "task_le t t'"
  shows "same_request t t'" "tk_leaseGeneration t \<le> tk_leaseGeneration t'" "dead t \<Longrightarrow> t' = t"
    "tk_state t = Succeeded \<Longrightarrow> tk_state t' = Succeeded \<or> tk_state t' = Superseded"
    "tk_leaseGeneration t' = tk_leaseGeneration t \<Longrightarrow> tk_state t' = Running
       \<Longrightarrow> tk_state t = Running \<and> tk_leaseToken t' = tk_leaseToken t"
    "\<exists>cs. tk_checkpoints t' = tk_checkpoints t @ cs"
  using assms unfolding task_le_def by blast+

lemma same_request_trans: "same_request t u \<Longrightarrow> same_request u v \<Longrightarrow> same_request t v"
  by (simp add: same_request_def)

lemma task_le_trans:
  assumes "task_le t u" "task_le u v"
  shows "task_le t v"
  unfolding task_le_def
proof (intro conjI impI)
  show "same_request t v" by (rule same_request_trans[OF task_leD(1)[OF assms(1)] task_leD(1)[OF assms(2)]])
  show "tk_leaseGeneration t \<le> tk_leaseGeneration v" by (rule order_trans[OF assms[THEN task_leD(2)]])
  show "v = t" if "dead t"
    using task_leD(3)[OF assms(1) that] task_leD(3)[OF assms(2)] that by simp
  show "tk_state v = Succeeded \<or> tk_state v = Superseded" if "tk_state t = Succeeded"
    using task_leD(4)[OF assms(1) that] task_leD(3,4)[OF assms(2)] by (auto simp: dead_def)
  show "\<exists>cs. tk_checkpoints v = tk_checkpoints t @ cs" using assms[THEN task_leD(6)] by auto
  assume g: "tk_leaseGeneration v = tk_leaseGeneration t \<and> tk_state v = Running"
  then have u: "tk_leaseGeneration u = tk_leaseGeneration t" "tk_leaseGeneration v = tk_leaseGeneration u"
    using assms[THEN task_leD(2)] by linarith+
  then have v: "tk_state u = Running \<and> tk_leaseToken v = tk_leaseToken u" using task_leD(5)[OF assms(2)] g by simp
  then have "tk_state t = Running \<and> tk_leaseToken u = tk_leaseToken t" using task_leD(5)[OF assms(1)] u by simp
  with v show "tk_state t = Running" "tk_leaseToken v = tk_leaseToken t" by simp_all
qed

lemma queue_le_refl [simp]: "queue_le q q"
  by (simp add: queue_le_def)

lemma queue_le_trans:
  assumes "queue_le p q" and "queue_le q r"
  shows "queue_le p r"
  unfolding queue_le_def
proof (intro conjI allI impI)
  fix i t
  assume "find_task p i = Some t"
  with assms(1) obtain u where "find_task q i = Some u" "task_le t u" unfolding queue_le_def by blast
  moreover with assms(2) obtain v where "find_task r i = Some v" "task_le u v" unfolding queue_le_def by blast
  ultimately show "\<exists>v. find_task r i = Some v \<and> task_le t v" by (blast intro: task_le_trans)
next
  show "\<exists>es. q_events r = q_events p @ es" using assms by (auto simp: queue_le_def)
qed (use assms in \<open>simp add: queue_le_def\<close>)

text \<open>\<open>advance t t'\<close>: a mutation of one task that keeps it well-formed and leads to a later state.\<close>

definition advance :: "task \<Rightarrow> task \<Rightarrow> bool" where
  "advance t t' \<longleftrightarrow> (task_ok t \<longrightarrow> task_ok t' \<and> task_le t t')"

text \<open>\<open>grows q q'\<close>: from a well-formed queue the step leads to a well-formed later one.\<close>

definition grows :: "task_queue \<Rightarrow> task_queue \<Rightarrow> bool" where
  "grows q q' \<longleftrightarrow> (queue_wf q \<longrightarrow> queue_wf q' \<and> queue_le q q')"

lemma grows_refl [simp]: "grows q q"
  by (simp add: grows_def)

lemma grows_trans: "grows p q \<Longrightarrow> grows q r \<Longrightarrow> grows p r"
  unfolding grows_def by (blast intro: queue_le_trans)

lemma find_task_simps [simp]:
  "find_task (tick q) i = find_task q i"
  "find_task (emit E t ty m q) i = find_task q i"
  "find_task (q\<lparr>q_random := r\<rparr>) i = find_task q i"
  "find_task (q\<lparr>q_index := x\<rparr>) i = find_task q i"
  "find_task (put t q) i = (if i = tk_taskId t then Some t else find_task q i)"
  by (simp_all add: find_task_def tick_def emit_def put_def)

lemma queue_fields [simp]:
  "q_tasks (tick q) = q_tasks q" "q_index (tick q) = q_index q" "q_events (tick q) = q_events q"
  "q_tasks (emit E t ty m q) = q_tasks q" "q_index (emit E t ty m q) = q_index q"
  "q_index (put t q) = q_index q" "q_events (put t q) = q_events q"
  "q_tasks (put t q) = map_set (tk_taskId t) t (q_tasks q)"
  "\<exists>es. q_events (emit E t ty m q) = q_events q @ es"
  by (simp_all add: tick_def emit_def put_def)

lemma grows_tick [simp]: "grows q (tick q)"
  by (simp add: grows_def queue_wf_def queue_le_def)

lemma grows_random [simp]: "grows q (q\<lparr>q_random := r\<rparr>)"
  by (simp add: grows_def queue_wf_def queue_le_def)

lemma grows_emit [simp]: "grows q (emit E t ty m q)"
  by (simp add: grows_def queue_wf_def queue_le_def)

lemma grows_put:
  assumes "find_task q i = Some t" and "advance t t'"
  shows "grows q (put t' q)"
  unfolding grows_def
proof
  assume wf: "queue_wf q"
  then have t: "tk_taskId t = i" "task_ok t" using assms(1) by (auto simp: queue_wf_def)
  with assms(2) have t': "task_ok t'" "task_le t t'" by (auto simp: advance_def)
  then have id: "tk_taskId t' = i" "tk_organizationId t' = tk_organizationId t" "tk_idempotencyKey t' = tk_idempotencyKey t"
    using t by (simp_all add: task_le_def same_request_def)
  have "queue_wf (put t' q)"
    using wf t' id assms(1) unfolding queue_wf_def
    by (simp add: distinct_map_set) (metis option.inject)
  moreover have "queue_le q (put t' q)"
    using t' id assms(1) by (simp add: queue_le_def)
  ultimately show "queue_wf (put t' q) \<and> queue_le q (put t' q)" by simp
qed

lemma grows_put_emit:
  assumes "find_task q i = Some t" and "advance t t'" and "grows p q"
  shows "grows p (emit E u ty m (put t' (tick q)))"
proof -
  have "grows (tick q) (put t' (tick q))"
    using assms(1,2) by (intro grows_put[of "tick q" i t]) (simp_all add: queue_wf_def)
  then show ?thesis using assms(3) by (blast intro: grows_trans grows_tick grows_emit)
qed

lemma clearLease_fields [simp]:
  "tk_leaseToken (clearLease t) = None" "tk_leasedUntil (clearLease t) = None"
  "tk_state (clearLease t) = tk_state t" "tk_attemptCount (clearLease t) = tk_attemptCount t"
  "tk_maxAttempts (clearLease t) = tk_maxAttempts t" "tk_leaseGeneration (clearLease t) = tk_leaseGeneration t"
  "tk_unknownReconciliationHash (clearLease t) = tk_unknownReconciliationHash t"
  "tk_checkpoints (clearLease t) = tk_checkpoints t" "tk_taskId (clearLease t) = tk_taskId t"
  "same_request u (clearLease t) = same_request u t" "tk_lastErrorCode (clearLease t) = tk_lastErrorCode t"
  by (simp_all add: clearLease_def same_request_def)

lemma validLease_cases:
  "validLease E q c = (r, q1) \<Longrightarrow> (q1 = q \<or> q1 = tick q)
     \<and> (\<forall>t. r = Some t \<longrightarrow> find_task q (lm_taskId c) = Some t \<and> tk_state t = Running
          \<and> tk_leaseGeneration t = lm_generation c \<and> tk_leaseToken t = Some (lm_leaseToken c)
          \<and> (\<exists>u. tk_leasedUntil t = Some u \<and> \<not> date_lt (date_parse E u) (Some (reading E q)) \<and> q1 = tick q))"
  by (auto simp: validLease_def split: option.splits if_splits)

lemma validLease_grows: "validLease E q c = (r, q1) \<Longrightarrow> grows q q1"
  by (auto dest!: validLease_cases)

lemma validLease_find: "validLease E q c = (Some t, q1) \<Longrightarrow> find_task q1 (lm_taskId c) = Some t \<and> tk_state t = Running"
  by (auto dest!: validLease_cases)

lemmas task_simps = task_ok_def task_le_def same_request_def dead_def clearLease_def

text \<open>A step that leaves a task outside \<open>Running\<close> without a lease.\<close>

lemma leave_step:
  assumes "same_request t t'" and "tk_attemptCount t' = tk_attemptCount t"
    and "tk_leaseGeneration t' = tk_leaseGeneration t" and "tk_checkpoints t' = tk_checkpoints t"
    and "tk_state t' \<noteq> Running" and "tk_leaseToken t' = None" and "tk_leasedUntil t' = None"
    and "tk_state t' \<noteq> Queued" and "tk_state t' = RetryWait \<longrightarrow> tk_attemptCount t < tk_maxAttempts t"
    and "tk_state t' = Unknown \<longrightarrow> tk_unknownReconciliationHash t' \<noteq> None"
    and "\<not> dead t" and "tk_state t = Succeeded \<longrightarrow> tk_state t' = Superseded"
  shows "advance t t'"
  using assms unfolding advance_def task_ok_def task_le_def by (simp add: same_request_def)

text \<open>A step of a running task that keeps its lease.\<close>

lemma keep_step:
  assumes "same_request t t'" and "tk_attemptCount t' = tk_attemptCount t" and "tk_state t = Running"
    and "tk_leaseGeneration t' = tk_leaseGeneration t" and "tk_state t' = Running"
    and "tk_leaseToken t' = tk_leaseToken t" and "tk_leasedUntil t' \<noteq> None"
    and "\<exists>cs. tk_checkpoints t' = tk_checkpoints t @ cs"
  shows "advance t t'"
  using assms unfolding advance_def task_ok_def task_le_def by (simp add: same_request_def dead_def)

lemma leased_cases:
  assumes "validLease E q c = (v, q1)"
  obtains "v = None" "grows q q1" | t where "v = Some t" "find_task q1 (lm_taskId c) = Some t"
    "tk_state t = Running" "tk_leasedUntil t \<noteq> None" "grows q q1" "grows q (tick q1)" "\<And>r. grows q (q1\<lparr>q_random := r\<rparr>)"
    "\<And>t ty m. grows q (emit E t ty m q1)"
proof (cases v)
  case None
  then show thesis using that(1) validLease_grows[OF assms] by blast
next
  case (Some t)
  have g: "grows q q1" using assms by (rule validLease_grows)
  from Some validLease_cases[OF assms] have "find_task q (lm_taskId c) = Some t" "tk_state t = Running"
    "tk_leasedUntil t \<noteq> None" "q1 = tick q" by auto
  with g show thesis by (intro that(2)[OF Some]) (simp_all add: grows_trans[OF grows_tick])
qed

lemma heartbeat_grows: "grows q (snd (heartbeat E q c d))"
proof (cases "validLease E q c")
  case (Pair v q1)
  then show ?thesis
  proof (cases rule: leased_cases)
    case (2 t)
    show ?thesis using Pair 2
      by (auto simp: heartbeat_def Let_def same_request_def intro!: grows_put_emit[OF 2(2)] keep_step)
  qed (use Pair in \<open>simp add: heartbeat_def Let_def\<close>)
qed

lemma checkpoint_grows: "grows q (snd (checkpoint E q c n a m))"
proof (cases "validLease E q c")
  case (Pair v q1)
  then show ?thesis
  proof (cases rule: leased_cases)
    case (2 t)
    show ?thesis using Pair 2
      by (auto simp: checkpoint_def Let_def same_request_def intro!: grows_put_emit keep_step)
  qed (use Pair in \<open>simp add: checkpoint_def Let_def\<close>)
qed

lemma recordToolEvent_grows: "grows q (snd (recordToolEvent E q c p n r))"
proof (cases "validLease E q c")
  case (Pair v q1)
  then show ?thesis
  proof (cases rule: leased_cases)
    case (2 t)
    show ?thesis using Pair 2 by (simp add: recordToolEvent_def Let_def split: sum.splits option.splits)
  qed (use Pair in \<open>simp add: recordToolEvent_def Let_def\<close>)
qed

lemma assertLease_grows: "grows q (snd (assertLease E q c))"
proof (cases "validLease E q c")
  case (Pair v q1)
  then show ?thesis
    by (cases rule: leased_cases) (simp_all add: assertLease_def Let_def Pair)
qed

lemma complete_grows: "grows q (snd (complete E q c r))"
proof (cases "validLease E q c")
  case (Pair v q1)
  then show ?thesis
  proof (cases rule: leased_cases)
    case (2 t)
    show ?thesis using Pair 2
      by (auto simp: complete_def Let_def same_request_def clearLease_def dead_def intro!: grows_put_emit[OF 2(2)] leave_step)
  qed (use Pair in \<open>simp add: complete_def Let_def\<close>)
qed

lemma mark_unknown_grows:
  assumes "find_task q i = Some t" and "\<not> dead t" and "tk_state t \<noteq> Succeeded" and "grows p q"
  shows "grows p (mark_unknown E t h q)"
  unfolding mark_unknown_def Let_def using assms
  by (intro grows_put_emit[OF assms(1)] leave_step) (auto simp: same_request_def clearLease_def)

lemma markUnknown_grows: "grows q (snd (markUnknown E q c h))"
proof (cases "validLease E q c")
  case (Pair v q1)
  then show ?thesis
  proof (cases rule: leased_cases)
    case (2 t)
    show ?thesis using Pair 2 by (auto simp: markUnknown_def Let_def dead_def intro!: mark_unknown_grows)
  qed (use Pair in \<open>simp add: markUnknown_def Let_def\<close>)
qed

lemma recordUnknownObservation_grows: "grows q (snd (recordUnknownObservation E q i f h))"
  by (auto simp: recordUnknownObservation_def requireTask_def of_option_def dead_def terminal_state_def
      split: option.splits intro!: mark_unknown_grows)

lemma reconcileUnknown_grows: "grows q (snd (reconcileUnknown E q i h ob))"
proof (cases "find_task q i")
  case (Some t)
  let ?t = "t\<lparr>tk_state := s, tk_availableAt := n, tk_updatedAt := n\<rparr>"
  have "advance t (t\<lparr>tk_state := s, tk_availableAt := n, tk_updatedAt := n\<rparr>)"
    if "tk_state t = Unknown" "s = Succeeded \<or> s = DeadLetter \<or> s = RetryWait \<and> tk_attemptCount t < tk_maxAttempts t" for s n
    using that by (auto simp: advance_def task_ok_def task_le_def same_request_def dead_def)
  with Some show ?thesis
    by (simp add: reconcileUnknown_def requireTask_def Let_def grows_put_emit[OF Some] split: if_splits)
qed (simp add: reconcileUnknown_def requireTask_def)

lemma fail_grows: "grows q (snd (fail E q c e b d))"
proof (cases "validLease E q c")
  case (Pair v q1)
  then show ?thesis
  proof (cases rule: leased_cases)
    case (2 t)
    then have "find_task (tick q1) (lm_taskId c) = Some t" by simp
    note put = grows_put_emit[OF this]
    show ?thesis using Pair 2
      by (auto simp: fail_def Let_def same_request_def clearLease_def dead_def intro!: put leave_step split: sum.splits)
  qed (use Pair in \<open>simp add: fail_def Let_def\<close>)
qed

lemma cancel_grows: "grows q (snd (cancel E q i r))"
proof (cases "find_task q i")
  case (Some t)
  show ?thesis
    by (auto simp: cancel_def requireTask_def Some Let_def terminal_state_def split: sum.splits
      intro!: grows_put_emit[OF Some] grows_put[OF Some] leave_step simp: same_request_def dead_def clearLease_def)
qed (simp add: cancel_def requireTask_def)

lemma for_tasks_grows:
  assumes "\<And>q i t. find_task q i = Some t \<Longrightarrow> cond q t \<Longrightarrow> grows q (act q t)"
  shows "grows q (snd (for_tasks cond act is q))"
proof (induction "is" arbitrary: q)
  case (Cons i "is")
  show ?case
  proof (cases "find_task q i")
    case (Some t)
    have "grows q (snd (for_tasks cond act is (act q t)))" if "cond q t"
      by (rule grows_trans[OF assms[OF Some that] Cons])
    then show ?thesis using Some Cons[of q] by (simp split: prod.splits) (metis snd_conv)
  qed (use Cons in simp)
qed simp

lemma recoverExpiredLeases_grows: "grows q (snd (recoverExpiredLeases E q))"
  unfolding recoverExpiredLeases_def
  by (rule grows_trans[OF grows_tick for_tasks_grows])
    (auto simp: lease_expired_def expire_lease_def Let_def same_request_def clearLease_def dead_def
      intro!: grows_put_emit leave_step)

lemma cancel_step:
  assumes "tk_state t = Queued \<or> tk_state t = RetryWait"
  shows "advance t (t\<lparr>tk_state := Cancelled, tk_lastErrorCode := e, tk_updatedAt := u\<rparr>)"
  using assms by (elim disjE) (simp_all add: advance_def task_ok_def task_le_def same_request_def dead_def)

lemma reconcileBlockedDependencies_grows: "grows q (snd (reconcileBlockedDependencies E q))"
proof -
  have "advance t (t\<lparr>tk_state := Cancelled, tk_lastErrorCode := e, tk_updatedAt := u\<rparr>)" if "dependency_blocked p t" for p t e u
    using that by (intro cancel_step) (auto simp: dependency_blocked_def)
  then show ?thesis unfolding reconcileBlockedDependencies_def
    by (intro for_tasks_grows) (auto simp: cancel_blocked_def Let_def intro!: grows_put_emit)
qed

lemma supersedePacket_grows: "grows q (snd (supersedePacket E q g p n))"
proof -
  have "grows q (snd (for_tasks (\<lambda>_. supersedable g p r) (supersede_task E r) is q))" for r "is"
    by (rule for_tasks_grows)
      (auto simp: supersedable_def supersede_task_def Let_def same_request_def clearLease_def dead_def
        intro!: grows_put_emit leave_step)
  then show ?thesis by (simp add: supersedePacket_def split: prod.splits) (metis snd_conv)
qed


lemma validateEnqueue_None:
  assumes "validateEnqueue E i = None"
  shows "case en_maxAttempts i of None \<Rightarrow> True | Some n \<Rightarrow> 1 \<le> whole_value n \<and> whole_value n \<le> 100"
    "sha256_pattern (en_requestFingerprint i)"
    "case en_availableAt i of None \<Rightarrow> True | Some s \<Rightarrow> date_parse E s \<noteq> None"
    "distinct (or_else (en_dependencyTaskIds i) [])"
  using assms unfolding validateEnqueue_def Let_def
  by (auto split: if_splits option.splits dest: whole_betweenD)

definition new_task :: "env \<Rightarrow> task_queue \<Rightarrow> enqueue_task \<Rightarrow> task" where
  "new_task E q i = \<lparr>tk_taskId = or_else (en_taskId i) (random E (q_random q)),
             tk_organizationId = en_organizationId i, tk_taskType = en_taskType i,
             tk_aggregateType = en_aggregateType i, tk_aggregateId = en_aggregateId i,
             tk_idempotencyKey = en_idempotencyKey i, tk_requestFingerprint = en_requestFingerprint i,
             tk_payloadArtifactId = en_payloadArtifactId i,
             tk_dependencyTaskIds = or_else (en_dependencyTaskIds i) [],
             tk_packetId = en_packetId i, tk_packetRevision = map_option whole_value (en_packetRevision i),
             tk_state = Queued, tk_attemptCount = 0,
             tk_maxAttempts = or_else (map_option whole_value (en_maxAttempts i)) 5,
             tk_availableAt = or_else (en_availableAt i) (to_iso (reading E q)), tk_leaseGeneration = 0,
             tk_leaseToken = None, tk_leasedBy = None, tk_leasedUntil = None, tk_heartbeatAt = None,
             tk_resultArtifactId = None, tk_lastErrorCode = None, tk_supersededByRevision = None,
             tk_unknownReconciliationHash = None, tk_checkpoints = [], tk_createdAt = to_iso (reading E q),
             tk_updatedAt = to_iso (reading E q)\<rparr>"

text \<open>The three ways enqueueing ends: an error that changes no task, the earlier task of the same
  key and fingerprint, or a new task under a free key.\<close>

lemma enqueue_cases:
  assumes "enqueue E q i = (r, q')"
  obtains e where "r = Inl e" "q_tasks q' = q_tasks q" "q_index q' = q_index q" "grows q q'"
  | prior p where "r = Inr (prior, True)" "q' = emit E prior ''task.replayed'' [] q"
      "map_of (q_index q) (idempotency_index_key (en_organizationId i) (en_idempotencyKey i)) = Some p"
      "find_task q p = Some prior" "tk_requestFingerprint prior = en_requestFingerprint i"
  | q1 where "r = Inr (new_task E q i, False)" "validateEnqueue E i = None"
      "map_of (q_index q) (idempotency_index_key (en_organizationId i) (en_idempotencyKey i)) = None"
      "find_task q (tk_taskId (new_task E q i)) = None" "grows q q1" "q_tasks q1 = q_tasks q" "q_index q1 = q_index q"
      "q' = emit E (new_task E q i) ''task.enqueued'' [(''taskType'', JStr (en_taskType i))]
         ((put (new_task E q i) q1)\<lparr>q_index := map_set (idempotency_index_key (en_organizationId i) (en_idempotencyKey i))
            (tk_taskId (new_task E q i)) (q_index q1)\<rparr>)"
proof -
  let ?k = "idempotency_index_key (en_organizationId i) (en_idempotencyKey i)"
  define q1 where "q1 = (case en_taskId i of Some t \<Rightarrow> tick q | None \<Rightarrow> (tick q)\<lparr>q_random := Suc (q_random q)\<rparr>)"
  have q1: "grows q q1" "q_tasks q1 = q_tasks q" "q_index q1 = q_index q" "\<And>i. find_task q1 i = find_task q i"
    by (auto simp: q1_def grows_trans[OF grows_tick grows_random] split: option.splits)
  show thesis
  proof (cases "validateEnqueue E i")
    case (Some m)
    with assms that(1) show thesis by (auto simp: enqueue_def)
  next
    case None
    show thesis
    proof (cases "map_of (q_index q) ?k")
      case (Some p)
      with assms None that(1,2) show thesis
        by (auto simp: enqueue_def Let_def requireTask_def of_option_def split: option.splits if_splits)
    next
      case None': None
      have "enqueue E q i = (let t = new_task E q i in
         if find_task q1 (tk_taskId t) \<noteq> None then (Inl ''Task identity already exists'', q1)
         else (Inr (t, False), emit E t ''task.enqueued'' [(''taskType'', JStr (tk_taskType t))]
              ((put t q1)\<lparr>q_index := map_set ?k (tk_taskId t) (q_index q1)\<rparr>)))"
        unfolding enqueue_def None None' Let_def q1_def[symmetric] new_task_def by simp
      with assms q1 None None' that(1,3) show thesis
        by (auto simp: Let_def split: if_splits) (simp add: new_task_def)
    qed
  qed
qed

lemma new_task_ok: "validateEnqueue E i = None \<Longrightarrow> task_ok (new_task E q i)"
  using validateEnqueue_None(1)[of E i]
  by (auto simp: new_task_def task_ok_def or_else_def split: option.splits)

lemma enqueue_grows: "grows q (snd (enqueue E q i))"
proof (cases "enqueue E q i")
  case (Pair r q')
  then show ?thesis
  proof (cases rule: enqueue_cases)
    case (3 q1)
    let ?k = "idempotency_index_key (en_organizationId i) (en_idempotencyKey i)" and ?t = "new_task E q i"
    have f: "find_task q1 i = find_task q i" for i by (simp add: find_task_def 3(6))
    have t: "tk_organizationId ?t = en_organizationId i" "tk_idempotencyKey ?t = en_idempotencyKey i"
      by (simp_all add: new_task_def)
    have "queue_wf q' \<and> queue_le q q'" if "queue_wf q"
    proof
      have w: "queue_wf q1" "queue_le q q1" using 3(5) that by (simp_all add: grows_def)
      show "queue_wf q'"
        using w(1) 3(3,4) f new_task_ok[OF 3(2), of q] t unfolding queue_wf_def 3(8)
        by (auto simp: distinct_map_set 3(7)) fastforce
      show "queue_le q q'"
        using w(2) 3(3,4) f unfolding queue_le_def 3(8) by (auto simp: 3(7)) (auto simp: emit_def)
    qed
    then show ?thesis using Pair by (simp add: grows_def)
  qed (use Pair in auto)
qed

lemma first_by_in: "first_by cmp xs = Some x \<Longrightarrow> x \<in> set xs"
  by (induction xs arbitrary: x) (auto split: option.splits if_splits)

lemma first_by_None [simp]: "first_by cmp xs = None \<longleftrightarrow> xs = []"
  by (cases xs) (auto split: option.splits)

lemma queue_wf_in: "queue_wf q \<Longrightarrow> (i, t) \<in> set (q_tasks q) \<Longrightarrow> find_task q i = Some t \<and> tk_taskId t = i"
  by (auto simp: queue_wf_def find_task_def)

lemma lease_candidateD:
  assumes "queue_wf q" and "lease_candidate E q n = Some t"
  shows "find_task q (tk_taskId t) = Some t \<and> leasable E q n t"
proof -
  from assms(2) have "t \<in> set (filter (leasable E q n) (map snd (q_tasks q)))"
    unfolding lease_candidate_def by (rule first_by_in)
  then show ?thesis using queue_wf_in[OF assms(1)] by force
qed

definition leased_task :: "env \<Rightarrow> task_queue \<Rightarrow> int \<Rightarrow> string \<Rightarrow> js_number \<Rightarrow> task \<Rightarrow> task" where
  "leased_task E q nowMs workerId d t = t\<lparr>tk_state := Running, tk_attemptCount := tk_attemptCount t + 1,
                  tk_leaseGeneration := tk_leaseGeneration t + 1, tk_leaseToken := Some (random E (q_random q)),
                  tk_leasedBy := Some workerId, tk_leasedUntil := Some (to_iso (nowMs + whole_value d)),
                  tk_heartbeatAt := Some (to_iso (reading E q)), tk_updatedAt := to_iso (reading E q)\<rparr>"

text \<open>The queue a lease is taken from: expired leases recovered, blocked tasks cancelled.\<close>

definition settled :: "env \<Rightarrow> task_queue \<Rightarrow> task_queue" where
  "settled E q = snd (reconcileBlockedDependencies E (snd (recoverExpiredLeases E q)))"

lemma settled_grows: "grows q (settled E q)"
  unfolding settled_def by (rule grows_trans[OF recoverExpiredLeases_grows reconcileBlockedDependencies_grows])

lemma lease_cases:
  assumes "lease E q w d = (r, q')"
  obtains e where "r = Inl e" "q' = q"
  | "r = Inr None" "q' = tick (settled E q)" "lease_candidate E q' (reading E (settled E q)) = None" "lease_policy d"
  | t q3 where "q3 = tick (settled E q)" "lease_candidate E q3 (reading E (settled E q)) = Some t" "lease_policy d"
     "r = Inr (Some \<lparr>tl_task = leased_task E q3 (reading E (settled E q)) w d t,
        tl_generation = tk_leaseGeneration t + 1, tl_leaseToken = random E (q_random q3),
        tl_leasedUntil = to_iso (reading E (settled E q) + whole_value d)\<rparr>)"
     "q' = emit E (leased_task E q3 (reading E (settled E q)) w d t) ''task.leased''
        [(''attempt'', JNum (tk_attemptCount t + 1)), (''generation'', JNum (tk_leaseGeneration t + 1)), (''workerId'', JStr w)]
        (put (leased_task E q3 (reading E (settled E q)) w d t) (tick (q3\<lparr>q_random := Suc (q_random q3)\<rparr>)))"
proof -
  define q3 where "q3 = tick (settled E q)"
  have eq: "lease E q w d = (if js_trim w = [] \<or> \<not> lease_policy d
      then (Inl ''Worker lease must be named and between 1 and 900 seconds'', q)
      else (case lease_candidate E q3 (reading E (settled E q)) of None \<Rightarrow> (Inr None, q3)
        | Some t \<Rightarrow> let t' = leased_task E q3 (reading E (settled E q)) w d t in
            (Inr (Some \<lparr>tl_task = t', tl_generation = tk_leaseGeneration t', tl_leaseToken = random E (q_random q3),
               tl_leasedUntil = to_iso (reading E (settled E q) + whole_value d)\<rparr>),
             emit E t' ''task.leased'' [(''attempt'', JNum (tk_attemptCount t')),
               (''generation'', JNum (tk_leaseGeneration t')), (''workerId'', JStr w)]
               (put t' (tick (q3\<lparr>q_random := Suc (q_random q3)\<rparr>))))))"
    unfolding lease_def q3_def settled_def leased_task_def Let_def by (simp split: option.splits)
  show thesis
  proof (cases "js_trim w = [] \<or> \<not> lease_policy d")
    case True
    with assms that(1) show thesis by (auto simp: eq)
  next
    case False
    then show thesis using assms that(2) that(3)[OF q3_def] unfolding eq q3_def[symmetric]
      by (auto simp: Let_def leased_task_def split: option.splits)
  qed
qed

lemma leased_step:
  assumes "leasable E q n t"
  shows "advance t (leased_task E q2 m w d t)"
proof -
  have s: "tk_state t \<noteq> Succeeded \<and> \<not> dead t" and a: "tk_attemptCount t < tk_maxAttempts t"
    using assms by (auto simp: leasable_def dead_def)
  then show ?thesis
    unfolding advance_def task_ok_def task_le_def leased_task_def by (simp add: same_request_def)
qed

lemma lease_grows: "grows q (snd (lease E q w d))"
proof (cases "lease E q w d")
  case (Pair r q')
  then show ?thesis
  proof (cases rule: lease_cases)
    case (2)
    then show ?thesis using Pair settled_grows[of q E] by (auto intro: grows_trans)
  next
    case (3 t q3)
    have g3: "grows q q3" unfolding 3(1) using settled_grows grows_tick by (rule grows_trans)
    have "grows q q'" unfolding grows_def
    proof
      assume "queue_wf q"
      with g3 have "queue_wf q3" by (simp add: grows_def)
      from lease_candidateD[OF this 3(2)] have t: "find_task q3 (tk_taskId t) = Some t" "leasable E q3 (reading E (settled E q)) t"
        by simp_all
      have "grows q q'" unfolding 3(5)
        using t(1) by (intro grows_put_emit[OF _ leased_step[OF t(2)] grows_trans[OF g3 grows_random], where i = "tk_taskId t"]) simp
      with \<open>queue_wf q\<close> show "queue_wf q' \<and> queue_le q q'" by (simp add: grows_def)
    qed
    then show ?thesis using Pair by simp
  qed (use Pair in simp)
qed

inductive queue_step :: "env \<Rightarrow> task_queue \<Rightarrow> task_queue \<Rightarrow> bool" for E :: env and q :: task_queue where
  step_enqueue: "queue_step E q (snd (enqueue E q i))"
| step_lease: "queue_step E q (snd (lease E q w d))"
| step_heartbeat: "queue_step E q (snd (heartbeat E q c d))"
| step_checkpoint: "queue_step E q (snd (checkpoint E q c n a m))"
| step_tool: "queue_step E q (snd (recordToolEvent E q c p n res))"
| step_assert: "queue_step E q (snd (assertLease E q c))"
| step_complete: "queue_step E q (snd (complete E q c res))"
| step_fail: "queue_step E q (snd (fail E q c e b del))"
| step_mark_unknown: "queue_step E q (snd (markUnknown E q c h))"
| step_observe: "queue_step E q (snd (recordUnknownObservation E q tid f h))"
| step_reconcile: "queue_step E q (snd (reconcileUnknown E q tid h ob))"
| step_supersede: "queue_step E q (snd (supersedePacket E q org packet r))"
| step_cancel: "queue_step E q (snd (cancel E q tid code))"
| step_recover: "queue_step E q (snd (recoverExpiredLeases E q))"
| step_blocked: "queue_step E q (snd (reconcileBlockedDependencies E q))"

lemmas operation_grows = enqueue_grows lease_grows heartbeat_grows checkpoint_grows recordToolEvent_grows
  assertLease_grows complete_grows fail_grows markUnknown_grows recordUnknownObservation_grows
  reconcileUnknown_grows supersedePacket_grows cancel_grows recoverExpiredLeases_grows reconcileBlockedDependencies_grows

lemma queue_step_grows: "queue_step E q q' \<Longrightarrow> grows q q'"
  by (induction rule: queue_step.induct) (rule operation_grows)+

lemma queue_steps_grow: "(queue_step E)\<^sup>*\<^sup>* q q' \<Longrightarrow> grows q q'"
  by (induction rule: rtranclp_induct) (auto intro: grows_trans queue_step_grows)

lemma empty_queue_wf: "queue_wf \<lparr>q_tasks = [], q_index = [], q_events = [], q_clock = c, q_random = r\<rparr>"
  by (simp add: queue_wf_def find_task_def)

lemma queue_reachable_wf: "(queue_step E)\<^sup>*\<^sup>* empty_queue q \<Longrightarrow> queue_wf q"
  using queue_steps_grow[of E empty_queue q] by (simp add: grows_def empty_queue_def empty_queue_wf)


section \<open>Fencing\<close>

text \<open>A worker's command that its task has left behind: an older generation, or the current one
  after its lease has ended.\<close>

definition stale_command :: "task_queue \<Rightarrow> lease_command \<Rightarrow> bool" where
  "stale_command q c \<longleftrightarrow> (case find_task q (lm_taskId c) of None \<Rightarrow> False
     | Some t \<Rightarrow> lm_generation c < tk_leaseGeneration t
         \<or> lm_generation c = tk_leaseGeneration t \<and> tk_state t \<noteq> Running)"

lemma stale_persists:
  assumes "stale_command q c" and "queue_le q q'"
  shows "stale_command q' c"
proof -
  from assms(1) obtain t where t: "find_task q (lm_taskId c) = Some t"
    and st: "lm_generation c < tk_leaseGeneration t \<or> lm_generation c = tk_leaseGeneration t \<and> tk_state t \<noteq> Running"
    by (auto simp: stale_command_def split: option.splits)
  from t assms(2) obtain t' where t': "find_task q' (lm_taskId c) = Some t'" "task_le t t'"
    unfolding queue_le_def by blast
  have "lm_generation c < tk_leaseGeneration t' \<or> lm_generation c = tk_leaseGeneration t' \<and> tk_state t' \<noteq> Running"
    using st task_leD(2,5)[OF t'(2)] by linarith
  then show ?thesis using t'(1) by (simp add: stale_command_def)
qed

lemma stale_rejected: "stale_command q c \<Longrightarrow> validLease E q c = (None, q)"
  by (auto simp: stale_command_def validLease_def split: option.splits)

section \<open>Idempotent enqueueing\<close>

definition enqueue_key :: "enqueue_task \<Rightarrow> string" where
  "enqueue_key i = idempotency_index_key (en_organizationId i) (en_idempotencyKey i)"

definition recorded_request :: "task_queue \<Rightarrow> string \<Rightarrow> (string \<times> string) option" where
  "recorded_request q k = Option.bind (map_of (q_index q) k) (\<lambda>p.
     map_option (\<lambda>t. (tk_requestFingerprint t, tk_taskId t)) (find_task q p))"

lemma recorded_request_Some:
  "recorded_request q k = Some (f, i) \<longleftrightarrow> (\<exists>p t. map_of (q_index q) k = Some p \<and> find_task q p = Some t
     \<and> f = tk_requestFingerprint t \<and> i = tk_taskId t)"
  by (auto simp: recorded_request_def bind_eq_Some_conv)

lemma enqueue_records:
  assumes "enqueue E q i = (Inr r, q')"
  shows "recorded_request q' (enqueue_key i) = Some (en_requestFingerprint i, tk_taskId (fst r))"
  using assms
proof (cases rule: enqueue_cases)
  case (2 prior p)
  then show ?thesis by (auto simp: recorded_request_Some enqueue_key_def)
next
  case (3 q1)
  then show ?thesis by (auto simp: recorded_request_Some enqueue_key_def) (simp add: new_task_def)
qed simp

lemma enqueue_replays:
  assumes "recorded_request q (enqueue_key i) = Some (f, x)" and "enqueue E q i = (Inr r, q')"
  shows "f = en_requestFingerprint i \<and> tk_taskId (fst r) = x"
  using assms(2)
proof (cases rule: enqueue_cases)
  case (3 q1)
  then show ?thesis using assms(1) by (auto simp: recorded_request_Some enqueue_key_def)
qed (use assms(1) in \<open>auto simp: recorded_request_Some enqueue_key_def\<close>)

lemma queue_le_recorded: "queue_le q q' \<Longrightarrow> recorded_request q k = Some x \<Longrightarrow> recorded_request q' k = Some x"
  by (cases x) (fastforce simp: recorded_request_Some queue_le_def task_le_def same_request_def)

lemma queue_step_recorded:
  "queue_wf q \<Longrightarrow> queue_step E q q' \<Longrightarrow> recorded_request q k = Some x \<Longrightarrow> recorded_request q' k = Some x"
  using queue_step_grows[of E q q'] queue_le_recorded unfolding grows_def by blast

interpretation task_ledger: idempotent_operation "enqueue E" enqueue_key en_requestFingerprint "\<lambda>r. tk_taskId (fst r)"
    recorded_request "\<lambda>q q'. queue_wf q \<and> queue_step E q q'" "\<lambda>_. True" for E
  by unfold_locales ((erule enqueue_records enqueue_replays, assumption?) | erule conjE, erule (2) queue_step_recorded)+

lemma reachable_steps:
  assumes "(queue_step E)\<^sup>*\<^sup>* q q'" and "queue_wf q"
  shows "(\<lambda>q q'. queue_wf q \<and> queue_step E q q')\<^sup>*\<^sup>* q q'"
  using assms(1)
proof (induction rule: rtranclp_induct)
  case (step u v)
  have "queue_wf u" using queue_steps_grow[OF step(1)] assms(2) by (simp add: grows_def)
  with step show ?case by (simp add: rtranclp.rtrancl_into_rtrancl)
qed simp

section \<open>Back-off\<close>

lemma boundedBackoff_bounds: "1 \<le> a \<Longrightarrow> 1000 \<le> boundedBackoff a \<and> boundedBackoff a \<le> 60000"
  by (simp add: boundedBackoff_def)

definition failed_task :: "env \<Rightarrow> task_queue \<Rightarrow> string \<Rightarrow> bool \<Rightarrow> int \<Rightarrow> task \<Rightarrow> task" where
  "failed_task E q code retry delay t = (clearLease (t\<lparr>tk_lastErrorCode := Some code,
       tk_state := (if retry \<and> tk_attemptCount t < tk_maxAttempts t then RetryWait else DeadLetter),
       tk_availableAt := to_iso (reading E (tick q) + delay)\<rparr>))\<lparr>tk_updatedAt := to_iso (reading E (tick (tick q)))\<rparr>"

lemma fail_True:
  assumes "fail E q c e b d = (Inr True, q')" and "queue_wf q"
  obtains t where "find_task q (lm_taskId c) = Some t" "tk_state t = Running" "safeCode e = Inr e"
    "find_task q' (lm_taskId c) = Some (failed_task E q e b
       (or_else (map_option whole_value d) (boundedBackoff (tk_attemptCount t))) t)"
proof (cases "validLease E q c")
  case (Pair v q1)
  show thesis
  proof (cases v)
    case None
    with Pair assms(1) show thesis by (auto simp: fail_def Let_def split: if_splits)
  next
    case (Some t)
    have t: "find_task q (lm_taskId c) = Some t" "tk_state t = Running" "q1 = tick q"
      using Some validLease_cases[OF Pair] by auto
    then have "tk_taskId t = lm_taskId c" using assms(2) by (auto simp: queue_wf_def)
    then show thesis
      using Pair Some t assms(1) that[OF t(1,2)]
      by (auto simp: fail_def Let_def failed_task_def Let_def safeCode_def clearLease_def split: sum.splits if_splits)
  qed
qed

lemma fail_makes_stale:
  assumes "fail E q c e b d = (Inr True, q')" and "queue_wf q"
  shows "stale_command q' c"
proof (cases "validLease E q c")
  case (Pair v q1)
  from assms show ?thesis
  proof (rule fail_True)
    fix t
    assume t: "find_task q (lm_taskId c) = Some t"
      "find_task q' (lm_taskId c) = Some (failed_task E q e b
         (or_else (map_option whole_value d) (boundedBackoff (tk_attemptCount t))) t)"
    have "v \<noteq> None" using assms(1) Pair by (cases v) (auto simp: fail_def Let_def split: if_splits)
    then have "tk_leaseGeneration t = lm_generation c" using validLease_cases[OF Pair] t(1) by auto
    then show ?thesis using t(2) by (simp add: stale_command_def failed_task_def clearLease_def)
  qed
qed

section \<open>Sample queues\<close>

definition sample_request :: "string \<Rightarrow> string \<Rightarrow> string list \<Rightarrow> enqueue_task" where
  "sample_request tid key deps = \<lparr>en_taskId = Some tid, en_organizationId = ''org'', en_taskType = ''render'',
     en_aggregateType = ''job'', en_aggregateId = ''j1'', en_idempotencyKey = key,
     en_requestFingerprint = replicate 64 (CHR ''a''), en_payloadArtifactId = None,
     en_dependencyTaskIds = Some deps, en_packetId = None, en_packetRevision = None,
     en_maxAttempts = Some (Whole 2), en_availableAt = None\<rparr>"

definition sample_queue :: task_queue where
  "sample_queue = snd (enqueue sample_env empty_queue (sample_request ''t1'' ''k1'' []))"

definition sample_running :: task_queue where
  "sample_running = snd (lease sample_env sample_queue ''w1'' (Whole 60000))"

definition sample_lease :: lease_command where
  "sample_lease = \<lparr>lm_taskId = ''t1'', lm_generation = 1, lm_leaseToken = ''id-1''\<rparr>"

definition sample_failed :: task_queue where
  "sample_failed = snd (fail sample_env sample_running sample_lease ''io_error'' True None)"

lemma sample_queue_steps: "(queue_step sample_env)\<^sup>*\<^sup>* empty_queue sample_queue"
  unfolding sample_queue_def by (blast intro: step_enqueue)

lemma sample_running_steps: "(queue_step sample_env)\<^sup>*\<^sup>* sample_queue sample_running"
  unfolding sample_running_def by (blast intro: step_lease)

lemma sample_failed_steps: "(queue_step sample_env)\<^sup>*\<^sup>* sample_running sample_failed"
  unfolding sample_failed_def by (blast intro: step_fail)

lemma sample_reachable:
  "(queue_step sample_env)\<^sup>*\<^sup>* empty_queue sample_running" "(queue_step sample_env)\<^sup>*\<^sup>* empty_queue sample_failed"
  using sample_queue_steps sample_running_steps sample_failed_steps by (meson rtranclp_trans)+

section \<open>Properties\<close>

text \<open>C6: every reachable queue is well-formed (attempts never exceed the maximum, which is at most
  100; the lease generation equals the number of attempts; exactly the running tasks hold a lease),
  and from it no sequence of operations loses a task, an idempotency entry or an event, lowers a
  generation, changes a dead-lettered, cancelled or superseded task in any field, or takes a
  succeeded task anywhere but to superseded.\<close>

theorem queue_history_invariant:
  assumes "(queue_step E)\<^sup>*\<^sup>* empty_queue q" and "(queue_step E)\<^sup>*\<^sup>* q q'"
  shows "queue_wf q' \<and> queue_le q q'"
  using queue_reachable_wf[OF assms(1)] queue_steps_grow[OF assms(2)] by (simp add: grows_def)

lemma queue_history_invariant_witness: "queue_wf sample_failed \<and> queue_le sample_queue sample_failed"
  using queue_history_invariant[of sample_env sample_queue sample_failed]
    sample_queue_steps sample_running_steps sample_failed_steps by (meson rtranclp_trans)

text \<open>C7: a fenced worker can do nothing: once its generation is behind the task's, or the lease of
  its generation has ended, every later lease-bound call is refused and leaves the queue exactly
  as it is, whatever happened in between.\<close>

theorem stale_lease_fenced:
  assumes "(queue_step E)\<^sup>*\<^sup>* empty_queue q" and "stale_command q c" and "(queue_step E)\<^sup>*\<^sup>* q q'"
  shows "heartbeat E q' c d = (Inr False, q') \<and> checkpoint E q' c n refs hs = (Inr False, q')
    \<and> recordToolEvent E q' c ph tn rc = (Inr False, q') \<and> complete E q' c res = (Inr False, q')
    \<and> fst (fail E q' c code b del) \<noteq> Inr True \<and> snd (fail E q' c code b del) = q'
    \<and> fst (markUnknown E q' c h) \<noteq> Inr True \<and> snd (markUnknown E q' c h) = q'
    \<and> (\<exists>msg. assertLease E q' c = (Inl msg, q'))"
proof -
  have "queue_le q q'" using queue_reachable_wf[OF assms(1)] queue_steps_grow[OF assms(3)] by (simp add: grows_def)
  from stale_rejected[OF stale_persists[OF assms(2) this]] have "validLease E q' c = (None, q')" .
  then show ?thesis
    by (simp add: heartbeat_def Let_def checkpoint_def Let_def recordToolEvent_def Let_def complete_def Let_def fail_def Let_def markUnknown_def Let_def assertLease_def Let_def)
qed

lemma stale_lease_fenced_witness: "complete sample_env sample_failed sample_lease None = (Inr False, sample_failed)"
proof -
  have "fst (fail sample_env sample_running sample_lease ''io_error'' True None) = Inr True" by code_simp
  then have "fail sample_env sample_running sample_lease ''io_error'' True None = (Inr True, sample_failed)"
    unfolding sample_failed_def by (metis prod.collapse)
  then have "stale_command sample_failed sample_lease"
    using queue_reachable_wf[OF sample_reachable(1)] by (rule fail_makes_stale)
  from stale_lease_fenced[OF sample_reachable(2) this rtranclp.rtrancl_refl] show ?thesis by blast
qed

text \<open>A lease that is granted is for a task that was ready (queued or waiting for a retry,
  available, with attempts left and every dependency succeeded) in the queue with expired leases
  recovered; the task now runs under the next generation, its dependencies are still succeeded, and
  no command with another generation or token is valid for it.\<close>

theorem lease_grants_one_ready_task:
  assumes "(queue_step E)\<^sup>*\<^sup>* empty_queue q" and "lease E q w d = (Inr (Some l), q')"
  shows "\<exists>t i. find_task (settled E q) i = Some t \<and> leasable E (settled E q) (reading E (settled E q)) t
    \<and> find_task q' i = Some (tl_task l) \<and> tk_state (tl_task l) = Running
    \<and> tl_generation l = tk_leaseGeneration t + 1 \<and> dependenciesSucceeded q' (tl_task l)
    \<and> (\<forall>c u q''. lm_taskId c = i \<longrightarrow> validLease E q' c = (Some u, q'')
         \<longrightarrow> lm_generation c = tl_generation l \<and> lm_leaseToken c = tl_leaseToken l)"
  using assms(2)
proof (cases rule: lease_cases)
  case (3 t q3)
  have wf: "queue_wf q3" unfolding 3(1)
    using queue_reachable_wf[OF assms(1)] settled_grows[of q E] grows_tick[of "settled E q"] by (simp add: grows_def)
  note c = lease_candidateD[OF wf 3(2)]
  let ?t = "leased_task E q3 (reading E (settled E q)) w d t"
  have f3: "find_task q3 i = find_task (settled E q) i" for i by (simp add: 3(1))
  have id: "tk_taskId ?t = tk_taskId t" "tk_dependencyTaskIds ?t = tk_dependencyTaskIds t" "tk_state ?t = Running"
      "tk_leaseGeneration ?t = tk_leaseGeneration t + 1" "tk_leaseToken ?t = Some (random E (q_random q3))"
    by (simp_all add: leased_task_def)
  have q': "find_task q' i = (if i = tk_taskId t then Some ?t else find_task q3 i)" for i by (simp add: 3(5) id(1))
  have "leasable E (settled E q) (reading E (settled E q)) t"
    using c by (simp add: leasable_def dependenciesSucceeded_def f3)
  moreover have "dependenciesSucceeded q' ?t"
    using c unfolding leasable_def dependenciesSucceeded_def id(2) q' list_all_iff
    by (auto split: option.splits)
  moreover have "lm_generation k = tl_generation l \<and> lm_leaseToken k = tl_leaseToken l"
    if "lm_taskId k = tk_taskId t" "validLease E q' k = (Some u, q'')" for k u q''
    using validLease_cases[OF that(2)] that(1) id 3(4) by (auto simp: q')
  ultimately show ?thesis using c 3(4) q' f3 id(3,4) by (intro exI[of _ t] exI[of _ "tk_taskId t"]) auto
qed simp_all

lemma lease_grants_one_ready_task_witness:
  "\<exists>l. lease sample_env sample_queue ''w1'' (Whole 60000) = (Inr (Some l), sample_running) \<and> tk_state (tl_task l) = Running"
proof -
  have "\<exists>l. fst (lease sample_env sample_queue ''w1'' (Whole 60000)) = Inr (Some l)"
    by (rule exI[of _ "the (projr (fst (lease sample_env sample_queue ''w1'' (Whole 60000))))"]) code_simp
  then obtain l where "lease sample_env sample_queue ''w1'' (Whole 60000) = (Inr (Some l), sample_running)"
    unfolding sample_running_def by (metis prod.collapse)
  from lease_grants_one_ready_task[OF sample_queue_steps this] this show ?thesis by blast
qed

text \<open>A worker with a name and a policy-conforming duration is given work whenever there is
  some: if any task is ready once expired leases are recovered and blocked tasks cancelled, the call
  returns a lease.\<close>

theorem lease_finds_work:
  assumes "js_trim w \<noteq> []" and "lease_policy d"
    and "find_task (settled E q) i = Some t" and "leasable E (settled E q) (reading E (settled E q)) t"
  shows "\<exists>l q'. lease E q w d = (Inr (Some l), q')"
proof (cases "lease E q w d")
  case (Pair r q')
  then show ?thesis
  proof (cases rule: lease_cases)
    case (1 e)
    have "(i, t) \<in> set (q_tasks (settled E q))" using assms(3) by (auto simp: find_task_def dest: map_of_SomeD)
    with Pair 1 assms(1,2) show ?thesis
      by (auto simp: lease_def Let_def settled_def[symmetric] split: option.splits)
  next
    case 2
    have "(i, t) \<in> set (q_tasks (tick (settled E q)))" using assms(3) by (auto simp: find_task_def dest: map_of_SomeD)
    moreover have "leasable E (tick (settled E q)) (reading E (settled E q)) t"
      using assms(4) by (simp add: leasable_def dependenciesSucceeded_def)
    ultimately have False using 2(2,3) by (auto simp: lease_candidate_def filter_empty_conv)
    then show ?thesis ..
  qed (use Pair in auto)
qed

lemma lease_finds_work_witness: "\<exists>l q'. lease sample_env sample_queue ''w1'' (Whole 60000) = (Inr (Some l), q')"
proof (rule lease_finds_work)
  show "js_trim ''w1'' \<noteq> []" by code_simp
  show "lease_policy (Whole 60000)" by code_simp
  show "find_task (settled sample_env sample_queue) ''t1'' = Some (new_task sample_env empty_queue (sample_request ''t1'' ''k1'' []))"
    by code_simp
  show "leasable sample_env (settled sample_env sample_queue) (reading sample_env (settled sample_env sample_queue))
     (new_task sample_env empty_queue (sample_request ''t1'' ''k1'' []))" by code_simp
qed

text \<open>Enqueueing is idempotent: after a request was accepted, any later request under the same
  idempotency key is answered only if its fingerprint is the same, then with the same task and as a
  replay that changes no task; a different fingerprint is an error.\<close>

theorem enqueue_idempotent:
  assumes "(queue_step E)\<^sup>*\<^sup>* empty_queue q" and "enqueue E q i = (Inr r, q1)"
    and "(queue_step E)\<^sup>*\<^sup>* q1 q2" and "enqueue_key j = enqueue_key i"
  shows "(case enqueue E q2 j of
       (Inr r2, q3) \<Rightarrow> en_requestFingerprint j = en_requestFingerprint i \<and> tk_taskId (fst r2) = tk_taskId (fst r)
          \<and> snd r2 \<and> q_tasks q3 = q_tasks q2
     | (Inl e, q3) \<Rightarrow> q_tasks q3 = q_tasks q2)"
proof -
  have "queue_wf q" using assms(1) by (rule queue_reachable_wf)
  then have "queue_wf q1" using enqueue_grows[of q E i] assms(2) by (simp add: grows_def)
  note steps = reachable_steps[OF assms(3) this]
  show ?thesis
  proof (cases "enqueue E q2 j")
    case (Pair v q3)
    then show ?thesis
    proof (cases rule: enqueue_cases)
      case (2 prior p)
      with task_ledger.one_identity_per_key[OF assms(2) steps Pair[unfolded 2(1)] assms(4) TrueI TrueI] Pair show ?thesis by simp
    next
      case (3 q4)
      have "recorded_request q2 (enqueue_key j) \<noteq> None"
        using task_ledger.steps_keep[OF steps enqueue_records[OF assms(2)]] assms(4) by simp
      then show ?thesis using 3(3) by (auto simp: recorded_request_def enqueue_key_def)
    qed (use Pair in simp)
  qed
qed

lemma enqueue_idempotent_witness:
  "\<exists>r q3. enqueue sample_env sample_running (sample_request ''t9'' ''k1'' []) = (Inr r, q3)
     \<and> tk_taskId (fst r) = ''t1'' \<and> snd r"
proof -
  let ?i = "sample_request ''t1'' ''k1'' []" and ?j = "sample_request ''t9'' ''k1'' []"
  let ?r = "projr (fst (enqueue sample_env empty_queue ?i))"
  have "fst (enqueue sample_env empty_queue ?i) = Inr ?r" by (rule projr_eqI) code_simp
  then have e: "enqueue sample_env empty_queue ?i = (Inr ?r, sample_queue)"
    unfolding sample_queue_def by (metis prod.collapse)
  have "enqueue_key ?j = enqueue_key ?i" by code_simp
  note p = enqueue_idempotent[OF rtranclp.rtrancl_refl e sample_running_steps this]
  have "tk_taskId (fst ?r) = ''t1''" by code_simp
  moreover have "\<not> isl (fst (enqueue sample_env sample_running ?j))" by code_simp
  ultimately show ?thesis using p by (auto split: prod.splits sum.splits)
qed

text \<open>A retryable failure of a running task with attempts left is retried after the back-off,
  which lies between one and sixty seconds, and not before; without attempts left, or when it is not
  retryable, the task is dead-lettered.\<close>

theorem failed_task_backs_off:
  assumes "(queue_step E)\<^sup>*\<^sup>* empty_queue q" and "fail E q c code retry None = (Inr True, q')"
    and "iso_range (reading E (tick q) + 60000)" and "0 \<le> reading E (tick q)"
  shows "\<exists>t t'. find_task q (lm_taskId c) = Some t \<and> find_task q' (lm_taskId c) = Some t'
    \<and> 1000 \<le> boundedBackoff (tk_attemptCount t) \<and> boundedBackoff (tk_attemptCount t) \<le> 60000
    \<and> (if retry \<and> tk_attemptCount t < tk_maxAttempts t
        then tk_state t' = RetryWait
          \<and> (\<forall>n. leasable E q' n t' \<longrightarrow> reading E (tick q) + boundedBackoff (tk_attemptCount t) \<le> n)
        else tk_state t' = DeadLetter)"
  using assms(2) queue_reachable_wf[OF assms(1)]
proof (rule fail_True)
  fix t
  assume t: "find_task q (lm_taskId c) = Some t" "tk_state t = Running"
    and t': "find_task q' (lm_taskId c) = Some (failed_task E q code retry
       (or_else (map_option whole_value None) (boundedBackoff (tk_attemptCount t))) t)"
  let ?t = "failed_task E q code retry (boundedBackoff (tk_attemptCount t)) t"
  have "1 \<le> tk_attemptCount t"
    using t queue_reachable_wf[OF assms(1)] by (auto simp: queue_wf_def task_ok_def)
  then have b: "1000 \<le> boundedBackoff (tk_attemptCount t) \<and> boundedBackoff (tk_attemptCount t) \<le> 60000"
    by (rule boundedBackoff_bounds)
  then have "iso_range (reading E (tick q) + boundedBackoff (tk_attemptCount t))"
    using assms(3,4) by (simp add: iso_range_def)
  then have "\<forall>n. leasable E q' n ?t \<longrightarrow> reading E (tick q) + boundedBackoff (tk_attemptCount t) \<le> n"
    by (simp add: leasable_def failed_task_def clearLease_def)
  then show ?thesis using t t' b by (auto simp: failed_task_def or_else_def)
qed


lemma failed_task_backs_off_witness:
  "\<exists>t'. find_task sample_failed ''t1'' = Some t' \<and> tk_state t' = RetryWait
    \<and> (\<forall>n. leasable sample_env sample_failed n t' \<longrightarrow> reading sample_env (tick sample_running) + 1000 \<le> n)"
proof -
  have "fst (fail sample_env sample_running sample_lease ''io_error'' True None) = Inr True" by code_simp
  then have f: "fail sample_env sample_running sample_lease ''io_error'' True None = (Inr True, sample_failed)"
    unfolding sample_failed_def by (metis prod.collapse)
  have r: "iso_range (reading sample_env (tick sample_running) + 60000)" "0 \<le> reading sample_env (tick sample_running)"
    by code_simp+
  have id: "lm_taskId sample_lease = ''t1''" by (simp add: sample_lease_def)
  have "map_option (\<lambda>t. boundedBackoff (tk_attemptCount t) = 1000 \<and> tk_attemptCount t < tk_maxAttempts t)
      (find_task sample_running ''t1'') = Some True" by code_simp
  with failed_task_backs_off[OF sample_reachable(1) f r] show ?thesis unfolding id by auto
qed

text \<open>Cancelling an open task with a reason that is not a safe code raises an error, yet the
  task is already cancelled and its lease gone, without the reason or an event being recorded.\<close>

theorem cancel_with_unsafe_reason_half_applied:
  assumes "(queue_step E)\<^sup>*\<^sup>* empty_queue q" and "find_task q i = Some t" and "\<not> terminal_state (tk_state t)"
    and "\<not> safe_code_pattern reason"
  shows "\<exists>msg q' t'. cancel E q i reason = (Inl msg, q') \<and> q_events q' = q_events q
    \<and> find_task q' i = Some t' \<and> tk_state t' = Cancelled \<and> tk_leaseToken t' = None
    \<and> tk_lastErrorCode t' = tk_lastErrorCode t"
proof -
  have "tk_taskId t = i" using queue_reachable_wf[OF assms(1)] assms(2) by (auto simp: queue_wf_def)
  then show ?thesis using assms(2-4)
    by (simp add: cancel_def requireTask_def Let_def safeCode_def clearLease_def)
qed

lemma cancel_with_unsafe_reason_half_applied_witness:
  "\<exists>msg q' t'. cancel sample_env sample_running ''t1'' ''Not Safe'' = (Inl msg, q') \<and> q_events q' = q_events sample_running
    \<and> find_task q' ''t1'' = Some t' \<and> tk_state t' = Cancelled"
proof -
  have "map_option (\<lambda>t. \<not> terminal_state (tk_state t)) (find_task sample_running ''t1'') = Some True" by code_simp
  then obtain t where t: "find_task sample_running ''t1'' = Some t" "\<not> terminal_state (tk_state t)" by auto
  have "\<not> safe_code_pattern ''Not Safe''" by code_simp
  from cancel_with_unsafe_reason_half_applied[OF sample_reachable(1) t this] show ?thesis by blast
qed

end
