(* ===== verification/Agreements.thy ===== *)
theory Agreements
  imports Contracts
begin

text \<open>
  Signed pre-inspection agreements (\<open>packages/agreements/src\<close>): the template version, the signed
  snapshot with one scope section per commissioned module and its canonical hash, signing and the
  verification of a stored snapshot.
\<close>

section \<open>Templates\<close>

datatype version_status = VersionDraft | VersionPublished | VersionRetired

record scope_section =
  ss_heading :: string
  ss_body :: string

definition ScopeSection_parse :: "scope_section \<Rightarrow> scope_section option" where
  "ScopeSection_parse s = do {
     h \<leftarrow> text_parse 300 (ss_heading s);
     b \<leftarrow> text_parse 20000 (ss_body s);
     Some (s\<lparr>ss_heading := h, ss_body := b\<rparr>) }"

record agreement_template =
  at_templateId :: string
  at_version :: int
  at_status :: version_status
  at_publishedAt :: "string option"
  at_title :: string
  at_introductoryText :: string
  at_building :: "scope_section option"
  at_timberPest :: "scope_section option"
  at_acknowledgementText :: string

definition AgreementTemplate_parse :: "env \<Rightarrow> agreement_template \<Rightarrow> agreement_template option" where
  "AgreementTemplate_parse E t =
     (if z_uuid E (at_templateId t) \<and> positive_int (at_version t) \<and> nullable_ok (z_datetime E) (at_publishedAt t)
      then do {
        title \<leftarrow> text_parse 300 (at_title t);
        intro \<leftarrow> text_parse 20000 (at_introductoryText t);
        b \<leftarrow> nullable ScopeSection_parse (at_building t);
        p \<leftarrow> nullable ScopeSection_parse (at_timberPest t);
        a \<leftarrow> text_parse 4000 (at_acknowledgementText t);
        Some (t\<lparr>at_title := title, at_introductoryText := intro, at_building := b, at_timberPest := p,
          at_acknowledgementText := a\<rparr>) }
      else None)"

section \<open>Signed snapshots\<close>

record agreement_signer =
  sg_assignmentId :: string
  sg_contactId :: string
  sg_name :: string
  sg_email :: string

definition AgreementSigner_parse :: "env \<Rightarrow> agreement_signer \<Rightarrow> agreement_signer option" where
  "AgreementSigner_parse E s =
     (if z_uuid E (sg_assignmentId s) \<and> z_uuid E (sg_contactId s) \<and> z_email E (sg_email s)
      then map_option (\<lambda>n. s\<lparr>sg_name := n\<rparr>) (text_parse 200 (sg_name s)) else None)"

record signed_scope =
  sc_module :: module_type
  sc_heading :: string
  sc_body :: string

definition SignedScope_parse :: "signed_scope \<Rightarrow> signed_scope option" where
  "SignedScope_parse s = do {
     h \<leftarrow> text_parse 300 (sc_heading s);
     b \<leftarrow> text_parse 20000 (sc_body s);
     Some (s\<lparr>sc_heading := h, sc_body := b\<rparr>) }"

record signed_agreement_input =
  sa_agreementId :: string
  sa_bookingId :: string
  sa_organizationId :: string
  sa_templateId :: string
  sa_templateVersion :: int
  sa_templateTitle :: string
  sa_introductoryText :: string
  sa_commissionedModules :: "module_type list"
  sa_scopeSections :: "signed_scope list"
  sa_acknowledgementText :: string
  sa_acknowledgementAccepted :: bool
  sa_signer :: agreement_signer
  sa_typedName :: string
  sa_signedAt :: string

record signed_agreement = signed_agreement_input +
  sa_canonicalHash :: string

definition AgreementFields_parse ::
  "env \<Rightarrow> 'a signed_agreement_input_scheme \<Rightarrow> 'a signed_agreement_input_scheme option" where
  "AgreementFields_parse E s =
     (if z_uuid E (sa_agreementId s) \<and> z_uuid E (sa_bookingId s) \<and> z_uuid E (sa_organizationId s)
         \<and> z_uuid E (sa_templateId s) \<and> positive_int (sa_templateVersion s)
         \<and> CommissionedModules_ok (sa_commissionedModules s)
         \<and> 1 \<le> length (sa_scopeSections s) \<and> length (sa_scopeSections s) \<le> 2
         \<and> sa_acknowledgementAccepted s \<and> z_datetime E (sa_signedAt s)
      then do {
        title \<leftarrow> text_parse 300 (sa_templateTitle s);
        intro \<leftarrow> text_parse 20000 (sa_introductoryText s);
        secs \<leftarrow> traverse SignedScope_parse (sa_scopeSections s);
        ack \<leftarrow> text_parse 4000 (sa_acknowledgementText s);
        sg \<leftarrow> AgreementSigner_parse E (sa_signer s);
        name \<leftarrow> text_parse 200 (sa_typedName s);
        Some (s\<lparr>sa_templateTitle := title, sa_introductoryText := intro, sa_scopeSections := secs,
          sa_acknowledgementText := ack, sa_signer := sg, sa_typedName := name\<rparr>) }
      else None)"

definition SignedAgreementInput_parse :: "env \<Rightarrow> signed_agreement_input \<Rightarrow> signed_agreement_input option" where
  "SignedAgreementInput_parse E s = AgreementFields_parse E s"

definition SignedAgreement_parse :: "env \<Rightarrow> signed_agreement \<Rightarrow> signed_agreement option" where
  "SignedAgreement_parse E s =
     (if sha256_pattern (sa_canonicalHash s) then AgreementFields_parse E s else None)"

definition agreement_signer_json :: "agreement_signer \<Rightarrow> json" where
  "agreement_signer_json s = JObj [(''assignmentId'', JStr (sg_assignmentId s)), (''contactId'', JStr (sg_contactId s)),
     (''name'', JStr (sg_name s)), (''email'', JStr (sg_email s))]"

definition signed_scope_json :: "signed_scope \<Rightarrow> json" where
  "signed_scope_json s = JObj [(''module'', JStr (module_text (sc_module s))), (''heading'', JStr (sc_heading s)),
     (''body'', JStr (sc_body s))]"

definition agreement_fields_json :: "'a signed_agreement_input_scheme \<Rightarrow> (string \<times> json) list" where
  "agreement_fields_json s = [(''agreementId'', JStr (sa_agreementId s)), (''bookingId'', JStr (sa_bookingId s)),
     (''organizationId'', JStr (sa_organizationId s)), (''templateId'', JStr (sa_templateId s)),
     (''templateVersion'', JNum (sa_templateVersion s)), (''templateTitle'', JStr (sa_templateTitle s)),
     (''introductoryText'', JStr (sa_introductoryText s)),
     (''commissionedModules'', JArr (map (\<lambda>m. JStr (module_text m)) (sa_commissionedModules s))),
     (''scopeSections'', JArr (map signed_scope_json (sa_scopeSections s))),
     (''acknowledgementText'', JStr (sa_acknowledgementText s)),
     (''acknowledgementAccepted'', JBool (sa_acknowledgementAccepted s)),
     (''signer'', agreement_signer_json (sa_signer s)), (''typedName'', JStr (sa_typedName s)),
     (''signatureMethod'', JStr ''typed_name_and_acknowledgement''), (''signedAt'', JStr (sa_signedAt s))]"

definition signed_agreement_json :: "signed_agreement \<Rightarrow> json" where
  "signed_agreement_json s = JObj (agreement_fields_json s @ [(''canonicalHash'', JStr (sa_canonicalHash s))])"

section \<open>Operations\<close>

datatype agreement_error = AgreementError string | AgreementZod | AgreementHash

record sign_input =
  sn_agreementId :: string
  sn_bookingId :: string
  sn_organizationId :: string
  sn_template :: agreement_template
  sn_commissionedModules :: "module_type list"
  sn_signer :: agreement_signer
  sn_typedName :: string
  sn_acknowledgementAccepted :: bool
  sn_signedAt :: string

definition scope_for :: "agreement_template \<Rightarrow> module_type \<Rightarrow> agreement_error + signed_scope" where
  "scope_for t m = (case (if m = Building then at_building t else at_timberPest t) of
     None \<Rightarrow> Inl (AgreementError (if m = Building then ''The Building scope is required for this agreement''
                                  else ''The Timber Pest scope is required for this agreement''))
   | Some s \<Rightarrow> Inr \<lparr>sc_module = m, sc_heading = ss_heading s, sc_body = ss_body s\<rparr>)"

definition signAgreement :: "env \<Rightarrow> sign_input \<Rightarrow> agreement_error + signed_agreement" where
  "signAgreement E i =
     bind_result (of_option AgreementZod (AgreementTemplate_parse E (sn_template i))) (\<lambda>t.
     ensure (at_status t = VersionPublished \<and> at_publishedAt t \<noteq> None)
       (AgreementError ''Only a published agreement template version can be signed'') (
     ensure (js_trim (sn_typedName i) = js_trim (sg_name (sn_signer i)))
       (AgreementError ''The typed signature name must match the signer snapshot'') (
     bind_result (map_result (scope_for t) (sn_commissionedModules i)) (\<lambda>sections.
     bind_result (of_option AgreementZod (SignedAgreementInput_parse E
       \<lparr>sa_agreementId = sn_agreementId i, sa_bookingId = sn_bookingId i, sa_organizationId = sn_organizationId i,
         sa_templateId = at_templateId t, sa_templateVersion = at_version t, sa_templateTitle = at_title t,
         sa_introductoryText = at_introductoryText t, sa_commissionedModules = sn_commissionedModules i,
         sa_scopeSections = sections, sa_acknowledgementText = at_acknowledgementText t,
         sa_acknowledgementAccepted = sn_acknowledgementAccepted i, sa_signer = sn_signer i,
         sa_typedName = sn_typedName i, sa_signedAt = sn_signedAt i\<rparr>)) (\<lambda>input.
     case sha256 E (JObj (agreement_fields_json input)) of
       Inl e \<Rightarrow> Inl AgreementHash
     | Inr h \<Rightarrow> of_option AgreementZod (SignedAgreement_parse E
         (signed_agreement_input.extend input (signed_agreement.fields h))))))))"

definition verifySignedAgreementSnapshot :: "env \<Rightarrow> signed_agreement \<Rightarrow> agreement_error + bool" where
  "verifySignedAgreementSnapshot E s =
     bind_result (of_option AgreementZod (SignedAgreement_parse E s)) (\<lambda>parsed.
     bind_result (of_option AgreementZod (SignedAgreementInput_parse E (signed_agreement_input.truncate parsed))) (\<lambda>input.
     case sha256 E (JObj (agreement_fields_json input)) of
       Inl e \<Rightarrow> Inl AgreementHash
     | Inr h \<Rightarrow> Inr (h = sa_canonicalHash parsed)))"

section \<open>Parsing is stable\<close>

lemma SignedScope_stable:
  assumes "SignedScope_parse a = Some b"
  shows "SignedScope_parse b = Some b" "sc_module b = sc_module a"
proof -
  from assms obtain h t where p: "text_parse 300 (sc_heading a) = Some h" "text_parse 20000 (sc_body a) = Some t"
    and b: "b = a\<lparr>sc_heading := h, sc_body := t\<rparr>"
    by (auto simp: SignedScope_parse_def bind_eq_Some_conv)
  show "SignedScope_parse b = Some b" by (simp add: SignedScope_parse_def b p[THEN text_parse_stable])
  show "sc_module b = sc_module a" by (simp add: b)
qed

lemma AgreementSigner_stable:
  assumes "AgreementSigner_parse E a = Some b"
  shows "AgreementSigner_parse E b = Some b"
  using assms by (auto simp: AgreementSigner_parse_def split: if_splits dest: text_parse_stable)

lemma AgreementFields_parse_SomeE:
  assumes "AgreementFields_parse E s = Some t"
  obtains title intro secs ack sg name where
    "t = s\<lparr>sa_templateTitle := title, sa_introductoryText := intro, sa_scopeSections := secs,
          sa_acknowledgementText := ack, sa_signer := sg, sa_typedName := name\<rparr>"
    "text_parse 300 (sa_templateTitle s) = Some title" "text_parse 20000 (sa_introductoryText s) = Some intro"
    "text_parse 4000 (sa_acknowledgementText s) = Some ack" "text_parse 200 (sa_typedName s) = Some name"
    "traverse SignedScope_parse (sa_scopeSections s) = Some secs" "AgreementSigner_parse E (sa_signer s) = Some sg"
    "z_uuid E (sa_agreementId s) \<and> z_uuid E (sa_bookingId s) \<and> z_uuid E (sa_organizationId s)
         \<and> z_uuid E (sa_templateId s) \<and> positive_int (sa_templateVersion s)
         \<and> CommissionedModules_ok (sa_commissionedModules s)
         \<and> Suc 0 \<le> length (sa_scopeSections s) \<and> length (sa_scopeSections s) \<le> 2
         \<and> sa_acknowledgementAccepted s \<and> z_datetime E (sa_signedAt s)"
  using assms unfolding AgreementFields_parse_def
  by (simp add: bind_eq_Some_conv split: if_splits) blast

lemma AgreementFields_parse_facts:
  assumes "AgreementFields_parse E s = Some t"
  shows "AgreementFields_parse E t = Some t
    \<and> AgreementFields_parse E (signed_agreement_input.truncate s) = Some (signed_agreement_input.truncate t)
    \<and> sa_bookingId t = sa_bookingId s \<and> sa_organizationId t = sa_organizationId s
      \<and> sa_commissionedModules t = sa_commissionedModules s
      \<and> signed_agreement_input.more t = signed_agreement_input.more s
      \<and> map sc_module (sa_scopeSections t) = map sc_module (sa_scopeSections s)"
  using assms
proof (rule AgreementFields_parse_SomeE)
  fix title intro secs ack sg name
  assume t: "t = s\<lparr>sa_templateTitle := title, sa_introductoryText := intro, sa_scopeSections := secs,
          sa_acknowledgementText := ack, sa_signer := sg, sa_typedName := name\<rparr>"
    and p: "text_parse 300 (sa_templateTitle s) = Some title" "text_parse 20000 (sa_introductoryText s) = Some intro"
    "text_parse 4000 (sa_acknowledgementText s) = Some ack" "text_parse 200 (sa_typedName s) = Some name"
    and q: "traverse SignedScope_parse (sa_scopeSections s) = Some secs" "AgreementSigner_parse E (sa_signer s) = Some sg"
    and ok: "z_uuid E (sa_agreementId s) \<and> z_uuid E (sa_bookingId s) \<and> z_uuid E (sa_organizationId s)
         \<and> z_uuid E (sa_templateId s) \<and> positive_int (sa_templateVersion s)
         \<and> CommissionedModules_ok (sa_commissionedModules s)
         \<and> Suc 0 \<le> length (sa_scopeSections s) \<and> length (sa_scopeSections s) \<le> 2
         \<and> sa_acknowledgementAccepted s \<and> z_datetime E (sa_signedAt s)"
  note st = p[THEN text_parse_stable] traverse_stable[OF SignedScope_stable(1) q(1)] AgreementSigner_stable[OF q(2)]
    traverse_length[OF q(1)]
  show "AgreementFields_parse E t = Some t
    \<and> AgreementFields_parse E (signed_agreement_input.truncate s) = Some (signed_agreement_input.truncate t)
    \<and> sa_bookingId t = sa_bookingId s \<and> sa_organizationId t = sa_organizationId s
      \<and> sa_commissionedModules t = sa_commissionedModules s
      \<and> signed_agreement_input.more t = signed_agreement_input.more s
      \<and> map sc_module (sa_scopeSections t) = map sc_module (sa_scopeSections s)"
    using ok st p q traverse_map_same[OF q(1) SignedScope_stable(2)]
    by (simp add: AgreementFields_parse_def t signed_agreement_input.defs)
qed

lemma AgreementFields_stable:
  assumes "AgreementFields_parse E s = Some t"
  shows "AgreementFields_parse E t = Some t"
    and "AgreementFields_parse E (signed_agreement_input.truncate s) = Some (signed_agreement_input.truncate t)"
    and "sa_bookingId t = sa_bookingId s" "sa_organizationId t = sa_organizationId s"
      "sa_commissionedModules t = sa_commissionedModules s"
      "signed_agreement_input.more t = signed_agreement_input.more s"
      "map sc_module (sa_scopeSections t) = map sc_module (sa_scopeSections s)"
  using AgreementFields_parse_facts[OF assms] by blast+

lemma SignedAgreement_parse_hash:
  assumes "SignedAgreement_parse E s = Some t"
  shows "sa_canonicalHash t = sa_canonicalHash s" "SignedAgreement_parse E t = Some t"
    "SignedAgreementInput_parse E (signed_agreement_input.truncate t) = Some (signed_agreement_input.truncate t)"
proof -
  from assms have f: "AgreementFields_parse E s = Some t" and h: "sha256_pattern (sa_canonicalHash s)"
    by (simp_all add: SignedAgreement_parse_def split: if_splits)
  show e: "sa_canonicalHash t = sa_canonicalHash s" using f by (rule AgreementFields_parse_SomeE) simp
  note st = AgreementFields_stable[OF f]
  show "SignedAgreement_parse E t = Some t" using st(1) h e by (simp add: SignedAgreement_parse_def)
  show "SignedAgreementInput_parse E (signed_agreement_input.truncate t) = Some (signed_agreement_input.truncate t)"
    using AgreementFields_stable(2)[OF st(1)] by (simp add: SignedAgreementInput_parse_def)
qed

section \<open>Properties\<close>

definition sample_template :: agreement_template where
  "sample_template = \<lparr>at_templateId = ''t'', at_version = 3, at_status = VersionPublished, at_publishedAt = Some ''2026'',
     at_title = ''Agreement'', at_introductoryText = ''Intro'',
     at_building = Some \<lparr>ss_heading = ''B'', ss_body = ''scope''\<rparr>,
     at_timberPest = Some \<lparr>ss_heading = ''P'', ss_body = ''scope''\<rparr>, at_acknowledgementText = ''I agree''\<rparr>"

definition sample_sign_input :: sign_input where
  "sample_sign_input = \<lparr>sn_agreementId = ''ag'', sn_bookingId = ''bk'', sn_organizationId = ''org'',
     sn_template = sample_template, sn_commissionedModules = [Building, TimberPest],
     sn_signer = \<lparr>sg_assignmentId = ''as1'', sg_contactId = ''c1'', sg_name = ''Casey'', sg_email = ''c@x''\<rparr>,
     sn_typedName = ''Casey '', sn_acknowledgementAccepted = True, sn_signedAt = ''2026-07-15''\<rparr>"

definition sample_agreement :: signed_agreement where
  "sample_agreement = projr (signAgreement sample_env sample_sign_input)"

lemma sample_agreement_ok: "signAgreement sample_env sample_sign_input = Inr sample_agreement"
  unfolding sample_agreement_def by (rule projr_eqI) code_simp

lemma AgreementFields_names:
  assumes "AgreementFields_parse E s = Some t"
  shows "sa_typedName t = js_trim (sa_typedName s)" "sg_name (sa_signer t) = js_trim (sg_name (sa_signer s))"
    "sg_contactId (sa_signer t) = sg_contactId (sa_signer s)"
  using assms by (auto elim!: AgreementFields_parse_SomeE simp: AgreementSigner_parse_def text_parse_def sized_text_parse_def Let_def split: if_splits)

text \<open>C8: a signed agreement is only made of a published template for an acknowledged signature whose
  typed name is, apart from surrounding blanks, the name of the signer; the agreement stores the same
  trimmed text as typed name and as name of that signer, carries exactly one scope section per
  commissioned module, in that order, is accepted unchanged by its schema, and its stored hash
  verifies.\<close>

theorem signed_agreement_verifies:
  assumes "signAgreement E i = Inr s"
  shows "verifySignedAgreementSnapshot E s = Inr True \<and> SignedAgreement_parse E s = Some s
    \<and> map sc_module (sa_scopeSections s) = sn_commissionedModules i
    \<and> sa_commissionedModules s = sn_commissionedModules i \<and> sa_bookingId s = sn_bookingId i
    \<and> at_status (sn_template i) = VersionPublished \<and> at_publishedAt (sn_template i) \<noteq> None
    \<and> sn_acknowledgementAccepted i
    \<and> js_trim (sn_typedName i) = js_trim (sg_name (sn_signer i))
    \<and> sa_typedName s = js_trim (sn_typedName i) \<and> sg_name (sa_signer s) = sa_typedName s
    \<and> sg_contactId (sa_signer s) = sg_contactId (sn_signer i)"
proof -
  from assms obtain t secs p h where t: "AgreementTemplate_parse E (sn_template i) = Some t" "at_status t = VersionPublished" "at_publishedAt t \<noteq> None"
    and typed: "js_trim (sn_typedName i) = js_trim (sg_name (sn_signer i))"
    and secs: "map_result (scope_for t) (sn_commissionedModules i) = Inr secs"
    and p: "SignedAgreementInput_parse E
       \<lparr>sa_agreementId = sn_agreementId i, sa_bookingId = sn_bookingId i, sa_organizationId = sn_organizationId i,
         sa_templateId = at_templateId t, sa_templateVersion = at_version t, sa_templateTitle = at_title t,
         sa_introductoryText = at_introductoryText t, sa_commissionedModules = sn_commissionedModules i,
         sa_scopeSections = secs, sa_acknowledgementText = at_acknowledgementText t,
         sa_acknowledgementAccepted = sn_acknowledgementAccepted i, sa_signer = sn_signer i,
         sa_typedName = sn_typedName i, sa_signedAt = sn_signedAt i\<rparr> = Some p"
      (is "SignedAgreementInput_parse E ?i = _")
    and h: "sha256 E (JObj (agreement_fields_json p)) = Inr h"
    and s: "SignedAgreement_parse E (signed_agreement_input.extend p (signed_agreement.fields h)) = Some s"
    by (auto simp: signAgreement_def)
  have "sc_module y = x" if "scope_for t x = Inr y" for x y
    using that by (auto simp: scope_for_def split: option.splits)
  then have m: "map sc_module secs = sn_commissionedModules i"
    using map_result_all[OF secs, of "\<lambda>_. True" sc_module] by blast
  from p have f: "AgreementFields_parse E ?i = Some p" by (simp add: SignedAgreementInput_parse_def)
  note fp = AgreementFields_stable[OF f]
  let ?x = "signed_agreement_input.extend p (signed_agreement.fields h)"
  have tr: "signed_agreement_input.truncate ?x = p"
    by (cases p) (simp add: signed_agreement_input.defs signed_agreement.defs)
  from s have fs: "AgreementFields_parse E ?x = Some s" by (simp add: SignedAgreement_parse_def split: if_splits)
  note fx = AgreementFields_stable[OF fs]
  have ts: "signed_agreement_input.truncate s = p" using fx(2) fp(1) tr by simp
  have hs: "sa_canonicalHash s = h" using SignedAgreement_parse_hash(1)[OF s]
    by (simp add: signed_agreement_input.defs signed_agreement.defs)
  have "verifySignedAgreementSnapshot E s = Inr True"
    using SignedAgreement_parse_hash(2,3)[OF s] h
    by (simp add: verifySignedAgreementSnapshot_def hs) (simp add: ts h)
  moreover have "map sc_module (sa_scopeSections s) = map sc_module (sa_scopeSections p)"
    "sa_commissionedModules s = sa_commissionedModules p" "sa_bookingId s = sa_bookingId p"
    unfolding ts[symmetric] by (simp_all add: signed_agreement_input.defs)
  moreover have "sn_acknowledgementAccepted i" using f by (rule AgreementFields_parse_SomeE) simp
  moreover have "at_status (sn_template i) = VersionPublished \<and> at_publishedAt (sn_template i) \<noteq> None"
    using t by (auto simp: AgreementTemplate_parse_def bind_eq_Some_conv split: if_splits)
  moreover have "sa_typedName s = sa_typedName p" "sa_signer s = sa_signer p"
    unfolding ts[symmetric] by (simp_all add: signed_agreement_input.defs)
  ultimately show ?thesis using SignedAgreement_parse_hash(2)[OF s] fp m typed AgreementFields_names[OF f] by simp
qed

lemma signed_agreement_verifies_witness:
  "verifySignedAgreementSnapshot sample_env sample_agreement = Inr True
    \<and> map sc_module (sa_scopeSections sample_agreement) = sn_commissionedModules sample_sign_input
    \<and> sa_typedName sample_agreement = sg_name (sa_signer sample_agreement)"
  using signed_agreement_verifies[OF sample_agreement_ok] by simp

end
