(* ===== verification/Booking_Schemas.thy ===== *)
theory Booking_Schemas
  imports Agreements Ledger
begin

text \<open>
  The validated data of a booking (\<open>packages/booking/src/schemas.ts\<close>, \<open>quote.ts\<close>,
  \<open>idempotency.ts\<close>, \<open>errors.ts\<close>): quotes and their rules, participants, the property, the projections of
  slot, agreement, payment, calendar, access, notifications and readiness, the booking state and
  the idempotent command check the booking and the slot book share.
\<close>

section \<open>Errors and idempotent commands\<close>

datatype booking_error = BookingConflict string | BookingZod | BookingHash

record command_receipt =
  rc_idempotencyKey :: string
  rc_requestFingerprint :: string

definition CommandReceipt_parse :: "command_receipt \<Rightarrow> command_receipt option" where
  "CommandReceipt_parse r =
     (if sha256_pattern (rc_requestFingerprint r)
      then map_option (\<lambda>k. r\<lparr>rc_idempotencyKey := k\<rparr>) (text_parse 300 (rc_idempotencyKey r)) else None)"

record command_metadata =
  cm_idempotencyKey :: string
  cm_expectedRevision :: int

definition booking_digest :: "env \<Rightarrow> json \<Rightarrow> booking_error + string" where
  "booking_digest E v = (case sha256 E v of Inl e \<Rightarrow> Inl BookingHash | Inr h \<Rightarrow> Inr h)"

definition inspectCommand ::
  "env \<Rightarrow> int \<Rightarrow> command_receipt list \<Rightarrow> command_metadata \<Rightarrow> string \<Rightarrow> json \<Rightarrow> booking_error + bool \<times> command_receipt" where
  "inspectCommand E currentRevision receipts c operation payload =
     bind_result (booking_digest E (JObj [(''operation'', JStr operation), (''payload'', payload)])) (\<lambda>h.
     let receipt = \<lparr>rc_idempotencyKey = cm_idempotencyKey c, rc_requestFingerprint = h\<rparr> in
     case List.find (\<lambda>r. rc_idempotencyKey r = cm_idempotencyKey c) receipts of
       Some prior \<Rightarrow> ensure (rc_requestFingerprint prior = h) (BookingConflict ''idempotency_key_reused'') (Inr (True, receipt))
     | None \<Rightarrow> ensure (cm_expectedRevision c = currentRevision) (BookingConflict ''stale_revision'') (Inr (False, receipt)))"

section \<open>Quotes\<close>

datatype property_type = DetachedHouse | Duplex | Townhouse | UnitDwelling

fun property_type_name :: "property_type \<Rightarrow> string" where
  "property_type_name DetachedHouse = ''detached_house''"
| "property_type_name Duplex = ''duplex''"
| "property_type_name Townhouse = ''townhouse''"
| "property_type_name UnitDwelling = ''unit''"

record property_quote_input =
  qp_propertyType :: property_type
  qp_storeys :: int
  qp_bedrooms :: int
  qp_suburb :: string
  qp_postcode :: string

definition PropertyQuoteInput_parse :: "property_quote_input \<Rightarrow> property_quote_input option" where
  "PropertyQuoteInput_parse p =
     (if 1 \<le> qp_storeys p \<and> qp_storeys p \<le> 4 \<and> 0 \<le> qp_bedrooms p \<and> qp_bedrooms p \<le> 20 \<and> four_digits (qp_postcode p)
      then map_option (\<lambda>s. p\<lparr>qp_suburb := s\<rparr>) (text_parse 120 (qp_suburb p)) else None)"

record module_price_rule =
  rl_label :: string
  rl_baseAmountCents :: int
  rl_additionalStoreyAmountCents :: int
  rl_additionalBedroomOverFourAmountCents :: int

definition ModulePriceRule_parse :: "module_price_rule \<Rightarrow> module_price_rule option" where
  "ModulePriceRule_parse r =
     (if nonneg_int (rl_baseAmountCents r) \<and> nonneg_int (rl_additionalStoreyAmountCents r)
         \<and> nonneg_int (rl_additionalBedroomOverFourAmountCents r)
      then map_option (\<lambda>l. r\<lparr>rl_label := l\<rparr>) (text_parse 200 (rl_label r)) else None)"

record quote_rule_version =
  qr_ruleSetId :: string
  qr_version :: int
  qr_status :: version_status
  qr_publishedAt :: "string option"
  qr_building :: module_price_rule
  qr_timberPest :: module_price_rule

definition QuoteRuleVersion_parse :: "env \<Rightarrow> quote_rule_version \<Rightarrow> quote_rule_version option" where
  "QuoteRuleVersion_parse E r =
     (if z_uuid E (qr_ruleSetId r) \<and> positive_int (qr_version r) \<and> nullable_ok (z_datetime E) (qr_publishedAt r)
      then do {
        b \<leftarrow> ModulePriceRule_parse (qr_building r);
        p \<leftarrow> ModulePriceRule_parse (qr_timberPest r);
        Some (r\<lparr>qr_building := b, qr_timberPest := p\<rparr>) }
      else None)"

record quote_line_item =
  li_module :: module_type
  li_label :: string
  li_amountCents :: int

definition QuoteLineItem_parse :: "quote_line_item \<Rightarrow> quote_line_item option" where
  "QuoteLineItem_parse i =
     (if nonneg_int (li_amountCents i) then map_option (\<lambda>l. i\<lparr>li_label := l\<rparr>) (text_parse 200 (li_label i)) else None)"

record quote_snapshot =
  qt_quoteId :: string
  qt_ruleSetId :: string
  qt_ruleVersion :: int
  qt_commissionedModules :: "module_type list"
  qt_property :: property_quote_input
  qt_lineItems :: "quote_line_item list"
  qt_totalAmountCents :: int
  qt_createdAt :: string
  qt_expiresAt :: string

definition quote_total :: "quote_line_item list \<Rightarrow> int" where
  "quote_total is = foldl (\<lambda>total i. total + li_amountCents i) 0 is"

definition QuoteSnapshot_parse :: "env \<Rightarrow> quote_snapshot \<Rightarrow> quote_snapshot option" where
  "QuoteSnapshot_parse E q =
     (if z_uuid E (qt_quoteId q) \<and> z_uuid E (qt_ruleSetId q) \<and> positive_int (qt_ruleVersion q)
         \<and> CommissionedModules_ok (qt_commissionedModules q)
         \<and> 1 \<le> length (qt_lineItems q) \<and> length (qt_lineItems q) \<le> 2
         \<and> nonneg_int (qt_totalAmountCents q) \<and> z_datetime E (qt_createdAt q) \<and> z_datetime E (qt_expiresAt q)
         \<and> map li_module (qt_lineItems q) = qt_commissionedModules q
         \<and> quote_total (qt_lineItems q) = qt_totalAmountCents q
      then do {
        p \<leftarrow> PropertyQuoteInput_parse (qt_property q);
        is \<leftarrow> traverse QuoteLineItem_parse (qt_lineItems q);
        Some (q\<lparr>qt_property := p, qt_lineItems := is\<rparr>) }
      else None)"

definition property_quote_json :: "property_quote_input \<Rightarrow> json" where
  "property_quote_json p = JObj [(''propertyType'', JStr (property_type_name (qp_propertyType p))),
     (''storeys'', JNum (qp_storeys p)), (''bedrooms'', JNum (qp_bedrooms p)), (''suburb'', JStr (qp_suburb p)),
     (''postcode'', JStr (qp_postcode p))]"

definition quote_json :: "quote_snapshot \<Rightarrow> json" where
  "quote_json q = JObj [(''quoteId'', JStr (qt_quoteId q)), (''ruleSetId'', JStr (qt_ruleSetId q)),
     (''ruleVersion'', JNum (qt_ruleVersion q)),
     (''commissionedModules'', JArr (map (\<lambda>m. JStr (module_text m)) (qt_commissionedModules q))),
     (''property'', property_quote_json (qt_property q)), (''currency'', JStr ''AUD''),
     (''lineItems'', JArr (map (\<lambda>i. JObj [(''module'', JStr (module_text (li_module i))),
        (''label'', JStr (li_label i)), (''amountCents'', JNum (li_amountCents i))]) (qt_lineItems q))),
     (''totalAmountCents'', JNum (qt_totalAmountCents q)), (''createdAt'', JStr (qt_createdAt q)),
     (''expiresAt'', JStr (qt_expiresAt q))]"

datatype quote_error = QuoteError string | QuoteZod

definition publishQuoteRuleVersion :: "env \<Rightarrow> quote_rule_version \<Rightarrow> string \<Rightarrow> quote_error + quote_rule_version" where
  "publishQuoteRuleVersion E r publishedAt =
     bind_result (of_option QuoteZod (QuoteRuleVersion_parse E r)) (\<lambda>draft.
     ensure (qr_status draft = VersionDraft \<and> qr_publishedAt draft = None)
       (QuoteError ''Only an unpublished draft quote rule version can be published'')
       (of_option QuoteZod (QuoteRuleVersion_parse E
          (draft\<lparr>qr_status := VersionPublished, qr_publishedAt := Some publishedAt\<rparr>))))"

record quote_input =
  qi_quoteId :: string
  qi_rules :: quote_rule_version
  qi_commissionedModules :: "module_type list"
  qi_property :: property_quote_input
  qi_createdAt :: string
  qi_expiresAt :: string

definition line_item_for :: "quote_rule_version \<Rightarrow> property_quote_input \<Rightarrow> module_type \<Rightarrow> quote_line_item" where
  "line_item_for r p m = (let rule = (if m = Building then qr_building r else qr_timberPest r) in
     \<lparr>li_module = m, li_label = rl_label rule,
      li_amountCents = rl_baseAmountCents rule
        + max 0 (qp_storeys p - 1) * rl_additionalStoreyAmountCents rule
        + max 0 (qp_bedrooms p - 4) * rl_additionalBedroomOverFourAmountCents rule\<rparr>)"

definition createQuote :: "env \<Rightarrow> quote_input \<Rightarrow> quote_error + quote_snapshot" where
  "createQuote E i =
     bind_result (of_option QuoteZod (QuoteRuleVersion_parse E (qi_rules i))) (\<lambda>rules.
     ensure (qr_status rules = VersionPublished \<and> qr_publishedAt rules \<noteq> None)
       (QuoteError ''Quotes require a published quote rule version'') (
     ensure (\<not> date_le (date_parse E (qi_expiresAt i)) (date_parse E (qi_createdAt i)))
       (QuoteError ''Quote expiry must be after quote creation'') (
     let items = map (line_item_for rules (qi_property i)) (qi_commissionedModules i) in
     of_option QuoteZod (QuoteSnapshot_parse E
       \<lparr>qt_quoteId = qi_quoteId i, qt_ruleSetId = qr_ruleSetId rules, qt_ruleVersion = qr_version rules,
         qt_commissionedModules = qi_commissionedModules i, qt_property = qi_property i, qt_lineItems = items,
         qt_totalAmountCents = quote_total items, qt_createdAt = qi_createdAt i, qt_expiresAt = qi_expiresAt i\<rparr>))))"

section \<open>Participants and property\<close>

record contact_snapshot =
  ct_contactId :: string
  ct_name :: string
  ct_email :: string
  ct_phone :: string

definition ContactSnapshot_parse :: "env \<Rightarrow> contact_snapshot \<Rightarrow> contact_snapshot option" where
  "ContactSnapshot_parse E c =
     (if z_uuid E (ct_contactId c) \<and> z_email E (ct_email c)
      then do {
        n \<leftarrow> text_parse 200 (ct_name c);
        p \<leftarrow> sized_text_parse 7 30 (ct_phone c);
        Some (c\<lparr>ct_name := n, ct_phone := p\<rparr>) }
      else None)"

record role_assignment =
  ra_assignmentId :: string
  ra_contact :: contact_snapshot

definition RoleAssignment_parse :: "env \<Rightarrow> role_assignment \<Rightarrow> role_assignment option" where
  "RoleAssignment_parse E a =
     (if z_uuid E (ra_assignmentId a) then map_option (\<lambda>c. a\<lparr>ra_contact := c\<rparr>) (ContactSnapshot_parse E (ra_contact a)) else None)"

record assigned_inspector =
  ai_inspectorId :: string
  ai_displayName :: string
  ai_credentialVersion :: string

definition AssignedInspector_parse :: "env \<Rightarrow> assigned_inspector \<Rightarrow> assigned_inspector option" where
  "AssignedInspector_parse E a =
     (if z_uuid E (ai_inspectorId a)
      then do {
        n \<leftarrow> text_parse 200 (ai_displayName a);
        c \<leftarrow> text_parse 200 (ai_credentialVersion a);
        Some (a\<lparr>ai_displayName := n, ai_credentialVersion := c\<rparr>) }
      else None)"

record booking_participants =
  pt_client :: role_assignment
  pt_reportRecipient :: role_assignment
  pt_invoiceContact :: role_assignment
  pt_accessContact :: role_assignment
  pt_assignedInspector :: assigned_inspector

definition BookingParticipants_parse :: "env \<Rightarrow> booking_participants \<Rightarrow> booking_participants option" where
  "BookingParticipants_parse E p =
     (if distinct [ra_assignmentId (pt_client p), ra_assignmentId (pt_reportRecipient p),
           ra_assignmentId (pt_invoiceContact p), ra_assignmentId (pt_accessContact p)]
      then do {
        c \<leftarrow> RoleAssignment_parse E (pt_client p);
        r \<leftarrow> RoleAssignment_parse E (pt_reportRecipient p);
        i \<leftarrow> RoleAssignment_parse E (pt_invoiceContact p);
        a \<leftarrow> RoleAssignment_parse E (pt_accessContact p);
        n \<leftarrow> AssignedInspector_parse E (pt_assignedInspector p);
        Some \<lparr>pt_client = c, pt_reportRecipient = r, pt_invoiceContact = i, pt_accessContact = a, pt_assignedInspector = n\<rparr> }
      else None)"

record property_snapshot =
  ps_propertyId :: string
  ps_addressLine1 :: string
  ps_suburb :: string
  ps_postcode :: string
  ps_accessNotes :: string

definition PropertySnapshot_parse :: "env \<Rightarrow> property_snapshot \<Rightarrow> property_snapshot option" where
  "PropertySnapshot_parse E p =
     (if z_uuid E (ps_propertyId p) \<and> four_digits (ps_postcode p)
      then do {
        a \<leftarrow> text_parse 300 (ps_addressLine1 p);
        s \<leftarrow> text_parse 120 (ps_suburb p);
        n \<leftarrow> sized_text_parse 0 4000 (ps_accessNotes p);
        Some (p\<lparr>ps_addressLine1 := a, ps_suburb := s, ps_accessNotes := n\<rparr>) }
      else None)"

record booking_input =
  bi_quote :: quote_snapshot
  bi_property :: property_snapshot
  bi_participants :: booking_participants
  bi_capturedAt :: string

definition BookingInput_parse :: "env \<Rightarrow> booking_input \<Rightarrow> booking_input option" where
  "BookingInput_parse E b =
     (if z_datetime E (bi_capturedAt b)
      then do {
        q \<leftarrow> QuoteSnapshot_parse E (bi_quote b);
        p \<leftarrow> PropertySnapshot_parse E (bi_property b);
        t \<leftarrow> BookingParticipants_parse E (bi_participants b);
        Some (b\<lparr>bi_quote := q, bi_property := p, bi_participants := t\<rparr>) }
      else None)"

section \<open>Projections\<close>

record slot_hold =
  sh_slotId :: string
  sh_holdId :: string
  sh_startsAt :: string
  sh_endsAt :: string
  sh_expiresAt :: string

definition SlotHold_ok :: "env \<Rightarrow> slot_hold \<Rightarrow> bool" where
  "SlotHold_ok E s \<longleftrightarrow> z_uuid E (sh_slotId s) \<and> z_uuid E (sh_holdId s) \<and> z_datetime E (sh_startsAt s)
     \<and> z_datetime E (sh_endsAt s) \<and> z_datetime E (sh_expiresAt s)"

definition slot_hold_json :: "slot_hold \<Rightarrow> json" where
  "slot_hold_json s = JObj [(''slotId'', JStr (sh_slotId s)), (''holdId'', JStr (sh_holdId s)),
     (''startsAt'', JStr (sh_startsAt s)), (''endsAt'', JStr (sh_endsAt s)), (''expiresAt'', JStr (sh_expiresAt s))]"

datatype slot_state = SlotHeld | SlotConfirmed | SlotReleased | SlotExpired

record booking_slot =
  sl_state :: slot_state
  sl_hold :: slot_hold
  sl_confirmedAt :: "string option"

definition BookingSlot_ok :: "env \<Rightarrow> booking_slot \<Rightarrow> bool" where
  "BookingSlot_ok E s \<longleftrightarrow> SlotHold_ok E (sl_hold s) \<and> nullable_ok (z_datetime E) (sl_confirmedAt s)"

datatype slot_history_state = HistorySuperseded | HistoryCancelled | HistoryExpired

record slot_history_entry =
  hs_state :: slot_history_state
  hs_slotId :: string
  hs_holdId :: string
  hs_startsAt :: string
  hs_endsAt :: string
  hs_recordedAt :: string

definition SlotHistoryEntry_ok :: "env \<Rightarrow> slot_history_entry \<Rightarrow> bool" where
  "SlotHistoryEntry_ok E h \<longleftrightarrow> z_uuid E (hs_slotId h) \<and> z_uuid E (hs_holdId h) \<and> z_datetime E (hs_startsAt h)
     \<and> z_datetime E (hs_endsAt h) \<and> z_datetime E (hs_recordedAt h)"

text \<open>The agreement projection is signed exactly when it carries a snapshot; both fields are kept.\<close>

record agreement_projection =
  ag_signed :: bool
  ag_snapshot :: "signed_agreement option"

definition AgreementProjection_parse :: "env \<Rightarrow> agreement_projection \<Rightarrow> agreement_projection option" where
  "AgreementProjection_parse E a =
     (if ag_signed a = (ag_snapshot a \<noteq> None)
      then map_option (\<lambda>s. a\<lparr>ag_snapshot := s\<rparr>) (nullable (SignedAgreement_parse E) (ag_snapshot a)) else None)"

datatype payment_state = PayNotStarted | PayPending | PayPaid | PayDeclined | PayFailed | PayUnknown
  | PayRefundPending | PayRefunded | PayRefundFailed

record payment_projection =
  py_state :: payment_state
  py_attempt :: int
  py_intentId :: "string option"
  py_providerReference :: "string option"
  py_failureCode :: "string option"
  py_terminal :: bool

definition PaymentProjection_parse :: "payment_projection \<Rightarrow> payment_projection option" where
  "PaymentProjection_parse p =
     (if nonneg_int (py_attempt p)
      then do {
        i \<leftarrow> nullable (text_parse 300) (py_intentId p);
        r \<leftarrow> nullable (text_parse 300) (py_providerReference p);
        f \<leftarrow> nullable (text_parse 300) (py_failureCode p);
        Some (p\<lparr>py_intentId := i, py_providerReference := r, py_failureCode := f\<rparr>) }
      else None)"

datatype calendar_state = CalNotRequested | CalPending | CalConfirmed | CalReservationFailed | CalUnknown
  | CalCancellationPending | CalCancelled | CalCancellationFailed

record calendar_projection =
  cl_state :: calendar_state
  cl_eventReference :: "string option"
  cl_failureCode :: "string option"
  cl_retryable :: bool

definition CalendarProjection_parse :: "calendar_projection \<Rightarrow> calendar_projection option" where
  "CalendarProjection_parse c = do {
     r \<leftarrow> nullable (text_parse 300) (cl_eventReference c);
     f \<leftarrow> nullable (text_parse 300) (cl_failureCode c);
     Some (c\<lparr>cl_eventReference := r, cl_failureCode := f\<rparr>) }"

datatype access_state = AccNotRequested | AccConfirmationPending | AccConfirmed | AccOverridden | AccInvalidated

record access_projection =
  ax_state :: access_state
  ax_generation :: int
  ax_activeLinkId :: "string option"
  ax_activeTokenFingerprint :: "string option"
  ax_supersededLinkIds :: "string list"
  ax_confirmedAt :: "string option"
  ax_overrideReason :: "string option"

definition AccessProjection_parse :: "env \<Rightarrow> access_projection \<Rightarrow> access_projection option" where
  "AccessProjection_parse E a =
     (if positive_int (ax_generation a) \<and> nullable_ok (z_uuid E) (ax_activeLinkId a)
         \<and> nullable_ok sha256_pattern (ax_activeTokenFingerprint a) \<and> list_all (z_uuid E) (ax_supersededLinkIds a)
         \<and> nullable_ok (z_datetime E) (ax_confirmedAt a)
      then map_option (\<lambda>r. a\<lparr>ax_overrideReason := r\<rparr>) (nullable (text_parse 4000) (ax_overrideReason a)) else None)"

datatype reminder_channel = ChannelEmail | ChannelSms
datatype reminder_state = RemScheduled | RemSent | RemInvalidated | RemFailed | RemUnknown

record reminder =
  rm_reminderId :: string
  rm_generation :: int
  rm_scheduledFor :: string
  rm_channel :: reminder_channel
  rm_state :: reminder_state

definition Reminder_ok :: "env \<Rightarrow> reminder \<Rightarrow> bool" where
  "Reminder_ok E r \<longleftrightarrow> z_uuid E (rm_reminderId r) \<and> positive_int (rm_generation r) \<and> z_datetime E (rm_scheduledFor r)"

record notification_projection =
  nt_generation :: int
  nt_reminders :: "reminder list"

definition NotificationProjection_ok :: "env \<Rightarrow> notification_projection \<Rightarrow> bool" where
  "NotificationProjection_ok E n \<longleftrightarrow> positive_int (nt_generation n) \<and> list_all (Reminder_ok E) (nt_reminders n)"

datatype dependency = DepSlot | DepAgreement | DepPayment | DepCalendar | DepAccess
datatype responsible_role = RoleClient | RoleAccessContact | RoleSystem | RoleAdministrator
datatype dependency_status = DepReady | DepActionRequired | DepProviderRecovery

record readiness_action =
  rx_dependency :: dependency
  rx_responsibleRole :: responsible_role
  rx_action :: string

record readiness =
  rd_ready :: bool
  rd_slot :: dependency_status
  rd_agreement :: dependency_status
  rd_payment :: dependency_status
  rd_calendar :: dependency_status
  rd_access :: dependency_status
  rd_actions :: "readiness_action list"

text \<open>Only payment and calendar may be in provider recovery.\<close>

definition ReadinessAction_parse :: "readiness_action \<Rightarrow> readiness_action option" where
  "ReadinessAction_parse a = map_option (\<lambda>t. a\<lparr>rx_action := t\<rparr>) (text_parse 300 (rx_action a))"

definition Readiness_parse :: "readiness \<Rightarrow> readiness option" where
  "Readiness_parse r =
     (if rd_slot r \<noteq> DepProviderRecovery \<and> rd_agreement r \<noteq> DepProviderRecovery \<and> rd_access r \<noteq> DepProviderRecovery
      then map_option (\<lambda>as. r\<lparr>rd_actions := as\<rparr>) (traverse ReadinessAction_parse (rd_actions r)) else None)"

record callback_receipt =
  cr_providerEventId :: string
  cr_requestFingerprint :: string

definition CallbackReceipt_parse :: "callback_receipt \<Rightarrow> callback_receipt option" where
  "CallbackReceipt_parse r =
     (if sha256_pattern (cr_requestFingerprint r)
      then map_option (\<lambda>k. r\<lparr>cr_providerEventId := k\<rparr>) (text_parse 300 (cr_providerEventId r)) else None)"

record reschedule_projection =
  rs_candidateSlot :: slot_hold
  rs_previousCalendarEventReference :: "string option"

definition RescheduleProjection_parse :: "env \<Rightarrow> reschedule_projection \<Rightarrow> reschedule_projection option" where
  "RescheduleProjection_parse E r =
     (if SlotHold_ok E (rs_candidateSlot r)
      then map_option (\<lambda>p. r\<lparr>rs_previousCalendarEventReference := p\<rparr>)
             (nullable (text_parse 300) (rs_previousCalendarEventReference r)) else None)"

section \<open>The booking\<close>

datatype booking_lifecycle = BkDraft | BkConfirmed | BkReschedulePending | BkCancelPending | BkCancelled

record booking_state =
  bk_bookingId :: string
  bk_organizationId :: string
  bk_revision :: int
  bk_lifecycle :: booking_lifecycle
  bk_input :: booking_input
  bk_quote :: quote_snapshot
  bk_slot :: booking_slot
  bk_slotHistory :: "slot_history_entry list"
  bk_agreement :: agreement_projection
  bk_payment :: payment_projection
  bk_calendar :: calendar_projection
  bk_access :: access_projection
  bk_notifications :: notification_projection
  bk_readiness :: readiness
  bk_reschedule :: "reschedule_projection option"
  bk_cancellationReason :: "string option"
  bk_commandReceipts :: "command_receipt list"
  bk_providerCallbackReceipts :: "callback_receipt list"

definition BookingState_parse :: "env \<Rightarrow> booking_state \<Rightarrow> booking_state option" where
  "BookingState_parse E s =
     (if z_uuid E (bk_bookingId s) \<and> z_uuid E (bk_organizationId s) \<and> nonneg_int (bk_revision s)
         \<and> BookingSlot_ok E (bk_slot s) \<and> list_all (SlotHistoryEntry_ok E) (bk_slotHistory s)
         \<and> NotificationProjection_ok E (bk_notifications s)
      then do {
        i \<leftarrow> BookingInput_parse E (bk_input s);
        q \<leftarrow> QuoteSnapshot_parse E (bk_quote s);
        a \<leftarrow> AgreementProjection_parse E (bk_agreement s);
        p \<leftarrow> PaymentProjection_parse (bk_payment s);
        c \<leftarrow> CalendarProjection_parse (bk_calendar s);
        x \<leftarrow> AccessProjection_parse E (bk_access s);
        r \<leftarrow> Readiness_parse (bk_readiness s);
        z \<leftarrow> nullable (RescheduleProjection_parse E) (bk_reschedule s);
        k \<leftarrow> nullable (text_parse 4000) (bk_cancellationReason s);
        rs \<leftarrow> traverse CommandReceipt_parse (bk_commandReceipts s);
        cs \<leftarrow> traverse CallbackReceipt_parse (bk_providerCallbackReceipts s);
        (if booking_digest E (quote_json q) = booking_digest E (quote_json (bi_quote i))
         then Some (s\<lparr>bk_input := i, bk_quote := q, bk_agreement := a, bk_payment := p, bk_calendar := c,
           bk_access := x, bk_readiness := r, bk_reschedule := z, bk_cancellationReason := k,
           bk_commandReceipts := rs, bk_providerCallbackReceipts := cs\<rparr>)
         else None) }
      else None)"

section \<open>Command receipts\<close>

lemma inspectCommand_Inr:
  assumes "inspectCommand E cur rs c op payload = Inr d"
  obtains h where "booking_digest E (JObj [(''operation'', JStr op), (''payload'', payload)]) = Inr h"
    "snd d = \<lparr>rc_idempotencyKey = cm_idempotencyKey c, rc_requestFingerprint = h\<rparr>"
    "fst d \<Longrightarrow> \<exists>r. List.find (\<lambda>r. rc_idempotencyKey r = cm_idempotencyKey c) rs = Some r \<and> rc_requestFingerprint r = h"
    "\<not> fst d \<Longrightarrow> List.find (\<lambda>r. rc_idempotencyKey r = cm_idempotencyKey c) rs = None \<and> cm_expectedRevision c = cur"
proof -
  from assms obtain h where h: "booking_digest E (JObj [(''operation'', JStr op), (''payload'', payload)]) = Inr h"
    by (auto simp: inspectCommand_def)
  with assms have "snd d = \<lparr>rc_idempotencyKey = cm_idempotencyKey c, rc_requestFingerprint = h\<rparr>
    \<and> (fst d \<longrightarrow> (\<exists>r. List.find (\<lambda>r. rc_idempotencyKey r = cm_idempotencyKey c) rs = Some r \<and> rc_requestFingerprint r = h))
    \<and> (\<not> fst d \<longrightarrow> List.find (\<lambda>r. rc_idempotencyKey r = cm_idempotencyKey c) rs = None \<and> cm_expectedRevision c = cur)"
    by (auto simp: inspectCommand_def Let_def split: option.splits)
  with h that show thesis by blast
qed

text \<open>The recorded fingerprint of a key.\<close>

definition receipt_of :: "command_receipt list \<Rightarrow> string \<Rightarrow> ((booking_error + string) \<times> unit) option" where
  "receipt_of rs k = map_option (\<lambda>r. (Inr (rc_requestFingerprint r), ())) (List.find (\<lambda>r. rc_idempotencyKey r = k) rs)"

definition receipts_trimmed :: "command_receipt list \<Rightarrow> bool" where
  "receipts_trimmed rs \<longleftrightarrow> traverse CommandReceipt_parse rs = Some rs"

lemma CommandReceipt_stable: "CommandReceipt_parse a = Some b \<Longrightarrow> CommandReceipt_parse b = Some b"
  by (auto simp: CommandReceipt_parse_def split: if_splits dest: text_parse_stable)

lemma receipts_parse_trimmed: "traverse CommandReceipt_parse rs = Some rs' \<Longrightarrow> receipts_trimmed rs'"
  unfolding receipts_trimmed_def by (rule traverse_stable[OF CommandReceipt_stable])

lemma receipt_of_append:
  "receipt_of (rs @ xs) k = (case receipt_of rs k of None \<Rightarrow> receipt_of xs k | Some r \<Rightarrow> Some r)"
  by (simp add: receipt_of_def find_append split: option.splits)

text \<open>Appending the receipt of a command whose key is already trimmed records it exactly.\<close>

lemma receipts_after:
  assumes "receipts_trimmed rs" and "traverse CommandReceipt_parse (rs @ [r]) = Some rs'"
  shows "\<exists>r'. rs' = rs @ [r'] \<and> rc_requestFingerprint r' = rc_requestFingerprint r
     \<and> rc_idempotencyKey r' = js_trim (rc_idempotencyKey r)"
  using assms unfolding receipts_trimmed_def
  by (auto simp: traverse_append CommandReceipt_parse_def split: option.splits if_splits dest: text_parse_SomeD)

text \<open>The record as the next command sees it: the stored receipts are parsed first.\<close>

definition recorded_command :: "command_receipt list \<Rightarrow> string \<Rightarrow> ((booking_error + string) \<times> unit) option" where
  "recorded_command rs k = Option.bind (traverse CommandReceipt_parse rs) (\<lambda>ts. receipt_of ts k)"

definition trimmed_key :: "command_metadata \<Rightarrow> bool" where
  "trimmed_key c \<longleftrightarrow> js_trim (cm_idempotencyKey c) = cm_idempotencyKey c"

lemma recorded_command_trimmed: "receipts_trimmed rs \<Longrightarrow> recorded_command rs k = receipt_of rs k"
  by (simp add: recorded_command_def receipts_trimmed_def)

text \<open>The three laws of a command ledger, for the receipts \<open>rs\<close> a state carries, their parsed form
  \<open>ts\<close> and the receipts \<open>ts'\<close> of the state an applied command leaves.\<close>

lemma command_replay:
  assumes "traverse CommandReceipt_parse rs = Some ts" and "inspectCommand E cur ts c op payload = Inr d" and "fst d"
  shows "recorded_command rs (cm_idempotencyKey c)
    = Some (booking_digest E (JObj [(''operation'', JStr op), (''payload'', payload)]), ())"
  using assms(2)
proof (rule inspectCommand_Inr)
  fix h
  assume "booking_digest E (JObj [(''operation'', JStr op), (''payload'', payload)]) = Inr h"
    and "fst d \<Longrightarrow> \<exists>r. List.find (\<lambda>r. rc_idempotencyKey r = cm_idempotencyKey c) ts = Some r \<and> rc_requestFingerprint r = h"
  then show ?thesis using assms(1,3) by (auto simp: recorded_command_def receipt_of_def)
qed

lemma receipt_recorded:
  assumes "traverse CommandReceipt_parse rs = Some ts" and "List.find (\<lambda>r. rc_idempotencyKey r = k0) ts = None"
    and "traverse CommandReceipt_parse (ts @ [\<lparr>rc_idempotencyKey = k0, rc_requestFingerprint = h\<rparr>]) = Some ts'"
  shows "recorded_command rs k0 = None"
    and "recorded_command rs k = Some x \<Longrightarrow> recorded_command ts' k = Some x"
    and "js_trim k0 = k0 \<Longrightarrow> recorded_command ts' k0 = Some (Inr h, ())"
proof -
  have none: "receipt_of ts k0 = None" using assms(2) by (simp add: receipt_of_def)
  have t: "recorded_command rs k = receipt_of ts k" for k using assms(1) by (simp add: recorded_command_def)
  from receipts_after[OF receipts_parse_trimmed[OF assms(1)] assms(3)] obtain r' where
    r': "ts' = ts @ [r']" "rc_requestFingerprint r' = h" "rc_idempotencyKey r' = js_trim k0" by auto
  have t': "recorded_command ts' k = receipt_of ts' k" for k
    using receipts_parse_trimmed[OF assms(3)] by (rule recorded_command_trimmed)
  show "recorded_command rs k0 = None" by (simp add: t none)
  show "recorded_command rs k = Some x \<Longrightarrow> recorded_command ts' k = Some x"
    using t'[of k] by (simp add: t r'(1) receipt_of_append)
  show "js_trim k0 = k0 \<Longrightarrow> recorded_command ts' k0 = Some (Inr h, ())"
    using t'[of k0] r'(2,3) none by (simp add: r'(1) receipt_of_append) (simp add: receipt_of_def)
qed

lemma command_applied:
  assumes "traverse CommandReceipt_parse rs = Some ts" and "inspectCommand E cur ts c op payload = Inr d" and "\<not> fst d"
    and "traverse CommandReceipt_parse (ts @ [snd d]) = Some ts'"
  shows "recorded_command rs (cm_idempotencyKey c) = None"
    and "recorded_command rs k = Some x \<Longrightarrow> recorded_command ts' k = Some x"
    and "trimmed_key c \<Longrightarrow> recorded_command ts' (cm_idempotencyKey c)
      = Some (booking_digest E (JObj [(''operation'', JStr op), (''payload'', payload)]), ())"
proof -
  from assms(2) obtain h where h: "booking_digest E (JObj [(''operation'', JStr op), (''payload'', payload)]) = Inr h"
    and r: "snd d = \<lparr>rc_idempotencyKey = cm_idempotencyKey c, rc_requestFingerprint = h\<rparr>"
    and n: "List.find (\<lambda>r. rc_idempotencyKey r = cm_idempotencyKey c) ts = None"
    by (rule inspectCommand_Inr) (use assms(3) in blast)
  note rec = receipt_recorded[OF assms(1) n assms(4)[unfolded r]]
  show "recorded_command rs (cm_idempotencyKey c) = None" by (rule rec)
  show "recorded_command rs k = Some x \<Longrightarrow> recorded_command ts' k = Some x" by (rule rec)
  show "trimmed_key c \<Longrightarrow> recorded_command ts' (cm_idempotencyKey c)
      = Some (booking_digest E (JObj [(''operation'', JStr op), (''payload'', payload)]), ())"
    using rec(3) by (simp add: trimmed_key_def h)
qed

end
