(* ===== verification/Slots.thy ===== *)
theory Slots
  imports Booking_Schemas
begin

text \<open>
  The slot book of \<open>packages/booking/src/slots.ts\<close>: an inventory of inspection slots that are
  available, held for a booking until an expiry, or confirmed, changed by idempotent commands
  against an expected revision.  The theory proves that slots are never double booked.
\<close>

section \<open>State\<close>

datatype inventory_state =
    SlotAvailable
  | SlotHeldFor (held_holdId: string) (held_bookingId: string) (held_expiresAt: string)
  | SlotConfirmedFor string

record inventory_entry =
  iv_slotId :: string
  iv_startsAt :: string
  iv_endsAt :: string
  iv_inspectorId :: string
  iv_state :: inventory_state

fun inventory_state_ok :: "env \<Rightarrow> inventory_state \<Rightarrow> bool" where
  "inventory_state_ok E SlotAvailable = True"
| "inventory_state_ok E (SlotHeldFor h b e) = (z_uuid E h \<and> z_uuid E b \<and> z_datetime E e)"
| "inventory_state_ok E (SlotConfirmedFor b) = z_uuid E b"

definition InventoryEntry_ok :: "env \<Rightarrow> inventory_entry \<Rightarrow> bool" where
  "InventoryEntry_ok E e \<longleftrightarrow> z_uuid E (iv_slotId e) \<and> z_datetime E (iv_startsAt e) \<and> z_datetime E (iv_endsAt e)
     \<and> z_uuid E (iv_inspectorId e) \<and> inventory_state_ok E (iv_state e)"

record slot_book =
  sb_revision :: int
  sb_slots :: "inventory_entry list"
  sb_commandReceipts :: "command_receipt list"

definition SlotBook_parse :: "env \<Rightarrow> slot_book \<Rightarrow> slot_book option" where
  "SlotBook_parse E b =
     (if nonneg_int (sb_revision b) \<and> list_all (InventoryEntry_ok E) (sb_slots b)
      then map_option (\<lambda>rs. b\<lparr>sb_commandReceipts := rs\<rparr>) (traverse CommandReceipt_parse (sb_commandReceipts b))
      else None)"

definition freezeSlotBook :: "env \<Rightarrow> slot_book \<Rightarrow> booking_error + slot_book" where
  "freezeSlotBook E b = of_option BookingZod (SlotBook_parse E b)"

section \<open>Operations\<close>

record slot_definition =
  sd_slotId :: string
  sd_startsAt :: string
  sd_endsAt :: string
  sd_inspectorId :: string

definition overlap :: "env \<Rightarrow> string \<Rightarrow> string \<Rightarrow> string \<Rightarrow> string \<Rightarrow> bool" where
  "overlap E s1 e1 s2 e2 \<longleftrightarrow> date_lt (date_parse E s1) (date_parse E e2) \<and> date_lt (date_parse E s2) (date_parse E e1)"

definition clash :: "env \<Rightarrow> slot_definition \<Rightarrow> slot_definition \<Rightarrow> bool" where
  "clash E l r \<longleftrightarrow> sd_inspectorId l = sd_inspectorId r
     \<and> overlap E (sd_startsAt l) (sd_endsAt l) (sd_startsAt r) (sd_endsAt r)"

text \<open>The nested loop over all pairs with the left index below the right one.\<close>

fun has_clash :: "env \<Rightarrow> slot_definition list \<Rightarrow> bool" where
  "has_clash E [] = False"
| "has_clash E (d # ds) = (list_ex (clash E d) ds \<or> has_clash E ds)"

definition createSlotBook :: "env \<Rightarrow> slot_definition list \<Rightarrow> booking_error + slot_book" where
  "createSlotBook E ds =
     ensure (distinct (map sd_slotId ds)) (BookingConflict ''duplicate_slot'') (
     ensure (list_all (\<lambda>d. \<not> date_le (date_parse E (sd_endsAt d)) (date_parse E (sd_startsAt d))) ds)
       (BookingConflict ''invalid_slot'') (
     ensure (\<not> has_clash E ds) (BookingConflict ''overlapping_inspector_slots'') (
     freezeSlotBook E \<lparr>sb_revision = 0,
       sb_slots = map (\<lambda>d. \<lparr>iv_slotId = sd_slotId d, iv_startsAt = sd_startsAt d, iv_endsAt = sd_endsAt d,
         iv_inspectorId = sd_inspectorId d, iv_state = SlotAvailable\<rparr>) ds,
       sb_commandReceipts = []\<rparr>)))"

record hold_command =
  hc_meta :: command_metadata
  hc_holdId :: string
  hc_bookingId :: string
  hc_slotId :: string
  hc_now :: string
  hc_expiresAt :: string

definition hold_payload :: "hold_command \<Rightarrow> json" where
  "hold_payload c = JObj [(''holdId'', JStr (hc_holdId c)), (''bookingId'', JStr (hc_bookingId c)),
     (''slotId'', JStr (hc_slotId c)), (''now'', JStr (hc_now c)), (''expiresAt'', JStr (hc_expiresAt c))]"

definition still_held :: "env \<Rightarrow> string \<Rightarrow> inventory_state \<Rightarrow> bool" where
  "still_held E now s = (case s of
     SlotHeldFor h b e \<Rightarrow> date_lt (date_parse E now) (date_parse E e) | _ \<Rightarrow> False)"

fun is_confirmed :: "inventory_state \<Rightarrow> bool" where
  "is_confirmed (SlotConfirmedFor b) = True"
| "is_confirmed s = False"

definition holdSlot :: "env \<Rightarrow> slot_book \<Rightarrow> hold_command \<Rightarrow> booking_error + slot_book \<times> bool" where
  "holdSlot E b c =
     bind_result (of_option BookingZod (SlotBook_parse E b)) (\<lambda>p.
     bind_result (inspectCommand E (sb_revision p) (sb_commandReceipts p) (hc_meta c) ''slot.hold'' (hold_payload c)) (\<lambda>d.
     if fst d then Inr (b, True) else
     ensure (\<not> date_le (date_parse E (hc_expiresAt c)) (date_parse E (hc_now c))) (BookingConflict ''invalid_hold_expiry'') (
     case find_index (\<lambda>s. iv_slotId s = hc_slotId c) (sb_slots p) of
       None \<Rightarrow> Inl (BookingConflict ''slot_not_found'')
     | Some i \<Rightarrow> let s = sb_slots p ! i in
         ensure (\<not> is_confirmed (iv_state s)) (BookingConflict ''slot_unavailable'') (
         ensure (\<not> still_held E (hc_now c) (iv_state s)) (BookingConflict ''slot_unavailable'') (
         bind_result (freezeSlotBook E \<lparr>sb_revision = sb_revision p + 1,
           sb_slots = (sb_slots p)[i := s\<lparr>iv_state := SlotHeldFor (hc_holdId c) (hc_bookingId c) (hc_expiresAt c)\<rparr>],
           sb_commandReceipts = sb_commandReceipts p @ [snd d]\<rparr>) (\<lambda>b'. Inr (b', False)))))))"

record confirm_slot_command =
  kc_meta :: command_metadata
  kc_bookingId :: string
  kc_holdId :: string
  kc_now :: string

definition confirm_payload :: "confirm_slot_command \<Rightarrow> json" where
  "confirm_payload c = JObj [(''bookingId'', JStr (kc_bookingId c)), (''holdId'', JStr (kc_holdId c)), (''now'', JStr (kc_now c))]"

definition held_under :: "string \<Rightarrow> inventory_entry \<Rightarrow> bool" where
  "held_under h s = (case iv_state s of SlotHeldFor h' b e \<Rightarrow> h' = h | _ \<Rightarrow> False)"

definition confirmSlotHold :: "env \<Rightarrow> slot_book \<Rightarrow> confirm_slot_command \<Rightarrow> booking_error + slot_book \<times> bool" where
  "confirmSlotHold E b c =
     bind_result (of_option BookingZod (SlotBook_parse E b)) (\<lambda>p.
     bind_result (inspectCommand E (sb_revision p) (sb_commandReceipts p) (kc_meta c) ''slot.confirm'' (confirm_payload c)) (\<lambda>d.
     if fst d then Inr (b, True) else
     case find_index (held_under (kc_holdId c)) (sb_slots p) of
       None \<Rightarrow> Inl (BookingConflict ''hold_not_found'')
     | Some i \<Rightarrow> let s = sb_slots p ! i in
         ensure (held_bookingId (iv_state s) = kc_bookingId c) (BookingConflict ''hold_owner_mismatch'') (
         ensure (\<not> date_le (date_parse E (held_expiresAt (iv_state s))) (date_parse E (kc_now c))) (BookingConflict ''hold_expired'') (
         bind_result (freezeSlotBook E \<lparr>sb_revision = sb_revision p + 1,
           sb_slots = (sb_slots p)[i := s\<lparr>iv_state := SlotConfirmedFor (kc_bookingId c)\<rparr>],
           sb_commandReceipts = sb_commandReceipts p @ [snd d]\<rparr>) (\<lambda>b'. Inr (b', False))))))"

section \<open>Lemmas\<close>

lemma SlotBook_parse_fields:
  assumes "SlotBook_parse E b = Some p"
  shows "sb_slots p = sb_slots b" "sb_revision p = sb_revision b"
    "traverse CommandReceipt_parse (sb_commandReceipts b) = Some (sb_commandReceipts p)"
    "list_all (InventoryEntry_ok E) (sb_slots p)"
  using assms by (auto simp: SlotBook_parse_def split: if_splits)

lemma freezeSlotBook_Inr: "freezeSlotBook E b = Inr b' \<longleftrightarrow> SlotBook_parse E b = Some b'"
  by (simp add: freezeSlotBook_def)

text \<open>What an applied command did.\<close>

lemma holdSlot_applied:
  assumes "holdSlot E b c = Inr (b', False)"
  obtains i where "i < length (sb_slots b)" "iv_slotId (sb_slots b ! i) = hc_slotId c"
    "\<not> is_confirmed (iv_state (sb_slots b ! i))" "\<not> still_held E (hc_now c) (iv_state (sb_slots b ! i))"
    "sb_slots b' = (sb_slots b)[i := (sb_slots b ! i)\<lparr>iv_state := SlotHeldFor (hc_holdId c) (hc_bookingId c) (hc_expiresAt c)\<rparr>]"
    "sb_revision b' = sb_revision b + 1" "sb_revision b = cm_expectedRevision (hc_meta c)"
proof -
  from assms obtain p d i where p: "SlotBook_parse E b = Some p"
    and d: "inspectCommand E (sb_revision p) (sb_commandReceipts p) (hc_meta c) ''slot.hold'' (hold_payload c) = Inr d" "\<not> fst d"
    and i: "find_index (\<lambda>s. iv_slotId s = hc_slotId c) (sb_slots p) = Some i"
    and o: "\<not> is_confirmed (iv_state (sb_slots p ! i))" "\<not> still_held E (hc_now c) (iv_state (sb_slots p ! i))"
    and f: "freezeSlotBook E \<lparr>sb_revision = sb_revision p + 1,
           sb_slots = (sb_slots p)[i := (sb_slots p ! i)\<lparr>iv_state := SlotHeldFor (hc_holdId c) (hc_bookingId c) (hc_expiresAt c)\<rparr>],
           sb_commandReceipts = sb_commandReceipts p @ [snd d]\<rparr> = Inr b'"
    by (auto simp: holdSlot_def Let_def split: if_splits option.splits)
  note b = SlotBook_parse_fields[OF p] and b' = SlotBook_parse_fields[OF f[unfolded freezeSlotBook_Inr]]
  from d have "sb_revision p = cm_expectedRevision (hc_meta c)" by (auto elim: inspectCommand_Inr)
  with that[of i] find_index_SomeD[OF i] o b(1,2) b'(1,2) show thesis by simp
qed

lemma confirmSlotHold_applied:
  assumes "confirmSlotHold E b c = Inr (b', False)"
  obtains i e where "i < length (sb_slots b)" "iv_state (sb_slots b ! i) = SlotHeldFor (kc_holdId c) (kc_bookingId c) e"
    "\<not> date_le (date_parse E e) (date_parse E (kc_now c))"
    "sb_slots b' = (sb_slots b)[i := (sb_slots b ! i)\<lparr>iv_state := SlotConfirmedFor (kc_bookingId c)\<rparr>]"
    "sb_revision b' = sb_revision b + 1" "sb_revision b = cm_expectedRevision (kc_meta c)"
proof -
  from assms obtain p d i where p: "SlotBook_parse E b = Some p"
    and d: "inspectCommand E (sb_revision p) (sb_commandReceipts p) (kc_meta c) ''slot.confirm'' (confirm_payload c) = Inr d" "\<not> fst d"
    and i: "find_index (held_under (kc_holdId c)) (sb_slots p) = Some i"
    and o: "held_bookingId (iv_state (sb_slots p ! i)) = kc_bookingId c"
      "\<not> date_le (date_parse E (held_expiresAt (iv_state (sb_slots p ! i)))) (date_parse E (kc_now c))"
    and f: "freezeSlotBook E \<lparr>sb_revision = sb_revision p + 1,
           sb_slots = (sb_slots p)[i := (sb_slots p ! i)\<lparr>iv_state := SlotConfirmedFor (kc_bookingId c)\<rparr>],
           sb_commandReceipts = sb_commandReceipts p @ [snd d]\<rparr> = Inr b'"
    by (auto simp: confirmSlotHold_def Let_def split: if_splits option.splits)
  note b = SlotBook_parse_fields[OF p] and b' = SlotBook_parse_fields[OF f[unfolded freezeSlotBook_Inr]]
  from d have "sb_revision p = cm_expectedRevision (kc_meta c)" by (auto elim: inspectCommand_Inr)
  moreover from find_index_SomeD[OF i] o
  have "iv_state (sb_slots p ! i) = SlotHeldFor (kc_holdId c) (kc_bookingId c) (held_expiresAt (iv_state (sb_slots p ! i)))"
    by (auto simp: held_under_def split: inventory_state.splits)
  ultimately show thesis using that[of i "held_expiresAt (iv_state (sb_slots p ! i))"] find_index_SomeD[OF i] o b(1,2) b'(1,2) by simp
qed

lemma replayed_same: "holdSlot E b c = Inr (b', True) \<Longrightarrow> b' = b"
  "confirmSlotHold E b k = Inr (b', True) \<Longrightarrow> b' = b"
  by (auto simp: holdSlot_def confirmSlotHold_def Let_def split: if_splits option.splits)

inductive slot_step :: "env \<Rightarrow> slot_book \<Rightarrow> slot_book \<Rightarrow> bool" for E :: env and b :: slot_book where
  slot_hold: "holdSlot E b c = Inr (b', r) \<Longrightarrow> slot_step E b b'"
| slot_confirm: "confirmSlotHold E b k = Inr (b', r) \<Longrightarrow> slot_step E b b'"

text \<open>The identity and times of every slot stay, and a confirmed slot keeps its booking.\<close>

definition slot_later :: "inventory_entry \<Rightarrow> inventory_entry \<Rightarrow> bool" where
  "slot_later s t \<longleftrightarrow> iv_slotId t = iv_slotId s \<and> iv_startsAt t = iv_startsAt s \<and> iv_endsAt t = iv_endsAt s
     \<and> iv_inspectorId t = iv_inspectorId s \<and> (is_confirmed (iv_state s) \<longrightarrow> t = s)"

lemma slot_later_refl [simp]: "slot_later s s"
  by (simp add: slot_later_def)

lemma slot_later_trans: "slot_later r s \<Longrightarrow> slot_later s t \<Longrightarrow> slot_later r t"
  by (auto simp: slot_later_def)

lemma slots_later_refl [simp]: "list_all2 slot_later xs xs"
  by (simp add: list_all2_conv_all_nth)

lemma slots_later_update:
  assumes "slot_later (xs ! i) y"
  shows "list_all2 slot_later xs (xs[i := y])"
proof -
  have "slot_later (xs ! j) (xs[i := y] ! j)" if "j < length xs" for j
    using assms that by (cases "j = i") simp_all
  then show ?thesis by (simp add: list_all2_conv_all_nth)
qed

lemma slot_later_change: "\<not> is_confirmed (iv_state s) \<Longrightarrow> slot_later s (s\<lparr>iv_state := x\<rparr>)"
  by (simp add: slot_later_def)

lemma slot_step_later: "slot_step E b b' \<Longrightarrow> list_all2 slot_later (sb_slots b) (sb_slots b')"
proof (induction rule: slot_step.induct)
  case (slot_hold c b' r)
  show ?case
  proof (cases r)
    case False
    with slot_hold show ?thesis
      by (auto elim!: holdSlot_applied intro!: slots_later_update slot_later_change)
  qed (use slot_hold in \<open>auto dest!: replayed_same\<close>)
next
  case (slot_confirm k b' r)
  show ?case
  proof (cases r)
    case False
    with slot_confirm show ?thesis
      by (auto elim!: confirmSlotHold_applied intro!: slots_later_update slot_later_change)
  qed (use slot_confirm in \<open>auto dest!: replayed_same\<close>)
qed

lemma slot_steps_later: "(slot_step E)\<^sup>*\<^sup>* b b' \<Longrightarrow> list_all2 slot_later (sb_slots b) (sb_slots b')"
proof (induction rule: rtranclp_induct)
  case (step u v)
  then show ?case
    using slot_step_later[OF step(2)] by (blast intro: list_all2_trans[of slot_later slot_later slot_later] slot_later_trans)
qed simp

lemma overlap_sym: "overlap E a b c d = overlap E c d a b"
  by (auto simp: overlap_def)

lemma has_clash_nth:
  "\<not> has_clash E ds \<Longrightarrow> i < length ds \<Longrightarrow> j < length ds \<Longrightarrow> i \<noteq> j \<Longrightarrow> \<not> clash E (ds ! i) (ds ! j)"
proof (induction ds arbitrary: i j)
  case (Cons d ds)
  have "clash E l r = clash E r l" for l r by (auto simp: clash_def overlap_sym)
  with Cons show ?case
    by (cases i; cases j) (auto simp: list_ex_iff nth_mem)
qed simp

section \<open>Idempotency and revisions\<close>

datatype slot_command = HoldCommand hold_command | ConfirmCommand confirm_slot_command

fun slot_meta :: "slot_command \<Rightarrow> command_metadata" where
  "slot_meta (HoldCommand c) = hc_meta c"
| "slot_meta (ConfirmCommand c) = kc_meta c"

fun slot_request :: "env \<Rightarrow> slot_command \<Rightarrow> booking_error + string" where
  "slot_request E (HoldCommand c) = booking_digest E (JObj [(''operation'', JStr ''slot.hold''), (''payload'', hold_payload c)])"
| "slot_request E (ConfirmCommand c) = booking_digest E (JObj [(''operation'', JStr ''slot.confirm''), (''payload'', confirm_payload c)])"

fun run_slot :: "env \<Rightarrow> slot_book \<Rightarrow> slot_command \<Rightarrow> booking_error + slot_book \<times> bool" where
  "run_slot E b (HoldCommand c) = holdSlot E b c"
| "run_slot E b (ConfirmCommand c) = confirmSlotHold E b c"

definition apply_slot :: "env \<Rightarrow> slot_book \<Rightarrow> slot_command \<Rightarrow> (booking_error + bool) \<times> slot_book" where
  "apply_slot E b c = (case run_slot E b c of Inl e \<Rightarrow> (Inl e, b) | Inr r \<Rightarrow> (Inr (snd r), fst r))"

lemma run_slot_Inr:
  assumes "run_slot E b c = Inr (b', rep)"
  obtains ts cur op payload d where "traverse CommandReceipt_parse (sb_commandReceipts b) = Some ts"
    "inspectCommand E cur ts (slot_meta c) op payload = Inr d" "fst d = rep"
    "slot_request E c = booking_digest E (JObj [(''operation'', JStr op), (''payload'', payload)])"
    "rep \<Longrightarrow> b' = b"
    "\<not> rep \<Longrightarrow> traverse CommandReceipt_parse (ts @ [snd d]) = Some (sb_commandReceipts b')"
proof (cases c)
  case (HoldCommand h)
  with assms obtain p d where p: "SlotBook_parse E b = Some p"
    and d: "inspectCommand E (sb_revision p) (sb_commandReceipts p) (hc_meta h) ''slot.hold'' (hold_payload h) = Inr d"
    and r: "fst d = rep" "rep \<Longrightarrow> b' = b"
      "\<not> rep \<Longrightarrow> traverse CommandReceipt_parse (sb_commandReceipts p @ [snd d]) = Some (sb_commandReceipts b')"
    by (auto simp: holdSlot_def Let_def freezeSlotBook_Inr split: if_splits option.splits dest: SlotBook_parse_fields(3))
  with HoldCommand show thesis using that[OF SlotBook_parse_fields(3)[OF p]] by simp
next
  case (ConfirmCommand k)
  with assms obtain p d where p: "SlotBook_parse E b = Some p"
    and d: "inspectCommand E (sb_revision p) (sb_commandReceipts p) (kc_meta k) ''slot.confirm'' (confirm_payload k) = Inr d"
    and r: "fst d = rep" "rep \<Longrightarrow> b' = b"
      "\<not> rep \<Longrightarrow> traverse CommandReceipt_parse (sb_commandReceipts p @ [snd d]) = Some (sb_commandReceipts b')"
    by (auto simp: confirmSlotHold_def Let_def freezeSlotBook_Inr split: if_splits option.splits dest: SlotBook_parse_fields(3))
  with ConfirmCommand show thesis using that[OF SlotBook_parse_fields(3)[OF p]] by simp
qed

lemma slot_step_command: "slot_step E b b' \<Longrightarrow> \<exists>c r. run_slot E b c = Inr (b', r)"
  by (auto elim!: slot_step.cases) (metis run_slot.simps)+

lemma slot_receipts_kept:
  assumes "slot_step E b b'" and "recorded_command (sb_commandReceipts b) k = Some x"
  shows "recorded_command (sb_commandReceipts b') k = Some x"
proof -
  from slot_step_command[OF assms(1)] obtain c r where "run_slot E b c = Inr (b', r)" by blast
  then show ?thesis
  proof (rule run_slot_Inr)
    fix ts cur op payload d
    assume "traverse CommandReceipt_parse (sb_commandReceipts b) = Some ts"
      "inspectCommand E cur ts (slot_meta c) op payload = Inr d" "fst d = r" "r \<Longrightarrow> b' = b"
      "\<not> r \<Longrightarrow> traverse CommandReceipt_parse (ts @ [snd d]) = Some (sb_commandReceipts b')"
    then show ?thesis using assms(2) by (cases r) (auto intro: command_applied(2))
  qed
qed

lemma apply_slot_Inr: "apply_slot E b c = (Inr r, b') \<longleftrightarrow> run_slot E b c = Inr (b', r)"
  by (auto simp: apply_slot_def split: sum.splits)

lemma slot_records:
  assumes "trimmed_key (slot_meta c)" and "run_slot E b c = Inr (b', r)"
  shows "recorded_command (sb_commandReceipts b') (cm_idempotencyKey (slot_meta c)) = Some (slot_request E c, ())"
  using assms(2)
proof (rule run_slot_Inr)
  fix ts cur op payload d
  assume "traverse CommandReceipt_parse (sb_commandReceipts b) = Some ts"
    "inspectCommand E cur ts (slot_meta c) op payload = Inr d" "fst d = r" "r \<Longrightarrow> b' = b"
    "slot_request E c = booking_digest E (JObj [(''operation'', JStr op), (''payload'', payload)])"
    "\<not> r \<Longrightarrow> traverse CommandReceipt_parse (ts @ [snd d]) = Some (sb_commandReceipts b')"
  then show ?thesis using assms(1) by (cases r) (auto intro: command_replay command_applied(3))
qed

lemma slot_replays:
  assumes "recorded_command (sb_commandReceipts b) (cm_idempotencyKey (slot_meta c)) = Some (f, i)"
    and "run_slot E b c = Inr (b', r)"
  shows "f = slot_request E c \<and> r"
  using assms(2)
proof (rule run_slot_Inr)
  fix ts cur op payload d
  assume a: "traverse CommandReceipt_parse (sb_commandReceipts b) = Some ts"
    "inspectCommand E cur ts (slot_meta c) op payload = Inr d" "fst d = r"
    "slot_request E c = booking_digest E (JObj [(''operation'', JStr op), (''payload'', payload)])"
    "\<not> r \<Longrightarrow> traverse CommandReceipt_parse (ts @ [snd d]) = Some (sb_commandReceipts b')"
  show ?thesis
  proof (cases r)
    case True
    with a command_replay[OF a(1,2)] assms(1) show ?thesis by simp
  next
    case False
    with a command_applied(1)[OF a(1,2) _ a(5)] assms(1) show ?thesis by simp
  qed
qed

interpretation slot_ledger: idempotent_operation "apply_slot E" "\<lambda>c. cm_idempotencyKey (slot_meta c)" "slot_request E"
    "\<lambda>_. ()" "\<lambda>b. recorded_command (sb_commandReceipts b)" "slot_step E" "\<lambda>c. trimmed_key (slot_meta c)" for E
  by unfold_locales (auto simp: apply_slot_Inr slot_records slot_receipts_kept dest: slot_replays)

section \<open>Sample slot books\<close>

definition sample_slots :: "slot_definition list" where
  "sample_slots = [\<lparr>sd_slotId = ''s1'', sd_startsAt = ''2026-07-15T09:00:00Z'', sd_endsAt = ''2026-07-15T10:00:00Z'', sd_inspectorId = ''i''\<rparr>,
     \<lparr>sd_slotId = ''s2'', sd_startsAt = ''2026-07-15T10:00:00Z'', sd_endsAt = ''2026-07-15T11:00:00Z'', sd_inspectorId = ''i''\<rparr>]"

definition sample_book :: slot_book where
  "sample_book = projr (createSlotBook sample_env sample_slots)"

definition sample_hold :: "string \<Rightarrow> hold_command" where
  "sample_hold key = \<lparr>hc_meta = \<lparr>cm_idempotencyKey = key, cm_expectedRevision = 0\<rparr>, hc_holdId = ''h1'', hc_bookingId = ''b1'',
     hc_slotId = ''s1'', hc_now = ''2026-07-15T00:00:00Z'', hc_expiresAt = ''2026-07-15T01:00:00Z''\<rparr>"

definition sample_held_book :: slot_book where
  "sample_held_book = fst (projr (holdSlot sample_env sample_book (sample_hold ''k1'')))"

definition sample_confirm :: confirm_slot_command where
  "sample_confirm = \<lparr>kc_meta = \<lparr>cm_idempotencyKey = ''k2'', cm_expectedRevision = 1\<rparr>, kc_bookingId = ''b1'',
     kc_holdId = ''h1'', kc_now = ''2026-07-15T00:30:00Z''\<rparr>"

definition sample_confirmed_book :: slot_book where
  "sample_confirmed_book = fst (projr (confirmSlotHold sample_env sample_held_book sample_confirm))"

lemma sample_book_ok: "createSlotBook sample_env sample_slots = Inr sample_book"
  unfolding sample_book_def by (rule projr_eqI) code_simp

lemma applied_eqI: "\<not> isl r \<Longrightarrow> \<not> snd (projr r) \<Longrightarrow> r = Inr (fst (projr r), False)"
  by (cases r) auto

lemma sample_hold_ok: "holdSlot sample_env sample_book (sample_hold ''k1'') = Inr (sample_held_book, False)"
  unfolding sample_held_book_def by (rule applied_eqI; code_simp)

lemma sample_confirm_ok: "confirmSlotHold sample_env sample_held_book sample_confirm = Inr (sample_confirmed_book, False)"
  unfolding sample_confirmed_book_def by (rule applied_eqI; code_simp)

lemma sample_slot_steps: "(slot_step sample_env)\<^sup>*\<^sup>* sample_book sample_held_book"
  "(slot_step sample_env)\<^sup>*\<^sup>* sample_held_book sample_confirmed_book"
  using sample_hold_ok sample_confirm_ok by (blast intro: slot_hold slot_confirm)+

section \<open>Properties\<close>

text \<open>C9: in every slot book reached from a created one all slot identifiers are distinct, two
  different slots of the same inspector do not overlap, and every slot that is confirmed for a
  booking stays exactly so, at its place in the book, under all later commands.\<close>

theorem no_double_booking:
  assumes "createSlotBook E ds = Inr b0" and "(slot_step E)\<^sup>*\<^sup>* b0 b" and "(slot_step E)\<^sup>*\<^sup>* b b'"
  shows "distinct (map iv_slotId (sb_slots b))
    \<and> (\<forall>i<length (sb_slots b). \<forall>j<length (sb_slots b). i \<noteq> j
        \<longrightarrow> iv_inspectorId (sb_slots b ! i) = iv_inspectorId (sb_slots b ! j)
        \<longrightarrow> \<not> overlap E (iv_startsAt (sb_slots b ! i)) (iv_endsAt (sb_slots b ! i))
              (iv_startsAt (sb_slots b ! j)) (iv_endsAt (sb_slots b ! j)))
    \<and> length (sb_slots b') = length (sb_slots b)
    \<and> (\<forall>i<length (sb_slots b). is_confirmed (iv_state (sb_slots b ! i)) \<longrightarrow> sb_slots b' ! i = sb_slots b ! i)"
proof -
  have later: "list_all2 slot_later (sb_slots b0) (sb_slots b)" "list_all2 slot_later (sb_slots b) (sb_slots b')"
    using assms(2,3) by (simp_all add: slot_steps_later)
  from assms(1) have d: "distinct (map sd_slotId ds)" "\<not> has_clash E ds"
    and b0: "sb_slots b0 = map (\<lambda>d. \<lparr>iv_slotId = sd_slotId d, iv_startsAt = sd_startsAt d, iv_endsAt = sd_endsAt d,
         iv_inspectorId = sd_inspectorId d, iv_state = SlotAvailable\<rparr>) ds"
    by (auto simp: createSlotBook_def freezeSlotBook_Inr dest: SlotBook_parse_fields(1))
  have len: "length (sb_slots b) = length ds" using list_all2_lengthD[OF later(1)] b0 by simp
  have same: "iv_slotId (sb_slots b ! k) = sd_slotId (ds ! k) \<and> iv_startsAt (sb_slots b ! k) = sd_startsAt (ds ! k)
      \<and> iv_endsAt (sb_slots b ! k) = sd_endsAt (ds ! k) \<and> iv_inspectorId (sb_slots b ! k) = sd_inspectorId (ds ! k)"
    if "k < length ds" for k
    using list_all2_nthD2[OF later(1), of k] that len b0 by (simp add: slot_later_def)
  have "map iv_slotId (sb_slots b) = map sd_slotId ds" using len same by (simp add: list_eq_iff_nth_eq)
  moreover have "\<not> overlap E (iv_startsAt (sb_slots b ! i)) (iv_endsAt (sb_slots b ! i))
      (iv_startsAt (sb_slots b ! j)) (iv_endsAt (sb_slots b ! j))"
    if "i < length (sb_slots b)" "j < length (sb_slots b)" "i \<noteq> j"
      "iv_inspectorId (sb_slots b ! i) = iv_inspectorId (sb_slots b ! j)" for i j
    using has_clash_nth[OF d(2), of i j] that len same[of i] same[of j] by (simp add: clash_def)
  moreover have "sb_slots b' ! i = sb_slots b ! i"
    if "i < length (sb_slots b)" "is_confirmed (iv_state (sb_slots b ! i))" for i
    using list_all2_nthD[OF later(2) that(1)] that(2) by (simp add: slot_later_def)
  ultimately show ?thesis using d(1) list_all2_lengthD[OF later(2)] by simp
qed

lemma no_double_booking_witness:
  "distinct (map iv_slotId (sb_slots sample_confirmed_book))
    \<and> sb_slots sample_confirmed_book ! 0 = (sb_slots sample_book ! 0)\<lparr>iv_state := SlotConfirmedFor ''b1''\<rparr>
    \<and> \<not> overlap sample_env (iv_startsAt (sb_slots sample_confirmed_book ! 0)) (iv_endsAt (sb_slots sample_confirmed_book ! 0))
        (iv_startsAt (sb_slots sample_confirmed_book ! 1)) (iv_endsAt (sb_slots sample_confirmed_book ! 1))"
proof -
  have c: "0 < length (sb_slots sample_confirmed_book)" "1 < length (sb_slots sample_confirmed_book)"
    "iv_inspectorId (sb_slots sample_confirmed_book ! 0) = iv_inspectorId (sb_slots sample_confirmed_book ! 1)"
    "sb_slots sample_confirmed_book ! 0 = (sb_slots sample_book ! 0)\<lparr>iv_state := SlotConfirmedFor ''b1''\<rparr>" by code_simp+
  have steps: "(slot_step sample_env)\<^sup>*\<^sup>* sample_book sample_confirmed_book"
    using sample_slot_steps by (rule rtranclp_trans)
  from no_double_booking[OF sample_book_ok steps rtranclp.rtrancl_refl] c show ?thesis by (metis zero_neq_one)
qed

text \<open>A slot is confirmed only for the booking and hold it was held for and before the hold
  expires, a hold never displaces a confirmed slot or an unexpired hold, and either command changes
  no other slot.\<close>

theorem slot_commands_sound:
  "(confirmSlotHold E b k = Inr (b1, False) \<longrightarrow> (\<exists>i e. i < length (sb_slots b)
      \<and> iv_state (sb_slots b ! i) = SlotHeldFor (kc_holdId k) (kc_bookingId k) e
      \<and> \<not> date_le (date_parse E e) (date_parse E (kc_now k))
      \<and> sb_slots b1 = (sb_slots b)[i := (sb_slots b ! i)\<lparr>iv_state := SlotConfirmedFor (kc_bookingId k)\<rparr>]))
   \<and> (holdSlot E b c = Inr (b2, False) \<longrightarrow> (\<exists>i. i < length (sb_slots b) \<and> iv_slotId (sb_slots b ! i) = hc_slotId c
      \<and> (iv_state (sb_slots b ! i) = SlotAvailable
         \<or> (\<exists>h bk e. iv_state (sb_slots b ! i) = SlotHeldFor h bk e \<and> \<not> date_lt (date_parse E (hc_now c)) (date_parse E e)))
      \<and> sb_slots b2 = (sb_slots b)[i := (sb_slots b ! i)\<lparr>iv_state := SlotHeldFor (hc_holdId c) (hc_bookingId c) (hc_expiresAt c)\<rparr>]))"
proof (intro conjI impI)
  assume "confirmSlotHold E b k = Inr (b1, False)"
  then show "\<exists>i e. i < length (sb_slots b) \<and> iv_state (sb_slots b ! i) = SlotHeldFor (kc_holdId k) (kc_bookingId k) e
      \<and> \<not> date_le (date_parse E e) (date_parse E (kc_now k))
      \<and> sb_slots b1 = (sb_slots b)[i := (sb_slots b ! i)\<lparr>iv_state := SlotConfirmedFor (kc_bookingId k)\<rparr>]"
    by (rule confirmSlotHold_applied) blast
next
  assume "holdSlot E b c = Inr (b2, False)"
  then show "\<exists>i. i < length (sb_slots b) \<and> iv_slotId (sb_slots b ! i) = hc_slotId c
      \<and> (iv_state (sb_slots b ! i) = SlotAvailable
         \<or> (\<exists>h bk e. iv_state (sb_slots b ! i) = SlotHeldFor h bk e \<and> \<not> date_lt (date_parse E (hc_now c)) (date_parse E e)))
      \<and> sb_slots b2 = (sb_slots b)[i := (sb_slots b ! i)\<lparr>iv_state := SlotHeldFor (hc_holdId c) (hc_bookingId c) (hc_expiresAt c)\<rparr>]"
  proof (rule holdSlot_applied)
    fix i
    assume "i < length (sb_slots b)" "iv_slotId (sb_slots b ! i) = hc_slotId c"
      "\<not> is_confirmed (iv_state (sb_slots b ! i))" "\<not> still_held E (hc_now c) (iv_state (sb_slots b ! i))"
      "sb_slots b2 = (sb_slots b)[i := (sb_slots b ! i)\<lparr>iv_state := SlotHeldFor (hc_holdId c) (hc_bookingId c) (hc_expiresAt c)\<rparr>]"
    then show ?thesis
      by (intro exI[of _ i]) (cases "iv_state (sb_slots b ! i)"; simp add: still_held_def)
  qed
qed

lemma slot_commands_sound_witness:
  "\<exists>i e. iv_state (sb_slots sample_held_book ! i) = SlotHeldFor ''h1'' ''b1'' e
      \<and> \<not> date_le (date_parse sample_env e) (date_parse sample_env ''2026-07-15T00:30:00Z'')"
  using slot_commands_sound[THEN conjunct1, rule_format, OF sample_confirm_ok]
  by (auto simp: sample_confirm_def)

text \<open>A slot command is applied at most once: after it, through any later commands on the book,
  the same key is answered only for the same request, as a replay that leaves the book as it is.\<close>

theorem slot_commands_idempotent:
  assumes "run_slot E b c = Inr (b1, r1)" and "(slot_step E)\<^sup>*\<^sup>* b1 b2" and "run_slot E b2 d = Inr (b3, r2)"
    and "cm_idempotencyKey (slot_meta d) = cm_idempotencyKey (slot_meta c)"
    and "js_trim (cm_idempotencyKey (slot_meta c)) = cm_idempotencyKey (slot_meta c)"
  shows "slot_request E d = slot_request E c \<and> r2 \<and> b3 = b2"
proof -
  have k: "trimmed_key (slot_meta c)" "trimmed_key (slot_meta d)" using assms(4,5) by (simp_all add: trimmed_key_def)
  have a: "apply_slot E b c = (Inr r1, b1)" "apply_slot E b2 d = (Inr r2, b3)" using assms(1,3) by (simp_all add: apply_slot_Inr)
  have "slot_request E d = slot_request E c"
    using slot_ledger.one_identity_per_key[OF a(1) assms(2) a(2) assms(4) k] by simp
  moreover have "recorded_command (sb_commandReceipts b2) (cm_idempotencyKey (slot_meta d)) = Some (slot_request E c, ())"
    using slot_ledger.steps_keep[OF assms(2) slot_ledger.run_records[OF k(1) a(1)]] assms(4) by simp
  from slot_replays[OF this assms(3)] have r2 by blast
  moreover have "b3 = b2" using assms(3) \<open>r2\<close> replayed_same by (cases d) auto
  ultimately show ?thesis by blast
qed

lemma sample_hold_replay: "run_slot sample_env sample_held_book (HoldCommand (sample_hold ''k1'')) = Inr (sample_held_book, True)"
proof -
  have "\<not> isl (holdSlot sample_env sample_held_book (sample_hold ''k1''))"
    and "snd (projr (holdSlot sample_env sample_held_book (sample_hold ''k1'')))" by code_simp+
  then obtain b where "holdSlot sample_env sample_held_book (sample_hold ''k1'') = Inr (b, True)"
    by (cases "holdSlot sample_env sample_held_book (sample_hold ''k1'')") auto
  with replayed_same(1)[OF this] show ?thesis by simp
qed

lemma slot_commands_idempotent_witness:
  "\<exists>r. run_slot sample_env sample_held_book (HoldCommand (sample_hold ''k1'')) = Inr (sample_held_book, r) \<and> r"
proof -
  have "run_slot sample_env sample_book (HoldCommand (sample_hold ''k1'')) = Inr (sample_held_book, False)"
    using sample_hold_ok by simp
  moreover have "js_trim (cm_idempotencyKey (slot_meta (HoldCommand (sample_hold ''k1'')))) = cm_idempotencyKey (slot_meta (HoldCommand (sample_hold ''k1'')))"
    by (simp add: sample_hold_def js_trim_def js_space_def)
  ultimately show ?thesis using slot_commands_idempotent[OF _ rtranclp.rtrancl_refl sample_hold_replay refl] sample_hold_replay by blast
qed

end
