(* ===== verification/Booking_Workflow.thy ===== *)
theory Booking_Workflow
  imports Booking_Schemas
begin

text \<open>
  The life of a booking (\<open>packages/booking/src/workflow.ts\<close>): every operation parses the stored
  state, checks the command against its receipts and the expected revision, changes the state and
  freezes it again with the readiness derived from the five dependencies.
\<close>

section \<open>Observed side effects\<close>

datatype observation =
    ObsAccepted string json bool
  | ObsFailed string bool
  | ObsUnknown string

fun observation_json :: "observation \<Rightarrow> json" where
  "observation_json (ObsAccepted ref v replayed) = JObj [(''state'', JStr ''accepted''), (''providerReference'', JStr ref),
     (''value'', v), (''replayed'', JBool replayed)]"
| "observation_json (ObsFailed code retryable) = JObj [(''state'', JStr ''failed''), (''code'', JStr code),
     (''retryable'', JBool retryable)]"
| "observation_json (ObsUnknown key) = JObj [(''state'', JStr ''unknown''), (''reconciliationKey'', JStr key)]"

section \<open>Readiness\<close>

definition action_for :: "bool \<Rightarrow> dependency \<Rightarrow> responsible_role \<Rightarrow> string \<Rightarrow> readiness_action list" where
  "action_for ok dep role text =
     (if ok then [] else [\<lparr>rx_dependency = dep, rx_responsibleRole = role, rx_action = text\<rparr>])"

definition deriveReadiness :: "booking_state \<Rightarrow> readiness" where
  "deriveReadiness s = (let
     slotReady = (sl_state (bk_slot s) = SlotConfirmed);
     agreementReady = ag_signed (bk_agreement s);
     paymentReady = (py_state (bk_payment s) = PayPaid);
     calendarReady = (cl_state (bk_calendar s) = CalConfirmed);
     accessReady = (ax_state (bk_access s) \<in> {AccConfirmed, AccOverridden});
     declined = (py_state (bk_payment s) = PayDeclined);
     actions = action_for slotReady DepSlot RoleClient ''Confirm an available inspection slot''
       @ action_for agreementReady DepAgreement RoleClient ''Sign the pre-inspection agreement''
       @ action_for paymentReady DepPayment (if declined then RoleClient else RoleSystem)
           (if declined then ''Retry payment'' else ''Resolve payment processing'')
       @ action_for calendarReady DepCalendar RoleSystem ''Confirm the calendar reservation''
       @ action_for accessReady DepAccess RoleAccessContact ''Confirm property access'' in
     \<lparr>rd_ready = (slotReady \<and> agreementReady \<and> paymentReady \<and> calendarReady \<and> accessReady),
       rd_slot = (if slotReady then DepReady else DepActionRequired),
       rd_agreement = (if agreementReady then DepReady else DepActionRequired),
       rd_payment = (if paymentReady then DepReady
         else if py_state (bk_payment s) \<in> {PayFailed, PayUnknown, PayRefundFailed} then DepProviderRecovery
         else DepActionRequired),
       rd_calendar = (if calendarReady then DepReady
         else if cl_state (bk_calendar s) \<in> {CalReservationFailed, CalCancellationFailed, CalUnknown} then DepProviderRecovery
         else DepActionRequired),
       rd_access = (if accessReady then DepReady else DepActionRequired),
       rd_actions = actions\<rparr>)"

definition emptyReadiness :: readiness where
  "emptyReadiness = \<lparr>rd_ready = False, rd_slot = DepActionRequired, rd_agreement = DepActionRequired,
     rd_payment = DepActionRequired, rd_calendar = DepActionRequired, rd_access = DepActionRequired, rd_actions = []\<rparr>"

definition freezeBooking :: "env \<Rightarrow> booking_state \<Rightarrow> booking_error + booking_state" where
  "freezeBooking E s = of_option BookingZod (BookingState_parse E (s\<lparr>bk_readiness := deriveReadiness s\<rparr>))"

definition transition :: "env \<Rightarrow> booking_state \<Rightarrow> command_metadata \<Rightarrow> string \<Rightarrow> json
    \<Rightarrow> (booking_state \<Rightarrow> booking_error + booking_state) \<Rightarrow> booking_error + booking_state \<times> bool" where
  "transition E s c op payload mutate =
     bind_result (of_option BookingZod (BookingState_parse E s)) (\<lambda>current.
     bind_result (inspectCommand E (bk_revision current) (bk_commandReceipts current) c op payload) (\<lambda>d.
     if fst d then Inr (s, True) else
     bind_result (mutate current) (\<lambda>mutated.
     bind_result (freezeBooking E (mutated\<lparr>bk_revision := bk_revision current + 1,
       bk_commandReceipts := bk_commandReceipts current @ [snd d]\<rparr>)) (\<lambda>s'. Inr (s', False)))))"

section \<open>Creation\<close>

record create_booking_input =
  cb_bookingId :: string
  cb_organizationId :: string
  cb_quote :: quote_snapshot
  cb_property :: property_snapshot
  cb_participants :: booking_participants
  cb_slotHold :: slot_hold
  cb_capturedAt :: string

definition createBooking :: "env \<Rightarrow> create_booking_input \<Rightarrow> booking_error + booking_state" where
  "createBooking E i =
     bind_result (of_option BookingZod (QuoteSnapshot_parse E (cb_quote i))) (\<lambda>quote.
     ensure (SlotHold_ok E (cb_slotHold i)) BookingZod (
     ensure (\<not> date_le (date_parse E (qt_expiresAt quote)) (date_parse E (cb_capturedAt i))) (BookingConflict ''quote_expired'') (
     ensure (\<not> date_le (date_parse E (sh_expiresAt (cb_slotHold i))) (date_parse E (cb_capturedAt i)))
       (BookingConflict ''hold_expired'') (
     ensure (\<not> date_le (date_parse E (sh_endsAt (cb_slotHold i))) (date_parse E (sh_startsAt (cb_slotHold i))))
       (BookingConflict ''invalid_slot'') (
     bind_result (of_option BookingZod (BookingInput_parse E \<lparr>bi_quote = quote, bi_property = cb_property i,
       bi_participants = cb_participants i, bi_capturedAt = cb_capturedAt i\<rparr>)) (\<lambda>input.
     ensure (ps_suburb (bi_property input) = qp_suburb (qt_property quote)
             \<and> ps_postcode (bi_property input) = qp_postcode (qt_property quote)) (BookingConflict ''quote_property_mismatch'') (
     freezeBooking E \<lparr>bk_bookingId = cb_bookingId i, bk_organizationId = cb_organizationId i, bk_revision = 0,
       bk_lifecycle = BkDraft, bk_input = input, bk_quote = quote,
       bk_slot = \<lparr>sl_state = SlotHeld, sl_hold = cb_slotHold i, sl_confirmedAt = None\<rparr>, bk_slotHistory = [],
       bk_agreement = \<lparr>ag_signed = False, ag_snapshot = None\<rparr>,
       bk_payment = \<lparr>py_state = PayNotStarted, py_attempt = 0, py_intentId = None, py_providerReference = None,
         py_failureCode = None, py_terminal = False\<rparr>,
       bk_calendar = \<lparr>cl_state = CalNotRequested, cl_eventReference = None, cl_failureCode = None, cl_retryable = False\<rparr>,
       bk_access = \<lparr>ax_state = AccNotRequested, ax_generation = 1, ax_activeLinkId = None,
         ax_activeTokenFingerprint = None, ax_supersededLinkIds = [], ax_confirmedAt = None, ax_overrideReason = None\<rparr>,
       bk_notifications = \<lparr>nt_generation = 1, nt_reminders = []\<rparr>, bk_readiness = emptyReadiness,
       bk_reschedule = None, bk_cancellationReason = None, bk_commandReceipts = [],
       bk_providerCallbackReceipts = []\<rparr>)))))))"

section \<open>Slot, agreement, payment and calendar\<close>

definition slot_confirmation :: "env \<Rightarrow> string \<Rightarrow> booking_state \<Rightarrow> booking_error + booking_state" where
  "slot_confirmation E confirmedAt current =
     ensure (sl_state (bk_slot current) = SlotHeld) (BookingConflict ''slot_not_held'') (
     ensure (\<not> date_le (date_parse E (sh_expiresAt (sl_hold (bk_slot current)))) (date_parse E confirmedAt))
       (BookingConflict ''hold_expired'') (
     Inr (current\<lparr>bk_slot := (bk_slot current)\<lparr>sl_state := SlotConfirmed, sl_confirmedAt := Some confirmedAt\<rparr>\<rparr>)))"

definition confirmBookingSlot :: "env \<Rightarrow> booking_state \<Rightarrow> command_metadata \<Rightarrow> string \<Rightarrow> booking_error + booking_state \<times> bool" where
  "confirmBookingSlot E s c confirmedAt =
     transition E s c ''booking.slot.confirm'' (JObj [(''confirmedAt'', JStr confirmedAt)]) (slot_confirmation E confirmedAt)"

definition verified_agreement :: "env \<Rightarrow> signed_agreement \<Rightarrow> booking_error + bool" where
  "verified_agreement E a = (case verifySignedAgreementSnapshot E a of
     Inl AgreementHash \<Rightarrow> Inl BookingHash | Inl e \<Rightarrow> Inl BookingZod | Inr ok \<Rightarrow> Inr ok)"

definition agreement_application :: "env \<Rightarrow> signed_agreement \<Rightarrow> booking_state \<Rightarrow> booking_error + booking_state" where
  "agreement_application E snapshot current =
     bind_result (of_option BookingZod (SignedAgreement_parse E snapshot)) (\<lambda>parsed.
     bind_result (verified_agreement E parsed) (\<lambda>ok.
     ensure ok (BookingConflict ''agreement_hash_mismatch'') (
     ensure (sa_bookingId parsed = bk_bookingId current \<and> sa_organizationId parsed = bk_organizationId current)
       (BookingConflict ''agreement_booking_mismatch'') (
     ensure (sg_assignmentId (sa_signer parsed) = ra_assignmentId (pt_client (bi_participants (bk_input current)))
             \<and> sg_contactId (sa_signer parsed) = ct_contactId (ra_contact (pt_client (bi_participants (bk_input current)))))
       (BookingConflict ''agreement_signer_mismatch'') (
     ensure (join '','' (map module_text (sa_commissionedModules parsed))
             = join '','' (map module_text (qt_commissionedModules (bk_quote current))))
       (BookingConflict ''agreement_scope_mismatch'') (
     Inr (current\<lparr>bk_agreement := \<lparr>ag_signed = True, ag_snapshot = Some parsed\<rparr>\<rparr>)))))))"

definition applySignedAgreement :: "env \<Rightarrow> booking_state \<Rightarrow> command_metadata \<Rightarrow> signed_agreement \<Rightarrow> booking_error + booking_state \<times> bool" where
  "applySignedAgreement E s c snapshot =
     transition E s c ''booking.agreement.sign'' (signed_agreement_json snapshot) (agreement_application E snapshot)"

definition payment_start :: "string \<Rightarrow> booking_state \<Rightarrow> booking_error + booking_state" where
  "payment_start intentId current =
     ensure (py_state (bk_payment current) \<in> {PayNotStarted, PayDeclined, PayFailed}) (BookingConflict ''payment_not_retryable'') (
     Inr (current\<lparr>bk_payment := \<lparr>py_state = PayPending, py_attempt = py_attempt (bk_payment current) + 1,
       py_intentId = Some intentId, py_providerReference = None, py_failureCode = None, py_terminal = False\<rparr>\<rparr>))"

definition beginPayment :: "env \<Rightarrow> booking_state \<Rightarrow> command_metadata \<Rightarrow> string \<Rightarrow> booking_error + booking_state \<times> bool" where
  "beginPayment E s c intentId =
     transition E s c ''booking.payment.begin'' (JObj [(''intentId'', JStr intentId)]) (payment_start intentId)"

datatype callback_event =
    CheckoutSucceeded (ce_intentId: string)
  | CheckoutDeclined (ce_intentId: string) (ce_reasonCode: string)
  | RefundSucceeded
  | RefundFailed (ce_reasonCode: string) (ce_retryable: bool)

record payment_callback =
  pc_providerEventId :: string
  pc_event :: callback_event
  pc_providerReference :: string
  pc_observedAt :: string

fun callback_event_json :: "callback_event \<Rightarrow> (string \<times> json) list" where
  "callback_event_json (CheckoutSucceeded i) = [(''eventType'', JStr ''checkout_succeeded''), (''intentId'', JStr i)]"
| "callback_event_json (CheckoutDeclined i r) =
     [(''eventType'', JStr ''checkout_declined''), (''intentId'', JStr i), (''reasonCode'', JStr r)]"
| "callback_event_json RefundSucceeded = [(''eventType'', JStr ''refund_succeeded'')]"
| "callback_event_json (RefundFailed r t) =
     [(''eventType'', JStr ''refund_failed''), (''reasonCode'', JStr r), (''retryable'', JBool t)]"

definition payment_callback_json :: "payment_callback \<Rightarrow> json" where
  "payment_callback_json c = JObj ([(''providerEventId'', JStr (pc_providerEventId c))] @ callback_event_json (pc_event c)
     @ [(''providerReference'', JStr (pc_providerReference c)), (''observedAt'', JStr (pc_observedAt c))])"

definition checkout_open :: "booking_state \<Rightarrow> bool" where
  "checkout_open current \<longleftrightarrow> py_state (bk_payment current) \<notin> {PayRefundPending, PayRefunded, PayRefundFailed}
     \<and> bk_lifecycle current \<noteq> BkCancelPending \<and> bk_lifecycle current \<noteq> BkCancelled"

definition callback_payment :: "booking_state \<Rightarrow> payment_callback \<Rightarrow> payment_projection" where
  "callback_payment current cb = (let payment = bk_payment current; ref = Some (pc_providerReference cb) in
     case pc_event cb of
       CheckoutSucceeded intentId \<Rightarrow>
         (if Some intentId \<noteq> py_intentId payment
          then (if checkout_open current
                then payment\<lparr>py_state := PayUnknown, py_providerReference := ref,
                  py_failureCode := Some ''checkout_intent_mismatch_reconciliation_required'', py_terminal := False\<rparr>
                else payment)
          else if checkout_open current
          then payment\<lparr>py_state := PayPaid, py_providerReference := ref, py_failureCode := None, py_terminal := False\<rparr>
          else payment)
     | CheckoutDeclined intentId reasonCode \<Rightarrow>
         (if Some intentId = py_intentId payment
             \<and> py_state payment \<notin> {PayPaid, PayRefundPending, PayRefunded, PayRefundFailed}
          then payment\<lparr>py_state := PayDeclined, py_providerReference := ref, py_failureCode := Some reasonCode, py_terminal := False\<rparr>
          else payment)
     | RefundSucceeded \<Rightarrow>
         payment\<lparr>py_state := PayRefunded, py_providerReference := ref, py_failureCode := None, py_terminal := True\<rparr>
     | RefundFailed reasonCode retryable \<Rightarrow>
         payment\<lparr>py_state := PayRefundFailed, py_providerReference := ref, py_failureCode := Some reasonCode,
           py_terminal := \<not> retryable\<rparr>)"

definition applyPaymentCallback :: "env \<Rightarrow> booking_state \<Rightarrow> payment_callback \<Rightarrow> booking_error + booking_state \<times> bool" where
  "applyPaymentCallback E s cb =
     bind_result (of_option BookingZod (BookingState_parse E s)) (\<lambda>current.
     bind_result (booking_digest E (payment_callback_json cb)) (\<lambda>h.
     case List.find (\<lambda>r. cr_providerEventId r = pc_providerEventId cb) (bk_providerCallbackReceipts current) of
       Some prior \<Rightarrow> ensure (cr_requestFingerprint prior = h) (BookingConflict ''provider_event_reused'') (Inr (s, True))
     | None \<Rightarrow>
         bind_result (freezeBooking E (current\<lparr>bk_revision := bk_revision current + 1,
           bk_payment := callback_payment current cb,
           bk_providerCallbackReceipts := bk_providerCallbackReceipts current
             @ [\<lparr>cr_providerEventId = pc_providerEventId cb, cr_requestFingerprint = h\<rparr>]\<rparr>)) (\<lambda>s'. Inr (s', False))))"

fun calendar_observation :: "observation \<Rightarrow> booking_state \<Rightarrow> booking_error + booking_state" where
  "calendar_observation (ObsAccepted ref v replayed) current =
     Inr (current\<lparr>bk_calendar := \<lparr>cl_state = CalConfirmed, cl_eventReference = Some ref, cl_failureCode = None, cl_retryable = False\<rparr>\<rparr>)"
| "calendar_observation (ObsFailed code retryable) current =
     Inr (current\<lparr>bk_calendar := \<lparr>cl_state = CalReservationFailed, cl_eventReference = None, cl_failureCode = Some code,
       cl_retryable = retryable\<rparr>\<rparr>)"
| "calendar_observation (ObsUnknown key) current =
     Inr (current\<lparr>bk_calendar := \<lparr>cl_state = CalUnknown, cl_eventReference = None, cl_failureCode = Some key,
       cl_retryable = False\<rparr>\<rparr>)"

definition observeCalendarReservation ::
  "env \<Rightarrow> booking_state \<Rightarrow> command_metadata \<Rightarrow> observation \<Rightarrow> booking_error + booking_state \<times> bool" where
  "observeCalendarReservation E s c obs =
     transition E s c ''booking.calendar.reserve.observe'' (observation_json obs) (calendar_observation obs)"

section \<open>Access, activation and reminders\<close>

definition access_issue :: "string \<Rightarrow> string \<Rightarrow> booking_state \<Rightarrow> booking_error + booking_state" where
  "access_issue linkId tokenFingerprint current =
     Inr (current\<lparr>bk_access := (bk_access current)\<lparr>ax_state := AccConfirmationPending, ax_activeLinkId := Some linkId,
       ax_activeTokenFingerprint := Some tokenFingerprint, ax_confirmedAt := None, ax_overrideReason := None\<rparr>\<rparr>)"

definition issueAccessRequest ::
  "env \<Rightarrow> booking_state \<Rightarrow> command_metadata \<Rightarrow> string \<Rightarrow> string \<Rightarrow> booking_error + booking_state \<times> bool" where
  "issueAccessRequest E s c linkId tokenFingerprint =
     transition E s c ''booking.access.issue''
       (JObj [(''linkId'', JStr linkId), (''tokenFingerprint'', JStr tokenFingerprint)]) (access_issue linkId tokenFingerprint)"

definition access_confirmation :: "string \<Rightarrow> string \<Rightarrow> booking_state \<Rightarrow> booking_error + booking_state" where
  "access_confirmation linkId confirmedAt current =
     ensure (linkId \<notin> set (ax_supersededLinkIds (bk_access current))) (BookingConflict ''stale_access_link'') (
     ensure (ax_state (bk_access current) = AccConfirmationPending \<and> ax_activeLinkId (bk_access current) = Some linkId)
       (BookingConflict ''invalid_access_link'') (
     Inr (current\<lparr>bk_access := (bk_access current)\<lparr>ax_state := AccConfirmed, ax_confirmedAt := Some confirmedAt\<rparr>\<rparr>)))"

definition confirmAccess ::
  "env \<Rightarrow> booking_state \<Rightarrow> command_metadata \<Rightarrow> string \<Rightarrow> string \<Rightarrow> booking_error + booking_state \<times> bool" where
  "confirmAccess E s c linkId confirmedAt =
     transition E s c ''booking.access.confirm'' (JObj [(''linkId'', JStr linkId), (''confirmedAt'', JStr confirmedAt)])
       (access_confirmation linkId confirmedAt)"

definition access_override :: "string \<Rightarrow> booking_state \<Rightarrow> booking_error + booking_state" where
  "access_override reason current =
     Inr (current\<lparr>bk_access := (bk_access current)\<lparr>ax_state := AccOverridden, ax_overrideReason := Some reason, ax_confirmedAt := None\<rparr>\<rparr>)"

definition overrideAccess :: "env \<Rightarrow> booking_state \<Rightarrow> command_metadata \<Rightarrow> string \<Rightarrow> booking_error + booking_state \<times> bool" where
  "overrideAccess E s c reason =
     transition E s c ''booking.access.override'' (JObj [(''reason'', JStr reason)]) (access_override reason)"

definition activation :: "booking_state \<Rightarrow> booking_error + booking_state" where
  "activation current =
     ensure (rd_ready (deriveReadiness current)) (BookingConflict ''booking_not_ready'') (
     Inr (current\<lparr>bk_lifecycle := BkConfirmed\<rparr>))"

definition activateBooking :: "env \<Rightarrow> booking_state \<Rightarrow> command_metadata \<Rightarrow> string \<Rightarrow> booking_error + booking_state \<times> bool" where
  "activateBooking E s c activatedAt =
     transition E s c ''booking.activate'' (JObj [(''activatedAt'', JStr activatedAt)]) activation"

record reminder_request =
  rq_reminderId :: string
  rq_scheduledFor :: string
  rq_channel :: reminder_channel

definition channel_text :: "reminder_channel \<Rightarrow> string" where
  "channel_text c = (case c of ChannelEmail \<Rightarrow> ''email'' | ChannelSms \<Rightarrow> ''sms'')"

definition reminder_request_json :: "reminder_request \<Rightarrow> json" where
  "reminder_request_json r = JObj [(''reminderId'', JStr (rq_reminderId r)), (''scheduledFor'', JStr (rq_scheduledFor r)),
     (''channel'', JStr (channel_text (rq_channel r)))]"

definition reminder_schedule :: "reminder_request \<Rightarrow> booking_state \<Rightarrow> booking_error + booking_state" where
  "reminder_schedule r current =
     Inr (current\<lparr>bk_notifications := (bk_notifications current)\<lparr>nt_reminders := nt_reminders (bk_notifications current)
       @ [\<lparr>rm_reminderId = rq_reminderId r, rm_generation = nt_generation (bk_notifications current),
           rm_scheduledFor = rq_scheduledFor r, rm_channel = rq_channel r, rm_state = RemScheduled\<rparr>]\<rparr>\<rparr>)"

definition scheduleReminder ::
  "env \<Rightarrow> booking_state \<Rightarrow> command_metadata \<Rightarrow> reminder_request \<Rightarrow> booking_error + booking_state \<times> bool" where
  "scheduleReminder E s c r =
     transition E s c ''booking.reminder.schedule'' (reminder_request_json r) (reminder_schedule r)"

definition invalidateReminders :: "notification_projection \<Rightarrow> notification_projection" where
  "invalidateReminders n = \<lparr>nt_generation = nt_generation n + 1,
     nt_reminders = map (\<lambda>r. if rm_state r = RemScheduled then r\<lparr>rm_state := RemInvalidated\<rparr> else r) (nt_reminders n)\<rparr>"

section \<open>Rescheduling and cancellation\<close>

definition reschedule_request :: "env \<Rightarrow> slot_hold \<Rightarrow> string \<Rightarrow> booking_state \<Rightarrow> booking_error + booking_state" where
  "reschedule_request E candidate requestedAt current =
     ensure (bk_lifecycle current = BkConfirmed) (BookingConflict ''booking_not_reschedulable'') (
     ensure (SlotHold_ok E candidate) BookingZod (
     ensure (\<not> date_le (date_parse E (sh_expiresAt candidate)) (date_parse E requestedAt)) (BookingConflict ''hold_expired'') (
     ensure (\<not> date_le (date_parse E (sh_endsAt candidate)) (date_parse E (sh_startsAt candidate))) (BookingConflict ''invalid_slot'') (
     ensure (sh_slotId candidate \<noteq> sh_slotId (sl_hold (bk_slot current))) (BookingConflict ''same_slot'') (
     Inr (current\<lparr>bk_lifecycle := BkReschedulePending,
       bk_calendar := (bk_calendar current)\<lparr>cl_state := CalPending, cl_failureCode := None, cl_retryable := False\<rparr>,
       bk_reschedule := Some \<lparr>rs_candidateSlot = candidate,
         rs_previousCalendarEventReference = cl_eventReference (bk_calendar current)\<rparr>\<rparr>))))))"

definition requestReschedule ::
  "env \<Rightarrow> booking_state \<Rightarrow> command_metadata \<Rightarrow> slot_hold \<Rightarrow> string \<Rightarrow> booking_error + booking_state \<times> bool" where
  "requestReschedule E s c candidate requestedAt =
     transition E s c ''booking.reschedule.request''
       (JObj [(''candidateSlot'', slot_hold_json candidate), (''requestedAt'', JStr requestedAt)])
       (reschedule_request E candidate requestedAt)"

definition retired_slot :: "slot_history_state \<Rightarrow> booking_slot \<Rightarrow> string \<Rightarrow> slot_history_entry" where
  "retired_slot st s recordedAt = \<lparr>hs_state = st, hs_slotId = sh_slotId (sl_hold s), hs_holdId = sh_holdId (sl_hold s),
     hs_startsAt = sh_startsAt (sl_hold s), hs_endsAt = sh_endsAt (sl_hold s), hs_recordedAt = recordedAt\<rparr>"

text \<open>An active link that is the empty string counts as absent in the code's condition.\<close>

definition retired_links :: "access_projection \<Rightarrow> string list" where
  "retired_links a = (case ax_activeLinkId a of
     Some l \<Rightarrow> (if l = '''' then ax_supersededLinkIds a else ax_supersededLinkIds a @ [l])
   | None \<Rightarrow> ax_supersededLinkIds a)"

definition reschedule_completion :: "observation \<Rightarrow> string \<Rightarrow> booking_state \<Rightarrow> booking_error + booking_state" where
  "reschedule_completion obs recordedAt current =
     ensure (bk_lifecycle current = BkReschedulePending \<and> bk_reschedule current \<noteq> None) (BookingConflict ''reschedule_not_pending'') (
     case obs of
       ObsFailed code retryable \<Rightarrow> Inr (current\<lparr>bk_calendar := (bk_calendar current)\<lparr>cl_state := CalReservationFailed,
         cl_failureCode := Some code, cl_retryable := retryable\<rparr>\<rparr>)
     | ObsUnknown key \<Rightarrow> Inr (current\<lparr>bk_calendar := (bk_calendar current)\<lparr>cl_state := CalUnknown,
         cl_failureCode := Some key, cl_retryable := False\<rparr>\<rparr>)
     | ObsAccepted ref v replayed \<Rightarrow> Inr (current\<lparr>bk_lifecycle := BkConfirmed,
         bk_slotHistory := bk_slotHistory current @ [retired_slot HistorySuperseded (bk_slot current) recordedAt],
         bk_slot := \<lparr>sl_state = SlotConfirmed, sl_hold = rs_candidateSlot (the (bk_reschedule current)),
           sl_confirmedAt = Some recordedAt\<rparr>,
         bk_calendar := \<lparr>cl_state = CalConfirmed, cl_eventReference = Some ref, cl_failureCode = None, cl_retryable = False\<rparr>,
         bk_access := \<lparr>ax_state = AccNotRequested, ax_generation = ax_generation (bk_access current) + 1,
           ax_activeLinkId = None, ax_activeTokenFingerprint = None, ax_supersededLinkIds = retired_links (bk_access current),
           ax_confirmedAt = None, ax_overrideReason = None\<rparr>,
         bk_notifications := invalidateReminders (bk_notifications current),
         bk_reschedule := None\<rparr>))"

definition completeReschedule ::
  "env \<Rightarrow> booking_state \<Rightarrow> command_metadata \<Rightarrow> observation \<Rightarrow> string \<Rightarrow> booking_error + booking_state \<times> bool" where
  "completeReschedule E s c obs recordedAt =
     transition E s c ''booking.reschedule.complete''
       (JObj [(''observation'', observation_json obs), (''recordedAt'', JStr recordedAt)]) (reschedule_completion obs recordedAt)"

definition cancellation_request :: "string \<Rightarrow> booking_state \<Rightarrow> booking_error + booking_state" where
  "cancellation_request reason current =
     ensure (bk_lifecycle current \<in> {BkConfirmed, BkReschedulePending}) (BookingConflict ''booking_not_cancellable'') (
     Inr (current\<lparr>bk_lifecycle := BkCancelPending, bk_cancellationReason := Some reason,
       bk_payment := (if py_state (bk_payment current) = PayPaid then (bk_payment current)\<lparr>py_state := PayRefundPending\<rparr>
                      else bk_payment current),
       bk_calendar := (if cl_state (bk_calendar current) = CalConfirmed
                       then (bk_calendar current)\<lparr>cl_state := CalCancellationPending\<rparr> else bk_calendar current)\<rparr>))"

definition requestCancellation :: "env \<Rightarrow> booking_state \<Rightarrow> command_metadata \<Rightarrow> string \<Rightarrow> booking_error + booking_state \<times> bool" where
  "requestCancellation E s c reason =
     transition E s c ''booking.cancel.request'' (JObj [(''reason'', JStr reason)]) (cancellation_request reason)"

fun cancellationCalendarProjection :: "calendar_projection \<Rightarrow> observation \<Rightarrow> calendar_projection" where
  "cancellationCalendarProjection c (ObsAccepted ref v replayed) =
     \<lparr>cl_state = CalCancelled, cl_eventReference = Some ref, cl_failureCode = None, cl_retryable = False\<rparr>"
| "cancellationCalendarProjection c (ObsFailed code retryable) =
     c\<lparr>cl_state := CalCancellationFailed, cl_failureCode := Some code, cl_retryable := retryable\<rparr>"
| "cancellationCalendarProjection c (ObsUnknown key) =
     c\<lparr>cl_state := CalUnknown, cl_failureCode := Some key, cl_retryable := False\<rparr>"

fun cancellationPaymentProjection :: "payment_projection \<Rightarrow> observation \<Rightarrow> payment_projection" where
  "cancellationPaymentProjection p (ObsAccepted ref v replayed) =
     p\<lparr>py_state := PayRefunded, py_providerReference := Some ref, py_failureCode := None, py_terminal := True\<rparr>"
| "cancellationPaymentProjection p (ObsFailed code retryable) =
     p\<lparr>py_state := PayRefundFailed, py_failureCode := Some code, py_terminal := \<not> retryable\<rparr>"
| "cancellationPaymentProjection p (ObsUnknown key) =
     p\<lparr>py_state := PayUnknown, py_failureCode := Some key, py_terminal := False\<rparr>"

definition cancellation_completion ::
  "observation \<Rightarrow> observation \<Rightarrow> string \<Rightarrow> booking_state \<Rightarrow> booking_error + booking_state" where
  "cancellation_completion calendarObs refundObs recordedAt current =
     ensure (bk_lifecycle current = BkCancelPending) (BookingConflict ''cancellation_not_pending'') (
     Inr (current\<lparr>bk_lifecycle := BkCancelled,
       bk_slotHistory := bk_slotHistory current @ [retired_slot HistoryCancelled (bk_slot current) recordedAt],
       bk_slot := (bk_slot current)\<lparr>sl_state := SlotReleased\<rparr>,
       bk_calendar := cancellationCalendarProjection (bk_calendar current) calendarObs,
       bk_payment := cancellationPaymentProjection (bk_payment current) refundObs,
       bk_access := (bk_access current)\<lparr>ax_state := AccInvalidated, ax_activeLinkId := None,
         ax_activeTokenFingerprint := None, ax_supersededLinkIds := retired_links (bk_access current),
         ax_confirmedAt := None, ax_overrideReason := None\<rparr>,
       bk_notifications := invalidateReminders (bk_notifications current),
       bk_reschedule := None\<rparr>))"

definition completeCancellation :: "env \<Rightarrow> booking_state \<Rightarrow> command_metadata \<Rightarrow> observation \<Rightarrow> observation \<Rightarrow> string
    \<Rightarrow> booking_error + booking_state \<times> bool" where
  "completeCancellation E s c calendarObs refundObs recordedAt =
     transition E s c ''booking.cancel.complete''
       (JObj [(''observations'', JObj [(''calendar'', observation_json calendarObs), (''refund'', observation_json refundObs)]),
         (''recordedAt'', JStr recordedAt)]) (cancellation_completion calendarObs refundObs recordedAt)"

end
