(* ===== verification/Booking_Commands.thy ===== *)
theory Booking_Commands
  imports Booking_Workflow
begin

text \<open>
  The booking operations as one command type: what a frozen transition keeps of the state, the step
  relation of commands and payment callbacks, and the idempotency of both (the command receipts and
  the provider callback receipts are two ledgers).
\<close>

section \<open>Commands\<close>

datatype booking_command =
    ConfirmSlot string
  | SignAgreement signed_agreement
  | BeginPayment string
  | ObserveCalendar observation
  | IssueAccess string string
  | ConfirmAccess string string
  | OverrideAccess string
  | Activate string
  | ScheduleReminder reminder_request
  | RequestReschedule slot_hold string
  | CompleteReschedule observation string
  | RequestCancellation string
  | CompleteCancellation observation observation string

fun run_booking :: "env \<Rightarrow> booking_state \<Rightarrow> command_metadata \<Rightarrow> booking_command \<Rightarrow> booking_error + booking_state \<times> bool" where
  "run_booking E s c (ConfirmSlot t) = confirmBookingSlot E s c t"
| "run_booking E s c (SignAgreement a) = applySignedAgreement E s c a"
| "run_booking E s c (BeginPayment i) = beginPayment E s c i"
| "run_booking E s c (ObserveCalendar obs) = observeCalendarReservation E s c obs"
| "run_booking E s c (IssueAccess l f) = issueAccessRequest E s c l f"
| "run_booking E s c (ConfirmAccess l t) = confirmAccess E s c l t"
| "run_booking E s c (OverrideAccess r) = overrideAccess E s c r"
| "run_booking E s c (Activate t) = activateBooking E s c t"
| "run_booking E s c (ScheduleReminder r) = scheduleReminder E s c r"
| "run_booking E s c (RequestReschedule h t) = requestReschedule E s c h t"
| "run_booking E s c (CompleteReschedule obs t) = completeReschedule E s c obs t"
| "run_booking E s c (RequestCancellation r) = requestCancellation E s c r"
| "run_booking E s c (CompleteCancellation co ro t) = completeCancellation E s c co ro t"

text \<open>What each command does to the parsed state, and the request it is fingerprinted as.\<close>

fun booking_change :: "env \<Rightarrow> booking_command \<Rightarrow> booking_state \<Rightarrow> booking_error + booking_state" where
  "booking_change E (ConfirmSlot t) = slot_confirmation E t"
| "booking_change E (SignAgreement a) = agreement_application E a"
| "booking_change E (BeginPayment i) = payment_start i"
| "booking_change E (ObserveCalendar obs) = calendar_observation obs"
| "booking_change E (IssueAccess l f) = access_issue l f"
| "booking_change E (ConfirmAccess l t) = access_confirmation l t"
| "booking_change E (OverrideAccess r) = access_override r"
| "booking_change E (Activate t) = activation"
| "booking_change E (ScheduleReminder r) = reminder_schedule r"
| "booking_change E (RequestReschedule h t) = reschedule_request E h t"
| "booking_change E (CompleteReschedule obs t) = reschedule_completion obs t"
| "booking_change E (RequestCancellation r) = cancellation_request r"
| "booking_change E (CompleteCancellation co ro t) = cancellation_completion co ro t"

fun booking_operation :: "booking_command \<Rightarrow> string \<times> json" where
  "booking_operation (ConfirmSlot t) = (''booking.slot.confirm'', JObj [(''confirmedAt'', JStr t)])"
| "booking_operation (SignAgreement a) = (''booking.agreement.sign'', signed_agreement_json a)"
| "booking_operation (BeginPayment i) = (''booking.payment.begin'', JObj [(''intentId'', JStr i)])"
| "booking_operation (ObserveCalendar obs) = (''booking.calendar.reserve.observe'', observation_json obs)"
| "booking_operation (IssueAccess l f) = (''booking.access.issue'', JObj [(''linkId'', JStr l), (''tokenFingerprint'', JStr f)])"
| "booking_operation (ConfirmAccess l t) = (''booking.access.confirm'', JObj [(''linkId'', JStr l), (''confirmedAt'', JStr t)])"
| "booking_operation (OverrideAccess r) = (''booking.access.override'', JObj [(''reason'', JStr r)])"
| "booking_operation (Activate t) = (''booking.activate'', JObj [(''activatedAt'', JStr t)])"
| "booking_operation (ScheduleReminder r) = (''booking.reminder.schedule'', reminder_request_json r)"
| "booking_operation (RequestReschedule h t) =
     (''booking.reschedule.request'', JObj [(''candidateSlot'', slot_hold_json h), (''requestedAt'', JStr t)])"
| "booking_operation (CompleteReschedule obs t) =
     (''booking.reschedule.complete'', JObj [(''observation'', observation_json obs), (''recordedAt'', JStr t)])"
| "booking_operation (RequestCancellation r) = (''booking.cancel.request'', JObj [(''reason'', JStr r)])"
| "booking_operation (CompleteCancellation co ro t) = (''booking.cancel.complete'',
     JObj [(''observations'', JObj [(''calendar'', observation_json co), (''refund'', observation_json ro)]),
       (''recordedAt'', JStr t)])"

lemmas booking_operation_defs = confirmBookingSlot_def applySignedAgreement_def beginPayment_def
  observeCalendarReservation_def issueAccessRequest_def confirmAccess_def overrideAccess_def activateBooking_def
  scheduleReminder_def requestReschedule_def completeReschedule_def requestCancellation_def completeCancellation_def

lemma run_booking_transition:
  "run_booking E s c b = transition E s c (fst (booking_operation b)) (snd (booking_operation b)) (booking_change E b)"
  by (cases b) (simp_all add: booking_operation_defs)

section \<open>What parsing keeps\<close>

lemma PaymentProjection_parse_keeps:
  "PaymentProjection_parse p = Some q \<Longrightarrow> py_state q = py_state p \<and> py_attempt q = py_attempt p \<and> py_terminal q = py_terminal p"
  by (auto simp: PaymentProjection_parse_def bind_eq_Some_conv split: if_splits)

lemma CalendarProjection_parse_keeps:
  "CalendarProjection_parse p = Some q \<Longrightarrow> cl_state q = cl_state p \<and> cl_retryable q = cl_retryable p"
  by (auto simp: CalendarProjection_parse_def bind_eq_Some_conv split: if_splits)

lemma AccessProjection_parse_keeps:
  "AccessProjection_parse E p = Some q \<Longrightarrow> ax_state q = ax_state p \<and> ax_generation q = ax_generation p
     \<and> ax_activeLinkId q = ax_activeLinkId p \<and> ax_supersededLinkIds q = ax_supersededLinkIds p"
  by (auto simp: AccessProjection_parse_def split: if_splits)

lemma AgreementProjection_parse_keeps:
  "AgreementProjection_parse E p = Some q \<Longrightarrow> ag_signed q = ag_signed p
     \<and> nullable (SignedAgreement_parse E) (ag_snapshot p) = Some (ag_snapshot q) \<and> (ag_snapshot q = None) = (\<not> ag_signed p)"
  by (auto simp: AgreementProjection_parse_def nullable_def split: if_splits option.splits)

lemma Readiness_parse_keeps:
  "Readiness_parse p = Some q \<Longrightarrow> rd_ready q = rd_ready p \<and> rd_slot q = rd_slot p \<and> rd_agreement q = rd_agreement p
     \<and> rd_payment q = rd_payment p \<and> rd_calendar q = rd_calendar p \<and> rd_access q = rd_access p
     \<and> traverse ReadinessAction_parse (rd_actions p) = Some (rd_actions q)"
  by (auto simp: Readiness_parse_def split: if_splits)

lemma QuoteSnapshot_parse_keeps:
  "QuoteSnapshot_parse E p = Some q \<Longrightarrow> qt_commissionedModules q = qt_commissionedModules p
     \<and> qt_totalAmountCents q = qt_totalAmountCents p"
  by (auto simp: QuoteSnapshot_parse_def bind_eq_Some_conv split: if_splits)

definition booking_client :: "booking_state \<Rightarrow> string \<times> string" where
  "booking_client s = (let c = pt_client (bi_participants (bk_input s)) in (ra_assignmentId c, ct_contactId (ra_contact c)))"

lemma RoleAssignment_parse_keeps:
  "RoleAssignment_parse E a = Some b \<Longrightarrow> ra_assignmentId b = ra_assignmentId a
     \<and> ct_contactId (ra_contact b) = ct_contactId (ra_contact a)"
  by (auto simp: RoleAssignment_parse_def ContactSnapshot_parse_def bind_eq_Some_conv split: if_splits)

lemma BookingInput_parse_keeps:
  assumes "BookingInput_parse E a = Some b"
  shows "ra_assignmentId (pt_client (bi_participants b)) = ra_assignmentId (pt_client (bi_participants a))
     \<and> ct_contactId (ra_contact (pt_client (bi_participants b))) = ct_contactId (ra_contact (pt_client (bi_participants a)))"
proof -
  have client: "RoleAssignment_parse E (pt_client p) = Some (pt_client q)" if "BookingParticipants_parse E p = Some q" for p q
    using that by (auto simp: BookingParticipants_parse_def bind_eq_Some_conv split: if_splits)
  from assms have "BookingParticipants_parse E (bi_participants a) = Some (bi_participants b)"
    by (auto simp: BookingInput_parse_def bind_eq_Some_conv split: if_splits)
  then show ?thesis by (rule RoleAssignment_parse_keeps[OF client])
qed

lemma BookingState_parse_SomeE:
  assumes "BookingState_parse E s = Some t"
  obtains i q a p c x r z k rs cs where
    "t = s\<lparr>bk_input := i, bk_quote := q, bk_agreement := a, bk_payment := p, bk_calendar := c,
           bk_access := x, bk_readiness := r, bk_reschedule := z, bk_cancellationReason := k,
           bk_commandReceipts := rs, bk_providerCallbackReceipts := cs\<rparr>"
    "BookingInput_parse E (bk_input s) = Some i" "QuoteSnapshot_parse E (bk_quote s) = Some q"
    "AgreementProjection_parse E (bk_agreement s) = Some a" "PaymentProjection_parse (bk_payment s) = Some p"
    "CalendarProjection_parse (bk_calendar s) = Some c" "AccessProjection_parse E (bk_access s) = Some x"
    "Readiness_parse (bk_readiness s) = Some r" "nullable (RescheduleProjection_parse E) (bk_reschedule s) = Some z"
    "traverse CommandReceipt_parse (bk_commandReceipts s) = Some rs"
    "traverse CallbackReceipt_parse (bk_providerCallbackReceipts s) = Some cs"
    "booking_digest E (quote_json q) = booking_digest E (quote_json (bi_quote i))"
  using assms unfolding BookingState_parse_def
  by (simp add: bind_eq_Some_conv split: if_splits) blast

text \<open>The part of a state that no parse changes.\<close>

definition same_core :: "booking_state \<Rightarrow> booking_state \<Rightarrow> bool" where
  "same_core s t \<longleftrightarrow> bk_bookingId t = bk_bookingId s \<and> bk_organizationId t = bk_organizationId s
     \<and> bk_lifecycle t = bk_lifecycle s \<and> bk_slot t = bk_slot s \<and> bk_slotHistory t = bk_slotHistory s
     \<and> bk_notifications t = bk_notifications s \<and> ag_signed (bk_agreement t) = ag_signed (bk_agreement s)
     \<and> py_state (bk_payment t) = py_state (bk_payment s) \<and> py_attempt (bk_payment t) = py_attempt (bk_payment s)
     \<and> cl_state (bk_calendar t) = cl_state (bk_calendar s)
     \<and> ax_state (bk_access t) = ax_state (bk_access s) \<and> ax_generation (bk_access t) = ax_generation (bk_access s)
     \<and> ax_activeLinkId (bk_access t) = ax_activeLinkId (bk_access s)
     \<and> ax_supersededLinkIds (bk_access t) = ax_supersededLinkIds (bk_access s)
     \<and> (bk_reschedule t = None) = (bk_reschedule s = None)
     \<and> booking_client t = booking_client s
     \<and> qt_commissionedModules (bk_quote t) = qt_commissionedModules (bk_quote s)"

lemma BookingState_parse_core:
  assumes "BookingState_parse E s = Some t"
  shows "same_core s t \<and> bk_revision t = bk_revision s
    \<and> nullable (SignedAgreement_parse E) (ag_snapshot (bk_agreement s)) = Some (ag_snapshot (bk_agreement t))
    \<and> (ag_snapshot (bk_agreement t) = None) = (\<not> ag_signed (bk_agreement s))
    \<and> traverse CommandReceipt_parse (bk_commandReceipts s) = Some (bk_commandReceipts t)
    \<and> traverse CallbackReceipt_parse (bk_providerCallbackReceipts s) = Some (bk_providerCallbackReceipts t)
    \<and> Readiness_parse (bk_readiness s) = Some (bk_readiness t)"
  using assms
proof (rule BookingState_parse_SomeE)
  fix i q a p c x r z k rs cs
  assume t: "t = s\<lparr>bk_input := i, bk_quote := q, bk_agreement := a, bk_payment := p, bk_calendar := c,
           bk_access := x, bk_readiness := r, bk_reschedule := z, bk_cancellationReason := k,
           bk_commandReceipts := rs, bk_providerCallbackReceipts := cs\<rparr>"
    and f: "BookingInput_parse E (bk_input s) = Some i" "QuoteSnapshot_parse E (bk_quote s) = Some q"
    "AgreementProjection_parse E (bk_agreement s) = Some a" "PaymentProjection_parse (bk_payment s) = Some p"
    "CalendarProjection_parse (bk_calendar s) = Some c" "AccessProjection_parse E (bk_access s) = Some x"
    "Readiness_parse (bk_readiness s) = Some r" "nullable (RescheduleProjection_parse E) (bk_reschedule s) = Some z"
    "traverse CommandReceipt_parse (bk_commandReceipts s) = Some rs"
    "traverse CallbackReceipt_parse (bk_providerCallbackReceipts s) = Some cs"
  note k = BookingInput_parse_keeps[OF f(1)] QuoteSnapshot_parse_keeps[OF f(2)] AgreementProjection_parse_keeps[OF f(3)]
    PaymentProjection_parse_keeps[OF f(4)] CalendarProjection_parse_keeps[OF f(5)] AccessProjection_parse_keeps[OF f(6)]
    nullable_parsed_None[OF f(8)]
  show ?thesis unfolding same_core_def booking_client_def Let_def
    using k f(7,9,10) by (simp add: t)
qed

text \<open>Readiness is a function of that part, and its fixed action texts survive every parse.\<close>

lemma deriveReadiness_core: "same_core s t \<Longrightarrow> deriveReadiness t = deriveReadiness s"
  by (simp only: same_core_def deriveReadiness_def)

lemma same_core_bookkeeping [simp]:
  "same_core (s\<lparr>bk_revision := n\<rparr>) t = same_core s t"
  "same_core (s\<lparr>bk_commandReceipts := rs\<rparr>) t = same_core s t"
  "same_core (s\<lparr>bk_providerCallbackReceipts := cs\<rparr>) t = same_core s t"
  "same_core (s\<lparr>bk_readiness := r\<rparr>) t = same_core s t"
  "same_core (s\<lparr>bk_revision := n, bk_payment := y\<rparr>) t = same_core (s\<lparr>bk_payment := y\<rparr>) t"
  by (simp_all add: same_core_def booking_client_def)

lemma action_texts:
  "text_parse 300 ''Confirm an available inspection slot'' = Some ''Confirm an available inspection slot''"
  "text_parse 300 ''Sign the pre-inspection agreement'' = Some ''Sign the pre-inspection agreement''"
  "text_parse 300 ''Retry payment'' = Some ''Retry payment''"
  "text_parse 300 ''Resolve payment processing'' = Some ''Resolve payment processing''"
  "text_parse 300 ''Confirm the calendar reservation'' = Some ''Confirm the calendar reservation''"
  "text_parse 300 ''Confirm property access'' = Some ''Confirm property access''"
  by code_simp+

lemma action_for_parse:
  "text_parse 300 text = Some text \<Longrightarrow> traverse ReadinessAction_parse (action_for ok dep role text) = Some (action_for ok dep role text)"
  by (simp add: action_for_def ReadinessAction_parse_def)

lemma deriveReadiness_parse: "Readiness_parse (deriveReadiness s) = Some (deriveReadiness s)"
  by (simp add: Readiness_parse_def deriveReadiness_def Let_def traverse_append action_for_parse action_texts)

lemma freezeBooking_core:
  assumes "freezeBooking E s = Inr t"
  shows "same_core s t" "bk_revision t = bk_revision s"
    "nullable (SignedAgreement_parse E) (ag_snapshot (bk_agreement s)) = Some (ag_snapshot (bk_agreement t))"
    "(ag_snapshot (bk_agreement t) = None) = (\<not> ag_signed (bk_agreement s))"
    "traverse CommandReceipt_parse (bk_commandReceipts s) = Some (bk_commandReceipts t)"
    "traverse CallbackReceipt_parse (bk_providerCallbackReceipts s) = Some (bk_providerCallbackReceipts t)"
    "bk_readiness t = deriveReadiness t"
proof -
  from assms have "BookingState_parse E (s\<lparr>bk_readiness := deriveReadiness s\<rparr>) = Some t"
    by (simp add: freezeBooking_def)
  note core = BookingState_parse_core[OF this]
  from core show c: "same_core s t" by simp
  show "bk_readiness t = deriveReadiness t" using core by (simp add: deriveReadiness_parse deriveReadiness_core[OF c])
qed (use BookingState_parse_core[of E "s\<lparr>bk_readiness := deriveReadiness s\<rparr>" t] assms in \<open>simp_all add: freezeBooking_def\<close>)

section \<open>Applied commands\<close>

lemma run_booking_Inr:
  assumes "run_booking E s c b = Inr (s', rep)"
  obtains p d where "BookingState_parse E s = Some p"
    "inspectCommand E (bk_revision p) (bk_commandReceipts p) c (fst (booking_operation b)) (snd (booking_operation b)) = Inr d"
    "fst d = rep" "rep \<Longrightarrow> s' = s"
    "\<not> rep \<Longrightarrow> \<exists>m. booking_change E b p = Inr m
       \<and> freezeBooking E (m\<lparr>bk_revision := bk_revision p + 1, bk_commandReceipts := bk_commandReceipts p @ [snd d]\<rparr>) = Inr s'"
  using assms by (auto simp: run_booking_transition transition_def split: if_splits)

text \<open>An applied command: a change of the parsed state, frozen one revision later.\<close>

lemma run_booking_applied:
  assumes "run_booking E s c b = Inr (s', False)"
  obtains p m where "BookingState_parse E s = Some p" "booking_change E b p = Inr m" "same_core m s'"
    "bk_revision s' = bk_revision s + 1" "bk_revision s = cm_expectedRevision c"
    "nullable (SignedAgreement_parse E) (ag_snapshot (bk_agreement m)) = Some (ag_snapshot (bk_agreement s'))"
    "bk_readiness s' = deriveReadiness s'"
    "traverse CallbackReceipt_parse (bk_providerCallbackReceipts m) = Some (bk_providerCallbackReceipts s')"
  using assms
proof (rule run_booking_Inr)
  fix p d
  assume p: "BookingState_parse E s = Some p"
    and d: "inspectCommand E (bk_revision p) (bk_commandReceipts p) c (fst (booking_operation b)) (snd (booking_operation b)) = Inr d"
      "fst d = False"
    and "\<not> False \<Longrightarrow> \<exists>m. booking_change E b p = Inr m
       \<and> freezeBooking E (m\<lparr>bk_revision := bk_revision p + 1, bk_commandReceipts := bk_commandReceipts p @ [snd d]\<rparr>) = Inr s'"
  then obtain m where m: "booking_change E b p = Inr m"
    "freezeBooking E (m\<lparr>bk_revision := bk_revision p + 1, bk_commandReceipts := bk_commandReceipts p @ [snd d]\<rparr>) = Inr s'"
    by blast
  have "bk_revision p = cm_expectedRevision c" using d by (auto elim: inspectCommand_Inr)
  with that[OF p m(1)] freezeBooking_core[OF m(2)] BookingState_parse_core[OF p] show thesis
    by simp
qed

lemma applyPaymentCallback_Inr:
  assumes "applyPaymentCallback E s cb = Inr (s', rep)"
  obtains p h where "BookingState_parse E s = Some p" "booking_digest E (payment_callback_json cb) = Inr h"
    "rep \<Longrightarrow> s' = s \<and> (\<exists>r. List.find (\<lambda>r. cr_providerEventId r = pc_providerEventId cb) (bk_providerCallbackReceipts p) = Some r
       \<and> cr_requestFingerprint r = h)"
    "\<not> rep \<Longrightarrow> List.find (\<lambda>r. cr_providerEventId r = pc_providerEventId cb) (bk_providerCallbackReceipts p) = None
       \<and> freezeBooking E (p\<lparr>bk_revision := bk_revision p + 1, bk_payment := callback_payment p cb,
           bk_providerCallbackReceipts := bk_providerCallbackReceipts p
             @ [\<lparr>cr_providerEventId = pc_providerEventId cb, cr_requestFingerprint = h\<rparr>]\<rparr>) = Inr s'"
  using assms by (auto simp: applyPaymentCallback_def split: option.splits if_splits)

lemma applyPaymentCallback_applied:
  assumes "applyPaymentCallback E s cb = Inr (s', False)"
  obtains p where "BookingState_parse E s = Some p" "same_core (p\<lparr>bk_payment := callback_payment p cb\<rparr>) s'"
    "bk_revision s' = bk_revision s + 1"
    "nullable (SignedAgreement_parse E) (ag_snapshot (bk_agreement p)) = Some (ag_snapshot (bk_agreement s'))"
    "bk_readiness s' = deriveReadiness s'"
    "traverse CommandReceipt_parse (bk_commandReceipts p) = Some (bk_commandReceipts s')"
  using assms
proof (rule applyPaymentCallback_Inr)
  fix p h
  assume p: "BookingState_parse E s = Some p"
    and "\<not> False \<Longrightarrow> List.find (\<lambda>r. cr_providerEventId r = pc_providerEventId cb) (bk_providerCallbackReceipts p) = None
       \<and> freezeBooking E (p\<lparr>bk_revision := bk_revision p + 1, bk_payment := callback_payment p cb,
           bk_providerCallbackReceipts := bk_providerCallbackReceipts p
             @ [\<lparr>cr_providerEventId = pc_providerEventId cb, cr_requestFingerprint = h\<rparr>]\<rparr>) = Inr s'"
  then have f: "freezeBooking E (p\<lparr>bk_revision := bk_revision p + 1, bk_payment := callback_payment p cb,
           bk_providerCallbackReceipts := bk_providerCallbackReceipts p
             @ [\<lparr>cr_providerEventId = pc_providerEventId cb, cr_requestFingerprint = h\<rparr>]\<rparr>) = Inr s'" by blast
  from that[OF p] freezeBooking_core[OF f] BookingState_parse_core[OF p] show thesis
    by simp
qed

text \<open>One step of a booking: a command or a provider callback that returned.\<close>

inductive booking_step :: "env \<Rightarrow> booking_state \<Rightarrow> booking_state \<Rightarrow> bool" for E :: env and s :: booking_state where
  booking_command: "run_booking E s c b = Inr (s', rep) \<Longrightarrow> booking_step E s s'"
| booking_callback: "applyPaymentCallback E s cb = Inr (s', rep) \<Longrightarrow> booking_step E s s'"

inductive_cases booking_stepE: "booking_step E s s'"

lemma booking_replay_same: "run_booking E s c b = Inr (s', True) \<Longrightarrow> s' = s"
  "applyPaymentCallback E s cb = Inr (s', True) \<Longrightarrow> s' = s"
  by (auto elim!: run_booking_Inr applyPaymentCallback_Inr)

lemma booking_step_cases:
  assumes "booking_step E s s'"
  obtains "s' = s"
  | c b where "run_booking E s c b = Inr (s', False)"
  | cb where "applyPaymentCallback E s cb = Inr (s', False)"
  using assms by (rule booking_stepE) (metis (full_types) booking_replay_same)+

section \<open>Idempotency\<close>

definition booking_request :: "env \<Rightarrow> command_metadata \<times> booking_command \<Rightarrow> booking_error + string" where
  "booking_request E q = booking_digest E (JObj [(''operation'', JStr (fst (booking_operation (snd q)))),
     (''payload'', snd (booking_operation (snd q)))])"

definition apply_booking ::
  "env \<Rightarrow> booking_state \<Rightarrow> command_metadata \<times> booking_command \<Rightarrow> (booking_error + bool) \<times> booking_state" where
  "apply_booking E s q = (case run_booking E s (fst q) (snd q) of Inl e \<Rightarrow> (Inl e, s) | Inr r \<Rightarrow> (Inr (snd r), fst r))"

lemma apply_booking_Inr: "apply_booking E s q = (Inr r, s') \<longleftrightarrow> run_booking E s (fst q) (snd q) = Inr (s', r)"
  by (auto simp: apply_booking_def split: sum.splits)

definition command_record :: "booking_state \<Rightarrow> string \<Rightarrow> ((booking_error + string) \<times> unit) option" where
  "command_record s = recorded_command (bk_commandReceipts s)"

text \<open>Changes of the state leave the receipts to the transition.\<close>

lemma booking_change_receipts:
  "booking_change E b p = Inr m \<Longrightarrow> bk_commandReceipts m = bk_commandReceipts p
     \<and> bk_providerCallbackReceipts m = bk_providerCallbackReceipts p"
  by (cases b) (auto simp: slot_confirmation_def agreement_application_def payment_start_def access_issue_def
    access_confirmation_def access_override_def activation_def reminder_schedule_def reschedule_request_def
    reschedule_completion_def cancellation_request_def cancellation_completion_def
    split: observation.splits elim!: calendar_observation.elims)

lemma run_booking_receipts:
  assumes "run_booking E s c b = Inr (s', rep)"
  obtains ts cur d where "traverse CommandReceipt_parse (bk_commandReceipts s) = Some ts"
    "inspectCommand E cur ts c (fst (booking_operation b)) (snd (booking_operation b)) = Inr d" "fst d = rep" "rep \<Longrightarrow> s' = s"
    "\<not> rep \<Longrightarrow> traverse CommandReceipt_parse (ts @ [snd d]) = Some (bk_commandReceipts s')"
  using assms
proof (rule run_booking_Inr)
  fix p d
  assume p: "BookingState_parse E s = Some p"
    and d: "inspectCommand E (bk_revision p) (bk_commandReceipts p) c (fst (booking_operation b)) (snd (booking_operation b)) = Inr d"
      "fst d = rep" "rep \<Longrightarrow> s' = s"
    and m: "\<not> rep \<Longrightarrow> \<exists>m. booking_change E b p = Inr m
       \<and> freezeBooking E (m\<lparr>bk_revision := bk_revision p + 1, bk_commandReceipts := bk_commandReceipts p @ [snd d]\<rparr>) = Inr s'"
  have "traverse CommandReceipt_parse (bk_commandReceipts s) = Some (bk_commandReceipts p)"
    using BookingState_parse_core[OF p] by simp
  moreover have "traverse CommandReceipt_parse (bk_commandReceipts p @ [snd d]) = Some (bk_commandReceipts s')" if "\<not> rep"
    using m[OF that] by (auto dest: freezeBooking_core(5))
  ultimately show thesis using that d by blast
qed

lemma command_record_kept:
  assumes "booking_step E s s'" and "command_record s k = Some x"
  shows "command_record s' k = Some x"
  using assms(1)
proof (rule booking_step_cases)
  assume "s' = s"
  then show ?thesis using assms(2) by simp
next
  fix c b
  assume "run_booking E s c b = Inr (s', False)"
  then show ?thesis
  proof (rule run_booking_receipts)
    fix ts cur d
    assume "traverse CommandReceipt_parse (bk_commandReceipts s) = Some ts"
      "inspectCommand E cur ts c (fst (booking_operation b)) (snd (booking_operation b)) = Inr d" "fst d = False"
      "\<not> False \<Longrightarrow> traverse CommandReceipt_parse (ts @ [snd d]) = Some (bk_commandReceipts s')"
    then show ?thesis using assms(2) by (auto simp: command_record_def intro: command_applied(2))
  qed
next
  fix cb
  assume "applyPaymentCallback E s cb = Inr (s', False)"
  then show ?thesis
  proof (rule applyPaymentCallback_applied)
    fix p
    assume p: "BookingState_parse E s = Some p"
      and t: "traverse CommandReceipt_parse (bk_commandReceipts p) = Some (bk_commandReceipts s')"
    have "traverse CommandReceipt_parse (bk_commandReceipts s) = Some (bk_commandReceipts p)"
      using BookingState_parse_core[OF p] by simp
    with receipts_parse_trimmed[OF this] receipts_parse_trimmed[OF t] t assms(2) show ?thesis
      by (simp add: command_record_def recorded_command_def receipts_trimmed_def)
  qed
qed

lemma booking_records:
  assumes "trimmed_key (fst q)" and "run_booking E s (fst q) (snd q) = Inr (s', r)"
  shows "command_record s' (cm_idempotencyKey (fst q)) = Some (booking_request E q, ())"
  using assms(2)
proof (rule run_booking_receipts)
  fix ts cur d
  assume "traverse CommandReceipt_parse (bk_commandReceipts s) = Some ts"
      "inspectCommand E cur ts (fst q) (fst (booking_operation (snd q))) (snd (booking_operation (snd q))) = Inr d" "fst d = r"
      "r \<Longrightarrow> s' = s" "\<not> r \<Longrightarrow> traverse CommandReceipt_parse (ts @ [snd d]) = Some (bk_commandReceipts s')"
  then show ?thesis using assms(1)
    by (cases r) (auto simp: command_record_def booking_request_def intro: command_replay command_applied(3))
qed

lemma booking_replays:
  assumes "command_record s (cm_idempotencyKey (fst q)) = Some (f, i)" and "run_booking E s (fst q) (snd q) = Inr (s', r)"
  shows "f = booking_request E q \<and> r"
  using assms(2)
proof (rule run_booking_receipts)
  fix ts cur d
  assume a: "traverse CommandReceipt_parse (bk_commandReceipts s) = Some ts"
      "inspectCommand E cur ts (fst q) (fst (booking_operation (snd q))) (snd (booking_operation (snd q))) = Inr d" "fst d = r"
      "r \<Longrightarrow> s' = s" "\<not> r \<Longrightarrow> traverse CommandReceipt_parse (ts @ [snd d]) = Some (bk_commandReceipts s')"
  show ?thesis
  proof (cases r)
    case True
    with command_replay[OF a(1,2)] a(3) assms(1) show ?thesis by (simp add: command_record_def booking_request_def)
  next
    case False
    with command_applied(1)[OF a(1,2)] a(3,5) assms(1) show ?thesis by (simp add: command_record_def)
  qed
qed

interpretation booking_ledger: idempotent_operation "apply_booking E" "\<lambda>q. cm_idempotencyKey (fst q)" "booking_request E"
    "\<lambda>_. ()" command_record "booking_step E" "\<lambda>q. trimmed_key (fst q)" for E
  by unfold_locales (auto simp: apply_booking_Inr booking_records command_record_kept dest: booking_replays)

text \<open>The callback receipts are a second ledger, keyed by the provider's event.\<close>

definition as_command_receipt :: "callback_receipt \<Rightarrow> command_receipt" where
  "as_command_receipt r = \<lparr>rc_idempotencyKey = cr_providerEventId r, rc_requestFingerprint = cr_requestFingerprint r\<rparr>"

definition callback_record :: "booking_state \<Rightarrow> string \<Rightarrow> ((booking_error + string) \<times> unit) option" where
  "callback_record s = recorded_command (map as_command_receipt (bk_providerCallbackReceipts s))"

lemma callback_receipts_parse:
  "traverse CallbackReceipt_parse cs = Some ds
     \<Longrightarrow> traverse CommandReceipt_parse (map as_command_receipt cs) = Some (map as_command_receipt ds)"
  by (induction cs arbitrary: ds)
    (auto simp: CallbackReceipt_parse_def CommandReceipt_parse_def as_command_receipt_def split: option.splits if_splits)

lemma find_callback_receipt:
  "List.find (\<lambda>r. rc_idempotencyKey r = k) (map as_command_receipt cs)
     = map_option as_command_receipt (List.find (\<lambda>r. cr_providerEventId r = k) cs)"
  by (induction cs) (auto simp: as_command_receipt_def)

definition apply_callback :: "env \<Rightarrow> booking_state \<Rightarrow> payment_callback \<Rightarrow> (booking_error + bool) \<times> booking_state" where
  "apply_callback E s cb = (case applyPaymentCallback E s cb of Inl e \<Rightarrow> (Inl e, s) | Inr r \<Rightarrow> (Inr (snd r), fst r))"

lemma apply_callback_Inr: "apply_callback E s cb = (Inr r, s') \<longleftrightarrow> applyPaymentCallback E s cb = Inr (s', r)"
  by (auto simp: apply_callback_def split: sum.splits)

definition callback_request :: "env \<Rightarrow> payment_callback \<Rightarrow> booking_error + string" where
  "callback_request E cb = booking_digest E (payment_callback_json cb)"

definition trimmed_event :: "payment_callback \<Rightarrow> bool" where
  "trimmed_event cb \<longleftrightarrow> js_trim (pc_providerEventId cb) = pc_providerEventId cb"

lemma callback_ledger_facts:
  assumes "applyPaymentCallback E s cb = Inr (s', rep)"
  shows "rep \<Longrightarrow> s' = s \<and> callback_record s (pc_providerEventId cb) = Some (callback_request E cb, ())"
    and "\<not> rep \<Longrightarrow> callback_record s (pc_providerEventId cb) = None"
    and "\<not> rep \<Longrightarrow> callback_record s k = Some x \<Longrightarrow> callback_record s' k = Some x"
    and "\<not> rep \<Longrightarrow> trimmed_event cb \<Longrightarrow> callback_record s' (pc_providerEventId cb) = Some (callback_request E cb, ())"
proof -
  from assms obtain p h where p: "BookingState_parse E s = Some p" and h: "callback_request E cb = Inr h"
    and r: "rep \<Longrightarrow> s' = s \<and> (\<exists>r. List.find (\<lambda>r. cr_providerEventId r = pc_providerEventId cb) (bk_providerCallbackReceipts p) = Some r
       \<and> cr_requestFingerprint r = h)"
    and n: "\<not> rep \<Longrightarrow> List.find (\<lambda>r. cr_providerEventId r = pc_providerEventId cb) (bk_providerCallbackReceipts p) = None
       \<and> freezeBooking E (p\<lparr>bk_revision := bk_revision p + 1, bk_payment := callback_payment p cb,
           bk_providerCallbackReceipts := bk_providerCallbackReceipts p
             @ [\<lparr>cr_providerEventId = pc_providerEventId cb, cr_requestFingerprint = h\<rparr>]\<rparr>) = Inr s'"
    unfolding callback_request_def by (rule applyPaymentCallback_Inr) blast
  have ts: "traverse CommandReceipt_parse (map as_command_receipt (bk_providerCallbackReceipts s))
      = Some (map as_command_receipt (bk_providerCallbackReceipts p))"
    using BookingState_parse_core[OF p] by (simp add: callback_receipts_parse)
  show "rep \<Longrightarrow> s' = s \<and> callback_record s (pc_providerEventId cb) = Some (callback_request E cb, ())"
    using r by (auto simp: callback_record_def recorded_command_def ts receipt_of_def find_callback_receipt h as_command_receipt_def)
  assume rep: "\<not> rep"
  have none: "List.find (\<lambda>r. rc_idempotencyKey r = pc_providerEventId cb) (map as_command_receipt (bk_providerCallbackReceipts p)) = None"
    using n[OF rep] by (simp add: find_callback_receipt)
  have after: "traverse CommandReceipt_parse (map as_command_receipt (bk_providerCallbackReceipts p)
      @ [\<lparr>rc_idempotencyKey = pc_providerEventId cb, rc_requestFingerprint = h\<rparr>])
      = Some (map as_command_receipt (bk_providerCallbackReceipts s'))"
    using callback_receipts_parse[OF freezeBooking_core(6)[OF conjunct2[OF n[OF rep]]]] by (simp add: as_command_receipt_def)
  note rec = receipt_recorded[OF ts none after]
  show "callback_record s (pc_providerEventId cb) = None" by (simp add: callback_record_def rec(1))
  have t': "callback_record s' k' = recorded_command (map as_command_receipt (bk_providerCallbackReceipts s')) k'" for k'
    by (simp add: callback_record_def)
  show "callback_record s k = Some x \<Longrightarrow> callback_record s' k = Some x"
    using rec(2) by (simp add: callback_record_def)
  show "trimmed_event cb \<Longrightarrow> callback_record s' (pc_providerEventId cb) = Some (callback_request E cb, ())"
    using rec(3) by (simp add: callback_record_def trimmed_event_def h)
qed

lemma callback_record_parsed:
  "traverse CallbackReceipt_parse (bk_providerCallbackReceipts s) = Some ds
     \<Longrightarrow> recorded_command (map as_command_receipt ds) k = callback_record s k"
  using receipts_parse_trimmed[OF callback_receipts_parse]
  by (simp add: callback_record_def recorded_command_def callback_receipts_parse receipts_trimmed_def)

lemma callback_record_kept:
  assumes "booking_step E s s'" and "callback_record s k = Some x"
  shows "callback_record s' k = Some x"
  using assms(1)
proof (rule booking_step_cases)
  fix c b
  assume "run_booking E s c b = Inr (s', False)"
  then show ?thesis
  proof (rule run_booking_applied)
    fix p m
    assume p: "BookingState_parse E s = Some p" and m: "booking_change E b p = Inr m"
      and t: "traverse CallbackReceipt_parse (bk_providerCallbackReceipts m) = Some (bk_providerCallbackReceipts s')"
    have "traverse CallbackReceipt_parse (bk_providerCallbackReceipts s) = Some (bk_providerCallbackReceipts p)"
      using BookingState_parse_core[OF p] by simp
    from callback_record_parsed[OF this, of k] callback_receipts_parse[OF this, THEN receipts_parse_trimmed]
      callback_receipts_parse[OF t] booking_change_receipts[OF m] assms(2)
    show ?thesis by (simp add: callback_record_def recorded_command_def receipts_trimmed_def)
  qed
qed (use assms callback_ledger_facts(3) in blast)+

interpretation callback_ledger: idempotent_operation "apply_callback E" pc_providerEventId "callback_request E"
    "\<lambda>_. ()" callback_record "booking_step E" trimmed_event for E
proof unfold_locales
  fix cb s r s'
  assume "trimmed_event cb" and "apply_callback E s cb = (Inr r, s')"
  then show "callback_record s' (pc_providerEventId cb) = Some (callback_request E cb, ())"
    using callback_ledger_facts(1,4)[of E s cb s' r] by (cases r) (simp_all add: apply_callback_Inr)
next
  fix cb s f i r s'
  assume "callback_record s (pc_providerEventId cb) = Some (f, i)" and "apply_callback E s cb = (Inr r, s')"
  then show "f = callback_request E cb \<and> () = i"
    using callback_ledger_facts(1,2)[of E s cb s' r] by (cases r) (simp_all add: apply_callback_Inr)
qed (rule callback_record_kept)

end
