(* ===== verification/Booking_Machine.thy ===== *)
theory Booking_Machine
  imports Booking_Commands
begin

text \<open>
  The contract of a booking as an abstract machine over seven small components, without texts,
  receipts or revisions; the proof that every operation of the workflow refines it; and the safety
  of bookings, proved on the machine and transferred to every reachable booking.
\<close>

section \<open>The abstract machine\<close>

datatype outcome_kind = OutAccepted | OutFailed | OutUnknown

datatype payment_event = PaidAsIntended | PaidOtherIntent | DeclinedAsIntended | DeclinedOtherIntent
  | RefundDone | RefundRefused

datatype booking_event =
    EvSlotConfirmed | EvSigned | EvPaymentStarted | EvPayment payment_event | EvCalendar outcome_kind
  | EvAccessIssued | EvAccessConfirmed | EvAccessOverridden | EvActivated | EvReminder
  | EvRescheduleRequested | EvRescheduleObserved outcome_kind
  | EvCancelRequested | EvCancelObserved outcome_kind outcome_kind

record machine =
  am_lifecycle :: booking_lifecycle
  am_slot :: slot_state
  am_signed :: bool
  am_payment :: payment_state
  am_calendar :: calendar_state
  am_access :: access_state
  am_rescheduling :: bool

definition machine_ready :: "machine \<Rightarrow> bool" where
  "machine_ready a \<longleftrightarrow> am_slot a = SlotConfirmed \<and> am_signed a \<and> am_payment a = PayPaid \<and> am_calendar a = CalConfirmed
     \<and> am_access a \<in> {AccConfirmed, AccOverridden}"

definition machine_checkout_open :: "machine \<Rightarrow> bool" where
  "machine_checkout_open a \<longleftrightarrow> am_payment a \<notin> {PayRefundPending, PayRefunded, PayRefundFailed}
     \<and> am_lifecycle a \<notin> {BkCancelPending, BkCancelled}"

fun payment_after :: "payment_event \<Rightarrow> machine \<Rightarrow> payment_state" where
  "payment_after PaidAsIntended a = (if machine_checkout_open a then PayPaid else am_payment a)"
| "payment_after PaidOtherIntent a = (if machine_checkout_open a then PayUnknown else am_payment a)"
| "payment_after DeclinedAsIntended a =
     (if am_payment a \<in> {PayPaid, PayRefundPending, PayRefunded, PayRefundFailed} then am_payment a else PayDeclined)"
| "payment_after DeclinedOtherIntent a = am_payment a"
| "payment_after RefundDone a = PayRefunded"
| "payment_after RefundRefused a = PayRefundFailed"

fun reserved_as :: "outcome_kind \<Rightarrow> calendar_state" where
  "reserved_as OutAccepted = CalConfirmed"
| "reserved_as OutFailed = CalReservationFailed"
| "reserved_as OutUnknown = CalUnknown"

fun calendar_cancelled_as :: "outcome_kind \<Rightarrow> calendar_state" where
  "calendar_cancelled_as OutAccepted = CalCancelled"
| "calendar_cancelled_as OutFailed = CalCancellationFailed"
| "calendar_cancelled_as OutUnknown = CalUnknown"

fun refunded_as :: "outcome_kind \<Rightarrow> payment_state" where
  "refunded_as OutAccepted = PayRefunded"
| "refunded_as OutFailed = PayRefundFailed"
| "refunded_as OutUnknown = PayUnknown"

definition when_ok :: "bool \<Rightarrow> machine \<Rightarrow> machine option" where
  "when_ok g a = (if g then Some a else None)"

fun advance :: "booking_event \<Rightarrow> machine \<Rightarrow> machine option" where
  "advance EvSlotConfirmed a = when_ok (am_slot a = SlotHeld) (a\<lparr>am_slot := SlotConfirmed\<rparr>)"
| "advance EvSigned a = Some (a\<lparr>am_signed := True\<rparr>)"
| "advance EvPaymentStarted a = when_ok (am_payment a \<in> {PayNotStarted, PayDeclined, PayFailed}) (a\<lparr>am_payment := PayPending\<rparr>)"
| "advance (EvPayment e) a = Some (a\<lparr>am_payment := payment_after e a\<rparr>)"
| "advance (EvCalendar k) a = Some (a\<lparr>am_calendar := reserved_as k\<rparr>)"
| "advance EvAccessIssued a = Some (a\<lparr>am_access := AccConfirmationPending\<rparr>)"
| "advance EvAccessConfirmed a = when_ok (am_access a = AccConfirmationPending) (a\<lparr>am_access := AccConfirmed\<rparr>)"
| "advance EvAccessOverridden a = Some (a\<lparr>am_access := AccOverridden\<rparr>)"
| "advance EvActivated a = when_ok (machine_ready a) (a\<lparr>am_lifecycle := BkConfirmed\<rparr>)"
| "advance EvReminder a = Some a"
| "advance EvRescheduleRequested a = when_ok (am_lifecycle a = BkConfirmed)
     (a\<lparr>am_lifecycle := BkReschedulePending, am_calendar := CalPending, am_rescheduling := True\<rparr>)"
| "advance (EvRescheduleObserved k) a = when_ok (am_lifecycle a = BkReschedulePending \<and> am_rescheduling a)
     (if k = OutAccepted then a\<lparr>am_lifecycle := BkConfirmed, am_slot := SlotConfirmed, am_calendar := CalConfirmed,
        am_access := AccNotRequested, am_rescheduling := False\<rparr>
      else a\<lparr>am_calendar := reserved_as k\<rparr>)"
| "advance EvCancelRequested a = when_ok (am_lifecycle a \<in> {BkConfirmed, BkReschedulePending})
     (a\<lparr>am_lifecycle := BkCancelPending,
        am_payment := (if am_payment a = PayPaid then PayRefundPending else am_payment a),
        am_calendar := (if am_calendar a = CalConfirmed then CalCancellationPending else am_calendar a)\<rparr>)"
| "advance (EvCancelObserved k r) a = when_ok (am_lifecycle a = BkCancelPending)
     (a\<lparr>am_lifecycle := BkCancelled, am_slot := SlotReleased, am_calendar := calendar_cancelled_as k,
        am_payment := refunded_as r, am_access := AccInvalidated, am_rescheduling := False\<rparr>)"

lemma when_ok_Some [simp]: "when_ok g a = Some b \<longleftrightarrow> g \<and> b = a"
  by (auto simp: when_ok_def)

section \<open>Refinement\<close>

definition abs_booking :: "booking_state \<Rightarrow> machine" where
  "abs_booking s = \<lparr>am_lifecycle = bk_lifecycle s, am_slot = sl_state (bk_slot s), am_signed = ag_signed (bk_agreement s),
     am_payment = py_state (bk_payment s), am_calendar = cl_state (bk_calendar s), am_access = ax_state (bk_access s),
     am_rescheduling = (bk_reschedule s \<noteq> None)\<rparr>"

fun kind_of :: "observation \<Rightarrow> outcome_kind" where
  "kind_of (ObsAccepted ref v replayed) = OutAccepted"
| "kind_of (ObsFailed code retryable) = OutFailed"
| "kind_of (ObsUnknown key) = OutUnknown"

fun event_of :: "booking_command \<Rightarrow> booking_event" where
  "event_of (ConfirmSlot t) = EvSlotConfirmed"
| "event_of (SignAgreement a) = EvSigned"
| "event_of (BeginPayment i) = EvPaymentStarted"
| "event_of (ObserveCalendar obs) = EvCalendar (kind_of obs)"
| "event_of (IssueAccess l f) = EvAccessIssued"
| "event_of (ConfirmAccess l t) = EvAccessConfirmed"
| "event_of (OverrideAccess r) = EvAccessOverridden"
| "event_of (Activate t) = EvActivated"
| "event_of (ScheduleReminder r) = EvReminder"
| "event_of (RequestReschedule h t) = EvRescheduleRequested"
| "event_of (CompleteReschedule obs t) = EvRescheduleObserved (kind_of obs)"
| "event_of (RequestCancellation r) = EvCancelRequested"
| "event_of (CompleteCancellation co ro t) = EvCancelObserved (kind_of co) (kind_of ro)"

definition callback_kind :: "string option \<Rightarrow> callback_event \<Rightarrow> payment_event" where
  "callback_kind intent ev = (case ev of
     CheckoutSucceeded i \<Rightarrow> if Some i = intent then PaidAsIntended else PaidOtherIntent
   | CheckoutDeclined i r \<Rightarrow> if Some i = intent then DeclinedAsIntended else DeclinedOtherIntent
   | RefundSucceeded \<Rightarrow> RefundDone
   | RefundFailed r t \<Rightarrow> RefundRefused)"

lemma abs_booking_core: "same_core s t \<Longrightarrow> abs_booking t = abs_booking s"
  by (simp add: same_core_def abs_booking_def)

lemma abs_booking_parse: "BookingState_parse E s = Some p \<Longrightarrow> abs_booking p = abs_booking s"
  by (drule BookingState_parse_core) (simp add: abs_booking_core)

lemma ready_abs: "rd_ready (deriveReadiness s) = machine_ready (abs_booking s)"
  by (simp add: deriveReadiness_def Let_def machine_ready_def abs_booking_def)

lemmas change_defs = slot_confirmation_def agreement_application_def payment_start_def access_issue_def
    access_confirmation_def access_override_def activation_def reminder_schedule_def reschedule_request_def
    reschedule_completion_def cancellation_request_def cancellation_completion_def

lemma calendar_observation_abs:
  "calendar_observation obs p = Inr m \<Longrightarrow> abs_booking m = (abs_booking p)\<lparr>am_calendar := reserved_as (kind_of obs)\<rparr>"
  by (cases obs) (auto simp: abs_booking_def)

lemma cancellation_projections_abs:
  "cl_state (cancellationCalendarProjection c co) = calendar_cancelled_as (kind_of co)"
  "py_state (cancellationPaymentProjection y ro) = refunded_as (kind_of ro)"
  by (cases co; simp) (cases ro; simp)

lemma booking_change_abs:
  assumes "booking_change E b p = Inr m"
  shows "advance (event_of b) (abs_booking p) = Some (abs_booking m)"
proof (cases b)
  case (ObserveCalendar obs)
  with assms show ?thesis by (simp add: calendar_observation_abs)
next
  case (Activate t)
  with assms show ?thesis by (auto simp: activation_def ready_abs) (simp add: abs_booking_def)
next
  case (CompleteReschedule obs t)
  with assms show ?thesis
    by (cases obs) (auto simp: reschedule_completion_def abs_booking_def)
next
  case (CompleteCancellation co ro t)
  with assms show ?thesis
    by (auto simp: cancellation_completion_def abs_booking_def cancellation_projections_abs)
qed (use assms in \<open>auto simp: change_defs abs_booking_def\<close>)

lemma callback_payment_abs:
  "abs_booking (p\<lparr>bk_payment := callback_payment p cb\<rparr>)
     = (abs_booking p)\<lparr>am_payment := payment_after (callback_kind (py_intentId (bk_payment p)) (pc_event cb)) (abs_booking p)\<rparr>"
  by (cases "pc_event cb")
    (auto simp: abs_booking_def callback_payment_def callback_kind_def Let_def checkout_open_def machine_checkout_open_def)

section \<open>Safety of the machine\<close>

definition machine_step :: "machine \<Rightarrow> machine \<Rightarrow> bool" where
  "machine_step a a' \<longleftrightarrow> (\<exists>e. advance e a = Some a')"

definition machine_inv :: "machine \<Rightarrow> bool" where
  "machine_inv a \<longleftrightarrow> (am_lifecycle a \<in> {BkCancelPending, BkCancelled} \<longrightarrow> am_payment a \<noteq> PayPaid)
     \<and> (am_lifecycle a = BkCancelled \<longleftrightarrow> am_slot a = SlotReleased)
     \<and> (am_lifecycle a \<in> {BkConfirmed, BkReschedulePending, BkCancelPending} \<longrightarrow> am_slot a = SlotConfirmed)
     \<and> (am_lifecycle a \<noteq> BkDraft \<longrightarrow> am_signed a \<and> am_payment a \<noteq> PayNotStarted)
     \<and> (am_lifecycle a \<in> {BkDraft, BkCancelled} \<longrightarrow> \<not> am_rescheduling a)
     \<and> (am_lifecycle a = BkReschedulePending \<longrightarrow> am_rescheduling a)"

lemma payment_after_facts:
  "payment_after e a = PayPaid \<Longrightarrow> am_payment a = PayPaid \<or> machine_checkout_open a"
  "payment_after e a = PayNotStarted \<Longrightarrow> am_payment a = PayNotStarted"
  by (cases e; auto split: if_splits)+

lemma refunded_as_facts [simp]: "refunded_as r \<noteq> PayPaid" "refunded_as r \<noteq> PayNotStarted"
  by (cases r; simp)+

lemma machine_inv_advance:
  assumes "machine_inv a" and "advance e a = Some a'"
  shows "machine_inv a'"
  using assms(2)
proof (induction e)
  case (EvPayment x)
  have "am_lifecycle a \<in> {BkCancelPending, BkCancelled} \<longrightarrow> payment_after x a \<noteq> PayPaid"
    and "am_lifecycle a \<noteq> BkDraft \<longrightarrow> payment_after x a \<noteq> PayNotStarted"
    using payment_after_facts[of x a] assms(1) unfolding machine_inv_def machine_checkout_open_def by blast+
  moreover have "a' = a\<lparr>am_payment := payment_after x a\<rparr>" using EvPayment by simp
  ultimately show ?case using assms(1) by (simp add: machine_inv_def)
qed (insert assms(1); cases "am_lifecycle a"; clarsimp simp: machine_inv_def machine_ready_def split: if_splits)+

lemma machine_step_inv: "machine_step a a' \<Longrightarrow> machine_inv a \<Longrightarrow> machine_inv a'"
  by (auto simp: machine_step_def machine_inv_advance)

text \<open>The edges of the lifecycle, and what the two that confirm a booking need.\<close>

definition lifecycle_edge :: "machine \<Rightarrow> machine \<Rightarrow> bool" where
  "lifecycle_edge a a' \<longleftrightarrow> am_lifecycle a' = am_lifecycle a
     \<or> (am_lifecycle a, am_lifecycle a') \<in> {(BkDraft, BkConfirmed), (BkConfirmed, BkReschedulePending),
          (BkReschedulePending, BkConfirmed), (BkConfirmed, BkCancelPending), (BkReschedulePending, BkCancelPending),
          (BkCancelPending, BkCancelled)}"

lemma advance_edge:
  assumes "machine_inv a" and "advance e a = Some a'"
  shows "lifecycle_edge a a'"
  using assms(2)
proof (induction e)
  case EvActivated
  with assms(1) show ?case
    by (cases "am_lifecycle a"; clarsimp simp: machine_inv_def machine_ready_def lifecycle_edge_def)
qed (auto simp: lifecycle_edge_def split: if_splits)

lemma advance_confirms:
  "advance e a = Some a' \<Longrightarrow> am_lifecycle a' = BkConfirmed \<Longrightarrow> am_lifecycle a \<noteq> BkConfirmed
     \<Longrightarrow> (e = EvActivated \<and> machine_ready a)
       \<or> (e = EvRescheduleObserved OutAccepted \<and> am_lifecycle a = BkReschedulePending \<and> am_rescheduling a)"
  by (cases e) (auto split: if_splits)

lemma cancelled_advance:
  "machine_inv a \<Longrightarrow> am_lifecycle a = BkCancelled \<Longrightarrow> advance e a = Some a' \<Longrightarrow> am_lifecycle a' = BkCancelled"
  using advance_edge[of a e a'] by (auto simp: lifecycle_edge_def)

section \<open>Reachable bookings\<close>

definition initial_machine :: machine where
  "initial_machine = \<lparr>am_lifecycle = BkDraft, am_slot = SlotHeld, am_signed = False, am_payment = PayNotStarted,
     am_calendar = CalNotRequested, am_access = AccNotRequested, am_rescheduling = False\<rparr>"

lemma createBooking_frozen:
  assumes "createBooking E i = Inr s"
  obtains m where "freezeBooking E m = Inr s" "abs_booking m = initial_machine" "ag_snapshot (bk_agreement m) = None"
    "bk_revision m = 0"
  using assms by (auto simp: createBooking_def abs_booking_def initial_machine_def)

lemma createBooking_abs: "createBooking E i = Inr s \<Longrightarrow> abs_booking s = initial_machine"
  by (erule createBooking_frozen) (metis freezeBooking_core(1) abs_booking_core)

lemma run_booking_abs:
  assumes "run_booking E s c b = Inr (s', False)"
  shows "advance (event_of b) (abs_booking s) = Some (abs_booking s')"
  using assms by (rule run_booking_applied) (metis abs_booking_core abs_booking_parse booking_change_abs)

lemma applyPaymentCallback_abs:
  assumes "applyPaymentCallback E s cb = Inr (s', False)"
  shows "\<exists>p. BookingState_parse E s = Some p
    \<and> advance (EvPayment (callback_kind (py_intentId (bk_payment p)) (pc_event cb))) (abs_booking s) = Some (abs_booking s')"
  using assms
proof (rule applyPaymentCallback_applied)
  fix p
  assume p: "BookingState_parse E s = Some p" and "same_core (p\<lparr>bk_payment := callback_payment p cb\<rparr>) s'"
  then show ?thesis using abs_booking_parse[OF p] by (simp add: abs_booking_core callback_payment_abs)
qed

lemma booking_step_machine:
  assumes "booking_step E s s'"
  shows "s' = s \<or> machine_step (abs_booking s) (abs_booking s')"
  using assms unfolding machine_step_def
  by (rule booking_step_cases) (blast dest: run_booking_abs applyPaymentCallback_abs)+

definition reachable_booking :: "env \<Rightarrow> booking_state \<Rightarrow> bool" where
  "reachable_booking E s \<longleftrightarrow> (\<exists>i s0. createBooking E i = Inr s0 \<and> (booking_step E)\<^sup>*\<^sup>* s0 s)"

lemma reachable_induct [consumes 1, case_names create step]:
  assumes "reachable_booking E s"
    and "\<And>i s. createBooking E i = Inr s \<Longrightarrow> P s"
    and "\<And>s s'. reachable_booking E s \<Longrightarrow> P s \<Longrightarrow> booking_step E s s' \<Longrightarrow> P s'"
  shows "P s"
proof -
  from assms(1) obtain i s0 where c: "createBooking E i = Inr s0" and "(booking_step E)\<^sup>*\<^sup>* s0 s"
    unfolding reachable_booking_def by blast
  from this(2) show ?thesis
  proof (induction rule: rtranclp_induct)
    case base
    show ?case using assms(2)[OF c] .
  next
    case (step y z)
    then have "reachable_booking E y" using c unfolding reachable_booking_def by blast
    with assms(3) step show ?case by blast
  qed
qed

lemma reachable_booking_steps: "reachable_booking E s \<Longrightarrow> (booking_step E)\<^sup>*\<^sup>* s t \<Longrightarrow> reachable_booking E t"
  unfolding reachable_booking_def by (meson rtranclp_trans)

lemma initial_machine_inv: "machine_inv initial_machine"
  by (simp add: machine_inv_def initial_machine_def)

lemma reachable_machine_inv: "reachable_booking E s \<Longrightarrow> machine_inv (abs_booking s)"
proof (induction rule: reachable_induct)
  case (create i s)
  then show ?case using initial_machine_inv by (simp add: createBooking_abs)
next
  case (step s s')
  then show ?case using booking_step_machine machine_step_inv by metis
qed

lemma reachable_readiness: "reachable_booking E s \<Longrightarrow> bk_readiness s = deriveReadiness s"
proof (induction rule: reachable_induct)
  case (create i s)
  then show ?case by (rule createBooking_frozen) (rule freezeBooking_core(7))
next
  case (step s s')
  from step(2) show ?case
    by (rule booking_step_cases)
      (use step(3) in simp, erule run_booking_applied, assumption, erule applyPaymentCallback_applied, assumption)
qed

lemma machine_step_edge: "reachable_booking E s \<Longrightarrow> booking_step E s s' \<Longrightarrow> lifecycle_edge (abs_booking s) (abs_booking s')"
  using booking_step_machine[of E s s'] advance_edge[OF reachable_machine_inv]
  by (auto simp: machine_step_def lifecycle_edge_def)

lemma cancelled_forever:
  assumes "(booking_step E)\<^sup>*\<^sup>* s t" and "reachable_booking E s" and "bk_lifecycle s = BkCancelled"
  shows "bk_lifecycle t = BkCancelled"
  using assms(1,3)
proof (induction rule: rtranclp_induct)
  case (step y z)
  have "lifecycle_edge (abs_booking y) (abs_booking z)"
    using machine_step_edge[OF reachable_booking_steps[OF assms(2) step(1)] step(2)] .
  then show ?case using step by (auto simp: lifecycle_edge_def abs_booking_def)
qed simp

end
