(* ===== verification/Booking_Forms.thy ===== *)
theory Booking_Forms
  imports Booking_Machine
begin

text \<open>
  The stored form of a booking: every schema of \<open>packages/booking/src/schemas.ts\<close> is stable (a
  parsed value parses to itself), so a frozen booking is a fixed point of its schema, and whether a
  changed booking is one depends only on the components that changed.
\<close>

section \<open>Stability of the schemas\<close>

lemma PropertyQuoteInput_stable: "PropertyQuoteInput_parse a = Some b \<Longrightarrow> PropertyQuoteInput_parse b = Some b"
  by (auto simp: PropertyQuoteInput_parse_def split: if_splits simp: text_parse_stable)

lemma QuoteLineItem_stable:
  assumes "QuoteLineItem_parse a = Some b"
  shows "QuoteLineItem_parse b = Some b" "li_module b = li_module a" "li_amountCents b = li_amountCents a"
  using assms by (auto simp: QuoteLineItem_parse_def split: if_splits simp: text_parse_stable)

lemma quote_total_cong: "map li_amountCents xs = map li_amountCents ys \<Longrightarrow> quote_total xs = quote_total ys"
  unfolding quote_total_def by (metis foldl_map)

lemma QuoteSnapshot_stable:
  assumes "QuoteSnapshot_parse E a = Some b"
  shows "QuoteSnapshot_parse E b = Some b"
proof -
  from assms obtain p items where p: "PropertyQuoteInput_parse (qt_property a) = Some p"
    and i: "traverse QuoteLineItem_parse (qt_lineItems a) = Some items" and b: "b = a\<lparr>qt_property := p, qt_lineItems := items\<rparr>"
    by (auto simp: QuoteSnapshot_parse_def bind_eq_Some_conv split: if_splits)
  have "map li_module items = map li_module (qt_lineItems a)" "length items = length (qt_lineItems a)"
    "quote_total items = quote_total (qt_lineItems a)"
    using traverse_map_same[OF i QuoteLineItem_stable(2)] traverse_length[OF i]
      quote_total_cong[OF traverse_map_same[OF i QuoteLineItem_stable(3)]] by auto
  then show ?thesis
    using assms PropertyQuoteInput_stable[OF p] traverse_stable[OF QuoteLineItem_stable(1) i]
    by (simp add: QuoteSnapshot_parse_def b p i split: if_splits)
qed

lemma ContactSnapshot_stable: "ContactSnapshot_parse E a = Some b \<Longrightarrow> ContactSnapshot_parse E b = Some b"
  by (auto simp: ContactSnapshot_parse_def bind_eq_Some_conv split: if_splits simp: text_parse_stable sized_text_parse_stable)

lemma RoleAssignment_stable: "RoleAssignment_parse E a = Some b \<Longrightarrow> RoleAssignment_parse E b = Some b"
  by (auto simp: RoleAssignment_parse_def split: if_splits simp: ContactSnapshot_stable)

lemma AssignedInspector_stable: "AssignedInspector_parse E a = Some b \<Longrightarrow> AssignedInspector_parse E b = Some b"
  by (auto simp: AssignedInspector_parse_def bind_eq_Some_conv split: if_splits simp: text_parse_stable)

lemma BookingParticipants_stable:
  assumes "BookingParticipants_parse E a = Some b"
  shows "BookingParticipants_parse E b = Some b"
proof -
  from assms obtain c r i x n where d: "distinct [ra_assignmentId (pt_client a), ra_assignmentId (pt_reportRecipient a),
        ra_assignmentId (pt_invoiceContact a), ra_assignmentId (pt_accessContact a)]"
    and p: "RoleAssignment_parse E (pt_client a) = Some c" "RoleAssignment_parse E (pt_reportRecipient a) = Some r"
      "RoleAssignment_parse E (pt_invoiceContact a) = Some i" "RoleAssignment_parse E (pt_accessContact a) = Some x"
    and n: "AssignedInspector_parse E (pt_assignedInspector a) = Some n"
    and b: "b = \<lparr>pt_client = c, pt_reportRecipient = r, pt_invoiceContact = i, pt_accessContact = x, pt_assignedInspector = n\<rparr>"
    unfolding BookingParticipants_parse_def by (simp only: bind_eq_Some_conv split: if_splits) blast+
  have "distinct [ra_assignmentId c, ra_assignmentId r, ra_assignmentId i, ra_assignmentId x]"
    using d p[THEN RoleAssignment_parse_keeps] by simp
  then show ?thesis
    by (simp add: BookingParticipants_parse_def b p[THEN RoleAssignment_stable] AssignedInspector_stable[OF n])
qed

lemma PropertySnapshot_stable: "PropertySnapshot_parse E a = Some b \<Longrightarrow> PropertySnapshot_parse E b = Some b"
  by (auto simp: PropertySnapshot_parse_def bind_eq_Some_conv split: if_splits simp: text_parse_stable sized_text_parse_stable)

lemma BookingInput_stable: "BookingInput_parse E a = Some b \<Longrightarrow> BookingInput_parse E b = Some b"
  by (auto simp: BookingInput_parse_def bind_eq_Some_conv split: if_splits simp: QuoteSnapshot_stable PropertySnapshot_stable BookingParticipants_stable)

lemma AgreementProjection_stable: "AgreementProjection_parse E a = Some b \<Longrightarrow> AgreementProjection_parse E b = Some b"
  by (auto simp: AgreementProjection_parse_def nullable_def split: if_splits option.splits simp: SignedAgreement_parse_hash(2))

lemma PaymentProjection_stable: "PaymentProjection_parse a = Some b \<Longrightarrow> PaymentProjection_parse b = Some b"
  by (auto simp: PaymentProjection_parse_def bind_eq_Some_conv split: if_splits simp: nullable_stable[OF text_parse_stable])

lemma CalendarProjection_stable: "CalendarProjection_parse a = Some b \<Longrightarrow> CalendarProjection_parse b = Some b"
  by (auto simp: CalendarProjection_parse_def bind_eq_Some_conv simp: nullable_stable[OF text_parse_stable])

lemma AccessProjection_stable:
  assumes "AccessProjection_parse E a = Some b"
  shows "AccessProjection_parse E b = Some b"
proof -
  from assms obtain r where r: "nullable (text_parse 4000) (ax_overrideReason a) = Some r"
    and b: "b = a\<lparr>ax_overrideReason := r\<rparr>" by (auto simp: AccessProjection_parse_def split: if_splits)
  show ?thesis using assms
    by (simp add: AccessProjection_parse_def b nullable_stable[OF text_parse_stable r] split: if_splits)
qed

lemma ReadinessAction_stable: "ReadinessAction_parse a = Some b \<Longrightarrow> ReadinessAction_parse b = Some b"
  by (auto simp: ReadinessAction_parse_def simp: text_parse_stable)

lemma Readiness_stable: "Readiness_parse a = Some b \<Longrightarrow> Readiness_parse b = Some b"
  by (auto simp: Readiness_parse_def split: if_splits simp: traverse_stable[OF ReadinessAction_stable])

lemma RescheduleProjection_stable: "RescheduleProjection_parse E a = Some b \<Longrightarrow> RescheduleProjection_parse E b = Some b"
  by (auto simp: RescheduleProjection_parse_def split: if_splits simp: nullable_stable[OF text_parse_stable])

lemma CallbackReceipt_stable: "CallbackReceipt_parse a = Some b \<Longrightarrow> CallbackReceipt_parse b = Some b"
  by (auto simp: CallbackReceipt_parse_def split: if_splits simp: text_parse_stable)

section \<open>Well-formed bookings\<close>

definition booking_wf :: "env \<Rightarrow> booking_state \<Rightarrow> bool" where
  "booking_wf E s \<longleftrightarrow> z_uuid E (bk_bookingId s) \<and> z_uuid E (bk_organizationId s) \<and> nonneg_int (bk_revision s)
     \<and> BookingSlot_ok E (bk_slot s) \<and> list_all (SlotHistoryEntry_ok E) (bk_slotHistory s)
     \<and> NotificationProjection_ok E (bk_notifications s)
     \<and> BookingInput_parse E (bk_input s) = Some (bk_input s) \<and> QuoteSnapshot_parse E (bk_quote s) = Some (bk_quote s)
     \<and> AgreementProjection_parse E (bk_agreement s) = Some (bk_agreement s)
     \<and> PaymentProjection_parse (bk_payment s) = Some (bk_payment s)
     \<and> CalendarProjection_parse (bk_calendar s) = Some (bk_calendar s)
     \<and> AccessProjection_parse E (bk_access s) = Some (bk_access s)
     \<and> Readiness_parse (bk_readiness s) = Some (bk_readiness s)
     \<and> nullable (RescheduleProjection_parse E) (bk_reschedule s) = Some (bk_reschedule s)
     \<and> nullable (text_parse 4000) (bk_cancellationReason s) = Some (bk_cancellationReason s)
     \<and> traverse CommandReceipt_parse (bk_commandReceipts s) = Some (bk_commandReceipts s)
     \<and> traverse CallbackReceipt_parse (bk_providerCallbackReceipts s) = Some (bk_providerCallbackReceipts s)
     \<and> booking_digest E (quote_json (bk_quote s)) = booking_digest E (quote_json (bi_quote (bk_input s)))"

lemma booking_wf_parse: "booking_wf E s \<Longrightarrow> BookingState_parse E s = Some s"
  by (simp add: booking_wf_def BookingState_parse_def)

lemma BookingState_parse_wf:
  assumes "BookingState_parse E s = Some t"
  shows "booking_wf E t"
proof -
  have "z_uuid E (bk_bookingId s) \<and> z_uuid E (bk_organizationId s) \<and> nonneg_int (bk_revision s)
     \<and> BookingSlot_ok E (bk_slot s) \<and> list_all (SlotHistoryEntry_ok E) (bk_slotHistory s)
     \<and> NotificationProjection_ok E (bk_notifications s)"
    using assms by (simp add: BookingState_parse_def split: if_splits)
  note ok = this
  from assms show ?thesis
  proof (rule BookingState_parse_SomeE)
    fix i q a p c x r z k rs cs
    assume t: "t = s\<lparr>bk_input := i, bk_quote := q, bk_agreement := a, bk_payment := p, bk_calendar := c,
           bk_access := x, bk_readiness := r, bk_reschedule := z, bk_cancellationReason := k,
           bk_commandReceipts := rs, bk_providerCallbackReceipts := cs\<rparr>"
      and f: "BookingInput_parse E (bk_input s) = Some i" "QuoteSnapshot_parse E (bk_quote s) = Some q"
    "AgreementProjection_parse E (bk_agreement s) = Some a" "PaymentProjection_parse (bk_payment s) = Some p"
    "CalendarProjection_parse (bk_calendar s) = Some c" "AccessProjection_parse E (bk_access s) = Some x"
    "Readiness_parse (bk_readiness s) = Some r" "nullable (RescheduleProjection_parse E) (bk_reschedule s) = Some z"
    "traverse CommandReceipt_parse (bk_commandReceipts s) = Some rs"
    "traverse CallbackReceipt_parse (bk_providerCallbackReceipts s) = Some cs"
    "booking_digest E (quote_json q) = booking_digest E (quote_json (bi_quote i))"
    from assms have k: "nullable (text_parse 4000) (bk_cancellationReason s) = Some (bk_cancellationReason t)"
      by (auto simp: BookingState_parse_def bind_eq_Some_conv split: if_splits)
    show ?thesis unfolding booking_wf_def
      using ok BookingInput_stable[OF f(1)] QuoteSnapshot_stable[OF f(2)] AgreementProjection_stable[OF f(3)]
        PaymentProjection_stable[OF f(4)] CalendarProjection_stable[OF f(5)] AccessProjection_stable[OF f(6)]
        Readiness_stable[OF f(7)] nullable_stable[OF RescheduleProjection_stable f(8)]
        traverse_stable[OF CommandReceipt_stable f(9)] traverse_stable[OF CallbackReceipt_stable f(10)] f(11)
        nullable_stable[OF text_parse_stable k]
      by (simp add: t)
  qed
qed

lemma BookingState_stable: "BookingState_parse E s = Some t \<Longrightarrow> BookingState_parse E t = Some t"
  by (rule booking_wf_parse) (rule BookingState_parse_wf)

lemma freezeBooking_wf: "freezeBooking E s = Inr t \<Longrightarrow> booking_wf E t"
  by (auto simp: freezeBooking_def intro: BookingState_parse_wf)

lemma reachable_wf: "reachable_booking E s \<Longrightarrow> booking_wf E s"
proof (induction rule: reachable_induct)
  case (create i s)
  then show ?case by (rule createBooking_frozen) (rule freezeBooking_wf)
next
  case (step s s')
  from step(2) show ?case
  proof (rule booking_step_cases)
    fix c b
    assume "run_booking E s c b = Inr (s', False)"
    then show ?thesis by (rule run_booking_Inr) (auto intro: freezeBooking_wf)
  next
    fix cb
    assume "applyPaymentCallback E s cb = Inr (s', False)"
    then show ?thesis by (rule applyPaymentCallback_Inr) (auto intro: freezeBooking_wf)
  qed (use step(3) in simp)
qed

text \<open>Evaluation of a command on a well-formed booking, component by component.\<close>

lemma freezeBooking_eval: "booking_wf E (s\<lparr>bk_readiness := deriveReadiness s\<rparr>) \<Longrightarrow> freezeBooking E s = Inr (s\<lparr>bk_readiness := deriveReadiness s\<rparr>)"
  by (simp add: freezeBooking_def booking_wf_parse)

lemma run_booking_eval:
  assumes "booking_wf E s" and "booking_change E b s = Inr m" and "booking_request E (c, b) = Inr h"
    and "list_all (\<lambda>r. rc_idempotencyKey r \<noteq> cm_idempotencyKey c) (bk_commandReceipts s)"
    and "cm_expectedRevision c = bk_revision s"
    and "t = m\<lparr>bk_revision := bk_revision s + 1,
        bk_commandReceipts := bk_commandReceipts s @ [\<lparr>rc_idempotencyKey = cm_idempotencyKey c, rc_requestFingerprint = h\<rparr>],
        bk_readiness := deriveReadiness m\<rparr>"
    and "booking_wf E t"
  shows "run_booking E s c b = Inr (t, False)"
proof -
  have "List.find (\<lambda>r. rc_idempotencyKey r = cm_idempotencyKey c) (bk_commandReceipts s) = None"
    using assms(4) by (auto simp: find_None_iff list_all_iff)
  then have d: "inspectCommand E (bk_revision s) (bk_commandReceipts s) c (fst (booking_operation b)) (snd (booking_operation b))
      = Inr (False, \<lparr>rc_idempotencyKey = cm_idempotencyKey c, rc_requestFingerprint = h\<rparr>)"
    using assms(3,5) by (simp add: inspectCommand_def booking_request_def Let_def)
  let ?m = "m\<lparr>bk_revision := bk_revision s + 1,
        bk_commandReceipts := bk_commandReceipts s @ [\<lparr>rc_idempotencyKey = cm_idempotencyKey c, rc_requestFingerprint = h\<rparr>]\<rparr>"
  have "deriveReadiness ?m = deriveReadiness m" by (rule deriveReadiness_core) (simp add: same_core_def booking_client_def)
  then have "freezeBooking E ?m = Inr t" using freezeBooking_eval[of E ?m] assms(6,7) by simp
  then show ?thesis
    by (simp add: run_booking_transition transition_def booking_wf_parse[OF assms(1)] d assms(2))
qed

lemma applyPaymentCallback_eval:
  assumes "booking_wf E s" and "callback_request E cb = Inr h"
    and "list_all (\<lambda>r. cr_providerEventId r \<noteq> pc_providerEventId cb) (bk_providerCallbackReceipts s)"
    and "t = s\<lparr>bk_revision := bk_revision s + 1, bk_payment := callback_payment s cb,
        bk_providerCallbackReceipts := bk_providerCallbackReceipts s
             @ [\<lparr>cr_providerEventId = pc_providerEventId cb, cr_requestFingerprint = h\<rparr>],
        bk_readiness := deriveReadiness (s\<lparr>bk_payment := callback_payment s cb\<rparr>)\<rparr>"
    and "booking_wf E t"
  shows "applyPaymentCallback E s cb = Inr (t, False)"
proof -
  have n: "List.find (\<lambda>r. cr_providerEventId r = pc_providerEventId cb) (bk_providerCallbackReceipts s) = None"
    using assms(3) by (auto simp: find_None_iff list_all_iff)
  let ?m = "s\<lparr>bk_revision := bk_revision s + 1, bk_payment := callback_payment s cb,
           bk_providerCallbackReceipts := bk_providerCallbackReceipts s
             @ [\<lparr>cr_providerEventId = pc_providerEventId cb, cr_requestFingerprint = h\<rparr>]\<rparr>"
  have "deriveReadiness ?m = deriveReadiness (s\<lparr>bk_payment := callback_payment s cb\<rparr>)"
    by (rule deriveReadiness_core) (simp add: same_core_def booking_client_def)
  then have "freezeBooking E ?m = Inr t" using freezeBooking_eval[of E ?m] assms(4,5) by simp
  then show ?thesis using assms(2)
    by (simp add: applyPaymentCallback_def booking_wf_parse[OF assms(1)] n callback_request_def)
qed

end
