(* ===== verification/Quotes.thy ===== *)
theory Quotes
  imports Booking_Forms
begin

text \<open>
  The properties of quotes (\<open>packages/booking/src/quote.ts\<close>): a quote is priced by published rules,
  module by module, and its total is the sum of its items.
\<close>

section \<open>Pricing\<close>

definition price_of :: "module_price_rule \<Rightarrow> property_quote_input \<Rightarrow> int" where
  "price_of r p = rl_baseAmountCents r + max 0 (qp_storeys p - 1) * rl_additionalStoreyAmountCents r
     + max 0 (qp_bedrooms p - 4) * rl_additionalBedroomOverFourAmountCents r"

definition rule_of :: "quote_rule_version \<Rightarrow> module_type \<Rightarrow> module_price_rule" where
  "rule_of r m = (case m of Building \<Rightarrow> qr_building r | TimberPest \<Rightarrow> qr_timberPest r)"

text \<open>The base amount and both surcharges are natural numbers of cents.\<close>

definition nonnegative_rule :: "module_price_rule \<Rightarrow> bool" where
  "nonnegative_rule r \<longleftrightarrow> 0 \<le> rl_baseAmountCents r \<and> 0 \<le> rl_additionalStoreyAmountCents r
     \<and> 0 \<le> rl_additionalBedroomOverFourAmountCents r"

lemma line_item_for_price: "li_amountCents (line_item_for r p m) = price_of (rule_of r m) p" "li_module (line_item_for r p m) = m"
  by (cases m; simp add: line_item_for_def price_of_def rule_of_def Let_def)+

lemma ModulePriceRule_parse_price:
  assumes "ModulePriceRule_parse r = Some r'"
  shows "price_of r' p = price_of r p"
    and "0 \<le> rl_baseAmountCents r'" "0 \<le> rl_additionalStoreyAmountCents r'" "0 \<le> rl_additionalBedroomOverFourAmountCents r'"
    and "nonnegative_rule r"
  using assms by (auto simp: ModulePriceRule_parse_def price_of_def nonnegative_rule_def nonneg_int_def split: if_splits)

lemma QuoteRuleVersion_parse_prices:
  assumes "QuoteRuleVersion_parse E r = Some r'"
  shows "price_of (rule_of r' m) p = price_of (rule_of r m) p" and "0 \<le> price_of (rule_of r' m) p"
    and "qr_status r' = qr_status r" and "qr_publishedAt r' = qr_publishedAt r"
    and "nonnegative_rule (rule_of r m)"
proof -
  from assms obtain b t where p: "ModulePriceRule_parse (qr_building r) = Some b" "ModulePriceRule_parse (qr_timberPest r) = Some t"
    and r': "r' = r\<lparr>qr_building := b, qr_timberPest := t\<rparr>"
    by (auto simp: QuoteRuleVersion_parse_def bind_eq_Some_conv split: if_splits)
  show "price_of (rule_of r' m) p = price_of (rule_of r m) p"
    using ModulePriceRule_parse_price(1)[OF p(1)] ModulePriceRule_parse_price(1)[OF p(2)] by (cases m) (simp_all add: rule_of_def r')
  show "0 \<le> price_of (rule_of r' m) p"
    using ModulePriceRule_parse_price(2-4)[OF p(1)] ModulePriceRule_parse_price(2-4)[OF p(2)]
    by (cases m) (simp_all add: rule_of_def r' price_of_def)
  show "qr_status r' = qr_status r" and "qr_publishedAt r' = qr_publishedAt r" by (simp_all add: r')
  show "nonnegative_rule (rule_of r m)"
    using ModulePriceRule_parse_price(5)[OF p(1)] ModulePriceRule_parse_price(5)[OF p(2)] by (cases m) (simp_all add: rule_of_def)
qed

lemma quote_total_sum: "quote_total items = sum_list (map li_amountCents items)"
proof -
  have "foldl (\<lambda>t i. t + li_amountCents i) n items = n + sum_list (map li_amountCents items)" for n
    by (induction items arbitrary: n) auto
  then show ?thesis by (simp add: quote_total_def)
qed

lemma QuoteSnapshot_parse_items:
  assumes "QuoteSnapshot_parse E a = Some b"
  shows "map li_amountCents (qt_lineItems b) = map li_amountCents (qt_lineItems a)"
    "map li_module (qt_lineItems b) = map li_module (qt_lineItems a)" "quote_total (qt_lineItems b) = qt_totalAmountCents b"
    "qt_totalAmountCents b = qt_totalAmountCents a" "0 \<le> qt_totalAmountCents b \<and> qt_totalAmountCents b \<le> max_safe_integer"
proof -
  from assms obtain p items where i: "traverse QuoteLineItem_parse (qt_lineItems a) = Some items"
    and b: "b = a\<lparr>qt_property := p, qt_lineItems := items\<rparr>"
    and ok: "quote_total (qt_lineItems a) = qt_totalAmountCents a" "nonneg_int (qt_totalAmountCents a)"
    by (auto simp: QuoteSnapshot_parse_def bind_eq_Some_conv split: if_splits)
  show c: "map li_amountCents (qt_lineItems b) = map li_amountCents (qt_lineItems a)"
    using traverse_map_same[OF i QuoteLineItem_stable(3)] by (simp add: b)
  show "map li_module (qt_lineItems b) = map li_module (qt_lineItems a)"
    using traverse_map_same[OF i QuoteLineItem_stable(2)] by (simp add: b)
  show "quote_total (qt_lineItems b) = qt_totalAmountCents b" using quote_total_cong[OF c] ok by (simp add: b)
  show "qt_totalAmountCents b = qt_totalAmountCents a" by (simp add: b)
  show "0 \<le> qt_totalAmountCents b \<and> qt_totalAmountCents b \<le> max_safe_integer"
    using ok(2) by (simp add: b nonneg_int_def safe_int_def)
qed

section \<open>Properties\<close>

definition sample_rule :: "string \<Rightarrow> module_price_rule" where
  "sample_rule l = \<lparr>rl_label = l, rl_baseAmountCents = 40000, rl_additionalStoreyAmountCents = 5000,
     rl_additionalBedroomOverFourAmountCents = 2500\<rparr>"

definition sample_rules :: quote_rule_version where
  "sample_rules = \<lparr>qr_ruleSetId = ''r'', qr_version = 1, qr_status = VersionPublished, qr_publishedAt = Some ''t'',
     qr_building = sample_rule ''B'', qr_timberPest = sample_rule ''P''\<rparr>"

definition sample_quote_input :: quote_input where
  "sample_quote_input = \<lparr>qi_quoteId = ''q'', qi_rules = sample_rules, qi_commissionedModules = [Building, TimberPest],
     qi_property = \<lparr>qp_propertyType = Duplex, qp_storeys = 2, qp_bedrooms = 6, qp_suburb = ''Kew'', qp_postcode = ''3101''\<rparr>,
     qi_createdAt = ''2026-07-15T00:00:00Z'', qi_expiresAt = ''2026-07-30T00:00:00Z''\<rparr>"

definition sample_created_quote :: quote_snapshot where
  "sample_created_quote = projr (createQuote sample_env sample_quote_input)"

lemma sample_created_quote_ok: "createQuote sample_env sample_quote_input = Inr sample_created_quote"
  unfolding sample_created_quote_def by (rule projr_eqI) code_simp

text \<open>C10: a quote is made only from a published rule version and before it expires; it has exactly one
  item per commissioned module, in that order, each priced as the base amount plus a surcharge per
  storey above the first and per bedroom above the fourth, where the base amount and both surcharges
  of either module's rule are not negative, and its total is their sum, a non-negative safe integer
  no item exceeds.\<close>

theorem quote_priced_by_rules:
  assumes "createQuote E i = Inr q"
  shows "qr_status (qi_rules i) = VersionPublished \<and> qr_publishedAt (qi_rules i) \<noteq> None
    \<and> \<not> date_le (date_parse E (qi_expiresAt i)) (date_parse E (qi_createdAt i))
    \<and> map li_module (qt_lineItems q) = qi_commissionedModules i
    \<and> map li_amountCents (qt_lineItems q) = map (\<lambda>m. price_of (rule_of (qi_rules i) m) (qi_property i)) (qi_commissionedModules i)
    \<and> nonnegative_rule (rule_of (qi_rules i) m)
    \<and> qt_totalAmountCents q = sum_list (map li_amountCents (qt_lineItems q))
    \<and> 0 \<le> qt_totalAmountCents q \<and> qt_totalAmountCents q \<le> max_safe_integer
    \<and> (\<forall>x \<in> set (qt_lineItems q). 0 \<le> li_amountCents x \<and> li_amountCents x \<le> qt_totalAmountCents q)"
proof -
  from assms obtain r where r: "QuoteRuleVersion_parse E (qi_rules i) = Some r"
    and s: "qr_status r = VersionPublished" "qr_publishedAt r \<noteq> None"
    and d: "\<not> date_le (date_parse E (qi_expiresAt i)) (date_parse E (qi_createdAt i))"
    and q: "QuoteSnapshot_parse E
       \<lparr>qt_quoteId = qi_quoteId i, qt_ruleSetId = qr_ruleSetId r, qt_ruleVersion = qr_version r,
         qt_commissionedModules = qi_commissionedModules i, qt_property = qi_property i,
         qt_lineItems = map (line_item_for r (qi_property i)) (qi_commissionedModules i),
         qt_totalAmountCents = quote_total (map (line_item_for r (qi_property i)) (qi_commissionedModules i)),
         qt_createdAt = qi_createdAt i, qt_expiresAt = qi_expiresAt i\<rparr> = Some q"
    by (auto simp: createQuote_def Let_def)
  note k = QuoteSnapshot_parse_items[OF q] and pr = QuoteRuleVersion_parse_prices[OF r]
  have amounts: "map li_amountCents (qt_lineItems q)
      = map (\<lambda>m. price_of (rule_of (qi_rules i) m) (qi_property i)) (qi_commissionedModules i)"
    using k(1) by (simp add: line_item_for_price pr(1) comp_def)
  have nonneg: "0 \<le> li_amountCents x" if "x \<in> set (qt_lineItems q)" for x
  proof -
    have "li_amountCents x \<in> set (map li_amountCents (qt_lineItems q))" using that by simp
    then show ?thesis unfolding amounts using pr(1,2) by auto
  qed
  have total: "qt_totalAmountCents q = sum_list (map li_amountCents (qt_lineItems q))"
    using k(3) by (simp add: quote_total_sum)
  have "li_amountCents x \<le> qt_totalAmountCents q" if "x \<in> set (qt_lineItems q)" for x
    unfolding total using nonneg that by (intro member_le_sum_list) auto
  moreover have "map li_module (qt_lineItems q) = qi_commissionedModules i"
    using k(2) by (simp add: line_item_for_price comp_def)
  ultimately show ?thesis using s pr(3-5) d amounts total nonneg k(5) by simp
qed

lemma quote_priced_by_rules_witness: "map li_amountCents (qt_lineItems sample_created_quote) = [50000, 50000]"
proof -
  have "map (\<lambda>m. price_of (rule_of (qi_rules sample_quote_input) m) (qi_property sample_quote_input))
      (qi_commissionedModules sample_quote_input) = [50000, 50000]" by code_simp
  then show ?thesis using quote_priced_by_rules[OF sample_created_quote_ok] by simp
qed

text \<open>Publishing applies to an unpublished draft only, keeps every price and stamps the publication
  time; a published rule version is never published again.\<close>

theorem rules_published_once:
  assumes "publishQuoteRuleVersion E r publishedAt = Inr r'"
  shows "qr_status r = VersionDraft \<and> qr_publishedAt r = None \<and> qr_status r' = VersionPublished
    \<and> qr_publishedAt r' = Some publishedAt \<and> price_of (rule_of r' m) p = price_of (rule_of r m) p
    \<and> publishQuoteRuleVersion E r' again \<noteq> Inr r''"
proof -
  from assms obtain d where d: "QuoteRuleVersion_parse E r = Some d" "qr_status d = VersionDraft" "qr_publishedAt d = None"
    and r': "QuoteRuleVersion_parse E (d\<lparr>qr_status := VersionPublished, qr_publishedAt := Some publishedAt\<rparr>) = Some r'"
    by (auto simp: publishQuoteRuleVersion_def)
  note a = QuoteRuleVersion_parse_prices[OF d(1)] and b = QuoteRuleVersion_parse_prices[OF r']
  have "rule_of (d\<lparr>qr_status := VersionPublished, qr_publishedAt := Some publishedAt\<rparr>) m = rule_of d m"
    by (cases m) (simp_all add: rule_of_def)
  then have "price_of (rule_of r' m) p = price_of (rule_of r m) p" using a(1) b(1) by simp
  moreover have "publishQuoteRuleVersion E r' again \<noteq> Inr r''"
    using b(3) by (auto simp: publishQuoteRuleVersion_def dest: QuoteRuleVersion_parse_prices(3))
  ultimately show ?thesis using a(3,4) b(3,4) d(2,3) by simp
qed

definition sample_draft_rules :: quote_rule_version where
  "sample_draft_rules = sample_rules\<lparr>qr_status := VersionDraft, qr_publishedAt := None\<rparr>"

lemma rules_published_once_witness: "publishQuoteRuleVersion sample_env sample_rules ''u'' \<noteq> Inr sample_rules"
proof -
  have "publishQuoteRuleVersion sample_env sample_draft_rules ''t'' = Inr sample_rules" by code_simp
  from rules_published_once[OF this] show ?thesis by blast
qed

end
