(* ===== verification/Bookings.thy ===== *)
theory Bookings
  imports Booking_Forms
begin

text \<open>
  The properties of bookings: what every reachable booking satisfies, which steps confirm a booking,
  that a cancellation is final, what the signed agreement binds, that retired access links never
  confirm, and that commands and provider callbacks are applied at most once.
\<close>

section \<open>What every change keeps\<close>

lemma booking_change_identity:
  "booking_change E b p = Inr m \<Longrightarrow> bk_bookingId m = bk_bookingId p \<and> bk_organizationId m = bk_organizationId p
     \<and> booking_client m = booking_client p \<and> bk_quote m = bk_quote p
     \<and> set (ax_supersededLinkIds (bk_access p)) \<subseteq> set (ax_supersededLinkIds (bk_access m))"
  by (cases b) (auto simp: change_defs booking_client_def retired_links_def split: observation.splits option.splits
    elim!: calendar_observation.elims)

lemma booking_change_agreement:
  assumes "booking_change E b p = Inr m" and "bk_agreement m \<noteq> bk_agreement p"
  shows "\<exists>a x. b = SignAgreement a \<and> SignedAgreement_parse E a = Some x \<and> bk_agreement m = \<lparr>ag_signed = True, ag_snapshot = Some x\<rparr>
    \<and> verified_agreement E x = Inr True \<and> sa_bookingId x = bk_bookingId p \<and> sa_organizationId x = bk_organizationId p
    \<and> (sg_assignmentId (sa_signer x), sg_contactId (sa_signer x)) = booking_client p
    \<and> join '','' (map module_text (sa_commissionedModules x)) = join '','' (map module_text (qt_commissionedModules (bk_quote p)))"
  using assms by (cases b) (auto simp: change_defs booking_client_def Let_def split: observation.splits
    elim!: calendar_observation.elims)

lemma superseded_step:
  assumes "booking_step E s s'"
  shows "set (ax_supersededLinkIds (bk_access s)) \<subseteq> set (ax_supersededLinkIds (bk_access s'))"
  using assms
proof (rule booking_step_cases)
  fix c b
  assume "run_booking E s c b = Inr (s', False)"
  then show ?thesis
  proof (rule run_booking_applied)
    fix p m
    assume "BookingState_parse E s = Some p" "booking_change E b p = Inr m" "same_core m s'"
    then show ?thesis using BookingState_parse_core[of E s p] booking_change_identity[of E b p m]
      by (simp add: same_core_def)
  qed
next
  fix cb
  assume "applyPaymentCallback E s cb = Inr (s', False)"
  then show ?thesis
  proof (rule applyPaymentCallback_applied)
    fix p
    assume "BookingState_parse E s = Some p" "same_core (p\<lparr>bk_payment := callback_payment p cb\<rparr>) s'"
    then show ?thesis using BookingState_parse_core[of E s p] by (simp add: same_core_def)
  qed
qed simp

lemma superseded_steps:
  "(booking_step E)\<^sup>*\<^sup>* s t \<Longrightarrow> set (ax_supersededLinkIds (bk_access s)) \<subseteq> set (ax_supersededLinkIds (bk_access t))"
  by (induction rule: rtranclp_induct) (use superseded_step in blast)+

section \<open>The agreement of a booking\<close>

definition agreement_binds :: "env \<Rightarrow> booking_state \<Rightarrow> bool" where
  "agreement_binds E s \<longleftrightarrow> (case ag_snapshot (bk_agreement s) of None \<Rightarrow> True | Some a \<Rightarrow>
     verifySignedAgreementSnapshot E a = Inr True \<and> sa_bookingId a = bk_bookingId s \<and> sa_organizationId a = bk_organizationId s
     \<and> sa_commissionedModules a = qt_commissionedModules (bk_quote s)
     \<and> (sg_assignmentId (sa_signer a), sg_contactId (sa_signer a)) = booking_client s)"

lemma joined_modules:
  "CommissionedModules_ok xs \<Longrightarrow> CommissionedModules_ok ys
     \<Longrightarrow> join '','' (map module_text xs) = join '','' (map module_text ys) \<Longrightarrow> xs = ys"
  by (auto simp: CommissionedModules_ok_def)

lemma verified_agreement_Inr: "verified_agreement E a = Inr ok \<Longrightarrow> verifySignedAgreementSnapshot E a = Inr ok"
  by (auto simp: verified_agreement_def split: sum.splits agreement_error.splits)

lemma SignedAgreement_modules_ok: "SignedAgreement_parse E a = Some b \<Longrightarrow> CommissionedModules_ok (sa_commissionedModules b)"
  by (auto simp: SignedAgreement_parse_def split: if_splits elim: AgreementFields_parse_SomeE)

lemma booking_wf_snapshot:
  "booking_wf E s \<Longrightarrow> nullable (SignedAgreement_parse E) (ag_snapshot (bk_agreement s)) = Some (ag_snapshot (bk_agreement s))"
  using AgreementProjection_parse_keeps[of E "bk_agreement s" "bk_agreement s"] by (simp add: booking_wf_def)

lemma agreement_binds_core:
  "same_core m s' \<Longrightarrow> ag_snapshot (bk_agreement s') = ag_snapshot (bk_agreement m) \<Longrightarrow> agreement_binds E m \<Longrightarrow> agreement_binds E s'"
  by (simp add: agreement_binds_def same_core_def split: option.splits)

lemma agreement_binds_change:
  assumes "booking_wf E s" and "agreement_binds E s" and "booking_change E b s = Inr m"
  shows "agreement_binds E m \<and> nullable (SignedAgreement_parse E) (ag_snapshot (bk_agreement m)) = Some (ag_snapshot (bk_agreement m))"
proof (cases "bk_agreement m = bk_agreement s")
  case True
  then show ?thesis using assms booking_change_identity[OF assms(3)] booking_wf_snapshot[OF assms(1)]
    by (simp add: agreement_binds_def split: option.splits)
next
  case False
  from booking_change_agreement[OF assms(3) False] obtain a x where x: "SignedAgreement_parse E a = Some x"
    "bk_agreement m = \<lparr>ag_signed = True, ag_snapshot = Some x\<rparr>" "verified_agreement E x = Inr True"
    "sa_bookingId x = bk_bookingId s" "sa_organizationId x = bk_organizationId s"
    "(sg_assignmentId (sa_signer x), sg_contactId (sa_signer x)) = booking_client s"
    "join '','' (map module_text (sa_commissionedModules x)) = join '','' (map module_text (qt_commissionedModules (bk_quote s)))"
    by blast
  have "CommissionedModules_ok (qt_commissionedModules (bk_quote s))"
    using assms(1) by (auto simp: booking_wf_def QuoteSnapshot_parse_def split: if_splits)
  then have "sa_commissionedModules x = qt_commissionedModules (bk_quote s)"
    using joined_modules[OF SignedAgreement_modules_ok[OF x(1)] _ x(7)] by blast
  then show ?thesis using x booking_change_identity[OF assms(3)] SignedAgreement_parse_hash(2)[OF x(1)]
    by (simp add: agreement_binds_def verified_agreement_Inr nullable_def)
qed

lemma reachable_agreement_binds: "reachable_booking E s \<Longrightarrow> agreement_binds E s"
proof (induction rule: reachable_induct)
  case (create i s)
  then obtain m where "freezeBooking E m = Inr s" and "ag_snapshot (bk_agreement m) = None" by (rule createBooking_frozen)
  then have "ag_snapshot (bk_agreement s) = None" using freezeBooking_core(3)[of E m s] by (simp add: nullable_def)
  then show ?case by (simp add: agreement_binds_def)
next
  case (step s s')
  note wf = reachable_wf[OF step(1)]
  note p = booking_wf_parse[OF wf]
  from step(2) show ?case
  proof (rule booking_step_cases)
    fix c b
    assume "run_booking E s c b = Inr (s', False)"
    then show ?thesis
    proof (rule run_booking_applied)
      fix q m
      assume "BookingState_parse E s = Some q" "booking_change E b q = Inr m" and c: "same_core m s'"
        and n: "nullable (SignedAgreement_parse E) (ag_snapshot (bk_agreement m)) = Some (ag_snapshot (bk_agreement s'))"
      then have "booking_change E b s = Inr m" using p by simp
      from agreement_binds_change[OF wf step(3) this] n c show ?thesis by (auto intro: agreement_binds_core)
    qed
  next
    fix cb
    assume "applyPaymentCallback E s cb = Inr (s', False)"
    then show ?thesis
    proof (rule applyPaymentCallback_applied)
      fix q
      assume "BookingState_parse E s = Some q" and c: "same_core (q\<lparr>bk_payment := callback_payment q cb\<rparr>) s'"
        and "nullable (SignedAgreement_parse E) (ag_snapshot (bk_agreement q)) = Some (ag_snapshot (bk_agreement s'))"
      moreover have "booking_client (q\<lparr>bk_payment := callback_payment q cb\<rparr>) = booking_client q" by (simp add: booking_client_def)
      ultimately show ?thesis using p booking_wf_snapshot[OF wf] step(3)
        by (simp add: agreement_binds_def same_core_def split: option.splits)
    qed
  qed (use step(3) in simp)
qed

section \<open>Sample bookings\<close>

definition sample_quote :: quote_snapshot where
  "sample_quote = \<lparr>qt_quoteId = ''q'', qt_ruleSetId = ''r'', qt_ruleVersion = 1, qt_commissionedModules = [Building, TimberPest],
     qt_property = \<lparr>qp_propertyType = Duplex, qp_storeys = 1, qp_bedrooms = 3, qp_suburb = ''Kew'', qp_postcode = ''3101''\<rparr>,
     qt_lineItems = [\<lparr>li_module = Building, li_label = ''B'', li_amountCents = 50000\<rparr>,
       \<lparr>li_module = TimberPest, li_label = ''P'', li_amountCents = 30000\<rparr>],
     qt_totalAmountCents = 80000, qt_createdAt = ''2026-07-15T00:00:00Z'', qt_expiresAt = ''2026-07-30T00:00:00Z''\<rparr>"

definition sample_property :: property_snapshot where
  "sample_property = \<lparr>ps_propertyId = ''p'', ps_addressLine1 = ''1 Main St'', ps_suburb = ''Kew'', ps_postcode = ''3101'',
     ps_accessNotes = ''''\<rparr>"

definition sample_role :: "string \<Rightarrow> string \<Rightarrow> role_assignment" where
  "sample_role a i = \<lparr>ra_assignmentId = a, ra_contact = \<lparr>ct_contactId = i, ct_name = ''Casey'', ct_email = ''c@x'',
     ct_phone = ''0400000000''\<rparr>\<rparr>"

definition sample_participants :: booking_participants where
  "sample_participants = \<lparr>pt_client = sample_role ''as1'' ''c1'', pt_reportRecipient = sample_role ''as2'' ''c2'',
     pt_invoiceContact = sample_role ''as3'' ''c3'', pt_accessContact = sample_role ''as4'' ''c4'',
     pt_assignedInspector = \<lparr>ai_inspectorId = ''i'', ai_displayName = ''Ines'', ai_credentialVersion = ''v1''\<rparr>\<rparr>"

definition sample_slot_hold :: slot_hold where
  "sample_slot_hold = \<lparr>sh_slotId = ''s1'', sh_holdId = ''h1'', sh_startsAt = ''2026-07-20T09:00:00Z'',
     sh_endsAt = ''2026-07-20T10:00:00Z'', sh_expiresAt = ''2026-07-16T00:00:00Z''\<rparr>"

definition sample_create :: create_booking_input where
  "sample_create = \<lparr>cb_bookingId = ''bk'', cb_organizationId = ''org'', cb_quote = sample_quote, cb_property = sample_property,
     cb_participants = sample_participants, cb_slotHold = sample_slot_hold, cb_capturedAt = ''2026-07-15T01:00:00Z''\<rparr>"

definition sample_input :: booking_input where
  "sample_input = \<lparr>bi_quote = sample_quote, bi_property = sample_property, bi_participants = sample_participants,
     bi_capturedAt = ''2026-07-15T01:00:00Z''\<rparr>"

definition sample_draft :: booking_state where
  "sample_draft = \<lparr>bk_bookingId = ''bk'', bk_organizationId = ''org'', bk_revision = 0, bk_lifecycle = BkDraft,
       bk_input = sample_input, bk_quote = sample_quote,
       bk_slot = \<lparr>sl_state = SlotHeld, sl_hold = sample_slot_hold, sl_confirmedAt = None\<rparr>, bk_slotHistory = [],
       bk_agreement = \<lparr>ag_signed = False, ag_snapshot = None\<rparr>,
       bk_payment = \<lparr>py_state = PayNotStarted, py_attempt = 0, py_intentId = None, py_providerReference = None,
         py_failureCode = None, py_terminal = False\<rparr>,
       bk_calendar = \<lparr>cl_state = CalNotRequested, cl_eventReference = None, cl_failureCode = None, cl_retryable = False\<rparr>,
       bk_access = \<lparr>ax_state = AccNotRequested, ax_generation = 1, ax_activeLinkId = None,
         ax_activeTokenFingerprint = None, ax_supersededLinkIds = [], ax_confirmedAt = None, ax_overrideReason = None\<rparr>,
       bk_notifications = \<lparr>nt_generation = 1, nt_reminders = []\<rparr>, bk_readiness = emptyReadiness,
       bk_reschedule = None, bk_cancellationReason = None, bk_commandReceipts = [],
       bk_providerCallbackReceipts = []\<rparr>"

definition sample_booking :: booking_state where
  "sample_booking = sample_draft\<lparr>bk_readiness := deriveReadiness sample_draft\<rparr>"

lemma sample_env_formats [simp]: "z_uuid sample_env = (\<lambda>_. True)" "z_datetime sample_env = (\<lambda>_. True)" "z_email sample_env = (\<lambda>_. True)"
  by (simp_all add: sample_env_def)

lemma sample_quote_parse: "QuoteSnapshot_parse sample_env sample_quote = Some sample_quote" by code_simp

lemma sample_property_parse: "PropertySnapshot_parse sample_env sample_property = Some sample_property" by code_simp

lemma sample_participants_parse: "BookingParticipants_parse sample_env sample_participants = Some sample_participants"
  by code_simp

lemma sample_input_parse: "BookingInput_parse sample_env sample_input = Some sample_input"
  by (simp add: BookingInput_parse_def sample_input_def sample_quote_parse sample_property_parse sample_participants_parse)

lemmas component_simps = booking_wf_def BookingSlot_ok_def SlotHold_ok_def SlotHistoryEntry_ok_def NotificationProjection_ok_def
  Reminder_ok_def AgreementProjection_parse_def PaymentProjection_parse_def CalendarProjection_parse_def
  AccessProjection_parse_def nullable_def nullable_ok_def nonneg_int_def positive_int_def deriveReadiness_parse
  sample_input_parse sample_quote_parse safe_int_def max_safe_integer_def

lemma sample_booking_wf: "booking_wf sample_env sample_booking"
  by (simp add: component_simps sample_booking_def sample_draft_def) (simp add: sample_input_def)

lemma sample_dates:
  "\<not> date_le (date_parse sample_env ''2026-07-30T00:00:00Z'') (date_parse sample_env ''2026-07-15T01:00:00Z'')"
  "\<not> date_le (date_parse sample_env ''2026-07-16T00:00:00Z'') (date_parse sample_env ''2026-07-15T01:00:00Z'')"
  "\<not> date_le (date_parse sample_env ''2026-07-20T10:00:00Z'') (date_parse sample_env ''2026-07-20T09:00:00Z'')"
  "\<not> date_le (date_parse sample_env ''2026-07-16T00:00:00Z'') (date_parse sample_env ''2026-07-15T02:00:00Z'')"
  by code_simp+

lemma sample_booking_ok: "createBooking sample_env sample_create = Inr sample_booking"
proof -
  have "freezeBooking sample_env sample_draft = Inr sample_booking"
    using freezeBooking_eval[of sample_env sample_draft] sample_booking_wf by (simp add: sample_booking_def)
  moreover have "qt_expiresAt sample_quote = ''2026-07-30T00:00:00Z''"
    "ps_suburb sample_property = qp_suburb (qt_property sample_quote)" "ps_postcode sample_property = qp_postcode (qt_property sample_quote)"
    by (simp_all add: sample_quote_def sample_property_def)
  ultimately show ?thesis using sample_input_parse
    by (simp add: createBooking_def sample_create_def sample_quote_parse SlotHold_ok_def sample_slot_hold_def[symmetric] sample_dates
      sample_input_def[symmetric] sample_draft_def[symmetric]) (simp add: sample_slot_hold_def sample_input_def sample_dates)
qed

text \<open>Two commands on the draft: the slot is confirmed, or the agreement is signed.\<close>

definition sample_meta :: "string \<Rightarrow> int \<Rightarrow> command_metadata" where
  "sample_meta k n = \<lparr>cm_idempotencyKey = k, cm_expectedRevision = n\<rparr>"

definition sample_print :: string where
  "sample_print = replicate 64 (CHR ''a'')"

definition applied :: "booking_state \<Rightarrow> string \<Rightarrow> booking_state \<Rightarrow> booking_state" where
  "applied s k m = m\<lparr>bk_revision := bk_revision s + 1,
     bk_commandReceipts := bk_commandReceipts s @ [\<lparr>rc_idempotencyKey = k, rc_requestFingerprint = sample_print\<rparr>],
     bk_readiness := deriveReadiness m\<rparr>"

definition sample_slotted :: booking_state where
  "sample_slotted = applied sample_booking ''c0''
     (sample_booking\<lparr>bk_slot := \<lparr>sl_state = SlotConfirmed, sl_hold = sample_slot_hold, sl_confirmedAt = Some ''2026-07-15T02:00:00Z''\<rparr>\<rparr>)"

lemma sample_receipt: "CommandReceipt_parse \<lparr>rc_idempotencyKey = ''c0'', rc_requestFingerprint = sample_print\<rparr>
    = Some \<lparr>rc_idempotencyKey = ''c0'', rc_requestFingerprint = sample_print\<rparr>"
  by code_simp

lemma sample_applied_wf:
  "bk_revision s = 0 \<Longrightarrow> bk_commandReceipts s = []
     \<Longrightarrow> booking_wf sample_env (m\<lparr>bk_revision := 1, bk_commandReceipts := [], bk_readiness := deriveReadiness m\<rparr>)
     \<Longrightarrow> booking_wf sample_env (applied s ''c0'' m)"
  using sample_receipt by (simp add: booking_wf_def applied_def)

lemma sample_run:
  assumes "booking_change sample_env b s = Inr m" and "booking_request sample_env (sample_meta ''c0'' 0, b) = Inr sample_print"
    and "booking_wf sample_env (m\<lparr>bk_revision := 1, bk_commandReceipts := [], bk_readiness := deriveReadiness m\<rparr>)"
    and "booking_wf sample_env s" and "bk_revision s = 0" and "bk_commandReceipts s = []"
  shows "run_booking sample_env s (sample_meta ''c0'' 0) b = Inr (applied s ''c0'' m, False)"
  using assms(3,5,6)
  by (intro run_booking_eval[OF assms(4,1,2)] sample_applied_wf) (simp_all add: sample_meta_def applied_def)

lemma sample_booking_new [simp]: "bk_revision sample_booking = 0" "bk_commandReceipts sample_booking = []"
  by (simp_all add: sample_booking_def sample_draft_def)

lemma sample_slotted_ok:
  "run_booking sample_env sample_booking (sample_meta ''c0'' 0) (ConfirmSlot ''2026-07-15T02:00:00Z'') = Inr (sample_slotted, False)"
  unfolding sample_slotted_def
proof (rule sample_run)
  show "booking_change sample_env (ConfirmSlot ''2026-07-15T02:00:00Z'') sample_booking
    = Inr (sample_booking\<lparr>bk_slot := \<lparr>sl_state = SlotConfirmed, sl_hold = sample_slot_hold, sl_confirmedAt = Some ''2026-07-15T02:00:00Z''\<rparr>\<rparr>)"
    using sample_dates(4) by (simp add: slot_confirmation_def sample_booking_def sample_draft_def sample_slot_hold_def)
  show "booking_request sample_env (sample_meta ''c0'' 0, ConfirmSlot ''2026-07-15T02:00:00Z'') = Inr sample_print" by code_simp
qed (use sample_booking_wf in \<open>simp_all add: booking_wf_def sample_booking_def sample_draft_def BookingSlot_ok_def nullable_ok_def
    nonneg_int_def safe_int_def max_safe_integer_def deriveReadiness_parse\<close>)

definition sample_signed :: booking_state where
  "sample_signed = applied sample_booking ''c0'' (sample_booking\<lparr>bk_agreement := \<lparr>ag_signed = True, ag_snapshot = Some sample_agreement\<rparr>\<rparr>)"

lemma sample_agreement_facts:
  "SignedAgreement_parse sample_env sample_agreement = Some sample_agreement"
  "verified_agreement sample_env sample_agreement = Inr True"
  "sa_bookingId sample_agreement = ''bk''" "sa_organizationId sample_agreement = ''org''"
  "sg_assignmentId (sa_signer sample_agreement) = ''as1''" "sg_contactId (sa_signer sample_agreement) = ''c1''"
  "sa_commissionedModules sample_agreement = [Building, TimberPest]"
  by code_simp+

lemma sample_signed_ok:
  "run_booking sample_env sample_booking (sample_meta ''c0'' 0) (SignAgreement sample_agreement) = Inr (sample_signed, False)"
  unfolding sample_signed_def
proof (rule sample_run)
  show "booking_change sample_env (SignAgreement sample_agreement) sample_booking
    = Inr (sample_booking\<lparr>bk_agreement := \<lparr>ag_signed = True, ag_snapshot = Some sample_agreement\<rparr>\<rparr>)"
    by (simp add: agreement_application_def sample_agreement_facts sample_booking_def sample_draft_def sample_input_def
        sample_participants_def sample_role_def sample_quote_def)
  show "booking_request sample_env (sample_meta ''c0'' 0, SignAgreement sample_agreement) = Inr sample_print" by code_simp
qed (use sample_booking_wf in \<open>simp_all add: booking_wf_def sample_booking_def sample_draft_def AgreementProjection_parse_def nullable_def
    sample_agreement_facts nonneg_int_def safe_int_def max_safe_integer_def deriveReadiness_parse\<close>)

text \<open>A booking with every dependency satisfied, one whose cancellation is pending, and one that is
  being rescheduled after a first access link was retired.\<close>

definition sample_ready :: booking_state where
  "sample_ready = sample_booking\<lparr>
     bk_slot := \<lparr>sl_state = SlotConfirmed, sl_hold = sample_slot_hold, sl_confirmedAt = None\<rparr>,
     bk_agreement := \<lparr>ag_signed = True, ag_snapshot = Some sample_agreement\<rparr>,
     bk_payment := \<lparr>py_state = PayPaid, py_attempt = 1, py_intentId = None, py_providerReference = None, py_failureCode = None,
       py_terminal = False\<rparr>,
     bk_calendar := \<lparr>cl_state = CalConfirmed, cl_eventReference = None, cl_failureCode = None, cl_retryable = False\<rparr>,
     bk_access := \<lparr>ax_state = AccOverridden, ax_generation = 1, ax_activeLinkId = Some ''l1'', ax_activeTokenFingerprint = None,
       ax_supersededLinkIds = [''l0''], ax_confirmedAt = None, ax_overrideReason = None\<rparr>\<rparr>"

lemmas sample_state_simps = booking_wf_def sample_ready_def sample_booking_def sample_draft_def AgreementProjection_parse_def
  PaymentProjection_parse_def CalendarProjection_parse_def AccessProjection_parse_def BookingSlot_ok_def nullable_def nullable_ok_def
  sample_agreement_facts nonneg_int_def positive_int_def safe_int_def max_safe_integer_def deriveReadiness_parse
  NotificationProjection_ok_def SlotHistoryEntry_ok_def SlotHold_ok_def RescheduleProjection_parse_def

lemma sample_ready_wf: "booking_wf sample_env sample_ready"
  using sample_booking_wf by (simp add: sample_state_simps)

lemma sample_activation:
  "run_booking sample_env sample_ready (sample_meta ''c0'' 0) (Activate ''2026-07-15T02:00:00Z'')
     = Inr (applied sample_ready ''c0'' (sample_ready\<lparr>bk_lifecycle := BkConfirmed\<rparr>), False)"
proof (rule sample_run[OF _ _ _ sample_ready_wf])
  show "booking_change sample_env (Activate ''2026-07-15T02:00:00Z'') sample_ready = Inr (sample_ready\<lparr>bk_lifecycle := BkConfirmed\<rparr>)"
    by (simp add: activation_def ready_abs machine_ready_def abs_booking_def sample_ready_def)
  show "booking_request sample_env (sample_meta ''c0'' 0, Activate ''2026-07-15T02:00:00Z'') = Inr sample_print" by code_simp
qed (use sample_booking_wf in \<open>simp_all add: sample_state_simps\<close>)

abbreviation sample_accept :: observation where
  "sample_accept \<equiv> ObsAccepted ''ev1'' JNull False"

lemma sample_reference: "text_parse 300 ''ev1'' = Some ''ev1''" by code_simp

definition sample_cancelling :: booking_state where
  "sample_cancelling = sample_ready\<lparr>bk_lifecycle := BkCancelPending\<rparr>"

definition sample_cancelled :: booking_state where
  "sample_cancelled = applied sample_cancelling ''c0'' (projr (cancellation_completion sample_accept sample_accept ''t'' sample_cancelling))"

lemma sample_cancelled_ok:
  "run_booking sample_env sample_cancelling (sample_meta ''c0'' 0) (CompleteCancellation sample_accept sample_accept ''t'') = Inr (sample_cancelled, False)"
  unfolding sample_cancelled_def
proof (rule sample_run)
  show "booking_change sample_env (CompleteCancellation sample_accept sample_accept ''t'') sample_cancelling
      = Inr (projr (cancellation_completion sample_accept sample_accept ''t'' sample_cancelling))"
    by (simp add: cancellation_completion_def sample_cancelling_def)
  show "booking_request sample_env (sample_meta ''c0'' 0, CompleteCancellation sample_accept sample_accept ''t'') = Inr sample_print"
    by code_simp
qed (use sample_booking_wf in \<open>simp_all add: sample_cancelling_def cancellation_completion_def retired_slot_def retired_links_def
    invalidateReminders_def sample_state_simps sample_reference sample_slot_hold_def\<close>)

definition sample_new_hold :: slot_hold where
  "sample_new_hold = sample_slot_hold\<lparr>sh_slotId := ''s2'', sh_holdId := ''h2''\<rparr>"

definition sample_rescheduling :: booking_state where
  "sample_rescheduling = sample_ready\<lparr>bk_lifecycle := BkReschedulePending,
     bk_notifications := \<lparr>nt_generation = 1, nt_reminders = [\<lparr>rm_reminderId = ''r1'', rm_generation = 1, rm_scheduledFor = ''t'',
       rm_channel = ChannelSms, rm_state = RemScheduled\<rparr>]\<rparr>,
     bk_reschedule := Some \<lparr>rs_candidateSlot = sample_new_hold, rs_previousCalendarEventReference = None\<rparr>\<rparr>"

definition sample_rescheduled :: booking_state where
  "sample_rescheduled = applied sample_rescheduling ''c0'' (projr (reschedule_completion sample_accept ''t'' sample_rescheduling))"

lemma sample_rescheduled_ok:
  "run_booking sample_env sample_rescheduling (sample_meta ''c0'' 0) (CompleteReschedule sample_accept ''t'') = Inr (sample_rescheduled, False)"
  unfolding sample_rescheduled_def
proof (rule sample_run)
  show "booking_change sample_env (CompleteReschedule sample_accept ''t'') sample_rescheduling
      = Inr (projr (reschedule_completion sample_accept ''t'' sample_rescheduling))"
    by (simp add: reschedule_completion_def sample_rescheduling_def)
  show "booking_request sample_env (sample_meta ''c0'' 0, CompleteReschedule sample_accept ''t'') = Inr sample_print" by code_simp
qed (use sample_booking_wf in \<open>simp_all add: sample_rescheduling_def reschedule_completion_def retired_slot_def retired_links_def
    invalidateReminders_def sample_state_simps sample_reference sample_slot_hold_def sample_new_hold_def Reminder_ok_def\<close>)

end
