(* ===== verification/Booking_Properties.thy ===== *)
theory Booking_Properties
  imports Bookings
begin

text \<open>
  The properties of bookings: the refinement of the abstract machine, the invariant of reachable
  bookings, which steps confirm a booking, that cancellation is final, what the signed agreement
  binds, what a completed reschedule does, that retired access links never confirm, and that commands
  and provider callbacks are applied at most once.
\<close>

section \<open>Refinement and invariants\<close>

text \<open>C11: every booking operation implements the abstract machine: a created booking is its initial
  state, a replayed command or callback changes nothing, and an applied one is the machine's move of
  the same event, whose guards it therefore satisfies.\<close>

theorem booking_refines_machine:
  "(createBooking E i = Inr s0 \<longrightarrow> abs_booking s0 = initial_machine)
   \<and> (run_booking E s c b = Inr (s1, r1) \<longrightarrow> (if r1 then s1 = s
        else advance (event_of b) (abs_booking s) = Some (abs_booking s1)))
   \<and> (applyPaymentCallback E s cb = Inr (s2, r2) \<longrightarrow> (if r2 then s2 = s
        else \<exists>p. BookingState_parse E s = Some p
          \<and> advance (EvPayment (callback_kind (py_intentId (bk_payment p)) (pc_event cb))) (abs_booking s) = Some (abs_booking s2)))"
  using createBooking_abs run_booking_abs applyPaymentCallback_abs booking_replay_same
  by (cases r1; cases r2) auto

lemma booking_refines_machine_witness:
  "advance EvSlotConfirmed (abs_booking sample_booking) = Some (abs_booking sample_slotted)
     \<and> abs_booking sample_booking = initial_machine"
  using booking_refines_machine[THEN conjunct2, THEN conjunct1, rule_format, OF sample_slotted_ok]
    booking_refines_machine[THEN conjunct1, rule_format, OF sample_booking_ok]
  by simp

text \<open>C12: every reachable booking is a fixed point of its schema and carries the readiness derived
  from its five dependencies; a booking that is being or was cancelled is never paid; it is cancelled
  exactly when its slot is released; and from its first confirmation on it has a confirmed slot, a
  signed agreement and a begun payment until it is cancelled.\<close>

theorem booking_invariant:
  assumes "createBooking E i = Inr s0" and "(booking_step E)\<^sup>*\<^sup>* s0 s"
  shows "BookingState_parse E s = Some s \<and> bk_readiness s = deriveReadiness s
    \<and> (bk_lifecycle s \<in> {BkCancelPending, BkCancelled} \<longrightarrow> py_state (bk_payment s) \<noteq> PayPaid)
    \<and> (bk_lifecycle s = BkCancelled \<longleftrightarrow> sl_state (bk_slot s) = SlotReleased)
    \<and> (bk_lifecycle s \<in> {BkConfirmed, BkReschedulePending, BkCancelPending} \<longrightarrow> sl_state (bk_slot s) = SlotConfirmed
         \<and> ag_snapshot (bk_agreement s) \<noteq> None \<and> py_state (bk_payment s) \<noteq> PayNotStarted)"
proof -
  have r: "reachable_booking E s" using assms unfolding reachable_booking_def by blast
  note p = booking_wf_parse[OF reachable_wf[OF r]]
  have "ag_signed (bk_agreement s) = (ag_snapshot (bk_agreement s) \<noteq> None)" using BookingState_parse_core[OF p] by simp
  then show ?thesis using p reachable_readiness[OF r] reachable_machine_inv[OF r]
    by (auto simp: machine_inv_def abs_booking_def)
qed

lemma sample_slotted_step: "(booking_step sample_env)\<^sup>*\<^sup>* sample_booking sample_slotted"
  using sample_slotted_ok by (blast intro: booking_command)

lemma booking_invariant_witness:
  "bk_readiness sample_slotted = deriveReadiness sample_slotted \<and> sl_state (bk_slot sample_slotted) \<noteq> SlotReleased"
  using booking_invariant[OF sample_booking_ok sample_slotted_step] by (simp add: sample_slotted_def applied_def sample_booking_def sample_draft_def)

text \<open>C13: a step makes a booking confirmed only when its slot was confirmed, its agreement signed,
  its payment paid, its calendar confirmed and its access confirmed or overridden, or as the accepted
  completion of a pending reschedule.\<close>

theorem confirmed_only_when_ready:
  assumes "booking_step E s s'" and "bk_lifecycle s' = BkConfirmed" and "bk_lifecycle s \<noteq> BkConfirmed"
  shows "(sl_state (bk_slot s) = SlotConfirmed \<and> ag_signed (bk_agreement s) \<and> py_state (bk_payment s) = PayPaid
       \<and> cl_state (bk_calendar s) = CalConfirmed \<and> ax_state (bk_access s) \<in> {AccConfirmed, AccOverridden})
    \<or> (bk_lifecycle s = BkReschedulePending \<and> bk_reschedule s \<noteq> None
       \<and> cl_state (bk_calendar s') = CalConfirmed \<and> bk_reschedule s' = None)"
proof -
  from booking_step_machine[OF assms(1)] obtain e where e: "advance e (abs_booking s) = Some (abs_booking s')"
    using assms(2,3) unfolding machine_step_def by blast
  from advance_confirms[OF this] assms(2,3)
  have "(e = EvActivated \<and> machine_ready (abs_booking s))
       \<or> (e = EvRescheduleObserved OutAccepted \<and> am_lifecycle (abs_booking s) = BkReschedulePending \<and> am_rescheduling (abs_booking s))"
    by (simp add: abs_booking_def)
  with e show ?thesis by (auto simp: abs_booking_def machine_ready_def)
qed

lemma confirmed_only_when_ready_witness:
  "py_state (bk_payment sample_ready) = PayPaid \<or> bk_lifecycle sample_ready = BkReschedulePending"
proof -
  let ?t = "applied sample_ready ''c0'' (sample_ready\<lparr>bk_lifecycle := BkConfirmed\<rparr>)"
  have "bk_lifecycle ?t = BkConfirmed" and "bk_lifecycle sample_ready \<noteq> BkConfirmed"
    by (simp_all add: applied_def sample_ready_def sample_booking_def sample_draft_def)
  from confirmed_only_when_ready[OF booking_command[OF sample_activation] this] show ?thesis by blast
qed

section \<open>Cancellation and rescheduling\<close>

text \<open>The cancelled states of the machine are closed.\<close>

definition cancelled_machine :: "machine \<Rightarrow> bool" where
  "cancelled_machine a \<longleftrightarrow> am_lifecycle a = BkCancelled \<and> am_slot a = SlotReleased \<and> am_payment a \<noteq> PayPaid"

lemma cancelled_machine_advance:
  assumes "cancelled_machine a" and "advance e a = Some a'"
  shows "cancelled_machine a'"
  using assms(2)
proof (induction e)
  case (EvPayment x)
  have "payment_after x a \<noteq> PayPaid"
    using payment_after_facts(1)[of x a] assms(1) unfolding cancelled_machine_def machine_checkout_open_def by blast
  moreover have "a' = a\<lparr>am_payment := payment_after x a\<rparr>" using EvPayment by simp
  ultimately show ?case using assms(1) by (simp add: cancelled_machine_def)
qed (use assms(1) in \<open>clarsimp simp: cancelled_machine_def machine_ready_def\<close>)+

lemma cancelled_machine_steps:
  "(booking_step E)\<^sup>*\<^sup>* s t \<Longrightarrow> cancelled_machine (abs_booking s) \<Longrightarrow> cancelled_machine (abs_booking t)"
proof (induction rule: rtranclp_induct)
  case (step y z)
  then show ?case using booking_step_machine[of E y z] cancelled_machine_advance by (auto simp: machine_step_def)
qed

text \<open>C14: once a cancellation completed, whatever commands and provider callbacks follow, the
  booking stays cancelled, its slot stays released and no late checkout makes it paid; it is never
  ready again.\<close>

theorem cancellation_is_final:
  assumes "completeCancellation E s c calendarObs refundObs recordedAt = Inr (s1, False)" and "(booking_step E)\<^sup>*\<^sup>* s1 t"
  shows "bk_lifecycle t = BkCancelled \<and> sl_state (bk_slot t) = SlotReleased \<and> py_state (bk_payment t) \<noteq> PayPaid
    \<and> \<not> rd_ready (deriveReadiness t)"
proof -
  have "run_booking E s c (CompleteCancellation calendarObs refundObs recordedAt) = Inr (s1, False)" using assms(1) by simp
  from run_booking_abs[OF this] have "cancelled_machine (abs_booking s1)" by (auto simp: cancelled_machine_def)
  from cancelled_machine_steps[OF assms(2) this] show ?thesis
    by (simp add: ready_abs cancelled_machine_def machine_ready_def) (simp add: abs_booking_def)
qed

lemma cancellation_is_final_witness:
  "bk_lifecycle sample_cancelled = BkCancelled \<and> py_state (bk_payment sample_cancelled) \<noteq> PayPaid"
  using cancellation_is_final[OF sample_cancelled_ok[unfolded run_booking.simps] rtranclp.rtrancl_refl] by simp

lemma RescheduleProjection_parse_keeps:
  "nullable (RescheduleProjection_parse E) v = Some (Some z) \<Longrightarrow> \<exists>y. v = Some y \<and> rs_candidateSlot y = rs_candidateSlot z"
  by (auto simp: nullable_def RescheduleProjection_parse_def split: option.splits if_splits)

lemma set_retired_links: "l \<noteq> '''' \<Longrightarrow> ax_activeLinkId a = Some l \<Longrightarrow> l \<in> set (retired_links a)"
  by (simp add: retired_links_def)

text \<open>An accepted reschedule moves the booking to exactly the candidate slot it was requested for,
  records the old slot, reserves the calendar, invalidates every scheduled reminder under a new
  generation, and retires the old access link, so that access must be arranged again.\<close>

theorem accepted_reschedule:
  assumes "completeReschedule E s c (ObsAccepted ref v rep) recordedAt = Inr (s', False)"
  shows "bk_lifecycle s = BkReschedulePending \<and> bk_lifecycle s' = BkConfirmed \<and> bk_reschedule s' = None
    \<and> (\<exists>z. bk_reschedule s = Some z \<and> sl_hold (bk_slot s') = rs_candidateSlot z)
    \<and> sl_state (bk_slot s') = SlotConfirmed \<and> cl_state (bk_calendar s') = CalConfirmed
    \<and> bk_slotHistory s' = bk_slotHistory s @ [retired_slot HistorySuperseded (bk_slot s) recordedAt]
    \<and> nt_generation (bk_notifications s') = nt_generation (bk_notifications s) + 1
    \<and> (\<forall>r \<in> set (nt_reminders (bk_notifications s')). rm_state r \<noteq> RemScheduled)
    \<and> ax_activeLinkId (bk_access s') = None
    \<and> (\<forall>l. ax_activeLinkId (bk_access s) = Some l \<and> l \<noteq> '''' \<longrightarrow> l \<in> set (ax_supersededLinkIds (bk_access s')))
    \<and> \<not> rd_ready (bk_readiness s')"
proof -
  have run: "run_booking E s c (CompleteReschedule (ObsAccepted ref v rep) recordedAt) = Inr (s', False)" using assms by simp
  then show ?thesis
  proof (rule run_booking_applied)
    fix p m
    assume p: "BookingState_parse E s = Some p" and m: "booking_change E (CompleteReschedule (ObsAccepted ref v rep) recordedAt) p = Inr m"
      and core: "same_core m s'" and rd: "bk_readiness s' = deriveReadiness s'"
    from m obtain z where z: "bk_reschedule p = Some z" and pending: "bk_lifecycle p = BkReschedulePending"
      by (auto simp: reschedule_completion_def)
    have "nullable (RescheduleProjection_parse E) (bk_reschedule s) = Some (bk_reschedule p)"
      using p by (rule BookingState_parse_SomeE) simp
    then obtain y where y: "bk_reschedule s = Some y" "rs_candidateSlot y = rs_candidateSlot z"
      using z RescheduleProjection_parse_keeps by fastforce
    have sp: "same_core s p" using BookingState_parse_core[OF p] by simp
    have unready: "\<not> rd_ready (bk_readiness s')"
      using run_booking_abs[OF run] by (auto simp: rd ready_abs machine_ready_def)
    have links: "retired_links (bk_access p) = retired_links (bk_access s)"
      using sp by (simp add: retired_links_def same_core_def split: option.split)
    have m': "bk_lifecycle m = BkConfirmed" "bk_reschedule m = None" "sl_hold (bk_slot m) = rs_candidateSlot z"
      "sl_state (bk_slot m) = SlotConfirmed" "cl_state (bk_calendar m) = CalConfirmed"
      "bk_slotHistory m = bk_slotHistory p @ [retired_slot HistorySuperseded (bk_slot p) recordedAt]"
      "bk_notifications m = invalidateReminders (bk_notifications p)"
      "ax_activeLinkId (bk_access m) = None" "ax_supersededLinkIds (bk_access m) = retired_links (bk_access p)"
      using m z pending by (auto simp: reschedule_completion_def)
    have "\<forall>r \<in> set (nt_reminders (invalidateReminders n)). rm_state r \<noteq> RemScheduled"
      "nt_generation (invalidateReminders n) = nt_generation n + 1" for n
      by (auto simp: invalidateReminders_def)
    then show ?thesis using m' y pending core sp unready links set_retired_links
      by (simp add: same_core_def)
  qed
qed

lemma accepted_reschedule_witness:
  "sl_hold (bk_slot sample_rescheduled) = sample_new_hold \<and> ''l1'' \<in> set (ax_supersededLinkIds (bk_access sample_rescheduled))"
  using accepted_reschedule[OF sample_rescheduled_ok[unfolded run_booking.simps]]
  by (auto simp: sample_rescheduling_def sample_ready_def)

section \<open>Agreements and access\<close>

text \<open>C15: the signed agreement in a reachable booking has an intact canonical hash, belongs to this
  booking and organisation, was signed by the booking's client, and covers exactly the commissioned
  modules of the quote.\<close>

theorem agreement_binds_booking:
  assumes "createBooking E i = Inr s0" and "(booking_step E)\<^sup>*\<^sup>* s0 s" and "ag_snapshot (bk_agreement s) = Some a"
  shows "verifySignedAgreementSnapshot E a = Inr True
    \<and> sa_bookingId a = bk_bookingId s \<and> sa_organizationId a = bk_organizationId s
    \<and> sa_commissionedModules a = qt_commissionedModules (bk_quote s)
    \<and> sg_assignmentId (sa_signer a) = ra_assignmentId (pt_client (bi_participants (bk_input s)))
    \<and> sg_contactId (sa_signer a) = ct_contactId (ra_contact (pt_client (bi_participants (bk_input s))))"
proof -
  have "reachable_booking E s" using assms unfolding reachable_booking_def by blast
  from reachable_agreement_binds[OF this] assms(3) show ?thesis
    by (simp add: agreement_binds_def booking_client_def Let_def)
qed

lemma agreement_binds_booking_witness:
  "verifySignedAgreementSnapshot sample_env sample_agreement = Inr True \<and> sa_bookingId sample_agreement = bk_bookingId sample_signed"
proof -
  have "(booking_step sample_env)\<^sup>*\<^sup>* sample_booking sample_signed" using sample_signed_ok by (blast intro: booking_command)
  moreover have "ag_snapshot (bk_agreement sample_signed) = Some sample_agreement" by (simp add: sample_signed_def applied_def)
  ultimately show ?thesis using agreement_binds_booking[OF sample_booking_ok] by blast
qed

text \<open>An access link that was retired never confirms access again, and an applied confirmation is
  always of the one active link.\<close>

theorem retired_links_never_confirm:
  assumes "l \<in> set (ax_supersededLinkIds (bk_access s))" and "(booking_step E)\<^sup>*\<^sup>* s t"
  shows "confirmAccess E t c l confirmedAt \<noteq> Inr (t', False)
    \<and> (confirmAccess E t c l' confirmedAt = Inr (t'', False) \<longrightarrow> ax_activeLinkId (bk_access t) = Some l'
         \<and> ax_state (bk_access t) = AccConfirmationPending)"
proof -
  have l: "l \<in> set (ax_supersededLinkIds (bk_access t))" using assms superseded_steps by blast
  have confirm: "k \<notin> set (ax_supersededLinkIds (bk_access t)) \<and> ax_activeLinkId (bk_access t) = Some k
      \<and> ax_state (bk_access t) = AccConfirmationPending" if "confirmAccess E t c k confirmedAt = Inr (u, False)" for k u
  proof -
    from that have "run_booking E t c (ConfirmAccess k confirmedAt) = Inr (u, False)" by simp
    then show ?thesis
    proof (rule run_booking_applied)
      fix p m
      assume "BookingState_parse E t = Some p" and "booking_change E (ConfirmAccess k confirmedAt) p = Inr m"
      then show ?thesis using BookingState_parse_core[of E t p] by (auto simp: access_confirmation_def same_core_def)
    qed
  qed
  from confirm l show ?thesis by blast
qed

lemma retired_links_never_confirm_witness:
  "confirmAccess sample_env sample_ready (sample_meta ''c0'' 0) ''l0'' ''t'' \<noteq> Inr (sample_ready, False)"
  using retired_links_never_confirm[of "''l0''" sample_ready sample_env sample_ready] by (simp add: sample_ready_def)

section \<open>Idempotency\<close>

text \<open>C16: a command whose idempotency key has no surrounding blanks is applied at most once and only on the
  revision it was issued against: after it, through any later commands and callbacks, the same key is answered
  only for the same request, as a replay that changes nothing.  A key with surrounding blanks is stored trimmed and
  not found again (\<open>untrimmed_key_not_replayed\<close>).\<close>

theorem booking_commands_idempotent:
  assumes "run_booking E s c b = Inr (s1, r1)" and "(booking_step E)\<^sup>*\<^sup>* s1 t" and "run_booking E t d b' = Inr (t1, r2)"
    and "cm_idempotencyKey d = cm_idempotencyKey c" and "js_trim (cm_idempotencyKey c) = cm_idempotencyKey c"
  shows "booking_request E (d, b') = booking_request E (c, b) \<and> r2 \<and> t1 = t
    \<and> (\<not> r1 \<longrightarrow> cm_expectedRevision c = bk_revision s \<and> bk_revision s1 = bk_revision s + 1)"
proof -
  have k: "trimmed_key c" "trimmed_key d" using assms(4,5) by (simp_all add: trimmed_key_def)
  have a: "apply_booking E s (c, b) = (Inr r1, s1)" "apply_booking E t (d, b') = (Inr r2, t1)"
    using assms(1,3) by (simp_all add: apply_booking_Inr)
  have "booking_request E (d, b') = booking_request E (c, b)"
    using booking_ledger.one_identity_per_key[OF a(1) assms(2) a(2)] assms(4) k by simp
  moreover have "command_record t (cm_idempotencyKey (fst (d, b'))) = Some (booking_request E (c, b), ())"
    using booking_ledger.steps_keep[OF assms(2) booking_ledger.run_records[OF _ a(1)]] k assms(4) by simp
  from booking_replays[OF this, unfolded fst_conv snd_conv, OF assms(3)] have r2: r2 by blast
  moreover have "t1 = t" using assms(3) r2 booking_replay_same(1) by simp
  moreover have "cm_expectedRevision c = bk_revision s \<and> bk_revision s1 = bk_revision s + 1" if "\<not> r1"
    using assms(1) that by (auto elim: run_booking_applied)
  ultimately show ?thesis by blast
qed

lemma sample_replay:
  "run_booking sample_env sample_slotted (sample_meta ''c0'' 0) (ConfirmSlot ''2026-07-15T02:00:00Z'') = Inr (sample_slotted, True)"
proof -
  from sample_slotted_ok have "booking_wf sample_env sample_slotted"
    by (rule run_booking_Inr) (auto intro: freezeBooking_wf)
  from booking_wf_parse[OF this] have p: "BookingState_parse sample_env sample_slotted = Some sample_slotted" .
  have "booking_request sample_env (sample_meta ''c0'' 0, ConfirmSlot ''2026-07-15T02:00:00Z'') = Inr sample_print" by code_simp
  moreover have "bk_commandReceipts sample_slotted = [\<lparr>rc_idempotencyKey = ''c0'', rc_requestFingerprint = sample_print\<rparr>]"
    by (simp add: sample_slotted_def applied_def)
  ultimately show ?thesis
    by (simp add: run_booking_transition transition_def p inspectCommand_def booking_request_def Let_def sample_meta_def)
qed

lemma booking_commands_idempotent_witness: "bk_revision sample_slotted = bk_revision sample_booking + 1"
  using booking_commands_idempotent[OF sample_slotted_ok rtranclp.rtrancl_refl sample_replay]
  by (simp add: sample_meta_def js_trim_def js_space_def)

text \<open>A provider event is applied at most once: whatever happens between, a second callback under
  the same event identifier is either refused or the same callback, and then a replay that leaves the
  booking as it is; so no event is counted twice.\<close>

theorem provider_events_applied_once:
  assumes "applyPaymentCallback E s cb = Inr (s1, r1)" and "(booking_step E)\<^sup>*\<^sup>* s1 t" and "applyPaymentCallback E t cb' = Inr (t1, r2)"
    and "pc_providerEventId cb' = pc_providerEventId cb" and "js_trim (pc_providerEventId cb) = pc_providerEventId cb"
  shows "callback_request E cb' = callback_request E cb \<and> r2 \<and> t1 = t"
proof -
  have k: "trimmed_event cb" "trimmed_event cb'" using assms(4,5) by (simp_all add: trimmed_event_def)
  have a: "apply_callback E s cb = (Inr r1, s1)" "apply_callback E t cb' = (Inr r2, t1)"
    using assms(1,3) by (simp_all add: apply_callback_Inr)
  have "callback_request E cb' = callback_request E cb"
    using callback_ledger.one_identity_per_key[OF a(1) assms(2) a(2)] assms(4) k by simp
  moreover have "callback_record t (pc_providerEventId cb') = Some (callback_request E cb, ())"
    using callback_ledger.steps_keep[OF assms(2) callback_ledger.run_records[OF k(1) a(1)]] assms(4) by simp
  then have r2: r2 using callback_ledger_facts(2)[OF assms(3)] by auto
  moreover have "t1 = t" using assms(3) r2 booking_replay_same(2) by simp
  ultimately show ?thesis by blast
qed

definition sample_callback :: payment_callback where
  "sample_callback = \<lparr>pc_providerEventId = ''ev1'', pc_event = RefundSucceeded, pc_providerReference = ''ev1'', pc_observedAt = ''t''\<rparr>"

definition sample_refunded :: booking_state where
  "sample_refunded = sample_ready\<lparr>bk_revision := 1, bk_payment := callback_payment sample_ready sample_callback,
     bk_providerCallbackReceipts := [\<lparr>cr_providerEventId = ''ev1'', cr_requestFingerprint = sample_print\<rparr>],
     bk_readiness := deriveReadiness (sample_ready\<lparr>bk_payment := callback_payment sample_ready sample_callback\<rparr>)\<rparr>"

lemma sample_callback_request: "callback_request sample_env sample_callback = Inr sample_print" by code_simp

lemma sample_callback_receipt: "CallbackReceipt_parse \<lparr>cr_providerEventId = ''ev1'', cr_requestFingerprint = sample_print\<rparr>
    = Some \<lparr>cr_providerEventId = ''ev1'', cr_requestFingerprint = sample_print\<rparr>" by code_simp

lemma sample_refunded_wf: "booking_wf sample_env sample_refunded"
  using sample_booking_wf
  by (simp add: sample_refunded_def callback_payment_def sample_callback_def sample_state_simps sample_reference sample_callback_receipt)

lemma sample_refunded_ok: "applyPaymentCallback sample_env sample_ready sample_callback = Inr (sample_refunded, False)"
  using sample_refunded_wf
  by (intro applyPaymentCallback_eval[OF sample_ready_wf sample_callback_request])
    (simp_all add: sample_ready_def sample_booking_def sample_draft_def sample_refunded_def sample_callback_def)

lemma sample_callback_replay: "applyPaymentCallback sample_env sample_refunded sample_callback = Inr (sample_refunded, True)"
  using sample_callback_request
  by (simp add: applyPaymentCallback_def booking_wf_parse[OF sample_refunded_wf] callback_request_def)
    (simp add: sample_refunded_def sample_callback_def)

lemma provider_events_applied_once_witness:
  "\<exists>r t. applyPaymentCallback sample_env sample_refunded sample_callback = Inr (t, r) \<and> r \<and> t = sample_refunded"
  using provider_events_applied_once[OF sample_refunded_ok rtranclp.rtrancl_refl sample_callback_replay] sample_callback_replay
  by (auto simp: sample_callback_def js_trim_def js_space_def)

lemma CommandReceipt_trimmed: "CommandReceipt_parse a = Some b \<Longrightarrow> js_trim (rc_idempotencyKey b) = rc_idempotencyKey b"
  by (auto simp: CommandReceipt_parse_def split: if_splits dest!: text_parse_SomeD)

lemma receipts_keys_trimmed:
  "traverse CommandReceipt_parse rs = Some ts \<Longrightarrow> \<forall>r \<in> set ts. js_trim (rc_idempotencyKey r) = rc_idempotencyKey r"
  by (induction rs arbitrary: ts) (auto split: option.splits dest: CommandReceipt_trimmed)

text \<open>Receipts are stored with their key trimmed but looked up with the key as sent, so the retry
  of an applied command whose key has surrounding white space is not recognised: it is refused as
  stale instead of being answered as a replay.\<close>

theorem untrimmed_key_not_replayed:
  assumes "run_booking E s c b = Inr (s', False)" and "js_trim (cm_idempotencyKey c) \<noteq> cm_idempotencyKey c"
  shows "run_booking E s' c b = Inl (BookingConflict ''stale_revision'')"
  using assms(1)
proof (rule run_booking_Inr)
  fix p d
  assume p: "BookingState_parse E s = Some p"
    and d: "inspectCommand E (bk_revision p) (bk_commandReceipts p) c (fst (booking_operation b)) (snd (booking_operation b)) = Inr d"
      "fst d = False"
    and "\<not> False \<Longrightarrow> \<exists>m. booking_change E b p = Inr m
       \<and> freezeBooking E (m\<lparr>bk_revision := bk_revision p + 1, bk_commandReceipts := bk_commandReceipts p @ [snd d]\<rparr>) = Inr s'"
  then obtain m where f: "freezeBooking E (m\<lparr>bk_revision := bk_revision p + 1, bk_commandReceipts := bk_commandReceipts p @ [snd d]\<rparr>) = Inr s'"
    by blast
  note s' = booking_wf_parse[OF freezeBooking_wf[OF f]]
  from d have rev: "bk_revision p = cm_expectedRevision c"
    and h: "\<exists>h. booking_digest E (JObj [(''operation'', JStr (fst (booking_operation b))), (''payload'', snd (booking_operation b))]) = Inr h"
    by (auto elim: inspectCommand_Inr)
  have "traverse CommandReceipt_parse (bk_commandReceipts s') = Some (bk_commandReceipts s')"
    using freezeBooking_wf[OF f] by (simp add: booking_wf_def)
  from receipts_keys_trimmed[OF this] have "List.find (\<lambda>r. rc_idempotencyKey r = cm_idempotencyKey c) (bk_commandReceipts s') = None"
    using assms(2) by (auto simp: find_None_iff)
  moreover from h obtain h where
    "booking_digest E (JObj [(''operation'', JStr (fst (booking_operation b))), (''payload'', snd (booking_operation b))]) = Inr h"
    by blast
  moreover have "cm_expectedRevision c \<noteq> bk_revision s'" using rev freezeBooking_core(2)[OF f] by simp
  ultimately have "inspectCommand E (bk_revision s') (bk_commandReceipts s') c (fst (booking_operation b)) (snd (booking_operation b))
      = Inl (BookingConflict ''stale_revision'')"
    by (simp add: inspectCommand_def Let_def)
  then show ?thesis by (simp add: run_booking_transition transition_def s')
qed

definition sample_spaced :: command_metadata where
  "sample_spaced = \<lparr>cm_idempotencyKey = '' c0'', cm_expectedRevision = 0\<rparr>"

lemma sample_spaced_ok: "\<exists>t. run_booking sample_env sample_ready sample_spaced (Activate ''2026-07-15T02:00:00Z'') = Inr (t, False)"
proof -
  let ?m = "sample_ready\<lparr>bk_lifecycle := BkConfirmed\<rparr>"
  let ?r = "\<lparr>rc_idempotencyKey = '' c0'', rc_requestFingerprint = sample_print\<rparr>"
  have c: "booking_change sample_env (Activate ''2026-07-15T02:00:00Z'') sample_ready = Inr ?m"
    by (simp add: activation_def ready_abs machine_ready_def abs_booking_def sample_ready_def)
  have q: "booking_digest sample_env (JObj [(''operation'', JStr ''booking.activate''),
      (''payload'', JObj [(''activatedAt'', JStr ''2026-07-15T02:00:00Z'')])]) = Inr sample_print" by code_simp
  have r: "\<exists>x. CommandReceipt_parse ?r = Some x" by (rule exI[of _ "the (CommandReceipt_parse ?r)"]) code_simp
  have "\<exists>t. BookingState_parse sample_env (?m\<lparr>bk_revision := 1, bk_commandReceipts := [?r], bk_readiness := deriveReadiness ?m\<rparr>) = Some t"
    using sample_ready_wf r by (auto simp: BookingState_parse_def booking_wf_def sample_ready_def sample_booking_def sample_draft_def
        deriveReadiness_parse nullable_def nonneg_int_def safe_int_def max_safe_integer_def)
  moreover have "deriveReadiness (?m\<lparr>bk_revision := 1, bk_commandReceipts := [?r]\<rparr>) = deriveReadiness ?m"
    by (rule deriveReadiness_core) (simp add: same_core_def booking_client_def)
  ultimately have "\<exists>t. freezeBooking sample_env (?m\<lparr>bk_revision := 1, bk_commandReceipts := [?r]\<rparr>) = Inr t"
    by (simp add: freezeBooking_def)
  moreover have "bk_revision sample_ready = 0" "bk_commandReceipts sample_ready = []" by (simp_all add: sample_ready_def)
  ultimately show ?thesis using c q
    by (simp add: run_booking_transition transition_def booking_wf_parse[OF sample_ready_wf] inspectCommand_def sample_spaced_def)
qed

lemma untrimmed_key_not_replayed_witness:
  "\<exists>t. run_booking sample_env t sample_spaced (Activate ''2026-07-15T02:00:00Z'') = Inl (BookingConflict ''stale_revision'')"
proof -
  have "js_trim (cm_idempotencyKey sample_spaced) \<noteq> cm_idempotencyKey sample_spaced"
    by (simp add: sample_spaced_def js_trim_def js_space_def)
  then show ?thesis using sample_spaced_ok untrimmed_key_not_replayed by blast
qed

end
