(* ===== verification/Effects.thy ===== *)
theory Effects
  imports Prelude
begin

text \<open>
  Operations of a stateful class: functions from the state to the result, or the error thrown, and the
  state that is left behind.  They are composed with \<open>st_bind\<close>, so that what was changed before an error
  stays changed, as in the code.  The inversion rules give what a successful or a failing composition did;
  the evaluation rules run one on a concrete state.
\<close>

definition st_return :: "'a \<Rightarrow> 's \<Rightarrow> ('e + 'a) \<times> 's" where
  "st_return x s = (Inr x, s)"

definition st_throw :: "'e \<Rightarrow> 's \<Rightarrow> ('e + 'a) \<times> 's" where
  "st_throw e s = (Inl e, s)"

definition st_bind :: "('s \<Rightarrow> ('e + 'a) \<times> 's) \<Rightarrow> ('a \<Rightarrow> 's \<Rightarrow> ('e + 'b) \<times> 's) \<Rightarrow> 's \<Rightarrow> ('e + 'b) \<times> 's" where
  "st_bind m f s = (let r = m s in (case fst r of Inl e \<Rightarrow> (Inl e, snd r) | Inr x \<Rightarrow> f x (snd r)))"

definition st_ensure :: "bool \<Rightarrow> 'e \<Rightarrow> ('s \<Rightarrow> ('e + 'a) \<times> 's) \<Rightarrow> 's \<Rightarrow> ('e + 'a) \<times> 's" where
  "st_ensure ok e m s = (if ok then m s else (Inl e, s))"

definition st_lift :: "'e + 'a \<Rightarrow> 's \<Rightarrow> ('e + 'a) \<times> 's" where
  "st_lift r s = (r, s)"

lemma st_return_eq [simp]: "st_return x s = (r, t) \<longleftrightarrow> r = Inr x \<and> t = s"
  by (auto simp: st_return_def)

lemma st_throw_eq [simp]: "st_throw e s = (r, t) \<longleftrightarrow> r = Inl e \<and> t = s"
  by (auto simp: st_throw_def)

lemma st_lift_eq [simp]: "st_lift r s = (r', t) \<longleftrightarrow> r' = r \<and> t = s"
  by (auto simp: st_lift_def)

lemma st_bind_Inr [simp]: "st_bind m f s = (Inr y, t) \<longleftrightarrow> (\<exists>x u. m s = (Inr x, u) \<and> f x u = (Inr y, t))"
  by (cases "m s"; cases "fst (m s)") (auto simp: st_bind_def)

lemma st_bind_Inl:
  "st_bind m f s = (Inl e, t) \<longleftrightarrow> m s = (Inl e, t) \<or> (\<exists>x u. m s = (Inr x, u) \<and> f x u = (Inl e, t))"
  by (cases "m s"; cases "fst (m s)") (auto simp: st_bind_def)

lemma st_ensure_Inr [simp]: "st_ensure ok e m s = (Inr y, t) \<longleftrightarrow> ok \<and> m s = (Inr y, t)"
  by (simp add: st_ensure_def)

text \<open>Evaluation step by step: the continuation is looked at only when its turn comes.\<close>

lemma st_bind_eval: "st_bind m f s = (case m s of (r, t) \<Rightarrow> (case r of Inl e \<Rightarrow> (Inl e, t) | Inr x \<Rightarrow> f x t))"
  by (simp add: st_bind_def case_prod_beta Let_def)

lemma st_bind_lazy: "s = s' \<Longrightarrow> st_bind m f s = st_bind m f s'"
  by simp

lemma st_ensure_eval: "st_ensure ok e m s = (if ok then m s else (Inl e, s))"
  by (simp add: st_ensure_def)

lemma st_ensure_lazy: "ok = ok' \<Longrightarrow> st_ensure ok e m s = st_ensure ok' e m s"
  by simp

lemmas st_evals = st_bind_eval st_ensure_eval st_return_def st_throw_def st_lift_def

end
