(* ===== verification/Recipient_Access.thy ===== *)
theory Recipient_Access
  imports Contracts Effects
begin

text \<open>
  The recipient access service (\<open>packages/recipient-access/src/recipient-access.ts\<close>): delivered
  report versions, mailbox authentication by one-time codes, grants given by an owner or delegated
  through invitations, revocation, and the authorisation of every request.  An operation is a
  function from the service to its result and the service it leaves, also when it throws; the clock,
  the token factory and the code factory are read exactly as often as the code reads them.
\<close>

section \<open>Errors\<close>

datatype access_error = AccessDenied | AccessInput string | AccessConflict string

section \<open>State\<close>

datatype recipient_action = ReadReport | DownloadPdf | ViewCuratedMedia | ViewHistory | ContactInspector | InviteRecipient

fun action_text :: "recipient_action \<Rightarrow> string" where
  "action_text ReadReport = ''read_report''"
| "action_text DownloadPdf = ''download_pdf''"
| "action_text ViewCuratedMedia = ''view_curated_media''"
| "action_text ViewHistory = ''view_history''"
| "action_text ContactInspector = ''contact_inspector''"
| "action_text InviteRecipient = ''invite_recipient''"

record mailbox_session =
  ms_sessionId :: string
  ms_principalId :: string
  ms_email :: string
  ms_mailboxVerifiedAt :: string
  ms_authenticatedAt :: string
  ms_expiresAt :: string
  ms_active :: bool

record access_grant =
  gr_grantId :: string
  gr_organizationId :: string
  gr_jobId :: string
  gr_principalId :: string
  gr_verifiedEmail :: string
  gr_reportVersionId :: string
  gr_permittedModules :: "module_type list"
  gr_permittedActions :: "recipient_action list"
  gr_issuedBy :: string
  gr_issuedAt :: string
  gr_expiresAt :: string
  gr_active :: bool
  gr_revision :: int
  gr_parentGrantId :: "string option"
  gr_revokedAt :: "string option"
  gr_revokedBy :: "string option"
  gr_revocationReason :: "string option"

datatype invitation_state = InvSent | InvRedeemed | InvExpired | InvRevoked

record share_invitation =
  si_invitationId :: string
  si_inviterGrantId :: string
  si_intendedEmail :: string
  si_organizationId :: string
  si_jobId :: string
  si_reportVersionId :: string
  si_permittedModules :: "module_type list"
  si_permittedActions :: "recipient_action list"
  si_issuedBy :: string
  si_sentAt :: string
  si_expiresAt :: string
  si_tokenDigest :: string
  si_state :: invitation_state
  si_redeemedAt :: "string option"
  si_redeemedByPrincipalId :: "string option"
  si_revokedAt :: "string option"
  si_revokedBy :: "string option"

record invitation_view =
  iw_invitationId :: string
  iw_intendedEmail :: string
  iw_reportVersionId :: string
  iw_permittedModules :: "module_type list"
  iw_permittedActions :: "recipient_action list"
  iw_sentAt :: string
  iw_expiresAt :: string
  iw_state :: invitation_state

record authorisation_request =
  ar_organizationId :: string
  ar_jobId :: string
  ar_reportVersionId :: string
  ar_module :: module_type
  ar_action :: recipient_action

record mailbox_challenge =
  mc_challengeId :: string
  mc_email :: string
  mc_otpDigest :: string
  mc_issuedAt :: string
  mc_expiresAt :: string
  mc_failedAttempts :: int
  mc_consumedAt :: "string option"

record delivered_version =
  dv_organizationId :: string
  dv_jobId :: string
  dv_reportVersionId :: string
  dv_modules :: "module_type list"
  dv_deliveredAt :: string
  dv_withdrawnModules :: "module_type list"

datatype access_event_type = MailboxChallengeIssued | MailboxVerified | GrantIssued | GrantRevoked | InvitationSent
  | InvitationRedeemed | InvitationRevoked | RequestAuthorised | RequestDenied | VersionDelivered | ModuleWithdrawn

record access_event_fields =
  af_principalId :: "string option"
  af_grantId :: "string option"
  af_invitationId :: "string option"
  af_reportVersionId :: "string option"
  af_safeReason :: "string option"

record access_event =
  ae_eventId :: string
  ae_occurredAt :: string
  ae_type :: access_event_type
  ae_fields :: access_event_fields

definition no_fields :: access_event_fields where
  "no_fields = \<lparr>af_principalId = None, af_grantId = None, af_invitationId = None, af_reportVersionId = None, af_safeReason = None\<rparr>"

text \<open>The options of the service: the keyed digest of \<open>node:crypto\<close>, the token factory and the code
  factory are given as functions of the number of calls made before.\<close>

record recipient_options =
  ro_env :: env
  ro_secret :: string
  ro_hmac :: "string \<Rightarrow> string \<Rightarrow> string"
  ro_token :: "string \<Rightarrow> nat \<Rightarrow> string"
  ro_otp :: "nat \<Rightarrow> string"

record recipient_access =
  rs_grants :: "(string, access_grant) js_map"
  rs_invitations :: "(string, share_invitation) js_map"
  rs_challenges :: "(string, mailbox_challenge) js_map"
  rs_deliveredVersions :: "(string, delivered_version) js_map"
  rs_events :: "access_event list"
  rs_clock :: nat
  rs_tokens :: nat
  rs_otps :: nat

type_synonym 'r access_op = "recipient_access \<Rightarrow> (access_error + 'r) \<times> recipient_access"

definition newRecipientAccess :: "recipient_options \<Rightarrow> access_error + recipient_access" where
  "newRecipientAccess p = ensure (16 \<le> length (ro_secret p))
     (AccessInput ''Recipient access token hashing requires at least a 16-character secret'')
     (Inr \<lparr>rs_grants = [], rs_invitations = [], rs_challenges = [], rs_deliveredVersions = [], rs_events = [],
       rs_clock = 0, rs_tokens = 0, rs_otps = 0\<rparr>)"

section \<open>Helpers\<close>

definition readClock :: "recipient_options \<Rightarrow> int access_op" where
  "readClock p s = (Inr (clock (ro_env p) (rs_clock s)), s\<lparr>rs_clock := Suc (rs_clock s)\<rparr>)"

definition newToken :: "recipient_options \<Rightarrow> string \<Rightarrow> string access_op" where
  "newToken p prefix s = (Inr (ro_token p prefix (rs_tokens s)), s\<lparr>rs_tokens := Suc (rs_tokens s)\<rparr>)"

definition newOtp :: "recipient_options \<Rightarrow> string access_op" where
  "newOtp p s = (Inr (ro_otp p (rs_otps s)), s\<lparr>rs_otps := Suc (rs_otps s)\<rparr>)"

text \<open>Lower-casing of the 8-bit letters.\<close>

definition lower_char :: "char \<Rightarrow> char" where
  "lower_char c = (let n = (of_char c :: nat) in
     if (65 \<le> n \<and> n \<le> 90) \<or> (192 \<le> n \<and> n \<le> 222 \<and> n \<noteq> 215) then char_of (n + 32) else c)"

text \<open>The regular expression \<open>/^[^@\s]+@[^@\s]+\.[^@\s]+$/u\<close>: one at-sign between non-empty parts
  without white space, the second with a dot that is neither its first nor its last character.\<close>

definition mailbox_pattern :: "string \<Rightarrow> bool" where
  "mailbox_pattern s = (let l = takeWhile (\<lambda>c. c \<noteq> CHR ''@'') s; r = drop (Suc (length l)) s in
     l \<noteq> [] \<and> length l < length s \<and> list_all (\<lambda>c. \<not> js_space c) s \<and> list_all (\<lambda>c. c \<noteq> CHR ''@'') r
     \<and> list_ex (\<lambda>c. c = CHR ''.'') (butlast (drop 1 r)))"

definition canonicalEmail :: "string \<Rightarrow> access_error + string" where
  "canonicalEmail email = (let canonical = map lower_char (js_trim email) in
     ensure (mailbox_pattern canonical) (AccessInput ''A valid mailbox address is required'') (Inr canonical))"

definition assertFuture :: "recipient_options \<Rightarrow> string \<Rightarrow> int \<Rightarrow> string \<Rightarrow> access_error + unit" where
  "assertFuture p stamp now field = (case date_parse (ro_env p) stamp of
     None \<Rightarrow> Inl (AccessInput (field @ '' must be a future timestamp''))
   | Some t \<Rightarrow> ensure (now < t) (AccessInput (field @ '' must be a future timestamp'')) (Inr ()))"

definition isSubset :: "'a list \<Rightarrow> 'a list \<Rightarrow> bool" where
  "isSubset requested allowed \<longleftrightarrow> list_all (\<lambda>x. x \<in> set allowed) requested"

definition versionKey :: "string \<Rightarrow> string \<Rightarrow> string \<Rightarrow> string" where
  "versionKey organizationId jobId reportVersionId = organizationId @ '':'' @ jobId @ '':'' @ reportVersionId"

definition digest :: "recipient_options \<Rightarrow> string \<Rightarrow> string" where
  "digest p v = ro_hmac p (ro_secret p) v"

definition appendEvent :: "recipient_options \<Rightarrow> access_event_type \<Rightarrow> access_event_fields \<Rightarrow> unit access_op" where
  "appendEvent p ty flds =
     st_bind (newToken p ''access_event'') (\<lambda>eventId.
     st_bind (readClock p) (\<lambda>now s.
       (Inr (), s\<lparr>rs_events := rs_events s @ [\<lparr>ae_eventId = eventId, ae_occurredAt = to_iso now, ae_type = ty, ae_fields = flds\<rparr>]\<rparr>)))"

definition expired_at :: "recipient_options \<Rightarrow> string \<Rightarrow> int \<Rightarrow> bool" where
  "expired_at p stamp now \<longleftrightarrow> date_le (date_parse (ro_env p) stamp) (Some now)"

definition assertSession :: "recipient_options \<Rightarrow> mailbox_session \<Rightarrow> unit access_op" where
  "assertSession p session =
     st_ensure (ms_active session) AccessDenied (
     st_bind (readClock p) (\<lambda>now.
     st_ensure (\<not> expired_at p (ms_expiresAt session) now) AccessDenied (
     st_bind (readClock p) (\<lambda>now'.
     st_ensure (\<not> date_lt (Some now') (date_parse (ro_env p) (ms_mailboxVerifiedAt session))) AccessDenied (st_return ())))))"

definition requireGrant :: "string \<Rightarrow> access_grant access_op" where
  "requireGrant grantId s = (of_option AccessDenied (map_of (rs_grants s) grantId), s)"

definition requireDelivered :: "string \<Rightarrow> string \<Rightarrow> string \<Rightarrow> module_type list \<Rightarrow> delivered_version access_op" where
  "requireDelivered organizationId jobId reportVersionId modules s =
     (case map_of (rs_deliveredVersions s) (versionKey organizationId jobId reportVersionId) of
        None \<Rightarrow> (Inl AccessDenied, s)
      | Some d \<Rightarrow> (ensure (modules \<noteq> [] \<and> isSubset modules (dv_modules d)) AccessDenied (Inr d), s))"

text \<open>The walk over the ancestors of a grant, with the identifiers seen so far; the clock is read at
  every active ancestor.  It ends because each step sees a stored grant not seen before.\<close>

function lineage :: "recipient_options \<Rightarrow> (string, access_grant) js_map \<Rightarrow> string list \<Rightarrow> string option \<Rightarrow> nat \<Rightarrow> bool \<times> nat" where
  "lineage p grants seen None n = (True, n)"
| "lineage p grants seen (Some i) n =
     (if i \<in> set seen then (False, n)
      else case map_of grants i of
        None \<Rightarrow> (False, n)
      | Some parent \<Rightarrow>
          if \<not> gr_active parent then (False, n)
          else if expired_at p (gr_expiresAt parent) (clock (ro_env p) n) then (False, Suc n)
          else lineage p grants (i # seen) (gr_parentGrantId parent) (Suc n))"
  by pat_completeness auto

lemma lineage_descends:
  "map_of grants i = Some g \<Longrightarrow> i \<notin> set seen
     \<Longrightarrow> card (fst ` set grants - set (i # seen)) < card (fst ` set grants - set seen)"
proof (rule psubset_card_mono)
  assume "map_of grants i = Some g" and "i \<notin> set seen"
  then have "i \<in> fst ` set grants - set seen" by (force dest: map_of_SomeD)
  then show "fst ` set grants - set (i # seen) \<subset> fst ` set grants - set seen" by auto
qed simp

termination lineage
proof (relation "measure (\<lambda>(p, grants, seen, i, n). card (fst ` set grants - set seen))", goal_cases)
  case (2 p grants seen i n parent)
  then show ?case using lineage_descends[of grants i parent seen] by simp
qed simp

definition assertGrantLineageActive :: "recipient_options \<Rightarrow> access_grant \<Rightarrow> unit access_op" where
  "assertGrantLineageActive p g s =
     (let r = lineage p (rs_grants s) [gr_grantId g] (gr_parentGrantId g) (rs_clock s) in
      (ensure (fst r) AccessDenied (Inr ()), s\<lparr>rs_clock := snd r\<rparr>))"

definition invitationState :: "recipient_options \<Rightarrow> share_invitation \<Rightarrow> invitation_state access_op" where
  "invitationState p i =
     (if si_state i = InvSent
      then st_bind (readClock p) (\<lambda>now. st_return (if expired_at p (si_expiresAt i) now then InvExpired else InvSent))
      else st_return (si_state i))"

definition invitationView :: "recipient_options \<Rightarrow> share_invitation \<Rightarrow> invitation_view access_op" where
  "invitationView p i =
     st_bind (invitationState p i) (\<lambda>st. st_return \<lparr>iw_invitationId = si_invitationId i, iw_intendedEmail = si_intendedEmail i,
       iw_reportVersionId = si_reportVersionId i, iw_permittedModules = si_permittedModules i,
       iw_permittedActions = si_permittedActions i, iw_sentAt = si_sentAt i, iw_expiresAt = si_expiresAt i, iw_state = st\<rparr>)"

section \<open>Delivered versions\<close>

record version_input =
  vi_organizationId :: string
  vi_jobId :: string
  vi_reportVersionId :: string
  vi_modules :: "module_type list"
  vi_deliveredAt :: string

definition registerDeliveredVersion :: "recipient_options \<Rightarrow> version_input \<Rightarrow> delivered_version access_op" where
  "registerDeliveredVersion p v s =
     (let key = versionKey (vi_organizationId v) (vi_jobId v) (vi_reportVersionId v) in
      case map_of (rs_deliveredVersions s) key of
        Some existing \<Rightarrow> (ensure (dv_modules existing = js_unique (vi_modules v))
          (AccessConflict ''A delivered report version cannot be rewritten with another module set'') (Inr existing), s)
      | None \<Rightarrow>
          let delivered = \<lparr>dv_organizationId = vi_organizationId v, dv_jobId = vi_jobId v, dv_reportVersionId = vi_reportVersionId v,
            dv_modules = js_unique (vi_modules v), dv_deliveredAt = vi_deliveredAt v, dv_withdrawnModules = []\<rparr> in
          st_bind (appendEvent p VersionDelivered (no_fields\<lparr>af_reportVersionId := Some (vi_reportVersionId v)\<rparr>)) (\<lambda>_. st_return delivered)
            (s\<lparr>rs_deliveredVersions := map_set key delivered (rs_deliveredVersions s)\<rparr>))"

definition withdrawDeliveredModule ::
  "recipient_options \<Rightarrow> string \<Rightarrow> string \<Rightarrow> string \<Rightarrow> module_type \<Rightarrow> delivered_version access_op" where
  "withdrawDeliveredModule p organizationId jobId reportVersionId m s =
     (let key = versionKey organizationId jobId reportVersionId;
          missing = (Inl (AccessConflict ''Delivered module version was not found''), s) in
      case map_of (rs_deliveredVersions s) key of
        None \<Rightarrow> missing
      | Some d \<Rightarrow> if m \<notin> set (dv_modules d) then missing else
          let d' = d\<lparr>dv_withdrawnModules := js_unique (dv_withdrawnModules d @ [m])\<rparr> in
          st_bind (appendEvent p ModuleWithdrawn (no_fields\<lparr>af_reportVersionId := Some reportVersionId,
              af_safeReason := Some (module_text m)\<rparr>)) (\<lambda>_. st_return d')
            (s\<lparr>rs_deliveredVersions := map_set key d' (rs_deliveredVersions s)\<rparr>))"

section \<open>Mailbox authentication\<close>

definition six_digits :: "string \<Rightarrow> bool" where
  "six_digits s \<longleftrightarrow> length s = 6 \<and> list_all is_digit s"

definition put_challenge :: "mailbox_challenge \<Rightarrow> unit access_op" where
  "put_challenge c s = (Inr (), s\<lparr>rs_challenges := map_set (mc_challengeId c) c (rs_challenges s)\<rparr>)"

definition otp_text :: "string \<Rightarrow> string \<Rightarrow> string" where
  "otp_text challengeId otp = ''otp:'' @ challengeId @ '':'' @ otp"

definition beginMailboxAuthentication :: "recipient_options \<Rightarrow> string \<Rightarrow> (string \<times> string \<times> string) access_op" where
  "beginMailboxAuthentication p email =
     st_bind (readClock p) (\<lambda>now.
     st_bind (newToken p ''challenge'') (\<lambda>challengeId.
     st_bind (newOtp p) (\<lambda>otp.
     st_ensure (six_digits otp) (AccessInput ''OTP factory must return six digits'') (
     st_bind (st_lift (canonicalEmail email)) (\<lambda>canonical.
     st_bind (put_challenge \<lparr>mc_challengeId = challengeId, mc_email = canonical, mc_otpDigest = digest p (otp_text challengeId otp),
       mc_issuedAt = to_iso now, mc_expiresAt = to_iso (now + 600000), mc_failedAttempts = 0, mc_consumedAt = None\<rparr>) (\<lambda>_.
     st_bind (appendEvent p MailboxChallengeIssued no_fields) (\<lambda>_.
     st_return (challengeId, otp, to_iso (now + 600000)))))))))"

definition challenge_open :: "recipient_options \<Rightarrow> int \<Rightarrow> mailbox_challenge \<Rightarrow> bool" where
  "challenge_open p now c \<longleftrightarrow> mc_consumedAt c = None \<and> \<not> expired_at p (mc_expiresAt c) now \<and> mc_failedAttempts c < 5"

definition verifyMailboxAuthentication :: "recipient_options \<Rightarrow> string \<Rightarrow> string \<Rightarrow> string \<Rightarrow> mailbox_session access_op" where
  "verifyMailboxAuthentication p challengeId otp principalId =
     st_bind (readClock p) (\<lambda>now s.
     case map_of (rs_challenges s) challengeId of
       None \<Rightarrow> (Inl AccessDenied, s)
     | Some c \<Rightarrow>
         if \<not> challenge_open p now c then (Inl AccessDenied, s)
         else if digest p (otp_text (mc_challengeId c) otp) \<noteq> mc_otpDigest c
         then st_bind (put_challenge (c\<lparr>mc_failedAttempts := mc_failedAttempts c + 1\<rparr>)) (\<lambda>_. st_throw AccessDenied) s
         else st_bind (put_challenge (c\<lparr>mc_consumedAt := Some (to_iso now)\<rparr>)) (\<lambda>_.
              st_bind (newToken p ''session'') (\<lambda>sessionId.
              st_bind (appendEvent p MailboxVerified (no_fields\<lparr>af_principalId := Some principalId\<rparr>)) (\<lambda>_.
              st_return \<lparr>ms_sessionId = sessionId, ms_principalId = principalId, ms_email = mc_email c,
                ms_mailboxVerifiedAt = to_iso now, ms_authenticatedAt = to_iso now, ms_expiresAt = to_iso (now + 3600000),
                ms_active = True\<rparr>))) s)"

section \<open>Grants\<close>

record owner_grant_input =
  og_organizationId :: string
  og_jobId :: string
  og_principalId :: string
  og_verifiedEmail :: string
  og_reportVersionId :: string
  og_permittedModules :: "module_type list"
  og_permittedActions :: "recipient_action list"
  og_issuedBy :: string
  og_expiresAt :: string

definition put_grant :: "access_grant \<Rightarrow> unit access_op" where
  "put_grant g s = (Inr (), s\<lparr>rs_grants := map_set (gr_grantId g) g (rs_grants s)\<rparr>)"

definition grant_fields :: "access_grant \<Rightarrow> access_event_fields" where
  "grant_fields g = no_fields\<lparr>af_principalId := Some (gr_principalId g), af_grantId := Some (gr_grantId g),
     af_reportVersionId := Some (gr_reportVersionId g)\<rparr>"

definition new_grant :: "owner_grant_input \<Rightarrow> string option \<Rightarrow> string \<Rightarrow> string \<Rightarrow> string \<Rightarrow> access_grant" where
  "new_grant i parentGrantId grantId email issuedAt =
     \<lparr>gr_grantId = grantId, gr_organizationId = og_organizationId i, gr_jobId = og_jobId i,
       gr_principalId = og_principalId i, gr_verifiedEmail = email, gr_reportVersionId = og_reportVersionId i,
       gr_permittedModules = js_unique (og_permittedModules i), gr_permittedActions = js_unique (og_permittedActions i),
       gr_issuedBy = og_issuedBy i, gr_issuedAt = issuedAt, gr_expiresAt = og_expiresAt i, gr_active = True, gr_revision = 1,
       gr_parentGrantId = parentGrantId, gr_revokedAt = None, gr_revokedBy = None, gr_revocationReason = None\<rparr>"

definition storeGrant :: "recipient_options \<Rightarrow> owner_grant_input \<Rightarrow> string option \<Rightarrow> string option \<Rightarrow> access_grant access_op" where
  "storeGrant p i parentGrantId issuedAt =
     st_bind (readClock p) (\<lambda>now.
     st_bind (newToken p ''grant'') (\<lambda>grantId.
     st_bind (st_lift (canonicalEmail (og_verifiedEmail i))) (\<lambda>email.
     let g = new_grant i parentGrantId grantId email (case issuedAt of None \<Rightarrow> to_iso now | Some t \<Rightarrow> t) in
     st_bind (put_grant g) (\<lambda>_. st_bind (appendEvent p GrantIssued (grant_fields g)) (\<lambda>_. st_return g)))))"

definition issueOwnerGrant :: "recipient_options \<Rightarrow> owner_grant_input \<Rightarrow> access_grant access_op" where
  "issueOwnerGrant p i =
     st_bind (readClock p) (\<lambda>now.
     st_bind (st_lift (assertFuture p (og_expiresAt i) now ''Grant expiry'')) (\<lambda>_.
     st_bind (requireDelivered (og_organizationId i) (og_jobId i) (og_reportVersionId i) (og_permittedModules i)) (\<lambda>_.
     st_ensure (og_permittedModules i \<noteq> [] \<and> og_permittedActions i \<noteq> [])
       (AccessInput ''A grant needs at least one module and one action'') (
     st_bind (st_lift (canonicalEmail (og_verifiedEmail i))) (\<lambda>email.
     storeGrant p (i\<lparr>og_verifiedEmail := email, og_permittedModules := js_unique (og_permittedModules i),
       og_permittedActions := js_unique (og_permittedActions i)\<rparr>) None None)))))"

definition revoked_grant :: "access_grant \<Rightarrow> string \<Rightarrow> string \<Rightarrow> string \<Rightarrow> access_grant" where
  "revoked_grant g revokedAt revokedBy reason = g\<lparr>gr_active := False, gr_revision := gr_revision g + 1,
     gr_revokedAt := Some revokedAt, gr_revokedBy := Some revokedBy, gr_revocationReason := Some reason\<rparr>"

definition revokeGrant :: "recipient_options \<Rightarrow> string \<Rightarrow> string \<Rightarrow> string \<Rightarrow> access_grant access_op" where
  "revokeGrant p grantId revokedBy reason =
     st_bind (requireGrant grantId) (\<lambda>g.
     if \<not> gr_active g then st_return g else
     st_ensure (js_trim reason \<noteq> []) (AccessInput ''A revocation reason is required'') (
     st_bind (readClock p) (\<lambda>now.
     let revoked = revoked_grant g (to_iso now) revokedBy (js_trim reason) in
     st_bind (put_grant revoked) (\<lambda>_. st_bind (appendEvent p GrantRevoked (grant_fields g)) (\<lambda>_. st_return revoked)))))"

section \<open>Authorisation\<close>

definition authorise_checks ::
  "recipient_options \<Rightarrow> mailbox_session \<Rightarrow> string \<Rightarrow> authorisation_request \<Rightarrow> access_grant access_op" where
  "authorise_checks p session grantId rq =
     st_bind (assertSession p session) (\<lambda>_.
     st_bind (requireGrant grantId) (\<lambda>g.
     st_bind (assertGrantLineageActive p g) (\<lambda>_.
     st_bind (requireDelivered (ar_organizationId rq) (ar_jobId rq) (ar_reportVersionId rq) [ar_module rq]) (\<lambda>d.
     st_ensure (gr_active g \<and> gr_principalId g = ms_principalId session) AccessDenied (
     st_bind (st_lift (canonicalEmail (ms_email session))) (\<lambda>email.
     st_ensure (gr_verifiedEmail g = email) AccessDenied (
     st_bind (readClock p) (\<lambda>now.
     st_ensure (\<not> expired_at p (gr_expiresAt g) now) AccessDenied (
     st_ensure (gr_organizationId g = ar_organizationId rq \<and> gr_jobId g = ar_jobId rq
         \<and> gr_reportVersionId g = ar_reportVersionId rq \<and> ar_module rq \<in> set (gr_permittedModules g)
         \<and> ar_action rq \<in> set (gr_permittedActions g) \<and> ar_module rq \<notin> set (dv_withdrawnModules d)) AccessDenied (
     st_bind (appendEvent p RequestAuthorised (no_fields\<lparr>af_principalId := Some (ms_principalId session),
         af_grantId := Some grantId, af_reportVersionId := Some (ar_reportVersionId rq),
         af_safeReason := Some (module_text (ar_module rq) @ '':'' @ action_text (ar_action rq))\<rparr>)) (\<lambda>_. st_return g)))))))))))"

text \<open>Every error of the checks becomes a recorded denial.\<close>

definition authorise ::
  "recipient_options \<Rightarrow> mailbox_session \<Rightarrow> string \<Rightarrow> authorisation_request \<Rightarrow> access_grant access_op" where
  "authorise p session grantId rq s =
     (let r = authorise_checks p session grantId rq s in
      case fst r of Inr g \<Rightarrow> r
      | Inl e \<Rightarrow> st_bind (appendEvent p RequestDenied (no_fields\<lparr>af_principalId := Some (ms_principalId session),
          af_grantId := Some grantId, af_reportVersionId := Some (ar_reportVersionId rq),
          af_safeReason := Some ''capability_check_failed''\<rparr>)) (\<lambda>_. st_throw AccessDenied) (snd r))"

text \<open>The guarded operation is any computation on the service, so it stands for whatever else runs
  while it is awaited.\<close>

definition withAuthorisedRequest ::
  "recipient_options \<Rightarrow> mailbox_session \<Rightarrow> string \<Rightarrow> authorisation_request \<Rightarrow> 'r access_op \<Rightarrow> 'r access_op" where
  "withAuthorisedRequest p session grantId rq operation =
     st_bind (authorise p session grantId rq) (\<lambda>before.
     st_bind operation (\<lambda>result.
     st_bind (authorise p session grantId rq) (\<lambda>after.
     st_ensure (gr_revision after = gr_revision before \<and> gr_active after) AccessDenied (st_return result))))"

section \<open>Invitations\<close>

record share_invitation_input =
  ii_inviterGrantId :: string
  ii_inviterSession :: mailbox_session
  ii_intendedEmail :: string
  ii_permittedModules :: "module_type list"
  ii_permittedActions :: "recipient_action list"
  ii_expiresAt :: string

definition put_invitation :: "share_invitation \<Rightarrow> unit access_op" where
  "put_invitation i s = (Inr (), s\<lparr>rs_invitations := map_set (si_invitationId i) i (rs_invitations s)\<rparr>)"

definition invite_text :: "string \<Rightarrow> string" where
  "invite_text token = ''invite:'' @ token"

definition new_invitation ::
  "recipient_options \<Rightarrow> share_invitation_input \<Rightarrow> access_grant \<Rightarrow> string \<Rightarrow> string \<Rightarrow> string \<Rightarrow> string \<Rightarrow> share_invitation" where
  "new_invitation p i inviter invitationId email sentAt token =
     \<lparr>si_invitationId = invitationId, si_inviterGrantId = gr_grantId inviter, si_intendedEmail = email,
       si_organizationId = gr_organizationId inviter, si_jobId = gr_jobId inviter,
       si_reportVersionId = gr_reportVersionId inviter, si_permittedModules = js_unique (ii_permittedModules i),
       si_permittedActions = js_unique (ii_permittedActions i), si_issuedBy = ms_principalId (ii_inviterSession i),
       si_sentAt = sentAt, si_expiresAt = ii_expiresAt i, si_tokenDigest = digest p (invite_text token),
       si_state = InvSent, si_redeemedAt = None, si_redeemedByPrincipalId = None, si_revokedAt = None, si_revokedBy = None\<rparr>"

definition createShareInvitation :: "recipient_options \<Rightarrow> share_invitation_input \<Rightarrow> (invitation_view \<times> string) access_op" where
  "createShareInvitation p i =
     st_bind (readClock p) (\<lambda>now.
     st_bind (requireGrant (ii_inviterGrantId i)) (\<lambda>inviter.
     st_bind (authorise p (ii_inviterSession i) (gr_grantId inviter) \<lparr>ar_organizationId = gr_organizationId inviter,
       ar_jobId = gr_jobId inviter, ar_reportVersionId = gr_reportVersionId inviter,
       ar_module = (case gr_permittedModules inviter of [] \<Rightarrow> Building | m # ms \<Rightarrow> m), ar_action = InviteRecipient\<rparr>) (\<lambda>_.
     st_bind (st_lift (assertFuture p (ii_expiresAt i) now ''Invitation expiry'')) (\<lambda>_.
     st_ensure (\<not> date_lt (date_parse (ro_env p) (gr_expiresAt inviter)) (date_parse (ro_env p) (ii_expiresAt i))) AccessDenied (
     st_ensure (ii_permittedModules i \<noteq> [] \<and> ii_permittedActions i \<noteq> []
         \<and> isSubset (ii_permittedModules i) (gr_permittedModules inviter)
         \<and> isSubset (ii_permittedActions i) (gr_permittedActions inviter)
         \<and> InviteRecipient \<notin> set (ii_permittedActions i)) AccessDenied (
     st_bind (newToken p ''invite'') (\<lambda>token.
     st_bind (newToken p ''invitation'') (\<lambda>invitationId.
     st_bind (st_lift (canonicalEmail (ii_intendedEmail i))) (\<lambda>email.
     let inv = new_invitation p i inviter invitationId email (to_iso now) token in
     st_bind (put_invitation inv) (\<lambda>_.
     st_bind (appendEvent p InvitationSent (no_fields\<lparr>af_principalId := Some (ms_principalId (ii_inviterSession i)),
       af_grantId := Some (gr_grantId inviter), af_invitationId := Some invitationId,
       af_reportVersionId := Some (gr_reportVersionId inviter)\<rparr>)) (\<lambda>_.
     st_bind (invitationView p inv) (\<lambda>view. st_return (view, token)))))))))))))"

definition find_by_token :: "recipient_options \<Rightarrow> string \<Rightarrow> recipient_access \<Rightarrow> share_invitation option" where
  "find_by_token p token s = List.find (\<lambda>i. si_tokenDigest i = digest p (invite_text token)) (map snd (rs_invitations s))"

definition findInvitation :: "recipient_options \<Rightarrow> string \<Rightarrow> share_invitation access_op" where
  "findInvitation p token s = (of_option AccessDenied (find_by_token p token s), s)"

definition redemption_input :: "share_invitation \<Rightarrow> string \<Rightarrow> owner_grant_input" where
  "redemption_input si principalId = \<lparr>og_organizationId = si_organizationId si, og_jobId = si_jobId si,
       og_principalId = principalId, og_verifiedEmail = si_intendedEmail si,
       og_reportVersionId = si_reportVersionId si, og_permittedModules = si_permittedModules si,
       og_permittedActions = si_permittedActions si, og_issuedBy = si_issuedBy si, og_expiresAt = si_expiresAt si\<rparr>"

definition redeemInvitation :: "recipient_options \<Rightarrow> string \<Rightarrow> mailbox_session \<Rightarrow> access_grant access_op" where
  "redeemInvitation p token session =
     st_bind (assertSession p session) (\<lambda>_.
     st_bind (readClock p) (\<lambda>now.
     st_bind (findInvitation p token) (\<lambda>inv.
     st_bind (invitationState p inv) (\<lambda>st.
     st_ensure (st = InvSent) AccessDenied (
     st_bind (st_lift (canonicalEmail (ms_email session))) (\<lambda>email.
     st_ensure (si_intendedEmail inv = email) AccessDenied (
     st_bind (requireGrant (si_inviterGrantId inv)) (\<lambda>inviter.
     st_bind (assertGrantLineageActive p inviter) (\<lambda>_.
     st_ensure (gr_active inviter \<and> \<not> expired_at p (gr_expiresAt inviter) now) AccessDenied (
     st_bind (put_invitation (inv\<lparr>si_state := InvRedeemed, si_redeemedAt := Some (to_iso now),
       si_redeemedByPrincipalId := Some (ms_principalId session)\<rparr>)) (\<lambda>_.
     st_bind (storeGrant p (redemption_input inv (ms_principalId session)) (Some (gr_grantId inviter)) (Some (to_iso now))) (\<lambda>g.
     st_bind (appendEvent p InvitationRedeemed (no_fields\<lparr>af_principalId := Some (ms_principalId session),
       af_grantId := Some (gr_grantId g), af_invitationId := Some (si_invitationId inv),
       af_reportVersionId := Some (gr_reportVersionId g)\<rparr>)) (\<lambda>_. st_return g)))))))))))))"

definition invitation :: "recipient_options \<Rightarrow> string \<Rightarrow> invitation_view access_op" where
  "invitation p invitationId s = (case map_of (rs_invitations s) invitationId of
     None \<Rightarrow> (Inl AccessDenied, s) | Some i \<Rightarrow> invitationView p i s)"

definition revokeInvitation :: "recipient_options \<Rightarrow> string \<Rightarrow> mailbox_session \<Rightarrow> invitation_view access_op" where
  "revokeInvitation p invitationId actor =
     st_bind (assertSession p actor) (\<lambda>_ s.
     case map_of (rs_invitations s) invitationId of
       None \<Rightarrow> (Inl AccessDenied, s)
     | Some i \<Rightarrow>
         st_ensure (si_issuedBy i = ms_principalId actor \<and> si_state i = InvSent) AccessDenied (
         st_bind (readClock p) (\<lambda>now.
         let revoked = i\<lparr>si_state := InvRevoked, si_revokedAt := Some (to_iso now), si_revokedBy := Some (ms_principalId actor)\<rparr> in
         st_bind (put_invitation revoked) (\<lambda>_.
         st_bind (appendEvent p InvitationRevoked (no_fields\<lparr>af_principalId := Some (ms_principalId actor),
           af_grantId := Some (si_inviterGrantId i), af_invitationId := Some invitationId,
           af_reportVersionId := Some (si_reportVersionId i)\<rparr>)) (\<lambda>_. invitationView p revoked)))) s)"

definition grant :: "string \<Rightarrow> access_grant access_op" where
  "grant grantId = requireGrant grantId"

definition access_events :: "recipient_access \<Rightarrow> access_event list" where
  "access_events s = rs_events s"

end
