(* ===== verification/Recipient_Invariants.thy ===== *)
theory Recipient_Invariants
  imports Recipient_Access
begin

text \<open>
  What the recipient access service keeps: grants are only ever revoked, invitations only redeemed or
  revoked, challenges only counted up and consumed, delivered modules only withdrawn, and every
  delegated grant stays within the grant it was delegated from.
\<close>

section \<open>Quiet operations\<close>

text \<open>An operation is quiet when it changes nothing but the clock, the token counters and the log.\<close>

definition store_le :: "recipient_access \<Rightarrow> recipient_access \<Rightarrow> bool" where
  "store_le s t \<longleftrightarrow> rs_grants t = rs_grants s \<and> rs_invitations t = rs_invitations s \<and> rs_challenges t = rs_challenges s
     \<and> rs_deliveredVersions t = rs_deliveredVersions s \<and> rs_tokens s \<le> rs_tokens t \<and> rs_clock s \<le> rs_clock t"

definition quiet :: "'r access_op \<Rightarrow> bool" where
  "quiet m \<longleftrightarrow> (\<forall>s. store_le s (snd (m s)))"

lemma store_le_refl [simp]: "store_le s s"
  by (simp add: store_le_def)

lemma store_le_trans: "store_le s t \<Longrightarrow> store_le t u \<Longrightarrow> store_le s u"
  by (simp add: store_le_def)

named_theorems quiets

lemma quiet_basic [quiets]: "quiet (st_return x)" "quiet (st_throw e)" "quiet (st_lift r)" "quiet (readClock p)"
  "quiet (newToken p pre)" "quiet (newOtp p)" "quiet (requireGrant k)" "quiet (findInvitation p token)"
  by (simp_all add: quiet_def st_return_def st_throw_def st_lift_def readClock_def newToken_def newOtp_def requireGrant_def
      findInvitation_def store_le_def)

lemma quiet_requireDelivered [quiets]: "quiet (requireDelivered a b c ms)"
  by (simp add: quiet_def requireDelivered_def split: option.split)

lemma lineage_clock: "n \<le> snd (lineage p grants seen q n)"
  by (induction p grants seen q n rule: lineage.induct) (auto split: option.split intro: le_SucI Suc_leD)

lemma quiet_lineage [quiets]: "quiet (assertGrantLineageActive p g)"
  using lineage_clock
  by (simp add: quiet_def assertGrantLineageActive_def Let_def store_le_def)

lemma quiet_ensure [quiets]: "quiet m \<Longrightarrow> quiet (st_ensure ok e m)"
  by (simp add: quiet_def st_ensure_def)

lemma quiet_bind [quiets]: "quiet m \<Longrightarrow> (\<And>x. quiet (f x)) \<Longrightarrow> quiet (st_bind m f)"
  unfolding quiet_def st_bind_def Let_def by (metis store_le_trans snd_conv sum.case_eq_if)

lemma quiet_appendEvent [quiets]: "quiet (appendEvent p ty flds)"
proof -
  have "quiet (\<lambda>s. (Inr (), s\<lparr>rs_events := rs_events s @ [e]\<rparr>))" for e
    by (simp add: quiet_def store_le_def)
  then show ?thesis unfolding appendEvent_def by (intro quiets)
qed

lemma quiet_session [quiets]: "quiet (assertSession p session)"
  unfolding assertSession_def by (intro quiets)

lemma quiet_invitationState [quiets]: "quiet (invitationState p i)"
  unfolding invitationState_def by (simp add: quiets)

lemma quiet_invitationView [quiets]: "quiet (invitationView p i)"
  unfolding invitationView_def by (intro quiets)

lemma quiet_checks [quiets]: "quiet (authorise_checks p session k rq)"
  unfolding authorise_checks_def by (intro quiets)

lemma quiet_authorise [quiets]: "quiet (authorise p session k rq)"
  unfolding quiet_def
proof
  fix s
  let ?r = "authorise_checks p session k rq s"
  have c: "store_le s (snd ?r)" using quiet_checks unfolding quiet_def by blast
  show "store_le s (snd (authorise p session k rq s))"
  proof (cases "fst ?r")
    case (Inl e)
    let ?d = "st_bind (appendEvent p RequestDenied (no_fields\<lparr>af_principalId := Some (ms_principalId session),
          af_grantId := Some k, af_reportVersionId := Some (ar_reportVersionId rq),
          af_safeReason := Some ''capability_check_failed''\<rparr>)) (\<lambda>_. st_throw AccessDenied) :: access_grant access_op"
    have "quiet ?d" by (intro quiets)
    then have "store_le (snd ?r) (snd (?d (snd ?r)))" unfolding quiet_def by blast
    with c Inl show ?thesis by (simp add: authorise_def Let_def store_le_trans[of s])
  next
    case (Inr g)
    with c show ?thesis by (simp add: authorise_def Let_def)
  qed
qed

lemma quiet_invitation [quiets]: "quiet (invitation p k)"
  using quiet_invitationView[of p] by (auto simp: quiet_def invitation_def split: option.split)

lemma quiet_grant [quiets]: "quiet (grant k)"
  unfolding grant_def by (rule quiets)

text \<open>Reasoning forward through an operation: quiet steps carry a property of the store that started
  with, up to the one step that changes it.\<close>

lemma after_quiet:
  assumes "store_le s0 s" and "quiet m" and "\<And>t. store_le s0 t \<Longrightarrow> P t"
    and "\<And>x t. m s = (Inr x, t) \<Longrightarrow> store_le s0 t \<Longrightarrow> P (snd (f x t))"
  shows "P (snd (st_bind m f s))"
proof -
  have t: "store_le s0 (snd (m s))" using assms(1,2) store_le_trans unfolding quiet_def by blast
  show ?thesis
  proof (cases "fst (m s)")
    case (Inl e)
    then show ?thesis using assms(3)[OF t] by (simp add: st_bind_def Let_def)
  next
    case (Inr x)
    then have "m s = (Inr x, snd (m s))" by (metis prod.collapse)
    from assms(4)[OF this t] Inr show ?thesis by (simp add: st_bind_def Let_def)
  qed
qed

lemma after_ensure:
  assumes "store_le s0 s" and "\<And>t. store_le s0 t \<Longrightarrow> P t" and "ok \<Longrightarrow> P (snd (m s))"
  shows "P (snd (st_ensure ok e m s))"
  using assms by (simp add: st_ensure_def)

lemma quiet_tail: "store_le s0 s \<Longrightarrow> quiet m \<Longrightarrow> (\<And>t. store_le s0 t \<Longrightarrow> P t) \<Longrightarrow> P (snd (m s))"
  unfolding quiet_def using store_le_trans by blast

section \<open>The order of services\<close>

definition grant_le :: "access_grant \<Rightarrow> access_grant \<Rightarrow> bool" where
  "grant_le g g' \<longleftrightarrow> g' = g \<or> (gr_active g \<and> (\<exists>a b c. g' = revoked_grant g a b c))"

definition invitation_le :: "share_invitation \<Rightarrow> share_invitation \<Rightarrow> bool" where
  "invitation_le i i' \<longleftrightarrow> i' = i \<or> (si_state i = InvSent \<and> si_state i' \<noteq> InvSent \<and> si_invitationId i' = si_invitationId i
     \<and> si_inviterGrantId i' = si_inviterGrantId i \<and> si_organizationId i' = si_organizationId i \<and> si_jobId i' = si_jobId i
     \<and> si_reportVersionId i' = si_reportVersionId i \<and> si_permittedModules i' = si_permittedModules i
     \<and> si_permittedActions i' = si_permittedActions i \<and> si_expiresAt i' = si_expiresAt i \<and> si_tokenDigest i' = si_tokenDigest i)"

definition challenge_le :: "mailbox_challenge \<Rightarrow> mailbox_challenge \<Rightarrow> bool" where
  "challenge_le c c' \<longleftrightarrow> c' = c \<or> (mc_consumedAt c = None \<and> mc_failedAttempts c < 5 \<and> mc_otpDigest c' = mc_otpDigest c
     \<and> mc_challengeId c' = mc_challengeId c \<and> mc_expiresAt c' = mc_expiresAt c \<and> mc_failedAttempts c \<le> mc_failedAttempts c' \<and> mc_failedAttempts c' \<le> 5)"

definition version_le :: "delivered_version \<Rightarrow> delivered_version \<Rightarrow> bool" where
  "version_le d d' \<longleftrightarrow> dv_modules d' = dv_modules d \<and> set (dv_withdrawnModules d) \<subseteq> set (dv_withdrawnModules d')"

definition entries_le :: "('v \<Rightarrow> 'v \<Rightarrow> bool) \<Rightarrow> ('k, 'v) js_map \<Rightarrow> ('k, 'v) js_map \<Rightarrow> bool" where
  "entries_le le m m' \<longleftrightarrow> (\<exists>xs ys. m' = xs @ ys \<and> list_all2 (\<lambda>x y. fst y = fst x \<and> le (snd x) (snd y)) m xs)"

definition access_le :: "recipient_access \<Rightarrow> recipient_access \<Rightarrow> bool" where
  "access_le s t \<longleftrightarrow> entries_le grant_le (rs_grants s) (rs_grants t) \<and> entries_le invitation_le (rs_invitations s) (rs_invitations t)
     \<and> entries_le challenge_le (rs_challenges s) (rs_challenges t)
     \<and> entries_le version_le (rs_deliveredVersions s) (rs_deliveredVersions t) \<and> rs_tokens s \<le> rs_tokens t
     \<and> rs_clock s \<le> rs_clock t"

lemma entries_le_refl: "(\<And>x. le x x) \<Longrightarrow> entries_le le m m"
  unfolding entries_le_def by (intro exI[of _ m] exI[of _ "[]"]) (simp add: list_all2_conv_all_nth)

lemma entries_le_trans:
  assumes "\<And>x y z. le x y \<Longrightarrow> le y z \<Longrightarrow> le x z" and "entries_le le m n" and "entries_le le n k"
  shows "entries_le le m k"
proof -
  let ?r = "\<lambda>x y. fst y = fst x \<and> le (snd x) (snd y)"
  from assms(2) obtain xs ys where n: "n = xs @ ys" "list_all2 ?r m xs" unfolding entries_le_def by blast
  from assms(3) obtain us vs where k: "k = us @ vs" "list_all2 ?r n us" unfolding entries_le_def by blast
  from k(2) n(1) obtain us1 us2 where u: "us = us1 @ us2" "list_all2 ?r xs us1" by (auto simp: list_all2_append1)
  have "list_all2 ?r m us1"
  proof (rule list_all2_trans[OF _ n(2) u(2)])
    fix a b c
    assume "?r a b" and "?r b c"
    then show "?r a c" using assms(1)[of "snd a" "snd b" "snd c"] by simp
  qed
  then show ?thesis unfolding entries_le_def using k(1) u(1) by (intro exI[of _ us1] exI[of _ "us2 @ vs"]) simp
qed

lemma entries_le_map_of:
  assumes "entries_le le m m'" and "map_of m k = Some x"
  shows "\<exists>y. map_of m' k = Some y \<and> le x y"
proof -
  from assms(1) obtain xs ys where m': "m' = xs @ ys" and l: "list_all2 (\<lambda>x y. fst y = fst x \<and> le (snd x) (snd y)) m xs"
    unfolding entries_le_def by blast
  from l assms(2) have "\<exists>y. map_of xs k = Some y \<and> le x y"
    by (induction rule: list_all2_induct) (auto split: if_splits)
  then show ?thesis by (auto simp: m' map_add_Some_iff)
qed

lemma entries_le_update:
  assumes "\<And>x. le x x" and "\<And>x. map_of m k = Some x \<Longrightarrow> le x v"
  shows "entries_le le m (map_set k v m)"
proof (cases "map_of m k")
  case None
  then show ?thesis unfolding entries_le_def using assms(1)
    by (intro exI[of _ m] exI[of _ "[(k, v)]"]) (simp add: map_set_new list_all2_conv_all_nth)
next
  case (Some x)
  have "list_all2 (\<lambda>x y. fst y = fst x \<and> le (snd x) (snd y)) m (map_set k v m)"
    using Some assms(2)
  proof (induction m)
    case (Cons a m)
    show ?case
    proof (cases "fst a = k")
      case True
      have "list_all2 (\<lambda>x y. fst y = fst x \<and> le (snd x) (snd y)) m m" by (simp add: list_all2_conv_all_nth assms(1))
      with Cons.prems True show ?thesis by (cases a) auto
    next
      case False
      with Cons assms(1) show ?thesis by (cases a) auto
    qed
  qed simp
  then show ?thesis unfolding entries_le_def by (intro exI[of _ "map_set k v m"] exI[of _ "[]"]) simp
qed

lemma le_refl [simp]: "grant_le g g" "invitation_le i i" "challenge_le c c" "version_le d d"
  by (simp_all add: grant_le_def invitation_le_def challenge_le_def version_le_def)

lemma le_trans: "grant_le g g' \<Longrightarrow> grant_le g' g'' \<Longrightarrow> grant_le g g''"
  "invitation_le i i' \<Longrightarrow> invitation_le i' i'' \<Longrightarrow> invitation_le i i''"
  "challenge_le c c' \<Longrightarrow> challenge_le c' c'' \<Longrightarrow> challenge_le c c''"
  "version_le d d' \<Longrightarrow> version_le d' d'' \<Longrightarrow> version_le d d''"
  by (auto simp: grant_le_def invitation_le_def challenge_le_def version_le_def revoked_grant_def)

lemma access_le_refl [simp]: "access_le s s"
  by (simp add: access_le_def entries_le_refl)

lemma access_le_trans: "access_le s t \<Longrightarrow> access_le t u \<Longrightarrow> access_le s u"
  unfolding access_le_def using entries_le_trans le_trans by (meson order_trans)

lemma store_access_le: "store_le s t \<Longrightarrow> access_le s t"
  by (simp add: store_le_def access_le_def entries_le_refl)

section \<open>The invariant\<close>

text \<open>A delegated grant stays within the grant it comes from, and so does an invitation.\<close>

definition within :: "recipient_options \<Rightarrow> access_grant \<Rightarrow> module_type list \<Rightarrow> recipient_action list \<Rightarrow> string \<Rightarrow> string \<Rightarrow> string
    \<Rightarrow> string \<Rightarrow> bool" where
  "within p parent ms as organizationId jobId reportVersionId expiresAt \<longleftrightarrow>
     InviteRecipient \<in> set (gr_permittedActions parent) \<and> InviteRecipient \<notin> set as
     \<and> set ms \<subseteq> set (gr_permittedModules parent) \<and> set as \<subseteq> set (gr_permittedActions parent)
     \<and> organizationId = gr_organizationId parent \<and> jobId = gr_jobId parent \<and> reportVersionId = gr_reportVersionId parent
     \<and> \<not> date_lt (date_parse (ro_env p) (gr_expiresAt parent)) (date_parse (ro_env p) expiresAt)"

definition grant_within :: "recipient_options \<Rightarrow> (string, access_grant) js_map \<Rightarrow> access_grant \<Rightarrow> bool" where
  "grant_within p grants g \<longleftrightarrow> (case gr_parentGrantId g of None \<Rightarrow> True
     | Some q \<Rightarrow> \<exists>parent. map_of grants q = Some parent \<and> within p parent (gr_permittedModules g) (gr_permittedActions g)
         (gr_organizationId g) (gr_jobId g) (gr_reportVersionId g) (gr_expiresAt g))"

definition invitation_within :: "recipient_options \<Rightarrow> (string, access_grant) js_map \<Rightarrow> share_invitation \<Rightarrow> bool" where
  "invitation_within p grants i \<longleftrightarrow> (\<exists>parent. map_of grants (si_inviterGrantId i) = Some parent
     \<and> within p parent (si_permittedModules i) (si_permittedActions i)
         (si_organizationId i) (si_jobId i) (si_reportVersionId i) (si_expiresAt i))"

definition token_below :: "recipient_options \<Rightarrow> string \<Rightarrow> nat \<Rightarrow> string \<Rightarrow> bool" where
  "token_below p prefix n k \<longleftrightarrow> (\<exists>j < n. k = ro_token p prefix j)"

definition access_wf :: "recipient_options \<Rightarrow> recipient_access \<Rightarrow> bool" where
  "access_wf p s \<longleftrightarrow>
     (\<forall>k g. map_of (rs_grants s) k = Some g \<longrightarrow> gr_grantId g = k \<and> token_below p ''grant'' (rs_tokens s) k
        \<and> grant_within p (rs_grants s) g)
     \<and> distinct (map fst (rs_invitations s))
     \<and> (\<forall>k i. map_of (rs_invitations s) k = Some i \<longrightarrow> si_invitationId i = k \<and> token_below p ''invitation'' (rs_tokens s) k
        \<and> invitation_within p (rs_grants s) i)
     \<and> (\<forall>k c. map_of (rs_challenges s) k = Some c \<longrightarrow> mc_challengeId c = k \<and> token_below p ''challenge'' (rs_tokens s) k
        \<and> 0 \<le> mc_failedAttempts c \<and> mc_failedAttempts c \<le> 5)"

text \<open>The hypothesis on the token factory: two calls never give the same token.\<close>

definition fresh_tokens :: "recipient_options \<Rightarrow> bool" where
  "fresh_tokens p \<longleftrightarrow> (\<forall>prefix m n. ro_token p prefix m = ro_token p prefix n \<longrightarrow> m = n)"

definition good :: "recipient_options \<Rightarrow> recipient_access \<Rightarrow> recipient_access \<Rightarrow> bool" where
  "good p s t \<longleftrightarrow> access_wf p t \<and> access_le s t"

lemma good_trans: "good p s t \<Longrightarrow> good p t u \<Longrightarrow> good p s u"
  unfolding good_def using access_le_trans by blast

lemma token_below_mono: "token_below p pre m k \<Longrightarrow> m \<le> n \<Longrightarrow> token_below p pre n k"
  unfolding token_below_def using order_less_le_trans by blast

lemma token_not_below: "fresh_tokens p \<Longrightarrow> m \<le> n \<Longrightarrow> \<not> token_below p pre m (ro_token p pre n)"
  unfolding token_below_def fresh_tokens_def by (metis leD)

lemma store_wf:
  assumes "access_wf p s" and "store_le s t"
  shows "access_wf p t"
proof -
  have n: "rs_tokens s \<le> rs_tokens t" and e: "rs_grants t = rs_grants s" "rs_invitations t = rs_invitations s"
    "rs_challenges t = rs_challenges s" using assms(2) by (simp_all add: store_le_def)
  show ?thesis using assms(1) token_below_mono[OF _ n] unfolding access_wf_def e by blast
qed

lemma store_good: "access_wf p s \<Longrightarrow> store_le s t \<Longrightarrow> good p s t"
  unfolding good_def using store_wf store_access_le by blast

text \<open>Later grants keep every bound.\<close>

lemma within_later: "grant_le parent parent' \<Longrightarrow> within p parent ms as a b c e \<Longrightarrow> within p parent' ms as a b c e"
  by (auto simp: grant_le_def within_def revoked_grant_def)

lemma grant_within_later: "entries_le grant_le grants grants' \<Longrightarrow> grant_within p grants g \<Longrightarrow> grant_within p grants' g"
  unfolding grant_within_def by (auto split: option.splits) (metis entries_le_map_of within_later)

lemma invitation_within_later:
  "entries_le grant_le grants grants' \<Longrightarrow> invitation_within p grants i \<Longrightarrow> invitation_within p grants' i"
  unfolding invitation_within_def by (metis entries_le_map_of within_later)

lemma revoked_within: "grant_within p grants (revoked_grant g a b c) = grant_within p grants g"
  by (simp add: grant_within_def revoked_grant_def split: option.split)

lemma grants_update_le:
  assumes "gr_grantId g = k" and "\<And>x. map_of (rs_grants s) k = Some x \<Longrightarrow> grant_le x g"
  shows "access_le s (s\<lparr>rs_grants := map_set k g (rs_grants s)\<rparr>)"
  using entries_le_update[of grant_le "rs_grants s" k g] assms by (simp add: access_le_def entries_le_refl)

text \<open>A grant enters or changes, an invitation enters or changes, a challenge enters or changes.\<close>

lemma put_grant_good:
  assumes "access_wf p s" and "\<And>x. map_of (rs_grants s) (gr_grantId g) = Some x \<Longrightarrow> grant_le x g"
    and "token_below p ''grant'' (rs_tokens s) (gr_grantId g)" and "grant_within p (rs_grants s) g"
  shows "good p s (s\<lparr>rs_grants := map_set (gr_grantId g) g (rs_grants s)\<rparr>)"
proof -
  have le: "access_le s (s\<lparr>rs_grants := map_set (gr_grantId g) g (rs_grants s)\<rparr>)" using grants_update_le assms(2) by blast
  then have e: "entries_le grant_le (rs_grants s) (map_set (gr_grantId g) g (rs_grants s))" by (simp add: access_le_def)
  show ?thesis unfolding good_def
    using le assms(1,3) grant_within_later[OF e] invitation_within_later[OF e] assms(4) by (simp add: access_wf_def)
qed

lemma put_invitation_good:
  assumes "access_wf p s" and "\<And>x. map_of (rs_invitations s) (si_invitationId i) = Some x \<Longrightarrow> invitation_le x i"
    and "token_below p ''invitation'' (rs_tokens s) (si_invitationId i)" and "invitation_within p (rs_grants s) i"
  shows "good p s (s\<lparr>rs_invitations := map_set (si_invitationId i) i (rs_invitations s)\<rparr>)"
proof -
  have "entries_le invitation_le (rs_invitations s) (map_set (si_invitationId i) i (rs_invitations s))"
    by (rule entries_le_update) (use assms(2) in auto)
  then show ?thesis unfolding good_def
    using assms(1,3,4) distinct_map_set[of "rs_invitations s"] by (simp add: access_wf_def access_le_def entries_le_refl)
qed

lemma put_challenge_good:
  assumes "access_wf p s" and "\<And>x. map_of (rs_challenges s) (mc_challengeId c) = Some x \<Longrightarrow> challenge_le x c"
    and "token_below p ''challenge'' (rs_tokens s) (mc_challengeId c)" and "0 \<le> mc_failedAttempts c" and "mc_failedAttempts c \<le> 5"
  shows "good p s (s\<lparr>rs_challenges := map_set (mc_challengeId c) c (rs_challenges s)\<rparr>)"
proof -
  have "entries_le challenge_le (rs_challenges s) (map_set (mc_challengeId c) c (rs_challenges s))"
    by (rule entries_le_update) (use assms(2) in auto)
  then show ?thesis unfolding good_def
    using assms(1,3-5) by (simp add: access_wf_def access_le_def entries_le_refl)
qed

lemma put_version_good:
  assumes "access_wf p s" and "\<And>x. map_of (rs_deliveredVersions s) k = Some x \<Longrightarrow> version_le x d"
  shows "good p s (s\<lparr>rs_deliveredVersions := map_set k d (rs_deliveredVersions s)\<rparr>)"
proof -
  have "entries_le version_le (rs_deliveredVersions s) (map_set k d (rs_deliveredVersions s))"
    by (rule entries_le_update) (use assms(2) in auto)
  then show ?thesis unfolding good_def
    using assms(1) by (simp add: access_wf_def access_le_def entries_le_refl)
qed

section \<open>Every operation keeps the invariant\<close>

lemma good_after:
  assumes "access_wf p s" and "store_le s t" and "good p t u" and "store_le u v"
  shows "good p s v"
proof -
  have "access_wf p u" using assms(3) by (simp add: good_def)
  then show ?thesis using good_trans[OF store_good[OF assms(1,2)] good_trans[OF assms(3) store_good[OF _ assms(4)]]] by blast
qed

lemma good_quiet:
  assumes "access_wf p s" and "store_le s t" and "quiet m"
    and "\<And>x u. m t = (Inr x, u) \<Longrightarrow> store_le s u \<Longrightarrow> good p s (snd (f x u))"
  shows "good p s (snd (st_bind m f t))"
  using after_quiet[where P = "good p s", OF assms(2,3) store_good[OF assms(1)]] assms(4) by blast

lemma good_ensure:
  assumes "access_wf p s" and "store_le s t" and "ok \<Longrightarrow> good p s (snd (m t))"
  shows "good p s (snd (st_ensure ok e m t))"
  using assms store_good by (simp add: st_ensure_def)

lemma put_grant_tail:
  "quiet (f ()) \<Longrightarrow> (\<And>t. store_le (s\<lparr>rs_grants := map_set (gr_grantId g) g (rs_grants s)\<rparr>) t \<Longrightarrow> P t)
     \<Longrightarrow> P (snd (st_bind (put_grant g) f s))"
  by (simp add: st_bind_def Let_def put_grant_def quiet_def)

lemma put_invitation_tail:
  "quiet (f ()) \<Longrightarrow> (\<And>t. store_le (s\<lparr>rs_invitations := map_set (si_invitationId i) i (rs_invitations s)\<rparr>) t \<Longrightarrow> P t)
     \<Longrightarrow> P (snd (st_bind (put_invitation i) f s))"
  by (simp add: st_bind_def Let_def put_invitation_def quiet_def)

lemma put_challenge_tail:
  "quiet (f ()) \<Longrightarrow> (\<And>t. store_le (s\<lparr>rs_challenges := map_set (mc_challengeId c) c (rs_challenges s)\<rparr>) t \<Longrightarrow> P t)
     \<Longrightarrow> P (snd (st_bind (put_challenge c) f s))"
  by (simp add: st_bind_def Let_def put_challenge_def quiet_def)

lemma requireGrant_Inr: "requireGrant k s = (Inr g, t) \<longleftrightarrow> t = s \<and> map_of (rs_grants s) k = Some g"
  by (auto simp: requireGrant_def)

lemma readClock_Inr: "readClock p s = (Inr n, t) \<longleftrightarrow> n = clock (ro_env p) (rs_clock s) \<and> t = s\<lparr>rs_clock := Suc (rs_clock s)\<rparr>"
  by (auto simp: readClock_def)

lemma newToken_Inr: "newToken p pre s = (Inr k, t) \<longleftrightarrow> k = ro_token p pre (rs_tokens s) \<and> t = s\<lparr>rs_tokens := Suc (rs_tokens s)\<rparr>"
  by (auto simp: newToken_def)

lemma new_token_fresh:
  assumes "fresh_tokens p" and "store_le s0 s" and "newToken p pre s = (Inr k, t)" and "store_le t u"
  shows "\<not> token_below p pre (rs_tokens s0) k" and "token_below p pre (rs_tokens u) k"
proof -
  have k: "k = ro_token p pre (rs_tokens s)" and t: "rs_tokens t = Suc (rs_tokens s)" using assms(3) by (auto simp: newToken_Inr)
  show "\<not> token_below p pre (rs_tokens s0) k" unfolding k using assms(1,2) by (intro token_not_below) (auto simp: store_le_def)
  show "token_below p pre (rs_tokens u) k" unfolding k token_below_def using assms(4) t
    by (intro exI[of _ "rs_tokens s"]) (simp add: store_le_def)
qed

lemma revokeGrant_good:
  assumes wf: "access_wf p s"
  shows "good p s (snd (revokeGrant p k by reason s))"
  unfolding revokeGrant_def
proof (rule after_quiet[OF store_le_refl quiet_basic(7) store_good[OF wf]])
  fix g t
  assume r: "requireGrant k s = (Inr g, t)"
  then have t: "t = s" and g: "map_of (rs_grants s) k = Some g" by (auto simp: requireGrant_Inr)
  have k: "gr_grantId g = k" "token_below p ''grant'' (rs_tokens s) k" "grant_within p (rs_grants s) g"
    using wf g unfolding access_wf_def by blast+
  show "good p s (snd ((if \<not> gr_active g then st_return g
       else st_ensure (js_trim reason \<noteq> []) (AccessInput ''A revocation reason is required'')
             (st_bind (readClock p) (\<lambda>now. let revoked = revoked_grant g (to_iso now) by (js_trim reason)
                in st_bind (put_grant revoked) (\<lambda>_. st_bind (appendEvent p GrantRevoked (grant_fields g)) (\<lambda>_. st_return revoked))))) t))"
  proof (cases "gr_active g")
    case False
    then show ?thesis using store_good[OF wf store_le_refl] by (simp add: t st_return_def)
  next
    case True
    have "good p s (snd (st_bind (readClock p) (\<lambda>now. let revoked = revoked_grant g (to_iso now) by (js_trim reason)
                in st_bind (put_grant revoked) (\<lambda>_. st_bind (appendEvent p GrantRevoked (grant_fields g)) (\<lambda>_. st_return revoked))) s))"
    proof (rule after_quiet[OF store_le_refl quiet_basic(4) store_good[OF wf]])
      fix now u
      assume u: "store_le s u"
      let ?r = "revoked_grant g (to_iso now) by (js_trim reason)"
      have id: "gr_grantId ?r = k" using k by (simp add: revoked_grant_def)
      have e: "rs_grants u = rs_grants s" "rs_tokens s \<le> rs_tokens u" using u by (simp_all add: store_le_def)
      have le: "grant_le g ?r" using True by (auto simp: grant_le_def)
      have "good p u (u\<lparr>rs_grants := map_set (gr_grantId ?r) ?r (rs_grants u)\<rparr>)"
        using store_wf[OF wf u] k g e id le by (intro put_grant_good) (auto simp: revoked_within intro: token_below_mono)
      then have fin: "good p s v" if "store_le (u\<lparr>rs_grants := map_set (gr_grantId ?r) ?r (rs_grants u)\<rparr>) v" for v
        using good_after[OF wf u _ that] by blast
      show "good p s (snd ((let revoked = ?r in st_bind (put_grant revoked)
          (\<lambda>_. st_bind (appendEvent p GrantRevoked (grant_fields g)) (\<lambda>_. st_return revoked))) u))"
        unfolding Let_def by (rule put_grant_tail[where P = "good p s"], intro quiets, erule fin)
    qed
    then show ?thesis using True store_good[OF wf store_le_refl] by (simp add: t st_ensure_def)
  qed
qed

lemma storeGrant_good:
  assumes wf: "access_wf p s" and fresh: "fresh_tokens p"
    and ok: "\<And>k email at. grant_within p (rs_grants s) (new_grant i parent k email at)"
  shows "good p s (snd (storeGrant p i parent issuedAt s))"
  unfolding storeGrant_def Let_def
proof (rule good_quiet[OF wf store_le_refl quiet_basic(4)], rule good_quiet[OF wf _ quiet_basic(5)], assumption,
    rule good_quiet[OF wf _ quiet_basic(3)], assumption)
  fix now t k u email v
  assume t: "store_le s t" and k: "newToken p ''grant'' t = (Inr k, u)"
    and "st_lift (canonicalEmail (og_verifiedEmail i)) u = (Inr email, v)" and v: "store_le s v"
  then have uv: "store_le u v" by simp
  let ?g = "new_grant i parent k email (case issuedAt of None \<Rightarrow> to_iso now | Some t \<Rightarrow> t)"
  have id: "gr_grantId ?g = k" by (simp add: new_grant_def)
  note n = new_token_fresh[OF fresh t k uv]
  have "map_of (rs_grants s) k = None" using wf n(1) unfolding access_wf_def by (metis not_Some_eq)
  moreover have "rs_grants v = rs_grants s" using v by (simp add: store_le_def)
  ultimately have "good p v (v\<lparr>rs_grants := map_set (gr_grantId ?g) ?g (rs_grants v)\<rparr>)"
    using store_wf[OF wf v] n(2) ok id by (intro put_grant_good) simp_all
  then have fin: "good p s w" if "store_le (v\<lparr>rs_grants := map_set (gr_grantId ?g) ?g (rs_grants v)\<rparr>) w" for w
    using good_after[OF wf v _ that] by blast
  show "good p s (snd (st_bind (put_grant ?g)
      (\<lambda>_. st_bind (appendEvent p GrantIssued (grant_fields ?g)) (\<lambda>_. st_return ?g)) v))"
    by (rule put_grant_tail[where P = "good p s"], intro quiets, erule fin)
qed

lemma storeGrant_after:
  assumes wf: "access_wf p s" and fresh: "fresh_tokens p" and t: "store_le s t"
    and ok: "\<And>k email at. grant_within p (rs_grants s) (new_grant i parent k email at)"
  shows "good p s (snd (storeGrant p i parent issuedAt t))"
proof (rule good_trans[OF store_good[OF wf t]])
  show "good p t (snd (storeGrant p i parent issuedAt t))"
    using storeGrant_good[OF store_wf[OF wf t] fresh] ok t by (simp add: store_le_def)
qed

lemma issueOwnerGrant_good:
  assumes wf: "access_wf p s" and fresh: "fresh_tokens p"
  shows "good p s (snd (issueOwnerGrant p i s))"
  unfolding issueOwnerGrant_def
  by (intro good_quiet[OF wf] good_ensure[OF wf] store_le_refl quiets storeGrant_after[OF wf fresh])
    (auto simp: grant_within_def new_grant_def)

lemma beginMailboxAuthentication_good:
  assumes wf: "access_wf p s" and fresh: "fresh_tokens p"
  shows "good p s (snd (beginMailboxAuthentication p email s))"
  unfolding beginMailboxAuthentication_def
proof (rule good_quiet[OF wf store_le_refl quiet_basic(4)], rule good_quiet[OF wf _ quiet_basic(5)], assumption,
    rule good_quiet[OF wf _ quiet_basic(6)], assumption, rule good_ensure[OF wf], assumption,
    rule good_quiet[OF wf _ quiet_basic(3)], assumption)
  fix now t k u otp v canonical w
  assume t: "store_le s t" and k: "newToken p ''challenge'' t = (Inr k, u)" and "newOtp p u = (Inr otp, v)"
    and "st_lift (canonicalEmail email) v = (Inr canonical, w)" and w: "store_le s w"
  then have uw: "store_le u w" by (auto simp: newOtp_def store_le_def)
  let ?c = "\<lparr>mc_challengeId = k, mc_email = canonical, mc_otpDigest = digest p (otp_text k otp),
       mc_issuedAt = to_iso now, mc_expiresAt = to_iso (now + 600000), mc_failedAttempts = 0, mc_consumedAt = None\<rparr>"
  note n = new_token_fresh[OF fresh t k uw]
  have "map_of (rs_challenges s) k = None" using wf n(1) unfolding access_wf_def by (metis not_Some_eq)
  then have "map_of (rs_challenges w) k = None" using w by (simp add: store_le_def)
  then have "good p w (w\<lparr>rs_challenges := map_set (mc_challengeId ?c) ?c (rs_challenges w)\<rparr>)"
    using store_wf[OF wf w] n(2) by (intro put_challenge_good) simp_all
  then have fin: "good p s x" if "store_le (w\<lparr>rs_challenges := map_set (mc_challengeId ?c) ?c (rs_challenges w)\<rparr>) x" for x
    using good_after[OF wf w _ that] by blast
  show "good p s (snd (st_bind (put_challenge ?c) (\<lambda>_. st_bind (appendEvent p MailboxChallengeIssued no_fields)
      (\<lambda>_. st_return (k, otp, to_iso (now + 600000)))) w))"
    by (rule put_challenge_tail[where P = "good p s"], intro quiets, erule fin)
qed

lemma verifyMailboxAuthentication_good:
  assumes wf: "access_wf p s"
  shows "good p s (snd (verifyMailboxAuthentication p challengeId otp principalId s))"
  unfolding verifyMailboxAuthentication_def
proof (rule after_quiet[OF store_le_refl quiet_basic(4) store_good[OF wf]])
  fix now t
  assume t: "store_le s t"
  have change: "good p s u" if "map_of (rs_challenges t) challengeId = Some c" and "challenge_open p now c"
      and "c' = c\<lparr>mc_failedAttempts := mc_failedAttempts c + 1\<rparr> \<or> c' = c\<lparr>mc_consumedAt := Some (to_iso now)\<rparr>"
      and "store_le (t\<lparr>rs_challenges := map_set (mc_challengeId c') c' (rs_challenges t)\<rparr>) u" for c c' u
  proof -
    have c: "mc_challengeId c = challengeId" "token_below p ''challenge'' (rs_tokens t) challengeId" "0 \<le> mc_failedAttempts c"
      using store_wf[OF wf t] that(1) unfolding access_wf_def by blast+
    have "good p t (t\<lparr>rs_challenges := map_set (mc_challengeId c') c' (rs_challenges t)\<rparr>)"
      using store_wf[OF wf t] that(1-3) c
      by (intro put_challenge_good) (auto simp: challenge_open_def challenge_le_def)
    then show ?thesis using good_after[OF wf t _ that(4)] by blast
  qed
  show "good p s (snd (case map_of (rs_challenges t) challengeId of None \<Rightarrow> (Inl AccessDenied, t)
     | Some c \<Rightarrow>
         if \<not> challenge_open p now c then (Inl AccessDenied, t)
         else if digest p (otp_text (mc_challengeId c) otp) \<noteq> mc_otpDigest c
         then st_bind (put_challenge (c\<lparr>mc_failedAttempts := mc_failedAttempts c + 1\<rparr>)) (\<lambda>_. st_throw AccessDenied) t
         else st_bind (put_challenge (c\<lparr>mc_consumedAt := Some (to_iso now)\<rparr>)) (\<lambda>_.
              st_bind (newToken p ''session'') (\<lambda>sessionId.
              st_bind (appendEvent p MailboxVerified (no_fields\<lparr>af_principalId := Some principalId\<rparr>)) (\<lambda>_.
              st_return \<lparr>ms_sessionId = sessionId, ms_principalId = principalId, ms_email = mc_email c,
                ms_mailboxVerifiedAt = to_iso now, ms_authenticatedAt = to_iso now, ms_expiresAt = to_iso (now + 3600000),
                ms_active = True\<rparr>))) t))"
  proof (cases "map_of (rs_challenges t) challengeId")
    case None
    then show ?thesis using store_good[OF wf t] by simp
  next
    case (Some c)
    show ?thesis
    proof (cases "challenge_open p now c")
      case False
      then show ?thesis using Some store_good[OF wf t] by simp
    next
      case True
      have "good p s (snd (st_bind (put_challenge c') f t))"
        if "c' = c\<lparr>mc_failedAttempts := mc_failedAttempts c + 1\<rparr> \<or> c' = c\<lparr>mc_consumedAt := Some (to_iso now)\<rparr>"
          and "quiet (f ())" for c' and f :: "unit \<Rightarrow> mailbox_session access_op"
        using that(2) change[OF Some True that(1)] by (rule put_challenge_tail[where P = "good p s"])
      moreover have "quiet (st_bind (newToken p ''session'') (\<lambda>sessionId.
              st_bind (appendEvent p MailboxVerified (no_fields\<lparr>af_principalId := Some principalId\<rparr>)) (\<lambda>_.
              st_return \<lparr>ms_sessionId = sessionId, ms_principalId = principalId, ms_email = mc_email c,
                ms_mailboxVerifiedAt = to_iso now, ms_authenticatedAt = to_iso now, ms_expiresAt = to_iso (now + 3600000),
                ms_active = True\<rparr>)))" by (intro quiets)
      ultimately show ?thesis using Some True by (simp add: quiet_basic(2))
    qed
  qed
qed

lemma registerDeliveredVersion_good:
  assumes wf: "access_wf p s"
  shows "good p s (snd (registerDeliveredVersion p v s))"
proof -
  let ?k = "versionKey (vi_organizationId v) (vi_jobId v) (vi_reportVersionId v)"
  show ?thesis
  proof (cases "map_of (rs_deliveredVersions s) ?k")
    case None
    let ?d = "\<lparr>dv_organizationId = vi_organizationId v, dv_jobId = vi_jobId v, dv_reportVersionId = vi_reportVersionId v,
            dv_modules = js_unique (vi_modules v), dv_deliveredAt = vi_deliveredAt v, dv_withdrawnModules = []\<rparr>"
    have "good p s (s\<lparr>rs_deliveredVersions := map_set ?k ?d (rs_deliveredVersions s)\<rparr>)"
      using None by (intro put_version_good[OF wf]) simp
    moreover have "quiet (st_bind (appendEvent p VersionDelivered (no_fields\<lparr>af_reportVersionId := Some (vi_reportVersionId v)\<rparr>))
        (\<lambda>_. st_return ?d))" by (intro quiets)
    ultimately show ?thesis using None good_after[OF wf store_le_refl]
      by (simp add: registerDeliveredVersion_def Let_def quiet_def)
  qed (use store_good[OF wf store_le_refl] in \<open>simp add: registerDeliveredVersion_def Let_def\<close>)
qed

lemma withdrawDeliveredModule_good:
  assumes wf: "access_wf p s"
  shows "good p s (snd (withdrawDeliveredModule p a j r m s))"
proof (cases "map_of (rs_deliveredVersions s) (versionKey a j r)")
  case (Some d)
  let ?d = "d\<lparr>dv_withdrawnModules := js_unique (dv_withdrawnModules d @ [m])\<rparr>"
  have "good p s (s\<lparr>rs_deliveredVersions := map_set (versionKey a j r) ?d (rs_deliveredVersions s)\<rparr>)"
    using Some by (intro put_version_good[OF wf]) (auto simp: version_le_def)
  moreover have "quiet (st_bind (appendEvent p ModuleWithdrawn (no_fields\<lparr>af_reportVersionId := Some r, af_safeReason := Some (module_text m)\<rparr>))
      (\<lambda>_. st_return ?d))" by (intro quiets)
  ultimately show ?thesis using Some good_after[OF wf store_le_refl] store_good[OF wf store_le_refl]
    by (simp add: withdrawDeliveredModule_def Let_def quiet_def)
qed (use store_good[OF wf store_le_refl] in \<open>simp add: withdrawDeliveredModule_def Let_def\<close>)

end
