(* ===== verification/Recipient_Machine.thy ===== *)
theory Recipient_Machine
  imports Recipient_Invariants
begin

text \<open>
  The recipient access service as a machine: what a successful authorisation tells about the store,
  the operations on invitations, and the states reached by any sequence of operations.
\<close>

section \<open>What success tells\<close>

lemma quiet_result: "quiet m \<Longrightarrow> m s = (r, t) \<Longrightarrow> store_le s t"
  unfolding quiet_def by (metis snd_conv)

lemma requireDelivered_Inr:
  "requireDelivered a j r ms s = (Inr d, t) \<longleftrightarrow>
     t = s \<and> map_of (rs_deliveredVersions s) (versionKey a j r) = Some d \<and> ms \<noteq> [] \<and> set ms \<subseteq> set (dv_modules d)"
  by (auto simp: requireDelivered_def isSubset_def list_all_iff ensure_def split: option.splits)

lemma assertGrantLineageActive_Inr:
  "assertGrantLineageActive p g s = (Inr x, t) \<longleftrightarrow>
     t = s\<lparr>rs_clock := snd (lineage p (rs_grants s) [gr_grantId g] (gr_parentGrantId g) (rs_clock s))\<rparr>
     \<and> fst (lineage p (rs_grants s) [gr_grantId g] (gr_parentGrantId g) (rs_clock s))"
  by (auto simp: assertGrantLineageActive_def Let_def ensure_def)

lemma assertSession_Inr:
  "assertSession p session s = (Inr x, t) \<longleftrightarrow> ms_active session
     \<and> \<not> expired_at p (ms_expiresAt session) (clock (ro_env p) (rs_clock s))
     \<and> \<not> date_lt (Some (clock (ro_env p) (Suc (rs_clock s)))) (date_parse (ro_env p) (ms_mailboxVerifiedAt session))
     \<and> t = s\<lparr>rs_clock := rs_clock s + 2\<rparr>"
  by (auto simp: assertSession_def readClock_Inr)

lemma appendEvent_Inr:
  "appendEvent p ty flds s = (r, t) \<longleftrightarrow> r = Inr () \<and> t = s\<lparr>rs_tokens := Suc (rs_tokens s), rs_clock := Suc (rs_clock s),
     rs_events := rs_events s @ [\<lparr>ae_eventId = ro_token p ''access_event'' (rs_tokens s),
       ae_occurredAt = to_iso (clock (ro_env p) (rs_clock s)), ae_type = ty, ae_fields = flds\<rparr>]\<rparr>"
  by (auto simp: appendEvent_def st_bind_def newToken_def readClock_def)

lemma authorise_Inr:
  assumes "authorise p session k rq s = (Inr g, t)"
  shows "authorise_checks p session k rq s = (Inr g, t)"
  using assms by (cases "authorise_checks p session k rq s"; cases "fst (authorise_checks p session k rq s)")
    (auto simp: authorise_def Let_def)

lemma authorise_fst:
  "fst (authorise p session k rq s) = (case fst (authorise_checks p session k rq s) of Inl e \<Rightarrow> Inl AccessDenied | Inr g \<Rightarrow> Inr g)"
  by (simp add: authorise_def Let_def st_bind_def appendEvent_def newToken_def readClock_def st_throw_def split: sum.split)

lemma authorise_checks_Inr:
  assumes "authorise_checks p session k rq s = (Inr g, t)"
  shows "map_of (rs_grants s) k = Some g" "gr_active g" "gr_principalId g = ms_principalId session"
    "ar_module rq \<in> set (gr_permittedModules g)" "ar_action rq \<in> set (gr_permittedActions g)"
    "\<exists>n. fst (lineage p (rs_grants s) [gr_grantId g] (gr_parentGrantId g) n)"
    "\<exists>d. map_of (rs_deliveredVersions s) (versionKey (ar_organizationId rq) (ar_jobId rq) (ar_reportVersionId rq)) = Some d
       \<and> ar_module rq \<notin> set (dv_withdrawnModules d)"
  using assms unfolding authorise_checks_def
  by (auto simp: assertSession_Inr requireGrant_Inr assertGrantLineageActive_Inr requireDelivered_Inr)

section \<open>Operations on invitations\<close>

lemma revokeInvitation_good:
  assumes wf: "access_wf p s"
  shows "good p s (snd (revokeInvitation p k actor s))"
  unfolding revokeInvitation_def
proof (rule good_quiet[OF wf store_le_refl quiet_session])
  fix x t
  assume t: "store_le s t"
  show "good p s (snd (case map_of (rs_invitations t) k of
       None \<Rightarrow> (Inl AccessDenied, t)
     | Some i \<Rightarrow>
         st_ensure (si_issuedBy i = ms_principalId actor \<and> si_state i = InvSent) AccessDenied (
         st_bind (readClock p) (\<lambda>now.
         let revoked = i\<lparr>si_state := InvRevoked, si_revokedAt := Some (to_iso now), si_revokedBy := Some (ms_principalId actor)\<rparr> in
         st_bind (put_invitation revoked) (\<lambda>_.
         st_bind (appendEvent p InvitationRevoked (no_fields\<lparr>af_principalId := Some (ms_principalId actor),
           af_grantId := Some (si_inviterGrantId i), af_invitationId := Some k,
           af_reportVersionId := Some (si_reportVersionId i)\<rparr>)) (\<lambda>_. invitationView p revoked)))) t))"
  proof (cases "map_of (rs_invitations t) k")
    case None
    then show ?thesis using store_good[OF wf t] by simp
  next
    case (Some i)
    show ?thesis unfolding Some option.case Let_def
    proof (rule good_ensure[OF wf t], rule good_quiet[OF wf t quiet_basic(4)])
      fix now u
      assume sent: "si_issuedBy i = ms_principalId actor \<and> si_state i = InvSent" and u: "store_le s u"
      let ?r = "i\<lparr>si_state := InvRevoked, si_revokedAt := Some (to_iso now), si_revokedBy := Some (ms_principalId actor)\<rparr>"
      have i: "map_of (rs_invitations u) k = Some i" using Some t u by (simp add: store_le_def)
      then have k: "si_invitationId i = k" "token_below p ''invitation'' (rs_tokens u) k" "invitation_within p (rs_grants u) i"
        using store_wf[OF wf u] unfolding access_wf_def by blast+
      have "good p u (u\<lparr>rs_invitations := map_set (si_invitationId ?r) ?r (rs_invitations u)\<rparr>)"
        using store_wf[OF wf u] i k sent
        by (intro put_invitation_good) (auto simp: invitation_le_def invitation_within_def)
      then have fin: "good p s v" if "store_le (u\<lparr>rs_invitations := map_set (si_invitationId ?r) ?r (rs_invitations u)\<rparr>) v" for v
        using good_after[OF wf u _ that] by blast
      show "good p s (snd (st_bind (put_invitation ?r) (\<lambda>_.
         st_bind (appendEvent p InvitationRevoked (no_fields\<lparr>af_principalId := Some (ms_principalId actor),
           af_grantId := Some (si_inviterGrantId i), af_invitationId := Some k,
           af_reportVersionId := Some (si_reportVersionId i)\<rparr>)) (\<lambda>_. invitationView p ?r)) u))"
        by (rule put_invitation_tail[where P = "good p s"], intro quiets, erule fin)
    qed
  qed
qed

lemma createShareInvitation_good:
  assumes wf: "access_wf p s" and fresh: "fresh_tokens p"
  shows "good p s (snd (createShareInvitation p i s))"
  unfolding createShareInvitation_def Let_def
proof (rule good_quiet[OF wf store_le_refl quiet_basic(4)], rule good_quiet[OF wf _ quiet_basic(7)], assumption,
    rule good_quiet[OF wf _ quiet_authorise], assumption, rule good_quiet[OF wf _ quiet_basic(3)], assumption,
    rule good_ensure[OF wf], assumption, rule good_ensure[OF wf], assumption,
    rule good_quiet[OF wf _ quiet_basic(5)], assumption, rule good_quiet[OF wf _ quiet_basic(5)], assumption,
    rule good_quiet[OF wf _ quiet_basic(3)], assumption)
  fix now t inviter t1 g t2 x t3 token t4 k t5 email t6
  assume inv: "requireGrant (ii_inviterGrantId i) t = (Inr inviter, t1)" and t1: "store_le s t1"
    and auth: "authorise p (ii_inviterSession i) (gr_grantId inviter) \<lparr>ar_organizationId = gr_organizationId inviter,
       ar_jobId = gr_jobId inviter, ar_reportVersionId = gr_reportVersionId inviter,
       ar_module = (case gr_permittedModules inviter of [] \<Rightarrow> Building | m # ms \<Rightarrow> m), ar_action = InviteRecipient\<rparr> t1 = (Inr g, t2)"
    and late: "\<not> date_lt (date_parse (ro_env p) (gr_expiresAt inviter)) (date_parse (ro_env p) (ii_expiresAt i))"
    and sub: "ii_permittedModules i \<noteq> [] \<and> ii_permittedActions i \<noteq> []
         \<and> isSubset (ii_permittedModules i) (gr_permittedModules inviter)
         \<and> isSubset (ii_permittedActions i) (gr_permittedActions inviter)
         \<and> InviteRecipient \<notin> set (ii_permittedActions i)"
    and t4: "store_le s t4" and k: "newToken p ''invitation'' t4 = (Inr k, t5)"
    and "st_lift (canonicalEmail (ii_intendedEmail i)) t5 = (Inr email, t6)" and t6: "store_le s t6"
  then have t56: "store_le t5 t6" by simp
  let ?i = "new_invitation p i inviter k email (to_iso now) token"
  have st: "map_of (rs_grants s) (ii_inviterGrantId i) = Some inviter"
    using inv t1 by (auto simp: requireGrant_Inr store_le_def)
  then have id: "gr_grantId inviter = ii_inviterGrantId i" using wf unfolding access_wf_def by blast
  note c = authorise_checks_Inr[OF authorise_Inr[OF auth]]
  have act: "InviteRecipient \<in> set (gr_permittedActions inviter)"
    using c(1,5) st id t1 by (simp add: store_le_def)
  have sid: "si_invitationId ?i = k" by (simp add: new_invitation_def)
  note n = new_token_fresh[OF fresh t4 k t56]
  have "map_of (rs_invitations s) k = None" using wf n(1) unfolding access_wf_def by (metis not_Some_eq)
  moreover have e: "rs_invitations t6 = rs_invitations s" "rs_grants t6 = rs_grants s" using t6 by (simp_all add: store_le_def)
  moreover have "invitation_within p (rs_grants s) ?i"
    using st id act sub late by (auto simp: invitation_within_def within_def new_invitation_def isSubset_def list_all_iff)
  ultimately have "good p t6 (t6\<lparr>rs_invitations := map_set (si_invitationId ?i) ?i (rs_invitations t6)\<rparr>)"
    using store_wf[OF wf t6] n(2) sid by (intro put_invitation_good) simp_all
  then have fin: "good p s w" if "store_le (t6\<lparr>rs_invitations := map_set (si_invitationId ?i) ?i (rs_invitations t6)\<rparr>) w" for w
    using good_after[OF wf t6 _ that] by blast
  show "good p s (snd (st_bind (put_invitation ?i) (\<lambda>_.
     st_bind (appendEvent p InvitationSent (no_fields\<lparr>af_principalId := Some (ms_principalId (ii_inviterSession i)),
       af_grantId := Some (gr_grantId inviter), af_invitationId := Some k,
       af_reportVersionId := Some (gr_reportVersionId inviter)\<rparr>)) (\<lambda>_.
     st_bind (invitationView p ?i) (\<lambda>view. st_return (view, token)))) t6))"
    by (rule put_invitation_tail[where P = "good p s"], intro quiets, erule fin)
qed

lemma find_by_token_stored:
  assumes "access_wf p s" and "find_by_token p token s = Some i"
  shows "map_of (rs_invitations s) (si_invitationId i) = Some i" "si_tokenDigest i = digest p (invite_text token)"
proof -
  from assms(2) have "i \<in> snd ` set (rs_invitations s)" and d: "si_tokenDigest i = digest p (invite_text token)"
    using find_SomeD[of _ "map snd (rs_invitations s)" i] by (auto simp: find_by_token_def)
  then obtain k where "(k, i) \<in> set (rs_invitations s)" by auto
  then have m: "map_of (rs_invitations s) k = Some i" using assms(1) unfolding access_wf_def by (simp add: map_of_is_SomeI)
  then have "si_invitationId i = k" using assms(1) unfolding access_wf_def by blast
  with m show "map_of (rs_invitations s) (si_invitationId i) = Some i" by simp
  show "si_tokenDigest i = digest p (invite_text token)" by (rule d)
qed

lemma findInvitation_Inr: "findInvitation p token s = (Inr i, t) \<longleftrightarrow> t = s \<and> find_by_token p token s = Some i"
  by (auto simp: findInvitation_def)

lemma invitationState_sent: "invitationState p i s = (Inr InvSent, t) \<Longrightarrow> si_state i = InvSent"
  by (auto simp: invitationState_def split: if_splits)

lemma good_put_invitation:
  assumes "access_wf p s" and "store_le s t"
    and "good p t (t\<lparr>rs_invitations := map_set (si_invitationId i) i (rs_invitations t)\<rparr>)"
    and "good p (t\<lparr>rs_invitations := map_set (si_invitationId i) i (rs_invitations t)\<rparr>)
           (snd (f () (t\<lparr>rs_invitations := map_set (si_invitationId i) i (rs_invitations t)\<rparr>)))"
  shows "good p s (snd (st_bind (put_invitation i) f t))"
  using good_trans[OF store_good[OF assms(1,2)] good_trans[OF assms(3,4)]] by (simp add: st_bind_def put_invitation_def)

lemma bind_quiet_good:
  assumes "good p s (snd (m s))" and "\<And>x. quiet (f x)"
  shows "good p s (snd (st_bind m f s))"
proof (cases "fst (m s)")
  case (Inr x)
  have "store_le (snd (m s)) (snd (f x (snd (m s))))" using assms(2) unfolding quiet_def by blast
  moreover have "access_wf p (snd (m s))" using assms(1) by (simp add: good_def)
  ultimately show ?thesis using assms(1) Inr good_trans store_good by (simp add: st_bind_def Let_def)
qed (use assms(1) in \<open>simp add: st_bind_def Let_def\<close>)

lemma redemption_within:
  assumes "invitation_within p grants i"
  shows "grant_within p grants (new_grant (redemption_input i who) (Some (si_inviterGrantId i)) k email at)"
  using assms by (auto simp: invitation_within_def grant_within_def within_def new_grant_def redemption_input_def)

lemma redeemInvitation_good:
  assumes wf: "access_wf p s" and fresh: "fresh_tokens p"
  shows "good p s (snd (redeemInvitation p token session s))"
  unfolding redeemInvitation_def
proof (rule good_quiet[OF wf store_le_refl quiet_session], rule good_quiet[OF wf _ quiet_basic(4)], assumption,
    rule good_quiet[OF wf _ quiet_basic(8)], assumption, rule good_quiet[OF wf _ quiet_invitationState], assumption,
    rule good_ensure[OF wf], assumption, rule good_quiet[OF wf _ quiet_basic(3)], assumption,
    rule good_ensure[OF wf], assumption, rule good_quiet[OF wf _ quiet_basic(7)], assumption,
    rule good_quiet[OF wf _ quiet_lineage], assumption, rule good_ensure[OF wf], assumption)
  fix x t now t1 i t2 st t3 email t4 inviter t5 y t6
  assume found: "findInvitation p token t1 = (Inr i, t2)" and t1: "store_le s t1"
    and state: "invitationState p i t2 = (Inr st, t3)" "st = InvSent"
    and inviter: "requireGrant (si_inviterGrantId i) t4 = (Inr inviter, t5)" and t4: "store_le s t4" and t6: "store_le s t6"
  let ?i = "i\<lparr>si_state := InvRedeemed, si_redeemedAt := Some (to_iso now), si_redeemedByPrincipalId := Some (ms_principalId session)\<rparr>"
  let ?u = "t6\<lparr>rs_invitations := map_set (si_invitationId ?i) ?i (rs_invitations t6)\<rparr>"
  have sent: "si_state i = InvSent" using state invitationState_sent by blast
  have "find_by_token p token t1 = Some i" using found by (simp add: findInvitation_Inr)
  from find_by_token_stored[OF store_wf[OF wf t1] this]
  have i6: "map_of (rs_invitations t6) (si_invitationId i) = Some i" using t1 t6 by (simp add: store_le_def)
  then have k: "token_below p ''invitation'' (rs_tokens t6) (si_invitationId i)" and w: "invitation_within p (rs_grants t6) i"
    using store_wf[OF wf t6] unfolding access_wf_def by blast+
  have "map_of (rs_grants t6) (si_inviterGrantId i) = Some inviter"
    using inviter t4 t6 by (auto simp: requireGrant_Inr store_le_def)
  then have id: "gr_grantId inviter = si_inviterGrantId i" using store_wf[OF wf t6] unfolding access_wf_def by blast
  have put: "good p t6 ?u"
    using store_wf[OF wf t6] i6 k w sent by (intro put_invitation_good) (auto simp: invitation_le_def invitation_within_def)
  then have wfu: "access_wf p ?u" by (simp add: good_def)
  have "good p ?u (snd (storeGrant p (redemption_input i (ms_principalId session)) (Some (gr_grantId inviter)) (Some (to_iso now)) ?u))"
    unfolding id by (rule storeGrant_good[OF wfu fresh]) (use w in \<open>simp add: redemption_within\<close>)
  then have fin: "good p ?u (snd (st_bind (storeGrant p (redemption_input i (ms_principalId session)) (Some (gr_grantId inviter)) (Some (to_iso now)))
      (\<lambda>g. st_bind (appendEvent p InvitationRedeemed (no_fields\<lparr>af_principalId := Some (ms_principalId session),
       af_grantId := Some (gr_grantId g), af_invitationId := Some (si_invitationId i),
       af_reportVersionId := Some (gr_reportVersionId g)\<rparr>)) (\<lambda>_. st_return g)) ?u))"
    by (rule bind_quiet_good) (intro quiets)
  show "good p s (snd (st_bind (put_invitation ?i) (\<lambda>_.
      st_bind (storeGrant p (redemption_input i (ms_principalId session)) (Some (gr_grantId inviter)) (Some (to_iso now)))
      (\<lambda>g. st_bind (appendEvent p InvitationRedeemed (no_fields\<lparr>af_principalId := Some (ms_principalId session),
       af_grantId := Some (gr_grantId g), af_invitationId := Some (si_invitationId i),
       af_reportVersionId := Some (gr_reportVersionId g)\<rparr>)) (\<lambda>_. st_return g))) t6))"
    by (rule good_put_invitation[OF wf t6 put]) (rule fin)
qed

section \<open>Reachable states\<close>

datatype access_call =
    RegisterVersion version_input
  | WithdrawModule string string string module_type
  | BeginMailbox string
  | VerifyMailbox string string string
  | IssueOwnerGrant owner_grant_input
  | RevokeGrant string string string
  | Authorise mailbox_session string authorisation_request
  | CreateInvitation share_invitation_input
  | RedeemInvitation string mailbox_session
  | ViewInvitation string
  | RevokeInvitation string mailbox_session

fun access_after :: "recipient_options \<Rightarrow> access_call \<Rightarrow> recipient_access \<Rightarrow> recipient_access" where
  "access_after p (RegisterVersion v) s = snd (registerDeliveredVersion p v s)"
| "access_after p (WithdrawModule a j r m) s = snd (withdrawDeliveredModule p a j r m s)"
| "access_after p (BeginMailbox email) s = snd (beginMailboxAuthentication p email s)"
| "access_after p (VerifyMailbox k otp who) s = snd (verifyMailboxAuthentication p k otp who s)"
| "access_after p (IssueOwnerGrant i) s = snd (issueOwnerGrant p i s)"
| "access_after p (RevokeGrant k by reason) s = snd (revokeGrant p k by reason s)"
| "access_after p (Authorise session k rq) s = snd (authorise p session k rq s)"
| "access_after p (CreateInvitation i) s = snd (createShareInvitation p i s)"
| "access_after p (RedeemInvitation token session) s = snd (redeemInvitation p token session s)"
| "access_after p (ViewInvitation k) s = snd (invitation p k s)"
| "access_after p (RevokeInvitation k actor) s = snd (revokeInvitation p k actor s)"

definition access_run :: "recipient_options \<Rightarrow> access_call list \<Rightarrow> recipient_access \<Rightarrow> recipient_access" where
  "access_run p cs s = fold (access_after p) cs s"

definition empty_access :: recipient_access where
  "empty_access = \<lparr>rs_grants = [], rs_invitations = [], rs_challenges = [], rs_deliveredVersions = [], rs_events = [],
     rs_clock = 0, rs_tokens = 0, rs_otps = 0\<rparr>"

lemma newRecipientAccess_empty: "newRecipientAccess p = Inr s \<longleftrightarrow> 16 \<le> length (ro_secret p) \<and> s = empty_access"
  by (auto simp: newRecipientAccess_def empty_access_def ensure_def)

inductive reachable_access :: "recipient_options \<Rightarrow> recipient_access \<Rightarrow> bool" for p where
  init: "newRecipientAccess p = Inr s \<Longrightarrow> reachable_access p s"
| step: "reachable_access p s \<Longrightarrow> reachable_access p (access_after p c s)"

lemma access_after_good: "access_wf p s \<Longrightarrow> fresh_tokens p \<Longrightarrow> good p s (access_after p c s)"
proof (cases c)
  case (Authorise session k rq)
  assume "access_wf p s"
  then show ?thesis using Authorise store_good quiet_authorise unfolding quiet_def by (metis access_after.simps(7))
next
  case (ViewInvitation k)
  assume "access_wf p s"
  then show ?thesis using ViewInvitation store_good quiet_invitation unfolding quiet_def by (metis access_after.simps(10))
qed (simp_all add: registerDeliveredVersion_good withdrawDeliveredModule_good beginMailboxAuthentication_good
    verifyMailboxAuthentication_good issueOwnerGrant_good revokeGrant_good createShareInvitation_good
    redeemInvitation_good revokeInvitation_good)

lemma access_run_good: "access_wf p s \<Longrightarrow> fresh_tokens p \<Longrightarrow> good p s (access_run p cs s)"
proof (induction cs arbitrary: s)
  case Nil
  then show ?case using store_good store_le_refl by (simp add: access_run_def)
next
  case (Cons c cs)
  have g: "good p s (access_after p c s)" using access_after_good Cons.prems by blast
  then have "good p (access_after p c s) (access_run p cs (access_after p c s))" using Cons by (simp add: good_def)
  from good_trans[OF g this] show ?case by (simp add: access_run_def)
qed

lemma empty_access_wf: "access_wf p empty_access"
  by (simp add: access_wf_def empty_access_def)

lemma reachable_access_wf: "reachable_access p s \<Longrightarrow> fresh_tokens p \<Longrightarrow> access_wf p s"
proof (induction rule: reachable_access.induct)
  case (init s)
  then show ?case by (simp add: newRecipientAccess_empty empty_access_wf)
next
  case (step s c)
  then show ?case using access_after_good unfolding good_def by blast
qed

lemma reachable_access_run: "reachable_access p s \<Longrightarrow> reachable_access p (access_run p cs s)"
  by (induction cs arbitrary: s) (auto simp: access_run_def intro: reachable_access.step)

end
