(* ===== verification/Recipient_Properties.thy ===== *)
theory Recipient_Properties
  imports Recipient_Machine
begin

text \<open>
  What the recipient access service guarantees over any sequence of operations: delegation never
  widens, revocation reaches the delegated grants and the open invitations, the decision of a request
  is the one of a declarative rule, and one-time codes and invitations are used once.
\<close>

section \<open>Delegation\<close>

lemma stored_grant:
  assumes "access_wf p s" and "map_of (rs_grants s) k = Some g"
  shows "gr_grantId g = k" "grant_within p (rs_grants s) g"
  using assms unfolding access_wf_def by blast+

lemma parent_is_root:
  assumes wf: "access_wf p s" and g: "map_of (rs_grants s) k = Some g" and q: "gr_parentGrantId g = Some q"
  obtains parent where "map_of (rs_grants s) q = Some parent" and "gr_parentGrantId parent = None" and "q \<noteq> k"
    and "within p parent (gr_permittedModules g) (gr_permittedActions g) (gr_organizationId g) (gr_jobId g)
           (gr_reportVersionId g) (gr_expiresAt g)"
proof -
  from stored_grant(2)[OF wf g] q obtain parent where m: "map_of (rs_grants s) q = Some parent"
    and w: "within p parent (gr_permittedModules g) (gr_permittedActions g) (gr_organizationId g) (gr_jobId g)
           (gr_reportVersionId g) (gr_expiresAt g)" by (auto simp: grant_within_def)
  have "gr_parentGrantId parent = None"
    using stored_grant(2)[OF wf m] w by (auto simp: grant_within_def within_def split: option.splits)
  moreover have "q \<noteq> k" using w m g by (auto simp: within_def)
  ultimately show thesis using that m w by blast
qed

definition grant_live :: "recipient_options \<Rightarrow> int \<Rightarrow> access_grant \<Rightarrow> bool" where
  "grant_live p now g \<longleftrightarrow> gr_active g \<and> \<not> expired_at p (gr_expiresAt g) now"

definition parent_live :: "recipient_options \<Rightarrow> int \<Rightarrow> (string, access_grant) js_map \<Rightarrow> access_grant \<Rightarrow> bool" where
  "parent_live p now grants g \<longleftrightarrow> (case gr_parentGrantId g of None \<Rightarrow> True
     | Some q \<Rightarrow> (case map_of grants q of None \<Rightarrow> False | Some parent \<Rightarrow> grant_live p now parent))"

text \<open>With delegation one level deep, the walk over the ancestors looks at the parent alone.\<close>

lemma lineage_one_level:
  assumes wf: "access_wf p s" and g: "map_of (rs_grants s) k = Some g"
  shows "fst (lineage p (rs_grants s) [gr_grantId g] (gr_parentGrantId g) n) = parent_live p (clock (ro_env p) n) (rs_grants s) g"
proof (cases "gr_parentGrantId g")
  case (Some q)
  obtain parent where "map_of (rs_grants s) q = Some parent" "gr_parentGrantId parent = None" "q \<noteq> k"
    using parent_is_root[OF wf g Some] by metis
  then show ?thesis using Some stored_grant(1)[OF wf g] by (simp add: parent_live_def grant_live_def)
qed (simp add: parent_live_def)

lemma lineage_dead_parent:
  assumes wf: "access_wf p s" and g: "map_of (rs_grants s) k = Some g" and q: "gr_parentGrantId g = Some q"
    and dead: "map_of (rs_grants s) q = Some parent" "\<not> gr_active parent"
  shows "\<not> fst (lineage p (rs_grants s) [gr_grantId g] (gr_parentGrantId g) n)"
  using dead q by (simp add: lineage_one_level[OF wf g] parent_live_def grant_live_def)

text \<open>C17: in every reachable state a delegated grant has a stored parent that was itself given by an
  owner and may invite; the delegated grant may not invite, and its modules, actions, report version and
  expiry stay within the parent's.\<close>

theorem delegation_stays_within:
  assumes "reachable_access p s" and "fresh_tokens p"
    and "map_of (rs_grants s) k = Some g" and "gr_parentGrantId g = Some q"
  shows "\<exists>parent. map_of (rs_grants s) q = Some parent \<and> gr_parentGrantId parent = None
    \<and> InviteRecipient \<in> set (gr_permittedActions parent) \<and> InviteRecipient \<notin> set (gr_permittedActions g)
    \<and> set (gr_permittedModules g) \<subseteq> set (gr_permittedModules parent)
    \<and> set (gr_permittedActions g) \<subseteq> set (gr_permittedActions parent)
    \<and> gr_organizationId g = gr_organizationId parent \<and> gr_jobId g = gr_jobId parent
    \<and> gr_reportVersionId g = gr_reportVersionId parent
    \<and> \<not> date_lt (date_parse (ro_env p) (gr_expiresAt parent)) (date_parse (ro_env p) (gr_expiresAt g))"
proof -
  have "access_wf p s" using assms(1,2) by (rule reachable_access_wf)
  from parent_is_root[OF this assms(3,4)] show ?thesis unfolding within_def by metis
qed

section \<open>Revocation\<close>

lemma later_grant:
  assumes "good p s t" and "map_of (rs_grants s) k = Some g"
  obtains g' where "map_of (rs_grants t) k = Some g'" and "grant_le g g'"
proof -
  have "entries_le grant_le (rs_grants s) (rs_grants t)" using assms(1) by (simp add: good_def access_le_def)
  from entries_le_map_of[OF this assms(2)] that show thesis by blast
qed

lemma dead_stays: "grant_le g g' \<Longrightarrow> \<not> gr_active g \<Longrightarrow> g' = g"
  by (auto simp: grant_le_def)

lemma authorise_denied:
  assumes "\<And>g t. authorise p session k rq s \<noteq> (Inr g, t)"
  shows "fst (authorise p session k rq s) = Inl AccessDenied"
proof (cases "fst (authorise_checks p session k rq s)")
  case (Inl e)
  then show ?thesis by (simp add: authorise_fst)
next
  case (Inr g)
  then have "fst (authorise p session k rq s) = Inr g" by (simp add: authorise_fst)
  then show ?thesis using assms by (metis prod.collapse)
qed

lemma redeemInvitation_Inr:
  assumes "redeemInvitation p token session s = (Inr g, t)"
  obtains i inviter u v w where "find_by_token p token s = Some i" and "si_state i = InvSent"
    and "map_of (rs_grants s) (si_inviterGrantId i) = Some inviter" and "gr_active inviter"
    and "store_le s u" and "rs_invitations v = map_set (si_invitationId i) (i\<lparr>si_state := InvRedeemed, si_redeemedAt :=
       Some (to_iso (clock (ro_env p) (rs_clock s + 2))), si_redeemedByPrincipalId := Some (ms_principalId session)\<rparr>) (rs_invitations u)"
    and "storeGrant p (redemption_input i (ms_principalId session)) (Some (gr_grantId inviter))
       (Some (to_iso (clock (ro_env p) (rs_clock s + 2)))) v = (Inr g, w)" and "store_le w t"
proof -
  from assms obtain t1 i t3 t4 t5 t6 v w e inviter where sess: "assertSession p session s = (Inr (), t1)"
    and "find_by_token p token (t1\<lparr>rs_clock := Suc (rs_clock t1)\<rparr>) = Some i"
    and st: "invitationState p i (t1\<lparr>rs_clock := Suc (rs_clock t1)\<rparr>) = (Inr InvSent, t3)"
    and inviter: "requireGrant (si_inviterGrantId i) t3 = (Inr inviter, t4)"
    and line: "assertGrantLineageActive p inviter t4 = (Inr (), t5)" "gr_active inviter"
    and put: "put_invitation (i\<lparr>si_state := InvRedeemed, si_redeemedAt := Some (to_iso (clock (ro_env p) (rs_clock t1))),
       si_redeemedByPrincipalId := Some (ms_principalId session)\<rparr>) t5 = (Inr (), v)"
    and store: "storeGrant p (redemption_input i (ms_principalId session)) (Some (gr_grantId inviter))
       (Some (to_iso (clock (ro_env p) (rs_clock t1)))) v = (Inr g, w)"
    and ev: "appendEvent p InvitationRedeemed e w = (Inr (), t)"
    unfolding redeemInvitation_def by (auto simp: findInvitation_Inr readClock_Inr)
  have t1: "t1 = s\<lparr>rs_clock := rs_clock s + 2\<rparr>" using sess by (simp add: assertSession_Inr)
  then have found: "find_by_token p token s = Some i" using \<open>find_by_token p token _ = Some i\<close> by (simp add: find_by_token_def)
  have s3: "store_le s t3" using quiet_result[OF quiet_invitationState st] t1 by (simp add: store_le_def)
  have s5: "store_le s t5" using s3 inviter quiet_result[OF quiet_lineage line(1)] store_le_trans by (auto simp: requireGrant_Inr)
  have "map_of (rs_grants s) (si_inviterGrantId i) = Some inviter" using inviter s3 by (simp add: requireGrant_Inr store_le_def)
  with found invitationState_sent[OF st] line(2) s5 put store quiet_result[OF quiet_appendEvent ev] show thesis
    by (intro that[of i inviter t5 v w]) (auto simp: t1 put_invitation_def)
qed

text \<open>C18: once a grant is revoked, whatever operations follow, no request under it or under a grant
  delegated from it is authorised, and no invitation sent under it is redeemed.\<close>

theorem revocation_is_lasting:
  assumes "reachable_access p s" and "fresh_tokens p"
    and "map_of (rs_grants s) k = Some g" and "\<not> gr_active g" and "t = access_run p cs s"
  shows "fst (authorise p session k rq t) = Inl AccessDenied
    \<and> (\<forall>k' g'. map_of (rs_grants t) k' = Some g' \<and> gr_parentGrantId g' = Some k \<longrightarrow> fst (authorise p session k' rq t) = Inl AccessDenied)
    \<and> (\<forall>token i. find_by_token p token t = Some i \<and> si_inviterGrantId i = k \<longrightarrow> isl (fst (redeemInvitation p token session t)))"
proof (intro conjI allI impI)
  have good: "good p s t" using assms(1,2,5) access_run_good reachable_access_wf by blast
  then have wf: "access_wf p t" by (simp add: good_def)
  obtain h where "map_of (rs_grants t) k = Some h" "grant_le g h" using later_grant[OF good assms(3)] .
  then have k: "map_of (rs_grants t) k = Some g" using dead_stays assms(4) by blast
  show "fst (authorise p session k rq t) = Inl AccessDenied"
    using authorise_checks_Inr(1,2)[OF authorise_Inr, of p session k rq t] k assms(4) by (intro authorise_denied) auto
  fix k' g'
  assume g': "map_of (rs_grants t) k' = Some g' \<and> gr_parentGrantId g' = Some k"
  show "fst (authorise p session k' rq t) = Inl AccessDenied"
  proof (rule authorise_denied, rule notI)
    fix h u
    assume "authorise p session k' rq t = (Inr h, u)"
    note c = authorise_checks_Inr(1,6)[OF authorise_Inr[OF this]]
    from c(1) g' have "h = g'" by simp
    with c(2) lineage_dead_parent[OF wf conjunct1[OF g'] conjunct2[OF g'] k assms(4)] show False by blast
  qed
next
  have good: "good p s t" using assms(1,2,5) access_run_good reachable_access_wf by blast
  obtain h where "map_of (rs_grants t) k = Some h" "grant_le g h" using later_grant[OF good assms(3)] .
  then have k: "map_of (rs_grants t) k = Some g" using dead_stays assms(4) by blast
  fix token i
  assume i: "find_by_token p token t = Some i \<and> si_inviterGrantId i = k"
  show "isl (fst (redeemInvitation p token session t))"
  proof (rule ccontr)
    assume "\<not> isl (fst (redeemInvitation p token session t))"
    then obtain h u where "redeemInvitation p token session t = (Inr h, u)" by (metis prod.collapse sum.collapse(2))
    then obtain j inviter where "find_by_token p token t = Some j" "map_of (rs_grants t) (si_inviterGrantId j) = Some inviter"
      "gr_active inviter" by (rule redeemInvitation_Inr)
    with i k assms(4) show False by simp
  qed
qed

section \<open>The decision of a request\<close>

text \<open>The rule a request is decided by, at one instant.\<close>

definition session_live :: "recipient_options \<Rightarrow> int \<Rightarrow> mailbox_session \<Rightarrow> bool" where
  "session_live p now session \<longleftrightarrow> ms_active session \<and> \<not> expired_at p (ms_expiresAt session) now
     \<and> \<not> date_lt (Some now) (date_parse (ro_env p) (ms_mailboxVerifiedAt session))"

definition module_delivered :: "recipient_access \<Rightarrow> string \<Rightarrow> module_type \<Rightarrow> bool" where
  "module_delivered s key m \<longleftrightarrow> (case map_of (rs_deliveredVersions s) key of None \<Rightarrow> False
     | Some d \<Rightarrow> m \<in> set (dv_modules d) \<and> m \<notin> set (dv_withdrawnModules d))"

definition grants_request :: "recipient_options \<Rightarrow> access_grant \<Rightarrow> mailbox_session \<Rightarrow> authorisation_request \<Rightarrow> bool" where
  "grants_request p g session rq \<longleftrightarrow> gr_principalId g = ms_principalId session
     \<and> canonicalEmail (ms_email session) = Inr (gr_verifiedEmail g)
     \<and> gr_organizationId g = ar_organizationId rq \<and> gr_jobId g = ar_jobId rq \<and> gr_reportVersionId g = ar_reportVersionId rq
     \<and> ar_module rq \<in> set (gr_permittedModules g) \<and> ar_action rq \<in> set (gr_permittedActions g)"

definition permitted ::
  "recipient_options \<Rightarrow> int \<Rightarrow> recipient_access \<Rightarrow> mailbox_session \<Rightarrow> string \<Rightarrow> authorisation_request \<Rightarrow> bool" where
  "permitted p now s session k rq \<longleftrightarrow> session_live p now session
     \<and> module_delivered s (versionKey (ar_organizationId rq) (ar_jobId rq) (ar_reportVersionId rq)) (ar_module rq)
     \<and> (case map_of (rs_grants s) k of None \<Rightarrow> False
        | Some g \<Rightarrow> grant_live p now g \<and> parent_live p now (rs_grants s) g \<and> grants_request p g session rq)"

lemma permitted_stored: "permitted p now s session k rq \<Longrightarrow> \<exists>g. map_of (rs_grants s) k = Some g"
  by (auto simp: permitted_def split: option.splits)

definition silent_error :: "'r access_op \<Rightarrow> bool" where
  "silent_error m \<longleftrightarrow> (\<forall>s e t. m s = (Inl e, t) \<longrightarrow> rs_events t = rs_events s)"

definition silent :: "'r access_op \<Rightarrow> bool" where
  "silent m \<longleftrightarrow> (\<forall>s r t. m s = (r, t) \<longrightarrow> rs_events t = rs_events s)"

lemma silent_bind: "silent m \<Longrightarrow> (\<And>x. silent_error (f x)) \<Longrightarrow> silent_error (st_bind m f)"
  unfolding silent_def silent_error_def by (simp add: st_bind_Inl) metis

lemma silent_error_ensure: "silent_error m \<Longrightarrow> silent_error (st_ensure ok e m)"
  by (simp add: silent_error_def st_ensure_def)

lemma silent_steps: "silent (readClock p)" "silent (requireGrant k)" "silent (st_lift r)" "silent (assertGrantLineageActive p g)"
  "silent (requireDelivered a j r' ms)" "silent (assertSession p session)"
proof -
  show "silent (assertSession p session)"
    unfolding silent_def assertSession_def st_ensure_def st_bind_def readClock_def st_return_def Let_def by (auto split: if_splits)
qed (auto simp: silent_def readClock_def requireGrant_def assertGrantLineageActive_def Let_def requireDelivered_def split: option.splits)

lemma silent_error_append: "silent_error (st_bind (appendEvent p ty flds) (\<lambda>_. st_return g))"
  unfolding silent_error_def by (auto simp: st_bind_Inl appendEvent_Inr)

lemma authorise_checks_silent: "silent_error (authorise_checks p session k rq)"
  unfolding authorise_checks_def
  by (intro silent_bind silent_error_ensure silent_steps silent_error_append)

lemma authorise_events:
  "\<exists>e. rs_events (snd (authorise p session k rq s)) = rs_events s @ [e] \<and> af_grantId (ae_fields e) = Some k
     \<and> ae_type e = (if isl (fst (authorise p session k rq s)) then RequestDenied else RequestAuthorised)"
proof (cases "authorise_checks p session k rq s")
  case (Pair r t)
  show ?thesis
  proof (cases r)
    case (Inl e)
    then have "rs_events t = rs_events s" using Pair authorise_checks_silent[of p session k rq] unfolding silent_error_def by blast
    then show ?thesis using Pair Inl
      by (simp add: authorise_def Let_def st_bind_def appendEvent_def newToken_def readClock_def st_throw_def no_fields_def)
  next
    case (Inr g)
    have "\<exists>e. rs_events t = rs_events s @ [e] \<and> af_grantId (ae_fields e) = Some k \<and> ae_type e = RequestAuthorised"
      using Pair Inr unfolding authorise_checks_def
      by (auto simp: assertSession_Inr requireGrant_Inr assertGrantLineageActive_Inr requireDelivered_Inr
          readClock_Inr appendEvent_Inr no_fields_def)
    then show ?thesis using Pair Inr by (simp add: authorise_def)
  qed
qed

lemma authorise_checks_permitted:
  assumes wf: "access_wf p s" and still: "\<And>n. rs_clock s \<le> n \<Longrightarrow> clock (ro_env p) n = now"
  shows "(\<exists>t. authorise_checks p session k rq s = (Inr g, t)) \<longleftrightarrow> permitted p now s session k rq \<and> map_of (rs_grants s) k = Some g"
proof (cases "map_of (rs_grants s) k = Some g")
  case True
  note line = lineage_one_level[OF wf True]
  have c: "clock (ro_env p) (snd (lineage p (rs_grants s) [gr_grantId g] (gr_parentGrantId g) (rs_clock s + 2))) = now"
    "clock (ro_env p) (rs_clock s) = now" "clock (ro_env p) (Suc (rs_clock s)) = now" "clock (ro_env p) (rs_clock s + 2) = now"
    using lineage_clock[of "rs_clock s + 2" p "rs_grants s"] by (auto intro!: still intro: order_trans[of _ "rs_clock s + 2"])
  show ?thesis using True c line[of "rs_clock s + 2"] unfolding authorise_checks_def
    by (auto simp: assertSession_Inr requireGrant_Inr assertGrantLineageActive_Inr requireDelivered_Inr readClock_Inr appendEvent_Inr
        permitted_def session_live_def module_delivered_def grants_request_def grant_live_def split: option.splits)
next
  case False
  then show ?thesis using authorise_checks_Inr(1) by blast
qed

text \<open>C19: in a reachable state, while the clock stands at one instant, a request is authorised exactly
  when the declarative rule permits it, and then with the stored grant; every other request is denied
  alike, and every request leaves one event with its decision.\<close>

theorem authorise_decides:
  assumes "reachable_access p s" and "fresh_tokens p" and "\<forall>n \<ge> rs_clock s. clock (ro_env p) n = now"
  shows "fst (authorise p session k rq s) =
      (if permitted p now s session k rq then of_option AccessDenied (map_of (rs_grants s) k) else Inl AccessDenied)
    \<and> (\<exists>e. rs_events (snd (authorise p session k rq s)) = rs_events s @ [e] \<and> af_grantId (ae_fields e) = Some k
        \<and> ae_type e = (if permitted p now s session k rq then RequestAuthorised else RequestDenied))"
proof -
  have wf: "access_wf p s" using assms(1,2) by (rule reachable_access_wf)
  have eq: "(\<exists>t. authorise_checks p session k rq s = (Inr g, t)) \<longleftrightarrow> permitted p now s session k rq \<and> map_of (rs_grants s) k = Some g" for g
    using assms(3) by (intro authorise_checks_permitted[OF wf]) simp
  have fst: "fst (authorise p session k rq s) =
      (if permitted p now s session k rq then of_option AccessDenied (map_of (rs_grants s) k) else Inl AccessDenied)"
  proof (cases "fst (authorise_checks p session k rq s)")
    case (Inl e)
    then have "\<nexists>t. authorise_checks p session k rq s = (Inr g, t)" for g by auto
    then have "\<not> (permitted p now s session k rq \<and> map_of (rs_grants s) k = Some g)" for g
      by (rule contrapos_nn) (rule eq[THEN iffD2])
    then have "\<not> permitted p now s session k rq" using permitted_stored by blast
    with Inl show ?thesis by (simp add: authorise_fst)
  next
    case (Inr g)
    then have "authorise_checks p session k rq s = (Inr g, snd (authorise_checks p session k rq s))" by (metis prod.collapse)
    then have "permitted p now s session k rq \<and> map_of (rs_grants s) k = Some g" using eq[of g] by blast
    with Inr show ?thesis by (simp add: authorise_fst)
  qed
  have "isl (fst (authorise p session k rq s)) = (\<not> permitted p now s session k rq)"
    unfolding fst using permitted_stored[of p now s session k rq] by (cases "permitted p now s session k rq") auto
  with fst authorise_events[of p session k rq s] show ?thesis by (cases "permitted p now s session k rq") auto
qed

section \<open>One-time codes\<close>

definition challenge_closed :: "recipient_options \<Rightarrow> recipient_access \<Rightarrow> mailbox_challenge \<Rightarrow> bool" where
  "challenge_closed p s c \<longleftrightarrow> \<not> challenge_open p (clock (ro_env p) (rs_clock s)) c"

definition clock_forward :: "recipient_options \<Rightarrow> bool" where
  "clock_forward p \<longleftrightarrow> (\<forall>m n. m \<le> n \<longrightarrow> clock (ro_env p) m \<le> clock (ro_env p) n)"

lemma verify_closed:
  assumes "map_of (rs_challenges s) k = Some c" and "challenge_closed p s c"
  shows "fst (verifyMailboxAuthentication p k otp who s) = Inl AccessDenied"
  using assms by (simp add: verifyMailboxAuthentication_def st_bind_def readClock_def challenge_closed_def)

lemma verify_wrong:
  assumes "access_wf p s" and "map_of (rs_challenges s) k = Some c" and "\<not> challenge_closed p s c"
    and "digest p (otp_text k otp) \<noteq> mc_otpDigest c"
  shows "map_of (rs_challenges (snd (verifyMailboxAuthentication p k otp who s))) k
    = Some (c\<lparr>mc_failedAttempts := mc_failedAttempts c + 1\<rparr>)"
proof -
  have "mc_challengeId c = k" using assms(1,2) unfolding access_wf_def by blast
  then show ?thesis using assms(2-)
    by (simp add: verifyMailboxAuthentication_def st_bind_def readClock_def challenge_closed_def put_challenge_def st_throw_def)
qed

lemma later_challenge:
  assumes "good p s t" and "map_of (rs_challenges s) k = Some c"
  obtains c' where "map_of (rs_challenges t) k = Some c'" and "challenge_le c c'"
proof -
  have "entries_le challenge_le (rs_challenges s) (rs_challenges t)" using assms(1) by (simp add: good_def access_le_def)
  from entries_le_map_of[OF this assms(2)] that show thesis by blast
qed

lemma closed_later:
  assumes "clock_forward p" and "good p s t" and "challenge_le c c'" and "challenge_closed p s c"
  shows "challenge_closed p t c'"
proof -
  have "rs_clock s \<le> rs_clock t" using assms(2) by (simp add: good_def access_le_def)
  then have n: "clock (ro_env p) (rs_clock s) \<le> clock (ro_env p) (rs_clock t)" using assms(1) by (simp add: clock_forward_def)
  have e: "expired_at p (mc_expiresAt c) (clock (ro_env p) (rs_clock s)) \<Longrightarrow> expired_at p (mc_expiresAt c) (clock (ro_env p) (rs_clock t))"
    using n by (cases "date_parse (ro_env p) (mc_expiresAt c)") (auto simp: expired_at_def date_le_def)
  show ?thesis using assms(3,4) e by (auto simp: challenge_le_def challenge_closed_def challenge_open_def)
qed

fun wrong_guess :: "recipient_options \<Rightarrow> mailbox_challenge \<Rightarrow> access_call \<Rightarrow> bool" where
  "wrong_guess p c (VerifyMailbox k otp who) \<longleftrightarrow> k = mc_challengeId c \<and> digest p (otp_text k otp) \<noteq> mc_otpDigest c"
| "wrong_guess p c _ \<longleftrightarrow> False"

lemma guess_counted:
  assumes wf: "access_wf p s" and fresh: "fresh_tokens p" and fwd: "clock_forward p"
    and c: "map_of (rs_challenges s) k = Some c"
  obtains c' where "map_of (rs_challenges (access_after p call s)) k = Some c'" and "challenge_le c c'"
    and "challenge_closed p s c \<Longrightarrow> challenge_closed p (access_after p call s) c'"
    and "\<not> challenge_closed p s c \<Longrightarrow> wrong_guess p c call \<Longrightarrow> mc_failedAttempts c' = mc_failedAttempts c + 1"
proof -
  have g: "good p s (access_after p call s)" using access_after_good wf fresh by blast
  obtain c' where c': "map_of (rs_challenges (access_after p call s)) k = Some c'" "challenge_le c c'" using later_challenge[OF g c] .
  have "mc_failedAttempts c' = mc_failedAttempts c + 1" if open_: "\<not> challenge_closed p s c" and "wrong_guess p c call"
  proof -
    have "mc_challengeId c = k" using wf c unfolding access_wf_def by blast
    with that(2) obtain otp who where "call = VerifyMailbox k otp who" "digest p (otp_text k otp) \<noteq> mc_otpDigest c" by (cases call) auto
    then show ?thesis using verify_wrong[OF wf c open_] c'(1) by auto
  qed
  with that c' closed_later[OF fwd g c'(2)] show thesis by blast
qed

lemma guesses_counted:
  assumes "access_wf p s" and "fresh_tokens p" and "clock_forward p" and "map_of (rs_challenges s) k = Some c"
  shows "\<exists>c'. map_of (rs_challenges (access_run p cs s)) k = Some c' \<and> challenge_le c c'
    \<and> (challenge_closed p (access_run p cs s) c' \<or> mc_failedAttempts c + int (length (filter (wrong_guess p c) cs)) \<le> mc_failedAttempts c')
    \<and> (challenge_closed p s c \<longrightarrow> challenge_closed p (access_run p cs s) c')"
  using assms
proof (induction cs arbitrary: s c)
  case Nil
  then show ?case by (simp add: access_run_def)
next
  case (Cons call cs)
  let ?s = "access_after p call s"
  obtain d where d: "map_of (rs_challenges ?s) k = Some d" "challenge_le c d"
    "challenge_closed p s c \<Longrightarrow> challenge_closed p ?s d"
    "\<not> challenge_closed p s c \<Longrightarrow> wrong_guess p c call \<Longrightarrow> mc_failedAttempts d = mc_failedAttempts c + 1"
    using guess_counted[OF Cons.prems] by metis
  have "access_wf p ?s" using access_after_good Cons.prems(1,2) by (simp add: good_def)
  from Cons.IH[OF this Cons.prems(2,3) d(1)] obtain e where e: "map_of (rs_challenges (access_run p cs ?s)) k = Some e" "challenge_le d e"
    "challenge_closed p (access_run p cs ?s) e \<or> mc_failedAttempts d + int (length (filter (wrong_guess p d) cs)) \<le> mc_failedAttempts e"
    "challenge_closed p ?s d \<Longrightarrow> challenge_closed p (access_run p cs ?s) e" by blast
  have "wrong_guess p d = wrong_guess p c" using d(2)
    by (intro ext) (case_tac x, auto simp: challenge_le_def)
  moreover have "mc_failedAttempts c \<le> mc_failedAttempts d" using d(2) by (auto simp: challenge_le_def)
  moreover have run: "access_run p (call # cs) s = access_run p cs ?s" by (simp add: access_run_def)
  ultimately show ?case unfolding run using e le_trans(3)[OF d(2) e(2)] d(3,4)
    by (intro exI[of _ e] conjI impI) (cases "challenge_closed p s c"; auto)+
qed

text \<open>C20: on a clock that never goes back, five wrong codes against a challenge, among whatever other
  operations, close it for good: after them even the right code is denied.\<close>

theorem wrong_codes_lock:
  assumes "reachable_access p s" and "fresh_tokens p" and "clock_forward p"
    and "map_of (rs_challenges s) k = Some c" and "5 \<le> length (filter (wrong_guess p c) cs)"
  shows "fst (verifyMailboxAuthentication p k otp who (access_run p cs s)) = Inl AccessDenied"
proof -
  have wf: "access_wf p s" using assms(1,2) by (rule reachable_access_wf)
  from guesses_counted[OF wf assms(2-4), of cs] obtain c' where c': "map_of (rs_challenges (access_run p cs s)) k = Some c'" "challenge_le c c'"
    "challenge_closed p (access_run p cs s) c' \<or> mc_failedAttempts c + int (length (filter (wrong_guess p c) cs)) \<le> mc_failedAttempts c'" by blast
  have "0 \<le> mc_failedAttempts c" using wf assms(4) unfolding access_wf_def by blast
  then have "challenge_closed p (access_run p cs s) c'" using c'(3) assms(5) by (auto simp: challenge_closed_def challenge_open_def)
  then show ?thesis by (rule verify_closed[OF c'(1)])
qed

section \<open>Single use\<close>

lemma verify_consumes:
  assumes wf: "access_wf p s" and "verifyMailboxAuthentication p k otp who s = (Inr session, t)"
  shows "\<exists>c. map_of (rs_challenges t) k = Some c \<and> mc_consumedAt c \<noteq> None"
proof -
  let ?s = "s\<lparr>rs_clock := Suc (rs_clock s)\<rparr>"
  from assms(2) obtain c u v where c: "map_of (rs_challenges s) k = Some c"
    and put: "put_challenge (c\<lparr>mc_consumedAt := Some (to_iso (clock (ro_env p) (rs_clock s)))\<rparr>) ?s = (Inr (), u)"
    and "st_bind (newToken p ''session'') (\<lambda>sessionId.
      st_bind (appendEvent p MailboxVerified (no_fields\<lparr>af_principalId := Some who\<rparr>)) (\<lambda>_. st_return (v sessionId))) u = (Inr session, t)"
    unfolding verifyMailboxAuthentication_def by (auto simp: readClock_Inr split: option.splits if_splits)
  then have "store_le u t" by (elim quiet_result[rotated]) (intro quiets)
  moreover have "mc_challengeId c = k" using wf c unfolding access_wf_def by blast
  ultimately show ?thesis using put by (auto simp: put_challenge_def store_le_def)
qed

lemma consumed_denied:
  assumes "map_of (rs_challenges s) k = Some c" and "mc_consumedAt c \<noteq> None"
  shows "fst (verifyMailboxAuthentication p k otp who s) = Inl AccessDenied"
  by (rule verify_closed[OF assms(1)]) (use assms(2) in \<open>simp add: challenge_closed_def challenge_open_def\<close>)

lemma find_entries_le:
  assumes "entries_le le m m'" and "\<And>x y. le x y \<Longrightarrow> P y = P x" and "List.find P (map snd m) = Some x"
  shows "\<exists>y. List.find P (map snd m') = Some y \<and> le x y"
proof -
  from assms(1) obtain xs ys where m': "m' = xs @ ys" and l: "list_all2 (\<lambda>x y. fst y = fst x \<and> le (snd x) (snd y)) m xs"
    unfolding entries_le_def by blast
  from l assms(2,3) show ?thesis unfolding m'
    by (induction rule: list_all2_induct) (auto split: if_splits)
qed

lemma find_by_token_later:
  assumes "good p s t" and "find_by_token p token s = Some i"
  obtains j where "find_by_token p token t = Some j" and "invitation_le i j"
proof -
  have "entries_le invitation_le (rs_invitations s) (rs_invitations t)" using assms(1) by (simp add: good_def access_le_def)
  moreover have "(si_tokenDigest y = d) = (si_tokenDigest x = d)" if "invitation_le x y" for x y d
    using that by (auto simp: invitation_le_def)
  ultimately have "\<exists>j. find_by_token p token t = Some j \<and> invitation_le i j"
    using assms(2) unfolding find_by_token_def by (rule find_entries_le)
  with that show thesis by blast
qed

lemma redeem_spent:
  assumes "find_by_token p token s = Some i" and "si_state i \<noteq> InvSent"
  shows "fst (redeemInvitation p token session s) = Inl AccessDenied"
  using assms by (simp add: redeemInvitation_def assertSession_def st_bind_def st_ensure_def readClock_def st_return_def
      findInvitation_def invitationState_def find_by_token_def)

lemma storeGrant_invitations: "rs_invitations (snd (storeGrant p i parent at s)) = rs_invitations s"
  by (auto simp: storeGrant_def st_bind_def readClock_def newToken_def st_lift_def put_grant_def appendEvent_def st_return_def Let_def
      split: sum.split)

lemma find_map_set:
  assumes "\<And>a x. (a, x) \<in> set m \<Longrightarrow> key x = a" and "distinct (map fst m)"
    and "List.find P (map snd m) = Some i" and "P j"
  shows "List.find P (map snd (map_set (key i) j m)) = Some j"
  using assms
proof (induction m)
  case (Cons e m)
  have "key (snd e) = fst e" using Cons.prems(1)[of "fst e" "snd e"] by simp
  moreover have "key i \<in> fst ` set m" if "\<not> P (snd e)"
    using find_SomeD[of P "map snd m" i] Cons.prems(1,3) that by (cases e) force
  ultimately show ?case using Cons.IH Cons.prems by (cases e) (auto split: if_splits)
qed simp

lemma redeem_spends:
  assumes wf: "access_wf p s" and "redeemInvitation p token session s = (Inr g, t)"
  shows "\<exists>i. find_by_token p token t = Some i \<and> si_state i \<noteq> InvSent"
  using assms(2)
proof (rule redeemInvitation_Inr)
  fix i :: share_invitation and inviter u v w
  let ?i = "i\<lparr>si_state := InvRedeemed, si_redeemedAt := Some (to_iso (clock (ro_env p) (rs_clock s + 2))),
    si_redeemedByPrincipalId := Some (ms_principalId session)\<rparr>"
  assume i: "find_by_token p token s = Some i" "store_le s u"
    and v: "rs_invitations v = map_set (si_invitationId i) ?i (rs_invitations u)"
    and w: "storeGrant p (redemption_input i (ms_principalId session)) (Some (gr_grantId inviter))
       (Some (to_iso (clock (ro_env p) (rs_clock s + 2)))) v = (Inr g, w)" "store_le w t"
  have "rs_invitations w = rs_invitations v" using storeGrant_invitations w(1) by (metis snd_conv)
  then have t: "rs_invitations t = rs_invitations v" using w(2) by (simp add: store_le_def)
  have u: "rs_invitations u = rs_invitations s" using i(2) by (simp add: store_le_def)
  note m = find_by_token_stored[OF wf i(1)]
  have d: "distinct (map fst (rs_invitations s))" using wf unfolding access_wf_def by blast
  have key: "si_invitationId x = a" if "(a, x) \<in> set (rs_invitations s)" for a x
    using wf that d unfolding access_wf_def by (meson map_of_is_SomeI)
  have "find_by_token p token t = Some ?i" unfolding find_by_token_def t v u
    by (rule find_map_set[OF key d i(1)[unfolded find_by_token_def]]) (simp_all add: m(2))
  then show ?thesis by (intro exI[of _ ?i]) simp
qed

text \<open>C21: a mailbox code opens one session and an invitation is redeemed once: after a success, whatever
  operations follow, the same challenge and the same invitation token are denied to everyone.\<close>

theorem one_time_secrets:
  assumes "reachable_access p s" and "fresh_tokens p"
  shows "(verifyMailboxAuthentication p k otp who s = (Inr session, t) \<longrightarrow>
        fst (verifyMailboxAuthentication p k otp' who' (access_run p cs t)) = Inl AccessDenied)
    \<and> (redeemInvitation p token session s = (Inr g, t) \<longrightarrow>
        fst (redeemInvitation p token session' (access_run p cs t)) = Inl AccessDenied)"
proof (intro conjI impI)
  have wf: "access_wf p s" using assms by (rule reachable_access_wf)
  {
    assume ok: "verifyMailboxAuthentication p k otp who s = (Inr session, t)"
    from verify_consumes[OF wf ok] obtain c where c: "map_of (rs_challenges t) k = Some c" "mc_consumedAt c \<noteq> None" by blast
    have "access_wf p t" using verifyMailboxAuthentication_good[OF wf, of k otp who] ok by (simp add: good_def)
    then have "good p t (access_run p cs t)" using access_run_good assms(2) by blast
    from later_challenge[OF this c(1)] obtain d where "map_of (rs_challenges (access_run p cs t)) k = Some d" "challenge_le c d" .
    with c(2) show "fst (verifyMailboxAuthentication p k otp' who' (access_run p cs t)) = Inl AccessDenied"
      by (intro consumed_denied[of _ _ d]) (auto simp: challenge_le_def)
  }
  assume ok: "redeemInvitation p token session s = (Inr g, t)"
  from redeem_spends[OF wf ok] obtain i where i: "find_by_token p token t = Some i" "si_state i \<noteq> InvSent" by blast
  have "access_wf p t" using redeemInvitation_good[OF wf assms(2), of token session] ok by (simp add: good_def)
  then have "good p t (access_run p cs t)" using access_run_good assms(2) by blast
  from find_by_token_later[OF this i(1)] obtain j where "find_by_token p token (access_run p cs t) = Some j" "invitation_le i j" .
  with i(2) show "fst (redeemInvitation p token session' (access_run p cs t)) = Inl AccessDenied"
    by (intro redeem_spent[of _ _ _ j]) (auto simp: invitation_le_def)
qed

text \<open>The ancestors of a grant up to one without a parent, each active and unexpired at its own reading of the clock.\<close>

fun live_chain :: "recipient_options \<Rightarrow> (string, access_grant) js_map \<Rightarrow> nat \<Rightarrow> string option \<Rightarrow> string list \<Rightarrow> bool" where
  "live_chain p grants n None is \<longleftrightarrow> is = []"
| "live_chain p grants n (Some i) [] \<longleftrightarrow> False"
| "live_chain p grants n (Some i) (j # js) \<longleftrightarrow> j = i \<and> (case map_of grants i of None \<Rightarrow> False
     | Some g \<Rightarrow> gr_active g \<and> \<not> expired_at p (gr_expiresAt g) (clock (ro_env p) n) \<and> live_chain p grants (Suc n) (gr_parentGrantId g) js)"

text \<open>C22: the walk over the ancestors of a grant ends after at most one reading of the clock per stored grant that was
  not seen, also when stored grants form a cycle, and it answers yes exactly when distinct unseen ancestors,
  each active and unexpired when it is looked at, lead up to a grant without a parent.\<close>

theorem lineage_walk_ends:
  "snd (lineage p grants seen q n) \<le> n + card (fst ` set grants - set seen)
   \<and> (fst (lineage p grants seen q n) \<longleftrightarrow> (\<exists>ids. live_chain p grants n q ids \<and> distinct ids \<and> set ids \<inter> set seen = {}))"
proof (induction p grants seen q n rule: lineage.induct)
  case (2 p grants seen i n)
  show ?case
  proof (cases "i \<in> set seen \<or> map_of grants i = None")
    case True
    then have "\<not> (live_chain p grants n (Some i) ids \<and> distinct ids \<and> set ids \<inter> set seen = {})" for ids
      by (cases ids) auto
    then show ?thesis using True by auto
  next
    case False
    then obtain g where g: "map_of grants i = Some g" by auto
    have less: "card (fst ` set grants - set (i # seen)) < card (fst ` set grants - set seen)"
      using lineage_descends[OF g] False by simp
    have chain: "(\<exists>ids. live_chain p grants n (Some i) ids \<and> distinct ids \<and> set ids \<inter> set seen = {}) \<longleftrightarrow>
        gr_active g \<and> \<not> expired_at p (gr_expiresAt g) (clock (ro_env p) n)
        \<and> (\<exists>js. live_chain p grants (Suc n) (gr_parentGrantId g) js \<and> distinct js \<and> set js \<inter> set (i # seen) = {})" (is "?l \<longleftrightarrow> ?r")
    proof
      assume ?l
      then obtain ids where ids: "live_chain p grants n (Some i) ids" "distinct ids" "set ids \<inter> set seen = {}" by blast
      then obtain js where "ids = i # js" by (cases ids) auto
      with ids g show ?r by (auto intro!: exI[of _ js])
    next
      assume ?r
      then obtain js where "gr_active g" "\<not> expired_at p (gr_expiresAt g) (clock (ro_env p) n)"
        "live_chain p grants (Suc n) (gr_parentGrantId g) js" "distinct js" "set js \<inter> set (i # seen) = {}" by blast
      then show ?l using g False by (intro exI[of _ "i # js"]) auto
    qed
    show ?thesis
    proof (cases "gr_active g \<and> \<not> expired_at p (gr_expiresAt g) (clock (ro_env p) n)")
      case True
      have i: "i \<notin> set seen" using False by blast
      from 2[OF i g] True have IH: "snd (lineage p grants (i # seen) (gr_parentGrantId g) (Suc n)) \<le> Suc n + card (fst ` set grants - set (i # seen))"
        "fst (lineage p grants (i # seen) (gr_parentGrantId g) (Suc n)) \<longleftrightarrow>
          (\<exists>js. live_chain p grants (Suc n) (gr_parentGrantId g) js \<and> distinct js \<and> set js \<inter> set (i # seen) = {})" by simp_all
      have eq: "lineage p grants seen (Some i) n = lineage p grants (i # seen) (gr_parentGrantId g) (Suc n)" using i g True by simp
      show ?thesis unfolding chain eq using IH less True by auto
    next
      case dead: False
      then have "\<not> fst (lineage p grants seen (Some i) n)" "snd (lineage p grants seen (Some i) n) \<le> Suc n" using False g by auto
      then show ?thesis unfolding chain using dead less by linarith
    qed
  qed
qed simp

end
