(* ===== verification/Recipient_Samples.thy ===== *)
theory Recipient_Samples
  imports Recipient_Properties
begin

text \<open>
  The recipient access service run on a concrete service: a version is registered, the owner gets a
  grant and shares it, the invitation is redeemed and the owner's grant revoked.
\<close>

definition sample_options :: recipient_options where
  "sample_options = \<lparr>ro_env = sample_env\<lparr>clock := (\<lambda>_. 1784073600000)\<rparr>, ro_secret = ''sixteen-or-longer'',
     ro_hmac = (\<lambda>secret v. v), ro_token = (\<lambda>prefix n. prefix @ replicate n (CHR ''x'')), ro_otp = (\<lambda>_. ''123456'')\<rparr>"

definition sample_later :: string where "sample_later = ''2026-12-31T00:00:00.000Z''"

definition sample_past :: string where "sample_past = ''2026-01-01T00:00:00.000Z''"

definition sample_session :: "string \<Rightarrow> string \<Rightarrow> mailbox_session" where
  "sample_session who email = \<lparr>ms_sessionId = ''s'', ms_principalId = who, ms_email = email,
     ms_mailboxVerifiedAt = sample_past, ms_authenticatedAt = sample_past, ms_expiresAt = sample_later, ms_active = True\<rparr>"

definition sample_owner :: owner_grant_input where
  "sample_owner = \<lparr>og_organizationId = ''org'', og_jobId = ''job'', og_principalId = ''owner'', og_verifiedEmail = ''o@x.au'',
     og_reportVersionId = ''v1'', og_permittedModules = [Building], og_permittedActions = [ReadReport, InviteRecipient],
     og_issuedBy = ''staff'', og_expiresAt = sample_later\<rparr>"

definition sample_invite :: share_invitation_input where
  "sample_invite = \<lparr>ii_inviterGrantId = ''grantx'', ii_inviterSession = sample_session ''owner'' ''o@x.au'',
     ii_intendedEmail = ''f@x.au'', ii_permittedModules = [Building], ii_permittedActions = [ReadReport], ii_expiresAt = sample_later\<rparr>"

definition sample_calls :: "access_call list" where
  "sample_calls = [RegisterVersion \<lparr>vi_organizationId = ''org'', vi_jobId = ''job'', vi_reportVersionId = ''v1'',
       vi_modules = [Building], vi_deliveredAt = sample_past\<rparr>,
     IssueOwnerGrant sample_owner, CreateInvitation sample_invite,
     RedeemInvitation ''invitexxxx'' (sample_session ''friend'' ''f@x.au''), RevokeGrant ''grantx'' ''staff'' ''left'']"

definition sample_after :: "nat \<Rightarrow> recipient_access" where
  "sample_after n = access_run sample_options (take n sample_calls) empty_access"

lemma sample_fresh: "fresh_tokens sample_options"
  by (simp add: fresh_tokens_def sample_options_def)

lemma sample_option_simps:
  "clock (ro_env sample_options) n = 1784073600000"
  "ro_token sample_options prefix n = prefix @ replicate n (CHR ''x'')"
  "digest sample_options v = v"
  "ro_otp sample_options n = ''123456''"
  by (simp_all add: sample_options_def digest_def)

lemma access_dates:
  "date_parse (ro_env sample_options) sample_later = Some 1798675200000"
  "date_parse (ro_env sample_options) sample_past = Some 1767225600000"
  "expired_at sample_options sample_later 1784073600000 = False"
  by code_simp+

lemma sample_marks: "replicate (numeral k) x = x # replicate (pred_numeral k) x"
  by (simp add: numeral_eq_Suc)

lemma sample_iso: "to_iso 1784073600000 = ''2026-07-15T00:00:00.000Z''"
  by code_simp

lemma sample_emails: "canonicalEmail ''o@x.au'' = Inr ''o@x.au''" "canonicalEmail ''f@x.au'' = Inr ''f@x.au''"
  by code_simp+

lemma sample_lists: "js_unique [Building] = [Building]" "js_unique [ReadReport, InviteRecipient] = [ReadReport, InviteRecipient]"
  "js_unique [ReadReport] = [ReadReport]"
  by code_simp+

lemmas access_eval = st_evals readClock_def newToken_def newOtp_def
  appendEvent_def assertSession_def requireGrant_def requireDelivered_def versionKey_def assertGrantLineageActive_def
  ensure_def isSubset_def invitationState_def invitationView_def put_grant_def put_invitation_def put_challenge_def
  grant_fields_def no_fields_def assertFuture_def Let_def sample_option_simps sample_marks access_dates sample_iso sample_emails sample_lists

lemma sample_after_Suc: "n < length sample_calls \<Longrightarrow> sample_after (Suc n) = access_after sample_options (sample_calls ! n) (sample_after n)"
  by (simp add: sample_after_def take_Suc_conv_app_nth access_run_def)

definition sample_grant :: access_grant where
  "sample_grant = new_grant sample_owner None ''grantx'' ''o@x.au'' ''2026-07-15T00:00:00.000Z''"

definition sample_invitation :: share_invitation where
  "sample_invitation = new_invitation sample_options sample_invite sample_grant ''invitationxxxxx'' ''f@x.au'' ''2026-07-15T00:00:00.000Z'' ''invitexxxx''"

definition sample_child :: access_grant where
  "sample_child = new_grant (redemption_input sample_invitation ''friend'') (Some ''grantx'') ''grantxxxxxxx'' ''f@x.au'' ''2026-07-15T00:00:00.000Z''"

definition sample_store :: "(string, access_grant) js_map \<Rightarrow> share_invitation option \<Rightarrow> access_event list \<Rightarrow> nat \<Rightarrow> nat \<Rightarrow> recipient_access" where
  "sample_store gs i ev c n = \<lparr>rs_grants = gs, rs_invitations = (case i of None \<Rightarrow> [] | Some x \<Rightarrow> [(''invitationxxxxx'', x)]), rs_challenges = [],
     rs_deliveredVersions = [(''org:job:v1'', \<lparr>dv_organizationId = ''org'', dv_jobId = ''job'', dv_reportVersionId = ''v1'',
        dv_modules = [Building], dv_deliveredAt = sample_past, dv_withdrawnModules = []\<rparr>)],
     rs_events = ev, rs_clock = c, rs_tokens = n, rs_otps = 0\<rparr>"

lemma sample_after_1: "\<exists>ev. sample_after 1 = sample_store [] None ev 1 1"
  using sample_after_Suc[of 0]
  by (simp add: sample_calls_def sample_after_def access_run_def empty_access_def registerDeliveredVersion_def sample_store_def access_eval
      cong: st_bind_lazy st_ensure_lazy)

lemma sample_after_2: "\<exists>ev. sample_after 2 = sample_store [(''grantx'', sample_grant)] None ev 4 3"
proof -
  obtain ev where "sample_after 1 = sample_store [] None ev 1 1" using sample_after_1 by blast
  then have "sample_after 2 = access_after sample_options (IssueOwnerGrant sample_owner) (sample_store [] None ev 1 1)"
    using sample_after_Suc[of 1] by (simp add: sample_calls_def numeral_2_eq_2)
  then show ?thesis
    by (simp add: issueOwnerGrant_def storeGrant_def sample_owner_def sample_grant_def new_grant_def sample_store_def access_eval
        cong: st_bind_lazy st_ensure_lazy)
qed

lemmas sample_records = sample_grant_def new_grant_def sample_owner_def sample_invitation_def new_invitation_def sample_invite_def sample_session_def
  sample_child_def redemption_input_def invite_text_def

lemma sample_after_3: "\<exists>ev. sample_after 3 = sample_store [(''grantx'', sample_grant)] (Some sample_invitation) ev 11 7"
proof -
  obtain ev where "sample_after 2 = sample_store [(''grantx'', sample_grant)] None ev 4 3" using sample_after_2 by blast
  then have "sample_after 3 = access_after sample_options (CreateInvitation sample_invite) (sample_store [(''grantx'', sample_grant)] None ev 4 3)"
    using sample_after_Suc[of 2] by (simp add: sample_calls_def numeral_3_eq_3 numeral_2_eq_2)
  then show ?thesis
    by (simp add: createShareInvitation_def authorise_def authorise_checks_def sample_records sample_store_def access_eval
        cong: st_bind_lazy st_ensure_lazy)
qed

lemma sample_after_4: "\<exists>i ev c. sample_after 4 = sample_store [(''grantx'', sample_grant), (''grantxxxxxxx'', sample_child)] (Some i) ev c 10"
proof -
  obtain ev where "sample_after 3 = sample_store [(''grantx'', sample_grant)] (Some sample_invitation) ev 11 7" using sample_after_3 by blast
  then have "sample_after 4 = access_after sample_options (RedeemInvitation ''invitexxxx'' (sample_session ''friend'' ''f@x.au''))
      (sample_store [(''grantx'', sample_grant)] (Some sample_invitation) ev 11 7)"
    using sample_after_Suc[of 3] by (simp add: sample_calls_def eval_nat_numeral)
  then show ?thesis
    by (simp add: redeemInvitation_def findInvitation_def find_by_token_def storeGrant_def sample_records sample_store_def access_eval
        cong: st_bind_lazy st_ensure_lazy)
qed

lemma sample_after_5: "\<exists>g i ev c. sample_after 5 = sample_store [(''grantx'', g), (''grantxxxxxxx'', sample_child)] (Some i) ev c 11 \<and> \<not> gr_active g"
proof -
  obtain i ev c where "sample_after 4 = sample_store [(''grantx'', sample_grant), (''grantxxxxxxx'', sample_child)] (Some i) ev c 10"
    using sample_after_4 by blast
  then have "sample_after 5 = access_after sample_options (RevokeGrant ''grantx'' ''staff'' ''left'')
      (sample_store [(''grantx'', sample_grant), (''grantxxxxxxx'', sample_child)] (Some i) ev c 10)"
    using sample_after_Suc[of 4] by (simp add: sample_calls_def eval_nat_numeral)
  moreover have "js_trim ''left'' = ''left''" by code_simp
  ultimately show ?thesis
    by (simp add: revokeGrant_def revoked_grant_def sample_grant_def new_grant_def sample_owner_def sample_store_def access_eval
        cong: st_bind_lazy st_ensure_lazy)
qed

lemma access_reachable: "reachable_access sample_options (sample_after n)"
  unfolding sample_after_def
proof (rule reachable_access_run, rule reachable_access.init)
  show "newRecipientAccess sample_options = Inr empty_access"
    unfolding newRecipientAccess_empty by (simp add: sample_options_def)
qed

lemma sample_child_stored: "map_of (rs_grants (sample_after 4)) ''grantxxxxxxx'' = Some sample_child"
  using sample_after_4 by (auto simp: sample_store_def)

lemma sample_child_parent: "gr_parentGrantId sample_child = Some ''grantx''"
  by (simp add: sample_child_def new_grant_def)

lemma delegation_stays_within_witness:
  "\<exists>parent. map_of (rs_grants (sample_after 4)) ''grantx'' = Some parent \<and> gr_parentGrantId parent = None
     \<and> set (gr_permittedActions sample_child) \<subseteq> set (gr_permittedActions parent)"
  using delegation_stays_within[OF access_reachable sample_fresh sample_child_stored sample_child_parent] by blast

definition access_request :: authorisation_request where
  "access_request = \<lparr>ar_organizationId = ''org'', ar_jobId = ''job'', ar_reportVersionId = ''v1'', ar_module = Building,
     ar_action = ReadReport\<rparr>"

lemma revocation_is_lasting_witness:
  "fst (authorise sample_options (sample_session ''friend'' ''f@x.au'') ''grantxxxxxxx'' access_request (sample_after 5)) = Inl AccessDenied"
proof -
  obtain g i ev c where s: "sample_after 5 = sample_store [(''grantx'', g), (''grantxxxxxxx'', sample_child)] (Some i) ev c 11" "\<not> gr_active g"
    using sample_after_5 by blast
  have g: "map_of (rs_grants (sample_after 5)) ''grantx'' = Some g" by (simp add: s sample_store_def)
  have "sample_after 5 = access_run sample_options [] (sample_after 5)" by (simp add: access_run_def)
  from revocation_is_lasting[OF access_reachable sample_fresh g s(2) this] show ?thesis
    by (simp add: s sample_store_def sample_child_parent)
qed

lemma authorise_decides_witness:
  "fst (authorise sample_options (sample_session ''friend'' ''f@x.au'') ''grantxxxxxxx'' access_request (sample_after 4)) = Inr sample_child"
proof -
  have still: "\<forall>n \<ge> rs_clock (sample_after 4). clock (ro_env sample_options) n = 1784073600000" by (simp add: sample_options_def)
  obtain i ev c where s: "sample_after 4 = sample_store [(''grantx'', sample_grant), (''grantxxxxxxx'', sample_child)] (Some i) ev c 10"
    using sample_after_4 by blast
  have "permitted sample_options 1784073600000 (sample_after 4) (sample_session ''friend'' ''f@x.au'') ''grantxxxxxxx'' access_request"
    unfolding s by (simp add: permitted_def session_live_def module_delivered_def grant_live_def parent_live_def grants_request_def
        access_request_def sample_store_def sample_records access_dates sample_emails sample_lists versionKey_def)
  then show ?thesis
    using authorise_decides[OF access_reachable sample_fresh still] sample_child_stored by simp
qed

definition sample_challenge :: mailbox_challenge where
  "sample_challenge = \<lparr>mc_challengeId = ''challenge'', mc_email = ''f@x.au'', mc_otpDigest = ''otp:challenge:123456'',
     mc_issuedAt = ''2026-07-15T00:00:00.000Z'', mc_expiresAt = ''2026-07-15T00:10:00.000Z'', mc_failedAttempts = 0, mc_consumedAt = None\<rparr>"

definition sample_challenged :: recipient_access where
  "sample_challenged = access_run sample_options [BeginMailbox ''f@x.au''] empty_access"

lemma sample_challenged_stored: "map_of (rs_challenges sample_challenged) ''challenge'' = Some sample_challenge"
proof -
  have "six_digits ''123456''" "to_iso 1784074200000 = ''2026-07-15T00:10:00.000Z''" by code_simp+
  then show ?thesis
    by (simp add: sample_challenged_def access_run_def beginMailboxAuthentication_def empty_access_def sample_challenge_def
        otp_text_def access_eval cong: st_bind_lazy st_ensure_lazy)
qed

lemma wrong_codes_lock_witness:
  "fst (verifyMailboxAuthentication sample_options ''challenge'' ''123456'' ''friend''
     (access_run sample_options (replicate 5 (VerifyMailbox ''challenge'' ''000000'' ''friend'')) sample_challenged)) = Inl AccessDenied"
proof (rule wrong_codes_lock[OF _ sample_fresh _ sample_challenged_stored])
  show "reachable_access sample_options sample_challenged"
    unfolding sample_challenged_def
    by (rule reachable_access_run, rule reachable_access.init) (simp add: newRecipientAccess_empty sample_options_def)
  show "clock_forward sample_options" by (simp add: clock_forward_def sample_options_def)
  show "5 \<le> length (filter (wrong_guess sample_options sample_challenge) (replicate 5 (VerifyMailbox ''challenge'' ''000000'' ''friend'')))"
    by (simp add: sample_challenge_def otp_text_def sample_option_simps sample_marks)
qed

lemma one_time_secrets_witness:
  "fst (redeemInvitation sample_options ''invitexxxx'' (sample_session ''other'' ''f@x.au'')
     (access_run sample_options [] (sample_after 4))) = Inl AccessDenied"
proof -
  let ?r = "redeemInvitation sample_options ''invitexxxx'' (sample_session ''friend'' ''f@x.au'') (sample_after 3)"
  obtain ev where s: "sample_after 3 = sample_store [(''grantx'', sample_grant)] (Some sample_invitation) ev 11 7" using sample_after_3 by blast
  have "\<exists>g. fst ?r = Inr g" unfolding s
    by (simp add: redeemInvitation_def findInvitation_def find_by_token_def storeGrant_def sample_records sample_store_def access_eval
        cong: st_bind_lazy st_ensure_lazy)
  moreover have "snd ?r = sample_after 4"
    using sample_after_Suc[of 3] by (simp add: sample_calls_def eval_nat_numeral)
  ultimately have "\<exists>g. ?r = (Inr g, sample_after 4)" by (metis prod.collapse)
  then show ?thesis using one_time_secrets[OF access_reachable[of 3] sample_fresh] by blast
qed

end
