(* ===== verification/Snapshot_Store.thy ===== *)
theory Snapshot_Store
  imports Module_Transitions
begin

text \<open>
  The immutable snapshot repository (\<open>packages/reporting/src/snapshot/snapshot-store.ts\<close>): snapshots by
  identifier, one current pointer per professional module that advances by compare-and-set, and the
  history of each module.  The theory proves what a reachable store holds: every current pointer names
  a stored snapshot of its module whose hash verifies, stored snapshots never change, and the history of
  a module is its revisions in order.
\<close>

section \<open>State and operations\<close>

record module_key =
  mk_organizationId :: string
  mk_jobId :: string
  mk_module :: module_type

definition snapshotKey :: "module_key \<Rightarrow> string" where
  "snapshotKey k = mk_organizationId k @ '':'' @ mk_jobId k @ '':'' @ module_text (mk_module k)"

definition input_key :: "'a module_snapshot_input_scheme \<Rightarrow> module_key" where
  "input_key i = \<lparr>mk_organizationId = ms_organizationId i, mk_jobId = ms_jobId i, mk_module = ms_module i\<rparr>"

datatype snapshot_error = SnapshotConflict string | SnapshotInvalid domain_error | SnapshotFault string

record snapshot_store =
  sx_byId :: "(string, module_snapshot) js_map"
  sx_currentIds :: "(string, string) js_map"
  sx_history :: "(string, string list) js_map"

definition empty_snapshot_store :: snapshot_store where
  "empty_snapshot_store = \<lparr>sx_byId = [], sx_currentIds = [], sx_history = []\<rparr>"

definition getCurrent :: "snapshot_store \<Rightarrow> module_key \<Rightarrow> module_snapshot option" where
  "getCurrent st k = (case map_of (sx_currentIds st) (snapshotKey k) of None \<Rightarrow> None | Some i \<Rightarrow> map_of (sx_byId st) i)"

definition getById :: "snapshot_store \<Rightarrow> string \<Rightarrow> module_snapshot option" where
  "getById st i = map_of (sx_byId st) i"

definition ids_of :: "snapshot_store \<Rightarrow> string \<Rightarrow> string list" where
  "ids_of st key = (case map_of (sx_history st) key of None \<Rightarrow> [] | Some is \<Rightarrow> is)"

definition current_revision :: "snapshot_store \<Rightarrow> module_key \<Rightarrow> int" where
  "current_revision st k = (case getCurrent st k of None \<Rightarrow> 0 | Some s \<Rightarrow> ms_revision s)"

definition checked_snapshot :: "env \<Rightarrow> module_snapshot_input \<Rightarrow> snapshot_error + module_snapshot" where
  "checked_snapshot E input = (case createModuleSnapshot E input of
     Inl e \<Rightarrow> Inl (SnapshotInvalid e)
   | Inr created \<Rightarrow> (case verifyModuleSnapshotHash E created of
       Inl e \<Rightarrow> Inl (SnapshotInvalid e)
     | Inr ok \<Rightarrow> ensure ok (SnapshotFault ''Created module snapshot failed its canonical hash check'') (Inr created)))"

definition store_snapshot :: "string \<Rightarrow> module_snapshot \<Rightarrow> snapshot_store \<Rightarrow> snapshot_store" where
  "store_snapshot key created st = st\<lparr>sx_byId := map_set (ms_snapshotId created) created (sx_byId st),
     sx_currentIds := map_set key (ms_snapshotId created) (sx_currentIds st),
     sx_history := map_set key (ids_of st key @ [ms_snapshotId created]) (sx_history st)\<rparr>"

definition createSnapshot ::
  "env \<Rightarrow> module_snapshot_input \<Rightarrow> int \<Rightarrow> snapshot_store \<Rightarrow> (snapshot_error + module_snapshot) \<times> snapshot_store" where
  "createSnapshot E input expectedCurrentRevision st =
     (let key = snapshotKey (input_key input);
          currentRevision = current_revision st (input_key input);
          created = ensure (currentRevision = expectedCurrentRevision)
            (SnapshotConflict (''Expected '' @ show_int expectedCurrentRevision @ '', current snapshot revision is '' @ show_int currentRevision)) (
            ensure (ms_revision input = expectedCurrentRevision + 1)
              (SnapshotConflict ''A new snapshot revision must advance the current module revision exactly once'') (
            ensure (map_of (sx_byId st) (ms_snapshotId input) = None) (SnapshotConflict ''Snapshot identity already exists'')
              (checked_snapshot E input)))
      in case created of Inl e \<Rightarrow> (Inl e, st) | Inr s \<Rightarrow> (Inr s, store_snapshot key s st))"

definition snapshot_history :: "snapshot_store \<Rightarrow> module_key \<Rightarrow> snapshot_error + module_snapshot list" where
  "snapshot_history st k = map_result (\<lambda>i. of_option (SnapshotFault ''Snapshot history references a missing immutable record'')
     (map_of (sx_byId st) i)) (ids_of st (snapshotKey k))"

section \<open>The invariant\<close>

definition snapshot_verifies :: "env \<Rightarrow> module_snapshot \<Rightarrow> bool" where
  "snapshot_verifies E s \<longleftrightarrow> verifyModuleSnapshotHash E s = Inr True"

definition snapshots_wf :: "env \<Rightarrow> snapshot_store \<Rightarrow> bool" where
  "snapshots_wf E st \<longleftrightarrow>
     (\<forall>i s. map_of (sx_byId st) i = Some s \<longrightarrow> ms_snapshotId s = i \<and> snapshot_verifies E s)
     \<and> (\<forall>key. (case map_of (sx_currentIds st) key of
          None \<Rightarrow> ids_of st key = []
        | Some i \<Rightarrow> ids_of st key \<noteq> [] \<and> last (ids_of st key) = i))
     \<and> (\<forall>key n. n < length (ids_of st key) \<longrightarrow> (\<exists>s. map_of (sx_byId st) (ids_of st key ! n) = Some s
          \<and> snapshotKey (input_key s) = key \<and> ms_revision s = int (Suc n)))"

lemma createModuleSnapshot_keeps:
  assumes "createModuleSnapshot E i = Inr s"
  shows "ms_snapshotId s = ms_snapshotId i \<and> input_key s = input_key i \<and> ms_revision s = ms_revision i"
  using assms
proof (rule createModuleSnapshot_InrE)
  fix p h
  assume "ModuleSnapshotInput_parse E i = Some p" and s: "s = module_snapshot_input.extend p (module_snapshot.fields h)"
  then have "SnapshotFields_parse E i = Some p" by (simp add: ModuleSnapshotInput_parse_def)
  from SnapshotFields_parse_fields[OF this] s show ?thesis
    by (simp add: input_key_def module_snapshot_input.defs module_snapshot.defs)
qed

lemma checked_snapshot_Inr:
  assumes "checked_snapshot E i = Inr s"
  shows "ms_snapshotId s = ms_snapshotId i" "input_key s = input_key i" "ms_revision s = ms_revision i" "snapshot_verifies E s"
proof -
  from assms have c: "createModuleSnapshot E i = Inr s" and v: "verifyModuleSnapshotHash E s = Inr True"
    by (auto simp: checked_snapshot_def split: sum.splits)
  from createModuleSnapshot_keeps[OF c] v
  show "ms_snapshotId s = ms_snapshotId i" "input_key s = input_key i" "ms_revision s = ms_revision i" "snapshot_verifies E s"
    by (simp_all add: snapshot_verifies_def)
qed

lemma createSnapshot_Inr:
  assumes "createSnapshot E i n st = (Inr s, t)"
  shows "checked_snapshot E i = Inr s" "t = store_snapshot (snapshotKey (input_key i)) s st" "current_revision st (input_key i) = n"
    "ms_revision i = n + 1" "map_of (sx_byId st) (ms_snapshotId i) = None"
  using assms by (auto simp: createSnapshot_def Let_def split: sum.splits)

lemma createSnapshot_Inl: "createSnapshot E i n st = (Inl e, t) \<Longrightarrow> t = st"
  by (auto simp: createSnapshot_def Let_def split: sum.splits)

section \<open>Reachable stores\<close>

lemma empty_snapshots_wf: "snapshots_wf E empty_snapshot_store"
  by (simp add: snapshots_wf_def empty_snapshot_store_def ids_of_def)

lemma snapshots_byId: "snapshots_wf E st \<Longrightarrow> map_of (sx_byId st) i = Some s \<Longrightarrow> ms_snapshotId s = i \<and> snapshot_verifies E s"
  unfolding snapshots_wf_def by blast

lemma current_is_last:
  assumes "snapshots_wf E st" and "map_of (sx_currentIds st) key = Some i"
  shows "ids_of st key \<noteq> [] \<and> last (ids_of st key) = i"
  using assms unfolding snapshots_wf_def by (auto split: option.splits dest: spec[of _ key])

lemma history_entry:
  assumes "snapshots_wf E st" and "n < length (ids_of st key)"
  obtains s where "map_of (sx_byId st) (ids_of st key ! n) = Some s" and "snapshotKey (input_key s) = key" and "ms_revision s = int (Suc n)"
  using assms unfolding snapshots_wf_def by blast

lemma getCurrent_Some:
  assumes wf: "snapshots_wf E st" and c: "getCurrent st k = Some s"
  shows "snapshotKey (input_key s) = snapshotKey k" "ms_revision s = int (length (ids_of st (snapshotKey k)))" "snapshot_verifies E s"
    "getById st (ms_snapshotId s) = Some s" "ids_of st (snapshotKey k) \<noteq> []" "last (ids_of st (snapshotKey k)) = ms_snapshotId s"
proof -
  let ?ids = "ids_of st (snapshotKey k)"
  from c obtain i where i: "map_of (sx_currentIds st) (snapshotKey k) = Some i" "map_of (sx_byId st) i = Some s"
    by (auto simp: getCurrent_def split: option.splits)
  from current_is_last[OF wf i(1)] have l: "?ids \<noteq> []" "last ?ids = i" by auto
  then have n: "length ?ids - 1 < length ?ids" "?ids ! (length ?ids - 1) = i" by (simp_all add: last_conv_nth)
  obtain s' where "map_of (sx_byId st) (?ids ! (length ?ids - 1)) = Some s'" "snapshotKey (input_key s') = snapshotKey k"
    "ms_revision s' = int (Suc (length ?ids - 1))" using history_entry[OF wf n(1)] .
  with n(2) i(2) l(1) show "snapshotKey (input_key s) = snapshotKey k" "ms_revision s = int (length ?ids)" by (auto simp: Suc_diff_Suc)
  show "ids_of st (snapshotKey k) \<noteq> []" by (rule l(1))
  from snapshots_byId[OF wf i(2)] i(2) l(2)
  show "snapshot_verifies E s" "getById st (ms_snapshotId s) = Some s" "last ?ids = ms_snapshotId s" by (simp_all add: getById_def)
qed

lemma current_revision_length:
  assumes wf: "snapshots_wf E st"
  shows "current_revision st k = int (length (ids_of st (snapshotKey k)))"
proof (cases "map_of (sx_currentIds st) (snapshotKey k)")
  case None
  then have "ids_of st (snapshotKey k) = []" using wf unfolding snapshots_wf_def by (auto dest: spec[of _ "snapshotKey k"])
  then show ?thesis using None by (simp add: current_revision_def getCurrent_def)
next
  case (Some i)
  from current_is_last[OF wf Some] have l: "ids_of st (snapshotKey k) \<noteq> []" "last (ids_of st (snapshotKey k)) = i" by auto
  then have "length (ids_of st (snapshotKey k)) - 1 < length (ids_of st (snapshotKey k))" by simp
  from history_entry[OF wf this] l obtain s where "map_of (sx_byId st) i = Some s" by (metis last_conv_nth)
  then have "getCurrent st k = Some s" using Some by (simp add: getCurrent_def)
  with getCurrent_Some(2)[OF wf this] show ?thesis by (simp add: current_revision_def)
qed

lemma store_snapshot_ids: "ids_of (store_snapshot key s st) key' = (if key' = key then ids_of st key @ [ms_snapshotId s] else ids_of st key')"
  by (simp add: store_snapshot_def ids_of_def)

lemma createSnapshot_wf:
  assumes wf: "snapshots_wf E st" and c: "createSnapshot E i n st = (Inr s, t)"
  shows "snapshots_wf E t"
proof -
  note f = createSnapshot_Inr[OF c]
  note s = checked_snapshot_Inr[OF f(1)]
  let ?key = "snapshotKey (input_key i)"
  have t: "t = store_snapshot ?key s st" by (rule f(2))
  have rev: "ms_revision s = int (Suc (length (ids_of st ?key)))"
    using s(3) f(3,4) current_revision_length[OF wf, of "input_key i"] by simp
  have new: "map_of (sx_byId st) (ms_snapshotId s) = None" using f(5) s(1) by simp
  have "\<exists>x. map_of (sx_byId t) (ids_of t key ! m) = Some x \<and> snapshotKey (input_key x) = key \<and> ms_revision x = int (Suc m)"
    if m: "m < length (ids_of t key)" for key m
  proof (cases "m < length (ids_of st key)")
    case True
    obtain x where x: "map_of (sx_byId st) (ids_of st key ! m) = Some x" "snapshotKey (input_key x) = key" "ms_revision x = int (Suc m)"
      using history_entry[OF wf True] .
    moreover have "ids_of t key ! m = ids_of st key ! m" using True by (auto simp: t store_snapshot_ids nth_append)
    moreover have "ids_of st key ! m \<noteq> ms_snapshotId s" using x(1) new by auto
    ultimately show ?thesis by (simp add: t store_snapshot_def)
  next
    case False
    with m have "key = ?key" "m = length (ids_of st key)" by (auto simp: t store_snapshot_ids split: if_splits)
    then show ?thesis using rev s(2) by (simp add: t store_snapshot_ids) (simp add: store_snapshot_def)
  qed
  moreover have "case map_of (sx_currentIds t) key of None \<Rightarrow> ids_of t key = [] | Some j \<Rightarrow> ids_of t key \<noteq> [] \<and> last (ids_of t key) = j" for key
  proof (cases "key = ?key")
    case True
    then have "map_of (sx_currentIds t) key = Some (ms_snapshotId s)" by (simp add: t store_snapshot_def)
    with True show ?thesis by (simp add: t store_snapshot_ids)
  next
    case False
    then have "map_of (sx_currentIds t) key = map_of (sx_currentIds st) key" "ids_of t key = ids_of st key"
      unfolding t store_snapshot_ids by (simp_all add: store_snapshot_def)
    moreover have "case map_of (sx_currentIds st) key of None \<Rightarrow> ids_of st key = [] | Some j \<Rightarrow> ids_of st key \<noteq> [] \<and> last (ids_of st key) = j"
      using wf unfolding snapshots_wf_def by blast
    ultimately show ?thesis by (simp split: option.splits)
  qed
  moreover have "map_of (sx_byId t) j = Some x \<Longrightarrow> ms_snapshotId x = j \<and> snapshot_verifies E x" for j x
    using snapshots_byId[OF wf, of j x] s(4) by (auto simp: t store_snapshot_def split: if_splits)
  ultimately show ?thesis unfolding snapshots_wf_def by blast
qed

text \<open>What a store keeps of an earlier one.\<close>

definition snapshots_le :: "snapshot_store \<Rightarrow> snapshot_store \<Rightarrow> bool" where
  "snapshots_le st t \<longleftrightarrow> (\<forall>i s. map_of (sx_byId st) i = Some s \<longrightarrow> map_of (sx_byId t) i = Some s)
     \<and> (\<forall>key. \<exists>more. ids_of t key = ids_of st key @ more)"

lemma snapshots_le_refl [simp]: "snapshots_le st st"
  by (simp add: snapshots_le_def)

lemma snapshots_le_trans: "snapshots_le a b \<Longrightarrow> snapshots_le b c \<Longrightarrow> snapshots_le a c"
  unfolding snapshots_le_def by (metis append.assoc)

lemma createSnapshot_le: "snapshots_le st (snd (createSnapshot E i n st))"
proof (cases "createSnapshot E i n st")
  case (Pair r t)
  show ?thesis
  proof (cases r)
    case (Inl e)
    then show ?thesis using Pair createSnapshot_Inl by fastforce
  next
    case (Inr s)
    note f = createSnapshot_Inr[OF Pair[unfolded Inr]]
    show ?thesis using f(5) checked_snapshot_Inr(1)[OF f(1)]
      by (auto simp: Pair f(2) snapshots_le_def store_snapshot_ids) (auto simp: store_snapshot_def)
  qed
qed

lemma snapshot_history_ok:
  assumes wf: "snapshots_wf E st"
  obtains ss where "snapshot_history st k = Inr ss" and "map ms_snapshotId ss = ids_of st (snapshotKey k)"
    and "map ms_revision ss = map (\<lambda>n. int (Suc n)) [0..<length ss]"
    and "getCurrent st k = (if ss = [] then None else Some (last ss))"
proof -
  let ?ids = "ids_of st (snapshotKey k)"
  let ?f = "\<lambda>i. of_option (SnapshotFault ''Snapshot history references a missing immutable record'') (map_of (sx_byId st) i)"
  define ss where "ss = map (\<lambda>i. the (map_of (sx_byId st) i)) ?ids"
  have at: "map_of (sx_byId st) (?ids ! n) = Some (ss ! n) \<and> ms_snapshotId (ss ! n) = ?ids ! n \<and> ms_revision (ss ! n) = int (Suc n)"
    if n: "n < length ?ids" for n
  proof -
    obtain s where s: "map_of (sx_byId st) (?ids ! n) = Some s" "ms_revision s = int (Suc n)" using history_entry[OF wf n] by metis
    with snapshots_byId[OF wf s(1)] n show ?thesis by (simp add: ss_def)
  qed
  have len: "length ss = length ?ids" by (simp add: ss_def)
  have "list_all2 (\<lambda>i s. ?f i = Inr s) ?ids ss"
    unfolding list_all2_conv_all_nth using at len by simp
  then have "snapshot_history st k = Inr ss" by (simp add: snapshot_history_def map_result_Inr)
  moreover have "map ms_snapshotId ss = ?ids" by (rule nth_equalityI) (use at len in auto)
  moreover have "map ms_revision ss = map (\<lambda>n. int (Suc n)) [0..<length ss]" by (rule nth_equalityI) (use at len in auto)
  moreover have "getCurrent st k = (if ss = [] then None else Some (last ss))"
  proof (cases "map_of (sx_currentIds st) (snapshotKey k)")
    case None
    then have "?ids = []" using wf unfolding snapshots_wf_def by (auto dest: spec[of _ "snapshotKey k"])
    then show ?thesis using None len by (simp add: getCurrent_def)
  next
    case (Some i)
    from current_is_last[OF wf Some] have l: "?ids \<noteq> []" "last ?ids = i" by auto
    then have n: "length ?ids - 1 < length ?ids" by simp
    from at[OF n] l len show ?thesis using Some by (auto simp: getCurrent_def last_conv_nth)
  qed
  ultimately show thesis using that by blast
qed

end
