(* ===== verification/Approvals.thy ===== *)
theory Approvals
  imports Snapshot_Store Ledger
begin

text \<open>
  Professional approvals (\<open>packages/approvals/src/approval-service.ts\<close>): one revisioned state per
  module with its current approval, its withdrawal and its answered requests.  An approval is for the
  exact current snapshot, by the assigned and eligible inspector under current credentials; an edit
  invalidates it and a withdrawal removes it until a new snapshot reopens the module.  The snapshot
  reader and the authority are the service's ports, so the operations take them as functions.
\<close>

section \<open>State\<close>

datatype approval_error_code = RevisionConflict | SnapshotStale | InspectorNotAssigned | InspectorIneligible
  | RecentAuthRequired | CredentialMismatch | ModuleWithdrawn | MissingSnapshot

datatype approval_error = ApprovalError approval_error_code | ApprovalInvalid

record approval_record = module_approval +
  av_snapshotRevision :: int
  av_credentialVersion :: string
  av_moduleRevision :: int

datatype approval_event_type = ApprovalRecorded | ApprovalInvalidated | ApprovalWithdrawn

record approval_event =
  vt_eventId :: string
  vt_type :: approval_event_type
  vt_key :: module_key
  vt_moduleRevision :: int
  vt_snapshotId :: string
  vt_approvalId :: "string option"
  vt_inspectorId :: string
  vt_recordedAt :: string
  vt_reasonCode :: string

record approval_request =
  aq_key :: module_key
  aq_snapshotId :: string
  aq_snapshotHash :: string
  aq_expectedModuleRevision :: int
  aq_inspectorId :: string
  aq_credentialVersion :: string
  aq_recentAuthentication :: bool
  aq_idempotencyKey :: string
  aq_approvedAt :: string

record inspector_authority =
  iy_assignedInspectorId :: string
  iy_eligible :: bool
  iy_credentialVersion :: string

record module_approval_state =
  as_revision :: int
  as_currentApproval :: "approval_record option"
  as_withdrawn :: bool
  as_withdrawnSnapshotId :: "string option"
  as_idempotency :: "(string, string \<times> approval_record) js_map"

record approval_service =
  sv_states :: "(string, module_approval_state) js_map"
  sv_events :: "approval_event list"
  sv_ids :: nat

type_synonym authority_port = "module_key \<Rightarrow> approval_error + inspector_authority"
type_synonym snapshot_reader = "module_key \<Rightarrow> module_snapshot option"

definition moduleIdentity :: "module_key \<Rightarrow> string" where
  "moduleIdentity k = mk_organizationId k @ '':'' @ mk_jobId k @ '':'' @ module_text (mk_module k)"

definition new_module_approval_state :: module_approval_state where
  "new_module_approval_state = \<lparr>as_revision = 0, as_currentApproval = None, as_withdrawn = False,
     as_withdrawnSnapshotId = None, as_idempotency = []\<rparr>"

definition empty_approval_service :: approval_service where
  "empty_approval_service = \<lparr>sv_states = [], sv_events = [], sv_ids = 0\<rparr>"

text \<open>The state of a module, created on first use: what is read and the service that is left.\<close>

definition module_of :: "approval_service \<Rightarrow> module_key \<Rightarrow> module_approval_state" where
  "module_of sv k = (case map_of (sv_states sv) (moduleIdentity k) of None \<Rightarrow> new_module_approval_state | Some st \<Rightarrow> st)"

definition set_module :: "module_key \<Rightarrow> module_approval_state \<Rightarrow> approval_service \<Rightarrow> approval_service" where
  "set_module k st sv = sv\<lparr>sv_states := map_set (moduleIdentity k) st (sv_states sv)\<rparr>"

definition open_module :: "module_key \<Rightarrow> approval_service \<Rightarrow> approval_service" where
  "open_module k sv = (case map_of (sv_states sv) (moduleIdentity k) of None \<Rightarrow> set_module k new_module_approval_state sv | Some _ \<Rightarrow> sv)"

definition log_approval :: "env \<Rightarrow> (string \<Rightarrow> approval_event) \<Rightarrow> approval_service \<Rightarrow> approval_service" where
  "log_approval E e sv = sv\<lparr>sv_events := sv_events sv @ [e (random E (sv_ids sv))], sv_ids := Suc (sv_ids sv)\<rparr>"

section \<open>Approval\<close>

definition approvalFingerprint :: "approval_request \<Rightarrow> string" where
  "approvalFingerprint c = join '':'' [mk_organizationId (aq_key c), mk_jobId (aq_key c), module_text (mk_module (aq_key c)),
     aq_snapshotId c, aq_snapshotHash c, show_int (aq_expectedModuleRevision c), aq_inspectorId c, aq_credentialVersion c]"

definition assertExactSnapshot :: "module_snapshot \<Rightarrow> approval_request \<Rightarrow> approval_error + unit" where
  "assertExactSnapshot s c = ensure (ms_organizationId s = mk_organizationId (aq_key c) \<and> ms_jobId s = mk_jobId (aq_key c)
     \<and> ms_module s = mk_module (aq_key c) \<and> ms_snapshotId s = aq_snapshotId c \<and> ms_canonicalHash s = aq_snapshotHash c)
     (ApprovalError SnapshotStale) (Inr ())"

definition approval_checks ::
  "authority_port \<Rightarrow> snapshot_reader \<Rightarrow> approval_request \<Rightarrow> module_approval_state \<Rightarrow> approval_error + module_snapshot" where
  "approval_checks authority current c st =
     ensure (as_revision st = aq_expectedModuleRevision c) (ApprovalError RevisionConflict) (
     ensure (\<not> as_withdrawn st) (ApprovalError ModuleWithdrawn) (
     ensure (aq_recentAuthentication c) (ApprovalError RecentAuthRequired) (
     bind_result (authority (aq_key c)) (\<lambda>y.
     ensure (iy_assignedInspectorId y = aq_inspectorId c) (ApprovalError InspectorNotAssigned) (
     ensure (iy_eligible y) (ApprovalError InspectorIneligible) (
     ensure (iy_credentialVersion y = aq_credentialVersion c) (ApprovalError CredentialMismatch) (
     bind_result (of_option (ApprovalError MissingSnapshot) (current (aq_key c))) (\<lambda>s.
     bind_result (assertExactSnapshot s c) (\<lambda>_.
     ensure (ia_inspectorId (ms_inspector s) = aq_inspectorId c \<and> ia_credentialVersion (ms_inspector s) = aq_credentialVersion c)
       (ApprovalError CredentialMismatch) (Inr s))))))))))"

definition new_approval :: "approval_request \<Rightarrow> module_snapshot \<Rightarrow> string \<Rightarrow> int \<Rightarrow> approval_record" where
  "new_approval c s approvalId moduleRevision =
     \<lparr>ap_approvalId = approvalId, ap_organizationId = mk_organizationId (aq_key c), ap_jobId = mk_jobId (aq_key c),
      ap_moduleId = ms_moduleId s, ap_module = mk_module (aq_key c), ap_snapshotId = ms_snapshotId s,
      ap_snapshotHash = ms_canonicalHash s, ap_inspectorId = aq_inspectorId c, ap_approvedAt = aq_approvedAt c,
      av_snapshotRevision = ms_revision s, av_credentialVersion = aq_credentialVersion c, av_moduleRevision = moduleRevision\<rparr>"

definition record_approval ::
  "env \<Rightarrow> approval_request \<Rightarrow> module_snapshot \<Rightarrow> approval_service \<Rightarrow> (approval_error + approval_record) \<times> approval_service" where
  "record_approval E c s sv =
     (let st = module_of sv (aq_key c); moduleRevision = as_revision st + 1;
          a = new_approval c s (random E (sv_ids sv)) moduleRevision; drawn = sv\<lparr>sv_ids := Suc (sv_ids sv)\<rparr>;
          st' = st\<lparr>as_revision := moduleRevision, as_currentApproval := Some a,
            as_idempotency := map_set (aq_idempotencyKey c) (approvalFingerprint c, a) (as_idempotency st)\<rparr>
      in if \<not> ModuleApproval_ok E a then (Inl ApprovalInvalid, drawn)
         else (Inr a, log_approval E (\<lambda>i. \<lparr>vt_eventId = i, vt_type = ApprovalRecorded, vt_key = aq_key c,
           vt_moduleRevision = moduleRevision, vt_snapshotId = ms_snapshotId s, vt_approvalId = Some (ap_approvalId a),
           vt_inspectorId = aq_inspectorId c, vt_recordedAt = aq_approvedAt c, vt_reasonCode = ''exact_snapshot_approved''\<rparr>)
           (set_module (aq_key c) st' drawn)))"

definition approve ::
  "env \<Rightarrow> authority_port \<Rightarrow> snapshot_reader \<Rightarrow> approval_request \<Rightarrow> approval_service
     \<Rightarrow> (approval_error + approval_record) \<times> approval_service" where
  "approve E authority current c sv0 =
     (let sv = open_module (aq_key c) sv0; st = module_of sv (aq_key c)
      in case map_of (as_idempotency st) (aq_idempotencyKey c) of
           Some r \<Rightarrow> (ensure (fst r = approvalFingerprint c) (ApprovalError RevisionConflict) (Inr (snd r)), sv)
         | None \<Rightarrow> (case approval_checks authority current c st of Inl e \<Rightarrow> (Inl e, sv) | Inr s \<Rightarrow> record_approval E c s sv))"

section \<open>Invalidation, withdrawal and reopening\<close>

record invalidation_command =
  ie_key :: module_key
  ie_expectedModuleRevision :: int
  ie_priorSnapshotId :: string
  ie_newSnapshotId :: string
  ie_inspectorId :: string
  ie_recordedAt :: string

definition invalidation_checks :: "snapshot_reader \<Rightarrow> invalidation_command \<Rightarrow> module_approval_state \<Rightarrow> approval_error + unit" where
  "invalidation_checks current c st =
     ensure (as_revision st = ie_expectedModuleRevision c) (ApprovalError RevisionConflict) (
     bind_result (of_option (ApprovalError SnapshotStale) (current (ie_key c))) (\<lambda>s.
     ensure (ms_snapshotId s = ie_newSnapshotId c \<and> 1 \<le> ms_revision s) (ApprovalError SnapshotStale) (
     ensure (case as_currentApproval st of None \<Rightarrow> True | Some a \<Rightarrow> ap_snapshotId a = ie_priorSnapshotId c)
       (ApprovalError SnapshotStale) (Inr ()))))"

definition invalidateForSnapshotEdit ::
  "env \<Rightarrow> snapshot_reader \<Rightarrow> invalidation_command \<Rightarrow> approval_service \<Rightarrow> (approval_error + int) \<times> approval_service" where
  "invalidateForSnapshotEdit E current c sv0 =
     (let sv = open_module (ie_key c) sv0; st = module_of sv (ie_key c)
      in case invalidation_checks current c st of Inl e \<Rightarrow> (Inl e, sv)
         | Inr _ \<Rightarrow> (Inr (as_revision st + 1), log_approval E (\<lambda>i. \<lparr>vt_eventId = i, vt_type = ApprovalInvalidated, vt_key = ie_key c,
             vt_moduleRevision = as_revision st + 1, vt_snapshotId = ie_newSnapshotId c,
             vt_approvalId = map_option ap_approvalId (as_currentApproval st), vt_inspectorId = ie_inspectorId c,
             vt_recordedAt = ie_recordedAt c, vt_reasonCode = ''module_snapshot_edited''\<rparr>)
             (set_module (ie_key c) (st\<lparr>as_revision := as_revision st + 1, as_currentApproval := None, as_withdrawn := False,
               as_withdrawnSnapshotId := None\<rparr>) sv)))"

record withdrawal_request =
  wr_key :: module_key
  wr_expectedModuleRevision :: int
  wr_inspectorId :: string
  wr_recentAuthentication :: bool
  wr_recordedAt :: string
  wr_reasonCode :: string

definition withdrawal_checks ::
  "authority_port \<Rightarrow> snapshot_reader \<Rightarrow> withdrawal_request \<Rightarrow> module_approval_state \<Rightarrow> approval_error + module_snapshot" where
  "withdrawal_checks authority current c st =
     ensure (as_revision st = wr_expectedModuleRevision c) (ApprovalError RevisionConflict) (
     ensure (wr_recentAuthentication c) (ApprovalError RecentAuthRequired) (
     bind_result (authority (wr_key c)) (\<lambda>y.
     ensure (iy_assignedInspectorId y = wr_inspectorId c) (ApprovalError InspectorNotAssigned)
       (of_option (ApprovalError MissingSnapshot) (current (wr_key c))))))"

definition withdraw ::
  "env \<Rightarrow> authority_port \<Rightarrow> snapshot_reader \<Rightarrow> withdrawal_request \<Rightarrow> approval_service \<Rightarrow> (approval_error + int) \<times> approval_service" where
  "withdraw E authority current c sv0 =
     (let sv = open_module (wr_key c) sv0; st = module_of sv (wr_key c)
      in case withdrawal_checks authority current c st of Inl e \<Rightarrow> (Inl e, sv)
         | Inr s \<Rightarrow> (Inr (as_revision st + 1), log_approval E (\<lambda>i. \<lparr>vt_eventId = i, vt_type = ApprovalWithdrawn, vt_key = wr_key c,
             vt_moduleRevision = as_revision st + 1, vt_snapshotId = ms_snapshotId s,
             vt_approvalId = map_option ap_approvalId (as_currentApproval st), vt_inspectorId = wr_inspectorId c,
             vt_recordedAt = wr_recordedAt c, vt_reasonCode = wr_reasonCode c\<rparr>)
             (set_module (wr_key c) (st\<lparr>as_revision := as_revision st + 1, as_currentApproval := None, as_withdrawn := True,
               as_withdrawnSnapshotId := Some (ms_snapshotId s)\<rparr>) sv)))"

definition reopenWithNewSnapshot ::
  "snapshot_reader \<Rightarrow> module_key \<Rightarrow> approval_service \<Rightarrow> (approval_error + unit) \<times> approval_service" where
  "reopenWithNewSnapshot current k sv0 =
     (let sv = open_module k sv0; st = module_of sv k
      in case current k of None \<Rightarrow> (Inl (ApprovalError MissingSnapshot), sv)
         | Some s \<Rightarrow> if \<not> as_withdrawn st \<or> as_withdrawnSnapshotId st = None \<or> as_withdrawnSnapshotId st = Some (ms_snapshotId s)
             then (Inl (ApprovalError SnapshotStale), sv)
             else (Inr (), set_module k (st\<lparr>as_withdrawn := False, as_withdrawnSnapshotId := None, as_currentApproval := None,
               as_revision := as_revision st + 1\<rparr>) sv))"

section \<open>Readers\<close>

text \<open>A reader leaves the state it created; what it answers does not depend on whether it did.\<close>

definition getCurrentApproval :: "approval_service \<Rightarrow> module_key \<Rightarrow> approval_record option" where
  "getCurrentApproval sv k = as_currentApproval (module_of sv k)"

definition getRevision :: "approval_service \<Rightarrow> module_key \<Rightarrow> int" where
  "getRevision sv k = as_revision (module_of sv k)"

definition isWithdrawn :: "approval_service \<Rightarrow> module_key \<Rightarrow> bool" where
  "isWithdrawn sv k = as_withdrawn (module_of sv k)"

definition approval_events :: "approval_service \<Rightarrow> approval_event list" where
  "approval_events sv = sv_events sv"

text \<open>The in-memory authority.\<close>

type_synonym authority_table = "(string, inspector_authority) js_map"

definition setAuthority :: "module_key \<Rightarrow> inspector_authority \<Rightarrow> authority_table \<Rightarrow> authority_table" where
  "setAuthority k y t = map_set (moduleIdentity k) y t"

definition getAuthority :: "authority_table \<Rightarrow> authority_port" where
  "getAuthority t k = of_option (ApprovalError InspectorNotAssigned) (map_of t (moduleIdentity k))"

section \<open>What the operations do to the modules\<close>

lemma moduleIdentity_eq: "moduleIdentity k = snapshotKey k"
  by (simp add: moduleIdentity_def snapshotKey_def)

lemma module_of_set [simp]: "module_of (set_module k st sv) k' = (if moduleIdentity k' = moduleIdentity k then st else module_of sv k')"
  by (simp add: module_of_def set_module_def)

lemma module_of_open [simp]: "module_of (open_module k sv) k' = module_of sv k'"
  by (auto simp: open_module_def module_of_def set_module_def split: option.split)

lemma module_of_log [simp]: "module_of (log_approval E e sv) k = module_of sv k"
  by (simp add: module_of_def log_approval_def)

lemma module_of_ids [simp]: "module_of (sv\<lparr>sv_ids := n\<rparr>) k = module_of sv k"
  by (simp add: module_of_def)

lemma open_module_fields [simp]: "sv_events (open_module k sv) = sv_events sv" "sv_ids (open_module k sv) = sv_ids sv"
  by (simp_all add: open_module_def set_module_def split: option.split)

lemma set_module_fields [simp]: "sv_events (set_module k st sv) = sv_events sv" "sv_ids (set_module k st sv) = sv_ids sv"
  by (simp_all add: set_module_def)

lemma log_approval_events [simp]: "sv_events (log_approval E e sv) = sv_events sv @ [e (random E (sv_ids sv))]"
  by (simp add: log_approval_def)

section \<open>The approval world\<close>

record approval_world =
  wo_snapshots :: snapshot_store
  wo_authority :: authority_table
  wo_approvals :: approval_service

datatype approval_call =
    CreateSnapshot module_snapshot_input int
  | SetAuthority module_key inspector_authority
  | Approve approval_request
  | InvalidateForEdit invalidation_command
  | WithdrawApproval withdrawal_request
  | Reopen module_key
  | ReadModule module_key

fun world_after :: "env \<Rightarrow> approval_call \<Rightarrow> approval_world \<Rightarrow> approval_world" where
  "world_after E (CreateSnapshot i n) w = w\<lparr>wo_snapshots := snd (createSnapshot E i n (wo_snapshots w))\<rparr>"
| "world_after E (SetAuthority k y) w = w\<lparr>wo_authority := setAuthority k y (wo_authority w)\<rparr>"
| "world_after E (Approve c) w = w\<lparr>wo_approvals := snd (approve E (getAuthority (wo_authority w)) (getCurrent (wo_snapshots w)) c (wo_approvals w))\<rparr>"
| "world_after E (InvalidateForEdit c) w = w\<lparr>wo_approvals := snd (invalidateForSnapshotEdit E (getCurrent (wo_snapshots w)) c (wo_approvals w))\<rparr>"
| "world_after E (WithdrawApproval c) w = w\<lparr>wo_approvals := snd (withdraw E (getAuthority (wo_authority w)) (getCurrent (wo_snapshots w)) c (wo_approvals w))\<rparr>"
| "world_after E (Reopen k) w = w\<lparr>wo_approvals := snd (reopenWithNewSnapshot (getCurrent (wo_snapshots w)) k (wo_approvals w))\<rparr>"
| "world_after E (ReadModule k) w = w\<lparr>wo_approvals := open_module k (wo_approvals w)\<rparr>"

definition empty_world :: approval_world where
  "empty_world = \<lparr>wo_snapshots = empty_snapshot_store, wo_authority = [], wo_approvals = empty_approval_service\<rparr>"

inductive reachable_world :: "env \<Rightarrow> approval_world \<Rightarrow> bool" for E where
  init: "reachable_world E empty_world"
| step: "reachable_world E w \<Longrightarrow> reachable_world E (world_after E c w)"

definition approval_key :: "'a module_approval_scheme \<Rightarrow> module_key" where
  "approval_key a = \<lparr>mk_organizationId = ap_organizationId a, mk_jobId = ap_jobId a, mk_module = ap_module a\<rparr>"

definition recorded_approval :: "approval_event list \<Rightarrow> approval_record \<Rightarrow> bool" where
  "recorded_approval es a \<longleftrightarrow> (\<exists>e \<in> set es. vt_type e = ApprovalRecorded \<and> vt_approvalId e = Some (ap_approvalId a)
     \<and> vt_key e = approval_key a \<and> vt_snapshotId e = ap_snapshotId a \<and> vt_inspectorId e = ap_inspectorId a
     \<and> vt_moduleRevision e = av_moduleRevision a)"

definition binds_snapshot :: "env \<Rightarrow> snapshot_store \<Rightarrow> approval_record \<Rightarrow> bool" where
  "binds_snapshot E st a \<longleftrightarrow> (\<exists>s. getById st (ap_snapshotId a) = Some s \<and> ms_canonicalHash s = ap_snapshotHash a
     \<and> ms_revision s = av_snapshotRevision a \<and> ms_moduleId s = ap_moduleId a \<and> input_key s = approval_key a
     \<and> ia_inspectorId (ms_inspector s) = ap_inspectorId a \<and> ia_credentialVersion (ms_inspector s) = av_credentialVersion a
     \<and> snapshot_verifies E s)"

definition module_wf :: "env \<Rightarrow> snapshot_store \<Rightarrow> approval_event list \<Rightarrow> module_key \<Rightarrow> module_approval_state \<Rightarrow> bool" where
  "module_wf E st es k m \<longleftrightarrow>
     (\<forall>a. as_currentApproval m = Some a \<longrightarrow> binds_snapshot E st a \<and> recorded_approval es a \<and> av_moduleRevision a = as_revision m
        \<and> moduleIdentity (approval_key a) = moduleIdentity k \<and> \<not> as_withdrawn m)
     \<and> (as_withdrawn m \<longleftrightarrow> as_withdrawnSnapshotId m \<noteq> None) \<and> 0 \<le> as_revision m
     \<and> (\<forall>key f a. map_of (as_idempotency m) key = Some (f, a) \<longrightarrow> binds_snapshot E st a \<and> recorded_approval es a)"

definition world_wf :: "env \<Rightarrow> approval_world \<Rightarrow> bool" where
  "world_wf E w \<longleftrightarrow> snapshots_wf E (wo_snapshots w)
     \<and> (\<forall>k. module_wf E (wo_snapshots w) (sv_events (wo_approvals w)) k (module_of (wo_approvals w) k))"

lemma recorded_approval_more: "recorded_approval es a \<Longrightarrow> recorded_approval (es @ es') a"
  by (auto simp: recorded_approval_def)

lemma binds_snapshot_later: "snapshots_le st t \<Longrightarrow> binds_snapshot E st a \<Longrightarrow> binds_snapshot E t a"
  unfolding binds_snapshot_def snapshots_le_def getById_def by metis

lemma module_wf_later: "module_wf E st es k m \<Longrightarrow> snapshots_le st t \<Longrightarrow> module_wf E t (es @ es') k m"
  unfolding module_wf_def using binds_snapshot_later recorded_approval_more by blast

lemma module_wf_same: "module_wf E st es k m \<Longrightarrow> snapshots_le st t \<Longrightarrow> module_wf E t es k m"
  using module_wf_later[of E st es k m t "[]"] by simp

lemma module_wf_identity: "module_wf E st es k m \<Longrightarrow> moduleIdentity k' = moduleIdentity k \<Longrightarrow> module_wf E st es k' m"
  by (auto simp: module_wf_def)

lemma world_module: "world_wf E w \<Longrightarrow> module_wf E (wo_snapshots w) (sv_events (wo_approvals w)) k (module_of (wo_approvals w) k)"
  by (simp add: world_wf_def)

text \<open>A change of one module with one event keeps the world well-formed when the new module state is.\<close>

lemma world_wf_update:
  assumes "world_wf E w" and "module_wf E (wo_snapshots w) (sv_events (wo_approvals w) @ es) k m"
    and "sv_events sv = sv_events (wo_approvals w) @ es"
    and "\<And>k'. module_of sv k' = (if moduleIdentity k' = moduleIdentity k then m else module_of (wo_approvals w) k')"
  shows "world_wf E (w\<lparr>wo_approvals := sv\<rparr>)"
  unfolding world_wf_def
proof (intro conjI allI)
  show "snapshots_wf E (wo_snapshots (w\<lparr>wo_approvals := sv\<rparr>))" using assms(1) by (simp add: world_wf_def)
  fix k'
  have "module_wf E (wo_snapshots w) (sv_events (wo_approvals w) @ es) k' (module_of sv k')"
  proof (cases "moduleIdentity k' = moduleIdentity k")
    case True
    then show ?thesis using assms(4)[of k'] module_wf_identity[OF assms(2) True] by simp
  next
    case False
    then show ?thesis using assms(4)[of k'] module_wf_later[OF world_module[OF assms(1)] snapshots_le_refl, of es k'] by simp
  qed
  then show "module_wf E (wo_snapshots (w\<lparr>wo_approvals := sv\<rparr>)) (sv_events (wo_approvals (w\<lparr>wo_approvals := sv\<rparr>))) k'
      (module_of (wo_approvals (w\<lparr>wo_approvals := sv\<rparr>)) k')" by (simp add: assms(3))
qed

lemma world_wf_same:
  assumes "world_wf E w" and "sv_events sv = sv_events (wo_approvals w)" and "\<And>k. module_of sv k = module_of (wo_approvals w) k"
  shows "world_wf E (w\<lparr>wo_approvals := sv\<rparr>)"
  using assms by (simp add: world_wf_def)

lemma approval_checks_Inr:
  "approval_checks authority current c st = Inr s \<longleftrightarrow> as_revision st = aq_expectedModuleRevision c \<and> \<not> as_withdrawn st
     \<and> aq_recentAuthentication c \<and> (\<exists>y. authority (aq_key c) = Inr y \<and> iy_assignedInspectorId y = aq_inspectorId c \<and> iy_eligible y
        \<and> iy_credentialVersion y = aq_credentialVersion c)
     \<and> current (aq_key c) = Some s \<and> input_key s = aq_key c \<and> ms_snapshotId s = aq_snapshotId c \<and> ms_canonicalHash s = aq_snapshotHash c
     \<and> ia_inspectorId (ms_inspector s) = aq_inspectorId c \<and> ia_credentialVersion (ms_inspector s) = aq_credentialVersion c"
  by (cases "aq_key c") (auto simp: approval_checks_def assertExactSnapshot_def input_key_def)

lemma approve_cases:
  obtains (same) "\<And>k. module_of (snd (approve E authority current c sv)) k = module_of sv k"
      "sv_events (snd (approve E authority current c sv)) = sv_events sv"
      "\<And>a. fst (approve E authority current c sv) = Inr a \<Longrightarrow>
         map_of (as_idempotency (module_of sv (aq_key c))) (aq_idempotencyKey c) = Some (approvalFingerprint c, a)"
    | (new) s where "approval_checks authority current c (module_of sv (aq_key c)) = Inr s"
      "map_of (as_idempotency (module_of sv (aq_key c))) (aq_idempotencyKey c) = None"
      "approve E authority current c sv = record_approval E c s (open_module (aq_key c) sv)"
      "ModuleApproval_ok E (new_approval c s (random E (sv_ids sv)) (as_revision (module_of sv (aq_key c)) + 1))"
proof -
  show thesis
  proof (cases "map_of (as_idempotency (module_of sv (aq_key c))) (aq_idempotencyKey c)")
    case (Some r)
    then have "approve E authority current c sv
        = (ensure (fst r = approvalFingerprint c) (ApprovalError RevisionConflict) (Inr (snd r)), open_module (aq_key c) sv)"
      by (simp add: approve_def Let_def)
    with Some show thesis by (intro same) (auto simp: ensure_def prod_eq_iff split: if_splits)
  next
    case None
    show thesis
    proof (cases "approval_checks authority current c (module_of sv (aq_key c))")
      case (Inl e)
      with None have "approve E authority current c sv = (Inl e, open_module (aq_key c) sv)" by (simp add: approve_def Let_def)
      then show thesis by (intro same) simp_all
    next
      case (Inr s)
      with None have a: "approve E authority current c sv = record_approval E c s (open_module (aq_key c) sv)"
        by (simp add: approve_def Let_def)
      show thesis
      proof (cases "ModuleApproval_ok E (new_approval c s (random E (sv_ids sv)) (as_revision (module_of sv (aq_key c)) + 1))")
        case True
        then show thesis using new[OF Inr None a] by blast
      next
        case False
        then show thesis by (intro same) (simp_all add: a record_approval_def Let_def)
      qed
    qed
  qed
qed

lemma record_approval_Inr:
  assumes "ModuleApproval_ok E (new_approval c s (random E (sv_ids sv)) (as_revision (module_of sv (aq_key c)) + 1))"
  defines "a \<equiv> new_approval c s (random E (sv_ids sv)) (as_revision (module_of sv (aq_key c)) + 1)"
  shows "fst (record_approval E c s (open_module (aq_key c) sv)) = Inr a"
    "module_of (snd (record_approval E c s (open_module (aq_key c) sv))) k = (if moduleIdentity k = moduleIdentity (aq_key c)
       then (module_of sv (aq_key c))\<lparr>as_revision := av_moduleRevision a, as_currentApproval := Some a,
          as_idempotency := map_set (aq_idempotencyKey c) (approvalFingerprint c, a) (as_idempotency (module_of sv (aq_key c)))\<rparr>
       else module_of sv k)"
    "\<exists>e. sv_events (snd (record_approval E c s (open_module (aq_key c) sv))) = sv_events sv @ [e] \<and> recorded_approval [e] a"
  using assms(1) unfolding a_def
  by (simp_all add: record_approval_def Let_def new_approval_def recorded_approval_def approval_key_def)

text \<open>Every operation keeps the world well-formed.\<close>

lemma approve_wf:
  assumes w: "world_wf E w"
  shows "world_wf E (world_after E (Approve c) w)"
proof (rule approve_cases[of E "getAuthority (wo_authority w)" "getCurrent (wo_snapshots w)" c "wo_approvals w"])
  let ?sv = "wo_approvals w" and ?k = "aq_key c"
  let ?m = "module_of ?sv ?k"
  fix s
  assume ch: "approval_checks (getAuthority (wo_authority w)) (getCurrent (wo_snapshots w)) c ?m = Inr s"
    and eq: "approve E (getAuthority (wo_authority w)) (getCurrent (wo_snapshots w)) c ?sv = record_approval E c s (open_module ?k ?sv)"
    and ok: "ModuleApproval_ok E (new_approval c s (random E (sv_ids ?sv)) (as_revision ?m + 1))"
  let ?a = "new_approval c s (random E (sv_ids ?sv)) (as_revision ?m + 1)"
  let ?t = "snd (record_approval E c s (open_module ?k ?sv))"
  note r = record_approval_Inr[OF ok]
  obtain e where e: "sv_events ?t = sv_events ?sv @ [e]" "recorded_approval [e] ?a" using r(3) by blast
  have snaps: "snapshots_wf E (wo_snapshots w)" using w by (simp add: world_wf_def)
  from ch have cur: "getCurrent (wo_snapshots w) ?k = Some s" "input_key s = ?k" "\<not> as_withdrawn ?m"
    "ia_inspectorId (ms_inspector s) = aq_inspectorId c" "ia_credentialVersion (ms_inspector s) = aq_credentialVersion c"
    by (auto simp: approval_checks_Inr)
  note g = getCurrent_Some[OF snaps cur(1)]
  have b: "binds_snapshot E (wo_snapshots w) ?a"
    unfolding binds_snapshot_def using g(3,4) cur by (intro exI[of _ s]) (simp add: new_approval_def approval_key_def)
  have rec: "recorded_approval (sv_events ?sv @ [e]) ?a" using e(2) by (auto simp: recorded_approval_def)
  have key: "approval_key ?a = ?k" by (simp add: new_approval_def approval_key_def)
  have old: "module_wf E (wo_snapshots w) (sv_events ?sv @ [e]) ?k ?m"
    using module_wf_later[OF world_module[OF w] snapshots_le_refl] .
  have "world_wf E (w\<lparr>wo_approvals := ?t\<rparr>)"
  proof (rule world_wf_update[OF w _ e(1)])
    show "module_of ?t k' = (if moduleIdentity k' = moduleIdentity ?k then ?m\<lparr>as_revision := av_moduleRevision ?a,
        as_currentApproval := Some ?a, as_idempotency := map_set (aq_idempotencyKey c) (approvalFingerprint c, ?a) (as_idempotency ?m)\<rparr>
        else module_of ?sv k')" for k' by (rule r(2))
    show "module_wf E (wo_snapshots w) (sv_events ?sv @ [e]) ?k (?m\<lparr>as_revision := av_moduleRevision ?a,
        as_currentApproval := Some ?a, as_idempotency := map_set (aq_idempotencyKey c) (approvalFingerprint c, ?a) (as_idempotency ?m)\<rparr>)"
      using old b rec cur(3) key unfolding module_wf_def by (auto simp: new_approval_def)
  qed
  then show ?thesis using eq by simp
qed (use w world_wf_same in auto)

lemma open_module_wf: "world_wf E w \<Longrightarrow> world_wf E (w\<lparr>wo_approvals := open_module k (wo_approvals w)\<rparr>)"
  by (rule world_wf_same) simp_all

lemma cleared_module_wf:
  assumes "module_wf E st es k m" and "wd \<longleftrightarrow> sid \<noteq> None"
  shows "module_wf E st (es @ es') k (m\<lparr>as_revision := as_revision m + 1, as_currentApproval := None, as_withdrawn := wd, as_withdrawnSnapshotId := sid\<rparr>)"
  using module_wf_later[OF assms(1) snapshots_le_refl, of es'] assms(2) unfolding module_wf_def by simp

lemma changed_wf:
  assumes w: "world_wf E w" and wd: "wd \<longleftrightarrow> sid \<noteq> None"
    and "sv_events sv = sv_events (wo_approvals w) @ es"
    and "\<And>k'. module_of sv k' = (if moduleIdentity k' = moduleIdentity k
      then (module_of (wo_approvals w) k)\<lparr>as_revision := as_revision (module_of (wo_approvals w) k) + 1, as_currentApproval := None,
        as_withdrawn := wd, as_withdrawnSnapshotId := sid\<rparr> else module_of (wo_approvals w) k')"
  shows "world_wf E (w\<lparr>wo_approvals := sv\<rparr>)"
  by (rule world_wf_update[OF w cleared_module_wf[OF world_module[OF w] wd] assms(3,4)])

lemma invalidate_wf:
  assumes w: "world_wf E w"
  shows "world_wf E (world_after E (InvalidateForEdit c) w)"
proof (cases "invalidation_checks (getCurrent (wo_snapshots w)) c (module_of (wo_approvals w) (ie_key c))")
  case (Inl e)
  then show ?thesis using open_module_wf[OF w] by (simp add: invalidateForSnapshotEdit_def Let_def)
next
  case (Inr u)
  let ?sv = "snd (invalidateForSnapshotEdit E (getCurrent (wo_snapshots w)) c (wo_approvals w))"
  have "world_wf E (w\<lparr>wo_approvals := ?sv\<rparr>)"
    by (rule changed_wf[OF w, of False None _ _ "ie_key c"]) (simp_all add: Inr invalidateForSnapshotEdit_def Let_def)
  then show ?thesis by simp
qed

lemma withdraw_wf:
  assumes w: "world_wf E w"
  shows "world_wf E (world_after E (WithdrawApproval c) w)"
proof (cases "withdrawal_checks (getAuthority (wo_authority w)) (getCurrent (wo_snapshots w)) c (module_of (wo_approvals w) (wr_key c))")
  case (Inl e)
  then show ?thesis using open_module_wf[OF w] by (simp add: withdraw_def Let_def)
next
  case (Inr s)
  let ?sv = "snd (withdraw E (getAuthority (wo_authority w)) (getCurrent (wo_snapshots w)) c (wo_approvals w))"
  have "world_wf E (w\<lparr>wo_approvals := ?sv\<rparr>)"
    by (rule changed_wf[OF w, of True "Some (ms_snapshotId s)" _ _ "wr_key c"]) (simp_all add: Inr withdraw_def Let_def)
  then show ?thesis by simp
qed

lemma reopen_wf:
  assumes w: "world_wf E w"
  shows "world_wf E (world_after E (Reopen k) w)"
proof -
  let ?sv = "reopenWithNewSnapshot (getCurrent (wo_snapshots w)) k (wo_approvals w)"
  show ?thesis
  proof (cases "\<exists>e. fst ?sv = Inl e")
    case True
    then have "snd ?sv = open_module k (wo_approvals w)"
      by (auto simp: reopenWithNewSnapshot_def Let_def split: option.splits if_splits)
    then show ?thesis using open_module_wf[OF w] by simp
  next
    case False
    then have sv: "snd ?sv = set_module k ((module_of (wo_approvals w) k)\<lparr>as_withdrawn := False, as_withdrawnSnapshotId := None,
        as_currentApproval := None, as_revision := as_revision (module_of (wo_approvals w) k) + 1\<rparr>) (open_module k (wo_approvals w))"
      by (auto simp: reopenWithNewSnapshot_def Let_def split: option.splits if_splits)
    have "world_wf E (w\<lparr>wo_approvals := snd ?sv\<rparr>)"
      by (rule changed_wf[OF w, of False None _ "[]" k]) (simp_all add: sv)
    then show ?thesis by simp
  qed
qed

lemma create_snapshot_world_wf:
  assumes w: "world_wf E w"
  shows "world_wf E (world_after E (CreateSnapshot i n) w)"
proof -
  let ?st = "snd (createSnapshot E i n (wo_snapshots w))"
  have s: "snapshots_wf E (wo_snapshots w)" using w by (simp add: world_wf_def)
  have "snapshots_wf E ?st"
  proof (cases "createSnapshot E i n (wo_snapshots w)")
    case (Pair r t)
    then show ?thesis using s createSnapshot_wf[OF s, of i n] createSnapshot_Inl[of E i n] by (cases r) fastforce+
  qed
  then show ?thesis using module_wf_same[OF world_module[OF w] createSnapshot_le] by (simp add: world_wf_def)
qed

lemma world_after_wf: "world_wf E w \<Longrightarrow> world_wf E (world_after E c w)"
proof (cases c)
  case (SetAuthority k y)
  assume "world_wf E w"
  then show ?thesis using SetAuthority by (simp add: world_wf_def)
next
  case (ReadModule k)
  assume "world_wf E w"
  then show ?thesis using ReadModule open_module_wf by simp
qed (use approve_wf invalidate_wf withdraw_wf reopen_wf create_snapshot_world_wf in blast)+

lemma empty_world_wf: "world_wf E empty_world"
  by (simp add: world_wf_def empty_world_def empty_snapshots_wf module_of_def empty_approval_service_def module_wf_def
      new_module_approval_state_def)

lemma reachable_world_wf: "reachable_world E w \<Longrightarrow> world_wf E w"
  by (induction rule: reachable_world.induct) (simp_all add: empty_world_wf world_after_wf)

section \<open>Steps of the world keep what was recorded\<close>

definition world_step :: "env \<Rightarrow> approval_world \<Rightarrow> approval_world \<Rightarrow> bool" where
  "world_step E w w' \<longleftrightarrow> (\<exists>c. w' = world_after E c w)"

lemma approve_events: "\<exists>es. sv_events (snd (approve E authority current c sv)) = sv_events sv @ es"
proof (rule approve_cases[of E authority current c sv])
  fix s
  assume "approve E authority current c sv = record_approval E c s (open_module (aq_key c) sv)"
    "ModuleApproval_ok E (new_approval c s (random E (sv_ids sv)) (as_revision (module_of sv (aq_key c)) + 1))"
  with record_approval_Inr(3)[OF this(2)] show ?thesis by auto
qed auto

lemma world_after_events: "\<exists>es. sv_events (wo_approvals (world_after E c w)) = sv_events (wo_approvals w) @ es"
proof (cases c)
  case (Approve c)
  then show ?thesis using approve_events by simp
qed (auto simp: invalidateForSnapshotEdit_def withdraw_def reopenWithNewSnapshot_def Let_def split: sum.split option.split)

lemma world_after_snapshots: "snapshots_le (wo_snapshots w) (wo_snapshots (world_after E c w))"
  by (cases c) (simp_all add: createSnapshot_le)

lemma world_after_keeps:
  "binds_snapshot E (wo_snapshots w) a \<Longrightarrow> recorded_approval (sv_events (wo_approvals w)) a
     \<Longrightarrow> binds_snapshot E (wo_snapshots (world_after E c w)) a \<and> recorded_approval (sv_events (wo_approvals (world_after E c w))) a"
  using binds_snapshot_later[OF world_after_snapshots] world_after_events[of E c w] recorded_approval_more by metis

section \<open>The reader's interface\<close>

text \<open>What a client of \<open>CurrentApprovalReader\<close> relies on: a current approval is vouched for (it was
  recorded for a stored snapshot), it is of the module asked for, a module with one is not withdrawn, and what
  was vouched for stays so.\<close>

locale approval_reader =
  fixes current :: "'s \<Rightarrow> module_key \<Rightarrow> approval_record option"
    and withdrawn :: "'s \<Rightarrow> module_key \<Rightarrow> bool"
    and vouched :: "'s \<Rightarrow> approval_record \<Rightarrow> bool"
    and step :: "'s \<Rightarrow> 's \<Rightarrow> bool"
    and ok :: "'s \<Rightarrow> bool"
  assumes current_vouched: "ok s \<Longrightarrow> current s k = Some a \<Longrightarrow> vouched s a"
    and current_keyed: "ok s \<Longrightarrow> current s k = Some a \<Longrightarrow> moduleIdentity (approval_key a) = moduleIdentity k"
    and current_live: "ok s \<Longrightarrow> current s k = Some a \<Longrightarrow> \<not> withdrawn s k"
    and step_ok: "step s t \<Longrightarrow> ok s \<Longrightarrow> ok t"
    and step_vouched: "step s t \<Longrightarrow> vouched s a \<Longrightarrow> vouched t a"
begin

lemma steps_vouched: "step\<^sup>*\<^sup>* s t \<Longrightarrow> vouched s a \<Longrightarrow> vouched t a"
  by (induction rule: rtranclp_induct) (auto intro: step_vouched)

lemma steps_ok: "step\<^sup>*\<^sup>* s t \<Longrightarrow> ok s \<Longrightarrow> ok t"
  by (induction rule: rtranclp_induct) (auto intro: step_ok)

lemma read_now_vouched_later: "ok s \<Longrightarrow> current s k = Some a \<Longrightarrow> step\<^sup>*\<^sup>* s t \<Longrightarrow> vouched t a"
  using current_vouched steps_vouched by blast

end

definition vouched_approval :: "env \<Rightarrow> approval_world \<Rightarrow> approval_record \<Rightarrow> bool" where
  "vouched_approval E w a \<longleftrightarrow> binds_snapshot E (wo_snapshots w) a \<and> recorded_approval (sv_events (wo_approvals w)) a"

lemma world_current:
  assumes "world_wf E w" and "getCurrentApproval (wo_approvals w) k = Some a"
  shows "vouched_approval E w a" "moduleIdentity (approval_key a) = moduleIdentity k" "\<not> isWithdrawn (wo_approvals w) k"
    "av_moduleRevision a = getRevision (wo_approvals w) k"
  using world_module[OF assms(1), of k] assms(2)
  by (auto simp: module_wf_def getCurrentApproval_def isWithdrawn_def getRevision_def vouched_approval_def)

interpretation approval_service: approval_reader "\<lambda>w. getCurrentApproval (wo_approvals w)" "\<lambda>w. isWithdrawn (wo_approvals w)"
    "vouched_approval E" "world_step E" "world_wf E" for E
proof unfold_locales
  show "world_step E s t \<Longrightarrow> world_wf E s \<Longrightarrow> world_wf E t" for s t
    by (auto simp: world_step_def world_after_wf)
  show "world_step E s t \<Longrightarrow> vouched_approval E s a \<Longrightarrow> vouched_approval E t a" for s t a
    using world_after_keeps by (auto simp: world_step_def vouched_approval_def)
qed (rule world_current; assumption)+

section \<open>Idempotent approval\<close>

definition run_approve :: "env \<Rightarrow> approval_world \<Rightarrow> approval_request \<Rightarrow> (approval_error + approval_record) \<times> approval_world" where
  "run_approve E w c = (let r = approve E (getAuthority (wo_authority w)) (getCurrent (wo_snapshots w)) c (wo_approvals w)
     in (fst r, w\<lparr>wo_approvals := snd r\<rparr>))"

definition answered :: "approval_world \<Rightarrow> module_key \<times> string \<Rightarrow> (string \<times> approval_record) option" where
  "answered w k = map_of (as_idempotency (module_of (wo_approvals w) (fst k))) (snd k)"

lemma run_approve_Inr:
  "run_approve E w c = (Inr a, w') \<longleftrightarrow> fst (approve E (getAuthority (wo_authority w)) (getCurrent (wo_snapshots w)) c (wo_approvals w)) = Inr a
     \<and> w' = world_after E (Approve c) w"
  by (auto simp: run_approve_def Let_def)

lemma approve_answers:
  assumes "fst (approve E authority current c sv) = Inr a"
  shows "map_of (as_idempotency (module_of (snd (approve E authority current c sv)) (aq_key c))) (aq_idempotencyKey c)
      = Some (approvalFingerprint c, a)"
    and "map_of (as_idempotency (module_of sv (aq_key c))) (aq_idempotencyKey c) = Some x \<Longrightarrow> x = (approvalFingerprint c, a)"
proof -
  show "map_of (as_idempotency (module_of (snd (approve E authority current c sv)) (aq_key c))) (aq_idempotencyKey c)
      = Some (approvalFingerprint c, a)"
  proof (rule approve_cases[of E authority current c sv])
    fix s
    assume eq: "approve E authority current c sv = record_approval E c s (open_module (aq_key c) sv)"
      and ok: "ModuleApproval_ok E (new_approval c s (random E (sv_ids sv)) (as_revision (module_of sv (aq_key c)) + 1))"
    from record_approval_Inr(1,2)[OF ok] assms eq show ?thesis by simp
  qed (use assms in auto)
  show "x = (approvalFingerprint c, a)" if "map_of (as_idempotency (module_of sv (aq_key c))) (aq_idempotencyKey c) = Some x"
    by (rule approve_cases[of E authority current c sv]) (use assms that in auto)
qed

lemma approve_keeps_answers:
  assumes "map_of (as_idempotency (module_of sv k)) key = Some x"
  shows "map_of (as_idempotency (module_of (snd (approve E authority current c sv)) k)) key = Some x"
proof (rule approve_cases[of E authority current c sv])
  fix s
  assume new: "map_of (as_idempotency (module_of sv (aq_key c))) (aq_idempotencyKey c) = None"
    and eq: "approve E authority current c sv = record_approval E c s (open_module (aq_key c) sv)"
    and ok: "ModuleApproval_ok E (new_approval c s (random E (sv_ids sv)) (as_revision (module_of sv (aq_key c)) + 1))"
  show ?thesis
  proof (cases "moduleIdentity k = moduleIdentity (aq_key c)")
    case True
    then have "module_of sv k = module_of sv (aq_key c)" by (simp add: module_of_def)
    then show ?thesis using True new assms unfolding eq record_approval_Inr(2)[OF ok] by auto
  next
    case False
    then show ?thesis using assms unfolding eq record_approval_Inr(2)[OF ok] by simp
  qed
qed (use assms in simp)

lemma same_module: "moduleIdentity k = moduleIdentity k' \<Longrightarrow> module_of sv k = module_of sv k'"
  by (simp add: module_of_def)

lemma world_after_answers: "answered w k = Some x \<Longrightarrow> answered (world_after E c w) k = Some x"
proof (cases c)
  case (Approve c)
  assume "answered w k = Some x"
  then show ?thesis using Approve approve_keeps_answers by (simp add: answered_def)
qed (auto simp: answered_def invalidateForSnapshotEdit_def withdraw_def reopenWithNewSnapshot_def Let_def
    split: sum.split option.split, (metis same_module)+)

interpretation approval_ledger: idempotent_operation "run_approve E" "\<lambda>c. (aq_key c, aq_idempotencyKey c)" approvalFingerprint
    "\<lambda>a. a" answered "world_step E" "\<lambda>_. True" for E
proof unfold_locales
  show "run_approve E w c = (Inr a, w') \<Longrightarrow> answered w' (aq_key c, aq_idempotencyKey c) = Some (approvalFingerprint c, a)" for w w' c a
    using approve_answers(1) by (auto simp: run_approve_Inr answered_def)
  show "answered w (aq_key c, aq_idempotencyKey c) = Some (f, b) \<Longrightarrow> run_approve E w c = (Inr a, w') \<Longrightarrow> f = approvalFingerprint c \<and> a = b"
    for w w' c a b f
    using approve_answers(2)[of E _ _ c "wo_approvals w" a "(f, b)"] by (auto simp: run_approve_Inr answered_def)
  show "world_step E w w' \<Longrightarrow> answered w k = Some x \<Longrightarrow> answered w' k = Some x" for w w' k x
    unfolding world_step_def using world_after_answers by blast
qed

text \<open>Each module has its own state: an operation on one leaves every other as it is.\<close>

fun call_key :: "approval_call \<Rightarrow> module_key option" where
  "call_key (CreateSnapshot i n) = Some (input_key i)"
| "call_key (SetAuthority k y) = Some k"
| "call_key (Approve c) = Some (aq_key c)"
| "call_key (InvalidateForEdit c) = Some (ie_key c)"
| "call_key (WithdrawApproval c) = Some (wr_key c)"
| "call_key (Reopen k) = Some k"
| "call_key (ReadModule k) = Some k"

lemma approve_other:
  assumes "moduleIdentity k \<noteq> moduleIdentity (aq_key c)"
  shows "module_of (snd (approve E authority current c sv)) k = module_of sv k"
proof (rule approve_cases[of E authority current c sv])
  fix s
  assume eq: "approve E authority current c sv = record_approval E c s (open_module (aq_key c) sv)"
    and ok: "ModuleApproval_ok E (new_approval c s (random E (sv_ids sv)) (as_revision (module_of sv (aq_key c)) + 1))"
  show ?thesis unfolding eq record_approval_Inr(2)[OF ok] using assms by simp
qed auto

lemma module_untouched:
  assumes "call_key c = Some k0" and "moduleIdentity k \<noteq> moduleIdentity k0"
  shows "module_of (wo_approvals (world_after E c w)) k = module_of (wo_approvals w) k"
  using assms approve_other
  by (cases c) (auto simp: invalidateForSnapshotEdit_def withdraw_def reopenWithNewSnapshot_def Let_def split: sum.split option.split)

lemma snapshot_untouched:
  assumes "snapshots_wf E (wo_snapshots w)" and "call_key c = Some k0" and "moduleIdentity k \<noteq> moduleIdentity k0"
  shows "getCurrent (wo_snapshots (world_after E c w)) k = getCurrent (wo_snapshots w) k"
proof (cases c)
  case (CreateSnapshot i n)
  show ?thesis
  proof (cases "createSnapshot E i n (wo_snapshots w)")
    case (Pair r t)
    show ?thesis
    proof (cases r)
      case (Inl e)
      then show ?thesis using CreateSnapshot Pair createSnapshot_Inl by fastforce
    next
      case (Inr s)
      note f = createSnapshot_Inr[OF Pair[unfolded Inr]]
      have ne: "snapshotKey k \<noteq> snapshotKey (input_key i)" using assms(2,3) CreateSnapshot by (simp add: moduleIdentity_eq)
      have new: "map_of (sx_byId (wo_snapshots w)) (ms_snapshotId s) = None" using f(5) checked_snapshot_Inr(1)[OF f(1)] by simp
      have "map_of (sx_currentIds (wo_snapshots w)) (snapshotKey k) \<noteq> Some (ms_snapshotId s)"
      proof
        assume c: "map_of (sx_currentIds (wo_snapshots w)) (snapshotKey k) = Some (ms_snapshotId s)"
        from current_is_last[OF assms(1) c] have l: "ids_of (wo_snapshots w) (snapshotKey k) \<noteq> []"
          "last (ids_of (wo_snapshots w) (snapshotKey k)) = ms_snapshotId s" by auto
        then have "length (ids_of (wo_snapshots w) (snapshotKey k)) - 1 < length (ids_of (wo_snapshots w) (snapshotKey k))" by simp
        from history_entry[OF assms(1) this] l new show False by (metis last_conv_nth option.distinct(1))
      qed
      then show ?thesis using ne by (auto simp: CreateSnapshot Pair f(2) getCurrent_def store_snapshot_def split: option.split)
    qed
  qed
qed simp_all

section \<open>A sample world\<close>

definition sample_key :: module_key where
  "sample_key = \<lparr>mk_organizationId = ''org'', mk_jobId = ''job'', mk_module = Building\<rparr>"

definition sample_approve :: approval_request where
  "sample_approve = \<lparr>aq_key = sample_key, aq_snapshotId = ''s1'', aq_snapshotHash = replicate 64 (CHR ''a''),
     aq_expectedModuleRevision = 0, aq_inspectorId = ''insp'', aq_credentialVersion = ''c1'', aq_recentAuthentication = True,
     aq_idempotencyKey = ''k'', aq_approvedAt = ''2026-07-15''\<rparr>"

definition sample_ready_world :: approval_world where
  "sample_ready_world = world_after sample_env (SetAuthority sample_key \<lparr>iy_assignedInspectorId = ''insp'', iy_eligible = True, iy_credentialVersion = ''c1''\<rparr>)
     (world_after sample_env (CreateSnapshot (module_snapshot_input.truncate (sample_snapshot ''s1'' 1 ''t1'')) 0) empty_world)"

definition sample_world :: approval_world where
  "sample_world = world_after sample_env (Approve sample_approve) sample_ready_world"

definition sample_given :: approval_record where
  "sample_given = projr (fst (run_approve sample_env sample_ready_world sample_approve))"

lemma sample_world_reachable: "reachable_world sample_env sample_ready_world" "reachable_world sample_env sample_world"
  unfolding sample_world_def sample_ready_world_def by (intro reachable_world.intros)+

lemma sample_given_ok: "run_approve sample_env sample_ready_world sample_approve = (Inr sample_given, sample_world)"
proof -
  have "\<not> isl (fst (run_approve sample_env sample_ready_world sample_approve))" by code_simp
  then show ?thesis by (simp add: sample_given_def sample_world_def prod_eq_iff run_approve_def Let_def)
qed

lemma sample_current: "getCurrentApproval (wo_approvals sample_world) sample_key = Some sample_given"
proof -
  have "getCurrentApproval (wo_approvals sample_world) sample_key = Some (projr (fst (run_approve sample_env sample_ready_world sample_approve)))"
    by code_simp
  then show ?thesis by (simp add: sample_given_def)
qed

section \<open>An edit notice for the withdrawn snapshot\<close>

text \<open>The notice that a snapshot was edited clears a withdrawal when it names the current snapshot, also when that is
  the very snapshot that was withdrawn, which \<open>reopenWithNewSnapshot\<close> refuses.\<close>

lemma edit_notice_clears_withdrawal:
  assumes w: "withdraw E authority current c sv = (Inr n, sv')" and k: "ie_key d = wr_key c" and r: "ie_expectedModuleRevision d = n"
    and s: "current (wr_key c) = Some s" "ie_newSnapshotId d = ms_snapshotId s" "1 \<le> ms_revision s"
  shows "isWithdrawn sv' (wr_key c) \<and> reopenWithNewSnapshot current (wr_key c) sv' = (Inl (ApprovalError SnapshotStale), sv')
    \<and> fst (invalidateForSnapshotEdit E current d sv') = Inr (n + 1)
    \<and> \<not> isWithdrawn (snd (invalidateForSnapshotEdit E current d sv')) (wr_key c)"
proof -
  have m: "module_of sv' (wr_key c) = (module_of sv (wr_key c))\<lparr>as_revision := n, as_currentApproval := None, as_withdrawn := True,
      as_withdrawnSnapshotId := Some (ms_snapshotId s)\<rparr>"
    using w s(1) by (auto simp: withdraw_def Let_def withdrawal_checks_def split: sum.splits)
  have st: "map_of (sv_states sv') (moduleIdentity (wr_key c)) \<noteq> None"
    using w by (auto simp: withdraw_def Let_def set_module_def log_approval_def split: sum.splits)
  have o1: "open_module (wr_key c) sv' = sv'" using st by (auto simp: open_module_def split: option.split)
  show ?thesis using m s by (simp add: isWithdrawn_def reopenWithNewSnapshot_def invalidateForSnapshotEdit_def invalidation_checks_def Let_def o1 k r)
qed

section \<open>Properties\<close>

text \<open>C23: in every reachable world the current approval of a module binds the identifier, hash, revision
  and inspector of a stored snapshot whose hash verifies, was recorded by an audit event at the module's
  present revision, and stands only while the module is not withdrawn.\<close>

theorem current_approval_binds:
  assumes "reachable_world E w" and "getCurrentApproval (wo_approvals w) k = Some a"
  shows "binds_snapshot E (wo_snapshots w) a \<and> recorded_approval (sv_events (wo_approvals w)) a
    \<and> moduleIdentity (approval_key a) = moduleIdentity k \<and> \<not> isWithdrawn (wo_approvals w) k
    \<and> av_moduleRevision a = getRevision (wo_approvals w) k"
  using world_current[OF reachable_world_wf[OF assms(1)] assms(2)] by (simp add: vouched_approval_def)

lemma current_approval_binds_witness:
  "binds_snapshot sample_env (wo_snapshots sample_world) sample_given \<and> \<not> isWithdrawn (wo_approvals sample_world) sample_key"
  using current_approval_binds[OF sample_world_reachable(2) sample_current] by simp

text \<open>A request that is answered with a new approval came from the assigned, eligible inspector with the
  current credentials and recent authentication, for the exact current snapshot and module revision; the
  approval becomes current, and no other module's snapshot, approval, withdrawal or revision changes.\<close>

theorem approval_is_authorised:
  assumes "reachable_world E w" and "run_approve E w c = (Inr a, w')" and "answered w (aq_key c, aq_idempotencyKey c) = None"
  shows "(\<exists>y s. getAuthority (wo_authority w) (aq_key c) = Inr y \<and> iy_assignedInspectorId y = ap_inspectorId a \<and> iy_eligible y
      \<and> iy_credentialVersion y = av_credentialVersion a \<and> getCurrent (wo_snapshots w) (aq_key c) = Some s
      \<and> ap_snapshotId a = ms_snapshotId s \<and> ap_snapshotHash a = ms_canonicalHash s \<and> input_key s = aq_key c)
    \<and> aq_recentAuthentication c \<and> \<not> isWithdrawn (wo_approvals w) (aq_key c)
    \<and> getRevision (wo_approvals w) (aq_key c) = aq_expectedModuleRevision c
    \<and> getRevision (wo_approvals w') (aq_key c) = aq_expectedModuleRevision c + 1
    \<and> getCurrentApproval (wo_approvals w') (aq_key c) = Some a
    \<and> (\<forall>k. moduleIdentity k \<noteq> moduleIdentity (aq_key c) \<longrightarrow>
        module_of (wo_approvals w') k = module_of (wo_approvals w) k \<and> getCurrent (wo_snapshots w') k = getCurrent (wo_snapshots w) k)"
proof (rule approve_cases[of E "getAuthority (wo_authority w)" "getCurrent (wo_snapshots w)" c "wo_approvals w"])
  fix s
  let ?sv = "wo_approvals w"
  assume ch: "approval_checks (getAuthority (wo_authority w)) (getCurrent (wo_snapshots w)) c (module_of ?sv (aq_key c)) = Inr s"
    and eq: "approve E (getAuthority (wo_authority w)) (getCurrent (wo_snapshots w)) c ?sv = record_approval E c s (open_module (aq_key c) ?sv)"
    and ok: "ModuleApproval_ok E (new_approval c s (random E (sv_ids ?sv)) (as_revision (module_of ?sv (aq_key c)) + 1))"
  note r = record_approval_Inr[OF ok]
  have w': "w' = world_after E (Approve c) w"
    and a: "a = new_approval c s (random E (sv_ids ?sv)) (as_revision (module_of ?sv (aq_key c)) + 1)"
    using assms(2) r(1) by (simp_all add: run_approve_Inr eq)
  have new: "module_of (wo_approvals w') (aq_key c) = (module_of ?sv (aq_key c))\<lparr>as_revision := av_moduleRevision a,
      as_currentApproval := Some a, as_idempotency := map_set (aq_idempotencyKey c) (approvalFingerprint c, a)
        (as_idempotency (module_of ?sv (aq_key c)))\<rparr>"
    by (simp add: w' eq r(2) a)
  have "wo_snapshots w' = wo_snapshots w" by (simp add: w')
  moreover have "module_of (wo_approvals w') k = module_of ?sv k" if "moduleIdentity k \<noteq> moduleIdentity (aq_key c)" for k
    unfolding w' by (rule module_untouched[where ?k0.0 = "aq_key c"]) (use that in simp_all)
  ultimately show ?thesis using ch new
    by (auto simp: approval_checks_Inr getRevision_def isWithdrawn_def getCurrentApproval_def a new_approval_def)
qed (use assms in \<open>auto simp: run_approve_Inr answered_def\<close>)

lemma approval_is_authorised_witness:
  "getCurrentApproval (wo_approvals sample_world) (aq_key sample_approve) = Some sample_given"
proof -
  have "answered sample_ready_world (aq_key sample_approve, aq_idempotencyKey sample_approve) = None" by code_simp
  from approval_is_authorised[OF sample_world_reachable(1) sample_given_ok this] show ?thesis by blast
qed

text \<open>An idempotency key of a module stands for one request and one approval for ever: whatever happens
  between them, a later success under the same key has the same fingerprint and gives the same approval.\<close>

theorem approval_keys_once:
  assumes "run_approve E w c = (Inr a, w')" and "(world_step E)\<^sup>*\<^sup>* w' u" and "run_approve E u d = (Inr b, u')"
    and "aq_key d = aq_key c" and "aq_idempotencyKey d = aq_idempotencyKey c"
  shows "approvalFingerprint d = approvalFingerprint c \<and> b = a"
  using approval_ledger.one_identity_per_key[OF assms(1-3)] assms(4,5) by simp

lemma approval_keys_once_witness: "fst (run_approve sample_env sample_world sample_approve) = Inr sample_given"
proof -
  have "\<not> isl (fst (run_approve sample_env sample_world sample_approve))" by code_simp
  then obtain b u where r: "run_approve sample_env sample_world sample_approve = (Inr b, u)"
    by (metis prod.collapse sum.collapse(2))
  from approval_keys_once[OF sample_given_ok rtranclp.rtrancl_refl this] show ?thesis by (simp add: r)
qed

end
