(* ===== verification/Delivery.thy ===== *)
theory Delivery
  imports Approvals Effects Js_Sort
begin

text \<open>
  Guarded delivery (\<open>packages/delivery/src\<close>): durability manifests (\<open>manifest.ts\<close>), the transactional
  repository (\<open>repository.ts\<close>) and the confirmation that freezes the exact approved snapshots of a package
  and inserts its one outbox record (\<open>delivery-service.ts\<close>).  An operation of the repository returns its
  result with the repository it leaves; a transaction that throws restores packages, outbox, idempotency
  index and event log, and only the identifiers and clock readings it used stay used.
\<close>

section \<open>Types\<close>

datatype durability_status = DurVerified | DurMissing | DurQuarantined | DurChecksumMismatch

fun durability_text :: "durability_status \<Rightarrow> string" where
  "durability_text DurVerified = ''verified''"
| "durability_text DurMissing = ''missing''"
| "durability_text DurQuarantined = ''quarantined''"
| "durability_text DurChecksumMismatch = ''checksum_mismatch''"

record durability_entry =
  de_artifactId :: string
  de_contentHash :: string
  de_byteLength :: int
  de_requiredOriginal :: bool
  de_status :: durability_status
  de_verifiedAt :: "string option"

record manifest_input =
  dm_manifestId :: string
  dm_organizationId :: string
  dm_jobId :: string
  dm_revision :: int
  dm_entries :: "durability_entry list"

record durability_manifest = manifest_input +
  dm_canonicalHash :: string

record frozen_reference =
  fr_module :: module_type
  fr_moduleId :: string
  fr_snapshotId :: string
  fr_snapshotHash :: string
  fr_snapshotRevision :: int
  fr_approvalId :: string
  fr_approvalModuleRevision :: int

datatype delivery_state = WaitingApproval | WaitingEvidence | DlQueued | Sending | ProviderAccepted | Sent | DlFailed | DlUnknown | DlCancelled

fun delivery_state_text :: "delivery_state \<Rightarrow> string" where
  "delivery_state_text WaitingApproval = ''waiting_for_approval''"
| "delivery_state_text WaitingEvidence = ''waiting_for_evidence''"
| "delivery_state_text DlQueued = ''queued''"
| "delivery_state_text Sending = ''sending''"
| "delivery_state_text ProviderAccepted = ''provider_accepted''"
| "delivery_state_text Sent = ''sent''"
| "delivery_state_text DlFailed = ''failed''"
| "delivery_state_text DlUnknown = ''unknown''"
| "delivery_state_text DlCancelled = ''cancelled''"

record delivery_record =
  dr_packageId :: string
  dr_organizationId :: string
  dr_jobId :: string
  dr_commissionedModules :: "module_type list"
  dr_moduleSnapshots :: "frozen_reference list"
  dr_durabilityManifestId :: string
  dr_durabilityManifestHash :: string
  dr_revision :: int
  dr_state :: delivery_state
  dr_idempotencyKey :: string
  dr_frozenAt :: "string option"
  dr_updatedAt :: string
  dr_providerReference :: "string option"
  dr_failureCode :: "string option"
  dr_interventionRequired :: bool
  dr_cancellationReason :: "string option"

datatype outbox_state = ObQueued | ObProcessing | ObCompleted | ObCancelled

record outbox_record =
  ob_outboxId :: string
  ob_packageId :: string
  ob_organizationId :: string
  ob_jobId :: string
  ob_state :: outbox_state
  ob_idempotencyKey :: string
  ob_requestFingerprint :: string
  ob_createdAt :: string
  ob_updatedAt :: string

datatype delivery_event_type = EvWaitingApproval | EvWaitingEvidence | EvPackageFrozen | EvSendStarted | EvProviderAccepted
  | EvSent | EvFailed | EvUnknown | EvCancelled

record delivery_event =
  dx_eventId :: string
  dx_packageId :: string
  dx_organizationId :: string
  dx_jobId :: string
  dx_type :: delivery_event_type
  dx_packageRevision :: int
  dx_recordedAt :: string
  dx_safeMetadata :: "(string \<times> json) list"

datatype gate_code = ManifestScopeMismatch | ManifestDivergence | SnapshotChanged | ModuleSetInvalid

datatype delivery_error = DeliveryConflict string | DeliveryGate gate_code string | DeliveryFault string | DeliveryTypeError

section \<open>Durability manifests\<close>

definition entry_json :: "durability_entry \<Rightarrow> json" where
  "entry_json e = JObj [(''artifactId'', JStr (de_artifactId e)), (''contentHash'', JStr (de_contentHash e)),
     (''byteLength'', JNum (de_byteLength e)), (''requiredOriginal'', JBool (de_requiredOriginal e)),
     (''status'', JStr (durability_text (de_status e))), (''verifiedAt'', json_opt JStr (de_verifiedAt e))]"

definition manifest_json :: "'a manifest_input_scheme \<Rightarrow> json" where
  "manifest_json m = JObj [(''manifestId'', JStr (dm_manifestId m)), (''organizationId'', JStr (dm_organizationId m)),
     (''jobId'', JStr (dm_jobId m)), (''revision'', JNum (dm_revision m)), (''entries'', JArr (map entry_json (dm_entries m)))]"

definition delivery_digest :: "env \<Rightarrow> json \<Rightarrow> delivery_error + string" where
  "delivery_digest E v = (case sha256 E v of Inl e \<Rightarrow> Inl DeliveryTypeError | Inr h \<Rightarrow> Inr h)"

fun entry_checks :: "durability_entry list \<Rightarrow> delivery_error + unit" where
  "entry_checks [] = Inr ()"
| "entry_checks (e # es) =
     ensure (sha256_pattern (de_contentHash e)) (DeliveryFault ''Durability entry has an invalid content hash'') (
     ensure (safe_int (de_byteLength e) \<and> 1 \<le> de_byteLength e) (DeliveryFault ''Durability entry byte length must be positive'') (
     ensure (\<not> (de_status e = DurVerified \<and> de_verifiedAt e = None)) (DeliveryFault ''Verified durability requires a verification time'') (
     ensure (\<not> (de_status e \<noteq> DurVerified \<and> de_verifiedAt e \<noteq> None)) (DeliveryFault ''Unverified durability cannot carry a verification time'')
       (entry_checks es))))"

definition createDurabilityManifest :: "env \<Rightarrow> manifest_input \<Rightarrow> delivery_error + durability_manifest" where
  "createDurabilityManifest E i =
     ensure (1 \<le> dm_revision i \<and> safe_int (dm_revision i)) (DeliveryFault ''Durability manifest revision must be a positive integer'') (
     let entries = sort_by (\<lambda>a b. collate E (de_artifactId a) (de_artifactId b)) (dm_entries i) in
     ensure (distinct (map de_artifactId entries)) (DeliveryFault ''Durability manifest artifact identities must be unique'') (
     bind_result (entry_checks entries) (\<lambda>_.
     bind_result (delivery_digest E (manifest_json (i\<lparr>dm_entries := entries\<rparr>))) (\<lambda>h.
     Inr \<lparr>dm_manifestId = dm_manifestId i, dm_organizationId = dm_organizationId i, dm_jobId = dm_jobId i,
       dm_revision = dm_revision i, dm_entries = entries, dm_canonicalHash = h\<rparr>))))"

definition isManifestSendable :: "durability_manifest \<Rightarrow> bool" where
  "isManifestSendable m \<longleftrightarrow> list_all (\<lambda>e. \<not> de_requiredOriginal e \<or> de_status e = DurVerified) (dm_entries m)"

definition verifyDurabilityManifest :: "env \<Rightarrow> durability_manifest \<Rightarrow> delivery_error + bool" where
  "verifyDurabilityManifest E m = bind_result (delivery_digest E (manifest_json m)) (\<lambda>h. Inr (h = dm_canonicalHash m))"

definition manifestCoversEvidence :: "durability_manifest \<Rightarrow> string list \<Rightarrow> bool" where
  "manifestCoversEvidence m hashes \<longleftrightarrow>
     (let verified = map de_contentHash (filter (\<lambda>e. de_requiredOriginal e \<and> de_status e = DurVerified) (dm_entries m))
      in list_all (\<lambda>h. h \<in> set verified) hashes)"

section \<open>The repository and its transactions\<close>

record delivery_repository =
  rp_packages :: "(string, delivery_record) js_map"
  rp_outbox :: "(string, outbox_record) js_map"
  rp_idempotency :: "(string, string \<times> string) js_map"
  rp_events :: "delivery_event list"
  rp_ids :: nat
  rp_clock :: nat

type_synonym 'r delivery_op = "delivery_repository \<Rightarrow> (delivery_error + 'r) \<times> delivery_repository"

definition empty_repository :: delivery_repository where
  "empty_repository = \<lparr>rp_packages = [], rp_outbox = [], rp_idempotency = [], rp_events = [], rp_ids = 0, rp_clock = 0\<rparr>"

definition restore :: "delivery_repository \<Rightarrow> delivery_repository \<Rightarrow> delivery_repository" where
  "restore before s = s\<lparr>rp_packages := rp_packages before, rp_outbox := rp_outbox before, rp_idempotency := rp_idempotency before,
     rp_events := take (length (rp_events before)) (rp_events s)\<rparr>"

definition transact :: "'r delivery_op \<Rightarrow> 'r delivery_op" where
  "transact work s = (let r = work s in case fst r of Inr x \<Rightarrow> r | Inl e \<Rightarrow> (Inl e, restore s (snd r)))"

definition getPackage :: "string \<Rightarrow> delivery_record option delivery_op" where
  "getPackage k s = (Inr (map_of (rp_packages s) k), s)"

definition outbox_of :: "delivery_repository \<Rightarrow> string \<Rightarrow> outbox_record option" where
  "outbox_of s k = List.find (\<lambda>o'. ob_packageId o' = k) (map snd (rp_outbox s))"

definition getOutboxForPackage :: "string \<Rightarrow> outbox_record option delivery_op" where
  "getOutboxForPackage k s = (Inr (outbox_of s k), s)"

definition setPackage :: "delivery_record \<Rightarrow> unit delivery_op" where
  "setPackage v s = (Inr (), s\<lparr>rp_packages := map_set (dr_packageId v) v (rp_packages s)\<rparr>)"

definition setOutbox :: "outbox_record \<Rightarrow> unit delivery_op" where
  "setOutbox v s = (Inr (), s\<lparr>rp_outbox := map_set (ob_outboxId v) v (rp_outbox s)\<rparr>)"

definition newId :: "env \<Rightarrow> string delivery_op" where
  "newId E s = (Inr (random E (rp_ids s)), s\<lparr>rp_ids := Suc (rp_ids s)\<rparr>)"

definition readNow :: "env \<Rightarrow> string delivery_op" where
  "readNow E s = (Inr (to_iso (clock E (rp_clock s))), s\<lparr>rp_clock := Suc (rp_clock s)\<rparr>)"

definition logEvent :: "env \<Rightarrow> delivery_record \<Rightarrow> delivery_event_type \<Rightarrow> int \<Rightarrow> string \<Rightarrow> (string \<times> json) list \<Rightarrow> unit delivery_op" where
  "logEvent E v ty revision at meta =
     st_bind (newId E) (\<lambda>i s. (Inr (), s\<lparr>rp_events := rp_events s @ [\<lparr>dx_eventId = i, dx_packageId = dr_packageId v,
       dx_organizationId = dr_organizationId v, dx_jobId = dr_jobId v, dx_type = ty, dx_packageRevision = revision,
       dx_recordedAt = at, dx_safeMetadata = meta\<rparr>]\<rparr>))"

definition getIdempotentPackage :: "string \<Rightarrow> string \<Rightarrow> delivery_record option delivery_op" where
  "getIdempotentPackage key fingerprint s = ((case map_of (rp_idempotency s) key of
       None \<Rightarrow> Inr None
     | Some prior \<Rightarrow>
         ensure (fst prior = fingerprint) (DeliveryConflict ''Delivery idempotency key was reused with different package content'')
           (bind_result (of_option (DeliveryFault ''Delivery idempotency index references a missing package'')
             (map_of (rp_packages s) (snd prior))) (\<lambda>v. Inr (Some v)))), s)"

definition writePackage :: "delivery_record \<Rightarrow> int \<Rightarrow> delivery_record delivery_op" where
  "writePackage v expectedRevision =
     st_bind (getPackage (dr_packageId v)) (\<lambda>existing.
     let currentRevision = (case existing of None \<Rightarrow> 0 | Some x \<Rightarrow> dr_revision x) in
     st_ensure (currentRevision = expectedRevision)
       (DeliveryConflict (''Expected package revision '' @ show_int expectedRevision @ '', current revision is '' @ show_int currentRevision)) (
     st_ensure (dr_revision v = expectedRevision + 1) (DeliveryConflict ''Delivery package must advance its revision exactly once'') (
     st_bind (setPackage v) (\<lambda>_. st_return v))))"

definition bindIdempotency :: "string \<Rightarrow> string \<Rightarrow> string \<Rightarrow> unit delivery_op" where
  "bindIdempotency key fingerprint packageId s = (Inr (), s\<lparr>rp_idempotency := map_set key (fingerprint, packageId) (rp_idempotency s)\<rparr>)"

definition enqueueOutbox :: "env \<Rightarrow> outbox_record \<Rightarrow> outbox_record delivery_op" where
  "enqueueOutbox E input =
     st_bind (getOutboxForPackage (ob_packageId input)) (\<lambda>existing.
     st_ensure (existing = None) (DeliveryConflict ''A package can have only one durable send outbox record'') (
     st_bind (newId E) (\<lambda>i. let created = input\<lparr>ob_outboxId := i\<rparr> in
     st_bind (setOutbox created) (\<lambda>_. st_return created))))"

definition updateOutbox :: "string \<Rightarrow> outbox_state \<Rightarrow> string \<Rightarrow> unit delivery_op" where
  "updateOutbox packageId st at =
     st_bind (getOutboxForPackage packageId) (\<lambda>o'. case o' of
       None \<Rightarrow> st_throw (DeliveryFault ''Delivery package has no outbox record'')
     | Some v \<Rightarrow> setOutbox (v\<lparr>ob_state := st, ob_updatedAt := at\<rparr>))"

definition transition_package ::
  "string \<Rightarrow> delivery_state list \<Rightarrow> delivery_state \<Rightarrow> string \<Rightarrow> (delivery_record \<Rightarrow> delivery_record) \<Rightarrow> delivery_record delivery_op" where
  "transition_package packageId allowed next_state at changes =
     st_bind (getPackage packageId) (\<lambda>c. case c of
       None \<Rightarrow> st_throw (DeliveryFault ''Delivery package does not exist'')
     | Some current \<Rightarrow>
         st_ensure (dr_state current \<in> set allowed)
           (DeliveryConflict (''Cannot transition delivery from '' @ delivery_state_text (dr_state current) @ '' to '' @ delivery_state_text next_state)) (
         let updated = (changes current)\<lparr>dr_state := next_state, dr_revision := dr_revision current + 1, dr_updatedAt := at\<rparr> in
         st_bind (setPackage updated) (\<lambda>_. st_return updated)))"


section \<open>Confirmation\<close>

record confirm_command =
  cc_packageId :: string
  cc_organizationId :: string
  cc_jobId :: string
  cc_commissionedModules :: "module_type list"
  cc_manifest :: durability_manifest
  cc_expectedPackageRevision :: int
  cc_idempotencyKey :: string
  cc_confirmedAt :: string

datatype confirm_outcome = OutWaitingApproval | OutWaitingEvidence | OutQueued

record confirm_result =
  cr_package :: delivery_record
  cr_outcome :: confirm_outcome
  cr_blockers :: "string list"
  cr_replayed :: bool

text \<open>The two readers the service is built on: current snapshots, and current approvals with withdrawals.\<close>

record delivery_readers =
  rd_snapshot :: "module_key \<Rightarrow> module_snapshot option"
  rd_approval :: "module_key \<Rightarrow> approval_record option"
  rd_withdrawn :: "module_key \<Rightarrow> bool"

fun canonical_index :: "module_type \<Rightarrow> int" where
  "canonical_index Building = 0"
| "canonical_index TimberPest = 1"

fun indices_increase :: "int list \<Rightarrow> bool" where
  "indices_increase (i # j # js) \<longleftrightarrow> i < j \<and> indices_increase (j # js)"
| "indices_increase js \<longleftrightarrow> True"

definition canonical_module_set :: "module_type list \<Rightarrow> bool" where
  "canonical_module_set ms \<longleftrightarrow> distinct ms \<and> indices_increase (map canonical_index ms)"

definition reference :: "module_snapshot \<Rightarrow> approval_record \<Rightarrow> frozen_reference" where
  "reference s a = \<lparr>fr_module = ms_module s, fr_moduleId = ms_moduleId s, fr_snapshotId = ms_snapshotId s,
     fr_snapshotHash = ms_canonicalHash s, fr_snapshotRevision = ms_revision s, fr_approvalId = ap_approvalId a,
     fr_approvalModuleRevision = av_moduleRevision a\<rparr>"

text \<open>What the loop over the commissioned modules collects: references, blockers and evidence hashes.\<close>

fun resolve_modules ::
  "delivery_readers \<Rightarrow> string \<Rightarrow> string \<Rightarrow> module_type list \<Rightarrow> delivery_error + frozen_reference list \<times> string list \<times> string list" where
  "resolve_modules R org job [] = Inr ([], [], [])"
| "resolve_modules R org job (m # ms) =
     (let k = \<lparr>mk_organizationId = org, mk_jobId = job, mk_module = m\<rparr>;
          blocked = (\<lambda>reason. bind_result (resolve_modules R org job ms) (\<lambda>(rs, bs, hs). Inr (rs, (module_text m @ reason) # bs, hs)))
      in if rd_withdrawn R k then blocked ''_withdrawn''
         else case (rd_snapshot R k, rd_approval R k) of
           (Some s, Some a) \<Rightarrow>
             ensure (ap_snapshotId a = ms_snapshotId s \<and> ap_snapshotHash a = ms_canonicalHash s \<and> av_snapshotRevision a = ms_revision s)
               (DeliveryGate SnapshotChanged (module_text m @ '' approval is not for the exact current snapshot''))
               (bind_result (resolve_modules R org job ms) (\<lambda>(rs, bs, hs). Inr (reference s a # rs, bs, ms_evidenceHashes s @ hs)))
         | _ \<Rightarrow> blocked ''_not_approved'')"

definition resolveExactApprovals ::
  "delivery_readers \<Rightarrow> confirm_command \<Rightarrow> delivery_error + frozen_reference list \<times> string list \<times> string list" where
  "resolveExactApprovals R c = bind_result (resolve_modules R (cc_organizationId c) (cc_jobId c) (cc_commissionedModules c))
     (\<lambda>(rs, bs, hs). Inr (rs, bs, sort (js_unique hs)))"

definition resultFor :: "delivery_record \<Rightarrow> bool \<Rightarrow> confirm_result" where
  "resultFor v replayed =
     (let outcome = (case dr_state v of WaitingApproval \<Rightarrow> OutWaitingApproval | WaitingEvidence \<Rightarrow> OutWaitingEvidence | _ \<Rightarrow> OutQueued)
      in \<lparr>cr_package = v, cr_outcome = outcome,
          cr_blockers = (if outcome = OutWaitingEvidence then [''required_evidence_not_durable''] else []), cr_replayed = replayed\<rparr>)"

definition modules_json :: "module_type list \<Rightarrow> json" where
  "modules_json ms = JArr (map (\<lambda>m. JStr (module_text m)) ms)"

definition reference_json :: "frozen_reference \<Rightarrow> json" where
  "reference_json r = JObj [(''module'', JStr (module_text (fr_module r))), (''moduleId'', JStr (fr_moduleId r)),
     (''snapshotId'', JStr (fr_snapshotId r)), (''snapshotHash'', JStr (fr_snapshotHash r)),
     (''snapshotRevision'', JNum (fr_snapshotRevision r)), (''approvalId'', JStr (fr_approvalId r)),
     (''approvalModuleRevision'', JNum (fr_approvalModuleRevision r))]"

definition confirm_fingerprint :: "env \<Rightarrow> confirm_command \<Rightarrow> delivery_error + string" where
  "confirm_fingerprint E c = delivery_digest E (JObj [(''packageId'', JStr (cc_packageId c)),
     (''organizationId'', JStr (cc_organizationId c)), (''jobId'', JStr (cc_jobId c)),
     (''commissionedModules'', modules_json (cc_commissionedModules c)),
     (''manifestHash'', JStr (dm_canonicalHash (cc_manifest c))),
     (''expectedPackageRevision'', JNum (cc_expectedPackageRevision c))])"

definition send_fingerprint :: "env \<Rightarrow> delivery_record \<Rightarrow> delivery_error + string" where
  "send_fingerprint E v = delivery_digest E (JObj [(''packageId'', JStr (dr_packageId v)),
     (''moduleSnapshots'', JArr (map reference_json (dr_moduleSnapshots v))),
     (''manifestHash'', JStr (dr_durabilityManifestHash v))])"

definition confirmed_state :: "string list \<Rightarrow> bool \<Rightarrow> delivery_state" where
  "confirmed_state blockers sendable = (if blockers \<noteq> [] then WaitingApproval else if sendable then DlQueued else WaitingEvidence)"

definition confirmed_package :: "confirm_command \<Rightarrow> delivery_state \<Rightarrow> frozen_reference list \<Rightarrow> delivery_record" where
  "confirmed_package c st references =
     \<lparr>dr_packageId = cc_packageId c, dr_organizationId = cc_organizationId c, dr_jobId = cc_jobId c,
      dr_commissionedModules = cc_commissionedModules c, dr_moduleSnapshots = (if st = DlQueued then references else []),
      dr_durabilityManifestId = dm_manifestId (cc_manifest c), dr_durabilityManifestHash = dm_canonicalHash (cc_manifest c),
      dr_revision = cc_expectedPackageRevision c + 1, dr_state = st, dr_idempotencyKey = cc_idempotencyKey c,
      dr_frozenAt = (if st = DlQueued then Some (cc_confirmedAt c) else None), dr_updatedAt = cc_confirmedAt c,
      dr_providerReference = None, dr_failureCode = None, dr_interventionRequired = False, dr_cancellationReason = None\<rparr>"

definition send_key :: "string \<Rightarrow> int \<Rightarrow> string" where
  "send_key packageId revision = ''send:'' @ packageId @ '':'' @ show_int revision"

definition enqueue_send :: "env \<Rightarrow> confirm_command \<Rightarrow> delivery_record \<Rightarrow> unit delivery_op" where
  "enqueue_send E c v =
     (if dr_state v = DlQueued then
        st_bind (st_lift (send_fingerprint E v)) (\<lambda>f.
        st_bind (enqueueOutbox E \<lparr>ob_outboxId = [], ob_packageId = dr_packageId v, ob_organizationId = dr_organizationId v,
          ob_jobId = dr_jobId v, ob_state = ObQueued, ob_idempotencyKey = send_key (dr_packageId v) (dr_revision v),
          ob_requestFingerprint = f, ob_createdAt = cc_confirmedAt c, ob_updatedAt = cc_confirmedAt c\<rparr>) (\<lambda>_. st_return ()))
      else st_return ())"

definition confirm_event :: "delivery_state \<Rightarrow> delivery_event_type" where
  "confirm_event st = (case st of DlQueued \<Rightarrow> EvPackageFrozen | WaitingApproval \<Rightarrow> EvWaitingApproval | _ \<Rightarrow> EvWaitingEvidence)"

definition confirm_key :: "confirm_command \<Rightarrow> string" where
  "confirm_key c = cc_organizationId c @ '':'' @ cc_idempotencyKey c"

definition same_scope :: "delivery_record \<Rightarrow> confirm_command \<Rightarrow> bool" where
  "same_scope x c \<longleftrightarrow> dr_organizationId x = cc_organizationId c \<and> dr_jobId x = cc_jobId c \<and> dr_commissionedModules x = cc_commissionedModules c"

definition record_confirmation ::
  "env \<Rightarrow> confirm_command \<Rightarrow> string \<Rightarrow> string list \<Rightarrow> delivery_record \<Rightarrow> confirm_result delivery_op" where
  "record_confirmation E c fingerprint blockers v =
     st_bind (writePackage v (cc_expectedPackageRevision c)) (\<lambda>_.
     st_bind (bindIdempotency (confirm_key c) fingerprint (cc_packageId c)) (\<lambda>_.
     st_bind (enqueue_send E c v) (\<lambda>_.
     st_bind (logEvent E v (confirm_event (dr_state v)) (dr_revision v) (cc_confirmedAt c)
       [(''state'', JStr (delivery_state_text (dr_state v))), (''moduleCount'', JNum (int (length (cc_commissionedModules c)))),
        (''blockerCount'', JNum (int (length blockers)))]) (\<lambda>_.
     st_return ((resultFor v False)\<lparr>cr_blockers :=
       (if dr_state v = WaitingEvidence then [''required_evidence_not_durable''] else blockers)\<rparr>)))))"

definition sendable_evidence :: "confirm_command \<Rightarrow> string list \<Rightarrow> bool" where
  "sendable_evidence c evidence \<longleftrightarrow> isManifestSendable (cc_manifest c) \<and> manifestCoversEvidence (cc_manifest c) evidence"

definition confirm_new :: "env \<Rightarrow> delivery_readers \<Rightarrow> confirm_command \<Rightarrow> string \<Rightarrow> confirm_result delivery_op" where
  "confirm_new E R c fingerprint =
     st_bind (st_lift (resolveExactApprovals R c)) (\<lambda>(references, blockers, evidence).
     st_bind (getPackage (cc_packageId c)) (\<lambda>existing.
     st_ensure (case existing of None \<Rightarrow> True | Some x \<Rightarrow> same_scope x c)
       (DeliveryConflict ''An existing package cannot change tenant, job, or commissioned module set'')
       (record_confirmation E c fingerprint blockers
         (confirmed_package c (confirmed_state blockers (sendable_evidence c evidence)) references))))"

definition confirm :: "env \<Rightarrow> delivery_readers \<Rightarrow> confirm_command \<Rightarrow> confirm_result delivery_op" where
  "confirm E R c =
     st_ensure (canonical_module_set (cc_commissionedModules c))
       (DeliveryGate ModuleSetInvalid ''Commissioned modules must be unique and in canonical order'') (
     st_ensure (dm_organizationId (cc_manifest c) = cc_organizationId c \<and> dm_jobId (cc_manifest c) = cc_jobId c)
       (DeliveryGate ManifestScopeMismatch ''Durability manifest does not belong to this organisation and job'') (
     st_bind (st_lift (verifyDurabilityManifest E (cc_manifest c))) (\<lambda>verified.
     st_ensure verified (DeliveryGate ManifestDivergence ''Durability manifest content does not match its canonical hash'') (
     st_bind (st_lift (confirm_fingerprint E c)) (\<lambda>fingerprint.
     transact (st_bind (getIdempotentPackage (confirm_key c) fingerprint) (\<lambda>replay. case replay of
         Some v \<Rightarrow> st_return (resultFor v True)
       | None \<Rightarrow> confirm_new E R c fingerprint)))))))"

end
