(* ===== verification/Delivery_Worker.thy ===== *)
theory Delivery_Worker
  imports Delivery
begin

text \<open>
  The delivery worker (\<open>packages/delivery/src/worker.ts\<close>) and the status table it reads.  \<open>send\<close> is cut at
  its awaits: each segment runs without interruption and says what it waits for, so that other
  operations can run in between.  The egress guard, the hooks and the provider are outside the package:
  what they answer is an argument of the segment that resumes.
\<close>

section \<open>The professional status\<close>

record professional_status =
  ps_jobCancelled :: bool
  ps_withdrawnModules :: "module_type list"

type_synonym status_table = "(string, professional_status) js_map"

definition status_set :: "string \<Rightarrow> string \<Rightarrow> professional_status \<Rightarrow> status_table \<Rightarrow> status_table" where
  "status_set org job v t = map_set (org @ '':'' @ job) v t"

definition readStatus :: "status_table \<Rightarrow> string \<Rightarrow> string \<Rightarrow> professional_status" where
  "readStatus t org job = (case map_of t (org @ '':'' @ job) of
     None \<Rightarrow> \<lparr>ps_jobCancelled = False, ps_withdrawnModules = []\<rparr> | Some v \<Rightarrow> v)"

definition isBlocked :: "delivery_record \<Rightarrow> professional_status \<Rightarrow> bool" where
  "isBlocked v st \<longleftrightarrow> ps_jobCancelled st \<or> list_ex (\<lambda>m. m \<in> set (ps_withdrawnModules st)) (dr_commissionedModules v)"

section \<open>Results of the provider\<close>

record provider_request =
  pq_packageId :: string
  pq_organizationId :: string
  pq_jobId :: string
  pq_idempotencyKey :: string
  pq_requestFingerprint :: string

datatype provider_result = PrAccepted string | PrSent string | PrFailed string bool | PrUnknown string

section \<open>Operations on a package\<close>

definition existing_package :: "string \<Rightarrow> delivery_record delivery_op" where
  "existing_package packageId = st_bind (getPackage packageId)
     (\<lambda>c. st_lift (of_option (DeliveryFault ''Delivery package does not exist'') c))"

datatype cancel_reason = JobCancelled | ModuleWithdrawnReason | DeliverySuspended

fun cancel_text :: "cancel_reason \<Rightarrow> string" where
  "cancel_text JobCancelled = ''job_cancelled''"
| "cancel_text ModuleWithdrawnReason = ''module_withdrawn''"
| "cancel_text DeliverySuspended = ''delivery_suspended''"

definition cancelPackage :: "env \<Rightarrow> string \<Rightarrow> cancel_reason \<Rightarrow> delivery_record delivery_op" where
  "cancelPackage E packageId reason = transact (
     st_bind (existing_package packageId) (\<lambda>current.
     st_ensure (dr_state current \<noteq> Sent)
       (DeliveryConflict ''A sent copy cannot be recalled; withdrawal must be represented by notice and audit history'') (
     if dr_state current = DlCancelled then st_return current else
     st_bind (readNow E) (\<lambda>at.
     st_bind (transition_package packageId [WaitingApproval, WaitingEvidence, DlQueued, Sending, ProviderAccepted, DlFailed, DlUnknown]
       DlCancelled at (\<lambda>v. v\<lparr>dr_cancellationReason := Some (cancel_text reason)\<rparr>)) (\<lambda>next_package.
     st_bind (getOutboxForPackage packageId) (\<lambda>outbox.
     st_bind (if outbox \<noteq> None then updateOutbox packageId ObCancelled at else st_return ()) (\<lambda>_.
     st_bind (logEvent E current EvCancelled (dr_revision next_package) at [(''reason'', JStr (cancel_text reason))]) (\<lambda>_.
     st_return next_package))))))))"

definition retry :: "env \<Rightarrow> string \<Rightarrow> delivery_record delivery_op" where
  "retry E packageId = transact (
     st_bind (existing_package packageId) (\<lambda>current.
     st_ensure (dr_state current = DlFailed \<and> \<not> dr_interventionRequired current)
       (DeliveryConflict ''Only a retryable failed delivery can be queued automatically'') (
     st_bind (readNow E) (\<lambda>at.
     st_bind (transition_package packageId [DlFailed] DlQueued at (\<lambda>v. v\<lparr>dr_failureCode := None\<rparr>)) (\<lambda>next_package.
     st_bind (updateOutbox packageId ObQueued at) (\<lambda>_. st_return next_package))))))"

definition markProviderSent :: "env \<Rightarrow> string \<Rightarrow> string \<Rightarrow> delivery_record delivery_op" where
  "markProviderSent E packageId providerReference = transact (
     st_bind (existing_package packageId) (\<lambda>current.
     st_bind (readNow E) (\<lambda>at.
     st_bind (transition_package packageId [ProviderAccepted, DlUnknown, DlCancelled] Sent at
       (\<lambda>v. v\<lparr>dr_providerReference := Some providerReference, dr_failureCode := None, dr_interventionRequired := False\<rparr>)) (\<lambda>next_package.
     st_bind (updateOutbox packageId ObCompleted at) (\<lambda>_.
     st_bind (logEvent E current EvSent (dr_revision next_package) at [(''providerReference'', JStr providerReference),
       (''observedAfterCancellation'', JBool (dr_state current = DlCancelled))]) (\<lambda>_.
     st_return next_package))))))"

text \<open>A transition from one state with its outbox update and its event, as the recording operations make it.\<close>

definition record_move ::
  "env \<Rightarrow> delivery_record \<Rightarrow> delivery_state \<Rightarrow> delivery_state \<Rightarrow> (delivery_record \<Rightarrow> delivery_record) \<Rightarrow> outbox_state option
     \<Rightarrow> delivery_event_type \<Rightarrow> delivery_error + (string \<times> json) list \<Rightarrow> delivery_record delivery_op" where
  "record_move E started old_state new_state changes outbox ty meta =
     st_bind (readNow E) (\<lambda>at.
     st_bind (transition_package (dr_packageId started) [old_state] new_state at changes) (\<lambda>next_package.
     st_bind (case outbox of None \<Rightarrow> st_return () | Some st \<Rightarrow> updateOutbox (dr_packageId started) st at) (\<lambda>_.
     st_bind (st_lift meta) (\<lambda>safe.
     st_bind (logEvent E started ty (dr_revision next_package) at safe) (\<lambda>_.
     st_return next_package)))))"

definition state_is :: "delivery_record option \<Rightarrow> delivery_state \<Rightarrow> bool" where
  "state_is c st \<longleftrightarrow> map_option dr_state c = Some st"

definition recordUnknown :: "env \<Rightarrow> delivery_record \<Rightarrow> string \<Rightarrow> delivery_record delivery_op" where
  "recordUnknown E started reconciliationKey = transact (
     st_bind (getPackage (dr_packageId started)) (\<lambda>current.
     if state_is current DlCancelled then st_return (the current) else
     record_move E started Sending DlUnknown (\<lambda>v. v\<lparr>dr_failureCode := Some ''provider_outcome_unknown''\<rparr>) None EvUnknown
       (bind_result (delivery_digest E (JStr reconciliationKey)) (\<lambda>h. Inr [(''reconciliationHash'', JStr h)]))))"

fun record_observed :: "env \<Rightarrow> delivery_record \<Rightarrow> provider_result \<Rightarrow> delivery_record delivery_op" where
  "record_observed E started (PrSent ref) =
     record_move E started Sending Sent (\<lambda>v. v\<lparr>dr_providerReference := Some ref\<rparr>) (Some ObCompleted) EvSent
       (Inr [(''providerReference'', JStr ref)])"
| "record_observed E started (PrAccepted ref) =
     record_move E started Sending ProviderAccepted (\<lambda>v. v\<lparr>dr_providerReference := Some ref\<rparr>) None EvProviderAccepted
       (Inr [(''providerReference'', JStr ref)])"
| "record_observed E started (PrFailed code retryable) =
     record_move E started Sending DlFailed (\<lambda>v. v\<lparr>dr_failureCode := Some code, dr_interventionRequired := \<not> retryable\<rparr>)
       (Some (if retryable then ObQueued else ObCompleted)) EvFailed
       (Inr [(''code'', JStr code), (''retryable'', JBool retryable), (''interventionRequired'', JBool (\<not> retryable))])"
| "record_observed E started (PrUnknown key) = recordUnknown E started key"

text \<open>A result that arrives after a cancellation: only an observed sent copy is recorded.\<close>

fun record_late :: "env \<Rightarrow> delivery_record \<Rightarrow> delivery_record \<Rightarrow> provider_result \<Rightarrow> delivery_record delivery_op" where
  "record_late E started current (PrSent ref) =
     record_move E started DlCancelled Sent (\<lambda>v. v\<lparr>dr_providerReference := Some ref\<rparr>) (Some ObCompleted) EvSent
       (Inr [(''providerReference'', JStr ref), (''observedAfterCancellation'', JBool True)])"
| "record_late E started current result = st_return current"

definition record_current :: "env \<Rightarrow> delivery_record \<Rightarrow> provider_result \<Rightarrow> delivery_record delivery_op" where
  "record_current E started result =
     st_bind (getPackage (dr_packageId started)) (\<lambda>current.
     if state_is current DlCancelled then record_late E started (the current) result else
     st_ensure (state_is current Sending) (DeliveryConflict ''Provider result is stale for the current delivery state'')
       (record_observed E started result))"

definition recordResult :: "env \<Rightarrow> delivery_record \<Rightarrow> provider_result \<Rightarrow> delivery_record delivery_op" where
  "recordResult E started result = (case result of
       PrUnknown key \<Rightarrow> recordUnknown E started key
     | _ \<Rightarrow> transact (record_current E started result))"

definition recordEgressBlocked :: "env \<Rightarrow> delivery_record \<Rightarrow> delivery_record delivery_op" where
  "recordEgressBlocked E started = transact (
     st_bind (getPackage (dr_packageId started)) (\<lambda>current.
     if state_is current DlCancelled then st_return (the current) else
     st_ensure (state_is current Sending) (DeliveryConflict ''Delivery changed while restore egress was being authorised'')
       (record_move E started Sending DlFailed
         (\<lambda>v. v\<lparr>dr_failureCode := Some ''restore_egress_blocked'', dr_interventionRequired := False\<rparr>) (Some ObQueued) EvFailed
         (Inr [(''code'', JStr ''restore_egress_blocked''), (''retryable'', JBool True), (''interventionRequired'', JBool False)]))))"

definition cancelBlocked :: "env \<Rightarrow> delivery_record \<Rightarrow> professional_status \<Rightarrow> delivery_record delivery_op" where
  "cancelBlocked E v st = cancelPackage E (dr_packageId v) (if ps_jobCancelled st then JobCancelled else ModuleWithdrawnReason)"

section \<open>Sending, from await to await\<close>

datatype send_progress =
    Finished "delivery_error + delivery_record"
  | AtHook delivery_record
  | AtEgress delivery_record
  | AtProvider delivery_record provider_request
  | AtAfterHook delivery_record provider_result

type_synonym send_segment = "delivery_repository \<Rightarrow> send_progress \<times> delivery_repository"

definition finish :: "delivery_record delivery_op \<Rightarrow> send_segment" where
  "finish work s = (let r = work s in (Finished (fst r), snd r))"

definition start_sending :: "env \<Rightarrow> string \<Rightarrow> delivery_record delivery_op" where
  "start_sending E packageId = transact (
     st_bind (existing_package packageId) (\<lambda>current.
     if dr_state current = DlCancelled then st_return current else
     st_ensure (dr_state current = DlQueued)
       (DeliveryConflict (''Only a queued package can start sending; current state is '' @ delivery_state_text (dr_state current))) (
     st_bind (readNow E) (\<lambda>at.
     st_bind (transition_package packageId [DlQueued] Sending at (\<lambda>v. v)) (\<lambda>next_package.
     st_bind (updateOutbox packageId ObProcessing at) (\<lambda>_.
     st_bind (logEvent E current EvSendStarted (dr_revision next_package) at [(''priorState'', JStr (delivery_state_text (dr_state current)))]) (\<lambda>_.
     st_return next_package)))))))"

definition send_start :: "env \<Rightarrow> status_table \<Rightarrow> string \<Rightarrow> send_segment" where
  "send_start E t packageId s = (case start_sending E packageId s of
       (Inl e, s') \<Rightarrow> (Finished (Inl e), s')
     | (Inr started, s') \<Rightarrow>
         (let st = readStatus t (dr_organizationId started) (dr_jobId started) in
          if dr_state started = DlCancelled then (Finished (Inr started), s')
          else if isBlocked started st then finish (cancelBlocked E started st) s'
          else (AtHook started, s')))"

text \<open>\<open>#revalidateSendability\<close>: \<open>None\<close> lets the sending go on.\<close>

definition revalidate :: "env \<Rightarrow> status_table \<Rightarrow> delivery_record \<Rightarrow> delivery_record option delivery_op" where
  "revalidate E t started =
     st_bind (getPackage (dr_packageId started)) (\<lambda>c.
     if state_is c DlCancelled then st_return c else
     st_ensure (state_is c Sending) (DeliveryConflict ''Package state changed immediately before provider delivery'') (
     let current = the c; st = readStatus t (dr_organizationId current) (dr_jobId current) in
     if isBlocked current st then st_bind (cancelBlocked E current st) (\<lambda>v. st_return (Some v)) else st_return None))"

definition unless_blocked :: "env \<Rightarrow> status_table \<Rightarrow> delivery_record \<Rightarrow> send_segment \<Rightarrow> send_segment" where
  "unless_blocked E t started go s = (case revalidate E t started s of
       (Inl e, s') \<Rightarrow> (Finished (Inl e), s')
     | (Inr (Some v), s') \<Rightarrow> (Finished (Inr v), s')
     | (Inr None, s') \<Rightarrow> go s')"

definition send_authorise :: "env \<Rightarrow> status_table \<Rightarrow> delivery_record \<Rightarrow> bool \<Rightarrow> send_segment" where
  "send_authorise E t started hook_returned s =
     (if hook_returned then unless_blocked E t started (\<lambda>s'. (AtEgress started, s')) s
      else (Finished (Inl (DeliveryFault ''beforeProviderCall'')), s))"

definition send_request :: "delivery_record \<Rightarrow> outbox_record \<Rightarrow> provider_request" where
  "send_request started ob = \<lparr>pq_packageId = dr_packageId started, pq_organizationId = dr_organizationId started,
     pq_jobId = dr_jobId started, pq_idempotencyKey = ob_idempotencyKey ob, pq_requestFingerprint = ob_requestFingerprint ob\<rparr>"

definition send_dispatch :: "env \<Rightarrow> status_table \<Rightarrow> delivery_record \<Rightarrow> bool \<Rightarrow> send_segment" where
  "send_dispatch E t started egress_allowed s =
     (if \<not> egress_allowed then finish (recordEgressBlocked E started) s
      else case outbox_of s (dr_packageId started) of
          None \<Rightarrow> (Finished (Inl (DeliveryFault ''Delivery outbox record is missing'')), s)
        | Some ob \<Rightarrow> unless_blocked E t started (\<lambda>s'. (AtProvider started (send_request started ob), s')) s)"

definition send_lost :: "env \<Rightarrow> delivery_record \<Rightarrow> send_segment" where
  "send_lost E started = finish (recordUnknown E started ''provider_result_not_durably_recorded'')"

definition send_result :: "env \<Rightarrow> delivery_record \<Rightarrow> provider_result option \<Rightarrow> send_segment" where
  "send_result E started answer = (case answer of None \<Rightarrow> send_lost E started | Some r \<Rightarrow> (\<lambda>s. (AtAfterHook started r, s)))"

definition send_record :: "env \<Rightarrow> delivery_record \<Rightarrow> provider_result \<Rightarrow> bool \<Rightarrow> send_segment" where
  "send_record E started r hook_returned = (if hook_returned then finish (recordResult E started r) else send_lost E started)"

text \<open>What an await is answered with, and the segment that follows.\<close>

datatype send_answer = Hook bool | Egress bool | Provider "provider_result option"

fun resume_send :: "env \<Rightarrow> status_table \<Rightarrow> send_progress \<Rightarrow> send_answer \<Rightarrow> send_segment" where
  "resume_send E t (AtHook v) (Hook ok) = send_authorise E t v ok"
| "resume_send E t (AtEgress v) (Egress ok) = send_dispatch E t v ok"
| "resume_send E t (AtProvider v q) (Provider a) = send_result E v a"
| "resume_send E t (AtAfterHook v r) (Hook ok) = send_record E v r ok"
| "resume_send E t p a = (\<lambda>s. (p, s))"

end
