(* ===== verification/Delivery_Invariants.thy ===== *)
theory Delivery_Invariants
  imports Delivery_Worker
begin

text \<open>
  What the operations of guarded delivery do to the repository.  A transaction that throws gives the
  repository back; one that succeeds in the worker moves one package along the lifecycle and touches at
  most its outbox record; a confirmation writes one package and inserts at most one outbox record.
\<close>

section \<open>Transactions\<close>

lemma transact_Inr [simp]: "transact m s = (Inr x, t) \<longleftrightarrow> m s = (Inr x, t)"
  by (cases "m s"; cases "fst (m s)") (auto simp: transact_def Let_def)

lemma transact_Inl: "transact m s = (Inl e, t) \<longleftrightarrow> (\<exists>u. m s = (Inl e, u) \<and> t = restore s u)"
  by (cases "m s"; cases "fst (m s)") (auto simp: transact_def Let_def)

text \<open>Every operation only adds events, identifiers and clock readings.\<close>

definition grows :: "delivery_repository \<Rightarrow> delivery_repository \<Rightarrow> bool" where
  "grows s t \<longleftrightarrow> (\<exists>es. rp_events t = rp_events s @ es) \<and> rp_ids s \<le> rp_ids t \<and> rp_clock s \<le> rp_clock t"

definition op_grows :: "'r delivery_op \<Rightarrow> bool" where
  "op_grows m \<longleftrightarrow> (\<forall>s. grows s (snd (m s)))"

named_theorems growing

lemma repository_grows_trans: "grows s t \<Longrightarrow> grows t u \<Longrightarrow> grows s u"
  by (auto simp: grows_def)

lemma op_grows_bind [growing]: "op_grows m \<Longrightarrow> (\<And>x. op_grows (f x)) \<Longrightarrow> op_grows (st_bind m f)"
  unfolding op_grows_def st_bind_def Let_def by (auto split: sum.split intro: repository_grows_trans)

lemma op_grows_ensure [growing]: "op_grows m \<Longrightarrow> op_grows (st_ensure ok e m)"
  by (auto simp: op_grows_def st_ensure_def grows_def)

lemma op_grows_simple [growing]: "op_grows (st_return x)" "op_grows (st_throw e)" "op_grows (st_lift r)" "op_grows (getPackage k)"
  "op_grows (getOutboxForPackage k)" "op_grows (setPackage v)" "op_grows (setOutbox ob)" "op_grows (newId E)" "op_grows (readNow E)"
  "op_grows (getIdempotentPackage key f)" "op_grows (bindIdempotency key f k)"
  by (simp_all add: op_grows_def grows_def st_return_def st_throw_def st_lift_def getPackage_def getOutboxForPackage_def
      setPackage_def setOutbox_def newId_def readNow_def getIdempotentPackage_def bindIdempotency_def)

lemma op_grows_if [growing]: "op_grows m \<Longrightarrow> op_grows m' \<Longrightarrow> op_grows (if c then m else m')"
  by simp

lemma op_grows_option [growing]: "op_grows m \<Longrightarrow> (\<And>x. op_grows (f x)) \<Longrightarrow> op_grows (case v of None \<Rightarrow> m | Some x \<Rightarrow> f x)"
  by (cases v) simp_all

lemma op_grows_prod [growing]: "(\<And>x y. op_grows (f x y)) \<Longrightarrow> op_grows (case p of (x, y) \<Rightarrow> f x y)"
  by (cases p) simp

lemma op_grows_transact [growing]: "op_grows m \<Longrightarrow> op_grows (transact m)"
  unfolding op_grows_def
proof
  fix s
  assume "\<forall>s. grows s (snd (m s))"
  then obtain es where "rp_events (snd (m s)) = rp_events s @ es" "rp_ids s \<le> rp_ids (snd (m s))" "rp_clock s \<le> rp_clock (snd (m s))"
    unfolding grows_def by blast
  then show "grows s (snd (transact m s))"
    by (simp add: transact_def Let_def grows_def restore_def split: sum.split)
qed

lemma op_grows_logEvent [growing]: "op_grows (logEvent E v ty n at meta)"
  unfolding logEvent_def by (intro growing) (simp add: op_grows_def grows_def)

lemma op_grows_writes [growing]: "op_grows (writePackage v n)" "op_grows (enqueueOutbox E ob)" "op_grows (updateOutbox k st at)"
  "op_grows (transition_package k allowed st2 at changes)" "op_grows (existing_package k)"
  unfolding writePackage_def enqueueOutbox_def updateOutbox_def transition_package_def existing_package_def Let_def
  by (intro growing)+

lemma op_grows_record_move [growing]: "op_grows (record_move E v st st' f ob ty meta)"
  unfolding record_move_def by (intro growing)

lemma op_grows_enqueue_send [growing]: "op_grows (enqueue_send E c v)"
  unfolding enqueue_send_def by (intro growing)

lemma op_grows_record_confirmation [growing]: "op_grows (record_confirmation E c f bs v)"
  unfolding record_confirmation_def by (intro growing)

lemma op_grows_confirm_new [growing]: "op_grows (confirm_new E R c f)"
  unfolding confirm_new_def by (intro growing)

definition same_data :: "delivery_repository \<Rightarrow> delivery_repository \<Rightarrow> bool" where
  "same_data s t \<longleftrightarrow> (\<exists>i n. t = s\<lparr>rp_ids := i, rp_clock := n\<rparr> \<and> rp_ids s \<le> i \<and> rp_clock s \<le> n)"

lemma same_data_refl [simp]: "same_data s s"
  unfolding same_data_def by (intro exI[of _ "rp_ids s"] exI[of _ "rp_clock s"]) simp

lemma transact_undone:
  assumes "op_grows m" and "transact m s = (Inl e, t)"
  shows "same_data s t"
proof -
  from assms(2) obtain u where u: "m s = (Inl e, u)" "t = restore s u" by (auto simp: transact_Inl)
  from assms(1) u(1) have "grows s u" unfolding op_grows_def by (metis snd_conv)
  then obtain es where "rp_events u = rp_events s @ es" "rp_ids s \<le> rp_ids u" "rp_clock s \<le> rp_clock u" by (auto simp: grows_def)
  then show ?thesis unfolding same_data_def u(2) restore_def
    by (intro exI[of _ "rp_ids u"] exI[of _ "rp_clock u"]) (cases s; cases u; simp)
qed

lemma op_grows_recordings [growing]: "op_grows (recordUnknown E v key)" "op_grows (recordEgressBlocked E v)"
  "op_grows (cancelPackage E k reason)" "op_grows (start_sending E k)"
  unfolding recordUnknown_def recordEgressBlocked_def cancelPackage_def start_sending_def by (intro growing)+

lemma op_grows_record_observed [growing]: "op_grows (record_observed E v r)"
  by (cases r) (simp_all add: growing)

section \<open>What a successful step of the worker does\<close>

text \<open>The lifecycle of a package under the worker.\<close>

fun worker_move :: "delivery_state \<Rightarrow> delivery_state \<Rightarrow> bool" where
  "worker_move DlQueued Sending = True"
| "worker_move Sending ProviderAccepted = True"
| "worker_move Sending DlFailed = True"
| "worker_move Sending DlUnknown = True"
| "worker_move DlFailed DlQueued = True"
| "worker_move st Sent = (st \<in> {Sending, ProviderAccepted, DlUnknown, DlCancelled})"
| "worker_move st DlCancelled = (st \<notin> {Sent, DlCancelled})"
| "worker_move st st' = False"

definition frozen_content :: "delivery_record \<Rightarrow> (string \<times> string \<times> string \<times> module_type list \<times> frozen_reference list)
    \<times> string \<times> string \<times> string \<times> string option" where
  "frozen_content v = ((dr_packageId v, dr_organizationId v, dr_jobId v, dr_commissionedModules v, dr_moduleSnapshots v),
     dr_durabilityManifestId v, dr_durabilityManifestHash v, dr_idempotencyKey v, dr_frozenAt v)"

definition package_moved :: "delivery_record \<Rightarrow> delivery_record \<Rightarrow> bool" where
  "package_moved v v' \<longleftrightarrow> worker_move (dr_state v) (dr_state v') \<and> dr_revision v' = dr_revision v + 1
     \<and> frozen_content v' = frozen_content v"

definition outbox_touched :: "string \<Rightarrow> delivery_repository \<Rightarrow> delivery_repository \<Rightarrow> bool" where
  "outbox_touched k s t \<longleftrightarrow> rp_outbox t = rp_outbox s \<or> (\<exists>ob st at. outbox_of s k = Some ob
     \<and> rp_outbox t = map_set (ob_outboxId ob) (ob\<lparr>ob_state := st, ob_updatedAt := at\<rparr>) (rp_outbox s))"

definition worker_change :: "delivery_repository \<Rightarrow> delivery_repository \<Rightarrow> bool" where
  "worker_change s t \<longleftrightarrow> same_data s t \<or> (\<exists>k v v'. map_of (rp_packages s) k = Some v \<and> package_moved v v'
     \<and> rp_packages t = map_set (dr_packageId v') v' (rp_packages s) \<and> outbox_touched k s t
     \<and> rp_idempotency t = rp_idempotency s \<and> grows s t)"

text \<open>The same change with its edge: it moves the package at \<open>k\<close>, and only as \<open>M\<close> allows from the record it had.\<close>

definition worker_change_by ::
  "string \<Rightarrow> (delivery_record \<Rightarrow> delivery_state \<Rightarrow> bool) \<Rightarrow> delivery_repository \<Rightarrow> delivery_repository \<Rightarrow> bool" where
  "worker_change_by k M s t \<longleftrightarrow> same_data s t \<or> (\<exists>v v'. map_of (rp_packages s) k = Some v \<and> M v (dr_state v') \<and> package_moved v v'
     \<and> rp_packages t = map_set (dr_packageId v') v' (rp_packages s) \<and> outbox_touched k s t
     \<and> rp_idempotency t = rp_idempotency s \<and> grows s t)"

lemma worker_change_by_change: "worker_change_by k M s t \<Longrightarrow> worker_change s t"
  unfolding worker_change_by_def worker_change_def by blast

lemma worker_change_by_mono:
  "worker_change_by k M s t \<Longrightarrow> (\<And>v st. M v st \<Longrightarrow> M' v st) \<Longrightarrow> worker_change_by k M' s t"
  unfolding worker_change_by_def by blast

text \<open>The edges of the single operations.\<close>

definition from_to :: "delivery_state \<Rightarrow> delivery_state \<Rightarrow> delivery_record \<Rightarrow> delivery_state \<Rightarrow> bool" where
  "from_to old new v st \<longleftrightarrow> dr_state v = old \<and> st = new"

definition cancel_edge :: "delivery_record \<Rightarrow> delivery_state \<Rightarrow> bool" where
  "cancel_edge v st \<longleftrightarrow> dr_state v \<notin> {Sent, DlCancelled} \<and> st = DlCancelled"

definition retry_edge :: "delivery_record \<Rightarrow> delivery_state \<Rightarrow> bool" where
  "retry_edge v st \<longleftrightarrow> dr_state v = DlFailed \<and> \<not> dr_interventionRequired v \<and> st = DlQueued"

definition observed_edge :: "delivery_record \<Rightarrow> delivery_state \<Rightarrow> bool" where
  "observed_edge v st \<longleftrightarrow> dr_state v \<in> {ProviderAccepted, DlUnknown, DlCancelled} \<and> st = Sent"

fun result_state :: "provider_result \<Rightarrow> delivery_state" where
  "result_state (PrAccepted ref) = ProviderAccepted"
| "result_state (PrSent ref) = Sent"
| "result_state (PrFailed code retryable) = DlFailed"
| "result_state (PrUnknown key) = DlUnknown"

definition result_edge :: "provider_result \<Rightarrow> delivery_record \<Rightarrow> delivery_state \<Rightarrow> bool" where
  "result_edge r v st \<longleftrightarrow> from_to Sending (result_state r) v st \<or> (result_state r = Sent \<and> from_to DlCancelled Sent v st)"

lemmas edges = from_to_def cancel_edge_def retry_edge_def observed_edge_def result_edge_def

named_theorems ran

lemma getPackage_Inr [ran]: "getPackage k s = (Inr v, t) \<longleftrightarrow> v = map_of (rp_packages s) k \<and> t = s"
  by (auto simp: getPackage_def)

lemma existing_package_Inr [ran]: "existing_package k s = (Inr v, t) \<longleftrightarrow> map_of (rp_packages s) k = Some v \<and> t = s"
  by (auto simp: existing_package_def getPackage_Inr of_option_def split: option.splits)

lemma readNow_Inr [ran]: "readNow E s = (Inr at, t) \<longleftrightarrow> at = to_iso (clock E (rp_clock s)) \<and> t = s\<lparr>rp_clock := Suc (rp_clock s)\<rparr>"
  by (auto simp: readNow_def)

lemma newId_Inr [ran]: "newId E s = (Inr i, t) \<longleftrightarrow> i = random E (rp_ids s) \<and> t = s\<lparr>rp_ids := Suc (rp_ids s)\<rparr>"
  by (auto simp: newId_def)

lemma getOutbox_Inr [ran]: "getOutboxForPackage k s = (Inr v, t) \<longleftrightarrow> v = outbox_of s k \<and> t = s"
  by (auto simp: getOutboxForPackage_def)

lemma setPackage_Inr [ran]: "setPackage v s = (Inr u, t) \<longleftrightarrow> t = s\<lparr>rp_packages := map_set (dr_packageId v) v (rp_packages s)\<rparr>"
  by (auto simp: setPackage_def)

lemma setOutbox_Inr [ran]: "setOutbox v s = (Inr u, t) \<longleftrightarrow> t = s\<lparr>rp_outbox := map_set (ob_outboxId v) v (rp_outbox s)\<rparr>"
  by (auto simp: setOutbox_def)

lemma bindIdempotency_Inr [ran]:
  "bindIdempotency key f k s = (Inr u, t) \<longleftrightarrow> t = s\<lparr>rp_idempotency := map_set key (f, k) (rp_idempotency s)\<rparr>"
  by (auto simp: bindIdempotency_def)

lemma logEvent_Inr [ran]: "logEvent E v ty n at meta s = (Inr u, t) \<longleftrightarrow> t = s\<lparr>rp_ids := Suc (rp_ids s),
    rp_events := rp_events s @ [\<lparr>dx_eventId = random E (rp_ids s), dx_packageId = dr_packageId v,
      dx_organizationId = dr_organizationId v, dx_jobId = dr_jobId v, dx_type = ty, dx_packageRevision = n,
      dx_recordedAt = at, dx_safeMetadata = meta\<rparr>]\<rparr>"
  by (auto simp: logEvent_def newId_Inr)

lemma transition_Inr [ran]: "transition_package k allowed st at changes s = (Inr v', t) \<longleftrightarrow> (\<exists>v. map_of (rp_packages s) k = Some v
    \<and> dr_state v \<in> set allowed \<and> v' = (changes v)\<lparr>dr_state := st, dr_revision := dr_revision v + 1, dr_updatedAt := at\<rparr>
    \<and> t = s\<lparr>rp_packages := map_set (dr_packageId v') v' (rp_packages s)\<rparr>)"
  by (auto simp: transition_package_def ran Let_def split: option.splits)

lemma updateOutbox_Inr [ran]: "updateOutbox k st at s = (Inr u, t) \<longleftrightarrow> (\<exists>ob. outbox_of s k = Some ob
    \<and> t = s\<lparr>rp_outbox := map_set (ob_outboxId ob) (ob\<lparr>ob_state := st, ob_updatedAt := at\<rparr>) (rp_outbox s)\<rparr>)"
  by (auto simp: updateOutbox_def ran split: option.splits)

lemma outbox_of_update [simp]: "outbox_of (s\<lparr>rp_packages := p\<rparr>) k = outbox_of s k" "outbox_of (s\<lparr>rp_clock := n\<rparr>) k = outbox_of s k"
  "outbox_of (s\<lparr>rp_ids := n\<rparr>) k = outbox_of s k" "outbox_of (s\<lparr>rp_idempotency := x\<rparr>) k = outbox_of s k"
  "outbox_of (s\<lparr>rp_events := es\<rparr>) k = outbox_of s k"
  by (simp_all add: outbox_of_def)

lemma worker_changeI:
  assumes "map_of (rp_packages s) k = Some v" and "M v (dr_state v')" and "package_moved v v'" and "rp_packages t = map_set (dr_packageId v') v' (rp_packages s)"
    and "outbox_touched k s t" and "rp_idempotency t = rp_idempotency s" and "grows s t"
  shows "worker_change_by k M s t"
  using assms unfolding worker_change_by_def by blast


lemma op_grows_run: "op_grows m \<Longrightarrow> m s = (r, t) \<Longrightarrow> grows s t"
  unfolding op_grows_def by (metis snd_conv)

text \<open>The moves of the recording operations: one transition, perhaps an outbox update, one event.\<close>

definition keeps_content :: "(delivery_record \<Rightarrow> delivery_record) \<Rightarrow> bool" where
  "keeps_content f \<longleftrightarrow> (\<forall>v. frozen_content (f v) = frozen_content v)"

lemma package_movedI:
  assumes "keeps_content f" and "worker_move (dr_state v) st"
  shows "package_moved v ((f v)\<lparr>dr_state := st, dr_revision := dr_revision v + 1, dr_updatedAt := at\<rparr>)"
  using assms by (simp add: package_moved_def keeps_content_def frozen_content_def)

lemma moved_change:
  assumes "transition_package k allowed st at f s0 = (Inr v', s1)" and "keeps_content f"
    and "\<And>v. map_of (rp_packages s) k = Some v \<Longrightarrow> dr_state v \<in> set allowed \<Longrightarrow> worker_move (dr_state v) st \<and> M v st"
    and "rp_packages s0 = rp_packages s" and "rp_packages t = rp_packages s1" and "outbox_touched k s t"
    and "rp_idempotency t = rp_idempotency s" and "grows s t"
  shows "worker_change_by k M s t"
proof -
  from assms(1) obtain v where v: "map_of (rp_packages s) k = Some v" "dr_state v \<in> set allowed"
    and v': "v' = (f v)\<lparr>dr_state := st, dr_revision := dr_revision v + 1, dr_updatedAt := at\<rparr>"
    and s1: "rp_packages s1 = map_set (dr_packageId v') v' (rp_packages s)" using assms(4) by (auto simp: ran)
  have "package_moved v v'" unfolding v' using package_movedI[OF assms(2)] assms(3)[OF v] by blast
  moreover have "M v (dr_state v')" using assms(3)[OF v] by (simp add: v')
  ultimately show ?thesis using worker_changeI[of s k v M v' t, OF v(1) _ _ _ assms(6-8)] assms(5) s1 by simp
qed

lemma updateOutbox_touched:
  assumes "updateOutbox k st at s1 = (Inr u, s2)" and "rp_outbox s1 = rp_outbox s"
  shows "outbox_touched k s s2" "rp_packages s2 = rp_packages s1" "rp_idempotency s2 = rp_idempotency s1"
proof -
  from assms obtain ob where "outbox_of s k = Some ob"
    and s2: "s2 = s1\<lparr>rp_outbox := map_set (ob_outboxId ob) (ob\<lparr>ob_state := st, ob_updatedAt := at\<rparr>) (rp_outbox s)\<rparr>"
    by (auto simp: ran outbox_of_def)
  then show "outbox_touched k s s2" unfolding outbox_touched_def
    by (intro disjI2 exI[of _ ob] exI[of _ st] exI[of _ at]) simp
  show "rp_packages s2 = rp_packages s1" "rp_idempotency s2 = rp_idempotency s1" by (simp_all add: s2)
qed

lemma untouched: "rp_outbox t = rp_outbox s \<Longrightarrow> outbox_touched k s t"
  by (simp add: outbox_touched_def)

lemma chain_change:
  assumes "readNow E s = (Inr at, s0)" and "transition_package k allowed st at f s0 = (Inr v', s1)" and "keeps_content f"
    and "\<And>v. map_of (rp_packages s) k = Some v \<Longrightarrow> dr_state v \<in> set allowed \<Longrightarrow> worker_move (dr_state v) st \<and> M v st"
    and "outbox_touched k s s2" and "rp_packages s2 = rp_packages s1" and "rp_idempotency s2 = rp_idempotency s1"
    and "t = s2 \<or> (\<exists>v ty n meta. logEvent E v ty n at meta s2 = (Inr (), t))" and "grows s t"
  shows "worker_change_by k M s t"
proof -
  have s: "rp_packages s0 = rp_packages s" "rp_idempotency s1 = rp_idempotency s" using assms(1,2) by (auto simp: ran)
  have "rp_outbox t = rp_outbox s2" "rp_packages t = rp_packages s2" "rp_idempotency t = rp_idempotency s2"
    using assms(8) by (auto simp: ran)
  then have t: "rp_packages t = rp_packages s1" "rp_idempotency t = rp_idempotency s" "outbox_touched k s t"
    using assms(5-7) s(2) by (simp_all add: outbox_touched_def)
  show ?thesis by (rule moved_change[OF assms(2,3) _ s(1) t(1,3,2) assms(9)]) (rule assms(4))
qed

lemma outbox_after:
  assumes "readNow E s = (Inr at, s0)" and "transition_package k allowed st at f s0 = (Inr v', s1)"
  shows "rp_outbox s1 = rp_outbox s" "outbox_touched k s s1" "outbox_of s1 k' = outbox_of s k'"
  using assms by (auto simp: ran outbox_touched_def outbox_of_def)

lemma record_move_change:
  assumes "record_move E started old st f ob ty meta s = (Inr v, t)" and "keeps_content f" and "worker_move old st"
  shows "worker_change_by (dr_packageId started) (from_to old st) s t"
proof -
  have g: "grows s t" by (rule op_grows_run[OF op_grows_record_move assms(1)])
  from assms(1) obtain at v' s0 s1 s2 u safe where
    r: "readNow E s = (Inr at, s0)" and tr: "transition_package (dr_packageId started) [old] st at f s0 = (Inr v', s1)"
    and o2: "(case ob of None \<Rightarrow> st_return () | Some st \<Rightarrow> updateOutbox (dr_packageId started) st at) s1 = (Inr u, s2)"
    and l: "logEvent E started ty (dr_revision v') at safe s2 = (Inr (), t)"
    unfolding record_move_def by auto
  note o1 = outbox_after[OF r tr]
  have o3: "outbox_touched (dr_packageId started) s s2" "rp_packages s2 = rp_packages s1" "rp_idempotency s2 = rp_idempotency s1"
    using o2 o1 updateOutbox_touched[of "dr_packageId started" _ at s1 u s2 s] by (auto split: option.splits)
  show ?thesis by (rule chain_change[OF r tr assms(2) _ o3]) (use assms(3) l g in \<open>auto simp: from_to_def\<close>)
qed

text \<open>Each operation of the worker, when it succeeds.\<close>

lemma same_data_clock: "same_data s (s\<lparr>rp_clock := Suc (rp_clock s)\<rparr>)"
  unfolding same_data_def by (intro exI[of _ "rp_ids s"] exI[of _ "Suc (rp_clock s)"]) simp

lemma worker_change_refl [simp]: "worker_change_by k M s s"
  by (simp add: worker_change_by_def)

lemma keeps_contents: "keeps_content (\<lambda>v. v)" "keeps_content (\<lambda>v. v\<lparr>dr_providerReference := x\<rparr>)" "keeps_content (\<lambda>v. v\<lparr>dr_failureCode := x\<rparr>)"
  "keeps_content (\<lambda>v. v\<lparr>dr_cancellationReason := x\<rparr>)" "keeps_content (\<lambda>v. v\<lparr>dr_failureCode := x, dr_interventionRequired := b\<rparr>)"
  "keeps_content (\<lambda>v. v\<lparr>dr_providerReference := y, dr_failureCode := x, dr_interventionRequired := b\<rparr>)"
  by (simp_all add: keeps_content_def frozen_content_def)


lemma package_of_moved: "package_moved v v' \<Longrightarrow> dr_packageId v' = dr_packageId v"
  by (simp add: package_moved_def frozen_content_def)

lemma recordUnknown_change:
  "recordUnknown E started key s = (Inr v, t) \<Longrightarrow> worker_change_by (dr_packageId started) (from_to Sending DlUnknown) s t"
  unfolding recordUnknown_def
  by (auto simp: ran keeps_contents split: if_splits elim!: record_move_change)

lemma record_observed_change:
  "record_observed E started r s = (Inr v, t) \<Longrightarrow> worker_change_by (dr_packageId started) (from_to Sending (result_state r)) s t"
  by (cases r) (auto simp: keeps_contents recordUnknown_change elim!: record_move_change)

lemma record_late_change:
  assumes "record_late E started c r s = (Inr v, t)"
  shows "worker_change_by (dr_packageId started) (result_edge r) s t"
proof (cases r)
  case (PrSent ref)
  with assms have "worker_change_by (dr_packageId started) (from_to DlCancelled Sent) s t"
    by (auto simp: keeps_contents elim!: record_move_change)
  then show ?thesis by (rule worker_change_by_mono) (simp add: PrSent result_edge_def)
qed (use assms in auto)

lemma record_current_change:
  assumes "record_current E started r s = (Inr v, t)"
  shows "worker_change_by (dr_packageId started) (result_edge r) s t"
proof -
  from assms have "record_late E started (the (map_of (rp_packages s) (dr_packageId started))) r s = (Inr v, t)
      \<or> record_observed E started r s = (Inr v, t)"
    by (auto simp: record_current_def ran split: if_splits simp del: record_late.simps record_observed.simps)
  then show ?thesis
  proof
    assume "record_observed E started r s = (Inr v, t)"
    from record_observed_change[OF this] show ?thesis by (rule worker_change_by_mono) (simp add: result_edge_def)
  qed (rule record_late_change)
qed

lemma recordResult_change:
  assumes "recordResult E started r s = (Inr v, t)"
  shows "worker_change_by (dr_packageId started) (result_edge r) s t"
proof (cases r)
  case (PrUnknown key)
  with assms have "recordUnknown E started key s = (Inr v, t)" by (simp add: recordResult_def)
  from recordUnknown_change[OF this] show ?thesis by (rule worker_change_by_mono) (simp add: PrUnknown result_edge_def)
qed (use assms in \<open>simp_all add: recordResult_def record_current_change\<close>)

lemma recordEgressBlocked_change:
  "recordEgressBlocked E started s = (Inr v, t) \<Longrightarrow> worker_change_by (dr_packageId started) (from_to Sending DlFailed) s t"
  unfolding recordEgressBlocked_def
  by (auto simp: ran keeps_contents split: if_splits elim!: record_move_change)

lemma start_sending_change:
  assumes "start_sending E k s = (Inr v, t)"
  shows "worker_change_by k (from_to DlQueued Sending) s t"
proof -
  obtain c where c: "map_of (rp_packages s) k = Some c" using assms by (auto simp: start_sending_def ran)
  show ?thesis
  proof (cases "dr_state c = DlCancelled")
    case True
    then show ?thesis using assms c by (auto simp: start_sending_def ran)
  next
    case False
    have g: "grows s t" by (rule op_grows_run[OF op_grows_recordings(4) assms])
    from assms c False obtain at s0 s1 s2 where r: "readNow E s = (Inr at, s0)"
      and tr: "transition_package k [DlQueued] Sending at (\<lambda>v. v) s0 = (Inr v, s1)"
      and ob: "updateOutbox k ObProcessing at s1 = (Inr (), s2)"
      and l: "logEvent E c EvSendStarted (dr_revision v) at [(''priorState'', JStr (delivery_state_text (dr_state c)))] s2 = (Inr (), t)"
      unfolding start_sending_def by (auto simp: existing_package_Inr)
    note o2 = updateOutbox_touched[OF ob outbox_after(1)[OF r tr]]
    show ?thesis by (rule chain_change[OF r tr keeps_contents(1) _ o2]) (use l g in \<open>auto simp: edges\<close>)
  qed
qed

lemma cancelPackage_change:
  assumes "cancelPackage E k reason s = (Inr v, t)"
  shows "worker_change_by k cancel_edge s t"
proof -
  obtain c where c: "map_of (rp_packages s) k = Some c" using assms by (auto simp: cancelPackage_def ran)
  show ?thesis
  proof (cases "dr_state c = DlCancelled")
    case True
    then show ?thesis using assms c by (auto simp: cancelPackage_def ran)
  next
    case False
    have g: "grows s t" by (rule op_grows_run[OF op_grows_recordings(3) assms])
    from assms c False obtain at s0 s1 s2 where r: "readNow E s = (Inr at, s0)"
      and tr: "transition_package k [WaitingApproval, WaitingEvidence, DlQueued, Sending, ProviderAccepted, DlFailed, DlUnknown]
         DlCancelled at (\<lambda>v. v\<lparr>dr_cancellationReason := Some (cancel_text reason)\<rparr>) s0 = (Inr v, s1)"
      and ob: "(if outbox_of s1 k \<noteq> None then updateOutbox k ObCancelled at else st_return ()) s1 = (Inr (), s2)"
      and l: "logEvent E c EvCancelled (dr_revision v) at [(''reason'', JStr (cancel_text reason))] s2 = (Inr (), t)"
      unfolding cancelPackage_def by (auto simp: existing_package_Inr getOutbox_Inr)
    have o2: "outbox_touched k s s2" "rp_packages s2 = rp_packages s1" "rp_idempotency s2 = rp_idempotency s1"
      using ob updateOutbox_touched[of k ObCancelled at s1 "()" s2 s] outbox_after[OF r tr] by (auto split: if_splits)
    show ?thesis by (rule chain_change[OF r tr keeps_contents(4) _ o2]) (use l g in \<open>auto simp: edges\<close>)
  qed
qed

lemma op_grows_commands [growing]: "op_grows (retry E k)" "op_grows (markProviderSent E k ref)"
  unfolding retry_def markProviderSent_def by (intro growing)+

lemma retry_change:
  assumes "retry E k s = (Inr v, t)"
  shows "worker_change_by k retry_edge s t"
proof -
  have g: "grows s t" by (rule op_grows_run[OF op_grows_commands(1) assms])
  from assms obtain x at s0 s1 where c: "map_of (rp_packages s) k = Some x" "\<not> dr_interventionRequired x"
    and r: "readNow E s = (Inr at, s0)"
    and tr: "transition_package k [DlFailed] DlQueued at (\<lambda>v. v\<lparr>dr_failureCode := None\<rparr>) s0 = (Inr v, s1)"
    and ob: "updateOutbox k ObQueued at s1 = (Inr (), t)"
    unfolding retry_def by (auto simp: existing_package_Inr)
  note o2 = updateOutbox_touched[OF ob outbox_after(1)[OF r tr]]
  show ?thesis by (rule chain_change[OF r tr keeps_contents(3) _ o2]) (use g c in \<open>auto simp: edges\<close>)
qed

lemma markProviderSent_change:
  assumes "markProviderSent E k ref s = (Inr v, t)"
  shows "worker_change_by k observed_edge s t"
proof -
  have g: "grows s t" by (rule op_grows_run[OF op_grows_commands(2) assms])
  from assms obtain c at s0 s1 s2 meta where r: "readNow E s = (Inr at, s0)"
    and tr: "transition_package k [ProviderAccepted, DlUnknown, DlCancelled] Sent at (\<lambda>v. v\<lparr>dr_providerReference := Some ref,
       dr_failureCode := None, dr_interventionRequired := False\<rparr>) s0 = (Inr v, s1)"
    and ob: "updateOutbox k ObCompleted at s1 = (Inr (), s2)"
    and l: "logEvent E c EvSent (dr_revision v) at meta s2 = (Inr (), t)"
    unfolding markProviderSent_def by (auto simp: existing_package_Inr)
  note o2 = updateOutbox_touched[OF ob outbox_after(1)[OF r tr]]
  show ?thesis by (rule chain_change[OF r tr keeps_contents(6) _ o2]) (use l g in \<open>auto simp: edges\<close>)
qed

text \<open>A transaction of the worker either moves a package or, when it throws, leaves the data.\<close>

lemma same_data_change: "same_data s t \<Longrightarrow> worker_change_by k M s t"
  by (simp add: worker_change_by_def)

definition transactional :: "'r delivery_op \<Rightarrow> bool" where
  "transactional m \<longleftrightarrow> (\<forall>s e t. m s = (Inl e, t) \<longrightarrow> same_data s t)"

lemma transactional_transact: "op_grows m \<Longrightarrow> transactional (transact m)"
  unfolding transactional_def using transact_undone by blast

lemma op_grows_record_current [growing]: "op_grows (record_current E v r)"
  unfolding record_current_def by (intro growing) (cases r; simp add: growing)

lemma transactional_ops: "transactional (cancelPackage E k reason)" "transactional (retry E k)" "transactional (markProviderSent E k ref)"
  "transactional (start_sending E k)" "transactional (recordUnknown E v key)" "transactional (recordEgressBlocked E v)"
  unfolding cancelPackage_def retry_def markProviderSent_def start_sending_def recordUnknown_def recordEgressBlocked_def
  by (intro transactional_transact growing)+

lemma transactional_recordResult: "transactional (recordResult E v r)"
  using transactional_transact[OF op_grows_record_current[of E v r]] by (cases r) (simp_all add: recordResult_def transactional_ops)

definition worker_op_by :: "string \<Rightarrow> (delivery_record \<Rightarrow> delivery_state \<Rightarrow> bool) \<Rightarrow> 'r delivery_op \<Rightarrow> bool" where
  "worker_op_by k M m \<longleftrightarrow> transactional m \<and> (\<forall>s v t. m s = (Inr v, t) \<longrightarrow> worker_change_by k M s t)"

lemma worker_op_by_change: "worker_op_by k M m \<Longrightarrow> m s = (r, t) \<Longrightarrow> worker_change_by k M s t"
  unfolding worker_op_by_def transactional_def by (cases r) (auto intro: same_data_change)

lemma worker_ops_by: "worker_op_by k cancel_edge (cancelPackage E k reason)" "worker_op_by k retry_edge (retry E k)"
  "worker_op_by k observed_edge (markProviderSent E k ref)" "worker_op_by k (from_to DlQueued Sending) (start_sending E k)"
  "worker_op_by (dr_packageId v) (from_to Sending DlUnknown) (recordUnknown E v key)"
  "worker_op_by (dr_packageId v) (from_to Sending DlFailed) (recordEgressBlocked E v)"
  "worker_op_by (dr_packageId v) (result_edge r) (recordResult E v r)"
  "worker_op_by (dr_packageId v) cancel_edge (cancelBlocked E v st)"
  by (auto simp: worker_op_by_def cancelBlocked_def transactional_ops transactional_recordResult dest: cancelPackage_change retry_change
      markProviderSent_change start_sending_change recordUnknown_change recordEgressBlocked_change recordResult_change)

definition worker_op :: "'r delivery_op \<Rightarrow> bool" where
  "worker_op m \<longleftrightarrow> (\<forall>s r t. m s = (r, t) \<longrightarrow> worker_change s t)"

lemma worker_op_change: "worker_op m \<Longrightarrow> m s = (r, t) \<Longrightarrow> worker_change s t"
  unfolding worker_op_def by blast

lemma worker_op_by_op: "worker_op_by k M m \<Longrightarrow> worker_op m"
  unfolding worker_op_def by (blast dest: worker_op_by_change worker_change_by_change)

lemmas worker_ops = worker_ops_by[THEN worker_op_by_op]

text \<open>A segment of a sending is at most two such changes.\<close>

lemma finish_changes: "worker_op m \<Longrightarrow> finish m s = (p, t) \<Longrightarrow> worker_change\<^sup>*\<^sup>* s t"
  unfolding finish_def Let_def using worker_op_change by (metis prod.collapse prod.inject r_into_rtranclp)

lemma revalidate_changes:
  assumes "revalidate E tb started s = (r, t)"
  shows "worker_change\<^sup>*\<^sup>* s t"
proof -
  have "t = s \<or> (\<exists>v st. t = snd (cancelBlocked E v st s))"
    using assms by (auto simp: revalidate_def st_bind_def getPackage_def st_return_def st_ensure_def Let_def split: if_splits sum.splits)
  then show ?thesis using worker_op_change[OF worker_ops(8) prod.collapse[symmetric]] by blast
qed

lemma unless_blocked_changes:
  assumes "unless_blocked E tb started go s = (p, t)" and "\<And>s'. snd (go s') = s'"
  shows "worker_change\<^sup>*\<^sup>* s t"
proof -
  obtain r s' where r: "revalidate E tb started s = (r, s')" by fastforce
  with assms have "t = s'"
    by (auto simp: unless_blocked_def split: sum.splits option.splits) (metis snd_conv)
  with revalidate_changes[OF r] show ?thesis by simp
qed

lemma resume_changes: "resume_send E tb p a s = (q, t) \<Longrightarrow> worker_change\<^sup>*\<^sup>* s t"
proof (induction E tb p a rule: resume_send.induct)
  case (1 E tb v ok)
  then show ?case using unless_blocked_changes[of E tb v "\<lambda>s'. (AtEgress v, s')" s q t]
    by (auto simp: send_authorise_def split: if_splits)
next
  case (2 E tb v ok)
  then show ?case using unless_blocked_changes[of E tb v _ s q t] finish_changes[OF worker_ops(6), of E v s q t]
    by (auto simp: send_dispatch_def split: if_splits option.splits)
next
  case (3 E tb v q' a)
  then show ?case using finish_changes[OF worker_ops(5)] by (auto simp: send_result_def send_lost_def split: option.splits)
next
  case (4 E tb v r ok)
  then show ?case using finish_changes[OF worker_ops(5)] finish_changes[OF worker_ops(7)]
    by (auto simp: send_record_def send_lost_def split: if_splits)
qed simp_all

lemma send_start_changes:
  assumes "send_start E tb k s = (p, t)"
  shows "worker_change\<^sup>*\<^sup>* s t"
proof -
  obtain r s' where r: "start_sending E k s = (r, s')" by fastforce
  note c = worker_op_change[OF worker_ops(4) r]
  show ?thesis
  proof (cases r)
    case (Inl e)
    then show ?thesis using assms r c by (auto simp: send_start_def)
  next
    case (Inr v)
    then have "t = s' \<or> (\<exists>st. finish (cancelBlocked E v st) s' = (p, t))"
      using assms r by (auto simp: send_start_def Let_def split: if_splits)
    then show ?thesis using c finish_changes[OF worker_ops(8)] by (auto intro: converse_rtranclp_into_rtranclp)
  qed
qed

end
