(* ===== verification/Delivery_System.thy ===== *)
theory Delivery_System
  imports Delivery_Invariants
begin

text \<open>
  Guarded delivery as a system: the approval world, the status table, the repository, the sendings that
  wait at an await and the requests that reached the provider.  Every operation of every service may run
  between two segments of a sending.  The invariant says that a package on its way to the recipient is
  frozen to approvals that were recorded, under one outbox record whose key and fingerprint never change.
\<close>

section \<open>Confirmation, when it succeeds\<close>

definition new_outbox :: "env \<Rightarrow> confirm_command \<Rightarrow> delivery_record \<Rightarrow> string \<Rightarrow> string \<Rightarrow> outbox_record" where
  "new_outbox E c v i f = \<lparr>ob_outboxId = i, ob_packageId = dr_packageId v, ob_organizationId = dr_organizationId v,
     ob_jobId = dr_jobId v, ob_state = ObQueued, ob_idempotencyKey = send_key (dr_packageId v) (dr_revision v),
     ob_requestFingerprint = f, ob_createdAt = cc_confirmedAt c, ob_updatedAt = cc_confirmedAt c\<rparr>"

definition confirm_writes ::
  "env \<Rightarrow> delivery_readers \<Rightarrow> confirm_command \<Rightarrow> delivery_repository \<Rightarrow> delivery_record \<Rightarrow> delivery_repository \<Rightarrow> bool" where
  "confirm_writes E R c s v t \<longleftrightarrow> (\<exists>references blockers hs. resolveExactApprovals R c = Inr (references, blockers, hs)
     \<and> v = confirmed_package c (confirmed_state blockers (sendable_evidence c hs)) references
     \<and> (\<forall>x. map_of (rp_packages s) (cc_packageId c) = Some x \<longrightarrow> same_scope x c)
     \<and> cc_expectedPackageRevision c = (case map_of (rp_packages s) (cc_packageId c) of None \<Rightarrow> 0 | Some x \<Rightarrow> dr_revision x)
     \<and> rp_packages t = map_set (cc_packageId c) v (rp_packages s)
     \<and> (if dr_state v = DlQueued then outbox_of s (cc_packageId c) = None \<and> (\<exists>f i. send_fingerprint E v = Inr f
            \<and> i = random E (rp_ids s) \<and> rp_ids s < rp_ids t \<and> rp_outbox t = map_set i (new_outbox E c v i f) (rp_outbox s))
        else rp_outbox t = rp_outbox s)
     \<and> grows s t)"

lemma writePackage_Inr [ran]: "writePackage v n s = (Inr v', t) \<longleftrightarrow> v' = v \<and> n = (case map_of (rp_packages s) (dr_packageId v) of
    None \<Rightarrow> 0 | Some x \<Rightarrow> dr_revision x) \<and> dr_revision v = n + 1 \<and> t = s\<lparr>rp_packages := map_set (dr_packageId v) v (rp_packages s)\<rparr>"
  by (auto simp: writePackage_def Let_def ran)

lemma enqueueOutbox_Inr [ran]: "enqueueOutbox E ob s = (Inr ob', t) \<longleftrightarrow> outbox_of s (ob_packageId ob) = None
    \<and> ob' = ob\<lparr>ob_outboxId := random E (rp_ids s)\<rparr>
    \<and> t = s\<lparr>rp_ids := Suc (rp_ids s), rp_outbox := map_set (random E (rp_ids s)) ob' (rp_outbox s)\<rparr>"
  by (auto simp: enqueueOutbox_def Let_def ran)

lemma st_lift_Inr: "st_lift r s = (Inr x, t) \<longleftrightarrow> r = Inr x \<and> t = s"
  by auto

lemma getIdempotent_state: "getIdempotentPackage key f s = (r, t) \<Longrightarrow> t = s"
  by (simp add: getIdempotentPackage_def)

lemma outbox_same: "rp_outbox t = rp_outbox s \<Longrightarrow> outbox_of t k = outbox_of s k"
  by (simp add: outbox_of_def)

lemma record_confirmation_writes:
  assumes "record_confirmation E c f bs v s = (Inr r, t)" and v: "dr_packageId v = cc_packageId c"
  shows "cr_package r = v" "\<not> cr_replayed r" "rp_packages t = map_set (cc_packageId c) v (rp_packages s)"
    "cc_expectedPackageRevision c = (case map_of (rp_packages s) (cc_packageId c) of None \<Rightarrow> 0 | Some x \<Rightarrow> dr_revision x)"
    "if dr_state v = DlQueued then outbox_of s (cc_packageId c) = None \<and> (\<exists>f i. send_fingerprint E v = Inr f
        \<and> i = random E (rp_ids s) \<and> rp_ids s < rp_ids t \<and> rp_outbox t = map_set i (new_outbox E c v i f) (rp_outbox s))
      else rp_outbox t = rp_outbox s"
proof -
  from assms(1) obtain s1 s2 s3 u meta where w: "writePackage v (cc_expectedPackageRevision c) s = (Inr u, s1)"
    and b: "bindIdempotency (confirm_key c) f (cc_packageId c) s1 = (Inr (), s2)"
    and q: "enqueue_send E c v s2 = (Inr (), s3)"
    and l: "logEvent E v (confirm_event (dr_state v)) (dr_revision v) (cc_confirmedAt c) meta s3 = (Inr (), t)"
    and r: "cr_package r = v \<and> \<not> cr_replayed r"
    unfolding record_confirmation_def by (auto simp: resultFor_def Let_def)
  from r show "cr_package r = v" "\<not> cr_replayed r" by auto
  have s2: "rp_packages s2 = map_set (cc_packageId c) v (rp_packages s)" "rp_outbox s2 = rp_outbox s" "rp_ids s2 = rp_ids s"
    using w b v by (auto simp: ran)
  have t: "rp_packages t = rp_packages s3" "rp_outbox t = rp_outbox s3" "rp_ids s3 < rp_ids t" using l by (auto simp: ran)
  have "rp_packages s3 = rp_packages s2" using q by (auto simp: enqueue_send_def ran split: if_splits)
  then show "rp_packages t = map_set (cc_packageId c) v (rp_packages s)" using t(1) s2(1) by simp
  show "cc_expectedPackageRevision c = (case map_of (rp_packages s) (cc_packageId c) of None \<Rightarrow> 0 | Some x \<Rightarrow> dr_revision x)"
    using w v by (simp add: ran)
  show "if dr_state v = DlQueued then outbox_of s (cc_packageId c) = None \<and> (\<exists>f i. send_fingerprint E v = Inr f
      \<and> i = random E (rp_ids s) \<and> rp_ids s < rp_ids t \<and> rp_outbox t = map_set i (new_outbox E c v i f) (rp_outbox s))
    else rp_outbox t = rp_outbox s"
    using q s2(2,3) t(2,3) v outbox_same[OF s2(2)]
    by (auto simp: enqueue_send_def ran new_outbox_def simp flip: st_lift_Inr split: if_splits)
qed

lemma confirm_new_writes:
  assumes "confirm_new E R c f s = (Inr r, t)"
  shows "confirm_writes E R c s (cr_package r) t \<and> \<not> cr_replayed r"
proof -
  have g: "grows s t" by (rule op_grows_run[OF op_grows_confirm_new assms])
  from assms obtain references blockers hs where res: "resolveExactApprovals R c = Inr (references, blockers, hs)"
    and sc: "case map_of (rp_packages s) (cc_packageId c) of None \<Rightarrow> True | Some x \<Rightarrow> same_scope x c"
    and rc: "record_confirmation E c f blockers
      (confirmed_package c (confirmed_state blockers (sendable_evidence c hs)) references) s = (Inr r, t)"
    unfolding confirm_new_def by (auto simp: st_lift_Inr getPackage_Inr simp del: st_lift_eq)
  have v: "dr_packageId (confirmed_package c (confirmed_state blockers (sendable_evidence c hs)) references) = cc_packageId c"
    by (simp add: confirmed_package_def)
  note w = record_confirmation_writes[OF rc v]
  show ?thesis unfolding confirm_writes_def w(1)
    using res sc w(2-) g by (intro conjI exI[of _ references] exI[of _ blockers] exI[of _ hs]) auto
qed

lemma confirm_cases:
  assumes "confirm E R c s = (Inr r, t)"
  shows "canonical_module_set (cc_commissionedModules c)" "dm_organizationId (cc_manifest c) = cc_organizationId c"
    "dm_jobId (cc_manifest c) = cc_jobId c" "verifyDurabilityManifest E (cc_manifest c) = Inr True"
    "(t = s \<and> cr_replayed r) \<or> (confirm_writes E R c s (cr_package r) t \<and> \<not> cr_replayed r)"
proof -
  from assms show "canonical_module_set (cc_commissionedModules c)" "dm_organizationId (cc_manifest c) = cc_organizationId c"
    "dm_jobId (cc_manifest c) = cc_jobId c" "verifyDurabilityManifest E (cc_manifest c) = Inr True"
    by (auto simp: confirm_def st_lift_Inr simp del: st_lift_eq)
  from assms obtain f v where g: "getIdempotentPackage (confirm_key c) f s = (Inr v, s)"
    and k: "(case v of Some v \<Rightarrow> st_return (resultFor v True) | None \<Rightarrow> confirm_new E R c f) s = (Inr r, t)"
    unfolding confirm_def by (auto simp: st_lift_Inr simp del: st_lift_eq) (metis getIdempotent_state)
  from k show "(t = s \<and> cr_replayed r) \<or> (confirm_writes E R c s (cr_package r) t \<and> \<not> cr_replayed r)"
    using confirm_new_writes by (cases v) (auto simp: resultFor_def Let_def)
qed

lemma confirm_error: "confirm E R c s = (Inl e, t) \<Longrightarrow> same_data s t"
proof -
  assume a: "confirm E R c s = (Inl e, t)"
  have g: "op_grows (st_bind (getIdempotentPackage key f) (\<lambda>replay. case replay of Some v \<Rightarrow> st_return (resultFor v True)
      | None \<Rightarrow> confirm_new E R c f))" for key f by (intro growing)
  from a have "t = s \<or> (\<exists>key f. transact (st_bind (getIdempotentPackage key f) (\<lambda>replay. case replay of
      Some v \<Rightarrow> st_return (resultFor v True) | None \<Rightarrow> confirm_new E R c f)) s = (Inl e, t))"
    by (auto simp: confirm_def st_bind_Inl st_ensure_def split: if_splits)
  then show ?thesis using transact_undone[OF g] by auto
qed

section \<open>Outbox records\<close>

definition outbox_wf :: "env \<Rightarrow> delivery_repository \<Rightarrow> bool" where
  "outbox_wf E s \<longleftrightarrow> distinct (map fst (rp_outbox s))
     \<and> (\<forall>i ob. map_of (rp_outbox s) i = Some ob \<longrightarrow> ob_outboxId ob = i \<and> (\<exists>n < rp_ids s. i = random E n)
          \<and> (\<exists>n. ob_idempotencyKey ob = send_key (ob_packageId ob) n))
     \<and> (\<forall>i j ob ob'. map_of (rp_outbox s) i = Some ob \<longrightarrow> map_of (rp_outbox s) j = Some ob' \<longrightarrow> ob_packageId ob = ob_packageId ob' \<longrightarrow> i = j)"

lemma outbox_wfD:
  assumes "outbox_wf E s" and "map_of (rp_outbox s) i = Some ob"
  shows "ob_outboxId ob = i" "\<exists>n < rp_ids s. i = random E n" "\<exists>n. ob_idempotencyKey ob = send_key (ob_packageId ob) n"
    "map_of (rp_outbox s) j = Some ob' \<Longrightarrow> ob_packageId ob = ob_packageId ob' \<Longrightarrow> i = j"
  using assms unfolding outbox_wf_def by blast+

lemma outbox_of_Some:
  assumes "outbox_wf E s"
  shows "outbox_of s k = Some ob \<longleftrightarrow> map_of (rp_outbox s) (ob_outboxId ob) = Some ob \<and> ob_packageId ob = k"
proof -
  have d: "distinct (map fst (rp_outbox s))" using assms by (simp add: outbox_wf_def)
  have found: "map_of (rp_outbox s) (ob_outboxId x) = Some x \<and> ob_packageId x = k" if "outbox_of s k = Some x" for x
  proof -
    from find_SomeD[OF that[unfolded outbox_of_def]] obtain i where "(i, x) \<in> set (rp_outbox s)" and k: "ob_packageId x = k" by auto
    then have i: "map_of (rp_outbox s) i = Some x" using d by simp
    then have "ob_outboxId x = i" by (rule outbox_wfD(1)[OF assms])
    then show ?thesis using i k by simp
  qed
  show ?thesis
  proof
    assume r: "map_of (rp_outbox s) (ob_outboxId ob) = Some ob \<and> ob_packageId ob = k"
    then have "ob \<in> set (map snd (rp_outbox s))" using map_of_SomeD by force
    then have "outbox_of s k \<noteq> None" using r by (auto simp: outbox_of_def find_eq_None)
    then obtain x where x: "outbox_of s k = Some x" by blast
    note f = found[OF x]
    have "ob_packageId x = ob_packageId ob" using f r by simp
    then have "ob_outboxId x = ob_outboxId ob"
      by (rule outbox_wfD(4)[OF assms conjunct1[OF f] conjunct1[OF r]])
    then have "Some x = Some ob" using conjunct1[OF f] conjunct1[OF r] by metis
    then show "outbox_of s k = Some ob" using x by simp
  qed (rule found)
qed

lemma outbox_of_None: "outbox_wf E s \<Longrightarrow> outbox_of s k = None \<longleftrightarrow> (\<forall>i ob. map_of (rp_outbox s) i = Some ob \<longrightarrow> ob_packageId ob \<noteq> k)"
proof -
  assume wf: "outbox_wf E s"
  have "(\<exists>ob. outbox_of s k = Some ob) \<longleftrightarrow> (\<exists>i ob. map_of (rp_outbox s) i = Some ob \<and> ob_packageId ob = k)"
    unfolding outbox_of_Some[OF wf] using outbox_wfD(1)[OF wf] by blast
  then show ?thesis by (cases "outbox_of s k") auto
qed

text \<open>What of an outbox record a request carries.\<close>

definition outbox_le :: "delivery_repository \<Rightarrow> delivery_repository \<Rightarrow> bool" where
  "outbox_le s t \<longleftrightarrow> (\<forall>k ob. outbox_of s k = Some ob \<longrightarrow> (\<exists>ob'. outbox_of t k = Some ob' \<and> ob_idempotencyKey ob' = ob_idempotencyKey ob
     \<and> ob_requestFingerprint ob' = ob_requestFingerprint ob))"

lemma outbox_le_refl [simp]: "outbox_le s s"
  by (simp add: outbox_le_def)

lemma outbox_le_trans: "outbox_le s t \<Longrightarrow> outbox_le t u \<Longrightarrow> outbox_le s u"
  unfolding outbox_le_def by metis

lemma outbox_wf_more:
  assumes "rp_outbox t = rp_outbox s" and "rp_ids s \<le> rp_ids t" and wf: "outbox_wf E s"
  shows "outbox_wf E t"
  unfolding outbox_wf_def assms(1)
proof (intro conjI allI impI)
  show "distinct (map fst (rp_outbox s))" using wf by (simp add: outbox_wf_def)
next
  fix i ob
  assume "map_of (rp_outbox s) i = Some ob"
  note d = outbox_wfD[OF wf this]
  show "ob_outboxId ob = i" "\<exists>n. ob_idempotencyKey ob = send_key (ob_packageId ob) n" by (fact d(1), fact d(3))
  show "\<exists>n < rp_ids t. i = random E n" using d(2) assms(2) order_less_le_trans by blast
qed (rule outbox_wfD(4)[OF wf])

lemma outbox_touched_wf:
  assumes wf: "outbox_wf E s" and "outbox_touched k s t" and "rp_ids s \<le> rp_ids t"
  shows "outbox_wf E t" "outbox_le s t"
proof -
  have "outbox_wf E t \<and> outbox_le s t"
  proof (cases "rp_outbox t = rp_outbox s")
    case True
    then show ?thesis using outbox_wf_more[OF True assms(3) wf] outbox_same[OF True] by (simp add: outbox_le_def)
  next
    case False
    with assms(2) obtain ob st at where o1: "outbox_of s k = Some ob"
      and t: "rp_outbox t = map_set (ob_outboxId ob) (ob\<lparr>ob_state := st, ob_updatedAt := at\<rparr>) (rp_outbox s)"
      unfolding outbox_touched_def by blast
    then have o2: "map_of (rp_outbox s) (ob_outboxId ob) = Some ob" using outbox_of_Some[OF wf] by blast
    let ?ob = "ob\<lparr>ob_state := st, ob_updatedAt := at\<rparr>"
    have m: "map_of (rp_outbox t) i = (if i = ob_outboxId ob then Some ?ob else map_of (rp_outbox s) i)" for i by (simp add: t)
    have old: "\<exists>x'. map_of (rp_outbox s) i = Some x' \<and> ob_outboxId x' = ob_outboxId x \<and> ob_packageId x' = ob_packageId x
        \<and> ob_idempotencyKey x' = ob_idempotencyKey x" if "map_of (rp_outbox t) i = Some x" for i x
      using that o2 by (auto simp: m split: if_splits)
    have wft: "outbox_wf E t"
      unfolding outbox_wf_def
    proof (intro conjI allI impI)
      show "distinct (map fst (rp_outbox t))" using wf by (simp add: t outbox_wf_def distinct_map_set)
    next
      fix i x
      assume "map_of (rp_outbox t) i = Some x"
      from old[OF this] obtain x' where x': "map_of (rp_outbox s) i = Some x'" "ob_outboxId x' = ob_outboxId x"
        "ob_packageId x' = ob_packageId x" "ob_idempotencyKey x' = ob_idempotencyKey x" by blast
      note d = outbox_wfD[OF wf x'(1)]
      show "ob_outboxId x = i" "\<exists>n. ob_idempotencyKey x = send_key (ob_packageId x) n" using d(1,3) x' by simp_all
      show "\<exists>n < rp_ids t. i = random E n" using d(2) assms(3) order_less_le_trans by blast
    next
      fix i j x y
      assume "map_of (rp_outbox t) i = Some x" "map_of (rp_outbox t) j = Some y" "ob_packageId x = ob_packageId y"
      note a = this
      obtain x' where x': "map_of (rp_outbox s) i = Some x'" "ob_packageId x' = ob_packageId x" using old[OF a(1)] by blast
      obtain y' where y': "map_of (rp_outbox s) j = Some y'" "ob_packageId y' = ob_packageId y" using old[OF a(2)] by blast
      have "ob_packageId x' = ob_packageId y'" using x' y' a(3) by simp
      then show "i = j" by (rule outbox_wfD(4)[OF wf x'(1) y'(1)])
    qed
    moreover have "\<exists>x'. outbox_of t k' = Some x' \<and> ob_idempotencyKey x' = ob_idempotencyKey x
        \<and> ob_requestFingerprint x' = ob_requestFingerprint x" if x: "outbox_of s k' = Some x" for k' x
    proof (cases "ob_outboxId x = ob_outboxId ob")
      case True
      then have "x = ob" using o2 x by (simp add: outbox_of_Some[OF wf])
      then show ?thesis using x by (intro exI[of _ ?ob]) (simp add: outbox_of_Some[OF wf] outbox_of_Some[OF wft] m)
    next
      case False
      then show ?thesis using x by (intro exI[of _ x]) (simp add: outbox_of_Some[OF wf] outbox_of_Some[OF wft] m)
    qed
    then have "outbox_le s t" by (simp add: outbox_le_def)
    ultimately show ?thesis by blast
  qed
  then show "outbox_wf E t" "outbox_le s t" by auto
qed


section \<open>The repository invariant\<close>

definition stored_reference :: "env \<Rightarrow> approval_world \<Rightarrow> frozen_reference \<Rightarrow> approval_record \<Rightarrow> bool" where
  "stored_reference E w r a \<longleftrightarrow> vouched_approval E w a
     \<and> (\<exists>s. getById (wo_snapshots w) (fr_snapshotId r) = Some s \<and> snapshot_verifies E s \<and> r = reference s a
         \<and> ap_snapshotId a = ms_snapshotId s \<and> ap_snapshotHash a = ms_canonicalHash s \<and> av_snapshotRevision a = ms_revision s)"

definition reference_vouched :: "env \<Rightarrow> approval_world \<Rightarrow> frozen_reference \<Rightarrow> bool" where
  "reference_vouched E w r \<longleftrightarrow> (\<exists>a. stored_reference E w r a)"

definition frozen_ok :: "env \<Rightarrow> approval_world \<Rightarrow> delivery_record \<Rightarrow> outbox_record \<Rightarrow> bool" where
  "frozen_ok E w v ob \<longleftrightarrow> send_fingerprint E v = Inr (ob_requestFingerprint ob)
     \<and> map fr_module (dr_moduleSnapshots v) = dr_commissionedModules v
     \<and> list_all (reference_vouched E w) (dr_moduleSnapshots v)"

definition on_the_way :: "delivery_state \<Rightarrow> bool" where
  "on_the_way st \<longleftrightarrow> (st \<in> {DlQueued, Sending, ProviderAccepted, DlFailed, DlUnknown})"

definition repository_wf :: "env \<Rightarrow> approval_world \<Rightarrow> delivery_repository \<Rightarrow> bool" where
  "repository_wf E w s \<longleftrightarrow> outbox_wf E s
     \<and> (\<forall>k v. map_of (rp_packages s) k = Some v \<longrightarrow> dr_packageId v = k
          \<and> (on_the_way (dr_state v) \<longrightarrow> (\<exists>ob. outbox_of s k = Some ob \<and> frozen_ok E w v ob)))"

definition scope_le :: "delivery_repository \<Rightarrow> delivery_repository \<Rightarrow> bool" where
  "scope_le s t \<longleftrightarrow> (\<forall>k v. map_of (rp_packages s) k = Some v \<longrightarrow> (\<exists>v'. map_of (rp_packages t) k = Some v'
     \<and> dr_organizationId v' = dr_organizationId v \<and> dr_jobId v' = dr_jobId v \<and> dr_commissionedModules v' = dr_commissionedModules v))"

definition repository_le :: "delivery_repository \<Rightarrow> delivery_repository \<Rightarrow> bool" where
  "repository_le s t \<longleftrightarrow> outbox_le s t \<and> scope_le s t"

lemma repository_le_refl [simp]: "repository_le s s"
  by (simp add: repository_le_def scope_le_def)

lemma scope_le_trans:
  assumes "scope_le s t" and "scope_le t u"
  shows "scope_le s u"
  unfolding scope_le_def
proof (intro allI impI)
  fix k v
  assume "map_of (rp_packages s) k = Some v"
  with assms(1) obtain v' where v': "map_of (rp_packages t) k = Some v'" "dr_organizationId v' = dr_organizationId v"
    "dr_jobId v' = dr_jobId v" "dr_commissionedModules v' = dr_commissionedModules v" unfolding scope_le_def by blast
  from assms(2) v'(1) obtain v'' where "map_of (rp_packages u) k = Some v''" "dr_organizationId v'' = dr_organizationId v'"
    "dr_jobId v'' = dr_jobId v'" "dr_commissionedModules v'' = dr_commissionedModules v'" unfolding scope_le_def by blast
  with v' show "\<exists>v''. map_of (rp_packages u) k = Some v'' \<and> dr_organizationId v'' = dr_organizationId v
    \<and> dr_jobId v'' = dr_jobId v \<and> dr_commissionedModules v'' = dr_commissionedModules v" by simp
qed

lemma repository_le_trans: "repository_le s t \<Longrightarrow> repository_le t u \<Longrightarrow> repository_le s u"
  by (auto simp: repository_le_def intro: outbox_le_trans scope_le_trans)

lemma repository_wfD:
  assumes "repository_wf E w s"
  shows "outbox_wf E s" "map_of (rp_packages s) k = Some v \<Longrightarrow> dr_packageId v = k"
    "map_of (rp_packages s) k = Some v \<Longrightarrow> on_the_way (dr_state v) \<Longrightarrow> \<exists>ob. outbox_of s k = Some ob \<and> frozen_ok E w v ob"
  using assms unfolding repository_wf_def by simp_all

lemma frozen_ok_moved:
  assumes "frozen_ok E w v ob" and "frozen_content v' = frozen_content v" and "ob_requestFingerprint ob' = ob_requestFingerprint ob"
  shows "frozen_ok E w v' ob'"
  using assms by (simp add: frozen_ok_def frozen_content_def send_fingerprint_def)

lemma worker_change_wf:
  assumes wf: "repository_wf E w s" and c: "worker_change s t"
  shows "repository_wf E w t \<and> repository_le s t"
  using c unfolding worker_change_def
proof
  assume "same_data s t"
  then obtain i n where t: "t = s\<lparr>rp_ids := i, rp_clock := n\<rparr>" and i: "rp_ids s \<le> i" by (auto simp: same_data_def)
  have "outbox_wf E t" by (rule outbox_wf_more[of t s]) (use wf t i in \<open>simp_all add: repository_wf_def\<close>)
  then show ?thesis using wf by (simp add: repository_wf_def t repository_le_def outbox_le_def scope_le_def)
next
  assume "\<exists>k v v'. map_of (rp_packages s) k = Some v \<and> package_moved v v' \<and> rp_packages t = map_set (dr_packageId v') v' (rp_packages s)
    \<and> outbox_touched k s t \<and> rp_idempotency t = rp_idempotency s \<and> grows s t"
  then obtain k v v' where v: "map_of (rp_packages s) k = Some v" and m: "package_moved v v'"
    and p: "rp_packages t = map_set (dr_packageId v') v' (rp_packages s)" and ob: "outbox_touched k s t" and g: "grows s t" by blast
  have owf: "outbox_wf E s" using wf by (simp add: repository_wf_def)
  have ids: "rp_ids s \<le> rp_ids t" using g by (simp add: grows_def)
  note o2 = outbox_touched_wf[OF owf ob ids]
  have k: "dr_packageId v' = k" using package_of_moved[OF m] repository_wfD(2)[OF wf v] by simp
  have f: "frozen_content v' = frozen_content v" using m by (simp add: package_moved_def)
  have keep: "\<exists>ob. outbox_of t k' = Some ob \<and> frozen_ok E w x' ob"
    if x: "map_of (rp_packages s) k' = Some x" "on_the_way (dr_state x)" "frozen_content x' = frozen_content x" for k' x x'
  proof -
    obtain ob where ob: "outbox_of s k' = Some ob" "frozen_ok E w x ob" using repository_wfD(3)[OF wf x(1,2)] by blast
    obtain ob' where "outbox_of t k' = Some ob'" "ob_requestFingerprint ob' = ob_requestFingerprint ob"
      using o2(2) ob(1) unfolding outbox_le_def by blast
    then show ?thesis using frozen_ok_moved[OF ob(2) x(3)] by blast
  qed
  have "on_the_way (dr_state v') \<Longrightarrow> on_the_way (dr_state v)"
    using m unfolding package_moved_def by (cases "dr_state v"; cases "dr_state v'") (auto simp: on_the_way_def)
  then have "repository_wf E w t"
    unfolding repository_wf_def using o2(1) wf k f keep v by (auto simp: p repository_wf_def split: if_splits)
  moreover have "scope_le s t"
    unfolding scope_le_def using v f k by (auto simp: p frozen_content_def)
  ultimately show ?thesis using o2(2) by (simp add: repository_le_def)
qed

lemma worker_changes_wf:
  assumes "worker_change\<^sup>*\<^sup>* s t" and "repository_wf E w s"
  shows "repository_wf E w t \<and> repository_le s t"
  using assms
proof (induction rule: rtranclp_induct)
  case (step t u)
  then show ?case using worker_change_wf[of E w t u] repository_le_trans by blast
qed simp

end
