(* ===== verification/Delivery_Machine.thy ===== *)
theory Delivery_Machine
  imports Delivery_System
begin

text \<open>
  The delivery machine and its invariant: confirmation against the approval world, sendings interleaved
  with every other operation, and what is true of each request that reaches the provider.
\<close>

section \<open>Confirmation against the approval world\<close>

definition world_readers :: "approval_world \<Rightarrow> delivery_readers" where
  "world_readers w = \<lparr>rd_snapshot = getCurrent (wo_snapshots w), rd_approval = getCurrentApproval (wo_approvals w),
     rd_withdrawn = isWithdrawn (wo_approvals w)\<rparr>"

definition exact_reference :: "delivery_readers \<Rightarrow> string \<Rightarrow> string \<Rightarrow> module_type \<Rightarrow> frozen_reference \<Rightarrow> string list \<Rightarrow> bool" where
  "exact_reference R org job m r hs \<longleftrightarrow>
     (let k = \<lparr>mk_organizationId = org, mk_jobId = job, mk_module = m\<rparr> in
      \<not> rd_withdrawn R k \<and> (\<exists>s a. rd_snapshot R k = Some s \<and> rd_approval R k = Some a \<and> r = reference s a
        \<and> ap_snapshotId a = ms_snapshotId s \<and> ap_snapshotHash a = ms_canonicalHash s \<and> av_snapshotRevision a = ms_revision s
        \<and> set (ms_evidenceHashes s) \<subseteq> set hs))"

lemma exact_reference_more: "exact_reference R org job m r hs \<Longrightarrow> set hs \<subseteq> set hs' \<Longrightarrow> exact_reference R org job m r hs'"
  unfolding exact_reference_def Let_def by (elim conjE exE, intro conjI exI) auto

lemma resolve_modules_exact:
  "resolve_modules R org job ms = Inr (rs, [], hs) \<Longrightarrow> list_all2 (\<lambda>m r. exact_reference R org job m r hs) ms rs"
proof (induction ms arbitrary: rs hs)
  case (Cons m ms)
  let ?k = "\<lparr>mk_organizationId = org, mk_jobId = job, mk_module = m\<rparr>"
  from Cons.prems obtain s a rs' hs' where r: "\<not> rd_withdrawn R ?k" "rd_snapshot R ?k = Some s" "rd_approval R ?k = Some a"
    and eq: "ap_snapshotId a = ms_snapshotId s" "ap_snapshotHash a = ms_canonicalHash s" "av_snapshotRevision a = ms_revision s"
    and rest: "resolve_modules R org job ms = Inr (rs', [], hs')" "rs = reference s a # rs'" "hs = ms_evidenceHashes s @ hs'"
    by (auto simp: Let_def split: if_splits option.splits)
  have "exact_reference R org job m (reference s a) hs"
    unfolding exact_reference_def Let_def using r eq rest(3) by (intro conjI exI[of _ s] exI[of _ a]) auto
  moreover have "list_all2 (\<lambda>m r. exact_reference R org job m r hs) ms rs'"
    using Cons.IH[OF rest(1)] by (rule list_all2_mono) (auto intro: exact_reference_more simp: rest(3))
  ultimately show ?case using rest(2) by simp
qed simp

lemma resolve_exact:
  assumes "resolveExactApprovals R c = Inr (rs, [], hs)"
  shows "list_all2 (\<lambda>m r. exact_reference R (cc_organizationId c) (cc_jobId c) m r hs) (cc_commissionedModules c) rs"
proof -
  from assms obtain hs' where r: "resolve_modules R (cc_organizationId c) (cc_jobId c) (cc_commissionedModules c) = Inr (rs, [], hs')"
    and hs: "hs = sort (js_unique hs')"
    by (auto simp: resolveExactApprovals_def)
  show ?thesis
    by (rule list_all2_mono[OF resolve_modules_exact[OF r]]) (auto intro: exact_reference_more simp: hs)
qed

lemma snapshotKey_module: "snapshotKey k = snapshotKey k' \<Longrightarrow> mk_module k = mk_module k'"
proof -
  assume "snapshotKey k = snapshotKey k'"
  then have "last (snapshotKey k) = last (snapshotKey k')" by simp
  then show ?thesis by (cases "mk_module k"; cases "mk_module k'") (simp_all add: snapshotKey_def)
qed

lemma exact_reference_vouched:
  assumes w: "world_wf E w" and r: "exact_reference (world_readers w) org job m r hs"
  shows "fr_module r = m" "reference_vouched E w r"
proof -
  let ?k = "\<lparr>mk_organizationId = org, mk_jobId = job, mk_module = m\<rparr>"
  from r obtain s a where s: "getCurrent (wo_snapshots w) ?k = Some s" and a: "getCurrentApproval (wo_approvals w) ?k = Some a"
    and eq: "r = reference s a" "ap_snapshotId a = ms_snapshotId s" "ap_snapshotHash a = ms_canonicalHash s" "av_snapshotRevision a = ms_revision s"
    by (auto simp: exact_reference_def world_readers_def Let_def)
  have "snapshots_wf E (wo_snapshots w)" using w by (simp add: world_wf_def)
  note g = getCurrent_Some[OF this s]
  show "fr_module r = m" using snapshotKey_module[OF g(1)] by (simp add: eq(1) reference_def input_key_def)
  have "vouched_approval E w a" by (rule approval_service.current_vouched[OF w a])
  then show "reference_vouched E w r" unfolding reference_vouched_def stored_reference_def
    using g(3,4) eq by (intro exI[of _ a] conjI exI[of _ s]) (simp_all add: reference_def)
qed

lemma exact_references_vouched:
  assumes "world_wf E w" and "list_all2 (\<lambda>m r. exact_reference (world_readers w) org job m r hs) ms rs"
  shows "map fr_module rs = ms" "list_all (reference_vouched E w) rs"
  using assms(2) exact_reference_vouched[OF assms(1)] by (induction ms rs rule: list_all2_induct) auto

lemma find_outbox_set:
  "List.find P (map snd xs) = None \<Longrightarrow> P v \<Longrightarrow> List.find P (map snd (map_set i v xs)) = Some v"
  by (induction xs) (auto split: if_splits)

lemma outbox_inserted:
  assumes wf: "outbox_wf E s" and none: "outbox_of s k = None" and inj: "inj (random E)" and i: "i = random E (rp_ids s)"
    and ids: "rp_ids s < rp_ids t" and t: "rp_outbox t = map_set i ob (rp_outbox s)"
    and ob: "ob_outboxId ob = i" "ob_packageId ob = k" "ob_idempotencyKey ob = send_key k n"
  shows "outbox_wf E t" "outbox_le s t" "outbox_of t k = Some ob"
proof -
  have new: "map_of (rp_outbox s) i = None"
  proof (rule ccontr)
    assume "map_of (rp_outbox s) i \<noteq> None"
    then obtain x where "map_of (rp_outbox s) i = Some x" by blast
    from outbox_wfD(2)[OF wf this] inj show False by (auto simp: i inj_def)
  qed
  have m: "map_of (rp_outbox t) j = (if j = i then Some ob else map_of (rp_outbox s) j)" for j by (simp add: t)
  have other: "ob_packageId x \<noteq> k" if "map_of (rp_outbox s) j = Some x" for j x using none outbox_of_None[OF wf] that by blast
  show wft: "outbox_wf E t"
    unfolding outbox_wf_def
  proof (intro conjI allI impI)
    show "distinct (map fst (rp_outbox t))" using wf by (simp add: t outbox_wf_def distinct_map_set)
  next
    fix j x
    assume x: "map_of (rp_outbox t) j = Some x"
    show "ob_outboxId x = j" "\<exists>n. ob_idempotencyKey x = send_key (ob_packageId x) n" "\<exists>n < rp_ids t. j = random E n"
      using x ob i ids outbox_wfD(1-3)[OF wf, of j x] by (auto simp: m split: if_splits intro: order_less_trans)
  next
    fix j l x y
    assume a: "map_of (rp_outbox t) j = Some x" "map_of (rp_outbox t) l = Some y" "ob_packageId x = ob_packageId y"
    show "j = l"
    proof (cases "j = i \<or> l = i")
      case True
      then show ?thesis using a other ob(2) by (auto simp: m split: if_splits)
    next
      case False
      with a have x: "map_of (rp_outbox s) j = Some x" and y: "map_of (rp_outbox s) l = Some y" by (simp_all add: m)
      show ?thesis by (rule outbox_wfD(4)[OF wf x y a(3)])
    qed
  qed
  show "outbox_of t k = Some ob" by (simp add: outbox_of_Some[OF wft] m ob)
  have "\<exists>x'. outbox_of t k' = Some x' \<and> ob_idempotencyKey x' = ob_idempotencyKey x \<and> ob_requestFingerprint x' = ob_requestFingerprint x"
    if x: "outbox_of s k' = Some x" for k' x
    using x new by (intro exI[of _ x]) (auto simp: outbox_of_Some[OF wf] outbox_of_Some[OF wft] m)
  then show "outbox_le s t" by (simp add: outbox_le_def)
qed

lemma confirmed_queued:
  "dr_state (confirmed_package c (confirmed_state bs ok) rs) = DlQueued \<longleftrightarrow> bs = [] \<and> ok"
  by (simp add: confirmed_package_def confirmed_state_def)

lemma confirm_writes_wf:
  assumes wf: "repository_wf E w s" and w: "world_wf E w" and inj: "inj (random E)"
    and c: "confirm_writes E (world_readers w) c s v t"
  shows "repository_wf E w t \<and> repository_le s t"
proof -
  from c obtain rs bs hs where r: "resolveExactApprovals (world_readers w) c = Inr (rs, bs, hs)"
    and v: "v = confirmed_package c (confirmed_state bs (sendable_evidence c hs)) rs"
    and sc: "\<And>x. map_of (rp_packages s) (cc_packageId c) = Some x \<Longrightarrow> same_scope x c"
    and p: "rp_packages t = map_set (cc_packageId c) v (rp_packages s)"
    and ob: "if dr_state v = DlQueued then outbox_of s (cc_packageId c) = None \<and> (\<exists>f i. send_fingerprint E v = Inr f
            \<and> i = random E (rp_ids s) \<and> rp_ids s < rp_ids t \<and> rp_outbox t = map_set i (new_outbox E c v i f) (rp_outbox s))
        else rp_outbox t = rp_outbox s"
    and g: "grows s t" unfolding confirm_writes_def by blast
  note owf = repository_wfD(1)[OF wf]
  have vk: "dr_packageId v = cc_packageId c" "dr_organizationId v = cc_organizationId c" "dr_jobId v = cc_jobId c"
    "dr_commissionedModules v = cc_commissionedModules c" by (simp_all add: v confirmed_package_def)
  have o2: "outbox_wf E t \<and> outbox_le s t \<and> (dr_state v = DlQueued \<longrightarrow> (\<exists>o'. outbox_of t (cc_packageId c) = Some o' \<and> frozen_ok E w v o'))"
  proof (cases "dr_state v = DlQueued")
    case True
    with ob obtain f i where none: "outbox_of s (cc_packageId c) = None" and f: "send_fingerprint E v = Inr f"
      and i: "i = random E (rp_ids s)" "rp_ids s < rp_ids t" "rp_outbox t = map_set i (new_outbox E c v i f) (rp_outbox s)" by auto
    have n: "ob_outboxId (new_outbox E c v i f) = i" "ob_packageId (new_outbox E c v i f) = cc_packageId c"
      "ob_idempotencyKey (new_outbox E c v i f) = send_key (cc_packageId c) (dr_revision v)" "ob_requestFingerprint (new_outbox E c v i f) = f"
      by (simp_all add: new_outbox_def vk)
    note q = outbox_inserted[OF owf none inj i n(1-3)]
    have bs: "bs = []" using True unfolding v confirmed_queued by simp
    have rs: "dr_moduleSnapshots v = rs" using True by (simp add: v confirmed_package_def)
    have "frozen_ok E w v (new_outbox E c v i f)"
      using exact_references_vouched[OF w resolve_exact[OF r[unfolded bs]]] f n(4) rs vk(4) by (simp add: frozen_ok_def)
    then show ?thesis using q by blast
  next
    case False
    then show ?thesis using ob g outbox_wf_more[of t s E] owf outbox_same[of t s] by (simp add: grows_def outbox_le_def)
  qed
  have way: "on_the_way (dr_state v) \<longleftrightarrow> dr_state v = DlQueued" by (simp add: v confirmed_package_def confirmed_state_def on_the_way_def)
  have keep: "\<exists>o'. outbox_of t k = Some o' \<and> frozen_ok E w x o'"
    if x: "map_of (rp_packages s) k = Some x" "on_the_way (dr_state x)" for k x
  proof -
    obtain o1 where o1: "outbox_of s k = Some o1" "frozen_ok E w x o1" using repository_wfD(3)[OF wf x] by blast
    obtain o' where "outbox_of t k = Some o'" "ob_requestFingerprint o' = ob_requestFingerprint o1"
      using o2 o1(1) unfolding outbox_le_def by blast
    then show ?thesis using frozen_ok_moved[OF o1(2) refl] by blast
  qed
  have "repository_wf E w t"
    unfolding repository_wf_def using o2 keep way vk(1) repository_wfD(2)[OF wf] by (auto simp: p split: if_splits)
  moreover have "scope_le s t" unfolding scope_le_def using sc vk by (auto simp: p same_scope_def)
  ultimately show ?thesis using o2 by (simp add: repository_le_def)
qed

lemma confirm_wf:
  assumes "repository_wf E w s" and "world_wf E w" and "inj (random E)" and "confirm E (world_readers w) c s = (r, t)"
  shows "repository_wf E w t \<and> repository_le s t"
proof (cases r)
  case (Inl e)
  then show ?thesis using worker_change_wf[OF assms(1) worker_change_by_change[OF same_data_change[OF confirm_error]]] assms(4) by simp
next
  case (Inr x)
  from confirm_cases(5)[OF assms(4)[unfolded Inr]] show ?thesis
    using assms(1) confirm_writes_wf[OF assms(1-3)] by auto
qed


section \<open>The machine\<close>

record provider_call =
  pc_request :: provider_request
  pc_package :: delivery_record
  pc_status :: professional_status

record delivery_system =
  sy_world :: approval_world
  sy_status :: status_table
  sy_repo :: delivery_repository
  sy_flights :: "send_progress list"
  sy_calls :: "provider_call list"

datatype delivery_call =
    OfApprovals approval_call
  | SetStatus string string professional_status
  | Confirm confirm_command
  | CancelPackage string cancel_reason
  | Retry string
  | MarkProviderSent string string
  | StartSend string
  | ResumeSend nat send_answer

text \<open>What the provider is called with when a segment ends at the provider, with the package and the status of that moment.\<close>

fun calls_of :: "status_table \<Rightarrow> delivery_repository \<Rightarrow> send_progress \<Rightarrow> send_progress \<Rightarrow> provider_call list" where
  "calls_of t s (AtEgress v) (AtProvider v' q) = (case map_of (rp_packages s) (dr_packageId v) of
     None \<Rightarrow> [] | Some x \<Rightarrow> [\<lparr>pc_request = q, pc_package = x, pc_status = readStatus t (dr_organizationId x) (dr_jobId x)\<rparr>])"
| "calls_of t s p p' = []"

fun system_after :: "env \<Rightarrow> delivery_call \<Rightarrow> delivery_system \<Rightarrow> delivery_system" where
  "system_after E (OfApprovals c) y = y\<lparr>sy_world := world_after E c (sy_world y)\<rparr>"
| "system_after E (SetStatus org job v) y = y\<lparr>sy_status := status_set org job v (sy_status y)\<rparr>"
| "system_after E (Confirm c) y = y\<lparr>sy_repo := snd (confirm E (world_readers (sy_world y)) c (sy_repo y))\<rparr>"
| "system_after E (CancelPackage k reason) y = y\<lparr>sy_repo := snd (cancelPackage E k reason (sy_repo y))\<rparr>"
| "system_after E (Retry k) y = y\<lparr>sy_repo := snd (retry E k (sy_repo y))\<rparr>"
| "system_after E (MarkProviderSent k ref) y = y\<lparr>sy_repo := snd (markProviderSent E k ref (sy_repo y))\<rparr>"
| "system_after E (StartSend k) y = (let r = send_start E (sy_status y) k (sy_repo y)
     in y\<lparr>sy_repo := snd r, sy_flights := sy_flights y @ [fst r]\<rparr>)"
| "system_after E (ResumeSend n a) y = (if n < length (sy_flights y)
     then let p = sy_flights y ! n; r = resume_send E (sy_status y) p a (sy_repo y)
          in y\<lparr>sy_repo := snd r, sy_flights := (sy_flights y)[n := fst r],
               sy_calls := sy_calls y @ calls_of (sy_status y) (snd r) p (fst r)\<rparr>
     else y)"

definition empty_system :: delivery_system where
  "empty_system = \<lparr>sy_world = empty_world, sy_status = [], sy_repo = empty_repository, sy_flights = [], sy_calls = []\<rparr>"

inductive reachable_system :: "env \<Rightarrow> delivery_system \<Rightarrow> bool" for E where
  init: "reachable_system E empty_system"
| step: "reachable_system E y \<Longrightarrow> reachable_system E (system_after E c y)"

section \<open>Its invariant\<close>

fun started_of :: "send_progress \<Rightarrow> delivery_record option" where
  "started_of (Finished r) = None"
| "started_of (AtHook v) = Some v"
| "started_of (AtEgress v) = Some v"
| "started_of (AtProvider v q) = Some v"
| "started_of (AtAfterHook v r) = Some v"

definition flight_ok :: "delivery_repository \<Rightarrow> send_progress \<Rightarrow> bool" where
  "flight_ok s p \<longleftrightarrow> (\<forall>v. started_of p = Some v \<longrightarrow> (\<exists>x. map_of (rp_packages s) (dr_packageId v) = Some x
     \<and> dr_organizationId x = dr_organizationId v \<and> dr_jobId x = dr_jobId v))"

definition request_of :: "provider_request \<Rightarrow> delivery_record \<Rightarrow> bool" where
  "request_of q v \<longleftrightarrow> pq_packageId q = dr_packageId v \<and> pq_organizationId q = dr_organizationId v \<and> pq_jobId q = dr_jobId v"

definition call_ok :: "env \<Rightarrow> approval_world \<Rightarrow> delivery_repository \<Rightarrow> provider_call \<Rightarrow> bool" where
  "call_ok E w s pc \<longleftrightarrow> dr_state (pc_package pc) = Sending \<and> \<not> isBlocked (pc_package pc) (pc_status pc)
     \<and> request_of (pc_request pc) (pc_package pc)
     \<and> map fr_module (dr_moduleSnapshots (pc_package pc)) = dr_commissionedModules (pc_package pc)
     \<and> list_all (reference_vouched E w) (dr_moduleSnapshots (pc_package pc))
     \<and> send_fingerprint E (pc_package pc) = Inr (pq_requestFingerprint (pc_request pc))
     \<and> (\<exists>n. pq_idempotencyKey (pc_request pc) = send_key (pq_packageId (pc_request pc)) n)
     \<and> (\<exists>ob. outbox_of s (pq_packageId (pc_request pc)) = Some ob \<and> ob_idempotencyKey ob = pq_idempotencyKey (pc_request pc)
          \<and> ob_requestFingerprint ob = pq_requestFingerprint (pc_request pc))"

definition system_wf :: "env \<Rightarrow> delivery_system \<Rightarrow> bool" where
  "system_wf E y \<longleftrightarrow> world_wf E (sy_world y) \<and> repository_wf E (sy_world y) (sy_repo y)
     \<and> list_all (flight_ok (sy_repo y)) (sy_flights y) \<and> list_all (call_ok E (sy_world y) (sy_repo y)) (sy_calls y)"

lemma flight_ok_later: "repository_le s t \<Longrightarrow> flight_ok s p \<Longrightarrow> flight_ok t p"
  unfolding flight_ok_def repository_le_def scope_le_def by metis

lemma call_ok_later: "repository_le s t \<Longrightarrow> call_ok E w s pc \<Longrightarrow> call_ok E w t pc"
  unfolding call_ok_def repository_le_def outbox_le_def by metis

lemma reference_vouched_later:
  assumes "reference_vouched E w r"
  shows "reference_vouched E (world_after E c w) r"
proof -
  from assms obtain a s where a: "vouched_approval E w a" and s: "getById (wo_snapshots w) (fr_snapshotId r) = Some s"
    and rest: "snapshot_verifies E s" "r = reference s a" "ap_snapshotId a = ms_snapshotId s" "ap_snapshotHash a = ms_canonicalHash s"
      "av_snapshotRevision a = ms_revision s"
    unfolding reference_vouched_def stored_reference_def by blast
  have "vouched_approval E (world_after E c w) a"
    by (rule approval_service.step_vouched[OF _ a]) (auto simp: world_step_def)
  moreover have "getById (wo_snapshots (world_after E c w)) (fr_snapshotId r) = Some s"
    using world_after_snapshots[of w E c] s unfolding snapshots_le_def getById_def by blast
  ultimately show ?thesis using rest unfolding reference_vouched_def stored_reference_def by blast
qed

lemma references_later: "list_all (reference_vouched E w) rs \<Longrightarrow> list_all (reference_vouched E (world_after E c w)) rs"
  using reference_vouched_later by (auto simp: list_all_iff)

lemma repository_wf_world: "repository_wf E w s \<Longrightarrow> repository_wf E (world_after E c w) s"
  unfolding repository_wf_def frozen_ok_def using references_later by blast

lemma call_ok_world: "call_ok E w s pc \<Longrightarrow> call_ok E (world_after E c w) s pc"
  unfolding call_ok_def using references_later by blast

lemma system_wf_repo:
  assumes "system_wf E y" and "repository_wf E (sy_world y) t \<and> repository_le (sy_repo y) t"
    and "list_all (flight_ok t) fl" and "list_all (call_ok E (sy_world y) t) cs"
  shows "system_wf E (y\<lparr>sy_repo := t, sy_flights := sy_flights y @ fl, sy_calls := sy_calls y @ cs\<rparr>)"
    "system_wf E (y\<lparr>sy_repo := t\<rparr>)"
  using assms flight_ok_later call_ok_later unfolding system_wf_def by (auto simp: list_all_iff)

end
