(* ===== verification/Delivery_Properties.thy ===== *)
theory Delivery_Properties
  imports Delivery_Machine
begin

text \<open>
  The properties of guarded delivery: what a confirmation freezes, what each request to the provider
  stands for, that a transaction that throws changes nothing, and that every step makes on a package at most
  the one move that its operation allows; and a confirmation that overwrites a package already sent.
\<close>

section \<open>Every step keeps the invariant\<close>

lemma resume_started:
  "resume_send E tb p a s = (p', t) \<Longrightarrow> started_of p' = None \<or> started_of p' = started_of p"
  by (induction E tb p a rule: resume_send.induct)
    (auto simp: send_authorise_def send_dispatch_def unless_blocked_def send_result_def send_record_def send_lost_def finish_def Let_def
      split: if_splits option.splits sum.splits prod.splits)

lemma revalidate_None:
  assumes "revalidate E tb v s = (Inr None, t)"
  shows "t = s \<and> (\<exists>x. map_of (rp_packages s) (dr_packageId v) = Some x \<and> dr_state x = Sending
    \<and> \<not> isBlocked x (readStatus tb (dr_organizationId x) (dr_jobId x)))"
  using assms by (auto simp: revalidate_def ran state_is_def Let_def split: if_splits)

lemma calls_of_Cons:
  assumes "pc \<in> set (calls_of tb s p p')"
  obtains v v' q x where "p = AtEgress v" "p' = AtProvider v' q" "map_of (rp_packages s) (dr_packageId v) = Some x"
    "pc = \<lparr>pc_request = q, pc_package = x, pc_status = readStatus tb (dr_organizationId x) (dr_jobId x)\<rparr>"
  using assms by (induction tb s p p' rule: calls_of.induct) (auto split: option.splits)

lemma dispatch_sends:
  assumes "resume_send E tb (AtEgress v) a s = (AtProvider v' q, t)"
  shows "t = s \<and> (\<exists>ob. outbox_of s (dr_packageId v) = Some ob \<and> q = send_request v ob)
    \<and> (\<exists>x. map_of (rp_packages s) (dr_packageId v) = Some x \<and> dr_state x = Sending
        \<and> \<not> isBlocked x (readStatus tb (dr_organizationId x) (dr_jobId x)))"
proof (cases a)
  case (Egress ok)
  with assms obtain ob where ob: "outbox_of s (dr_packageId v) = Some ob" and q: "q = send_request v ob"
    and r: "revalidate E tb v s = (Inr None, t)"
    by (auto simp: send_dispatch_def unless_blocked_def finish_def Let_def split: if_splits option.splits sum.splits prod.splits)
  show ?thesis using revalidate_None[OF r] ob q by blast
qed (use assms in simp_all)

lemma resumed_calls_ok:
  assumes wf: "repository_wf E w s" and fl: "flight_ok s p" and r: "resume_send E tb p a s = (p', t)" and pc: "pc \<in> set (calls_of tb t p p')"
  shows "call_ok E w t pc"
proof -
  from pc obtain v v' q x where p: "p = AtEgress v" "p' = AtProvider v' q" and x: "map_of (rp_packages t) (dr_packageId v) = Some x"
    and c: "pc = \<lparr>pc_request = q, pc_package = x, pc_status = readStatus tb (dr_organizationId x) (dr_jobId x)\<rparr>" by (rule calls_of_Cons)
  from dispatch_sends[OF r[unfolded p]] x obtain ob where t: "t = s" and ob: "outbox_of s (dr_packageId v) = Some ob" "q = send_request v ob"
    and st: "dr_state x = Sending" "\<not> isBlocked x (readStatus tb (dr_organizationId x) (dr_jobId x))" by auto
  have xs: "map_of (rp_packages s) (dr_packageId v) = Some x" using x t by simp
  have id: "dr_packageId x = dr_packageId v" using repository_wfD(2)[OF wf xs] .
  have sc: "dr_organizationId x = dr_organizationId v" "dr_jobId x = dr_jobId v" using fl xs by (auto simp: flight_ok_def p(1))
  have "on_the_way (dr_state x)" using st(1) by (simp add: on_the_way_def)
  from repository_wfD(3)[OF wf xs this] ob(1) have fz: "frozen_ok E w x ob" by simp
  have "map_of (rp_outbox s) (ob_outboxId ob) = Some ob" "ob_packageId ob = dr_packageId v"
    using ob(1) outbox_of_Some[OF repository_wfD(1)[OF wf]] by simp_all
  then have "\<exists>n. ob_idempotencyKey ob = send_key (dr_packageId v) n" using outbox_wfD(3)[OF repository_wfD(1)[OF wf]] by metis
  then show ?thesis
    using fz ob st id sc unfolding c call_ok_def t by (simp add: send_request_def request_of_def frozen_ok_def)
qed

lemma start_sending_stored:
  assumes "start_sending E k s = (Inr v, t)"
  shows "map_of (rp_packages t) (dr_packageId v) = Some v \<or> (map_of (rp_packages s) k = Some v \<and> t = s)"
  using assms unfolding start_sending_def by (auto simp: ran split: if_splits)

lemma send_start_flight:
  assumes wf: "repository_wf E w s" and "send_start E tb k s = (p, t)"
  shows "flight_ok t p"
proof (cases p)
  case (AtHook v)
  with assms(2) have "start_sending E k s = (Inr v, t)"
    by (auto simp: send_start_def finish_def Let_def split: prod.splits sum.splits if_splits)
  from start_sending_stored[OF this] repository_wfD(2)[OF wf] show ?thesis by (auto simp: flight_ok_def AtHook)
qed (use assms(2) in \<open>auto simp: send_start_def finish_def Let_def flight_ok_def split: prod.splits sum.splits if_splits\<close>)

lemma worker_system_wf:
  assumes "system_wf E y" and "worker_op m"
  shows "system_wf E (y\<lparr>sy_repo := snd (m (sy_repo y))\<rparr>)"
proof (rule system_wf_repo(2)[OF assms(1), of _ "[]" "[]"])
  have "repository_wf E (sy_world y) (sy_repo y)" using assms(1) by (simp add: system_wf_def)
  from worker_change_wf[OF this worker_op_change[OF assms(2) prod.collapse[symmetric]]]
  show "repository_wf E (sy_world y) (snd (m (sy_repo y))) \<and> repository_le (sy_repo y) (snd (m (sy_repo y)))" .
qed simp_all

lemma start_system_wf:
  assumes y: "system_wf E y"
  shows "system_wf E (system_after E (StartSend k) y)"
proof -
  obtain p t where r: "send_start E (sy_status y) k (sy_repo y) = (p, t)" by fastforce
  have wf: "repository_wf E (sy_world y) (sy_repo y)" using y by (simp add: system_wf_def)
  note t = worker_changes_wf[OF send_start_changes[OF r] wf]
  have "system_wf E (y\<lparr>sy_repo := t, sy_flights := sy_flights y @ [p], sy_calls := sy_calls y @ []\<rparr>)"
    by (rule system_wf_repo(1)[OF y t]) (simp_all add: send_start_flight[OF wf r])
  then show ?thesis by (simp add: r)
qed

lemma resume_system_wf:
  assumes y: "system_wf E y"
  shows "system_wf E (system_after E (ResumeSend n a) y)"
proof (cases "n < length (sy_flights y)")
  case True
  let ?p = "sy_flights y ! n"
  obtain p' t where r: "resume_send E (sy_status y) ?p a (sy_repo y) = (p', t)" by fastforce
  have wf: "repository_wf E (sy_world y) (sy_repo y)" and fl: "list_all (flight_ok (sy_repo y)) (sy_flights y)"
    and w: "world_wf E (sy_world y)" and cs: "list_all (call_ok E (sy_world y) (sy_repo y)) (sy_calls y)"
    using y by (simp_all add: system_wf_def)
  note t = worker_changes_wf[OF resume_changes[OF r] wf]
  have p: "flight_ok (sy_repo y) ?p" using fl True by (simp add: list_all_length)
  have p': "flight_ok t p'" using resume_started[OF r] flight_ok_later[OF conjunct2[OF t] p] by (auto simp: flight_ok_def)
  have "list_all (flight_ok t) ((sy_flights y)[n := p'])"
    using fl flight_ok_later[OF conjunct2[OF t]] p' by (auto simp: list_all_iff dest!: subsetD[OF set_update_subset_insert])
  moreover have "list_all (call_ok E (sy_world y) t) (sy_calls y @ calls_of (sy_status y) t ?p p')"
    using cs call_ok_later[OF conjunct2[OF t]] resumed_calls_ok[OF wf p r] by (auto simp: list_all_iff)
  ultimately show ?thesis using w t True by (simp add: system_wf_def r)
qed (use y in simp)

lemma system_after_wf:
  assumes inj: "inj (random E)" and y: "system_wf E y"
  shows "system_wf E (system_after E c y)"
proof (cases c)
  case (OfApprovals d)
  then show ?thesis using y world_after_wf repository_wf_world call_ok_world by (auto simp: system_wf_def list_all_iff)
next
  case (Confirm d)
  obtain r t where c: "confirm E (world_readers (sy_world y)) d (sy_repo y) = (r, t)" by fastforce
  have wf: "repository_wf E (sy_world y) (sy_repo y)" and w: "world_wf E (sy_world y)" using y by (simp_all add: system_wf_def)
  have "system_wf E (y\<lparr>sy_repo := t\<rparr>)"
    by (rule system_wf_repo(2)[OF y confirm_wf[OF wf w inj c], of "[]" "[]"]) simp_all
  then show ?thesis by (simp add: Confirm c)
next
  case (CancelPackage k reason)
  then show ?thesis using worker_system_wf[OF y worker_ops(1)] by simp
next
  case (Retry k)
  then show ?thesis using worker_system_wf[OF y worker_ops(2)] by simp
next
  case (MarkProviderSent k ref)
  then show ?thesis using worker_system_wf[OF y worker_ops(3)] by simp
next
  case (StartSend k)
  then show ?thesis using start_system_wf[OF y] by blast
next
  case (ResumeSend n a)
  then show ?thesis using resume_system_wf[OF y] by blast
qed (use y in \<open>simp add: system_wf_def\<close>)

lemma empty_system_wf: "system_wf E empty_system"
  by (simp add: system_wf_def empty_system_def empty_world_wf repository_wf_def outbox_wf_def empty_repository_def)

lemma reachable_system_wf: "inj (random E) \<Longrightarrow> reachable_system E y \<Longrightarrow> system_wf E y"
  by (rotate_tac, induction rule: reachable_system.induct) (simp_all add: empty_system_wf system_after_wf)


section \<open>Packages along the lifecycle\<close>

text \<open>The abstract lifecycle: the moves each call may make, and on which package, given the record it finds.  A resumed
  sending moves the package it was started for, as its await and the answer say.\<close>

definition blocked_now :: "status_table \<Rightarrow> delivery_record \<Rightarrow> bool" where
  "blocked_now tb v \<longleftrightarrow> isBlocked v (readStatus tb (dr_organizationId v) (dr_jobId v))"

fun resume_edge :: "status_table \<Rightarrow> send_progress \<Rightarrow> send_answer \<Rightarrow> string \<Rightarrow> delivery_record \<Rightarrow> delivery_state \<Rightarrow> bool" where
  "resume_edge tb (AtHook u) (Hook ok) k v st \<longleftrightarrow> k = dr_packageId u \<and> ok \<and> blocked_now tb v \<and> from_to Sending DlCancelled v st"
| "resume_edge tb (AtEgress u) (Egress ok) k v st \<longleftrightarrow> k = dr_packageId u
     \<and> (if ok then blocked_now tb v \<and> from_to Sending DlCancelled v st else from_to Sending DlFailed v st)"
| "resume_edge tb (AtProvider u q) (Provider answer) k v st \<longleftrightarrow> k = dr_packageId u \<and> answer = None \<and> from_to Sending DlUnknown v st"
| "resume_edge tb (AtAfterHook u r) (Hook ok) k v st \<longleftrightarrow> k = dr_packageId u
     \<and> (if ok then result_edge r v st else from_to Sending DlUnknown v st)"
| "resume_edge tb p a k v st \<longleftrightarrow> False"

fun lifecycle_edge :: "delivery_system \<Rightarrow> delivery_call \<Rightarrow> string \<Rightarrow> delivery_record \<Rightarrow> delivery_state \<Rightarrow> bool" where
  "lifecycle_edge y (Confirm c) k v st \<longleftrightarrow> k = cc_packageId c \<and> dr_state v \<in> {WaitingApproval, WaitingEvidence}
     \<and> st \<in> {WaitingApproval, WaitingEvidence, DlQueued}"
| "lifecycle_edge y (CancelPackage k' reason) k v st \<longleftrightarrow> k = k' \<and> cancel_edge v st"
| "lifecycle_edge y (Retry k') k v st \<longleftrightarrow> k = k' \<and> retry_edge v st"
| "lifecycle_edge y (MarkProviderSent k' ref) k v st \<longleftrightarrow> k = k' \<and> observed_edge v st"
| "lifecycle_edge y (StartSend k') k v st \<longleftrightarrow> k = k' \<and> dr_state v = DlQueued
     \<and> (st = Sending \<or> (st = DlCancelled \<and> blocked_now (sy_status y) v))"
| "lifecycle_edge y (ResumeSend n a) k v st \<longleftrightarrow> n < length (sy_flights y) \<and> resume_edge (sy_status y) (sy_flights y ! n) a k v st"
| "lifecycle_edge y call k v st \<longleftrightarrow> False"

lemma sent_no_edge: "dr_state v = Sent \<Longrightarrow> \<not> lifecycle_edge y call k v st"
proof (cases call)
  case (ResumeSend n a)
  assume "dr_state v = Sent"
  then have "\<not> resume_edge tb p a k v st" for tb p
    by (cases p; cases a) (simp_all add: edges)
  then show ?thesis by (simp add: ResumeSend)
qed (simp_all add: edges)

text \<open>What a step from one repository to another does to every package.\<close>

definition package_step :: "(string \<Rightarrow> delivery_record \<Rightarrow> delivery_state \<Rightarrow> bool) \<Rightarrow> delivery_repository \<Rightarrow> delivery_repository \<Rightarrow> bool" where
  "package_step M s t \<longleftrightarrow> (\<forall>k v. map_of (rp_packages s) k = Some v \<longrightarrow> (\<exists>v'. map_of (rp_packages t) k = Some v'
     \<and> (v' = v \<or> (M k v (dr_state v') \<and> dr_revision v < dr_revision v' \<and> frozen_content v' = frozen_content v))))"

lemma package_step_same [simp]: "package_step M s s"
  by (simp add: package_step_def)

lemma package_step_mono:
  assumes "package_step M s t"
    and "\<And>k v st. map_of (rp_packages s) k = Some v \<Longrightarrow> M k v st \<Longrightarrow> M' k v st"
  shows "package_step M' s t"
  using assms unfolding package_step_def by meson

lemma worker_change_step:
  assumes wf: "repository_wf E w s" and c: "worker_change_by k M s t"
  shows "package_step (\<lambda>k' v st. k' = k \<and> M v st) s t"
  using c unfolding worker_change_by_def
proof
  assume "same_data s t"
  then show ?thesis by (auto simp: same_data_def package_step_def)
next
  assume "\<exists>v v'. map_of (rp_packages s) k = Some v \<and> M v (dr_state v') \<and> package_moved v v'
     \<and> rp_packages t = map_set (dr_packageId v') v' (rp_packages s) \<and> outbox_touched k s t
     \<and> rp_idempotency t = rp_idempotency s \<and> grows s t"
  then obtain v v' where v: "map_of (rp_packages s) k = Some v" "M v (dr_state v')" and m: "package_moved v v'"
    and p: "rp_packages t = map_set (dr_packageId v') v' (rp_packages s)" by blast
  have "dr_packageId v' = k" using package_of_moved[OF m] repository_wfD(2)[OF wf v(1)] by simp
  then show ?thesis using v m by (auto simp: p package_step_def package_moved_def)
qed

lemma worker_op_step:
  assumes "repository_wf E w s" and "worker_op_by k M m"
  shows "package_step (\<lambda>k' v st. k' = k \<and> M v st) s (snd (m s))"
  by (rule worker_change_step[OF assms(1) worker_op_by_change[OF assms(2) prod.collapse[symmetric]]])

lemma finish_snd: "snd (finish m s) = snd (m s)"
  by (simp add: finish_def Let_def)

lemma revalidate_step:
  assumes wf: "repository_wf E w s"
  shows "package_step (\<lambda>k v st. k = dr_packageId u \<and> blocked_now tb v \<and> from_to Sending DlCancelled v st) s (snd (revalidate E tb u s))"
proof -
  consider "snd (revalidate E tb u s) = s"
    | x where "map_of (rp_packages s) (dr_packageId u) = Some x" "dr_state x = Sending" "blocked_now tb x"
      "snd (revalidate E tb u s) = snd (cancelBlocked E x (readStatus tb (dr_organizationId x) (dr_jobId x)) s)"
  proof (cases "map_of (rp_packages s) (dr_packageId u)")
    case (Some x)
    have e: "snd (revalidate E tb u s) = (if dr_state x = Sending \<and> blocked_now tb x
        then snd (cancelBlocked E x (readStatus tb (dr_organizationId x) (dr_jobId x)) s) else s)"
      by (simp add: Some revalidate_def st_bind_def getPackage_def st_return_def st_ensure_def state_is_def Let_def
          blocked_now_def split: sum.split)
    show thesis using that(1) that(2)[OF Some] e by (cases "dr_state x = Sending \<and> blocked_now tb x") simp_all
  qed (simp add: revalidate_def st_bind_def getPackage_def st_ensure_def state_is_def)
  then show ?thesis
  proof cases
    case (2 x)
    have "dr_packageId x = dr_packageId u" using repository_wfD(2)[OF wf 2(1)] .
    with worker_op_step[OF wf worker_ops_by(8)[of x E "readStatus tb (dr_organizationId x) (dr_jobId x)"]]
    have "package_step (\<lambda>k v st. k = dr_packageId u \<and> cancel_edge v st) s (snd (revalidate E tb u s))" unfolding 2(4) by simp
    then show ?thesis by (rule package_step_mono) (use 2 in \<open>auto simp: edges\<close>)
  qed simp
qed

lemma unless_blocked_snd:
  assumes "\<And>s'. snd (go s') = s'"
  shows "snd (unless_blocked E tb u go s) = snd (revalidate E tb u s)"
  by (cases "revalidate E tb u s") (simp add: unless_blocked_def assms split: sum.splits option.splits)

text \<open>A resumed sending makes at most its edge.\<close>

lemma unless_blocked_step:
  assumes "repository_wf E w s" and "\<And>s'. snd (go s') = s'"
    and "\<And>v st. blocked_now tb v \<Longrightarrow> from_to Sending DlCancelled v st \<Longrightarrow> M (dr_packageId u) v st"
  shows "package_step M s (snd (unless_blocked E tb u go s))"
  unfolding unless_blocked_snd[OF assms(2)]
  by (rule package_step_mono[OF revalidate_step[OF assms(1)]]) (use assms(3) in blast)

lemma finish_step:
  assumes "repository_wf E w s" and "worker_op_by k N m" and "\<And>v st. N v st \<Longrightarrow> M k v st"
  shows "package_step M s (snd (finish m s))"
  unfolding finish_snd by (rule package_step_mono[OF worker_op_step[OF assms(1,2)]]) (use assms(3) in blast)

lemma resume_step:
  assumes wf: "repository_wf E w s"
  shows "package_step (resume_edge tb p a) s (snd (resume_send E tb p a s))"
  using wf
proof (induction E tb p a rule: resume_send.induct)
  case (1 E tb u ok)
  then show ?case by (cases ok) (auto simp: send_authorise_def intro!: unless_blocked_step[OF 1])
next
  case (2 E tb u ok)
  then show ?case
    by (cases ok) (auto simp: send_dispatch_def split: option.split
        intro!: unless_blocked_step[OF 2] finish_step[OF 2 worker_ops_by(6)])
next
  case (3 E tb u q answer)
  then show ?case
    by (cases answer) (auto simp: send_result_def send_lost_def intro!: finish_step[OF 3 worker_ops_by(5)])
next
  case (4 E tb u r ok)
  then show ?case
    by (cases ok) (auto simp: send_record_def send_lost_def
        intro!: finish_step[OF 4 worker_ops_by(5)] finish_step[OF 4 worker_ops_by(7)])
qed simp_all

text \<open>The start of a sending: from queued to sending, and on to cancelled when it is blocked.\<close>

lemma start_sending_cases:
  assumes "start_sending E k s = (Inr u, t)"
  obtains (cancelled) "dr_state u = DlCancelled" "t = s"
  | (started) v at where "map_of (rp_packages s) k = Some v" "dr_state v = DlQueued"
      "u = v\<lparr>dr_state := Sending, dr_revision := dr_revision v + 1, dr_updatedAt := at\<rparr>"
      "rp_packages t = map_set (dr_packageId v) u (rp_packages s)"
proof -
  obtain c where c: "map_of (rp_packages s) k = Some c" using assms by (auto simp: start_sending_def ran)
  show thesis
  proof (cases "dr_state c = DlCancelled")
    case True
    then show thesis using assms c cancelled by (auto simp: start_sending_def ran)
  next
    case False
    from assms c False obtain at s0 s1 s2 where q: "dr_state c = DlQueued" and r: "readNow E s = (Inr at, s0)"
      and tr: "transition_package k [DlQueued] Sending at (\<lambda>v. v) s0 = (Inr u, s1)"
      and ob: "updateOutbox k ObProcessing at s1 = (Inr (), s2)"
      and l: "logEvent E c EvSendStarted (dr_revision u) at [(''priorState'', JStr (delivery_state_text (dr_state c)))] s2 = (Inr (), t)"
      unfolding start_sending_def by (auto simp: existing_package_Inr)
    have "rp_packages s0 = rp_packages s" using r by (auto simp: ran)
    then have "u = c\<lparr>dr_state := Sending, dr_revision := dr_revision c + 1, dr_updatedAt := at\<rparr>"
      "rp_packages s1 = map_set (dr_packageId c) u (rp_packages s)" using tr c by (auto simp: transition_Inr)
    moreover have "rp_packages t = rp_packages s1" using ob l by (auto simp: updateOutbox_Inr logEvent_Inr)
    ultimately show thesis using started[OF c q] by simp
  qed
qed

lemma start_step:
  assumes wf: "repository_wf E w s"
  shows "package_step (\<lambda>k' v st. k' = k \<and> dr_state v = DlQueued \<and> (st = Sending \<or> (st = DlCancelled \<and> blocked_now tb v))) s
    (snd (send_start E tb k s))"
proof -
  let ?M = "\<lambda>k' v st. k' = k \<and> dr_state v = DlQueued \<and> (st = Sending \<or> (st = DlCancelled \<and> blocked_now tb v))"
  obtain r s' where r: "start_sending E k s = (r, s')" by fastforce
  have one: "package_step ?M s s'"
    using worker_op_step[OF wf worker_ops_by(4)[of k E]] unfolding r snd_conv by (rule package_step_mono) (auto simp: edges)
  consider "snd (send_start E tb k s) = s'"
    | u where "r = Inr u" "dr_state u \<noteq> DlCancelled" "blocked_now tb u"
        "snd (send_start E tb k s) = snd (cancelBlocked E u (readStatus tb (dr_organizationId u) (dr_jobId u)) s')"
  proof (cases r)
    case (Inr u)
    have e: "snd (send_start E tb k s) = (if dr_state u \<noteq> DlCancelled \<and> blocked_now tb u
        then snd (cancelBlocked E u (readStatus tb (dr_organizationId u) (dr_jobId u)) s') else s')"
      by (simp add: send_start_def r Inr Let_def finish_snd blocked_now_def)
    show thesis using that(1) that(2)[OF Inr] e by (cases "dr_state u \<noteq> DlCancelled \<and> blocked_now tb u") simp_all
  qed (use that(1) in \<open>simp add: send_start_def r\<close>)
  then show ?thesis
  proof cases
    case (2 u)
    obtain v at where v: "map_of (rp_packages s) k = Some v" "dr_state v = DlQueued"
      and u: "u = v\<lparr>dr_state := Sending, dr_revision := dr_revision v + 1, dr_updatedAt := at\<rparr>"
      and s': "rp_packages s' = map_set (dr_packageId v) u (rp_packages s)"
      by (rule start_sending_cases[OF r[unfolded 2(1)]]) (use 2(2) in auto)
    have id: "dr_packageId u = k" "dr_packageId v = k" using repository_wfD(2)[OF wf v(1)] by (simp_all add: u)
    have wf': "repository_wf E w s'"
      using worker_change_wf[OF wf worker_op_change[OF worker_ops(4) r]] by blast
    have c: "package_step (\<lambda>k' v st. k' = k \<and> cancel_edge v st) s' (snd (send_start E tb k s))"
      using worker_op_step[OF wf' worker_ops_by(8)[of u E "readStatus tb (dr_organizationId u) (dr_jobId u)"]]
      unfolding 2(4) id(1) .
    have b: "blocked_now tb v" using 2(3) by (simp add: u blocked_now_def isBlocked_def)
    have u': "frozen_content u = frozen_content v" "dr_revision v < dr_revision u" "dr_state u = Sending"
      by (simp_all add: u frozen_content_def)
    show ?thesis unfolding package_step_def
    proof (intro allI impI)
      fix k' x
      assume x: "map_of (rp_packages s) k' = Some x"
      define x1 where "x1 = (if k' = k then u else x)"
      have "map_of (rp_packages s') k' = Some x1" using x by (simp add: s' id x1_def)
      then obtain x' where x': "map_of (rp_packages (snd (send_start E tb k s))) k' = Some x'"
        "x' = x1 \<or> (k' = k \<and> dr_state x' = DlCancelled \<and> dr_revision x1 < dr_revision x' \<and> frozen_content x' = frozen_content x1)"
        using c unfolding package_step_def cancel_edge_def by blast
      show "\<exists>x'. map_of (rp_packages (snd (send_start E tb k s))) k' = Some x' \<and> (x' = x \<or> (?M k' x (dr_state x')
          \<and> dr_revision x < dr_revision x' \<and> frozen_content x' = frozen_content x))"
        using x x' v b u' by (cases "k' = k") (auto simp: x1_def intro!: exI[of _ x'])
    qed
  qed (use one in simp)
qed

lemma worker_step_package:
  assumes wf: "repository_wf E w (sy_repo y)" and "\<And>c. call \<noteq> Confirm c"
  shows "package_step (lifecycle_edge y call) (sy_repo y) (sy_repo (system_after E call y))"
proof (cases call)
  case (CancelPackage k reason)
  show ?thesis using worker_op_step[OF wf worker_ops_by(1)[of k E reason]]
    unfolding CancelPackage system_after.simps by (simp add: package_step_def)
next
  case (Retry k)
  show ?thesis using worker_op_step[OF wf worker_ops_by(2)[of k E]]
    unfolding Retry system_after.simps by (simp add: package_step_def)
next
  case (MarkProviderSent k ref)
  show ?thesis using worker_op_step[OF wf worker_ops_by(3)[of k E ref]]
    unfolding MarkProviderSent system_after.simps by (simp add: package_step_def)
next
  case (StartSend k)
  show ?thesis using start_step[OF wf, of k "sy_status y"] 
    by (cases "send_start E (sy_status y) k (sy_repo y)") (simp add: StartSend package_step_def)
next
  case (ResumeSend n a)
  show ?thesis using resume_step[OF wf, of "sy_status y" "sy_flights y ! n" a]
    by (cases "resume_send E (sy_status y) (sy_flights y ! n) a (sy_repo y)"; cases "n < length (sy_flights y)")
      (simp_all add: ResumeSend package_step_def)
qed (use assms(2) in simp_all)

lemma transactionalD: "transactional m \<Longrightarrow> m s = (Inl e, t) \<Longrightarrow> same_data s t"
  by (auto simp: transactional_def)

text \<open>A send key names its package: the revision at its end has no colon.\<close>

lemma show_nat_no_colon: "CHR '':'' \<notin> set (show_nat n)"
proof (induction n rule: show_nat.induct)
  case (1 n)
  have d: "CHR '':'' \<noteq> (char_of (48 + m) :: char)" if "m < 10" for m :: nat
  proof
    assume "CHR '':'' = (char_of (48 + m) :: char)"
    then have "(of_char (char_of (48 + m) :: char) :: nat) = of_char (CHR '':'')" by metis
    then show False using that by simp
  qed
  show ?case using 1 d[of n] d[of "n mod 10"] by (simp add: show_nat.simps[of n])
qed

lemma show_int_no_colon: "CHR '':'' \<notin> set (show_int n)"
  by (simp add: show_int_def show_nat_no_colon)

lemma last_split:
  assumes "xs @ c # ys = xs' @ c # ys'" and "c \<notin> set ys" and "c \<notin> set ys'"
  shows "xs = xs'"
proof -
  have "rev (tl (dropWhile (\<lambda>x. x \<noteq> c) (rev (zs @ c # us)))) = zs" if "c \<notin> set us" for zs us
  proof -
    have "dropWhile (\<lambda>x. x \<noteq> c) (rev us @ c # rev zs) = c # rev zs" by (subst dropWhile_append2) (use that in auto)
    then show ?thesis by simp
  qed
  from this[OF assms(2), of xs] this[OF assms(3), of xs'] assms(1) show ?thesis by simp
qed

lemma send_key_package: "send_key p m = send_key q n \<Longrightarrow> p = q"
  using last_split[OF _ show_int_no_colon show_int_no_colon] by (simp add: send_key_def)

lemma call_ok_keys:
  assumes "call_ok E w s pc" and "call_ok E w s pd"
  shows "pq_idempotencyKey (pc_request pc) = pq_idempotencyKey (pc_request pd)
      \<longleftrightarrow> pq_packageId (pc_request pc) = pq_packageId (pc_request pd)"
    and "pq_packageId (pc_request pc) = pq_packageId (pc_request pd)
      \<Longrightarrow> pq_requestFingerprint (pc_request pc) = pq_requestFingerprint (pc_request pd)"
proof -
  have s: "pq_packageId (pc_request pc) = pq_packageId (pc_request pd) \<Longrightarrow>
      pq_idempotencyKey (pc_request pc) = pq_idempotencyKey (pc_request pd)
      \<and> pq_requestFingerprint (pc_request pc) = pq_requestFingerprint (pc_request pd)"
    using assms by (auto simp: call_ok_def)
  from assms obtain m n where "pq_idempotencyKey (pc_request pc) = send_key (pq_packageId (pc_request pc)) m"
    "pq_idempotencyKey (pc_request pd) = send_key (pq_packageId (pc_request pd)) n" by (auto simp: call_ok_def)
  then show "pq_idempotencyKey (pc_request pc) = pq_idempotencyKey (pc_request pd)
      \<longleftrightarrow> pq_packageId (pc_request pc) = pq_packageId (pc_request pd)" using s send_key_package by metis
  show "pq_packageId (pc_request pc) = pq_packageId (pc_request pd)
      \<Longrightarrow> pq_requestFingerprint (pc_request pc) = pq_requestFingerprint (pc_request pd)" using s by blast
qed

section \<open>Properties\<close>

text \<open>C37: a confirmation that queues a package freezes, for every commissioned module in order, the identifier,
  hash and revision of the current snapshot with its current approval, all recorded and not withdrawn; the
  verified manifest holds every required original and every evidence hash of those snapshots; the package gets
  its one outbox record, with the fingerprint of what was frozen, and no other package changes.\<close>

theorem confirmation_freezes_approvals:
  assumes "reachable_world E w" and "confirm E (world_readers w) c s = (Inr r, t)" and "\<not> cr_replayed r"
    and "dr_state (cr_package r) = DlQueued"
  shows "map_of (rp_packages t) (cc_packageId c) = Some (cr_package r)
    \<and> (\<exists>hs. list_all2 (\<lambda>m rf. exact_reference (world_readers w) (cc_organizationId c) (cc_jobId c) m rf hs)
          (cc_commissionedModules c) (dr_moduleSnapshots (cr_package r))
        \<and> (\<forall>h \<in> set hs. \<exists>e \<in> set (dm_entries (cc_manifest c)). de_contentHash e = h \<and> de_requiredOriginal e \<and> de_status e = DurVerified))
    \<and> list_all (reference_vouched E w) (dr_moduleSnapshots (cr_package r))
    \<and> (\<forall>e \<in> set (dm_entries (cc_manifest c)). de_requiredOriginal e \<longrightarrow> de_status e = DurVerified)
    \<and> verifyDurabilityManifest E (cc_manifest c) = Inr True
    \<and> dr_durabilityManifestHash (cr_package r) = dm_canonicalHash (cc_manifest c)
    \<and> outbox_of s (cc_packageId c) = None
    \<and> (\<exists>ob. outbox_of t (cc_packageId c) = Some ob \<and> send_fingerprint E (cr_package r) = Inr (ob_requestFingerprint ob))
    \<and> (\<forall>k. k \<noteq> cc_packageId c \<longrightarrow> map_of (rp_packages t) k = map_of (rp_packages s) k)"
proof -
  let ?v = "cr_package r"
  note cases = confirm_cases[OF assms(2)]
  from cases(5) assms(3) obtain rs bs hs where res: "resolveExactApprovals (world_readers w) c = Inr (rs, bs, hs)"
    and v: "?v = confirmed_package c (confirmed_state bs (sendable_evidence c hs)) rs"
    and p: "rp_packages t = map_set (cc_packageId c) ?v (rp_packages s)"
    and ob: "outbox_of s (cc_packageId c) = None \<and> (\<exists>f i. send_fingerprint E ?v = Inr f
      \<and> i = random E (rp_ids s) \<and> rp_ids s < rp_ids t \<and> rp_outbox t = map_set i (new_outbox E c ?v i f) (rp_outbox s))"
    unfolding confirm_writes_def using assms(4) by auto
  have q: "bs = [] \<and> sendable_evidence c hs" using assms(4) unfolding v confirmed_queued .
  have rs: "dr_moduleSnapshots ?v = rs" "dr_durabilityManifestHash ?v = dm_canonicalHash (cc_manifest c)" "dr_packageId ?v = cc_packageId c"
    using q by (simp_all add: v confirmed_package_def confirmed_state_def)
  from ob obtain f i where f: "send_fingerprint E ?v = Inr f" "rp_outbox t = map_set i (new_outbox E c ?v i f) (rp_outbox s)" by blast
  have "outbox_of t (cc_packageId c) = Some (new_outbox E c ?v i f)"
    unfolding outbox_of_def f(2) by (rule find_outbox_set) (use ob rs(3) in \<open>simp_all add: outbox_of_def new_outbox_def\<close>)
  moreover have "ob_requestFingerprint (new_outbox E c ?v i f) = f" by (simp add: new_outbox_def)
  moreover have ex: "list_all2 (\<lambda>m rf. exact_reference (world_readers w) (cc_organizationId c) (cc_jobId c) m rf hs) (cc_commissionedModules c) rs"
    using resolve_exact res q by simp
  moreover have "\<forall>h \<in> set hs. \<exists>e \<in> set (dm_entries (cc_manifest c)). de_contentHash e = h \<and> de_requiredOriginal e \<and> de_status e = DurVerified"
    "\<forall>e \<in> set (dm_entries (cc_manifest c)). de_requiredOriginal e \<longrightarrow> de_status e = DurVerified"
    using q by (auto simp: sendable_evidence_def isManifestSendable_def manifestCoversEvidence_def list_all_iff)
  ultimately show ?thesis
    using exact_references_vouched(2)[OF reachable_world_wf[OF assms(1)] ex] cases(4) p ob f(1) rs by auto
qed

text \<open>C38: whenever the provider is called, in any interleaving of sendings, cancellations, withdrawals and
  confirmations, the package is at that moment in the sending state, neither its job nor one of its modules is
  reported cancelled or withdrawn, and it is frozen to one recorded approval of a stored, verified snapshot per
  commissioned module; the request names the package and carries the fingerprint of exactly that content.\<close>

theorem provider_called_for_approved:
  assumes "inj (random E)" and "reachable_system E y" and "pc \<in> set (sy_calls y)"
  shows "dr_state (pc_package pc) = Sending \<and> \<not> isBlocked (pc_package pc) (pc_status pc)
    \<and> request_of (pc_request pc) (pc_package pc)
    \<and> map fr_module (dr_moduleSnapshots (pc_package pc)) = dr_commissionedModules (pc_package pc)
    \<and> list_all (reference_vouched E (sy_world y)) (dr_moduleSnapshots (pc_package pc))
    \<and> send_fingerprint E (pc_package pc) = Inr (pq_requestFingerprint (pc_request pc))"
  using reachable_system_wf[OF assms(1,2)] assms(3) by (auto simp: system_wf_def list_all_iff call_ok_def)

text \<open>Requests that ever reach the provider, over retries and races, carry the same idempotency key exactly when
  they are for the same package, and then the same fingerprint, so a provider that honours the key delivers
  each package at most once.\<close>

theorem provider_requests_repeat:
  assumes "inj (random E)" and "reachable_system E y" and "pc \<in> set (sy_calls y)" and "pd \<in> set (sy_calls y)"
  shows "(pq_idempotencyKey (pc_request pc) = pq_idempotencyKey (pc_request pd)
      \<longleftrightarrow> pq_packageId (pc_request pc) = pq_packageId (pc_request pd))
    \<and> (pq_packageId (pc_request pc) = pq_packageId (pc_request pd)
      \<longrightarrow> pq_requestFingerprint (pc_request pc) = pq_requestFingerprint (pc_request pd))"
proof -
  have "call_ok E (sy_world y) (sy_repo y) pc" "call_ok E (sy_world y) (sy_repo y) pd"
    using reachable_system_wf[OF assms(1,2)] assms(3,4) by (simp_all add: system_wf_def list_all_iff)
  from call_ok_keys[OF this] show ?thesis by blast
qed

text \<open>C39: a confirmation, cancellation, retry or provider confirmation that throws, and each single transaction of a
  sending that throws (its start, the recording of a result, of an unknown outcome and of a blocked egress), leaves
  packages, outbox, idempotency index and events as they were.  A whole sending is several such transactions, so it may
  throw after its start has been committed.\<close>

theorem delivery_errors_change_nothing:
  assumes "fst r = Inl e"
    and "r = map_prod (map_sum id cr_package) id (confirm E R c s) \<or> r \<in> {cancelPackage E k reason s, retry E k s, markProviderSent E k ref s,
      start_sending E k s, recordResult E v result s, recordUnknown E v key s, recordEgressBlocked E v s}"
  shows "rp_packages (snd r) = rp_packages s \<and> rp_outbox (snd r) = rp_outbox s \<and> rp_idempotency (snd r) = rp_idempotency s
    \<and> rp_events (snd r) = rp_events s"
proof -
  obtain t where r: "r = (Inl e, t)" using assms(1) by (cases r) auto
  have "same_data s t"
  proof (cases "r = map_prod (map_sum id cr_package) id (confirm E R c s)")
    case True
    then have "confirm E R c s = (Inl e, t)" using r by (cases "confirm E R c s"; cases "fst (confirm E R c s)") auto
    then show ?thesis by (rule confirm_error)
  next
    case False
    then have "cancelPackage E k reason s = (Inl e, t) \<or> retry E k s = (Inl e, t) \<or> markProviderSent E k ref s = (Inl e, t)
        \<or> start_sending E k s = (Inl e, t) \<or> recordResult E v result s = (Inl e, t) \<or> recordUnknown E v key s = (Inl e, t)
        \<or> recordEgressBlocked E v s = (Inl e, t)" using assms(2) unfolding r by auto
    then show ?thesis by (elim disjE) (rule transactionalD, rule transactional_ops transactional_recordResult, assumption)+
  qed
  then show ?thesis by (auto simp: same_data_def r)
qed

text \<open>C40: the system refines the lifecycle of a package: a step leaves a package exactly as it is, or makes on it
  the one move the called operation may make from the state it was in.  A cancellation moves it from any state but sent
  to cancelled, a retry from failed, needing no intervention, to queued, a provider confirmation from accepted, unknown or
  cancelled to sent, the start of a sending from queued to sending, or to cancelled when its job or a module is reported
  cancelled or withdrawn, and a resumed sending from sending to the result it was answered, or from cancelled to sent;
  all keep what was frozen.  A confirmation of a waiting package leaves it waiting or queues it.  A sent package stays as
  it is.  Confirmations of packages that wait no longer are left out: the code does not refuse them
  (\<open>confirmation_overwrites_sent\<close>).\<close>

theorem delivery_refines_lifecycle:
  assumes "inj (random E)" and "reachable_system E y" and "map_of (rp_packages (sy_repo y)) k = Some v"
    and "\<And>c. call = Confirm c \<Longrightarrow> cc_packageId c = k \<Longrightarrow> dr_state v \<in> {WaitingApproval, WaitingEvidence}"
  shows "\<exists>v'. map_of (rp_packages (sy_repo (system_after E call y))) k = Some v'
    \<and> (v' = v \<or> (lifecycle_edge y call k v (dr_state v') \<and> dr_revision v < dr_revision v'
          \<and> (frozen_content v' = frozen_content v \<or> (\<exists>c. call = Confirm c))))
    \<and> (dr_state v = Sent \<longrightarrow> v' = v)"
proof (cases "\<exists>c. call = Confirm c")
  case True
  then obtain c where call: "call = Confirm c" by blast
  obtain r t where c: "confirm E (world_readers (sy_world y)) c (sy_repo y) = (r, t)" by fastforce
  show ?thesis
  proof (cases r)
    case (Inl e)
    then show ?thesis using confirm_error[OF c[unfolded Inl]] assms(3) by (auto simp: call c same_data_def intro: exI[of _ v])
  next
    case (Inr x)
    from confirm_cases(5)[OF c[unfolded Inr]] assms(4)[OF call] show ?thesis
      using assms(3) by (auto simp: call c confirm_writes_def confirmed_package_def confirmed_state_def)
  qed
next
  case False
  have "repository_wf E (sy_world y) (sy_repo y)" using reachable_system_wf[OF assms(1,2)] by (simp add: system_wf_def)
  from worker_step_package[OF this] False have "package_step (lifecycle_edge y call) (sy_repo y) (sy_repo (system_after E call y))" by blast
  then show ?thesis using assms(3) sent_no_edge unfolding package_step_def by blast
qed

text \<open>A confirmation looks at no state: with a withdrawn or missing approval it replaces a sent package by one
  waiting for approval, without the provider's reference.\<close>

theorem confirmation_overwrites_sent:
  assumes "canonical_module_set (cc_commissionedModules c)" and "dm_organizationId (cc_manifest c) = cc_organizationId c"
    and "dm_jobId (cc_manifest c) = cc_jobId c" and "verifyDurabilityManifest E (cc_manifest c) = Inr True"
    and "confirm_fingerprint E c = Inr f" and "map_of (rp_idempotency s) (confirm_key c) = None"
    and "map_of (rp_packages s) (cc_packageId c) = Some v" and "dr_state v = Sent" and "same_scope v c"
    and "cc_expectedPackageRevision c = dr_revision v" and "resolveExactApprovals R c = Inr (rs, b # bs, hs)"
  shows "\<exists>r t v'. confirm E R c s = (Inr r, t) \<and> map_of (rp_packages t) (cc_packageId c) = Some v'
    \<and> dr_state v' = WaitingApproval \<and> dr_providerReference v' = None"
proof -
  let ?v = "confirmed_package c WaitingApproval rs"
  have v: "dr_packageId ?v = cc_packageId c" "dr_revision ?v = cc_expectedPackageRevision c + 1" "dr_state ?v = WaitingApproval"
    "dr_providerReference ?v = None" by (simp_all add: confirmed_package_def)
  obtain r t where rt: "record_confirmation E c f (b # bs) ?v s = (Inr r, t)" "rp_packages t = map_set (cc_packageId c) ?v (rp_packages s)"
    by (simp add: record_confirmation_def st_evals writePackage_def getPackage_def Let_def assms(7,10) v setPackage_def bindIdempotency_def
        enqueue_send_def logEvent_def newId_def)
  have "confirm_new E R c f s = (Inr r, t)"
    using rt(1) by (simp add: confirm_new_def st_evals assms(7,9,11) getPackage_def confirmed_state_def)
  then have "transact (st_bind (getIdempotentPackage (confirm_key c) f) (\<lambda>replay. case replay of
      Some v \<Rightarrow> st_return (resultFor v True) | None \<Rightarrow> confirm_new E R c f)) s = (Inr r, t)"
    by (simp add: getIdempotentPackage_def assms(6))
  then have "confirm E R c s = (Inr r, t)" by (simp add: confirm_def st_bind_eval st_ensure_eval st_lift_def assms(1-5) del: transact_Inr)
  then show ?thesis using rt(2) v by simp
qed

end
