(* ===== verification/Delivery_Provider.thy ===== *)
theory Delivery_Provider
  imports Delivery_Properties
begin

text \<open>
  The provider the repository ships for its tests and rehearsals (\<open>packages/delivery/src/fake-delivery-provider.ts\<close>):
  it honours the idempotency key.  The theory proves that it never refuses a request of the delivery
  machine, in any order and with any repetition, and takes each package once.
\<close>

datatype fake_mode = FakeAccepted | FakeSent | RetryableFailure | TerminalFailure | FakeUnknown

record fake_provider =
  fp_mode :: fake_mode
  fp_observed :: "(string, string \<times> provider_result) js_map"
  fp_requests :: "provider_request list"

definition new_fake_provider :: "fake_mode \<Rightarrow> fake_provider" where
  "new_fake_provider m = \<lparr>fp_mode = m, fp_observed = [], fp_requests = []\<rparr>"

definition setMode :: "fake_mode \<Rightarrow> fake_provider \<Rightarrow> fake_provider" where
  "setMode m p = p\<lparr>fp_mode := m\<rparr>"

fun fake_result :: "fake_mode \<Rightarrow> provider_request \<Rightarrow> provider_result" where
  "fake_result FakeAccepted q = PrAccepted (''accepted:'' @ pq_packageId q)"
| "fake_result FakeSent q = PrSent (''sent:'' @ pq_packageId q)"
| "fake_result FakeUnknown q = PrUnknown (''unknown:'' @ pq_packageId q)"
| "fake_result RetryableFailure q = PrFailed ''provider_temporarily_unavailable'' True"
| "fake_result TerminalFailure q = PrFailed ''recipient_configuration_invalid'' False"

text \<open>\<open>None\<close> is the rejected promise: the key was used with another fingerprint.\<close>

definition fake_send :: "provider_request \<Rightarrow> fake_provider \<Rightarrow> provider_result option \<times> fake_provider" where
  "fake_send q p = (case map_of (fp_observed p) (pq_idempotencyKey q) of
       Some (f, r) \<Rightarrow> ((if f = pq_requestFingerprint q then Some r else None), p)
     | None \<Rightarrow> (let r = fake_result (fp_mode p) q in
         (Some r, p\<lparr>fp_requests := fp_requests p @ [q],
            fp_observed := map_set (pq_idempotencyKey q) (pq_requestFingerprint q, r) (fp_observed p)\<rparr>)))"

fun fake_serve :: "(fake_mode option \<times> provider_request) list \<Rightarrow> fake_provider \<Rightarrow> provider_result option list \<times> fake_provider" where
  "fake_serve [] p = ([], p)"
| "fake_serve ((m, q) # qs) p =
     (let p1 = (case m of None \<Rightarrow> p | Some m \<Rightarrow> setMode m p); (r, p2) = fake_send q p1; (rs, p3) = fake_serve qs p2 in (r # rs, p3))"

text \<open>The requests served so far: each key is observed with the fingerprint of its requests, and each package was taken once.\<close>

definition serves :: "provider_request set \<Rightarrow> fake_provider \<Rightarrow> bool" where
  "serves Q p \<longleftrightarrow> set (fp_requests p) \<subseteq> Q \<and> distinct (map pq_packageId (fp_requests p))
     \<and> (\<forall>key f r. map_of (fp_observed p) key = Some (f, r) \<longleftrightarrow>
          (\<exists>q \<in> set (fp_requests p). pq_idempotencyKey q = key \<and> pq_requestFingerprint q = f \<and> map_of (fp_observed p) key = Some (f, r)))
     \<and> (\<forall>q \<in> set (fp_requests p). map_of (fp_observed p) (pq_idempotencyKey q) \<noteq> None)"

definition keyed_requests :: "provider_request set \<Rightarrow> bool" where
  "keyed_requests Q \<longleftrightarrow> (\<forall>q \<in> Q. \<forall>q' \<in> Q. (pq_idempotencyKey q = pq_idempotencyKey q' \<longleftrightarrow> pq_packageId q = pq_packageId q')
     \<and> (pq_packageId q = pq_packageId q' \<longrightarrow> pq_requestFingerprint q = pq_requestFingerprint q'))"

lemma serves_mode: "serves Q p \<Longrightarrow> serves Q (case m of None \<Rightarrow> p | Some m \<Rightarrow> setMode m p)"
  by (cases m) (simp_all add: serves_def setMode_def)

lemma fake_send_serves:
  assumes k: "keyed_requests Q" and s: "serves Q p" and q: "q \<in> Q"
  shows "fst (fake_send q p) \<noteq> None" "serves Q (snd (fake_send q p))"
proof -
  have "fst (fake_send q p) \<noteq> None \<and> serves Q (snd (fake_send q p))"
  proof (cases "map_of (fp_observed p) (pq_idempotencyKey q)")
    case (Some fr)
    obtain f r where fr: "fr = (f, r)" by fastforce
    then obtain q' where q': "q' \<in> set (fp_requests p)" "pq_idempotencyKey q' = pq_idempotencyKey q" "pq_requestFingerprint q' = f"
      using s Some unfolding serves_def by blast
    then have "q' \<in> Q" using s by (auto simp: serves_def)
    then have "f = pq_requestFingerprint q" using k q q' unfolding keyed_requests_def by metis
    then show ?thesis using Some fr s by (simp add: fake_send_def)
  next
    case None
    have other: "pq_idempotencyKey x \<noteq> pq_idempotencyKey q" if "x \<in> set (fp_requests p)" for x
      using s None that unfolding serves_def by metis
    then have "pq_packageId q \<notin> pq_packageId ` set (fp_requests p)"
      using k q s unfolding keyed_requests_def serves_def by (metis imageE subsetD)
    define r where "r = fake_result (fp_mode p) q"
    have sent: "fake_send q p = (Some r, p\<lparr>fp_requests := fp_requests p @ [q],
        fp_observed := map_set (pq_idempotencyKey q) (pq_requestFingerprint q, r) (fp_observed p)\<rparr>)" (is "_ = (_, ?p)")
      using None by (simp add: fake_send_def r_def Let_def)
    have all: "\<forall>x \<in> set (fp_requests p). map_of (fp_observed p) (pq_idempotencyKey x) \<noteq> None"
      and sub: "set (fp_requests p) \<subseteq> Q" "distinct (map pq_packageId (fp_requests p))"
      using s unfolding serves_def by blast+
    have seen: "map_of (fp_observed p) key = Some (f, u) \<Longrightarrow> \<exists>x \<in> set (fp_requests p). pq_idempotencyKey x = key \<and> pq_requestFingerprint x = f" for key f u
      using s unfolding serves_def by blast
    have "map_of (fp_observed ?p) key = Some (f, u) \<Longrightarrow> \<exists>x \<in> set (fp_requests ?p). pq_idempotencyKey x = key \<and> pq_requestFingerprint x = f" for key f u
      using seen[of key f u] by (cases "key = pq_idempotencyKey q") auto
    moreover have "\<forall>x \<in> set (fp_requests ?p). map_of (fp_observed ?p) (pq_idempotencyKey x) \<noteq> None" using all by auto
    moreover have "set (fp_requests ?p) \<subseteq> Q" "distinct (map pq_packageId (fp_requests ?p))"
      using sub q \<open>pq_packageId q \<notin> pq_packageId ` set (fp_requests p)\<close> by auto
    ultimately have "serves Q ?p" unfolding serves_def by blast
    then show ?thesis by (simp add: sent)
  qed
  then show "fst (fake_send q p) \<noteq> None" "serves Q (snd (fake_send q p))" by auto
qed

lemma fake_serve_serves:
  assumes "keyed_requests Q" and "serves Q p" and "snd ` set qs \<subseteq> Q"
  shows "None \<notin> set (fst (fake_serve qs p)) \<and> serves Q (snd (fake_serve qs p))"
  using assms
proof (induction qs arbitrary: p)
  case (Cons x qs)
  obtain m q where x: "x = (m, q)" by fastforce
  let ?p = "case m of None \<Rightarrow> p | Some m \<Rightarrow> setMode m p"
  have q: "q \<in> Q" using Cons.prems(3) by (simp add: x)
  note f = fake_send_serves[OF Cons.prems(1) serves_mode[OF Cons.prems(2), of m] q]
  from Cons.IH[OF Cons.prems(1) f(2)] Cons.prems(3) f(1) show ?case
    by (auto simp: x Let_def case_prod_beta)
qed simp

lemma machine_requests_keyed:
  assumes "inj (random E)" and "reachable_system E y"
  shows "keyed_requests (pc_request ` set (sy_calls y))"
proof -
  have ok: "call_ok E (sy_world y) (sy_repo y) pc" if "pc \<in> set (sy_calls y)" for pc
    using reachable_system_wf[OF assms] that by (simp add: system_wf_def list_all_iff)
  show ?thesis
    unfolding keyed_requests_def
  proof (intro ballI)
    fix q q'
    assume "q \<in> pc_request ` set (sy_calls y)" "q' \<in> pc_request ` set (sy_calls y)"
    then obtain pc pd where "q = pc_request pc" "q' = pc_request pd" "pc \<in> set (sy_calls y)" "pd \<in> set (sy_calls y)" by blast
    with call_ok_keys[OF ok ok, of pc pd]
    show "(pq_idempotencyKey q = pq_idempotencyKey q' \<longleftrightarrow> pq_packageId q = pq_packageId q')
      \<and> (pq_packageId q = pq_packageId q' \<longrightarrow> pq_requestFingerprint q = pq_requestFingerprint q')" by blast
  qed
qed

lemma new_provider_serves: "serves Q (new_fake_provider m)"
  by (simp add: serves_def new_fake_provider_def)

lemma fake_provider_takes_once:
  assumes "inj (random E)" and "reachable_system E y" and "snd ` set qs \<subseteq> pc_request ` set (sy_calls y)"
  shows "None \<notin> set (fst (fake_serve qs (new_fake_provider m)))
    \<and> distinct (map pq_packageId (fp_requests (snd (fake_serve qs (new_fake_provider m)))))"
  using fake_serve_serves[OF machine_requests_keyed[OF assms(1,2)] new_provider_serves assms(3)] by (simp add: serves_def)

end
