(* ===== verification/Delivery_Samples.thy ===== *)
theory Delivery_Samples
  imports Delivery_Provider
begin

text \<open>
  Concrete runs of guarded delivery, for the properties with hypotheses: one approved module with one piece
  of evidence, its package confirmed and sent, the provider's answer recorded, and a second confirmation.
\<close>

section \<open>A run\<close>

definition sample_manifest :: durability_manifest where
  "sample_manifest = \<lparr>dm_manifestId = ''m'', dm_organizationId = ''org'', dm_jobId = ''job'', dm_revision = 1,
     dm_entries = [\<lparr>de_artifactId = ''a'', de_contentHash = replicate 64 (CHR ''a''), de_byteLength = 1, de_requiredOriginal = True,
       de_status = DurVerified, de_verifiedAt = Some ''t''\<rparr>], dm_canonicalHash = replicate 64 (CHR ''a'')\<rparr>"

definition sample_confirm :: confirm_command where
  "sample_confirm = \<lparr>cc_packageId = ''p'', cc_organizationId = ''org'', cc_jobId = ''job'', cc_commissionedModules = [Building],
     cc_manifest = sample_manifest, cc_expectedPackageRevision = 0, cc_idempotencyKey = ''k'', cc_confirmedAt = ''t''\<rparr>"

definition run_calls :: "delivery_call list \<Rightarrow> delivery_system" where
  "run_calls cs = fold (system_after sample_env) cs empty_system"

definition approve_calls :: "delivery_call list" where
  "approve_calls = map OfApprovals [SetAuthority sample_key \<lparr>iy_assignedInspectorId = ''insp'', iy_eligible = True, iy_credentialVersion = ''c1''\<rparr>,
     CreateSnapshot (module_snapshot_input.truncate ((sample_snapshot ''s1'' 1 ''t1'')\<lparr>ms_evidenceHashes := [replicate 64 (CHR ''a'')]\<rparr>)) 0,
     Approve sample_approve]"

definition approved_system :: delivery_system where
  "approved_system = run_calls approve_calls"

definition called_system :: delivery_system where
  "called_system = run_calls (approve_calls @ [Confirm sample_confirm, StartSend ''p'', ResumeSend 0 (Hook True), ResumeSend 0 (Egress True)])"

definition sent_system :: delivery_system where
  "sent_system = run_calls (approve_calls @ [Confirm sample_confirm, StartSend ''p'', ResumeSend 0 (Hook True), ResumeSend 0 (Egress True),
     ResumeSend 0 (Provider (Some (PrSent ''ref''))), ResumeSend 0 (Hook True)])"

lemma run_reachable: "reachable_system sample_env (run_calls cs)"
proof -
  have "reachable_system sample_env y \<Longrightarrow> reachable_system sample_env (fold (system_after sample_env) cs y)" for y
    by (induction cs arbitrary: y) (auto intro: reachable_system.step)
  then show ?thesis unfolding run_calls_def by (simp add: reachable_system.init)
qed

lemma reachable_system_world: "reachable_system E y \<Longrightarrow> reachable_world E (sy_world y)"
proof (induction rule: reachable_system.induct)
  case (step y c)
  then show ?case by (cases c) (auto simp: Let_def intro: reachable_world.step)
qed (simp add: empty_system_def reachable_world.init)

lemma called_one: "length (sy_calls called_system) = 1"
  by code_simp

lemma approved_confirms: "(case confirm sample_env (world_readers (sy_world approved_system)) sample_confirm empty_repository of
    (Inr r, t) \<Rightarrow> \<not> cr_replayed r \<and> dr_state (cr_package r) = DlQueued \<and> length (dr_moduleSnapshots (cr_package r)) = 1 | (Inl e, t) \<Rightarrow> False)"
  by code_simp

lemma sent_state: "map_option dr_state (map_of (rp_packages (sy_repo sent_system)) ''p'') = Some Sent
    \<and> map_option dr_providerReference (map_of (rp_packages (sy_repo sent_system)) ''p'') = Some (Some ''ref'')"
  by code_simp


section \<open>Identifiers of the sample environment\<close>

lemma digit_eq:
  assumes "m < 10" and "n < 10"
  shows "(char_of (48 + m) :: char) = char_of (48 + n) \<longleftrightarrow> m = (n :: nat)"
proof
  assume "(char_of (48 + m) :: char) = char_of (48 + n)"
  then have "(of_char (char_of (48 + m) :: char) :: nat) = of_char (char_of (48 + n) :: char)" by simp
  then show "m = n" using assms by simp
qed simp

lemma show_nat_not_Nil: "show_nat n \<noteq> []"
  by (simp add: show_nat.simps[of n])

lemma show_nat_inj: "show_nat m = show_nat n \<Longrightarrow> m = n"
proof (induction m arbitrary: n rule: less_induct)
  case (less m)
  show ?case
  proof (cases "m < 10 \<or> n < 10")
    case True
    then show ?thesis using less.prems digit_eq[of m n] show_nat_not_Nil[of "m div 10"] show_nat_not_Nil[of "n div 10"]
      by (auto simp: show_nat.simps[of m] show_nat.simps[of n] split: if_splits)
  next
    case False
    then have "show_nat (m div 10) = show_nat (n div 10)" and "m mod 10 = n mod 10"
      using less.prems digit_eq[of "m mod 10" "n mod 10"] by (simp_all add: show_nat.simps[of m] show_nat.simps[of n])
    with less.IH[of "m div 10"] False have "m div 10 = n div 10" by simp
    with \<open>m mod 10 = n mod 10\<close> show ?thesis by (metis div_mult_mod_eq)
  qed
qed

lemma sample_ids: "inj (random sample_env)"
  by (auto simp: inj_def sample_env_def dest: show_nat_inj)

section \<open>Witnesses\<close>

lemma confirmation_freezes_approvals_witness:
  "\<exists>r t. confirm sample_env (world_readers (sy_world approved_system)) sample_confirm empty_repository = (Inr r, t)
     \<and> map_of (rp_packages t) ''p'' = Some (cr_package r) \<and> (\<exists>ob. outbox_of t ''p'' = Some ob)
     \<and> list_all (reference_vouched sample_env (sy_world approved_system)) (dr_moduleSnapshots (cr_package r))"
proof -
  have w: "reachable_world sample_env (sy_world approved_system)"
    unfolding approved_system_def by (rule reachable_system_world[OF run_reachable])
  obtain r t where c: "confirm sample_env (world_readers (sy_world approved_system)) sample_confirm empty_repository = (Inr r, t)"
    and r: "\<not> cr_replayed r" "dr_state (cr_package r) = DlQueued"
    using approved_confirms by (auto split: prod.splits sum.splits)
  have "cc_packageId sample_confirm = ''p''" by (simp add: sample_confirm_def)
  with confirmation_freezes_approvals[OF w c r] c show ?thesis by auto
qed

lemma called_first: "hd (sy_calls called_system) \<in> set (sy_calls called_system)"
  using called_one by (cases "sy_calls called_system") auto

lemma provider_called_for_approved_witness:
  "dr_state (pc_package (hd (sy_calls called_system))) = Sending
     \<and> list_all (reference_vouched sample_env (sy_world called_system)) (dr_moduleSnapshots (pc_package (hd (sy_calls called_system))))"
  using provider_called_for_approved[OF sample_ids run_reachable called_first[unfolded called_system_def]]
  by (simp add: called_system_def)

lemma provider_requests_repeat_witness:
  "pq_idempotencyKey (pc_request (hd (sy_calls called_system))) = pq_idempotencyKey (pc_request (last (sy_calls called_system)))"
proof -
  have l: "last (sy_calls called_system) \<in> set (sy_calls called_system)" using called_one by (cases "sy_calls called_system") auto
  have "pq_packageId (pc_request (hd (sy_calls called_system))) = pq_packageId (pc_request (last (sy_calls called_system)))"
    using called_one by (cases "sy_calls called_system") auto
  then show ?thesis
    using provider_requests_repeat[OF sample_ids run_reachable called_first[unfolded called_system_def] l[unfolded called_system_def]]
    by (simp add: called_system_def)
qed

lemma cancel_sent_throws: "\<exists>e. fst (cancelPackage sample_env ''p'' JobCancelled (sy_repo sent_system)) = Inl e"
proof -
  have "isl (fst (cancelPackage sample_env ''p'' JobCancelled (sy_repo sent_system)))" by code_simp
  then show ?thesis by (cases "fst (cancelPackage sample_env ''p'' JobCancelled (sy_repo sent_system))") auto
qed

lemma delivery_errors_change_nothing_witness:
  "rp_packages (snd (cancelPackage sample_env ''p'' JobCancelled (sy_repo sent_system))) = rp_packages (sy_repo sent_system)"
proof -
  obtain e where "fst (cancelPackage sample_env ''p'' JobCancelled (sy_repo sent_system)) = Inl e" using cancel_sent_throws by blast
  from delivery_errors_change_nothing[OF this, where E = sample_env and k = "''p''" and reason = JobCancelled and s = "sy_repo sent_system"
      and R = "world_readers (sy_world sent_system)" and c = sample_confirm]
  show ?thesis by blast
qed

lemma called_cancelled:
  "map_option dr_state (map_of (rp_packages (sy_repo called_system)) ''p'') = Some Sending
    \<and> map_option dr_state (map_of (rp_packages (sy_repo (system_after sample_env (CancelPackage ''p'' JobCancelled) called_system))) ''p'')
      = Some DlCancelled"
  by code_simp

lemma delivery_refines_lifecycle_witness:
  "\<exists>v v'. map_of (rp_packages (sy_repo called_system)) ''p'' = Some v \<and> frozen_content v' = frozen_content v
     \<and> map_of (rp_packages (sy_repo (system_after sample_env (CancelPackage ''p'' JobCancelled) called_system))) ''p'' = Some v'
     \<and> lifecycle_edge called_system (CancelPackage ''p'' JobCancelled) ''p'' v DlCancelled \<and> dr_state v = Sending"
proof -
  obtain v where v: "map_of (rp_packages (sy_repo called_system)) ''p'' = Some v" "dr_state v = Sending"
    using called_cancelled by auto
  have "reachable_system sample_env called_system" unfolding called_system_def by (rule run_reachable)
  from delivery_refines_lifecycle[OF sample_ids this v(1), of "CancelPackage ''p'' JobCancelled"] v called_cancelled
  show ?thesis by auto
qed


section \<open>A sent copy recalled\<close>

text \<open>After the module's approval is withdrawn, the sent package can be confirmed again and then cancelled, which
  \<open>cancelPackage\<close> refuses for a sent copy.\<close>

definition recalled_system :: delivery_system where
  "recalled_system = fold (system_after sample_env)
     [OfApprovals (WithdrawApproval \<lparr>wr_key = sample_key, wr_expectedModuleRevision = 1, wr_inspectorId = ''insp'',
        wr_recentAuthentication = True, wr_recordedAt = ''t'', wr_reasonCode = ''r''\<rparr>),
      Confirm (sample_confirm\<lparr>cc_idempotencyKey := ''k2'', cc_expectedPackageRevision := 3\<rparr>),
      CancelPackage ''p'' DeliverySuspended] sent_system"

lemma sent_copy_recalled:
  "map_option dr_state (map_of (rp_packages (sy_repo sent_system)) ''p'') = Some Sent
   \<and> map_option dr_state (map_of (rp_packages (sy_repo recalled_system)) ''p'') = Some DlCancelled
   \<and> map_option dr_providerReference (map_of (rp_packages (sy_repo recalled_system)) ''p'') = Some None"
proof -
  have "map_option dr_state (map_of (rp_packages (sy_repo recalled_system)) ''p'') = Some DlCancelled
     \<and> map_option dr_providerReference (map_of (rp_packages (sy_repo recalled_system)) ''p'') = Some None" by code_simp
  then show ?thesis using sent_state by blast
qed

end
