(* ===== verification/Spec2Isabelle.thy ===== *)
theory Spec2Isabelle
  imports Packages Packet Sync_Properties Task_Queue Slots Quotes Booking_Properties Recipient_Samples Delivery_Samples
begin

text \<open>
  InspectionHub books building inspections, records what an inspector finds, has each professional module
  (building, timber pest) approved by the inspector who signs it, freezes the approved modules into a
  package, sends the package and lets its recipient read and share it.  The packages under
  \<open>src/packages\<close> hold that logic; the web, mobile and worker applications under \<open>src/apps\<close> call it.
  This library models the packages that decide: what is booked, approved, frozen, sent, retried and
  shown to whom.

  \<^bold>\<open>Parts and theories.\<close>

  \<^item> Foundations.  \<open>Prelude\<close>: results as sums, JavaScript numbers, insertion-ordered maps, and the record
    \<open>env\<close> of everything the code takes from outside.  \<open>Effects\<close>: composition of operations of a stateful
    class that may throw, with what they had changed.  \<open>Js_Date\<close>: ECMAScript dates and ISO text.
    \<open>Canonical\<close>: canonical JSON and digests (\<open>domain/src/canonical.ts\<close>).  \<open>Contracts\<close>: the zod schemas of
    findings, coverage and snapshots (\<open>contracts/src/common.ts\<close>, \<open>artifacts.ts\<close>, \<open>findings.ts\<close>, \<open>modules.ts\<close>).

  \<^item> Professional modules.  \<open>Module_Transitions\<close> (\<open>domain/src/transitions.ts\<close>, \<open>snapshots.ts\<close>): one module
    from its initial state through snapshot, approval, amendment, evidence at risk and withdrawal.  \<open>Packages\<close>
    (the same file and \<open>contracts/src/delivery.ts\<close>, \<open>lifecycle.ts\<close>): packages, grants and lifecycle records
    built from module states.

  \<^item> \<open>Task_Queue\<close> (\<open>task-queue/src/in-memory-queue.ts\<close>): the durable queue, its leases with fencing
    generations, retries with backoff, dependencies and reconciliation of unknown results.

  \<^item> Booking.  \<open>Booking_Schemas\<close>, \<open>Quotes\<close>, \<open>Slots\<close>, \<open>Bookings\<close>, \<open>Booking_Workflow\<close>, \<open>Booking_Forms\<close>,
    \<open>Booking_Commands\<close> (\<open>booking/src\<close>): prices, the slot book and the booking workflow with its calendar,
    checkout and agreement dependencies.  \<open>Agreements\<close> (\<open>agreements/src\<close>): scopes and signatures.
    \<open>Booking_Machine\<close> is the abstract life of a booking; \<open>Booking_Properties\<close> shows that the workflow refines it.

  \<^item> Inspection (\<open>domain/src/inspection\<close>).  \<open>Investigation\<close> (\<open>investigation.ts\<close>): an investigation from its start
    through area visits, evidence, measurements, observations, pauses and closure, with its timeline;
    \<open>Investigation_Properties\<close> holds the proofs.  \<open>Coverage_Ledger\<close> (\<open>coverage.ts\<close>): what was inspected, limited or
    left to revisit, per area and module.  \<open>Packet\<close> (\<open>packet.ts\<close>): the frozen, hashed selection of a closed
    investigation that drafting works from.  \<open>Js_Sort\<close>: the stable sort by a comparison callback they use.

  \<^item> Evidence storage (\<open>storage/src\<close>).  \<open>Media\<close> (\<open>content-pipeline.ts\<close>): signatures, the deterministic decoder and the
    content policy, over bytes.  \<open>Sync_Store\<close> (\<open>object-store.ts\<close>, \<open>repository.ts\<close>, \<open>sync-service.ts\<close>, the pipeline class):
    upload intents, the immutable object store, the commit of durability and the quarantine that confers trust,
    as calls cut at their awaits.  \<open>Sync_Invariants\<close> and \<open>Sync_Machine\<close> carry its invariant through every segment and
    every action; \<open>Reconciliation\<close> (\<open>reconciliation.ts\<close>) compares objects with rows while calls go on;
    \<open>Sync_Properties\<close> states the results and runs a concrete upload.

  \<^item> Recipients.  \<open>Recipient_Access\<close> (\<open>recipient-access/src\<close>): mailbox codes, grants, delegation, invitations and
    the authorisation of each request.  \<open>Recipient_Invariants\<close>, \<open>Recipient_Machine\<close> and
    \<open>Recipient_Properties\<close> prove its invariants over interleaved requests, \<open>Recipient_Samples\<close> runs it.

  \<^item> Approvals and delivery.  \<open>Snapshot_Store\<close> (\<open>reporting/src/snapshot/snapshot-store.ts\<close>) keeps immutable
    snapshots; \<open>Approvals\<close> (\<open>approvals/src/approval-service.ts\<close>) records approvals of the exact current
    one; \<open>Delivery\<close> (\<open>delivery/src/manifest.ts\<close>, \<open>repository.ts\<close>, \<open>delivery-service.ts\<close>) freezes a package
    with its durability manifest and outbox record; \<open>Delivery_Worker\<close> (\<open>delivery/src/worker.ts\<close>) sends it;
    \<open>Delivery_Provider\<close> is the provider of the rehearsals.  \<open>Delivery_Invariants\<close>, \<open>Delivery_System\<close>,
    \<open>Delivery_Machine\<close> and \<open>Delivery_Properties\<close> carry the proofs, \<open>Delivery_Samples\<close> the concrete runs.

  \<^bold>\<open>State and operations.\<close>  A class is a record of its private fields; an operation is a function named as
  its method that returns its result, or the error thrown, and the state it leaves.  A method with an
  \<open>await\<close> in the middle is cut there: \<open>DeliveryWorker.send\<close> becomes the segments \<open>send_start\<close>,
  \<open>send_authorise\<close>, \<open>send_dispatch\<close>, \<open>send_result\<close> and \<open>send_record\<close>, between which any other operation may
  run.  Uploads, finalisations and inspections of evidence are program counters (\<open>sync_pc\<close>) that \<open>run_pc\<close> resumes; a
  waiting call may also be lost, as when the process dies.  A store call and what its caller does with the
  answer are one step there: objects never change, so an answer stays true until it is used.
  A transaction that throws restores packages, outbox, idempotency index and events, but not the
  identifiers and clock readings it used (\<open>transact\<close>).  Reachability is an inductive predicate over the
  operations of a component: \<open>reachable_world\<close>, \<open>reachable_system\<close> and their like in the other theories.

  \<^bold>\<open>Interfaces.\<close>  \<open>Ledger.idempotent_operation\<close> is the contract of an operation answered once per key; it is
  interpreted on the task queue, slot, booking and approval commands.  \<open>Versioned\<close> holds the contract of
  commands guarded by a revision.  \<open>Approvals.approval_reader\<close> is what delivery relies on when it reads
  approvals: a current approval is vouched for, belongs to the module asked for, excludes a withdrawal, and
  stays vouched for; it is interpreted on the approval world and used by the delivery machine.

  \<^bold>\<open>What is shown.\<close>  Per component: the invariant of its reachable states; what each operation does on
  success and on error; that errors change nothing, or exactly what they do change; round trips of
  snapshots and agreements; bounds of backoff and of wrong codes; the end of the walk over delegated
  grants even in a cycle; the equivalence of authorisation with its specification; refinement of the
  abstract life of a booking and of a package.  Across components: a confirmation freezes exactly the
  approvals that are current; whenever the provider is called the package is sending, unblocked and frozen
  to recorded approvals of stored, verified snapshots; all requests for one package carry one key and one
  fingerprint.  Every step of delivery makes on a package at most the
  move its operation allows.  The timeline of an investigation replays, with its closure, to its status and area, and the limitations in force are what the latest
  coverage says; an evidence row is always backed by the bytes it was verified against, nothing stored ever
  changes, and only an inspected proxy is trusted.  Where the code does not do what it means to, the theorem states what it does:
  \<open>cancel_with_unsafe_reason_half_applied\<close>, \<open>untrimmed_key_not_replayed\<close>,
  \<open>amendment_reusing_identifier_keeps_old_snapshot\<close>, \<open>edit_notice_clears_withdrawal\<close>,
  \<open>confirmation_overwrites_sent\<close>, \<open>sent_copy_recalled\<close>, \<open>span_may_name_a_photo\<close>, \<open>duplicate_capture_crosses_jobs\<close>,
  \<open>reconciliation_misses_a_late_commit\<close> and \<open>bare_header_claims_a_day\<close>.

  \<^bold>\<open>Outside the code.\<close>  SHA-256, \<open>localeCompare\<close>, the zod formats, dates outside the ECMAScript format, the
  clock and the generator of identifiers are fields of \<open>env\<close> and of \<open>recipient_options\<close>, arbitrary in the
  theorems.  The assumptions that are made are named: what the generators draw is distinct (\<open>inj (random E)\<close>
  in delivery and evidence storage, \<open>fresh_tokens\<close> for recipients), and the clock goes forward (\<open>clock_forward\<close>) or stands still
  during one request where a theorem compares readings.
  The egress guard, the hooks of a sending and the provider answer as arguments of the segment that resumes; so do
  the media decoder, the task sink and the lease of evidence storage (\<open>sync_answer\<close>), any answer allowed.

  \<^bold>\<open>Bounds and fuel.\<close>  No definition needs fuel: every loop is structural or has a proved measure.  Integers are
  unbounded where the code holds safe integers it has checked; \<open>safe_int\<close> is written out where the code
  tests for it.  Bytes are 8-bit words and the shifts of the decoder 32-bit words; the two divisions it rounds are
  computed as doubles (\<open>double_quotient\<close>).  The longest array an engine allocates is the parameter \<open>room\<close>.

  \<^bold>\<open>Not modelled.\<close>  Text is a list of 8-bit characters, so code units above 255 are out of scope; the
  \<open>RangeError\<close> of \<open>toISOString\<close> beyond the year 275760 is not raised; freezing objects has no counterpart,
  values being immutable; the details of error objects are left out.  The states that the approval readers
  create on first use are not part of a confirmation's effect, since no answer depends on them.  Transcript times
  are whole milliseconds; the hooks that corrupt the object store in tests are left out.  Left for
  later: the event replay of \<open>domain/src\<close>, the guards of the drafting agent, the offline capture ledger of the mobile
  application and the loop around the task queue.  The user interfaces, report rendering, provider adapters,
  database schema and repository scripts hold no decision of their own.
\<close>

end
